(* ===== verification/GoPrelude.thy ===== *)
theory GoPrelude
  imports Complex_Main "HOL-Library.Word" "HOL-Library.Sublist" "HOL-Library.List_Lexorder"
    "HOL-Library.Char_ord" "HOL-Library.Multiset"
begin

text \<open>
  The Go layer every component theory shares.

  \<^item> Instants (\<^verbatim>\<open>time.Time\<close>) are integers counting nanoseconds; a duration
    (\<^verbatim>\<open>time.Duration\<close>) is an int64 number of nanoseconds, and products of durations wrap
    around through \<open>i64\<close>. The clock is never read inside a definition: an operation
    that calls \<^verbatim>\<open>time.Now()\<close> takes the instant as its argument \<open>now\<close>.
  \<^item> Strings are byte lists; white space is the ASCII white space of
    \<^verbatim>\<open>strings.TrimSpace\<close>.
  \<^item> A Go map is a partial function. The order in which \<^verbatim>\<open>for range\<close> visits a
    map is not determined by the language: an operation that ranges over a map takes the visiting
    order as an argument, and \<open>iter_order\<close> says that it lists every key once. A theorem
    about such an operation holds for every order.
  \<^item> \<^verbatim>\<open>encoding/json\<close> is modelled at the level of documents: a byte string that is a
    JSON text is identified with the document it denotes (\<open>Doc\<close>), any other byte string
    is \<open>Raw\<close>. An instant is written by Go as an RFC 3339 string and read back unchanged;
    \<open>JTime\<close> stands for that string.

  The theory also holds the reasoning the components share: the identifier scheme
  \<^verbatim>\<open>prefix-N\<close> (locale \<open>id_scheme\<close>), the iteration order of maps and the loop
  that prunes one, and the selection loop that keeps the best candidate (locale
  \<open>strict_pref\<close>).
\<close>

section \<open>Types and collections\<close>

type_synonym instant = int
type_synonym duration = int
type_synonym uint64 = "64 word"

named_theorems go_simps \<open>unfolding rules of the Go helper functions\<close>

section \<open>Machine integers and time\<close>

definition i64 :: "int \<Rightarrow> int" where
  "i64 x = (x + 2 ^ 63) mod 2 ^ 64 - 2 ^ 63"

definition is_i64 :: "int \<Rightarrow> bool" where
  "is_i64 x \<longleftrightarrow> - (2 ^ 63) \<le> x \<and> x < 2 ^ 63"

lemma i64_id: "is_i64 x \<Longrightarrow> i64 x = x"
  by (simp add: i64_def is_i64_def)

lemma i64_range: "is_i64 (i64 x)"
proof -
  have "0 \<le> (x + 2 ^ 63) mod 2 ^ 64" and "(x + 2 ^ 63) mod 2 ^ 64 < (2 ^ 64 :: int)"
    by simp_all
  then show ?thesis by (simp add: i64_def is_i64_def)
qed

lemma i64_is_signed_word: "i64 x = sint (word_of_int x :: 64 word)"
  by (simp add: i64_def sint_sbintrunc' signed_take_bit_eq_take_bit_shift take_bit_eq_mod)

abbreviation second_ns :: int where "second_ns \<equiv> 1000000000"
abbreviation millisecond_ns :: int where "millisecond_ns \<equiv> 1000000"

lemma word_succ_gt: "c + 1 \<noteq> 0 \<Longrightarrow> (c :: 'a::len word) < c + 1"
  by unat_arith

text \<open>\<^verbatim>\<open>time.Duration(n) * time.Second\<close>, with int64 wrap-around.\<close>

definition seconds :: "int \<Rightarrow> duration" where
  "seconds n = i64 (n * second_ns)"

text \<open>\<^verbatim>\<open>t.Sub(u)\<close>, which saturates at the bounds of a duration.\<close>

definition time_sub :: "instant \<Rightarrow> instant \<Rightarrow> duration" where
  "time_sub t u = max (- (2 ^ 63)) (min (2 ^ 63 - 1) (t - u))"

lemma time_sub_ge: "is_i64 d \<Longrightarrow> d \<le> time_sub t u \<longleftrightarrow> u + d \<le> t \<or> d = - (2 ^ 63)"
  by (auto simp: time_sub_def is_i64_def)

text \<open>
  The test \<^verbatim>\<open>e.ExpiresAt != nil && now.After(*e.ExpiresAt)\<close> of every expiring record.
\<close>

definition expired :: "instant \<Rightarrow> instant option \<Rightarrow> bool" where
  "expired now e \<longleftrightarrow> (case e of None \<Rightarrow> False | Some t \<Rightarrow> t < now)"

lemma expired_simps [simp]:
  "\<not> expired now None"
  "expired now (Some t) \<longleftrightarrow> t < now"
  by (simp_all add: expired_def)

lemma expired_mono: "expired now e \<Longrightarrow> now \<le> later \<Longrightarrow> expired later e"
  by (cases e) auto

section \<open>Strings\<close>

definition is_space :: "char \<Rightarrow> bool" where
  "is_space c \<longleftrightarrow> c \<in> {CHR '' '', CHR 0x09, CHR 0x0A, CHR 0x0B, CHR 0x0C, CHR 0x0D}"

definition trim_space :: "string \<Rightarrow> string" where
  "trim_space s = rev (dropWhile is_space (rev (dropWhile is_space s)))"

abbreviation blank :: "string \<Rightarrow> bool" where
  "blank s \<equiv> trim_space s = []"

lemma blank_iff: "blank s \<longleftrightarrow> (\<forall>c \<in> set s. is_space c)"
proof
  assume b: "blank s"
  then have "\<forall>c \<in> set (dropWhile is_space s). is_space c"
    by (simp add: trim_space_def)
  moreover have "\<forall>c \<in> set (takeWhile is_space s). is_space c"
    by (blast dest: set_takeWhileD)
  moreover have "set s = set (takeWhile is_space s) \<union> set (dropWhile is_space s)"
    by (metis set_append takeWhile_dropWhile_id)
  ultimately show "\<forall>c \<in> set s. is_space c" by blast
next
  assume "\<forall>c \<in> set s. is_space c"
  then have "dropWhile is_space s = []" by simp
  then show "blank s" by (simp only: trim_space_def) simp
qed

lemma trim_space_Nil [simp]: "trim_space [] = []"
  by (simp add: trim_space_def)

definition to_lower_char :: "char \<Rightarrow> char" where
  "to_lower_char c = (if CHR ''A'' \<le> c \<and> c \<le> CHR ''Z'' then char_of (of_char c + 32 :: nat) else c)"

definition to_lower :: "string \<Rightarrow> string" where
  "to_lower = map to_lower_char"

definition to_upper_char :: "char \<Rightarrow> char" where
  "to_upper_char c = (if CHR ''a'' \<le> c \<and> c \<le> CHR ''z'' then char_of (of_char c - 32 :: nat) else c)"

definition to_upper :: "string \<Rightarrow> string" where
  "to_upper = map to_upper_char"

text \<open>\<^verbatim>\<open>strings.Split(s, sep)\<close> for a one-byte separator, and
  \<^verbatim>\<open>strings.SplitN(s, sep, 2)\<close>.\<close>

fun split_on :: "char \<Rightarrow> string \<Rightarrow> string list" where
  "split_on d [] = [[]]"
| "split_on d (c # cs) =
     (if c = d then [] # split_on d cs
      else (case split_on d cs of [] \<Rightarrow> [[c]] | w # ws \<Rightarrow> (c # w) # ws))"

definition split2 :: "char \<Rightarrow> string \<Rightarrow> string list" where
  "split2 d s = (if d \<in> set s
     then [takeWhile (\<lambda>c. c \<noteq> d) s, tl (dropWhile (\<lambda>c. c \<noteq> d) s)] else [s])"

fun join :: "string \<Rightarrow> string list \<Rightarrow> string" where
  "join sep [] = []"
| "join sep [x] = x"
| "join sep (x # y # ys) = x @ sep @ join sep (y # ys)"

lemma split_on_no_sep: "d \<notin> set s \<Longrightarrow> split_on d s = [s]"
  by (induction s) auto

lemma split_on_append: "d \<notin> set s \<Longrightarrow> split_on d (s @ [d] @ r) = s # split_on d r"
  by (induction s) auto

lemma split_on_join:
  "xs \<noteq> [] \<Longrightarrow> \<forall>x \<in> set xs. d \<notin> set x \<Longrightarrow> split_on d (join [d] xs) = xs"
proof (induction xs rule: induct_list012)
  case (3 x y ys)
  then show ?case using split_on_append [of d x "join [d] (y # ys)"] by simp
qed (simp_all add: split_on_no_sep)

lemma split2_append: "d \<notin> set s \<Longrightarrow> split2 d (s @ [d] @ r) = [s, r]"
  by (induction s) (auto simp: split2_def)

text \<open>A string that neither starts nor ends with white space.\<close>

definition trimmed :: "string \<Rightarrow> bool" where
  "trimmed s \<longleftrightarrow> s \<noteq> [] \<and> \<not> is_space (hd s) \<and> \<not> is_space (last s)"

lemma trim_space_trimmed: "trimmed s \<Longrightarrow> trim_space s = s"
proof -
  assume s: "trimmed s"
  then have "dropWhile is_space s = s" by (cases s) (auto simp: trimmed_def)
  moreover from s have "dropWhile is_space (rev s) = rev s"
    by (cases s rule: rev_cases) (auto simp: trimmed_def)
  ultimately show ?thesis by (simp add: trim_space_def)
qed

lemma trimmed_append: "trimmed s \<Longrightarrow> trimmed t \<Longrightarrow> trimmed (s @ m @ t)"
  by (auto simp: trimmed_def hd_append)

lemma trimmed_join: "xs \<noteq> [] \<Longrightarrow> \<forall>x \<in> set xs. trimmed x \<Longrightarrow> trimmed (join sep xs)"
proof (induction xs rule: induct_list012)
  case (3 x y ys)
  then show ?case using trimmed_append [of x "join sep (y # ys)" sep] by simp
qed simp_all

text \<open>\<^verbatim>\<open>fmt.Sprintf("%d", n)\<close> for a non-negative number, and
  \<^verbatim>\<open>fmt.Sscanf(s, "%d", &n)\<close> into a uint64 that is zero before: leading blanks are
  skipped, the longest run of digits is read, and a missing or overflowing number leaves zero.\<close>

definition digit_char :: "nat \<Rightarrow> char" where
  "digit_char d = char_of (48 + d)"

definition is_digit :: "char \<Rightarrow> bool" where
  "is_digit c \<longleftrightarrow> CHR ''0'' \<le> c \<and> c \<le> CHR ''9''"

definition digit_val :: "char \<Rightarrow> nat" where
  "digit_val c = of_char c - 48"

fun show_nat :: "nat \<Rightarrow> string" where
  "show_nat n = (if n < 10 then [digit_char n] else show_nat (n div 10) @ [digit_char (n mod 10)])"

declare show_nat.simps [simp del]

definition digits_val :: "string \<Rightarrow> nat" where
  "digits_val ds = foldl (\<lambda>v c. 10 * v + digit_val c) 0 ds"

definition scan_uint64 :: "string \<Rightarrow> uint64" where
  "scan_uint64 s =
     (let ds = takeWhile is_digit (dropWhile (\<lambda>c. is_space c \<and> c \<noteq> CHR 0x0A) s)
      in if ds = [] \<or> 2 ^ 64 \<le> digits_val ds then 0 else word_of_nat (digits_val ds))"

lemma digit_char_digit: "d < 10 \<Longrightarrow> is_digit (digit_char d)"
  by (simp add: digit_char_def is_digit_def less_eq_char_def)

lemma digit_char_code [simp]:
  "digit_char 0 = CHR ''0''" "digit_char (Suc 0) = CHR ''1''" "digit_char 1 = CHR ''1''"
  "digit_char 2 = CHR ''2''" "digit_char 3 = CHR ''3''" "digit_char 4 = CHR ''4''"
  "digit_char 5 = CHR ''5''" "digit_char 6 = CHR ''6''" "digit_char 7 = CHR ''7''"
  "digit_char 8 = CHR ''8''" "digit_char 9 = CHR ''9''"
  by (simp_all add: digit_char_def char_of_def bit_0)

lemma digit_val_digit_char: "d < 10 \<Longrightarrow> digit_val (digit_char d) = d"
  by (simp add: digit_char_def digit_val_def)

lemma digit_not_space: "is_digit c \<Longrightarrow> \<not> is_space c"
  by (auto simp: is_digit_def is_space_def less_eq_char_def)

lemma show_nat_digits: "\<forall>c \<in> set (show_nat n). is_digit c"
proof (induction n rule: show_nat.induct)
  case (1 n)
  then show ?case
    by (subst show_nat.simps) (auto simp: digit_char_digit)
qed

lemma show_nat_nonempty: "show_nat n \<noteq> []"
  by (subst show_nat.simps) simp

lemma digits_val_show_nat: "digits_val (show_nat n) = n"
proof (induction n rule: show_nat.induct)
  case (1 n)
  show ?case
  proof (cases "n < 10")
    case True
    then show ?thesis
      by (subst show_nat.simps) (simp add: digits_val_def digit_val_digit_char)
  next
    case False
    with 1 show ?thesis
      by (subst show_nat.simps) (simp add: digits_val_def digit_val_digit_char)
  qed
qed

lemma scan_show_nat: "n < 2 ^ 64 \<Longrightarrow> scan_uint64 (show_nat n) = word_of_nat n"
proof -
  assume n: "n < 2 ^ 64"
  have d: "dropWhile (\<lambda>c. is_space c \<and> c \<noteq> CHR 0x0A) (show_nat n) = show_nat n"
    using show_nat_digits [of n] show_nat_nonempty [of n]
    by (cases "show_nat n") (auto dest: digit_not_space)
  have t: "takeWhile is_digit (show_nat n) = show_nat n"
    using show_nat_digits [of n] by (simp add: takeWhile_eq_all_conv)
  show ?thesis
    unfolding scan_uint64_def Let_def d t
    using n by (simp add: show_nat_nonempty digits_val_show_nat)
qed

section \<open>Identifiers of the form prefix-N\<close>

definition numbered :: "string \<Rightarrow> uint64 \<Rightarrow> string" where
  "numbered pfx n = pfx @ show_nat (unat n)"

definition parse_num :: "string \<Rightarrow> string \<Rightarrow> uint64" where
  "parse_num pfx s = (if prefix pfx s then scan_uint64 (drop (length pfx) s) else 0)"

lemma parse_num_numbered: "parse_num pfx (numbered pfx n) = n"
proof -
  have "unat n < 2 ^ 64"
    using unsigned_less [of n] by simp
  then show ?thesis
    by (simp add: parse_num_def numbered_def scan_show_nat)
qed

text \<open>
  Managers allocate identifiers from a counter and read the counter back from identifiers found
  in the store. The contract of such a scheme is that the number can be read back; what its users
  rely on is that an identifier made from the next counter value is new.
\<close>

locale id_scheme =
  fixes mk :: "uint64 \<Rightarrow> string"
    and num :: "string \<Rightarrow> uint64"
  assumes num_mk: "num (mk n) = n"
begin

lemma mk_inject: "mk m = mk n \<Longrightarrow> m = n"
  using num_mk by metis

lemma fresh:
  assumes "\<forall>i \<in> A. num i \<le> c" and "c + 1 \<noteq> 0"
  shows "mk (c + 1) \<notin> A"
proof
  assume "mk (c + 1) \<in> A"
  with assms(1) have "c + 1 \<le> c" by (metis num_mk)
  with assms(2) show False
    using word_succ_gt [of c] by simp
qed

lemma bounded_insert:
  assumes "\<forall>i \<in> A. num i \<le> c" and "c + 1 \<noteq> 0"
  shows "\<forall>i \<in> insert (mk (c + 1)) A. num i \<le> c + 1"
proof -
  have "c < c + 1"
    using assms(2) by (rule word_succ_gt)
  with assms(1) show ?thesis by (auto simp: num_mk)
qed

end

section \<open>Maps and their iteration order\<close>

lemma distinct_set_single: "distinct xs \<Longrightarrow> set xs = {a} \<Longrightarrow> xs = [a]"
proof (cases xs)
  case (Cons x ys)
  assume "distinct xs" "set xs = {a}"
  with Cons show ?thesis by (cases ys) auto
qed simp

definition iter_order :: "('k \<rightharpoonup> 'v) \<Rightarrow> 'k list \<Rightarrow> bool" where
  "iter_order m ks \<longleftrightarrow> distinct ks \<and> set ks = dom m"

text \<open>The values a \<^verbatim>\<open>for range\<close> loop sees, in visiting order.\<close>

definition range_vals :: "('k \<rightharpoonup> 'v) \<Rightarrow> 'k list \<Rightarrow> 'v list" where
  "range_vals m ks = map (\<lambda>k. the (m k)) (filter (\<lambda>k. m k \<noteq> None) ks)"

lemma set_range_vals: "iter_order m ks \<Longrightarrow> set (range_vals m ks) = ran m"
  by (force simp: iter_order_def range_vals_def ran_def dom_def image_iff)

lemma range_vals_order: "iter_order m ks \<Longrightarrow> range_vals m ks = map (\<lambda>k. the (m k)) ks"
  by (simp add: iter_order_def range_vals_def filter_id_conv dom_def)

lemma iter_order_empty [simp]: "iter_order Map.empty ks \<longleftrightarrow> ks = []"
  by (auto simp: iter_order_def)

text \<open>
  A loop over a map that deletes every entry satisfying a test and counts the deletions.
\<close>

definition prune_map :: "('v \<Rightarrow> bool) \<Rightarrow> ('k \<rightharpoonup> 'v) \<Rightarrow> 'k list \<Rightarrow> ('k \<rightharpoonup> 'v) \<times> nat" where
  "prune_map dead m ks = fold (\<lambda>k (acc, n).
     case acc k of None \<Rightarrow> (acc, n)
     | Some v \<Rightarrow> if dead v then (acc(k := None), n + 1) else (acc, n)) ks (m, 0)"

lemma prune_map_fold:
  assumes "distinct ks"
  shows "fold (\<lambda>k (acc, n).
     case acc k of None \<Rightarrow> (acc, n)
     | Some v \<Rightarrow> if dead v then (acc(k := None), n + 1) else (acc, n)) ks (m, n0) =
    ((\<lambda>k. if k \<in> set ks then (case m k of None \<Rightarrow> None | Some v \<Rightarrow> if dead v then None else Some v)
          else m k),
     n0 + length (filter (\<lambda>k. case m k of None \<Rightarrow> False | Some v \<Rightarrow> dead v) ks))"
  using assms
proof (induction ks arbitrary: m n0)
  case Nil
  then show ?case by simp
next
  case (Cons k ks)
  then show ?case
  proof (cases "\<exists>v. m k = Some v \<and> dead v")
    case True
    moreover have "filter (\<lambda>j. case (m(k := None)) j of None \<Rightarrow> False | Some v \<Rightarrow> dead v) ks =
        filter (\<lambda>j. case m j of None \<Rightarrow> False | Some v \<Rightarrow> dead v) ks"
      using Cons.prems by (auto intro!: filter_cong)
    ultimately show ?thesis
      using Cons by (auto simp: fun_eq_iff)
  next
    case False
    then have "fold (\<lambda>k (acc, n). case acc k of None \<Rightarrow> (acc, n)
       | Some v \<Rightarrow> if dead v then (acc(k := None), n + 1) else (acc, n)) (k # ks) (m, n0) =
      fold (\<lambda>k (acc, n). case acc k of None \<Rightarrow> (acc, n)
       | Some v \<Rightarrow> if dead v then (acc(k := None), n + 1) else (acc, n)) ks (m, n0)"
      by (auto split: option.splits)
    with Cons False show ?thesis
      by (auto simp: fun_eq_iff split: option.splits)
  qed
qed

lemma prune_map_spec:
  assumes "iter_order m ks"
  shows "fst (prune_map dead m ks) = (\<lambda>k. case m k of None \<Rightarrow> None | Some v \<Rightarrow> if dead v then None else Some v)"
    and "snd (prune_map dead m ks) = card {k. \<exists>v. m k = Some v \<and> dead v}"
proof -
  from assms have d: "distinct ks" and s: "set ks = dom m" by (auto simp: iter_order_def)
  show "fst (prune_map dead m ks) = (\<lambda>k. case m k of None \<Rightarrow> None | Some v \<Rightarrow> if dead v then None else Some v)"
    using s by (auto simp: prune_map_def prune_map_fold [OF d] fun_eq_iff split: option.splits)
  have "{k. \<exists>v. m k = Some v \<and> dead v} = set (filter (\<lambda>k. case m k of None \<Rightarrow> False | Some v \<Rightarrow> dead v) ks)"
    using s by (auto split: option.splits)
  then show "snd (prune_map dead m ks) = card {k. \<exists>v. m k = Some v \<and> dead v}"
    using d distinct_card [of "filter (\<lambda>k. case m k of None \<Rightarrow> False | Some v \<Rightarrow> dead v) ks"]
    by (simp add: prune_map_def prune_map_fold [OF d])
qed

section \<open>Keeping the best candidate\<close>

text \<open>
  The loop \<^verbatim>\<open>for x := range xs { if !ok(x) { continue }; if best == nil || better(x, best) { best = x } }\<close>.
\<close>

fun select_best :: "('a \<Rightarrow> bool) \<Rightarrow> ('a \<Rightarrow> 'a \<Rightarrow> bool) \<Rightarrow> 'a option \<Rightarrow> 'a list \<Rightarrow> 'a option" where
  "select_best ok better best [] = best"
| "select_best ok better best (x # xs) =
     select_best ok better
       (if \<not> ok x then best
        else (case best of None \<Rightarrow> Some x | Some b \<Rightarrow> if better x b then Some x else Some b)) xs"

lemma select_best_Some: "select_best ok better (Some b) xs \<noteq> None"
  by (induction xs arbitrary: b) auto

lemma select_best_mem:
  "select_best ok better best xs = Some b \<Longrightarrow> best = Some b \<or> (b \<in> set xs \<and> ok b)"
  by (induction xs arbitrary: best) (auto split: if_splits option.splits)

lemma select_best_None: "select_best ok better None xs = None \<longleftrightarrow> (\<forall>x \<in> set xs. \<not> ok x)"
  by (induction xs) (auto simp: select_best_Some)

locale strict_pref =
  fixes better :: "'a \<Rightarrow> 'a \<Rightarrow> bool"
  assumes better_irrefl: "\<not> better x x"
    and better_trans: "better x y \<Longrightarrow> better y z \<Longrightarrow> better x z"
begin

lemma select_best_best_aux:
  "select_best ok better (Some c) xs = Some b \<Longrightarrow>
     (b = c \<or> better b c) \<and> (\<forall>x \<in> set xs. ok x \<longrightarrow> \<not> better x b)"
proof (induction xs arbitrary: c)
  case Nil
  then show ?case by simp
next
  case (Cons x xs)
  show ?case
  proof (cases "ok x \<and> better x c")
    case True
    with Cons have "(b = x \<or> better b x) \<and> (\<forall>y \<in> set xs. ok y \<longrightarrow> \<not> better y b)" by simp
    with True show ?thesis using better_irrefl better_trans by auto
  next
    case False
    with Cons have "(b = c \<or> better b c) \<and> (\<forall>y \<in> set xs. ok y \<longrightarrow> \<not> better y b)"
      by (auto split: if_splits)
    with False show ?thesis using better_trans by auto
  qed
qed

lemma select_best_best:
  "select_best ok better None xs = Some b \<Longrightarrow> (\<forall>x \<in> set xs. ok x \<longrightarrow> \<not> better x b)"
proof (induction xs)
  case Nil
  then show ?case by simp
next
  case (Cons x xs)
  then show ?case
    using select_best_best_aux [of ok x xs b] better_irrefl better_trans
    by (auto split: if_splits)
qed

lemma select_best_correct:
  assumes "select_best ok better None xs = Some b"
  shows "b \<in> set xs" and "ok b" and "\<And>x. x \<in> set xs \<Longrightarrow> ok x \<Longrightarrow> \<not> better x b"
  using select_best_mem [OF assms] select_best_best [OF assms] by auto

end

end
