(* ===== verification/JsonDoc.thy ===== *)
theory JsonDoc
  imports GoPrelude
begin

text \<open>
  JSON documents and the part of \<^verbatim>\<open>encoding/json\<close> the persisted records use: fields
  are written under their tag, a field marked \<^verbatim>\<open>omitempty\<close> is left out when it holds
  its zero value, and on reading a missing field (or a JSON null) leaves the zero value while a
  value of the wrong kind makes \<^verbatim>\<open>Unmarshal\<close> fail. Field names are matched exactly, as
  in every document \<^verbatim>\<open>Marshal\<close> produces.
\<close>

datatype json =
    JNull
  | JBool bool
  | JInt int
  | JNum rat
  | JStr string
  | JTime instant
  | JArr "json list"
  | JObj "(string \<times> json) list"

text \<open>A stored byte string: a JSON text, named by its document, or any other bytes.\<close>

datatype blob = Doc json | Raw string

text \<open>
  A \<^verbatim>\<open>map[string]any\<close> is nil (\<open>None\<close>) or the list of its entries in the
  key order in which \<^verbatim>\<open>Marshal\<close> writes them.
\<close>

type_synonym payload = "(string \<times> json) list option"

text \<open>The zero \<^verbatim>\<open>time.Time\<close>: 1 January of year 1, in nanoseconds from the Unix epoch.\<close>

definition zero_time :: instant where
  "zero_time = - 62135596800 * second_ns"

named_theorems json_field \<open>lookup of a field in a written document\<close>

section \<open>Writing fields\<close>

definition opt_str :: "string \<Rightarrow> string \<Rightarrow> (string \<times> json) list" where
  "opt_str k s = (if s = [] then [] else [(k, JStr s)])"

definition opt_int :: "string \<Rightarrow> int \<Rightarrow> (string \<times> json) list" where
  "opt_int k n = (if n = 0 then [] else [(k, JInt n)])"

definition opt_time :: "string \<Rightarrow> instant option \<Rightarrow> (string \<times> json) list" where
  "opt_time k t = (case t of None \<Rightarrow> [] | Some x \<Rightarrow> [(k, JTime x)])"

definition opt_payload :: "string \<Rightarrow> payload \<Rightarrow> (string \<times> json) list" where
  "opt_payload k p = (case p of None \<Rightarrow> [] | Some kvs \<Rightarrow> if kvs = [] then [] else [(k, JObj kvs)])"

section \<open>Reading fields\<close>

definition field :: "(string \<times> json) list \<Rightarrow> string \<Rightarrow> json" where
  "field fs k = (case map_of (rev fs) k of None \<Rightarrow> JNull | Some v \<Rightarrow> v)"

fun as_str :: "json \<Rightarrow> string option" where
  "as_str JNull = Some []"
| "as_str (JStr s) = Some s"
| "as_str _ = None"

fun as_int :: "json \<Rightarrow> int option" where
  "as_int JNull = Some 0"
| "as_int (JInt n) = (if is_i64 n then Some n else None)"
| "as_int _ = None"

fun as_uint :: "json \<Rightarrow> uint64 option" where
  "as_uint JNull = Some 0"
| "as_uint (JInt n) = (if 0 \<le> n \<and> n < 2 ^ 64 then Some (word_of_int n) else None)"
| "as_uint _ = None"

fun as_bool :: "json \<Rightarrow> bool option" where
  "as_bool JNull = Some False"
| "as_bool (JBool b) = Some b"
| "as_bool _ = None"

fun as_time :: "json \<Rightarrow> instant option" where
  "as_time JNull = Some zero_time"
| "as_time (JTime t) = Some t"
| "as_time _ = None"

fun as_time_ptr :: "json \<Rightarrow> instant option option" where
  "as_time_ptr JNull = Some None"
| "as_time_ptr (JTime t) = Some (Some t)"
| "as_time_ptr _ = None"

text \<open>Reading an array: it fails when one of its elements does.\<close>

fun sequence_opt :: "'a option list \<Rightarrow> 'a list option" where
  "sequence_opt [] = Some []"
| "sequence_opt (None # xs) = None"
| "sequence_opt (Some x # xs) = map_option ((#) x) (sequence_opt xs)"

lemma sequence_opt_map:
  "\<forall>x \<in> set xs. f (g x) = Some (h x) \<Longrightarrow> sequence_opt (map (f \<circ> g) xs) = Some (map h xs)"
  by (induction xs) simp_all

fun as_strs :: "json \<Rightarrow> string list option" where
  "as_strs JNull = Some []"
| "as_strs (JArr xs) = sequence_opt (map as_str xs)"
| "as_strs _ = None"

lemma as_strs_map [simp]: "as_strs (JArr (map JStr xs)) = Some xs"
  using sequence_opt_map [of xs as_str JStr "\<lambda>x. x"] by simp

fun as_payload :: "json \<Rightarrow> payload option" where
  "as_payload JNull = Some None"
| "as_payload (JObj kvs) = Some (Some kvs)"
| "as_payload _ = None"

lemma as_uint_uint [simp]: "as_uint (JInt (uint n)) = Some n"
  using unsigned_less [of n] by simp

text \<open>What a payload is after it has been written and read: the empty map becomes nil.\<close>

definition norm_payload :: "payload \<Rightarrow> payload" where
  "norm_payload p = (if p = Some [] then None else p)"

lemma norm_payload_idem [simp]: "norm_payload (norm_payload p) = norm_payload p"
  by (simp add: norm_payload_def)

text \<open>
  Looking a field up in what was written: the entries are concatenated, so a lookup skips the
  parts with other tags.
\<close>

lemma field_append [json_field]:
  "field (fs @ gs) k = (if k \<in> fst ` set gs then field gs k else field fs k)"
proof (cases "map_of (rev gs) k")
  case None
  then have "k \<notin> fst ` set gs" by (simp add: map_of_eq_None_iff)
  with None show ?thesis by (simp add: field_def map_add_def)
next
  case (Some v)
  then have "k \<in> fst ` set gs" by (metis map_of_eq_None_iff option.distinct(1) set_rev)
  with Some show ?thesis by (simp add: field_def map_add_def)
qed

lemma field_Nil [json_field]: "field [] k = JNull"
  by (simp add: field_def)

lemma field_Cons [json_field]:
  "field ((k', v) # fs) k = (if k \<in> fst ` set fs then field fs k else if k = k' then v else JNull)"
  using field_append [of "[(k', v)]" fs k] by (simp add: field_def)

lemma fst_opt_str [json_field]: "j \<in> fst ` set (opt_str k s) \<longleftrightarrow> j = k \<and> s \<noteq> []"
  by (simp add: opt_str_def)
lemma fst_opt_int [json_field]: "j \<in> fst ` set (opt_int k n) \<longleftrightarrow> j = k \<and> n \<noteq> 0"
  by (simp add: opt_int_def)
lemma fst_opt_time [json_field]: "j \<in> fst ` set (opt_time k t) \<longleftrightarrow> j = k \<and> t \<noteq> None"
  by (cases t) (simp_all add: opt_time_def)
lemma fst_opt_payload [json_field]:
  "j \<in> fst ` set (opt_payload k p) \<longleftrightarrow> j = k \<and> norm_payload p \<noteq> None"
  by (cases p) (simp_all add: opt_payload_def norm_payload_def)

lemma field_opt_str [json_field]: "as_str (field (opt_str k s) k) = Some s"
  "j \<noteq> k \<Longrightarrow> field (opt_str k s) j = JNull" "field (opt_str k []) j = JNull"
  by (simp_all add: opt_str_def field_def)
lemma field_opt_int [json_field]: "is_i64 n \<Longrightarrow> as_int (field (opt_int k n) k) = Some n"
  "j \<noteq> k \<Longrightarrow> field (opt_int k n) j = JNull" "field (opt_int k 0) j = JNull"
  by (simp_all add: opt_int_def field_def)
lemma field_opt_time [json_field]: "as_time_ptr (field (opt_time k t) k) = Some t"
  "j \<noteq> k \<Longrightarrow> field (opt_time k t) j = JNull" "field (opt_time k None) j = JNull"
  by (simp_all add: opt_time_def field_def split: option.splits)
lemma field_opt_payload [json_field]: "as_payload (field (opt_payload k p) k) = Some (norm_payload p)"
  "j \<noteq> k \<Longrightarrow> field (opt_payload k p) j = JNull"
  by (cases p; simp add: opt_payload_def field_def norm_payload_def)+

lemma as_if [json_field]:
  "as_str (if b then x else y) = (if b then as_str x else as_str y)"
  "as_int (if b then x else y) = (if b then as_int x else as_int y)"
  "as_payload (if b then x else y) = (if b then as_payload x else as_payload y)"
  "as_time_ptr (if b then x else y) = (if b then as_time_ptr x else as_time_ptr y)"
  by simp_all

end
