(* ===== verification/Store.thy ===== *)
theory Store
  imports JsonDoc
begin

text \<open>
  The key-value layer of \<^verbatim>\<open>pkg/store/store.go\<close>.

  bbolt is not part of the repository. Its API is the record \<open>bolt\<close>, an argument of
  every definition; \<open>bolt_ok\<close> collects the documented behaviour the code relies on
  (transactions commit entirely or leave the database as it was, buckets are key-value maps whose
  cursor visits keys in byte order). It never promises that a write succeeds.

  The locale \<open>persister_laws\<close> is the contract of the Go interface
  \<^verbatim>\<open>Persister\<close> that the job queue, the scheduler, the agent groups, the pipelines and
  the notification rules use; it is interpreted on the store's own definitions.
\<close>

section \<open>The bbolt API\<close>

record 'db bolt =
  has_bucket :: "'db \<Rightarrow> string list \<Rightarrow> bool"
  create_bucket :: "'db \<Rightarrow> string list \<Rightarrow> string + 'db"
  delete_bucket :: "'db \<Rightarrow> string list \<Rightarrow> string + 'db"
  sub_buckets :: "'db \<Rightarrow> string list \<Rightarrow> string list"
  bget :: "'db \<Rightarrow> string list \<Rightarrow> string \<Rightarrow> blob option"
  bput :: "'db \<Rightarrow> string list \<Rightarrow> string \<Rightarrow> blob \<Rightarrow> string + 'db"
  bdelete :: "'db \<Rightarrow> string list \<Rightarrow> string \<Rightarrow> string + 'db"
  bkeys :: "'db \<Rightarrow> string list \<Rightarrow> string list"
  sequence :: "'db \<Rightarrow> string list \<Rightarrow> uint64"
  next_sequence :: "'db \<Rightarrow> string list \<Rightarrow> string + 'db"
  db_update :: "('db \<Rightarrow> string + 'db) \<Rightarrow> 'db \<Rightarrow> string option \<times> 'db"
  view_error :: "'db \<Rightarrow> string option"

definition update_law :: "'db bolt \<Rightarrow> bool" where
  "update_law B \<longleftrightarrow> (\<forall>fn db r db'. db_update B fn db = (r, db') \<longrightarrow>
     (case r of None \<Rightarrow> fn db = Inr db' | Some e \<Rightarrow> db' = db) \<and>
     (\<forall>e. fn db = Inl e \<longrightarrow> r = Some e))"

definition bucket_law :: "'db bolt \<Rightarrow> bool" where
  "bucket_law B \<longleftrightarrow>
     (\<forall>db p db'. create_bucket B db p = Inr db' \<longrightarrow>
        (\<forall>q. has_bucket B db' q \<longleftrightarrow> q = p \<or> has_bucket B db q) \<and> bget B db' = bget B db) \<and>
     (\<forall>db p db'. delete_bucket B db p = Inr db' \<longrightarrow>
        (\<forall>q. has_bucket B db' q \<longleftrightarrow> \<not> prefix p q \<and> has_bucket B db q) \<and>
        (\<forall>q. bget B db' q = (if prefix p q then Map.empty else bget B db q))) \<and>
     (\<forall>db p n. n \<in> set (sub_buckets B db p) \<longleftrightarrow> has_bucket B db (p @ [n])) \<and>
     (\<forall>db p k. \<not> has_bucket B db p \<longrightarrow> bget B db p k = None)"

definition entry_law :: "'db bolt \<Rightarrow> bool" where
  "entry_law B \<longleftrightarrow>
     (\<forall>db p k v db'. bput B db p k v = Inr db' \<longrightarrow>
        has_bucket B db' = has_bucket B db \<and>
        bget B db' = (bget B db)(p := (bget B db p)(k \<mapsto> v))) \<and>
     (\<forall>db p k db'. bdelete B db p k = Inr db' \<longrightarrow>
        has_bucket B db' = has_bucket B db \<and>
        bget B db' = (bget B db)(p := (bget B db p)(k := None))) \<and>
     (\<forall>db p. distinct (bkeys B db p) \<and> sorted (bkeys B db p) \<and>
        set (bkeys B db p) = dom (bget B db p))"

definition sequence_law :: "'db bolt \<Rightarrow> bool" where
  "sequence_law B \<longleftrightarrow>
     (\<forall>db p db'. next_sequence B db p = Inr db' \<longrightarrow>
        sequence B db' p = sequence B db p + 1 \<and>
        has_bucket B db' = has_bucket B db \<and> bget B db' = bget B db) \<and>
     (\<forall>db p k v db'. bput B db p k v = Inr db' \<longrightarrow> sequence B db' = sequence B db) \<and>
     (\<forall>db p db'. create_bucket B db p = Inr db' \<longrightarrow> sequence B db' = sequence B db)"

definition bolt_ok :: "'db bolt \<Rightarrow> bool" where
  "bolt_ok B \<longleftrightarrow> update_law B \<and> bucket_law B \<and> entry_law B \<and> sequence_law B"

lemma db_update_None:
  "bolt_ok B \<Longrightarrow> db_update B fn db = (None, db') \<Longrightarrow> fn db = Inr db'"
  by (fastforce simp: bolt_ok_def update_law_def split: option.splits)

lemma db_update_Some:
  "bolt_ok B \<Longrightarrow> db_update B fn db = (Some e, db') \<Longrightarrow> db' = db"
  by (fastforce simp: bolt_ok_def update_law_def split: option.splits)

lemma db_update_Inl:
  "bolt_ok B \<Longrightarrow> fn db = Inl e \<Longrightarrow> db_update B fn db = (Some e, db)"
proof -
  assume ok: "bolt_ok B" and e: "fn db = Inl e"
  obtain r db' where u: "db_update B fn db = (r, db')" by fastforce
  with ok e have "r = Some e" by (simp add: bolt_ok_def update_law_def)
  with u db_update_Some [OF ok] show ?thesis by blast
qed

lemma create_bucketD:
  assumes "bolt_ok B" "create_bucket B db p = Inr db'"
  shows "has_bucket B db' q \<longleftrightarrow> q = p \<or> has_bucket B db q" "bget B db' = bget B db"
  using assms by (auto simp: bolt_ok_def bucket_law_def)

lemma bputD:
  assumes "bolt_ok B" "bput B db p k v = Inr db'"
  shows "has_bucket B db' = has_bucket B db"
    and "bget B db' = (bget B db)(p := (bget B db p)(k \<mapsto> v))"
  using assms by (auto simp: bolt_ok_def entry_law_def)

lemma bdeleteD:
  assumes "bolt_ok B" "bdelete B db p k = Inr db'"
  shows "has_bucket B db' = has_bucket B db"
    and "bget B db' = (bget B db)(p := (bget B db p)(k := None))"
  using assms by (auto simp: bolt_ok_def entry_law_def)

lemma bkeysD:
  assumes "bolt_ok B"
  shows "distinct (bkeys B db p)" "sorted (bkeys B db p)" "set (bkeys B db p) = dom (bget B db p)"
  using assms by (auto simp: bolt_ok_def entry_law_def)

lemma bget_no_bucket: "bolt_ok B \<Longrightarrow> \<not> has_bucket B db p \<Longrightarrow> bget B db p k = None"
  by (simp add: bolt_ok_def bucket_law_def)

section \<open>Tenant buckets\<close>

definition tenants_path :: "string list" where
  "tenants_path = [''tenants'']"

definition tenant_path :: "string \<Rightarrow> string list" where
  "tenant_path tenant = [''tenants'', tenant]"

lemma tenant_path_inject [simp]: "tenant_path a = tenant_path b \<longleftrightarrow> a = b"
  by (simp add: tenant_path_def)

text \<open>\<open>tenantBucket\<close> returns the database, changed when the bucket had to be created,
  and the path of the bucket, or \<open>None\<close> for the nil bucket.\<close>

definition store_tenantBucket ::
    "'db bolt \<Rightarrow> 'db \<Rightarrow> string \<Rightarrow> bool \<Rightarrow> string + 'db \<times> string list option" where
  "store_tenantBucket B db tenant create =
     (if \<not> has_bucket B db tenants_path then Inl ''tenants bucket missing''
      else if create then
        (case create_bucket B db (tenant_path tenant) of
           Inl e \<Rightarrow> Inl e | Inr db' \<Rightarrow> Inr (db', Some (tenant_path tenant)))
      else Inr (db, if has_bucket B db (tenant_path tenant) then Some (tenant_path tenant) else None))"

definition store_view :: "'db bolt \<Rightarrow> 'db \<Rightarrow> ('db \<Rightarrow> string + 'a) \<Rightarrow> string + 'a" where
  "store_view B db fn = (case view_error B db of Some e \<Rightarrow> Inl e | None \<Rightarrow> fn db)"

definition store_EnsureTenant :: "'db bolt \<Rightarrow> 'db \<Rightarrow> string \<Rightarrow> string option \<times> 'db" where
  "store_EnsureTenant B db tenant =
     (if blank tenant then (Some ''tenant is empty'', db)
      else db_update B (\<lambda>tx.
        if \<not> has_bucket B tx tenants_path then Inl ''tenants bucket missing''
        else create_bucket B tx (tenant_path tenant)) db)"

definition defaultTenant :: string where
  "defaultTenant = ''default''"

definition store_DeleteTenant :: "'db bolt \<Rightarrow> 'db \<Rightarrow> string \<Rightarrow> string option \<times> 'db" where
  "store_DeleteTenant B db tenant =
     (if blank tenant then (Some ''tenant is empty'', db)
      else if tenant = defaultTenant then (Some ''cannot delete the default tenant'', db)
      else db_update B (\<lambda>tx.
        if \<not> has_bucket B tx tenants_path then Inl ''tenants bucket missing''
        else if \<not> has_bucket B tx (tenant_path tenant) then Inl ''tenant not found''
        else delete_bucket B tx (tenant_path tenant)) db)"

definition store_TenantNames :: "'db bolt \<Rightarrow> 'db \<Rightarrow> string + string list" where
  "store_TenantNames B db = store_view B db (\<lambda>tx.
     if \<not> has_bucket B tx tenants_path then Inr [] else Inr (sub_buckets B tx tenants_path))"

section \<open>Key-value operations\<close>

definition store_PutKV ::
    "'db bolt \<Rightarrow> 'db \<Rightarrow> string \<Rightarrow> string \<Rightarrow> blob \<Rightarrow> string option \<times> 'db" where
  "store_PutKV B db tenant key value = db_update B (\<lambda>tx.
     case store_tenantBucket B tx tenant True of
       Inl e \<Rightarrow> Inl e
     | Inr (tx', Some b) \<Rightarrow> bput B tx' b key value
     | Inr (tx', None) \<Rightarrow> Inl ''nil bucket'') db"

definition store_GetKV :: "'db bolt \<Rightarrow> 'db \<Rightarrow> string \<Rightarrow> string \<Rightarrow> string + blob option" where
  "store_GetKV B db tenant key = store_view B db (\<lambda>tx.
     case store_tenantBucket B tx tenant False of
       Inr (_, Some b) \<Rightarrow> Inr (bget B tx b key)
     | _ \<Rightarrow> Inr None)"

definition store_DeleteKV :: "'db bolt \<Rightarrow> 'db \<Rightarrow> string \<Rightarrow> string \<Rightarrow> string option \<times> 'db" where
  "store_DeleteKV B db tenant key = db_update B (\<lambda>tx.
     case store_tenantBucket B tx tenant False of
       Inr (_, Some b) \<Rightarrow> bdelete B tx b key
     | _ \<Rightarrow> Inr tx) db"

text \<open>The cursor loop of \<open>ScanPrefix\<close>: seek the prefix, then call \<open>fn\<close> on
  every entry until the prefix no longer matches or \<open>fn\<close> returns an error.\<close>

fun scan_loop :: "('s \<Rightarrow> string \<Rightarrow> blob \<Rightarrow> string option \<times> 's) \<Rightarrow> 's \<Rightarrow> (string \<times> blob) list \<Rightarrow> string option \<times> 's" where
  "scan_loop fn acc [] = (None, acc)"
| "scan_loop fn acc ((k, v) # kvs) =
     (case fn acc k v of
        (Some e, acc') \<Rightarrow> (Some e, acc')
      | (None, acc') \<Rightarrow> scan_loop fn acc' kvs)"

definition seek_prefix :: "string \<Rightarrow> string list \<Rightarrow> string list" where
  "seek_prefix pfx ks = takeWhile (prefix pfx) (dropWhile (\<lambda>k. k < pfx) ks)"

definition store_ScanPrefix ::
    "'db bolt \<Rightarrow> 'db \<Rightarrow> string \<Rightarrow> string \<Rightarrow> ('s \<Rightarrow> string \<Rightarrow> blob \<Rightarrow> string option \<times> 's) \<Rightarrow> 's \<Rightarrow> string option \<times> 's" where
  "store_ScanPrefix B db tenant pfx fn acc =
     (case view_error B db of Some e \<Rightarrow> (Some e, acc)
      | None \<Rightarrow>
        (case store_tenantBucket B db tenant False of
           Inr (_, Some b) \<Rightarrow>
             scan_loop fn acc (map (\<lambda>k. (k, the (bget B db b k))) (seek_prefix pfx (bkeys B db b)))
         | _ \<Rightarrow> (None, acc)))"

subsection \<open>The cursor visits exactly the keys with the prefix\<close>

lemma prefix_lexord_ge: "prefix p k \<Longrightarrow> p \<le> (k :: string)"
proof (induction p arbitrary: k)
  case Nil
  then show ?case by simp
next
  case (Cons c p)
  then show ?case by (cases k) auto
qed

lemma between_prefix:
  "prefix p k \<Longrightarrow> p \<le> j \<Longrightarrow> j \<le> k \<Longrightarrow> prefix p (j :: string)"
proof (induction p arbitrary: k j)
  case Nil
  then show ?case by simp
next
  case (Cons c p)
  then obtain k' where k: "k = c # k'" "prefix p k'" by (cases k) auto
  with Cons.prems obtain d j' where j: "j = d # j'" by (cases j) auto
  with Cons.prems k have "d = c \<and> p \<le> j' \<and> j' \<le> k'" by auto
  with Cons.IH k j show ?case by auto
qed

lemma seek_prefix_filter:
  "sorted ks \<Longrightarrow> distinct ks \<Longrightarrow> seek_prefix pfx ks = filter (prefix pfx) ks"
proof (induction ks)
  case Nil
  then show ?case by (simp add: seek_prefix_def)
next
  case (Cons k ks)
  consider (lt) "k < pfx" | (in_range) "prefix pfx k" | (past) "pfx \<le> k" "\<not> prefix pfx k"
    by force
  then show ?case
  proof cases
    case lt
    then have "\<not> prefix pfx k" using prefix_lexord_ge leD by blast
    with lt Cons show ?thesis by (simp add: seek_prefix_def)
  next
    case in_range
    then have ge: "pfx \<le> k" by (rule prefix_lexord_ge)
    with Cons.prems(1) have all_ge: "\<forall>j \<in> set ks. \<not> j < pfx" by auto
    then have "dropWhile (\<lambda>k. k < pfx) ks = ks" by (cases ks) auto
    with in_range ge Cons show ?thesis by (simp add: seek_prefix_def leD)
  next
    case past
    have "\<forall>j \<in> set ks. \<not> prefix pfx j"
      using past Cons.prems(1) between_prefix [of pfx _ k] by auto
    then have "filter (prefix pfx) ks = []" by simp
    with past show ?thesis by (simp add: seek_prefix_def leD)
  qed
qed

section \<open>Tenant views and the laws of the operations\<close>

definition tenant_view :: "'db bolt \<Rightarrow> 'db \<Rightarrow> string \<Rightarrow> string \<Rightarrow> blob option" where
  "tenant_view B db tenant = bget B db (tenant_path tenant)"

lemma PutKV_ok:
  assumes ok: "bolt_ok B" and put: "store_PutKV B db t k v = (None, db')"
  shows "tenant_view B db' = (tenant_view B db)(t := (tenant_view B db t)(k \<mapsto> v))"
    and "has_bucket B db' tenants_path"
proof -
  from db_update_None [OF ok put [unfolded store_PutKV_def]]
  obtain tx where tb: "has_bucket B db tenants_path"
    and c: "create_bucket B db (tenant_path t) = Inr tx"
    and p: "bput B tx (tenant_path t) k v = Inr db'"
    by (auto simp: store_tenantBucket_def split: sum.splits if_splits)
  note cs = create_bucketD [OF ok c] and ps = bputD [OF ok p]
  show "tenant_view B db' = (tenant_view B db)(t := (tenant_view B db t)(k \<mapsto> v))"
    by (simp add: tenant_view_def fun_eq_iff cs ps)
  show "has_bucket B db' tenants_path" using tb by (simp add: cs ps)
qed

lemma PutKV_err:
  "bolt_ok B \<Longrightarrow> store_PutKV B db t k v = (Some e, db') \<Longrightarrow> db' = db"
  by (simp add: store_PutKV_def db_update_Some)

lemma DeleteKV_ok:
  assumes ok: "bolt_ok B" and del: "store_DeleteKV B db t k = (None, db')"
    and tb: "has_bucket B db tenants_path"
  shows "tenant_view B db' = (tenant_view B db)(t := (tenant_view B db t)(k := None))"
    and "has_bucket B db' tenants_path"
proof -
  note u = db_update_None [OF ok del [unfolded store_DeleteKV_def]]
  have "tenant_view B db' = (tenant_view B db)(t := (tenant_view B db t)(k := None)) \<and>
      has_bucket B db' tenants_path"
  proof (cases "has_bucket B db (tenant_path t)")
    case True
    with u tb have d: "bdelete B db (tenant_path t) k = Inr db'"
      by (simp add: store_tenantBucket_def)
    show ?thesis using tb by (simp add: tenant_view_def fun_eq_iff bdeleteD [OF ok d])
  next
    case False
    with u tb have "db' = db" by (simp add: store_tenantBucket_def)
    with False tb show ?thesis
      by (simp add: tenant_view_def fun_eq_iff bget_no_bucket [OF ok])
  qed
  then show "tenant_view B db' = (tenant_view B db)(t := (tenant_view B db t)(k := None))"
    and "has_bucket B db' tenants_path" by blast+
qed

lemma DeleteKV_err:
  "bolt_ok B \<Longrightarrow> store_DeleteKV B db t k = (Some e, db') \<Longrightarrow> db' = db"
  by (simp add: store_DeleteKV_def db_update_Some)

lemma GetKV_view:
  assumes "bolt_ok B" "view_error B db = None" "has_bucket B db tenants_path"
  shows "store_GetKV B db t k = Inr (tenant_view B db t k)"
  using assms by (simp add: store_GetKV_def store_view_def store_tenantBucket_def tenant_view_def
      bget_no_bucket)

section \<open>Opening the database\<close>

text \<open>\<open>byte_gt1\<close> is \<^verbatim>\<open>int(current[0]) > dbVersion\<close>; indexing an empty
  value panics. The first byte of a JSON text is never below 9.\<close>

fun byte_gt1 :: "blob \<Rightarrow> bool option" where
  "byte_gt1 (Raw []) = None"
| "byte_gt1 (Raw (c # _)) = Some (1 < (of_char c :: nat))"
| "byte_gt1 (Doc _) = Some True"

definition store_init :: "'db bolt \<Rightarrow> 'db \<Rightarrow> string option \<times> 'db" where
  "store_init B db = db_update B (\<lambda>tx.
     case create_bucket B tx [''meta''] of Inl e \<Rightarrow> Inl e | Inr tx1 \<Rightarrow>
     (case create_bucket B tx1 [''data''] of Inl e \<Rightarrow> Inl e | Inr tx2 \<Rightarrow>
     (case create_bucket B tx2 tenants_path of Inl e \<Rightarrow> Inl e | Inr tx3 \<Rightarrow>
     (case bget B tx3 [''meta''] ''version'' of
        None \<Rightarrow> bput B tx3 [''meta''] ''version'' (Raw [CHR 0x01])
      | Some cur \<Rightarrow>
          (case byte_gt1 cur of
             None \<Rightarrow> Inl ''panic: index out of range''
           | Some newer \<Rightarrow> if newer then Inl ''unsupported db version'' else Inr tx3))))) db"

definition has_state :: "'db bolt \<Rightarrow> 'db \<Rightarrow> string list \<Rightarrow> bool" where
  "has_state B db p \<longleftrightarrow> bget B db p ''blocks'' \<noteq> None \<or> bget B db p ''routes'' \<noteq> None"

definition store_HasData :: "'db bolt \<Rightarrow> 'db \<Rightarrow> string + bool" where
  "store_HasData B db = store_view B db (\<lambda>tx.
     if has_bucket B tx tenants_path
     then Inr (list_ex (\<lambda>n. has_state B tx (tenants_path @ [n])) (sub_buckets B tx tenants_path))
     else if \<not> has_bucket B tx [''data''] then Inr False
     else Inr (has_state B tx [''data'']))"

lemma init_ok:
  assumes ok: "bolt_ok B" and i: "store_init B db = (None, db')"
  shows "has_bucket B db' tenants_path" and "tenant_view B db' = tenant_view B db"
proof -
  from db_update_None [OF ok i [unfolded store_init_def]]
  obtain tx1 tx2 tx3 where c1: "create_bucket B db [''meta''] = Inr tx1"
    and c2: "create_bucket B tx1 [''data''] = Inr tx2"
    and c3: "create_bucket B tx2 tenants_path = Inr tx3"
    and r: "db' = tx3 \<or> bput B tx3 [''meta''] ''version'' (Raw [CHR 0x01]) = Inr db'"
    by (auto split: sum.splits option.splits if_splits)
  note cs = create_bucketD [OF ok c1] create_bucketD [OF ok c2] create_bucketD [OF ok c3]
  show "has_bucket B db' tenants_path"
    using r cs bputD(1) [OF ok] by auto
  show "tenant_view B db' = tenant_view B db"
    using r cs bputD(2) [OF ok] by (auto simp: tenant_view_def tenant_path_def fun_eq_iff)
qed

section \<open>The Persister contract\<close>

text \<open>
  The method set of the Go interface \<^verbatim>\<open>Persister\<close>. The callback of
  \<^verbatim>\<open>ScanPrefix\<close> never fails in the components that use the interface, so
  \<open>pScan\<close> returns the entries it is called on.
\<close>

record 's persister =
  pPut :: "'s \<Rightarrow> string \<Rightarrow> string \<Rightarrow> blob \<Rightarrow> string option \<times> 's"
  pDelete :: "'s \<Rightarrow> string \<Rightarrow> string \<Rightarrow> string option \<times> 's"
  pScan :: "'s \<Rightarrow> string \<Rightarrow> string \<Rightarrow> string + (string \<times> blob) list"

definition bolt_persister :: "'db bolt \<Rightarrow> 'db persister" where
  "bolt_persister B = \<lparr>
     pPut = store_PutKV B,
     pDelete = store_DeleteKV B,
     pScan = (\<lambda>db tenant pfx.
       case store_ScanPrefix B db tenant pfx (\<lambda>acc k v. (None, acc @ [(k, v)])) [] of
         (Some e, _) \<Rightarrow> Inl e | (None, kvs) \<Rightarrow> Inr kvs) \<rparr>"

locale persister_laws =
  fixes mk :: "'b \<Rightarrow> 's persister"
    and ok :: "'b \<Rightarrow> bool"
    and inv :: "'b \<Rightarrow> 's \<Rightarrow> bool"
    and view :: "'b \<Rightarrow> 's \<Rightarrow> string \<Rightarrow> string \<Rightarrow> blob option"
  assumes put_ok: "ok b \<Longrightarrow> inv b s \<Longrightarrow> pPut (mk b) s t k v = (None, s') \<Longrightarrow>
      inv b s' \<and> view b s' = (view b s)(t := (view b s t)(k \<mapsto> v))"
    and put_err: "ok b \<Longrightarrow> inv b s \<Longrightarrow> pPut (mk b) s t k v = (Some e, s') \<Longrightarrow> s' = s"
    and del_ok: "ok b \<Longrightarrow> inv b s \<Longrightarrow> pDelete (mk b) s t k = (None, s') \<Longrightarrow>
      inv b s' \<and> view b s' = (view b s)(t := (view b s t)(k := None))"
    and del_err: "ok b \<Longrightarrow> inv b s \<Longrightarrow> pDelete (mk b) s t k = (Some e, s') \<Longrightarrow> s' = s"
    and scan_ok: "ok b \<Longrightarrow> inv b s \<Longrightarrow> pScan (mk b) s t pfx = Inr kvs \<Longrightarrow>
      distinct (map fst kvs) \<and> map_of kvs = (\<lambda>k. if prefix pfx k then view b s t k else None)"
begin

lemma put_result:
  assumes "ok b" "inv b s"
  shows "inv b (snd (pPut (mk b) s t k v))"
    and "view b (snd (pPut (mk b) s t k v)) = view b s \<or>
      view b (snd (pPut (mk b) s t k v)) = (view b s)(t := (view b s t)(k \<mapsto> v))"
proof -
  obtain r s' where p: "pPut (mk b) s t k v = (r, s')" by fastforce
  have "inv b s' \<and> (view b s' = view b s \<or> view b s' = (view b s)(t := (view b s t)(k \<mapsto> v)))"
  proof (cases r)
    case None
    with p put_ok [OF assms] show ?thesis by blast
  next
    case (Some e)
    with p put_err [OF assms] assms(2) show ?thesis by blast
  qed
  with p show "inv b (snd (pPut (mk b) s t k v))"
    and "view b (snd (pPut (mk b) s t k v)) = view b s \<or>
      view b (snd (pPut (mk b) s t k v)) = (view b s)(t := (view b s t)(k \<mapsto> v))"
    by simp_all
qed

lemma del_result:
  assumes "ok b" "inv b s"
  shows "inv b (snd (pDelete (mk b) s t k))"
    and "view b (snd (pDelete (mk b) s t k)) = view b s \<or>
      view b (snd (pDelete (mk b) s t k)) = (view b s)(t := (view b s t)(k := None))"
proof -
  obtain r s' where p: "pDelete (mk b) s t k = (r, s')" by fastforce
  have "inv b s' \<and> (view b s' = view b s \<or> view b s' = (view b s)(t := (view b s t)(k := None)))"
  proof (cases r)
    case None
    with p del_ok [OF assms] show ?thesis by blast
  next
    case (Some e)
    with p del_err [OF assms] assms(2) show ?thesis by blast
  qed
  with p show "inv b (snd (pDelete (mk b) s t k))"
    and "view b (snd (pDelete (mk b) s t k)) = view b s \<or>
      view b (snd (pDelete (mk b) s t k)) = (view b s)(t := (view b s t)(k := None))"
    by simp_all
qed

lemma other_tenant_put:
  "ok b \<Longrightarrow> inv b s \<Longrightarrow> t' \<noteq> t \<Longrightarrow> view b (snd (pPut (mk b) s t k v)) t' = view b s t'"
  using put_result(2) [of b s t k v] by auto

lemma other_tenant_del:
  "ok b \<Longrightarrow> inv b s \<Longrightarrow> t' \<noteq> t \<Longrightarrow> view b (snd (pDelete (mk b) s t k)) t' = view b s t'"
  using del_result(2) [of b s t k] by auto

end

lemma scan_loop_collect:
  "scan_loop (\<lambda>acc k v. (None, acc @ [(k, v)])) acc kvs = (None, acc @ kvs)"
  by (induction kvs arbitrary: acc) auto

lemma map_of_the_map:
  "distinct ks \<Longrightarrow> map_of (map (\<lambda>k. (k, the (f k))) ks) x =
     (if x \<in> set ks then Some (the (f x)) else None)"
  by (induction ks) auto

lemma bolt_scan:
  assumes ok: "bolt_ok B" and inv: "has_bucket B db tenants_path"
    and scan: "pScan (bolt_persister B) db t pfx = Inr kvs"
  shows "distinct (map fst kvs) \<and>
    map_of kvs = (\<lambda>k. if prefix pfx k then tenant_view B db t k else None)"
proof (cases "has_bucket B db (tenant_path t)")
  case True
  note ks = bkeysD [OF ok, of db "tenant_path t"]
  let ?ks = "filter (prefix pfx) (bkeys B db (tenant_path t))"
  have kvs: "kvs = map (\<lambda>k. (k, the (bget B db (tenant_path t) k))) ?ks"
    using scan inv True ks
    by (auto simp: bolt_persister_def store_ScanPrefix_def store_tenantBucket_def
        scan_loop_collect seek_prefix_filter split: option.splits)
  have d: "distinct ?ks" using ks by simp
  have "map_of kvs x = (if prefix pfx x then tenant_view B db t x else None)" for x
    unfolding kvs map_of_the_map [OF d] using ks by (auto simp: tenant_view_def)
  then show ?thesis using d by (simp add: kvs comp_def fun_eq_iff)
next
  case False
  with scan inv have "kvs = []"
    by (auto simp: bolt_persister_def store_ScanPrefix_def store_tenantBucket_def split: option.splits)
  with False show ?thesis by (simp add: tenant_view_def bget_no_bucket [OF ok] fun_eq_iff)
qed

text \<open>A scan calls its callback on exactly the entries with the prefix.\<close>

lemma ScanPrefix_entries:
  assumes ok: "bolt_ok B" and inv: "has_bucket B db tenants_path" and v: "view_error B db = None"
  obtains kvs where "\<And>fn acc. store_ScanPrefix B db t pfx fn (acc :: 'a) = scan_loop fn acc kvs"
    "set kvs = {(k, v). prefix pfx k \<and> tenant_view B db t k = Some v}"
proof (cases "has_bucket B db (tenant_path t)")
  case True
  note ks = bkeysD [OF ok, of db "tenant_path t"]
  let ?kvs = "map (\<lambda>k. (k, the (bget B db (tenant_path t) k))) (filter (prefix pfx) (bkeys B db (tenant_path t)))"
  have "store_ScanPrefix B db t pfx fn (acc :: 'a) = scan_loop fn acc ?kvs" for fn acc
    using inv v True ks by (simp add: store_ScanPrefix_def store_tenantBucket_def seek_prefix_filter)
  moreover have "set ?kvs = {(k, v). prefix pfx k \<and> tenant_view B db t k = Some v}"
    using ks(3) by (auto simp: tenant_view_def)
  ultimately show ?thesis by (rule that)
next
  case False
  with inv v have "store_ScanPrefix B db t pfx fn (acc :: 'a) = scan_loop fn acc []" for fn acc
    by (simp add: store_ScanPrefix_def store_tenantBucket_def)
  moreover have "set [] = {(k, v). prefix pfx k \<and> tenant_view B db t k = Some v}"
    using False by (auto simp: tenant_view_def bget_no_bucket [OF ok])
  ultimately show ?thesis by (rule that)
qed

lemma bolt_scan_returns:
  assumes "view_error B db = None"
  shows "\<exists>kvs. pScan (bolt_persister B) db t pfx = Inr kvs"
  using assms by (cases "store_tenantBucket B db t False")
    (auto simp: bolt_persister_def store_ScanPrefix_def scan_loop_collect split: option.splits)

interpretation bolt_store: persister_laws bolt_persister bolt_ok
  "\<lambda>B db. has_bucket B db tenants_path" tenant_view
proof (unfold_locales, goal_cases)
  case (1 b s t k v s')
  then show ?case using PutKV_ok by (fastforce simp: bolt_persister_def)
next
  case (2 b s t k v e s')
  then show ?case using PutKV_err by (fastforce simp: bolt_persister_def)
next
  case (3 b s t k s')
  then show ?case using DeleteKV_ok by (fastforce simp: bolt_persister_def)
next
  case (4 b s t k e s')
  then show ?case using DeleteKV_err by (fastforce simp: bolt_persister_def)
next
  case (5 b s t pfx kvs)
  then show ?case by (rule bolt_scan)
qed

section \<open>Records kept in step with the store\<close>

text \<open>
  Five managers keep a map from identifiers to records in memory and write every record under
  \<open>pfx @ id\<close> in the bucket of the record's tenant. \<open>agrees\<close> says that the
  store holds exactly the records of the map.
\<close>

definition agrees ::
    "string \<Rightarrow> ('a \<Rightarrow> string) \<Rightarrow> ('a \<Rightarrow> blob) \<Rightarrow> (string \<Rightarrow> string \<Rightarrow> blob option) \<Rightarrow> (string \<rightharpoonup> 'a) \<Rightarrow> bool" where
  "agrees pfx ten enc V m \<longleftrightarrow>
     (\<forall>t i. V t (pfx @ i) = (case m i of None \<Rightarrow> None | Some x \<Rightarrow> if ten x = t then Some (enc x) else None))"

lemma agrees_put:
  "agrees pfx ten enc V m \<Longrightarrow> (\<And>y. m i = Some y \<Longrightarrow> ten y = ten x) \<Longrightarrow>
     agrees pfx ten enc (V(ten x := (V (ten x))(pfx @ i \<mapsto> enc x))) (m(i \<mapsto> x))"
  by (auto simp: agrees_def split: option.splits)

lemma agrees_del:
  "agrees pfx ten enc V m \<Longrightarrow> m i = Some x \<Longrightarrow>
     agrees pfx ten enc (V(ten x := (V (ten x))(pfx @ i := None))) (m(i := None))"
  by (auto simp: agrees_def split: option.splits)

lemma agrees_other_key:
  "agrees pfx ten enc V m \<Longrightarrow> \<not> prefix pfx k \<Longrightarrow> agrees pfx ten enc (V(t := (V t)(k := o'))) m"
  by (auto simp: agrees_def)

text \<open>What a scan of tenant \<open>t\<close> then returns.\<close>

lemma agrees_scan:
  assumes "agrees pfx ten enc V m"
    and "map_of kvs = (\<lambda>k. if prefix pfx k then V t k else None)" and "distinct (map fst kvs)"
  shows "set kvs = {(pfx @ i, enc x) | i x. m i = Some x \<and> ten x = t}"
proof -
  have "(k, v) \<in> set kvs \<longleftrightarrow> map_of kvs k = Some v" for k v
    using assms(3) by simp
  then have mem: "(k, v) \<in> set kvs \<longleftrightarrow> prefix pfx k \<and> V t k = Some v" for k v
    by (simp add: assms(2))
  show ?thesis
  proof (intro set_eqI iffI)
    fix kv assume "kv \<in> set kvs"
    then obtain i v where "kv = (pfx @ i, v)" "V t (pfx @ i) = Some v"
      by (metis mem prefix_def surj_pair)
    with assms(1) show "kv \<in> {(pfx @ i, enc x) | i x. m i = Some x \<and> ten x = t}"
      by (cases "m i") (auto simp: agrees_def split: if_splits)
  next
    fix kv assume "kv \<in> {(pfx @ i, enc x) | i x. m i = Some x \<and> ten x = t}"
    with assms(1) show "kv \<in> set kvs" by (auto simp: mem agrees_def)
  qed
qed

text \<open>\<open>kv_write\<close> and \<open>kv_remove\<close> are the shared shape of the managers'
  \<^verbatim>\<open>persist\<close> and \<^verbatim>\<open>unpersist\<close>: nothing without a store, and a
  failed write is only logged.\<close>

definition kv_write :: "'s persister \<Rightarrow> 's option \<Rightarrow> string \<Rightarrow> string \<Rightarrow> blob \<Rightarrow> 's option" where
  "kv_write P st tenant key v = map_option (\<lambda>s. snd (pPut P s tenant key v)) st"

definition kv_remove :: "'s persister \<Rightarrow> 's option \<Rightarrow> string \<Rightarrow> string \<Rightarrow> 's option" where
  "kv_remove P st tenant key = map_option (\<lambda>s. snd (pDelete P s tenant key)) st"

text \<open>A store whose writes all succeed on the states \<open>I\<close>.\<close>

definition reliable :: "'s persister \<Rightarrow> ('s \<Rightarrow> bool) \<Rightarrow> bool" where
  "reliable P I \<longleftrightarrow> (\<forall>s t k v. I s \<longrightarrow> fst (pPut P s t k v) = None) \<and>
     (\<forall>s t k. I s \<longrightarrow> fst (pDelete P s t k) = None)"

context persister_laws begin

lemma kv_write_agrees:
  assumes "ok b" "inv b s" "reliable (mk b) (inv b)" "agrees pfx ten enc (view b s) m"
    and "\<And>y. m i = Some y \<Longrightarrow> ten y = ten x"
  shows "\<exists>s'. kv_write (mk b) (Some s) (ten x) (pfx @ i) (enc x) = Some s' \<and> inv b s' \<and>
    agrees pfx ten enc (view b s') (m(i \<mapsto> x))"
proof -
  obtain s' where p: "pPut (mk b) s (ten x) (pfx @ i) (enc x) = (None, s')"
    using assms(2,3) by (metis reliable_def prod.collapse)
  with put_ok [OF assms(1,2) p] agrees_put [OF assms(4,5)] show ?thesis
    by (simp add: kv_write_def)
qed

lemma kv_remove_agrees:
  assumes "ok b" "inv b s" "reliable (mk b) (inv b)" "agrees pfx ten enc (view b s) m" "m i = Some x"
  shows "\<exists>s'. kv_remove (mk b) (Some s) (ten x) (pfx @ i) = Some s' \<and> inv b s' \<and>
    agrees pfx ten enc (view b s') (m(i := None))"
proof -
  obtain s' where p: "pDelete (mk b) s (ten x) (pfx @ i) = (None, s')"
    using assms(2,3) by (metis reliable_def prod.collapse)
  with del_ok [OF assms(1,2) p] agrees_del [OF assms(4,5)] show ?thesis
    by (simp add: kv_remove_def)
qed

end


abbreviation bolt_writes :: "'db bolt \<Rightarrow> bool" where
  "bolt_writes B \<equiv> reliable (bolt_persister B) (\<lambda>db. has_bucket B db tenants_path)"

text \<open>A manager is in step with its store when the store holds exactly its records.\<close>

definition synced ::
    "'db bolt \<Rightarrow> string \<Rightarrow> ('a \<Rightarrow> string) \<Rightarrow> ('a \<Rightarrow> blob) \<Rightarrow> 'db option \<Rightarrow> (string \<rightharpoonup> 'a) \<Rightarrow> bool" where
  "synced B pfx ten enc st m \<longleftrightarrow>
     (\<exists>db. st = Some db \<and> has_bucket B db tenants_path \<and> agrees pfx ten enc (tenant_view B db) m)"

lemma synced_write:
  assumes "bolt_ok B" "bolt_writes B" "synced B pfx ten enc st m" "\<And>y. m i = Some y \<Longrightarrow> ten y = ten x"
  shows "synced B pfx ten enc (kv_write (bolt_persister B) st (ten x) (pfx @ i) (enc x)) (m(i \<mapsto> x))"
proof -
  from assms(3) obtain db where db: "st = Some db" "has_bucket B db tenants_path"
    "agrees pfx ten enc (tenant_view B db) m" by (auto simp: synced_def)
  from bolt_store.kv_write_agrees [OF assms(1) db(2) assms(2) db(3) assms(4)] show ?thesis
    by (auto simp: synced_def db(1))
qed

lemma synced_remove:
  assumes "bolt_ok B" "bolt_writes B" "synced B pfx ten enc st m" "m i = Some x"
  shows "synced B pfx ten enc (kv_remove (bolt_persister B) st (ten x) (pfx @ i)) (m(i := None))"
proof -
  from assms(3) obtain db where db: "st = Some db" "has_bucket B db tenants_path"
    "agrees pfx ten enc (tenant_view B db) m" by (auto simp: synced_def)
  from bolt_store.kv_remove_agrees [OF assms(1) db(2) assms(2) db(3) assms(4)] show ?thesis
    by (auto simp: synced_def db(1))
qed

text \<open>Writes under other keys, successful or not, do not disturb this.\<close>

lemma synced_write_other:
  assumes "bolt_ok B" "synced B pfx ten enc st m" "\<not> prefix pfx k"
  shows "synced B pfx ten enc (kv_write (bolt_persister B) st t k v) m"
proof -
  from assms(2) obtain db where db: "st = Some db" "has_bucket B db tenants_path"
    "agrees pfx ten enc (tenant_view B db) m" by (auto simp: synced_def)
  from bolt_store.put_result [OF assms(1) db(2), of t k v] db(1,3) agrees_other_key [OF db(3) assms(3)]
  show ?thesis by (auto simp: synced_def kv_write_def)
qed

lemma synced_remove_other:
  assumes "bolt_ok B" "synced B pfx ten enc st m" "\<not> prefix pfx k"
  shows "synced B pfx ten enc (kv_remove (bolt_persister B) st t k) m"
proof -
  from assms(2) obtain db where db: "st = Some db" "has_bucket B db tenants_path"
    "agrees pfx ten enc (tenant_view B db) m" by (auto simp: synced_def)
  from bolt_store.del_result [OF assms(1) db(2), of t k] db(1,3) agrees_other_key [OF db(3) assms(3)]
  show ?thesis by (auto simp: synced_def kv_remove_def)
qed

lemma synced_new:
  "has_bucket B db tenants_path \<Longrightarrow> \<forall>t i. tenant_view B db t (pfx @ i) = None \<Longrightarrow>
     synced B pfx ten enc (Some db) Map.empty"
  by (simp add: synced_def agrees_def)

section \<open>Reading records back\<close>

text \<open>
  The managers load a tenant by scanning its prefix, skipping values that do not decode, and
  entering the records into the map while the counter follows the largest number seen.
\<close>

definition load_records :: "('a \<Rightarrow> string) \<Rightarrow> 'a list \<Rightarrow> (string \<rightharpoonup> 'a) \<Rightarrow> (string \<rightharpoonup> 'a)" where
  "load_records idf xs m = fold (\<lambda>x m. m(idf x \<mapsto> x)) xs m"

definition load_counter :: "('a \<Rightarrow> uint64) \<Rightarrow> 'a list \<Rightarrow> uint64 \<Rightarrow> uint64" where
  "load_counter num xs c = fold (\<lambda>x c. if num x > c then num x else c) xs c"

definition tenant_records :: "('a \<Rightarrow> string) \<Rightarrow> ('a \<Rightarrow> 'a) \<Rightarrow> (string \<rightharpoonup> 'a) \<Rightarrow> string \<Rightarrow> string \<rightharpoonup> 'a" where
  "tenant_records ten nrm m t i =
     (case m i of None \<Rightarrow> None | Some x \<Rightarrow> if ten x = t then Some (nrm x) else None)"

lemma load_records_other: "i \<notin> idf ` set xs \<Longrightarrow> load_records idf xs m i = m i"
  unfolding load_records_def by (induction xs arbitrary: m) auto

lemma load_records_mem:
  "x \<in> set xs \<Longrightarrow> inj_on idf (set xs) \<Longrightarrow> load_records idf xs m (idf x) = Some x"
proof (induction xs arbitrary: m)
  case (Cons a xs)
  show ?case
  proof (cases "x \<in> set xs")
    case True
    with Cons show ?thesis by (simp add: load_records_def inj_on_insert)
  next
    case False
    with Cons.prems have "x = a" "idf x \<notin> idf ` set xs" by (auto simp: inj_on_def)
    then show ?thesis using load_records_other [of "idf x" idf xs]
      by (simp add: load_records_def)
  qed
qed simp

lemma load_counter_bound:
  "c \<le> load_counter num xs c \<and> (\<forall>x \<in> set xs. num x \<le> load_counter num xs c)"
proof (induction xs arbitrary: c)
  case (Cons x xs)
  let ?c = "if num x > c then num x else c"
  have "load_counter num (x # xs) c = load_counter num xs ?c" by (simp add: load_counter_def)
  moreover have "?c \<le> load_counter num xs ?c" using Cons [of ?c] by blast
  moreover have "c \<le> ?c" "num x \<le> ?c" by auto
  ultimately have "c \<le> load_counter num (x # xs) c" "num x \<le> load_counter num (x # xs) c"
    by simp_all
  moreover have "\<forall>y \<in> set xs. num y \<le> load_counter num (x # xs) c"
    using Cons [of ?c] by (simp add: load_counter_def)
  ultimately show ?case by simp
qed (simp add: load_counter_def)

text \<open>A kind of record: its identifier, tenant, encoding and decoding, and what a record is after
  it has been written and read.\<close>

locale record_codec =
  fixes idf :: "'a \<Rightarrow> string" and ten :: "'a \<Rightarrow> string" and enc :: "'a \<Rightarrow> blob"
    and dec :: "blob \<Rightarrow> 'a option" and nrm :: "'a \<Rightarrow> 'a" and good :: "'a \<Rightarrow> bool"
  assumes dec_enc: "good x \<Longrightarrow> dec (enc x) = Some (nrm x)"
    and nrm_id: "idf (nrm x) = idf x"
begin

lemma decoded_set:
  assumes "set kvs = {(pfx @ i, enc x) | i x. m i = Some x \<and> ten x = t}" "\<And>i x. m i = Some x \<Longrightarrow> good x"
  shows "set (List.map_filter (\<lambda>kv. dec (snd kv)) kvs) = {nrm x | i x. m i = Some x \<and> ten x = t}"
proof -
  have "y \<in> set (List.map_filter (\<lambda>kv. dec (snd kv)) kvs) \<longleftrightarrow> (\<exists>k v. (k, v) \<in> set kvs \<and> dec v = Some y)" for y
    by (force simp: map_filter_def image_iff)
  also have "\<dots> y \<longleftrightarrow> (\<exists>i x. m i = Some x \<and> ten x = t \<and> dec (enc x) = Some y)" for y
    unfolding assms(1) by blast
  also have "\<dots> y \<longleftrightarrow> (\<exists>i x. m i = Some x \<and> ten x = t \<and> y = nrm x)" for y
    using assms(2) dec_enc by (metis option.inject)
  finally show ?thesis by blast
qed

lemma load_scan:
  assumes "bolt_ok B" "view_error B db = None" "synced B pfx ten enc (Some db) m"
    and kg: "\<forall>i x. m i = Some x \<longrightarrow> idf x = i \<and> good x"
  obtains kvs xs where "pScan (bolt_persister B) db t pfx = Inr kvs"
    "xs = List.map_filter (\<lambda>kv. dec (snd kv)) kvs"
    "load_records idf xs Map.empty = tenant_records ten nrm m t"
    "idf ` set xs = dom (tenant_records ten nrm m t)"
proof -
  have db: "has_bucket B db tenants_path" "agrees pfx ten enc (tenant_view B db) m"
    using assms(3) by (auto simp: synced_def)
  from kg have keys: "m i = Some x \<Longrightarrow> idf x = i" and good: "m i = Some x \<Longrightarrow> good x" for i x by blast+
  obtain kvs where scan: "pScan (bolt_persister B) db t pfx = Inr kvs"
    using bolt_scan_returns [OF assms(2)] by blast
  let ?xs = "List.map_filter (\<lambda>kv. dec (snd kv)) kvs"
  have "set kvs = {(pfx @ i, enc x) | i x. m i = Some x \<and> ten x = t}"
    using agrees_scan [OF db(2)] bolt_store.scan_ok [OF assms(1) db(1) scan] by blast
  from decoded_set [OF this good]
  have xs: "set ?xs = {nrm x | i x. m i = Some x \<and> ten x = t}" .
  have inj: "inj_on idf (set ?xs)" unfolding xs inj_on_def using keys nrm_id by force
  have dom: "idf ` set ?xs = dom (tenant_records ten nrm m t)" unfolding xs dom_def
    using keys by (force simp: tenant_records_def nrm_id image_iff split: option.splits if_splits)
  have "load_records idf ?xs Map.empty i = tenant_records ten nrm m t i" for i
  proof (cases "tenant_records ten nrm m t i")
    case None
    then have "i \<notin> idf ` set ?xs" unfolding dom by (simp add: dom_def)
    with None show ?thesis by (simp add: load_records_other)
  next
    case (Some y)
    then have "y \<in> set ?xs" "idf y = i" unfolding xs using keys
      by (auto simp: tenant_records_def nrm_id split: option.splits if_splits)
    with load_records_mem [OF _ inj] Some show ?thesis by metis
  qed
  with scan dom show ?thesis by (intro that [of kvs ?xs]) auto
qed

text \<open>No identifier is scanned twice.\<close>

lemma decoded_keys:
  assumes "set kvs \<subseteq> {(pfx @ i, enc x) | i x. m i = Some x}" "\<And>i x. m i = Some x \<Longrightarrow> idf x = i \<and> good x"
  shows "map (\<lambda>x. pfx @ idf x) (List.map_filter (\<lambda>kv. dec (snd kv)) kvs) = map fst kvs"
  using assms(1)
proof (induction kvs)
  case (Cons kv kvs)
  then obtain i x where "kv = (pfx @ i, enc x)" "m i = Some x" by auto
  moreover from this assms(2) have "idf x = i" "good x" by blast+
  ultimately show ?case using Cons by (simp add: List.map_filter_simps dec_enc nrm_id)
qed (simp add: List.map_filter_simps)

lemma scan_distinct:
  assumes "bolt_ok B" "synced B pfx ten enc (Some db) m" "\<forall>i x. m i = Some x \<longrightarrow> idf x = i \<and> good x"
    and scan: "pScan (bolt_persister B) db t pfx = Inr kvs"
  shows "distinct (map idf (List.map_filter (\<lambda>kv. dec (snd kv)) kvs))"
proof -
  have db: "has_bucket B db tenants_path" "agrees pfx ten enc (tenant_view B db) m"
    using assms(2) by (auto simp: synced_def)
  have kvs: "distinct (map fst kvs)" "set kvs \<subseteq> {(pfx @ i, enc x) | i x. m i = Some x}"
    using agrees_scan [OF db(2)] bolt_store.scan_ok [OF assms(1) db(1) scan] by blast+
  have "distinct (map (\<lambda>x. pfx @ idf x) (List.map_filter (\<lambda>kv. dec (snd kv)) kvs))"
    using decoded_keys [OF kvs(2)] assms(3) kvs(1) by simp
  then show ?thesis by (auto simp: distinct_map inj_on_def)
qed

end

end
