(* ===== verification/MemBolt.thy ===== *)
theory MemBolt
  imports Store
begin

text \<open>
  A concrete database with the bbolt API, kept in memory: a list of bucket paths, an association
  list of entries and a list of bucket sequences. It satisfies \<open>bolt_ok\<close>, so the
  hypotheses of the theorems about stored state can be met, and its writes to an existing bucket
  never fail. The theorems never mention it; their witnesses compute with it.
\<close>

record memdb =
  m_buckets :: "string list list"
  m_entries :: "((string list \<times> string) \<times> blob) list"
  m_seqs :: "(string list \<times> uint64) list"

definition mem_get :: "memdb \<Rightarrow> string list \<Rightarrow> string \<Rightarrow> blob option" where
  "mem_get db p k = (if p \<in> set (m_buckets db) then map_of (m_entries db) (p, k) else None)"

definition mem_seq :: "memdb \<Rightarrow> string list \<Rightarrow> uint64" where
  "mem_seq db p = (case map_of (m_seqs db) p of None \<Rightarrow> 0 | Some n \<Rightarrow> n)"

definition mem_create :: "memdb \<Rightarrow> string list \<Rightarrow> string + memdb" where
  "mem_create db p = (if p \<in> set (m_buckets db) then Inr db
     else Inr (db\<lparr>m_buckets := p # m_buckets db, m_entries := filter (\<lambda>e. fst (fst e) \<noteq> p) (m_entries db)\<rparr>))"

definition mem_drop :: "memdb \<Rightarrow> string list \<Rightarrow> string + memdb" where
  "mem_drop db p = (if p \<notin> set (m_buckets db) then Inl ''bucket not found''
     else Inr (db\<lparr>m_buckets := filter (\<lambda>q. \<not> prefix p q) (m_buckets db)\<rparr>))"

definition mem_keys :: "memdb \<Rightarrow> string list \<Rightarrow> string list" where
  "mem_keys db p = (if p \<in> set (m_buckets db)
     then sort (remdups (map (snd \<circ> fst) (filter (\<lambda>e. fst (fst e) = p) (m_entries db)))) else [])"

definition membolt :: "memdb bolt" where
  "membolt = \<lparr>
     has_bucket = (\<lambda>db p. p \<in> set (m_buckets db)),
     create_bucket = mem_create,
     delete_bucket = mem_drop,
     sub_buckets = (\<lambda>db p. map last (filter (\<lambda>q. q \<noteq> [] \<and> butlast q = p) (m_buckets db))),
     bget = mem_get,
     bput = (\<lambda>db p k v. if p \<in> set (m_buckets db)
        then Inr (db\<lparr>m_entries := ((p, k), v) # m_entries db\<rparr>) else Inl ''no bucket''),
     bdelete = (\<lambda>db p k. Inr (db\<lparr>m_entries := filter (\<lambda>e. fst e \<noteq> (p, k)) (m_entries db)\<rparr>)),
     bkeys = mem_keys,
     sequence = mem_seq,
     next_sequence = (\<lambda>db p. Inr (db\<lparr>m_seqs := (p, mem_seq db p + 1) # m_seqs db\<rparr>)),
     db_update = (\<lambda>fn db. case fn db of Inl e \<Rightarrow> (Some e, db) | Inr db' \<Rightarrow> (None, db')),
     view_error = (\<lambda>db. None) \<rparr>"

lemma map_of_filter_key: "map_of (filter (\<lambda>e. Q (fst e)) xs) k = (if Q k then map_of xs k else None)"
  by (induction xs) auto

lemma mem_update_law: "update_law membolt"
  by (auto simp: update_law_def membolt_def split: sum.splits)

lemma mem_bucket_law: "bucket_law membolt"
proof -
  have "mem_create db p = Inr db' \<Longrightarrow> (\<forall>q. q \<in> set (m_buckets db') \<longleftrightarrow> q = p \<or> q \<in> set (m_buckets db)) \<and>
      mem_get db' = mem_get db" for db p db'
    by (auto simp: map_of_filter_key [where Q = "\<lambda>x. fst x \<noteq> p"] mem_create_def mem_get_def fun_eq_iff split: if_splits)
  moreover have "mem_drop db p = Inr db' \<Longrightarrow>
      (\<forall>q. q \<in> set (m_buckets db') \<longleftrightarrow> \<not> prefix p q \<and> q \<in> set (m_buckets db)) \<and>
      (\<forall>q. mem_get db' q = (if prefix p q then Map.empty else mem_get db q))" for db p db'
    by (auto simp: mem_drop_def mem_get_def fun_eq_iff split: if_splits)
  moreover have "n \<in> set (map last (filter (\<lambda>q. q \<noteq> [] \<and> butlast q = p) bs)) \<longleftrightarrow> p @ [n] \<in> set bs"
    for n :: string and p bs
  proof
    assume "n \<in> set (map last (filter (\<lambda>q. q \<noteq> [] \<and> butlast q = p) bs))"
    then show "p @ [n] \<in> set bs" by auto
  next
    assume "p @ [n] \<in> set bs"
    then show "n \<in> set (map last (filter (\<lambda>q. q \<noteq> [] \<and> butlast q = p) bs))"
      by (force intro: image_eqI [of _ _ "p @ [n]"])
  qed
  moreover have "p \<notin> set (m_buckets db) \<Longrightarrow> mem_get db p k = None" for db p k
    by (simp add: mem_get_def)
  ultimately show ?thesis by (simp add: bucket_law_def membolt_def)
qed

lemma mem_keys_law:
  "distinct (mem_keys db p) \<and> sorted (mem_keys db p) \<and> set (mem_keys db p) = dom (mem_get db p)"
proof -
  have "(\<exists>v. map_of xs (p, k) = Some v) \<longleftrightarrow> (p, k) \<in> fst ` set xs"
    for k :: string and xs :: "((string list \<times> string) \<times> blob) list"
    by (metis map_of_eq_None_iff not_None_eq)
  then show ?thesis by (force simp: mem_keys_def mem_get_def dom_def image_iff)
qed

lemma mem_entry_law: "entry_law membolt"
proof -
  have "mem_get (db\<lparr>m_entries := ((p, k), v) # m_entries db\<rparr>) =
      (mem_get db)(p := (mem_get db p)(k \<mapsto> v))" if "p \<in> set (m_buckets db)" for db p k v
    using that by (auto simp: mem_get_def fun_eq_iff)
  moreover have "mem_get (db\<lparr>m_entries := filter (\<lambda>e. fst e \<noteq> (p, k)) (m_entries db)\<rparr>) =
      (mem_get db)(p := (mem_get db p)(k := None))" for db p k
    by (auto simp: map_of_filter_key [where Q = "\<lambda>x. x \<noteq> (p, k)"] mem_get_def fun_eq_iff)
  ultimately show ?thesis using mem_keys_law by (auto simp: entry_law_def membolt_def)
qed

lemma mem_sequence_law: "sequence_law membolt"
  by (auto simp: sequence_law_def membolt_def mem_seq_def mem_get_def mem_create_def fun_eq_iff
      split: if_splits)

lemma membolt_ok [simp]: "bolt_ok membolt"
  by (simp add: bolt_ok_def mem_update_law mem_bucket_law mem_entry_law mem_sequence_law)

lemma membolt_view_error [simp]: "view_error membolt db = None"
  by (simp add: membolt_def)

lemma membolt_reliable [simp]:
  "reliable (bolt_persister membolt) (\<lambda>db. has_bucket membolt db tenants_path)"
  by (auto simp: reliable_def bolt_persister_def store_PutKV_def store_DeleteKV_def
      store_tenantBucket_def membolt_def mem_create_def split: sum.splits)

definition mem0 :: memdb where
  "mem0 = \<lparr>m_buckets = [tenants_path], m_entries = [], m_seqs = []\<rparr>"

lemma mem0_simps [simp]:
  "has_bucket membolt mem0 tenants_path" "tenant_view membolt mem0 t k = None"
  by (simp_all add: mem0_def membolt_def tenant_view_def mem_get_def)

lemma membolt_put:
  assumes "has_bucket membolt db tenants_path"
  obtains db' where "store_PutKV membolt db t k v = (None, db')" "has_bucket membolt db' tenants_path"
proof -
  have "fst (store_PutKV membolt db t k v) = None"
    using membolt_reliable assms by (simp add: reliable_def bolt_persister_def)
  then obtain db' where "store_PutKV membolt db t k v = (None, db')" by (metis prod.collapse)
  with that PutKV_ok(2) [OF membolt_ok] show ?thesis by blast
qed

lemma membolt_del:
  assumes "has_bucket membolt db tenants_path"
  obtains db' where "store_DeleteKV membolt db t k = (None, db')" "has_bucket membolt db' tenants_path"
proof -
  have "fst (store_DeleteKV membolt db t k) = None"
    using membolt_reliable assms by (simp add: reliable_def bolt_persister_def)
  then obtain db' where "store_DeleteKV membolt db t k = (None, db')" by (metis prod.collapse)
  with that DeleteKV_ok(2) [OF membolt_ok _ assms] show ?thesis by blast
qed

end
