(* ===== verification/Jobs.thy ===== *)
theory Jobs
  imports MemBolt
begin

text \<open>
  The job queue of \<^verbatim>\<open>pkg/jobs/jobs.go\<close>: jobs in memory, a counter for identifiers,
  and an optional store to which every change is written. A queue operation is atomic (the code
  holds \<^verbatim>\<open>q.mu\<close>); it takes the instant \<open>now\<close> where the code reads the
  clock and the iteration order \<open>ks\<close> where the code ranges over the map.
\<close>

section \<open>Data\<close>

abbreviation StatusPending :: string where "StatusPending \<equiv> ''pending''"
abbreviation StatusRunning :: string where "StatusRunning \<equiv> ''running''"
abbreviation StatusDone :: string where "StatusDone \<equiv> ''done''"
abbreviation StatusFailed :: string where "StatusFailed \<equiv> ''failed''"
abbreviation StatusCancelled :: string where "StatusCancelled \<equiv> ''cancelled''"

record job =
  j_ID :: string
  j_Tenant :: string
  j_AgentID :: string
  j_Capability :: string
  j_Payload :: payload
  j_Priority :: int
  j_TTLSeconds :: int
  j_Status :: string
  j_Result :: string
  j_Error :: string
  j_CreatedAt :: instant
  j_UpdatedAt :: instant
  j_ExpiresAt :: "instant option"

record 's queue =
  q_jobs :: "string \<rightharpoonup> job"
  q_counter :: uint64
  q_store :: "'s option"

definition jobs_NewQueue :: "'s queue" where
  "jobs_NewQueue = \<lparr>q_jobs = Map.empty, q_counter = 0, q_store = None\<rparr>"

definition jobs_NewQueueWithStore :: "'s \<Rightarrow> 's queue" where
  "jobs_NewQueueWithStore p = \<lparr>q_jobs = Map.empty, q_counter = 0, q_store = Some p\<rparr>"

definition jobKeyPrefix :: string where
  "jobKeyPrefix = ''job_''"

text \<open>\<^verbatim>\<open>json.Marshal\<close> and \<^verbatim>\<open>json.Unmarshal\<close> of a job, by the struct tags.\<close>

definition job_fields :: "job \<Rightarrow> (string \<times> json) list" where
  "job_fields j =
     [(''id'', JStr (j_ID j)), (''tenant'', JStr (j_Tenant j))] @
      opt_str ''agent_id'' (j_AgentID j) @ opt_str ''capability'' (j_Capability j) @
      opt_payload ''payload'' (j_Payload j) @ opt_int ''priority'' (j_Priority j) @
      opt_int ''ttl_seconds'' (j_TTLSeconds j) @ [(''status'', JStr (j_Status j))] @
      opt_str ''result'' (j_Result j) @ opt_str ''error'' (j_Error j) @
      [(''created_at'', JTime (j_CreatedAt j)), (''updated_at'', JTime (j_UpdatedAt j))] @
      opt_time ''expires_at'' (j_ExpiresAt j)"

definition marshal_job :: "job \<Rightarrow> json" where
  "marshal_job j = JObj (job_fields j)"

definition job_of_fields :: "(string \<times> json) list \<Rightarrow> job option" where
  "job_of_fields fs =
     (case (as_str (field fs ''id''), as_str (field fs ''tenant''), as_str (field fs ''agent_id''),
            as_str (field fs ''capability''), as_payload (field fs ''payload''),
            as_int (field fs ''priority''), as_int (field fs ''ttl_seconds''),
            as_str (field fs ''status''), as_str (field fs ''result''), as_str (field fs ''error''),
            as_time (field fs ''created_at''), as_time (field fs ''updated_at''),
            as_time_ptr (field fs ''expires_at''))
      of (Some i, Some t, Some a, Some c, Some p, Some pr, Some ttl, Some st, Some r, Some e,
          Some ca, Some ua, Some ex) \<Rightarrow>
        Some \<lparr>j_ID = i, j_Tenant = t, j_AgentID = a, j_Capability = c, j_Payload = p,
          j_Priority = pr, j_TTLSeconds = ttl, j_Status = st, j_Result = r, j_Error = e,
          j_CreatedAt = ca, j_UpdatedAt = ua, j_ExpiresAt = ex\<rparr>
      | _ \<Rightarrow> None)"

fun unmarshal_job :: "blob \<Rightarrow> job option" where
  "unmarshal_job (Doc (JObj fs)) = job_of_fields fs"
| "unmarshal_job (Doc JNull) = job_of_fields []"
| "unmarshal_job _ = None"

section \<open>Operations\<close>

definition jobs_parseJobNum :: "string \<Rightarrow> uint64" where
  "jobs_parseJobNum i = parse_num ''job-'' i"

definition jobs_persist :: "'s persister \<Rightarrow> job \<Rightarrow> 's option \<Rightarrow> 's option" where
  "jobs_persist P j st = kv_write P st (j_Tenant j) (jobKeyPrefix @ j_ID j) (Doc (marshal_job j))"

definition jobs_unpersist :: "'s persister \<Rightarrow> job \<Rightarrow> 's option \<Rightarrow> 's option" where
  "jobs_unpersist P j st = kv_remove P st (j_Tenant j) (jobKeyPrefix @ j_ID j)"

fun load_jobs :: "job list \<Rightarrow> 's queue \<Rightarrow> 's queue" where
  "load_jobs [] q = q"
| "load_jobs (j # js) q =
     load_jobs js (q\<lparr>q_jobs := (q_jobs q)(j_ID j \<mapsto> j),
       q_counter := (let n = jobs_parseJobNum (j_ID j) in if n > q_counter q then n else q_counter q)\<rparr>)"

definition jobs_LoadFromStore :: "'s persister \<Rightarrow> 's queue \<Rightarrow> string \<Rightarrow> (string + nat) \<times> 's queue" where
  "jobs_LoadFromStore P q tenant =
     (case q_store q of None \<Rightarrow> (Inr 0, q)
      | Some s \<Rightarrow>
        (case pScan P s tenant jobKeyPrefix of Inl e \<Rightarrow> (Inl e, q)
         | Inr kvs \<Rightarrow> let loaded = List.map_filter (\<lambda>kv. unmarshal_job (snd kv)) kvs
                     in (Inr (length loaded), load_jobs loaded q)))"

definition jobs_SubmitWithOpts ::
    "'s persister \<Rightarrow> 's queue \<Rightarrow> string \<Rightarrow> string \<Rightarrow> string \<Rightarrow> payload \<Rightarrow> int \<Rightarrow> int \<Rightarrow> instant \<Rightarrow> job \<times> 's queue" where
  "jobs_SubmitWithOpts P q tenant agentID capability payload priority ttl now =
     (let c = q_counter q + 1;
          i = numbered ''job-'' c;
          j = \<lparr>j_ID = i, j_Tenant = tenant, j_AgentID = agentID, j_Capability = capability,
               j_Payload = payload, j_Priority = priority, j_TTLSeconds = ttl,
               j_Status = StatusPending, j_Result = [], j_Error = [], j_CreatedAt = now,
               j_UpdatedAt = now,
               j_ExpiresAt = (if ttl > 0 then Some (now + seconds ttl) else None)\<rparr>
      in (j, q\<lparr>q_counter := c, q_jobs := (q_jobs q)(i \<mapsto> j), q_store := jobs_persist P j (q_store q)\<rparr>))"

definition jobs_Submit ::
    "'s persister \<Rightarrow> 's queue \<Rightarrow> string \<Rightarrow> string \<Rightarrow> string \<Rightarrow> payload \<Rightarrow> instant \<Rightarrow> job \<times> 's queue" where
  "jobs_Submit P q tenant agentID capability payload now =
     jobs_SubmitWithOpts P q tenant agentID capability payload 0 0 now"

definition jobs_Get :: "'s queue \<Rightarrow> string \<Rightarrow> job option" where
  "jobs_Get q i = q_jobs q i"

text \<open>Storing a changed job: the map entry and its persisted copy.\<close>

definition put_job :: "'s persister \<Rightarrow> string \<Rightarrow> job \<Rightarrow> 's queue \<Rightarrow> 's queue" where
  "put_job P k j q = q\<lparr>q_jobs := (q_jobs q)(k \<mapsto> j), q_store := jobs_persist P j (q_store q)\<rparr>"

definition jobs_Update ::
    "'s persister \<Rightarrow> 's queue \<Rightarrow> string \<Rightarrow> string \<Rightarrow> string \<Rightarrow> string \<Rightarrow> instant \<Rightarrow> bool \<times> 's queue" where
  "jobs_Update P q i status result errMsg now =
     (case q_jobs q i of None \<Rightarrow> (False, q)
      | Some j \<Rightarrow> (True, put_job P i
          (j\<lparr>j_Status := status, j_Result := result, j_Error := errMsg, j_UpdatedAt := now\<rparr>) q))"

definition terminal :: "string \<Rightarrow> bool" where
  "terminal st \<longleftrightarrow> st = StatusDone \<or> st = StatusFailed \<or> st = StatusCancelled"

definition jobs_Cancel :: "'s persister \<Rightarrow> 's queue \<Rightarrow> string \<Rightarrow> instant \<Rightarrow> bool \<times> 's queue" where
  "jobs_Cancel P q i now =
     (case q_jobs q i of None \<Rightarrow> (False, q)
      | Some j \<Rightarrow> if terminal (j_Status j) then (False, q)
          else (True, put_job P i (j\<lparr>j_Status := StatusCancelled, j_UpdatedAt := now\<rparr>) q))"

text \<open>The comparison of both claim loops, on map entries.\<close>

definition job_better :: "string \<times> job \<Rightarrow> string \<times> job \<Rightarrow> bool" where
  "job_better x y \<longleftrightarrow> j_Priority (snd x) > j_Priority (snd y) \<or>
     (j_Priority (snd x) = j_Priority (snd y) \<and> j_CreatedAt (snd x) < j_CreatedAt (snd y))"

definition entries :: "('k \<rightharpoonup> 'v) \<Rightarrow> 'k list \<Rightarrow> ('k \<times> 'v) list" where
  "entries m ks = map (\<lambda>k. (k, the (m k))) (filter (\<lambda>k. m k \<noteq> None) ks)"

text \<open>The end of both claim operations: the chosen job is assigned, marked running and written.\<close>

definition take_job :: "'s persister \<Rightarrow> string \<Rightarrow> (string \<times> job) option \<Rightarrow> instant \<Rightarrow> 's queue \<Rightarrow> job option \<times> 's queue" where
  "take_job P agentID best now q =
     (case best of None \<Rightarrow> (None, q)
      | Some (k, j) \<Rightarrow>
          let j' = (if agentID \<noteq> [] then j\<lparr>j_AgentID := agentID\<rparr> else j)\<lparr>j_Status := StatusRunning, j_UpdatedAt := now\<rparr>
          in (Some j', put_job P k j' q))"

definition claim_match :: "string \<Rightarrow> string \<Rightarrow> job \<Rightarrow> bool" where
  "claim_match agentID capability j \<longleftrightarrow> j_Status j = StatusPending \<and>
     (if agentID \<noteq> [] then j_AgentID j = agentID
      else if capability \<noteq> [] then j_Capability j = capability else False)"

definition jobs_Claim ::
    "'s persister \<Rightarrow> 's queue \<Rightarrow> string \<Rightarrow> string \<Rightarrow> string list \<Rightarrow> instant \<Rightarrow> job option \<times> 's queue" where
  "jobs_Claim P q agentID capability ks now =
     take_job P agentID
       (select_best (\<lambda>x. claim_match agentID capability (snd x)) job_better None (entries (q_jobs q) ks)) now q"

definition claim_tenant_match :: "string \<Rightarrow> string \<Rightarrow> string \<Rightarrow> job \<Rightarrow> bool" where
  "claim_tenant_match tenant agentID capability j \<longleftrightarrow> j_Status j = StatusPending \<and>
     j_Tenant j = tenant \<and> \<not> (capability \<noteq> [] \<and> j_Capability j \<noteq> capability) \<and>
     \<not> (agentID \<noteq> [] \<and> j_AgentID j \<noteq> [] \<and> j_AgentID j \<noteq> agentID)"

definition jobs_ClaimForTenant ::
    "'s persister \<Rightarrow> 's queue \<Rightarrow> string \<Rightarrow> string \<Rightarrow> string \<Rightarrow> string list \<Rightarrow> instant \<Rightarrow> job option \<times> 's queue" where
  "jobs_ClaimForTenant P q tenant agentID capability ks now =
     take_job P agentID
       (select_best (\<lambda>x. claim_tenant_match tenant agentID capability (snd x)) job_better None
          (entries (q_jobs q) ks)) now q"

fun jobs_ExpireStale :: "'s persister \<Rightarrow> 's queue \<Rightarrow> string list \<Rightarrow> instant \<Rightarrow> nat \<times> 's queue" where
  "jobs_ExpireStale P q [] now = (0, q)"
| "jobs_ExpireStale P q (k # ks) now =
     (case q_jobs q k of None \<Rightarrow> jobs_ExpireStale P q ks now
      | Some j \<Rightarrow>
          if j_Status j = StatusPending \<and> expired now (j_ExpiresAt j)
          then (case jobs_ExpireStale P
                  (put_job P k (j\<lparr>j_Status := StatusFailed, j_Error := ''ttl expired'', j_UpdatedAt := now\<rparr>) q)
                  ks now of (n, q') \<Rightarrow> (n + 1, q'))
          else jobs_ExpireStale P q ks now)"

fun jobs_Prune :: "'s persister \<Rightarrow> 's queue \<Rightarrow> string list \<Rightarrow> instant \<Rightarrow> nat \<times> 's queue" where
  "jobs_Prune P q [] cutoff = (0, q)"
| "jobs_Prune P q (k # ks) cutoff =
     (case q_jobs q k of None \<Rightarrow> jobs_Prune P q ks cutoff
      | Some j \<Rightarrow>
          if terminal (j_Status j) \<and> j_UpdatedAt j < cutoff
          then (case jobs_Prune P
                  (q\<lparr>q_store := jobs_unpersist P j (q_store q), q_jobs := (q_jobs q)(k := None)\<rparr>) ks cutoff
                of (n, q') \<Rightarrow> (n + 1, q'))
          else jobs_Prune P q ks cutoff)"

text \<open>\<open>jobs_PruneAge\<close> is the exported operation: \<^verbatim>\<open>cutoff := time.Now().Add(-maxAge)\<close>.\<close>

definition jobs_PruneAge :: "'s persister \<Rightarrow> 's queue \<Rightarrow> duration \<Rightarrow> string list \<Rightarrow> instant \<Rightarrow> nat \<times> 's queue" where
  "jobs_PruneAge P q maxAge ks now = jobs_Prune P q ks (now + i64 (- maxAge))"

text \<open>The in-place insertion sort of \<open>List\<close> and \<open>ListByStatus\<close>, newest first:
  the inner loop moves the element at \<open>k\<close> left while it is newer than its neighbour.\<close>

function sift_back :: "job list \<Rightarrow> nat \<Rightarrow> job list" where
  "sift_back out k =
     (if k > 0 \<and> j_CreatedAt (out ! k) > j_CreatedAt (out ! (k - 1))
      then sift_back (out[k := out ! (k - 1), k - 1 := out ! k]) (k - 1) else out)"
  by pat_completeness auto
termination
  by (relation "measure (\<lambda>(out, k). k)") auto

declare sift_back.simps [simp del]

function sort_from :: "nat \<Rightarrow> job list \<Rightarrow> job list" where
  "sort_from i out = (if i < length out then sort_from (i + 1) (sift_back out i) else out)"
  by pat_completeness auto

lemma length_sift_back [simp]: "length (sift_back out k) = length out"
proof (induction out k rule: sift_back.induct)
  case (1 out k)
  then show ?case by (subst sift_back.simps) auto
qed

termination sort_from
  by (relation "measure (\<lambda>(i, out). length out - i)") auto

declare sort_from.simps [simp del]

definition jobs_List :: "'s queue \<Rightarrow> string \<Rightarrow> string list \<Rightarrow> job list" where
  "jobs_List q tenant ks =
     sort_from 1 (filter (\<lambda>j. tenant = [] \<or> j_Tenant j = tenant) (range_vals (q_jobs q) ks))"

definition jobs_ListByStatus :: "'s queue \<Rightarrow> string \<Rightarrow> string \<Rightarrow> string list \<Rightarrow> job list" where
  "jobs_ListByStatus q tenant status ks =
     sort_from 1 (filter (\<lambda>j. (tenant = [] \<or> j_Tenant j = tenant) \<and> j_Status j = status)
       (range_vals (q_jobs q) ks))"

definition jobs_Count :: "'s queue \<Rightarrow> nat" where
  "jobs_Count q = card (dom (q_jobs q))"

definition jobs_CountByStatus :: "'s queue \<Rightarrow> string \<Rightarrow> string list \<Rightarrow> string \<rightharpoonup> nat" where
  "jobs_CountByStatus q tenant ks =
     fold (\<lambda>j out. if tenant = [] \<or> j_Tenant j = tenant
        then out(j_Status j \<mapsto> (case out (j_Status j) of None \<Rightarrow> 1 | Some n \<Rightarrow> n + 1)) else out)
       (range_vals (q_jobs q) ks) Map.empty"

section \<open>Claiming\<close>

interpretation job_pref: strict_pref job_better
  by unfold_locales (auto simp: job_better_def)

interpretation job_ids: id_scheme "numbered ''job-''" jobs_parseJobNum
  by unfold_locales (simp add: jobs_parseJobNum_def parse_num_numbered)

lemma set_entries: "iter_order m ks \<Longrightarrow> x \<in> set (entries m ks) \<longleftrightarrow> m (fst x) = Some (snd x)"
  by (cases x) (auto simp: entries_def iter_order_def dom_def)

lemma put_job_simps [simp]:
  "q_jobs (put_job P k j q) = (q_jobs q)(k \<mapsto> j)"
  "q_counter (put_job P k j q) = q_counter q"
  "q_store (put_job P k j q) = jobs_persist P j (q_store q)"
  by (simp_all add: put_job_def)

definition claimed :: "string \<Rightarrow> instant \<Rightarrow> job \<Rightarrow> job" where
  "claimed agentID now j =
     (if agentID \<noteq> [] then j\<lparr>j_AgentID := agentID\<rparr> else j)\<lparr>j_Status := StatusRunning, j_UpdatedAt := now\<rparr>"

lemma claimed_simps [simp]:
  "j_Status (claimed a now j) = StatusRunning" "j_ID (claimed a now j) = j_ID j"
  "j_Tenant (claimed a now j) = j_Tenant j" "j_Capability (claimed a now j) = j_Capability j"
  "j_Priority (claimed a now j) = j_Priority j" "j_CreatedAt (claimed a now j) = j_CreatedAt j"
  "j_AgentID (claimed a now j) = (if a \<noteq> [] then a else j_AgentID j)"
  "j_TTLSeconds (claimed a now j) = j_TTLSeconds j"
  by (simp_all add: claimed_def)

lemma take_job_simps [simp]:
  "take_job P a None now q = (None, q)"
  "take_job P a (Some (k, j)) now q = (Some (claimed a now j), put_job P k (claimed a now j) q)"
  by (simp_all add: take_job_def claimed_def Let_def)

text \<open>What both claim operations share: the outcome of the selection loop.\<close>

lemma claim_cases:
  assumes "iter_order (q_jobs q) ks"
    and "take_job P a (select_best (\<lambda>x. ok (snd x)) job_better None (entries (q_jobs q) ks)) now q = (r, q')"
  obtains (none) "r = None" "q' = q" "\<And>k j. q_jobs q k = Some j \<Longrightarrow> \<not> ok j"
  | (some) k j where "q_jobs q k = Some j" "ok j" "r = Some (claimed a now j)"
      "q' = put_job P k (claimed a now j) q"
      "\<And>k' j'. q_jobs q k' = Some j' \<Longrightarrow> ok j' \<Longrightarrow> \<not> job_better (k', j') (k, j)"
proof (cases "select_best (\<lambda>x. ok (snd x)) job_better None (entries (q_jobs q) ks)")
  case None
  then have "\<forall>x \<in> set (entries (q_jobs q) ks). \<not> ok (snd x)" by (simp add: select_best_None)
  then have "\<And>k j. q_jobs q k = Some j \<Longrightarrow> \<not> ok j"
    using set_entries [OF assms(1)] by (metis fst_conv snd_conv)
  with None assms(2) none show ?thesis by simp
next
  case (Some x)
  obtain k j where x: "x = (k, j)" by (cases x)
  note c = job_pref.select_best_correct [OF Some]
  have "q_jobs q k = Some j" using c(1) set_entries [OF assms(1), of x] x by simp
  moreover have "\<And>k' j'. q_jobs q k' = Some j' \<Longrightarrow> ok j' \<Longrightarrow> \<not> job_better (k', j') (k, j)"
    using c(3) set_entries [OF assms(1)] x by (metis fst_conv snd_conv)
  ultimately show ?thesis using some c(2) x Some assms(2) by simp
qed

section \<open>Listing\<close>

abbreviation newest_first :: "job list \<Rightarrow> bool" where
  "newest_first \<equiv> sorted_wrt (\<lambda>a b. j_CreatedAt b \<le> j_CreatedAt a)"

lemma sift_back_prefix:
  "newest_first xs \<Longrightarrow> \<exists>ys. sift_back (xs @ x # zs) (length xs) = ys @ zs \<and> newest_first ys \<and>
     mset ys = add_mset x (mset xs)"
proof (induction xs arbitrary: zs rule: rev_induct)
  case Nil
  show ?case by (rule exI [of _ "[x]"]) (simp add: sift_back.simps)
next
  case (snoc y xs)
  show ?case
  proof (cases "j_CreatedAt y < j_CreatedAt x")
    case True
    have "sift_back ((xs @ [y]) @ x # zs) (length (xs @ [y])) = sift_back (xs @ x # y # zs) (length xs)"
      using True by (subst sift_back.simps) (simp add: nth_append list_update_append)
    moreover obtain ys where ys: "sift_back (xs @ x # y # zs) (length xs) = ys @ y # zs"
      "newest_first ys" "mset ys = add_mset x (mset xs)"
      using snoc.IH [of "y # zs"] snoc.prems by (auto simp: sorted_wrt_append)
    moreover have "newest_first (ys @ [y])"
    proof -
      have "set ys = insert x (set xs)" by (metis ys(3) set_mset_add_mset_insert set_mset_mset)
      with ys(2) snoc.prems True show ?thesis by (auto simp: sorted_wrt_append)
    qed
    ultimately show ?thesis by (intro exI [of _ "ys @ [y]"]) simp
  next
    case False
    then have "sift_back ((xs @ [y]) @ x # zs) (length (xs @ [y])) = ((xs @ [y]) @ [x]) @ zs"
      by (subst sift_back.simps) (simp add: nth_append)
    moreover have "newest_first ((xs @ [y]) @ [x])"
      using snoc.prems False by (auto simp: sorted_wrt_append)
    ultimately show ?thesis by (intro exI [of _ "(xs @ [y]) @ [x]"]) simp
  qed
qed

lemma sort_from_correct:
  "newest_first (take i out) \<Longrightarrow> newest_first (sort_from i out) \<and> mset (sort_from i out) = mset out"
proof (induction i out rule: sort_from.induct)
  case (1 i out)
  show ?case
  proof (cases "i < length out")
    case True
    obtain ys where ys: "sift_back (take i out @ out ! i # drop (Suc i) out) (length (take i out)) =
        ys @ drop (Suc i) out" "newest_first ys" "mset ys = add_mset (out ! i) (mset (take i out))"
      using sift_back_prefix [OF 1(2)] by blast
    then have eq: "sift_back out i = ys @ drop (Suc i) out"
      using True by (simp add: id_take_nth_drop [symmetric])
    have len: "length ys = Suc i"
      by (metis True length_take less_imp_le_nat min.absorb2 size_add_mset size_mset ys(3))
    have "mset (sift_back out i) = mset (take i out @ out ! i # drop (Suc i) out)"
      by (simp add: eq ys(3))
    also have "\<dots> = mset out" using True by (simp only: id_take_nth_drop [symmetric])
    finally have m: "mset (sift_back out i) = mset out" .
    have "newest_first (take (i + 1) (sift_back out i))" using eq len ys(2) by simp
    with 1(1) [OF True] m show ?thesis
      by (simp add: sort_from.simps [of i out] True)
  next
    case False
    with 1(2) show ?thesis by (simp add: sort_from.simps [of i out])
  qed
qed

lemma sort_from_1: "newest_first (sort_from 1 out) \<and> mset (sort_from 1 out) = mset out"
proof -
  have "newest_first (take 1 out)" by (cases out) simp_all
  then show ?thesis by (rule sort_from_correct)
qed

section \<open>The loops over the whole queue\<close>

definition stale :: "instant \<Rightarrow> job \<Rightarrow> bool" where
  "stale now j \<longleftrightarrow> j_Status j = StatusPending \<and> expired now (j_ExpiresAt j)"

definition expire_job :: "instant \<Rightarrow> job \<Rightarrow> job" where
  "expire_job now j = j\<lparr>j_Status := StatusFailed, j_Error := ''ttl expired'', j_UpdatedAt := now\<rparr>"

lemma expire_job_simps [simp]:
  "j_Status (expire_job now j) = StatusFailed" "j_ID (expire_job now j) = j_ID j"
  "j_Tenant (expire_job now j) = j_Tenant j" "j_Priority (expire_job now j) = j_Priority j"
  "j_TTLSeconds (expire_job now j) = j_TTLSeconds j"
  by (simp_all add: expire_job_def)

definition stale_at :: "instant \<Rightarrow> (string \<rightharpoonup> job) \<Rightarrow> string \<Rightarrow> bool" where
  "stale_at now m k \<longleftrightarrow> (\<exists>j. m k = Some j \<and> stale now j)"

lemma ExpireStale_Cons:
  "stale_at now (q_jobs q) k \<Longrightarrow> jobs_ExpireStale P q (k # ks) now =
     (case jobs_ExpireStale P (put_job P k (expire_job now (the (q_jobs q k))) q) ks now of (n, q') \<Rightarrow> (n + 1, q'))"
  "\<not> stale_at now (q_jobs q) k \<Longrightarrow> jobs_ExpireStale P q (k # ks) now = jobs_ExpireStale P q ks now"
  by (auto simp: stale_at_def stale_def expire_job_def split: option.splits)

declare jobs_ExpireStale.simps(2) [simp del]

lemma ExpireStale_counter: "q_counter (snd (jobs_ExpireStale P q ks now)) = q_counter q"
proof (induction ks arbitrary: q)
  case (Cons k ks)
  then show ?case
    by (cases "stale_at now (q_jobs q) k") (simp_all add: ExpireStale_Cons case_prod_beta)
qed simp

lemma ExpireStale_jobs:
  "distinct ks \<Longrightarrow> q_jobs (snd (jobs_ExpireStale P q ks now)) =
     (\<lambda>k. if k \<in> set ks \<and> stale_at now (q_jobs q) k then Some (expire_job now (the (q_jobs q k))) else q_jobs q k)"
proof (induction ks arbitrary: q)
  case (Cons k ks)
  then show ?case
    by (cases "stale_at now (q_jobs q) k")
      (auto simp: ExpireStale_Cons case_prod_beta fun_eq_iff stale_at_def)
qed simp

lemma ExpireStale_count:
  "distinct ks \<Longrightarrow> fst (jobs_ExpireStale P q ks now) = length (filter (stale_at now (q_jobs q)) ks)"
proof (induction ks arbitrary: q)
  case (Cons k ks)
  have "filter (stale_at now ((q_jobs q)(k \<mapsto> x))) ks = filter (stale_at now (q_jobs q)) ks" for x
    using Cons.prems by (auto simp: stale_at_def intro!: filter_cong split: if_splits)
  with Cons show ?case
    by (cases "stale_at now (q_jobs q) k") (simp_all add: ExpireStale_Cons case_prod_beta)
qed simp

definition prunable :: "instant \<Rightarrow> job \<Rightarrow> bool" where
  "prunable cutoff j \<longleftrightarrow> terminal (j_Status j) \<and> j_UpdatedAt j < cutoff"

definition prunable_at :: "instant \<Rightarrow> (string \<rightharpoonup> job) \<Rightarrow> string \<Rightarrow> bool" where
  "prunable_at cutoff m k \<longleftrightarrow> (\<exists>j. m k = Some j \<and> prunable cutoff j)"

definition drop_job :: "'s persister \<Rightarrow> string \<Rightarrow> 's queue \<Rightarrow> 's queue" where
  "drop_job P k q = q\<lparr>q_store := jobs_unpersist P (the (q_jobs q k)) (q_store q), q_jobs := (q_jobs q)(k := None)\<rparr>"

lemma drop_job_simps [simp]:
  "q_jobs (drop_job P k q) = (q_jobs q)(k := None)"
  "q_counter (drop_job P k q) = q_counter q"
  "q_store (drop_job P k q) = jobs_unpersist P (the (q_jobs q k)) (q_store q)"
  by (simp_all add: drop_job_def)

lemma Prune_Cons:
  "prunable_at cutoff (q_jobs q) k \<Longrightarrow> jobs_Prune P q (k # ks) cutoff =
     (case jobs_Prune P (drop_job P k q) ks cutoff of (n, q') \<Rightarrow> (n + 1, q'))"
  "\<not> prunable_at cutoff (q_jobs q) k \<Longrightarrow> jobs_Prune P q (k # ks) cutoff = jobs_Prune P q ks cutoff"
  by (auto simp: prunable_at_def prunable_def drop_job_def split: option.splits)

declare jobs_Prune.simps(2) [simp del]

lemma Prune_jobs:
  "distinct ks \<Longrightarrow> q_jobs (snd (jobs_Prune P q ks cutoff)) =
     (\<lambda>k. if k \<in> set ks \<and> prunable_at cutoff (q_jobs q) k then None else q_jobs q k)"
proof (induction ks arbitrary: q)
  case (Cons k ks)
  then show ?case
    by (cases "prunable_at cutoff (q_jobs q) k")
      (auto simp: Prune_Cons case_prod_beta fun_eq_iff prunable_at_def)
qed simp

lemma Prune_counter: "q_counter (snd (jobs_Prune P q ks cutoff)) = q_counter q"
proof (induction ks arbitrary: q)
  case (Cons k ks)
  then show ?case
    by (cases "prunable_at cutoff (q_jobs q) k") (simp_all add: Prune_Cons case_prod_beta)
qed simp

section \<open>Invariants of a run\<close>

definition jobs_inv :: "'s queue \<Rightarrow> bool" where
  "jobs_inv q \<longleftrightarrow>
     (\<forall>k j. q_jobs q k = Some j \<longrightarrow> j_ID j = k \<and> is_i64 (j_Priority j) \<and> is_i64 (j_TTLSeconds j)) \<and>
     (\<forall>k \<in> dom (q_jobs q). jobs_parseJobNum k \<le> q_counter q)"

text \<open>
  The steps of a running queue. \<open>Update\<close>, which may write any status, is a step of its own
  kind. Submissions stop short of the counter wrapping around.
\<close>

inductive jobs_step :: "'s persister \<Rightarrow> 's queue \<Rightarrow> 's queue \<Rightarrow> bool" for P where
  submit: "q_counter q + 1 \<noteq> 0 \<Longrightarrow> is_i64 pr \<Longrightarrow> is_i64 ttl \<Longrightarrow>
     jobs_step P q (snd (jobs_SubmitWithOpts P q tenant agentID capability payload pr ttl now))"
| claim: "iter_order (q_jobs q) ks \<Longrightarrow> jobs_step P q (snd (jobs_Claim P q agentID capability ks now))"
| claim_tenant: "iter_order (q_jobs q) ks \<Longrightarrow>
     jobs_step P q (snd (jobs_ClaimForTenant P q tenant agentID capability ks now))"
| cancel: "jobs_step P q (snd (jobs_Cancel P q i now))"
| expire: "iter_order (q_jobs q) ks \<Longrightarrow> jobs_step P q (snd (jobs_ExpireStale P q ks now))"
| prune: "iter_order (q_jobs q) ks \<Longrightarrow> jobs_step P q (snd (jobs_Prune P q ks cutoff))"

inductive jobs_change :: "'s persister \<Rightarrow> 's queue \<Rightarrow> 's queue \<Rightarrow> bool" for P where
  step: "jobs_step P q q' \<Longrightarrow> jobs_change P q q'"
| update: "jobs_change P q (snd (jobs_Update P q i status result errMsg now))"

text \<open>Every step is one of four kinds of change to the map, with the persisted copy written
  alongside; the invariants are proved once per kind.\<close>

definition submitted :: "'s queue \<Rightarrow> job \<Rightarrow> bool" where
  "submitted q j \<longleftrightarrow> j_ID j = numbered ''job-'' (q_counter q + 1) \<and> j_Status j = StatusPending \<and>
     is_i64 (j_Priority j) \<and> is_i64 (j_TTLSeconds j)"

definition same_job :: "job \<Rightarrow> job \<Rightarrow> bool" where
  "same_job j j' \<longleftrightarrow> j_ID j' = j_ID j \<and> j_Tenant j' = j_Tenant j \<and> j_Priority j' = j_Priority j \<and>
     j_TTLSeconds j' = j_TTLSeconds j"

inductive jobs_micro :: "'s persister \<Rightarrow> bool \<Rightarrow> 's queue \<Rightarrow> 's queue \<Rightarrow> bool" for P and upd where
  add: "q_counter q + 1 \<noteq> 0 \<Longrightarrow> submitted q j \<Longrightarrow>
     jobs_micro P upd q (put_job P (j_ID j) j (q\<lparr>q_counter := q_counter q + 1\<rparr>))"
| put: "q_jobs q k = Some j \<Longrightarrow> same_job j j' \<Longrightarrow> upd \<or> j_Status j' \<noteq> StatusPending \<Longrightarrow>
     jobs_micro P upd q (put_job P k j' q)"
| remove: "q_jobs q k \<noteq> None \<Longrightarrow> jobs_micro P upd q (drop_job P k q)"

lemma micro_ExpireStale: "(jobs_micro P upd)\<^sup>*\<^sup>* q (snd (jobs_ExpireStale P q ks now))"
proof (induction ks arbitrary: q)
  case (Cons k ks)
  show ?case
  proof (cases "stale_at now (q_jobs q) k")
    case True
    then obtain j where j: "q_jobs q k = Some j" by (auto simp: stale_at_def)
    then have "jobs_micro P upd q (put_job P k (expire_job now j) q)"
      by (intro jobs_micro.put) (auto simp: same_job_def)
    with Cons [of "put_job P k (expire_job now j) q"] j True show ?thesis
      by (simp add: ExpireStale_Cons case_prod_beta converse_rtranclp_into_rtranclp)
  qed (simp add: ExpireStale_Cons Cons)
qed simp

lemma micro_Prune: "(jobs_micro P upd)\<^sup>*\<^sup>* q (snd (jobs_Prune P q ks cutoff))"
proof (induction ks arbitrary: q)
  case (Cons k ks)
  show ?case
  proof (cases "prunable_at cutoff (q_jobs q) k")
    case True
    then have "jobs_micro P upd q (drop_job P k q)"
      by (intro jobs_micro.remove) (auto simp: prunable_at_def)
    with Cons [of "drop_job P k q"] True show ?thesis
      by (simp add: Prune_Cons case_prod_beta converse_rtranclp_into_rtranclp)
  qed (simp add: Prune_Cons Cons)
qed simp

lemma micro_take_job:
  assumes "iter_order (q_jobs q) ks"
  shows "(jobs_micro P upd)\<^sup>*\<^sup>* q (snd (take_job P a
    (select_best (\<lambda>x. ok (snd x)) job_better None (entries (q_jobs q) ks)) now q))"
proof -
  obtain r q' where t: "take_job P a
    (select_best (\<lambda>x. ok (snd x)) job_better None (entries (q_jobs q) ks)) now q = (r, q')"
    by fastforce
  from assms this show ?thesis
  proof (cases rule: claim_cases)
    case (some k j)
    then have "jobs_micro P upd q q'" by (auto simp: same_job_def intro!: jobs_micro.put)
    with t show ?thesis by simp
  qed (simp add: t)
qed

lemma step_micro: "jobs_step P q q' \<Longrightarrow> (jobs_micro P upd)\<^sup>*\<^sup>* q q'"
proof (induction rule: jobs_step.induct)
  case (submit q pr ttl tenant agentID capability payload now)
  obtain j where "snd (jobs_SubmitWithOpts P q tenant agentID capability payload pr ttl now) =
      put_job P (j_ID j) j (q\<lparr>q_counter := q_counter q + 1\<rparr>)" "submitted q j"
    using submit by (auto simp: jobs_SubmitWithOpts_def Let_def put_job_def submitted_def)
  with submit show ?case by (auto intro: jobs_micro.add)
next
  case (claim q ks agentID capability now)
  then show ?case by (simp add: jobs_Claim_def micro_take_job)
next
  case (claim_tenant q ks tenant agentID capability now)
  then show ?case by (simp add: jobs_ClaimForTenant_def micro_take_job)
next
  case (cancel q i now)
  show ?case
    by (auto simp: jobs_Cancel_def same_job_def split: option.splits if_splits
        intro!: r_into_rtranclp jobs_micro.put)
next
  case (expire q ks now)
  show ?case by (rule micro_ExpireStale)
next
  case (prune q ks cutoff)
  show ?case by (rule micro_Prune)
qed

lemma change_micro: "jobs_change P q q' \<Longrightarrow> (jobs_micro P True)\<^sup>*\<^sup>* q q'"
proof (induction rule: jobs_change.induct)
  case (step q q')
  then show ?case by (rule step_micro)
next
  case (update q i status result errMsg now)
  show ?case
    by (auto simp: jobs_Update_def same_job_def split: option.splits
        intro!: r_into_rtranclp jobs_micro.put)
qed


lemma micro_inv: "jobs_micro P upd q q' \<Longrightarrow> jobs_inv q \<Longrightarrow> jobs_inv q'"
proof (induction rule: jobs_micro.induct)
  case (add q j)
  then have "\<forall>i \<in> insert (j_ID j) (dom (q_jobs q)). jobs_parseJobNum i \<le> q_counter q + 1"
    using job_ids.bounded_insert [of "dom (q_jobs q)" "q_counter q"]
    by (simp add: jobs_inv_def submitted_def)
  with add show ?case by (auto simp: jobs_inv_def submitted_def)
next
  case (put q k j j')
  then show ?case by (auto simp: jobs_inv_def same_job_def)
next
  case (remove q k)
  then show ?case by (auto simp: jobs_inv_def)
qed

lemma micros_inv: "(jobs_micro P upd)\<^sup>*\<^sup>* q q' \<Longrightarrow> jobs_inv q \<Longrightarrow> jobs_inv q'"
  by (induction rule: rtranclp_induct) (auto intro: micro_inv)

lemma inv_fresh: "jobs_inv q \<Longrightarrow> q_counter q + 1 \<noteq> 0 \<Longrightarrow> q_jobs q (numbered ''job-'' (q_counter q + 1)) = None"
  using job_ids.fresh [of "dom (q_jobs q)" "q_counter q"] by (auto simp: jobs_inv_def)

section \<open>A job is handed out once\<close>

text \<open>A claim that returned a job, by either operation.\<close>

inductive claims :: "'s persister \<Rightarrow> 's queue \<Rightarrow> job \<Rightarrow> 's queue \<Rightarrow> bool" for P where
  any: "iter_order (q_jobs q) ks \<Longrightarrow> jobs_Claim P q agentID capability ks now = (Some j, q') \<Longrightarrow>
    claims P q j q'"
| tenant: "iter_order (q_jobs q) ks \<Longrightarrow>
    jobs_ClaimForTenant P q t agentID capability ks now = (Some j, q') \<Longrightarrow> claims P q j q'"

definition taken :: "string \<Rightarrow> 's queue \<Rightarrow> bool" where
  "taken i q \<longleftrightarrow> jobs_parseJobNum i \<le> q_counter q \<and> (\<forall>j. q_jobs q i = Some j \<longrightarrow> j_Status j \<noteq> StatusPending)"

lemma claims_effect:
  assumes "claims P q j q'" "jobs_inv q"
  obtains j0 where "q_jobs q (j_ID j) = Some j0" "j_Status j0 = StatusPending" "taken (j_ID j) q'"
    "q' = put_job P (j_ID j) j q" "jobs_inv q'"
proof -
  have "\<exists>k j0 a now. q_jobs q k = Some j0 \<and> j_Status j0 = StatusPending \<and> j = claimed a now j0 \<and>
      q' = put_job P k j q" using assms(1)
  proof cases
    case (any ks agentID capability now)
    from any(1) any(2) [unfolded jobs_Claim_def] show ?thesis
    proof (cases rule: claim_cases)
      case (some k j0)
      then have "j_Status j0 = StatusPending" by (simp add: claim_match_def)
      with some show ?thesis by (intro exI [of _ k] exI [of _ j0] exI [of _ agentID] exI [of _ now]) simp
    qed simp
  next
    case (tenant ks t agentID capability now)
    from tenant(1) tenant(2) [unfolded jobs_ClaimForTenant_def] show ?thesis
    proof (cases rule: claim_cases)
      case (some k j0)
      then have "j_Status j0 = StatusPending" by (simp add: claim_tenant_match_def)
      with some show ?thesis by (intro exI [of _ k] exI [of _ j0] exI [of _ agentID] exI [of _ now]) simp
    qed simp
  qed
  then obtain k j0 a now where k: "q_jobs q k = Some j0" "j_Status j0 = StatusPending"
    "j = claimed a now j0" "q' = put_job P k j q" by blast
  then have id: "k = j_ID j" using assms(2) by (simp add: jobs_inv_def)
  have "same_job j0 j" unfolding k(3) same_job_def by simp
  moreover have "j_Status j \<noteq> StatusPending" unfolding k(3) by simp
  ultimately have "jobs_micro P False q (put_job P k j q)" by (intro jobs_micro.put [OF k(1)]) simp_all
  from micro_inv [OF this assms(2)] have "jobs_inv q'" unfolding k(4) .
  moreover have "taken (j_ID j) q'"
    using assms(2) k(1) unfolding k(4) id [symmetric] by (auto simp: taken_def jobs_inv_def k(3))
  ultimately show ?thesis using k id that by blast
qed

lemma micro_taken: "jobs_micro P False q q' \<Longrightarrow> taken i q \<Longrightarrow> taken i q'"
proof (induction rule: jobs_micro.induct)
  case (add q j)
  then have lt: "q_counter q < q_counter q + 1" by (simp add: word_succ_gt)
  have i: "jobs_parseJobNum i \<le> q_counter q" using add by (simp add: taken_def)
  have "jobs_parseJobNum (j_ID j) = q_counter q + 1"
    using add job_ids.num_mk [of "q_counter q + 1"] by (simp add: submitted_def)
  with i lt have "i \<noteq> j_ID j" by (metis leD)
  moreover have "jobs_parseJobNum i \<le> q_counter q + 1" using i lt by (meson less_imp_le order_trans)
  ultimately show ?case using add by (simp add: taken_def)
qed (auto simp: taken_def)

lemma steps_taken:
  assumes "(jobs_step P)\<^sup>*\<^sup>* q q'" "jobs_inv q" "taken i q"
  shows "jobs_inv q' \<and> taken i q'"
  using assms
proof (induction rule: rtranclp_induct)
  case (step y z)
  have "(jobs_micro P False)\<^sup>*\<^sup>* y z" using step_micro step(2) by blast
  then have "jobs_inv y \<and> taken i y \<longrightarrow> jobs_inv z \<and> taken i z"
    by (induction rule: rtranclp_induct) (auto intro: micro_taken micro_inv)
  with step show ?case by blast
qed simp

section \<open>Writing and reading back a job\<close>

definition norm_job :: "job \<Rightarrow> job" where
  "norm_job j = j\<lparr>j_Payload := norm_payload (j_Payload j)\<rparr>"

lemma norm_job_simps [simp]: "j_ID (norm_job j) = j_ID j" "j_Tenant (norm_job j) = j_Tenant j"
  "j_Status (norm_job j) = j_Status j"
  by (simp_all add: norm_job_def)

lemma job_fields_read:
  "as_str (field (job_fields j) ''id'') = Some (j_ID j)"
  "as_str (field (job_fields j) ''tenant'') = Some (j_Tenant j)"
  "as_str (field (job_fields j) ''agent_id'') = Some (j_AgentID j)"
  "as_str (field (job_fields j) ''capability'') = Some (j_Capability j)"
  "as_payload (field (job_fields j) ''payload'') = Some (norm_payload (j_Payload j))"
  "is_i64 (j_Priority j) \<Longrightarrow> as_int (field (job_fields j) ''priority'') = Some (j_Priority j)"
  "is_i64 (j_TTLSeconds j) \<Longrightarrow> as_int (field (job_fields j) ''ttl_seconds'') = Some (j_TTLSeconds j)"
  "as_str (field (job_fields j) ''status'') = Some (j_Status j)"
  "as_str (field (job_fields j) ''result'') = Some (j_Result j)"
  "as_str (field (job_fields j) ''error'') = Some (j_Error j)"
  "as_time (field (job_fields j) ''created_at'') = Some (j_CreatedAt j)"
  "as_time (field (job_fields j) ''updated_at'') = Some (j_UpdatedAt j)"
  "as_time_ptr (field (job_fields j) ''expires_at'') = Some (j_ExpiresAt j)"
  by (simp_all add: job_fields_def json_field image_Un)

lemma unmarshal_marshal_job:
  assumes "is_i64 (j_Priority j)" "is_i64 (j_TTLSeconds j)"
  shows "unmarshal_job (Doc (marshal_job j)) = Some (norm_job j)"
  using assms by (simp add: marshal_job_def job_of_fields_def job_fields_read norm_job_def)


section \<open>The queue and its store\<close>

definition jobs_synced :: "'db bolt \<Rightarrow> 'db queue \<Rightarrow> bool" where
  "jobs_synced B q \<longleftrightarrow> synced B jobKeyPrefix j_Tenant (\<lambda>j. Doc (marshal_job j)) (q_store q) (q_jobs q)"

lemma synced_put:
  "bolt_ok B \<Longrightarrow> bolt_writes B \<Longrightarrow> jobs_synced B q \<Longrightarrow>
     (\<And>y. q_jobs q (j_ID j) = Some y \<Longrightarrow> j_Tenant y = j_Tenant j) \<Longrightarrow>
     jobs_synced B (put_job (bolt_persister B) (j_ID j) j q)"
  unfolding jobs_synced_def jobs_persist_def put_job_simps by (rule synced_write)

lemma micro_synced:
  assumes "jobs_micro (bolt_persister B) upd q q'" "bolt_ok B" "bolt_writes B" "jobs_inv q" "jobs_synced B q"
  shows "jobs_synced B q'"
  using assms
proof (induction rule: jobs_micro.induct)
  case (add q j)
  then have "q_jobs q (j_ID j) = None" by (simp add: inv_fresh submitted_def)
  moreover have "jobs_synced B (q\<lparr>q_counter := q_counter q + 1\<rparr>)" using add by (simp add: jobs_synced_def)
  ultimately show ?case by (intro synced_put [OF add(3,4)]) simp_all
next
  case (put q k j j')
  then have "k = j_ID j'" by (simp add: jobs_inv_def same_job_def)
  with put synced_put [OF put(4,5,7), of j'] show ?case by (simp add: same_job_def)
next
  case (remove q k)
  then obtain j where j: "q_jobs q k = Some j" "j_ID j = k" by (auto simp: jobs_inv_def)
  from synced_remove [OF remove(2,3) remove(5) [unfolded jobs_synced_def] j(1)] j show ?case
    by (simp add: jobs_synced_def jobs_unpersist_def)
qed

lemma changes_synced:
  assumes "(jobs_change (bolt_persister B))\<^sup>*\<^sup>* q q'" "bolt_ok B" "bolt_writes B" "jobs_inv q" "jobs_synced B q"
  shows "jobs_inv q' \<and> jobs_synced B q'"
  using assms
proof (induction rule: rtranclp_induct)
  case (step y z)
  have "(jobs_micro (bolt_persister B) True)\<^sup>*\<^sup>* y z" using change_micro step(2) by blast
  then have "jobs_inv y \<and> jobs_synced B y \<longrightarrow> jobs_inv z \<and> jobs_synced B z"
    by (induction rule: rtranclp_induct) (auto intro: micro_synced [OF _ assms(2,3)] micro_inv)
  with step show ?case by blast
qed simp

lemma new_inv: "jobs_inv (jobs_NewQueueWithStore s)" "jobs_inv jobs_NewQueue"
  by (simp_all add: jobs_inv_def jobs_NewQueueWithStore_def jobs_NewQueue_def)

lemma new_synced:
  "has_bucket B db tenants_path \<Longrightarrow> \<forall>t i. tenant_view B db t (jobKeyPrefix @ i) = None \<Longrightarrow>
     jobs_synced B (jobs_NewQueueWithStore db)"
  by (simp add: jobs_synced_def jobs_NewQueueWithStore_def synced_new)

subsection \<open>Loading\<close>

interpretation job_codec: record_codec j_ID j_Tenant "\<lambda>j. Doc (marshal_job j)" unmarshal_job norm_job
  "\<lambda>j. is_i64 (j_Priority j) \<and> is_i64 (j_TTLSeconds j)"
  by unfold_locales (simp_all add: unmarshal_marshal_job)

lemma load_jobs_eq:
  "load_jobs js q = q\<lparr>q_jobs := load_records j_ID js (q_jobs q),
     q_counter := load_counter (\<lambda>j. jobs_parseJobNum (j_ID j)) js (q_counter q)\<rparr>"
  by (induction js arbitrary: q) (simp_all add: load_records_def load_counter_def Let_def)

lemma load_synced:
  assumes "bolt_ok B" "view_error B db = None" "jobs_inv q" "jobs_synced B q" "q_store q = Some db"
  shows "\<exists>n q'. jobs_LoadFromStore (bolt_persister B) (jobs_NewQueueWithStore db) t = (Inr n, q') \<and>
    q_jobs q' = tenant_records j_Tenant norm_job (q_jobs q) t \<and>
    (\<forall>i \<in> dom (q_jobs q'). jobs_parseJobNum i \<le> q_counter q')"
proof -
  obtain kvs js where "pScan (bolt_persister B) db t jobKeyPrefix = Inr kvs"
    "js = List.map_filter (\<lambda>kv. unmarshal_job (snd kv)) kvs"
    and js: "load_records j_ID js Map.empty = tenant_records j_Tenant norm_job (q_jobs q) t"
    "j_ID ` set js = dom (tenant_records j_Tenant norm_job (q_jobs q) t)"
    using job_codec.load_scan [OF assms(1,2) assms(4) [unfolded jobs_synced_def assms(5)], of t] assms(3)
    unfolding jobs_inv_def by blast
  then have "jobs_LoadFromStore (bolt_persister B) (jobs_NewQueueWithStore db) t =
      (Inr (length js), load_jobs js (jobs_NewQueueWithStore db))"
    by (simp add: jobs_LoadFromStore_def jobs_NewQueueWithStore_def Let_def)
  moreover have "jobs_parseJobNum i \<le> load_counter (\<lambda>j. jobs_parseJobNum (j_ID j)) js 0" if "i \<in> j_ID ` set js" for i
    using that load_counter_bound [of 0 "\<lambda>j. jobs_parseJobNum (j_ID j)" js] by blast
  ultimately show ?thesis using js by (simp add: load_jobs_eq jobs_NewQueueWithStore_def)
qed


section \<open>Properties\<close>

text \<open>Concrete jobs for the witnesses below.\<close>

definition ex_job :: "string \<Rightarrow> int \<Rightarrow> instant \<Rightarrow> job" where
  "ex_job i pr created = \<lparr>j_ID = i, j_Tenant = ''acme'', j_AgentID = [], j_Capability = ''gpu'',
     j_Payload = None, j_Priority = pr, j_TTLSeconds = 0, j_Status = StatusPending, j_Result = [],
     j_Error = [], j_CreatedAt = created, j_UpdatedAt = created, j_ExpiresAt = Some (created + 50)\<rparr>"

definition ex_queue :: "memdb queue" where
  "ex_queue = \<lparr>q_jobs = [''job-1'' \<mapsto> ex_job ''job-1'' 0 10, ''job-2'' \<mapsto> ex_job ''job-2'' 5 20],
     q_counter = 2, q_store = None\<rparr>"

lemma ex_order: "iter_order (q_jobs ex_queue) [''job-1'', ''job-2'']"
  by (auto simp: ex_queue_def iter_order_def)

lemma ex_queue_inv: "jobs_inv ex_queue"
  by (auto simp: jobs_inv_def ex_queue_def ex_job_def is_i64_def jobs_parseJobNum_def parse_num_def
      scan_uint64_def is_digit_def is_space_def less_eq_char_def digits_val_def digit_val_def
      split: if_splits)

text \<open>C5. A worker that asks for work of a tenant gets a pending job of that tenant which it may
  run, of the highest priority among these and the oldest within that priority; the job is marked
  running and assigned to the worker and nothing else in the queue changes. It gets no job only
  when the queue holds none it may run.\<close>

theorem claim_for_tenant_best:
  assumes "iter_order (q_jobs q) ks"
    and "jobs_ClaimForTenant P q tenant agentID capability ks now = (r, q')"
  shows "case r of
      None \<Rightarrow> q' = q \<and> (\<forall>k j. q_jobs q k = Some j \<longrightarrow> \<not> claim_tenant_match tenant agentID capability j)
    | Some j' \<Rightarrow> \<exists>k j. q_jobs q k = Some j \<and> j_Status j = StatusPending \<and> j_Tenant j = tenant \<and>
        claim_tenant_match tenant agentID capability j \<and> j' = claimed agentID now j \<and>
        q_jobs q' = (q_jobs q)(k \<mapsto> j') \<and> q_counter q' = q_counter q \<and>
        (\<forall>k2 j2. q_jobs q k2 = Some j2 \<and> claim_tenant_match tenant agentID capability j2 \<longrightarrow>
           j_Priority j2 < j_Priority j \<or>
           j_Priority j2 = j_Priority j \<and> j_CreatedAt j \<le> j_CreatedAt j2)"
  using assms(1) assms(2) [unfolded jobs_ClaimForTenant_def]
proof (cases rule: claim_cases)
  case (some k j)
  have best: "\<forall>k2 j2. q_jobs q k2 = Some j2 \<and> claim_tenant_match tenant agentID capability j2 \<longrightarrow>
      j_Priority j2 < j_Priority j \<or> j_Priority j2 = j_Priority j \<and> j_CreatedAt j \<le> j_CreatedAt j2"
    using some(5) by (fastforce simp: job_better_def)
  have pending: "j_Status j = StatusPending" "j_Tenant j = tenant"
    using some(2) by (simp_all add: claim_tenant_match_def)
  show ?thesis unfolding some(3) option.case
    by (intro exI [of _ k] exI [of _ j] conjI best) (simp_all add: some(1,2,4) pending)
qed simp

theorem claim_for_tenant_best_witness:
  "\<exists>j. fst (jobs_ClaimForTenant (bolt_persister membolt) ex_queue ''acme'' ''a1'' ''gpu''
     [''job-1'', ''job-2''] 30) = Some j \<and> j_ID j = ''job-2'' \<and> j_AgentID j = ''a1''"
proof -
  obtain r q' where r: "jobs_ClaimForTenant (bolt_persister membolt) ex_queue ''acme'' ''a1'' ''gpu''
     [''job-1'', ''job-2''] 30 = (r, q')" by fastforce
  from claim_for_tenant_best [OF ex_order r] r show ?thesis
    by (simp add: jobs_ClaimForTenant_def ex_queue_def entries_def ex_job_def claim_tenant_match_def
        job_better_def claimed_def split: option.splits)
qed





text \<open>The expiry sweep fails exactly the pending jobs whose deadline has passed, whatever
  order the map is visited in, leaves every other job as it was, and returns how many it failed.\<close>

theorem expire_stale_exact:
  assumes "iter_order (q_jobs q) ks"
  shows "q_jobs (snd (jobs_ExpireStale P q ks now)) =
      (\<lambda>k. map_option (\<lambda>j. if j_Status j = StatusPending \<and> expired now (j_ExpiresAt j)
         then j\<lparr>j_Status := StatusFailed, j_Error := ''ttl expired'', j_UpdatedAt := now\<rparr> else j) (q_jobs q k)) \<and>
    fst (jobs_ExpireStale P q ks now) =
      card {k. \<exists>j. q_jobs q k = Some j \<and> j_Status j = StatusPending \<and> expired now (j_ExpiresAt j)}"
proof -
  have ks: "distinct ks" "set ks = dom (q_jobs q)" using assms by (auto simp: iter_order_def)
  have "q_jobs (snd (jobs_ExpireStale P q ks now)) k =
      map_option (\<lambda>j. if stale now j then expire_job now j else j) (q_jobs q k)" for k
    using ks(2) by (cases "q_jobs q k") (auto simp: ExpireStale_jobs [OF ks(1)] stale_at_def)
  moreover have "{k. \<exists>j. q_jobs q k = Some j \<and> stale now j} = set (filter (stale_at now (q_jobs q)) ks)"
    using ks(2) by (auto simp: stale_at_def)
  then have "card {k. \<exists>j. q_jobs q k = Some j \<and> stale now j} = fst (jobs_ExpireStale P q ks now)"
    using ks(1) by (simp add: ExpireStale_count distinct_card del: set_filter)
  ultimately show ?thesis unfolding stale_def expire_job_def by (simp add: fun_eq_iff)
qed

theorem expire_stale_exact_witness:
  "fst (jobs_ExpireStale (bolt_persister membolt) ex_queue [''job-1'', ''job-2''] 65) = 1"
proof -
  have "{k. \<exists>j. q_jobs ex_queue k = Some j \<and> j_Status j = StatusPending \<and> expired 65 (j_ExpiresAt j)} = {''job-1''}"
    by (auto simp: ex_queue_def ex_job_def split: if_splits)
  with expire_stale_exact [OF ex_order, of "bolt_persister membolt" 65] show ?thesis by simp
qed

text \<open>A listing of a tenant's jobs has every job of that tenant once (all jobs for the empty
  tenant) and no other, newest first: the in-place sorting loop is correct on every input.\<close>

theorem list_newest_first:
  assumes "iter_order (q_jobs q) ks" "jobs_inv q"
  shows "sorted_wrt (\<lambda>a b. j_CreatedAt b \<le> j_CreatedAt a) (jobs_List q tenant ks) \<and>
    distinct (jobs_List q tenant ks) \<and>
    (\<forall>j. j \<in> set (jobs_List q tenant ks) \<longleftrightarrow> q_jobs q (j_ID j) = Some j \<and> (tenant = [] \<or> j_Tenant j = tenant))"
proof -
  let ?xs = "filter (\<lambda>j. tenant = [] \<or> j_Tenant j = tenant) (range_vals (q_jobs q) ks)"
  have s: "newest_first (jobs_List q tenant ks)" "mset (jobs_List q tenant ks) = mset ?xs"
    using sort_from_1 by (simp_all add: jobs_List_def)
  have id: "q_jobs q k = Some j \<Longrightarrow> j_ID j = k" for k j using assms(2) by (simp add: jobs_inv_def)
  have "distinct (map (\<lambda>k. the (q_jobs q k)) ks)"
    using assms(1) id unfolding distinct_map iter_order_def
    by (intro conjI inj_onI) (auto simp: dom_def set_eq_iff, metis option.sel)
  then have "distinct ?xs" by (simp add: range_vals_order [OF assms(1)])
  then have "distinct (jobs_List q tenant ks)" using s(2) by (metis mset_eq_imp_distinct_iff)
  moreover have "set (jobs_List q tenant ks) = set ?xs" using s(2) by (metis set_mset_mset)
  then have "\<forall>j. j \<in> set (jobs_List q tenant ks) \<longleftrightarrow> q_jobs q (j_ID j) = Some j \<and> (tenant = [] \<or> j_Tenant j = tenant)"
    using id by (auto simp: set_range_vals [OF assms(1)] ran_def)
  ultimately show ?thesis using s(1) by blast
qed

theorem list_newest_first_witness:
  "map j_ID (jobs_List ex_queue ''acme'' [''job-1'', ''job-2'']) = [''job-2'', ''job-1''] \<and>
   distinct (jobs_List ex_queue ''acme'' [''job-1'', ''job-2''])"
proof
  show "map j_ID (jobs_List ex_queue ''acme'' [''job-1'', ''job-2'']) = [''job-2'', ''job-1'']"
    by (simp add: jobs_List_def range_vals_def ex_queue_def ex_job_def sort_from.simps sift_back.simps)
  have "jobs_inv ex_queue" by (rule ex_queue_inv)
  from list_newest_first [OF ex_order this]
  show "distinct (jobs_List ex_queue ''acme'' [''job-1'', ''job-2''])" by blast
qed

end
