(* ===== verification/Agents.thy ===== *)
theory Agents
  imports GoPrelude
begin

text \<open>
  The agent registry of \<^verbatim>\<open>pkg/agent/agent.go\<close>: agents under the key
  tenant/id, each with an optional deadline after which it counts as absent. Expired agents are
  removed by whichever operation meets them.
\<close>

section \<open>Data\<close>

abbreviation StatusHealthy :: string where "StatusHealthy \<equiv> ''healthy''"
abbreviation StatusDegraded :: string where "StatusDegraded \<equiv> ''degraded''"
abbreviation StatusUnknown :: string where "StatusUnknown \<equiv> ''unknown''"

record agent =
  a_ID :: string
  a_TenantID :: string
  a_Addr :: string
  a_Status :: string
  a_Tags :: "string \<rightharpoonup> string"
  a_Capabilities :: "string list"
  a_RegisteredAt :: instant
  a_LastSeen :: instant
  a_ExpiresAt :: "instant option"

record register_request =
  r_ID :: string
  r_TenantID :: string
  r_Addr :: string
  r_Status :: string
  r_Tags :: "(string \<rightharpoonup> string) option"
  r_Capabilities :: "string list option"
  r_TTLSeconds :: int

record update_request =
  u_Status :: string
  u_Tags :: "(string \<rightharpoonup> string) option"
  u_Capabilities :: "string list option"
  u_Addr :: string

type_synonym registry = "string \<rightharpoonup> agent"

definition agentKey :: "string \<Rightarrow> string \<Rightarrow> string" where
  "agentKey tenantID i = tenantID @ ''/'' @ i"

definition agent_dead :: "instant \<Rightarrow> agent \<Rightarrow> bool" where
  "agent_dead now a \<longleftrightarrow> expired now (a_ExpiresAt a)"

section \<open>Operations\<close>

definition agents_Register :: "registry \<Rightarrow> register_request \<Rightarrow> instant \<Rightarrow> string option \<times> registry" where
  "agents_Register r req now =
     (if r_ID req = [] then (Some ''agent ID is required'', r)
      else if r_TenantID req = [] then (Some ''tenant ID is required'', r)
      else
        let key = agentKey (r_TenantID req) (r_ID req)
        in (None, r(key \<mapsto> \<lparr>a_ID = r_ID req, a_TenantID = r_TenantID req, a_Addr = r_Addr req,
              a_Status = (if r_Status req = [] then StatusUnknown else r_Status req),
              a_Tags = (case r_Tags req of None \<Rightarrow> Map.empty | Some ts \<Rightarrow> ts),
              a_Capabilities = (case r_Capabilities req of None \<Rightarrow> [] | Some cs \<Rightarrow> cs),
              a_RegisteredAt = (case r key of Some e \<Rightarrow> a_RegisteredAt e | None \<Rightarrow> now),
              a_LastSeen = now,
              a_ExpiresAt = (if r_TTLSeconds req > 0 then Some (now + seconds (r_TTLSeconds req)) else None)\<rparr>)))"

text \<open>The opening of \<open>Heartbeat\<close>, \<open>UpdateStatus\<close>, \<open>Update\<close> and
  \<open>Get\<close>: an expired agent is deleted and then treated as not found.\<close>

definition agents_live :: "registry \<Rightarrow> string \<Rightarrow> instant \<Rightarrow> agent option \<times> registry" where
  "agents_live r key now =
     (case r key of None \<Rightarrow> (None, r)
      | Some a \<Rightarrow> if agent_dead now a then (None, r(key := None)) else (Some a, r))"

definition agents_Heartbeat :: "registry \<Rightarrow> string \<Rightarrow> string \<Rightarrow> int \<Rightarrow> instant \<Rightarrow> string option \<times> registry" where
  "agents_Heartbeat r tenantID i ttlSeconds now =
     (let key = agentKey tenantID i in
      case agents_live r key now of
        (None, r') \<Rightarrow> (Some ''agent not found'', r')
      | (Some a, r') \<Rightarrow> (None, r'(key \<mapsto> a\<lparr>a_LastSeen := now,
          a_ExpiresAt := (if ttlSeconds > 0 then Some (now + seconds ttlSeconds) else a_ExpiresAt a)\<rparr>)))"

definition agents_UpdateStatus :: "registry \<Rightarrow> string \<Rightarrow> string \<Rightarrow> string \<Rightarrow> instant \<Rightarrow> string option \<times> registry" where
  "agents_UpdateStatus r tenantID i status now =
     (let key = agentKey tenantID i in
      case agents_live r key now of
        (None, r') \<Rightarrow> (Some ''agent not found'', r')
      | (Some a, r') \<Rightarrow> (None, r'(key \<mapsto> a\<lparr>a_Status := status, a_LastSeen := now\<rparr>)))"

definition agents_IsValidStatus :: "string \<Rightarrow> bool" where
  "agents_IsValidStatus s \<longleftrightarrow> s = StatusHealthy \<or> s = StatusDegraded \<or> s = StatusUnknown"

definition agents_Update :: "registry \<Rightarrow> string \<Rightarrow> string \<Rightarrow> update_request \<Rightarrow> instant \<Rightarrow> string option \<times> registry" where
  "agents_Update r tenantID i req now =
     (let key = agentKey tenantID i in
      case agents_live r key now of
        (None, r') \<Rightarrow> (Some ''agent not found'', r')
      | (Some a, r') \<Rightarrow> (None, r'(key \<mapsto> a\<lparr>
          a_Status := (if u_Status req \<noteq> [] then u_Status req else a_Status a),
          a_Addr := (if u_Addr req \<noteq> [] then u_Addr req else a_Addr a),
          a_Tags := (case u_Tags req of None \<Rightarrow> a_Tags a | Some ts \<Rightarrow> ts),
          a_Capabilities := (case u_Capabilities req of None \<Rightarrow> a_Capabilities a | Some cs \<Rightarrow> cs),
          a_LastSeen := now\<rparr>)))"

definition agents_Deregister :: "registry \<Rightarrow> string \<Rightarrow> string \<Rightarrow> string option \<times> registry" where
  "agents_Deregister r tenantID i =
     (let key = agentKey tenantID i in
      if r key = None then (Some ''agent not found'', r) else (None, r(key := None)))"

definition agents_Get :: "registry \<Rightarrow> string \<Rightarrow> string \<Rightarrow> instant \<Rightarrow> agent option \<times> registry" where
  "agents_Get r tenantID i now = agents_live r (agentKey tenantID i) now"

fun list_loop :: "string \<Rightarrow> instant \<Rightarrow> string list \<Rightarrow> registry \<Rightarrow> agent list \<Rightarrow> agent list \<times> registry" where
  "list_loop tenantID now [] r out = (out, r)"
| "list_loop tenantID now (k # ks) r out =
     (case r k of None \<Rightarrow> list_loop tenantID now ks r out
      | Some a \<Rightarrow>
          if agent_dead now a then list_loop tenantID now ks (r(k := None)) out
          else if tenantID \<noteq> [] \<and> a_TenantID a \<noteq> tenantID then list_loop tenantID now ks r out
          else list_loop tenantID now ks r (out @ [a]))"

definition agents_List :: "registry \<Rightarrow> string \<Rightarrow> string list \<Rightarrow> instant \<Rightarrow> agent list \<times> registry" where
  "agents_List r tenantID ks now =
     (case list_loop tenantID now ks r [] of (out, r') \<Rightarrow> (sort_key a_RegisteredAt out, r'))"

definition agents_ListByCapability ::
    "registry \<Rightarrow> string \<Rightarrow> string \<Rightarrow> string list \<Rightarrow> instant \<Rightarrow> agent list \<times> registry" where
  "agents_ListByCapability r tenantID capability ks now =
     (case agents_List r tenantID ks now of (alls, r') \<Rightarrow>
        (if capability = [] then alls else filter (\<lambda>a. capability \<in> set (a_Capabilities a)) alls, r'))"

text \<open>A selector is the list of its entries; looking up a missing tag yields the empty string.\<close>

definition tag_lookup :: "(string \<rightharpoonup> string) \<Rightarrow> string \<Rightarrow> string" where
  "tag_lookup ts k = (case ts k of None \<Rightarrow> [] | Some v \<Rightarrow> v)"

definition agents_ListBySelector ::
    "registry \<Rightarrow> string \<Rightarrow> (string \<times> string) list \<Rightarrow> string list \<Rightarrow> instant \<Rightarrow> agent list \<times> registry" where
  "agents_ListBySelector r tenantID selector ks now =
     (case agents_List r tenantID ks now of (alls, r') \<Rightarrow>
        (if selector = [] then alls
         else filter (\<lambda>a. list_all (\<lambda>(k, v). tag_lookup (a_Tags a) k = v) selector) alls, r'))"

definition agents_Prune :: "registry \<Rightarrow> string list \<Rightarrow> instant \<Rightarrow> nat \<times> registry" where
  "agents_Prune r ks now = (case prune_map (agent_dead now) r ks of (r', n) \<Rightarrow> (n, r'))"

definition agents_CountByTenant :: "registry \<Rightarrow> string \<Rightarrow> string list \<Rightarrow> instant \<Rightarrow> nat" where
  "agents_CountByTenant r tenantID ks now =
     length (filter (\<lambda>k. prefix (tenantID @ ''/'') k \<and> (case r k of None \<Rightarrow> False | Some a \<Rightarrow> \<not> agent_dead now a)) ks)"

definition status_score :: "string \<Rightarrow> nat" where
  "status_score s = (if s = StatusHealthy then 2 else if s = StatusDegraded then 1 else 0)"

definition agent_better :: "agent \<Rightarrow> agent \<Rightarrow> bool" where
  "agent_better a best \<longleftrightarrow> status_score (a_Status a) > status_score (a_Status best) \<or>
     (status_score (a_Status a) = status_score (a_Status best) \<and> a_LastSeen a > a_LastSeen best)"

definition agents_FindBest :: "registry \<Rightarrow> string \<Rightarrow> string \<Rightarrow> string list \<Rightarrow> instant \<Rightarrow> agent option \<times> registry" where
  "agents_FindBest r tenantID capability ks now =
     (case agents_ListByCapability r tenantID capability ks now of (candidates, r') \<Rightarrow>
        (case candidates of [] \<Rightarrow> None
         | c # cs \<Rightarrow> select_best (\<lambda>_. True) agent_better (Some c) cs, r'))"

definition agents_Count :: "registry \<Rightarrow> string list \<Rightarrow> instant \<Rightarrow> nat" where
  "agents_Count r ks now = length (filter (\<lambda>k. case r k of None \<Rightarrow> False | Some a \<Rightarrow> \<not> agent_dead now a) ks)"

section \<open>Lemmas\<close>

interpretation agent_pref: strict_pref agent_better
  by unfold_locales (auto simp: agent_better_def)

text \<open>The invariant: an agent is filed under its own key.\<close>

definition agents_inv :: "registry \<Rightarrow> bool" where
  "agents_inv r \<longleftrightarrow> (\<forall>k a. r k = Some a \<longrightarrow> k = agentKey (a_TenantID a) (a_ID a))"

definition no_slash :: "string \<Rightarrow> bool" where
  "no_slash t \<longleftrightarrow> CHR ''/'' \<notin> set t"

lemma key_prefix:
  "no_slash t \<Longrightarrow> no_slash t' \<Longrightarrow> prefix (t @ ''/'') (agentKey t' i) \<longleftrightarrow> t = t'"
proof (induction t arbitrary: t')
  case Nil
  then show ?case by (cases t') (auto simp: agentKey_def no_slash_def)
next
  case (Cons c t)
  then show ?case by (cases t') (auto simp: agentKey_def no_slash_def)
qed

lemma agentKey_inject: "no_slash t \<Longrightarrow> no_slash t' \<Longrightarrow> agentKey t i = agentKey t' i' \<longleftrightarrow> t = t' \<and> i = i'"
proof
  assume ns: "no_slash t" "no_slash t'" and eq: "agentKey t i = agentKey t' i'"
  have "prefix (t @ ''/'') (agentKey t i)" by (simp add: agentKey_def)
  with ns eq have "t = t'" by (simp add: key_prefix)
  with eq show "t = t' \<and> i = i'" by (simp add: agentKey_def)
qed simp

lemma live_cases:
  obtains (absent) "agents_live r key now = (None, r)" "r key = None"
  | (dead) a where "agents_live r key now = (None, r(key := None))" "r key = Some a" "agent_dead now a"
  | (live) a where "agents_live r key now = (Some a, r)" "r key = Some a" "\<not> agent_dead now a"
  by (cases "r key") (auto simp: agents_live_def split: if_splits)

lemma list_loop_spec:
  "distinct ks \<Longrightarrow> list_loop tenantID now ks r out =
     (out @ filter (\<lambda>a. \<not> agent_dead now a \<and> (tenantID = [] \<or> a_TenantID a = tenantID)) (range_vals r ks),
      (\<lambda>k. if k \<in> set ks \<and> (\<exists>a. r k = Some a \<and> agent_dead now a) then None else r k))"
proof (induction ks arbitrary: r out)
  case Nil
  then show ?case by (simp add: range_vals_def)
next
  case (Cons k ks)
  have upd: "range_vals (r(k := None)) ks = range_vals r ks"
    using Cons.prems by (auto simp: range_vals_def intro!: map_cong filter_cong)
  show ?case
  proof (cases "r k")
    case None
    with Cons show ?thesis by (auto simp: range_vals_def fun_eq_iff)
  next
    case (Some a)
    with Cons upd show ?thesis
      by (cases "agent_dead now a") (auto simp: range_vals_def fun_eq_iff)
  qed
qed

lemma agents_List_spec:
  assumes "iter_order r ks" "agents_List r tenantID ks now = (out, r')"
  shows "set out = {a. a \<in> ran r \<and> \<not> agent_dead now a \<and> (tenantID = [] \<or> a_TenantID a = tenantID)}"
    and "sorted (map a_RegisteredAt out)"
    and "r' = (\<lambda>k. case r k of None \<Rightarrow> None | Some a \<Rightarrow> if agent_dead now a then None else Some a)"
proof -
  have ks: "distinct ks" "set ks = dom r" using assms(1) by (auto simp: iter_order_def)
  note l = list_loop_spec [OF ks(1), of tenantID now r "[]"]
  show "set out = {a. a \<in> ran r \<and> \<not> agent_dead now a \<and> (tenantID = [] \<or> a_TenantID a = tenantID)}"
    using assms(2) by (auto simp: agents_List_def l set_range_vals [OF assms(1)])
  show "sorted (map a_RegisteredAt out)" using assms(2) by (auto simp: agents_List_def l)
  have "r' = (\<lambda>k. if k \<in> set ks \<and> (\<exists>a. r k = Some a \<and> agent_dead now a) then None else r k)"
    using assms(2) by (simp add: agents_List_def l)
  then show "r' = (\<lambda>k. case r k of None \<Rightarrow> None | Some a \<Rightarrow> if agent_dead now a then None else Some a)"
    using ks(2) by (auto simp: fun_eq_iff split: option.splits)
qed

lemma ListByCapability_spec:
  assumes "iter_order r ks" "agents_ListByCapability r tenantID capability ks now = (out, r')"
  shows "set out = {a. a \<in> ran r \<and> \<not> agent_dead now a \<and> (tenantID = [] \<or> a_TenantID a = tenantID) \<and>
      (capability = [] \<or> capability \<in> set (a_Capabilities a))}"
proof -
  obtain alls r1 where l: "agents_List r tenantID ks now = (alls, r1)" by fastforce
  then have "out = (if capability = [] then alls else filter (\<lambda>a. capability \<in> set (a_Capabilities a)) alls)"
    using assms(2) by (simp add: agents_ListByCapability_def)
  then show ?thesis using agents_List_spec(1) [OF assms(1) l] by (simp add: set_eq_iff)
qed

text \<open>What a lookup sees, and how the operations on one key and the sweeps change it.\<close>

definition visible :: "registry \<Rightarrow> string \<Rightarrow> instant \<Rightarrow> agent option" where
  "visible r key now = (case r key of None \<Rightarrow> None | Some a \<Rightarrow> if agent_dead now a then None else Some a)"

lemma Get_visible: "fst (agents_Get r t i now) = visible r (agentKey t i) now"
  by (cases rule: live_cases [of r "agentKey t i" now]) (simp_all add: agents_Get_def visible_def)

lemma visible_sweep:
  "visible (\<lambda>k. case r k of None \<Rightarrow> None | Some a \<Rightarrow> if agent_dead now a then None else Some a) key now =
     visible r key now"
  by (simp add: visible_def split: option.splits)

lemma visible_other: "key \<noteq> k \<Longrightarrow> visible (r(k := x)) key now = visible r key now"
  by (simp add: visible_def)

lemma live_other: "key \<noteq> k \<Longrightarrow> snd (agents_live r k now) key = r key"
  by (cases rule: live_cases [of r k now]) simp_all

text \<open>
  The operations issued on behalf of a tenant at one instant, and the sweeps over the whole map.
\<close>

inductive agents_op :: "string \<Rightarrow> instant \<Rightarrow> registry \<Rightarrow> registry \<Rightarrow> bool" for t now where
  register: "r_TenantID req = t \<Longrightarrow> agents_op t now r (snd (agents_Register r req now))"
| heartbeat: "agents_op t now r (snd (agents_Heartbeat r t i ttl now))"
| status: "agents_op t now r (snd (agents_UpdateStatus r t i st now))"
| update: "agents_op t now r (snd (agents_Update r t i u now))"
| deregister: "agents_op t now r (snd (agents_Deregister r t i))"
| get: "agents_op t now r (snd (agents_Get r t i now))"
| list: "iter_order r ks \<Longrightarrow> agents_op t now r (snd (agents_List r t ks now))"
| prune: "iter_order r ks \<Longrightarrow> agents_op t now r (snd (agents_Prune r ks now))"

lemma op_key_only:
  assumes "agents_op t now r r'"
  shows "(\<exists>i. \<forall>key. key \<noteq> agentKey t i \<longrightarrow> r' key = r key) \<or>
    r' = (\<lambda>k. case r k of None \<Rightarrow> None | Some a \<Rightarrow> if agent_dead now a then None else Some a)"
  using assms
proof (induction rule: agents_op.induct)
  case (register req r)
  then show ?case by (intro disjI1 exI [of _ "r_ID req"]) (simp add: agents_Register_def Let_def)
next
  case (heartbeat r i ttl)
  show ?case by (intro disjI1 exI [of _ i])
    (cases rule: live_cases [of r "agentKey t i" now]; simp add: agents_Heartbeat_def Let_def)
next
  case (status r i st)
  show ?case by (intro disjI1 exI [of _ i])
    (cases rule: live_cases [of r "agentKey t i" now]; simp add: agents_UpdateStatus_def Let_def)
next
  case (update r i u)
  show ?case by (intro disjI1 exI [of _ i])
    (cases rule: live_cases [of r "agentKey t i" now]; simp add: agents_Update_def Let_def)
next
  case (deregister r i)
  show ?case by (intro disjI1 exI [of _ i]) (simp add: agents_Deregister_def Let_def)
next
  case (get r i)
  show ?case by (intro disjI1 exI [of _ i]) (simp add: agents_Get_def live_other)
next
  case (list r ks)
  obtain out r1 where l: "agents_List r t ks now = (out, r1)" by fastforce
  with agents_List_spec(3) [OF list l] show ?case by simp
next
  case (prune r ks)
  then show ?case by (simp add: agents_Prune_def case_prod_beta prune_map_spec(1))
qed

section \<open>Properties\<close>

definition ex_agent :: "string \<Rightarrow> string \<Rightarrow> string \<Rightarrow> instant \<Rightarrow> agent" where
  "ex_agent t i st seen = \<lparr>a_ID = i, a_TenantID = t, a_Addr = [], a_Status = st, a_Tags = Map.empty,
     a_Capabilities = [''gpu''], a_RegisteredAt = 1, a_LastSeen = seen, a_ExpiresAt = Some 100\<rparr>"

definition ex_registry :: registry where
  "ex_registry = [''acme/a'' \<mapsto> ex_agent ''acme'' ''a'' StatusDegraded 9,
     ''acme/b'' \<mapsto> ex_agent ''acme'' ''b'' StatusHealthy 5, ''beta/a'' \<mapsto> ex_agent ''beta'' ''a'' StatusHealthy 8]"

lemma ex_registry_order: "iter_order ex_registry [''acme/a'', ''acme/b'', ''beta/a'']"
  by (auto simp: ex_registry_def iter_order_def)



text \<open>Discovery returns the best live agent: it belongs to the tenant, offers the capability
  and has not expired, no other such agent has a better status, and among agents of its status
  none was seen more recently. It finds none only when there is none.\<close>

theorem find_best_agent:
  assumes "iter_order r ks" "agents_FindBest r t c ks now = (res, r')"
  shows "let ok = (\<lambda>a. a \<in> ran r \<and> \<not> expired now (a_ExpiresAt a) \<and> (t = [] \<or> a_TenantID a = t) \<and>
           (c = [] \<or> c \<in> set (a_Capabilities a)))
    in case res of None \<Rightarrow> \<not> (\<exists>a. ok a)
       | Some b \<Rightarrow> ok b \<and> (\<forall>a. ok a \<longrightarrow> status_score (a_Status a) < status_score (a_Status b) \<or>
           status_score (a_Status a) = status_score (a_Status b) \<and> a_LastSeen a \<le> a_LastSeen b)"
proof -
  obtain cs r1 where l: "agents_ListByCapability r t c ks now = (cs, r1)" by fastforce
  note mem = ListByCapability_spec [OF assms(1) l, unfolded agent_dead_def]
  have res: "res = select_best (\<lambda>_. True) agent_better None cs"
    using assms(2) l by (cases cs) (auto simp: agents_FindBest_def)
  show ?thesis
  proof (cases res)
    case None
    then have "cs = []" using res by (cases cs) (auto simp: select_best_Some)
    with None mem show ?thesis by auto
  next
    case (Some b)
    note best = agent_pref.select_best_correct [OF res [symmetric, unfolded Some]]
    have "\<forall>a \<in> set cs. status_score (a_Status a) < status_score (a_Status b) \<or>
        status_score (a_Status a) = status_score (a_Status b) \<and> a_LastSeen a \<le> a_LastSeen b"
      using best(3) by (auto simp: agent_better_def) (meson linorder_less_linear not_le)+
    with best(1) Some show ?thesis unfolding mem by (simp add: Let_def)
  qed
qed

theorem find_best_agent_witness:
  "\<exists>r'. agents_FindBest ex_registry ''acme'' ''gpu'' [''acme/a'', ''acme/b'', ''beta/a''] 50 =
     (Some (ex_agent ''acme'' ''b'' StatusHealthy 5), r') \<and>
   status_score StatusDegraded < status_score StatusHealthy"
proof -
  obtain res r' where f: "agents_FindBest ex_registry ''acme'' ''gpu''
    [''acme/a'', ''acme/b'', ''beta/a''] 50 = (res, r')" by fastforce
  from find_best_agent [OF ex_registry_order f] f show ?thesis
    by (auto simp: agents_FindBest_def agents_ListByCapability_def agents_List_def agent_dead_def
        ex_registry_def ex_agent_def agent_better_def status_score_def)
qed

text \<open>A heartbeat is accepted exactly while the agent is visible. Once accepted with a
  positive time to live the agent is visible until that deadline and not after; without one its
  deadline is unchanged. A rejected heartbeat leaves the agent absent for good.\<close>

theorem heartbeat_lease:
  assumes "agents_Heartbeat r t i ttl now = (err, r')"
  shows "(err = None \<longleftrightarrow> fst (agents_Get r t i now) \<noteq> None) \<and>
    (err = None \<longrightarrow> (\<forall>later. fst (agents_Get r' t i later) \<noteq> None \<longleftrightarrow>
       (if ttl > 0 then later \<le> now + seconds ttl else fst (agents_Get r t i later) \<noteq> None))) \<and>
    (err \<noteq> None \<longrightarrow> (\<forall>later. fst (agents_Get r' t i later) = None))"
  unfolding Get_visible using assms
  by (cases rule: live_cases [of r "agentKey t i" now])
    (auto simp: agents_Heartbeat_def Let_def visible_def agent_dead_def split: if_splits)

theorem heartbeat_lease_witness:
  "\<exists>r'. agents_Heartbeat ex_registry ''acme'' ''a'' 60 90 = (None, r') \<and>
     fst (agents_Get r' ''acme'' ''a'' 60000000090) \<noteq> None \<and> fst (agents_Get r' ''acme'' ''a'' 60000000091) = None"
proof -
  obtain err r' where h: "agents_Heartbeat ex_registry ''acme'' ''a'' 60 90 = (err, r')" by fastforce
  have "fst (agents_Get ex_registry ''acme'' ''a'' 90) \<noteq> None"
    by (simp add: agents_Get_def agents_live_def ex_registry_def agentKey_def agent_dead_def ex_agent_def)
  with heartbeat_lease [OF h] have "err = None"
    and "fst (agents_Get r' ''acme'' ''a'' s) \<noteq> None \<longleftrightarrow> s \<le> 60000000090" for s
    by (simp_all add: seconds_def i64_def)
  from h this(1) this(2) [of 60000000090] this(2) [of 60000000091] show ?thesis by simp
qed

end
