(* ===== verification/Circuit.thy ===== *)
theory Circuit
  imports GoPrelude
begin

text \<open>
  The per-agent circuit breakers of \<^verbatim>\<open>pkg/circuit/circuit.go\<close>. Every operation of
  the manager first looks the breaker up, creating it when missing, and then changes it under the
  breaker's own lock; both together are one step here.
\<close>

section \<open>Data\<close>

datatype cb_state = StateClosed | StateOpen | StateHalfOpen

record breaker =
  b_AgentID :: string
  b_State :: cb_state
  b_Failures :: int
  b_Successes :: int
  b_Threshold :: int
  b_ResetTimeout :: duration
  b_OpenedAt :: "instant option"
  b_LastFailure :: "instant option"

record cb_manager =
  cm_breakers :: "string \<rightharpoonup> breaker"
  cm_threshold :: int
  cm_resetTimeout :: duration

definition circuit_New :: "int \<Rightarrow> duration \<Rightarrow> cb_manager" where
  "circuit_New threshold resetTimeout = \<lparr>cm_breakers = Map.empty,
     cm_threshold = (if threshold \<le> 0 then 5 else threshold),
     cm_resetTimeout = (if resetTimeout \<le> 0 then 30 * second_ns else resetTimeout)\<rparr>"

section \<open>Operations\<close>

definition circuit_getOrCreate :: "cb_manager \<Rightarrow> string \<Rightarrow> breaker \<times> cb_manager" where
  "circuit_getOrCreate m agentID =
     (case cm_breakers m agentID of Some b \<Rightarrow> (b, m)
      | None \<Rightarrow>
          let b = \<lparr>b_AgentID = agentID, b_State = StateClosed, b_Failures = 0, b_Successes = 0,
                   b_Threshold = cm_threshold m, b_ResetTimeout = cm_resetTimeout m,
                   b_OpenedAt = None, b_LastFailure = None\<rparr>
          in (b, m\<lparr>cm_breakers := (cm_breakers m)(agentID \<mapsto> b)\<rparr>))"

definition set_breaker :: "cb_manager \<Rightarrow> string \<Rightarrow> breaker \<Rightarrow> cb_manager" where
  "set_breaker m agentID b = m\<lparr>cm_breakers := (cm_breakers m)(agentID \<mapsto> b)\<rparr>"

definition circuit_RecordSuccess :: "cb_manager \<Rightarrow> string \<Rightarrow> cb_manager" where
  "circuit_RecordSuccess m agentID =
     (case circuit_getOrCreate m agentID of (b, m') \<Rightarrow>
        let b1 = b\<lparr>b_Successes := i64 (b_Successes b + 1), b_Failures := 0\<rparr>
        in set_breaker m' agentID
             (if b_State b1 = StateHalfOpen then b1\<lparr>b_State := StateClosed, b_OpenedAt := None\<rparr> else b1))"

definition circuit_RecordFailure :: "cb_manager \<Rightarrow> string \<Rightarrow> instant \<Rightarrow> cb_state \<times> cb_manager" where
  "circuit_RecordFailure m agentID now =
     (case circuit_getOrCreate m agentID of (b, m') \<Rightarrow>
        let b1 = b\<lparr>b_Failures := i64 (b_Failures b + 1), b_LastFailure := Some now\<rparr>;
            b2 = (if b_State b1 = StateClosed \<and> b_Failures b1 \<ge> b_Threshold b1
                  then b1\<lparr>b_State := StateOpen, b_OpenedAt := Some now\<rparr>
                  else if b_State b1 = StateHalfOpen
                  then b1\<lparr>b_State := StateOpen, b_OpenedAt := Some now\<rparr> else b1)
        in (b_State b2, set_breaker m' agentID b2))"

definition circuit_Allow :: "cb_manager \<Rightarrow> string \<Rightarrow> instant \<Rightarrow> bool \<times> cb_manager" where
  "circuit_Allow m agentID now =
     (case circuit_getOrCreate m agentID of (b, m') \<Rightarrow>
        (case b_State b of
           StateClosed \<Rightarrow> (True, m')
         | StateOpen \<Rightarrow>
             (case b_OpenedAt b of
                Some t \<Rightarrow> if time_sub now t \<ge> b_ResetTimeout b
                  then (True, set_breaker m' agentID (b\<lparr>b_State := StateHalfOpen\<rparr>))
                  else (False, m')
              | None \<Rightarrow> (False, m'))
         | StateHalfOpen \<Rightarrow> (True, m')))"

definition circuit_Reset :: "cb_manager \<Rightarrow> string \<Rightarrow> cb_manager" where
  "circuit_Reset m agentID =
     (case circuit_getOrCreate m agentID of (b, m') \<Rightarrow>
        set_breaker m' agentID (b\<lparr>b_State := StateClosed, b_Failures := 0, b_OpenedAt := None\<rparr>))"

text \<open>The snapshot leaves out the reset timeout.\<close>

definition circuit_Get :: "cb_manager \<Rightarrow> string \<Rightarrow> breaker \<times> cb_manager" where
  "circuit_Get m agentID =
     (case circuit_getOrCreate m agentID of (b, m') \<Rightarrow> (b\<lparr>b_ResetTimeout := 0\<rparr>, m'))"

fun circuit_List :: "cb_manager \<Rightarrow> string list \<Rightarrow> breaker list \<times> cb_manager" where
  "circuit_List m [] = ([], m)"
| "circuit_List m (i # ids) =
     (case circuit_Get m i of (b, m1) \<Rightarrow> (case circuit_List m1 ids of (bs, m2) \<Rightarrow> (b # bs, m2)))"

definition circuit_Delete :: "cb_manager \<Rightarrow> string \<Rightarrow> cb_manager" where
  "circuit_Delete m agentID = m\<lparr>cm_breakers := (cm_breakers m)(agentID := None)\<rparr>"

section \<open>Runs\<close>

text \<open>What callers report and ask about one agent, in the order of the breaker's lock.\<close>

datatype cb_event = Succeeded | Failed instant | Asked instant

fun circuit_event :: "string \<Rightarrow> cb_event \<Rightarrow> cb_manager \<Rightarrow> cb_manager" where
  "circuit_event i Succeeded m = circuit_RecordSuccess m i"
| "circuit_event i (Failed now) m = snd (circuit_RecordFailure m i now)"
| "circuit_event i (Asked now) m = snd (circuit_Allow m i now)"

definition circuit_run :: "string \<Rightarrow> cb_event list \<Rightarrow> cb_manager \<Rightarrow> cb_manager" where
  "circuit_run i es m = fold (circuit_event i) es m"

abbreviation breaker_of :: "cb_manager \<Rightarrow> string \<Rightarrow> breaker" where
  "breaker_of m i \<equiv> fst (circuit_getOrCreate m i)"

lemma breaker_of_set [simp]: "breaker_of (set_breaker m i b) i = b"
  by (simp add: circuit_getOrCreate_def set_breaker_def)

lemma snd_getOrCreate [simp]:
  "set_breaker (snd (circuit_getOrCreate m i)) i b = set_breaker m i b"
  "breaker_of (snd (circuit_getOrCreate m i)) i = breaker_of m i"
  by (simp_all add: circuit_getOrCreate_def set_breaker_def Let_def split: option.split)

lemma success_breaker: "breaker_of (circuit_RecordSuccess m i) i =
    (let b = breaker_of m i; b1 = b\<lparr>b_Successes := i64 (b_Successes b + 1), b_Failures := 0\<rparr>
     in if b_State b = StateHalfOpen then b1\<lparr>b_State := StateClosed, b_OpenedAt := None\<rparr> else b1)"
  by (simp add: circuit_RecordSuccess_def case_prod_beta Let_def)

lemma failure_breaker: "breaker_of (snd (circuit_RecordFailure m i now)) i =
    (let b = breaker_of m i; b1 = b\<lparr>b_Failures := i64 (b_Failures b + 1), b_LastFailure := Some now\<rparr>
     in if b_State b = StateClosed \<and> i64 (b_Failures b + 1) \<ge> b_Threshold b \<or> b_State b = StateHalfOpen
        then b1\<lparr>b_State := StateOpen, b_OpenedAt := Some now\<rparr> else b1)"
  by (simp add: circuit_RecordFailure_def case_prod_beta Let_def)

lemma allow_breaker: "breaker_of (snd (circuit_Allow m i now)) i =
    (let b = breaker_of m i in
     if b_State b = StateOpen \<and> (\<exists>t. b_OpenedAt b = Some t \<and> b_ResetTimeout b \<le> time_sub now t)
     then b\<lparr>b_State := StateHalfOpen\<rparr> else b)"
  by (auto simp: circuit_Allow_def case_prod_beta Let_def split: cb_state.splits option.splits)

lemma allow_result: "fst (circuit_Allow m i now) \<longleftrightarrow>
    (let b = breaker_of m i in b_State b = StateOpen \<longrightarrow>
       (\<exists>t. b_OpenedAt b = Some t \<and> b_ResetTimeout b \<le> time_sub now t))"
  by (auto simp: circuit_Allow_def case_prod_beta Let_def split: cb_state.splits option.splits)

lemmas event_breaker = success_breaker failure_breaker allow_breaker

lemma event_config:
  "b_Threshold (breaker_of (circuit_event i e m) i) = b_Threshold (breaker_of m i)"
  "b_ResetTimeout (breaker_of (circuit_event i e m) i) = b_ResetTimeout (breaker_of m i)"
  by (cases e; simp add: event_breaker Let_def)+

text \<open>The breaker invariant: below the threshold while closed, and a time of opening while open.\<close>

definition breaker_inv :: "breaker \<Rightarrow> bool" where
  "breaker_inv b \<longleftrightarrow> 0 < b_Threshold b \<and> b_Threshold b < 2 ^ 63 \<and>
     (b_State b = StateClosed \<longrightarrow> 0 \<le> b_Failures b \<and> b_Failures b < b_Threshold b) \<and>
     (b_State b = StateOpen \<longrightarrow> b_OpenedAt b \<noteq> None)"

lemma i64_succ: "0 \<le> x \<Longrightarrow> x < 2 ^ 63 - 1 \<Longrightarrow> i64 (x + 1) = x + 1"
  by (rule i64_id) (simp add: is_i64_def)

lemma event_inv: "breaker_inv (breaker_of m i) \<Longrightarrow> breaker_inv (breaker_of (circuit_event i e m) i)"
proof (cases e)
  case (Failed now)
  assume inv: "breaker_inv (breaker_of m i)"
  then have "b_State (breaker_of m i) = StateClosed \<Longrightarrow>
      i64 (b_Failures (breaker_of m i) + 1) = b_Failures (breaker_of m i) + 1"
    by (intro i64_succ) (auto simp: breaker_inv_def)
  with inv Failed show ?thesis by (auto simp: breaker_inv_def event_breaker Let_def)
qed (auto simp: breaker_inv_def event_breaker Let_def)

lemma run_inv: "breaker_inv (breaker_of m i) \<Longrightarrow> breaker_inv (breaker_of (circuit_run i es m) i)"
  unfolding circuit_run_def by (induction es arbitrary: m) (simp_all add: event_inv)

lemma new_breaker:
  "is_i64 threshold \<Longrightarrow> breaker_inv (breaker_of (circuit_New threshold timeout) i)"
  by (auto simp: breaker_inv_def circuit_New_def circuit_getOrCreate_def Let_def is_i64_def)

section \<open>Runs of failures\<close>

text \<open>\<open>streak\<close> and \<open>tripped\<close> read a history with the latest event first.\<close>

fun streak :: "cb_event list \<Rightarrow> nat" where
  "streak [] = 0"
| "streak (Failed t # es) = streak es + 1"
| "streak (_ # es) = 0"

fun tripped :: "nat \<Rightarrow> cb_event list \<Rightarrow> bool" where
  "tripped n [] = False"
| "tripped n (e # es) = (streak (e # es) \<ge> n \<or> tripped n es)"

lemma trip_aux:
  assumes "breaker_inv b0" "b_State b0 = StateClosed" "b_Failures b0 = 0" "b0 = breaker_of m i"
    and "\<forall>e \<in> set es. \<forall>t. e \<noteq> Asked t" "int (length es) < 2 ^ 63 - 1"
  shows "let b = breaker_of (fold (circuit_event i) (rev es) m) i; n = nat (b_Threshold b0) in
    b_Threshold b = b_Threshold b0 \<and>
    (if tripped n es then b_State b = StateOpen
     else b_State b = StateClosed \<and> b_Failures b = int (streak es))"
  using assms(5,6)
proof (induction es)
  case Nil
  then show ?case using assms by simp
next
  case (Cons e es)
  let ?m = "fold (circuit_event i) (rev es) m"
  let ?b = "breaker_of ?m i" and ?n = "nat (b_Threshold b0)"
  have pos: "0 < b_Threshold b0" using assms(1) by (simp add: breaker_inv_def)
  have IH: "b_Threshold ?b = b_Threshold b0" "tripped ?n es \<Longrightarrow> b_State ?b = StateOpen"
    "\<not> tripped ?n es \<Longrightarrow> b_State ?b = StateClosed \<and> b_Failures ?b = int (streak es)"
    using Cons by (simp_all add: Let_def)
  have step: "breaker_of (fold (circuit_event i) (rev (e # es)) m) i = breaker_of (circuit_event i e ?m) i"
    by simp
  show ?case
  proof (cases e)
    case Succeeded
    with IH pos show ?thesis unfolding step by (simp add: success_breaker Let_def)
  next
    case (Failed t)
    have "streak es \<le> length es" by (induction es rule: streak.induct) auto
    with Cons.prems have "i64 (int (streak es) + 1) = int (streak es) + 1"
      by (intro i64_succ) auto
    with Failed IH pos show ?thesis unfolding step
      by (cases "tripped ?n es") (simp_all add: failure_breaker Let_def nat_le_iff)
  next
    case (Asked t)
    with Cons.prems show ?thesis by simp
  qed
qed

definition is_failure :: "cb_event \<Rightarrow> bool" where
  "is_failure e \<longleftrightarrow> (\<exists>t. e = Failed t)"

lemma streak_ge: "n \<le> streak es \<longleftrightarrow> (\<exists>fs post. es = fs @ post \<and> length fs = n \<and> list_all is_failure fs)"
proof (induction n arbitrary: es)
  case (Suc n)
  show ?case
  proof (cases es)
    case (Cons e es')
    show ?thesis
    proof (cases "is_failure e")
      case True
      with Cons have "Suc n \<le> streak es \<longleftrightarrow> n \<le> streak es'" by (auto simp: is_failure_def)
      moreover have "(\<exists>fs post. e # es' = fs @ post \<and> length fs = Suc n \<and> list_all is_failure fs) \<longleftrightarrow>
          (\<exists>fs post. es' = fs @ post \<and> length fs = n \<and> list_all is_failure fs)" (is "?L \<longleftrightarrow> ?R")
      proof
        assume ?L
        then obtain f fs post where "e # es' = (f # fs) @ post" "length fs = n" "list_all is_failure fs"
          by (auto simp: length_Suc_conv)
        then show ?R by (intro exI [of _ fs] exI [of _ post]) simp
      next
        assume ?R
        then obtain fs post where "es' = fs @ post" "length fs = n" "list_all is_failure fs" by blast
        with True show ?L by (intro exI [of _ "e # fs"] exI [of _ post]) simp
      qed
      ultimately show ?thesis using Suc Cons by simp
    next
      case False
      with Cons have "streak es = 0" by (cases e) (auto simp: is_failure_def)
      with Cons False show ?thesis by (auto simp: length_Suc_conv)
    qed
  qed simp
qed simp

lemma tripped_iff:
  "0 < n \<Longrightarrow> tripped n es \<longleftrightarrow> (\<exists>pre fs post. es = pre @ fs @ post \<and> length fs = n \<and> list_all is_failure fs)"
proof (induction es)
  case (Cons e es)
  then have "tripped n (e # es) \<longleftrightarrow> (\<exists>fs post. e # es = fs @ post \<and> length fs = n \<and> list_all is_failure fs) \<or>
      (\<exists>pre fs post. es = pre @ fs @ post \<and> length fs = n \<and> list_all is_failure fs)"
    unfolding tripped.simps streak_ge by blast
  also have "\<dots> \<longleftrightarrow> (\<exists>pre fs post. e # es = pre @ fs @ post \<and> length fs = n \<and> list_all is_failure fs)"
    (is "?A \<or> ?B \<longleftrightarrow> ?C")
  proof
    assume "?A \<or> ?B"
    then show ?C by (metis append_Cons append_Nil)
  next
    assume ?C
    then obtain pre fs post where c: "e # es = pre @ fs @ post" "length fs = n" "list_all is_failure fs" by blast
    then show "?A \<or> ?B" by (cases pre) auto
  qed
  finally show ?case .
qed simp

lemma rev_split:
  "(\<exists>pre fs post. rev es = pre @ fs @ post \<and> length fs = n \<and> list_all Q fs) \<longleftrightarrow>
   (\<exists>pre fs post. es = pre @ fs @ post \<and> length fs = n \<and> list_all Q fs)" (is "?L \<longleftrightarrow> ?R")
proof
  assume ?L
  then obtain pre fs post where "rev es = pre @ fs @ post" "length fs = n" "list_all Q fs" by blast
  then have "es = rev post @ rev fs @ rev pre" "length (rev fs) = n" "list_all Q (rev fs)"
    by (simp_all add: rev_swap)
  then show ?R by blast
next
  assume ?R
  then obtain pre fs post where "es = pre @ fs @ post" "length fs = n" "list_all Q fs" by blast
  then have "rev es = rev post @ rev fs @ rev pre" "length (rev fs) = n" "list_all Q (rev fs)" by simp_all
  then show ?L by blast
qed

text \<open>Until the reset timeout has passed since the opening, an open breaker stays as it is.\<close>

definition before :: "instant \<Rightarrow> cb_event \<Rightarrow> bool" where
  "before limit e \<longleftrightarrow> (case e of Asked t \<Rightarrow> t < limit | _ \<Rightarrow> True)"

lemma open_stays:
  assumes "b_State (breaker_of m i) = StateOpen" "b_OpenedAt (breaker_of m i) = Some t0"
    and "b_ResetTimeout (breaker_of m i) = d" "is_i64 d" "0 < d" "list_all (before (t0 + d)) es"
  shows "b_State (breaker_of (circuit_run i es m) i) = StateOpen \<and>
    b_OpenedAt (breaker_of (circuit_run i es m) i) = Some t0 \<and>
    b_ResetTimeout (breaker_of (circuit_run i es m) i) = d"
  using assms
proof (induction es arbitrary: m)
  case (Cons e es)
  let ?m = "circuit_event i e m"
  have "b_State (breaker_of ?m i) = StateOpen \<and> b_OpenedAt (breaker_of ?m i) = Some t0"
    using Cons.prems by (cases e) (auto simp: event_breaker Let_def before_def time_sub_ge)
  moreover have "b_ResetTimeout (breaker_of ?m i) = d" using Cons.prems(3) by (simp add: event_config)
  ultimately show ?case using Cons.IH [of ?m] Cons.prems by (simp add: circuit_run_def)
qed (simp add: circuit_run_def)

section \<open>Properties\<close>



text \<open>An open circuit rejects every request until the reset timeout has passed since it
  opened, whatever outcomes are reported in between, and admits the first request after that.\<close>

theorem open_rejects_until_timeout:
  assumes "b_State (breaker_of m i) = StateOpen" "b_OpenedAt (breaker_of m i) = Some opened"
    and "is_i64 (b_ResetTimeout (breaker_of m i))" "0 < b_ResetTimeout (breaker_of m i)"
    and "list_all (before (opened + b_ResetTimeout (breaker_of m i))) es"
  shows "fst (circuit_Allow (circuit_run i es m) i now) \<longleftrightarrow> opened + b_ResetTimeout (breaker_of m i) \<le> now"
  using open_stays [OF assms(1,2) refl assms(3-5)] assms(3,4)
  by (auto simp: allow_result Let_def time_sub_ge)

theorem open_rejects_until_timeout_witness:
  "\<not> fst (circuit_Allow (circuit_run ''a'' [Asked 8, Succeeded] (circuit_run ''a'' [Failed 5] (circuit_New 1 10))) ''a'' 14) \<and>
   fst (circuit_Allow (circuit_run ''a'' [Asked 8, Succeeded] (circuit_run ''a'' [Failed 5] (circuit_New 1 10))) ''a'' 15)"
proof -
  let ?m = "circuit_run ''a'' [Failed 5] (circuit_New 1 10)"
  have "breaker_of ?m ''a'' = \<lparr>b_AgentID = ''a'', b_State = StateOpen, b_Failures = 1, b_Successes = 0,
      b_Threshold = 1, b_ResetTimeout = 10, b_OpenedAt = Some 5, b_LastFailure = Some 5\<rparr>"
    by (simp add: circuit_run_def circuit_RecordFailure_def circuit_New_def circuit_getOrCreate_def
        set_breaker_def Let_def i64_def)
  with open_rejects_until_timeout [of ?m "''a''" 5 "[Asked 8, Succeeded]"] show ?thesis
    by (simp add: is_i64_def before_def)
qed

text \<open>In the half-open state the breaker admits any number of requests: asking never changes
  it, so no count of requests is limited to a single probe.\<close>

theorem half_open_admits_all:
  assumes "b_State (breaker_of m i) = StateHalfOpen" "\<forall>e \<in> set es. \<exists>t. e = Asked t"
  shows "fst (circuit_Allow (circuit_run i es m) i now)"
proof -
  have "b_State (breaker_of (circuit_run i es m) i) = StateHalfOpen" using assms
  proof (induction es arbitrary: m)
    case (Cons e es)
    then obtain t where "e = Asked t" by auto
    with Cons.prems have "b_State (breaker_of (circuit_event i e m) i) = StateHalfOpen"
      by (simp add: allow_breaker Let_def)
    with Cons show ?case by (simp add: circuit_run_def)
  qed (simp add: circuit_run_def)
  then show ?thesis by (simp add: allow_result Let_def)
qed

theorem half_open_admits_all_witness:
  "let m = circuit_run ''a'' [Failed 5, Asked 20] (circuit_New 1 10)
   in fst (circuit_Allow (circuit_run ''a'' [Asked 21, Asked 22] m) ''a'' 23)"
proof -
  let ?m = "circuit_run ''a'' [Failed 5, Asked 20] (circuit_New 1 10)"
  have "b_State (breaker_of ?m ''a'') = StateHalfOpen"
    by (simp add: circuit_run_def circuit_RecordFailure_def circuit_Allow_def circuit_New_def
        circuit_getOrCreate_def set_breaker_def Let_def i64_def time_sub_def)
  from half_open_admits_all [OF this, of "[Asked 21, Asked 22]" 23] show ?thesis by (simp add: Let_def)
qed

end
