(* ===== verification/AgentGroup.thy ===== *)
theory AgentGroup
  imports MemBolt
begin

text \<open>
  Agent groups with weighted round-robin selection, \<^verbatim>\<open>pkg/agentgroup/agentgroup.go\<close>.
  A group's position is a uint64 counter that wraps around; weights are summed in an int that
  wraps around. The filter passed to \<open>Next\<close> may have a state of its own (the caller
  passes the circuit breaker's \<^verbatim>\<open>Allow\<close>), which the model threads through.
\<close>

section \<open>Data\<close>

record group_member =
  gm_AgentID :: string
  gm_Weight :: int

record agent_group =
  g_ID :: string
  g_Tenant :: string
  g_Name :: string
  g_Members :: "group_member list"
  g_CreatedAt :: instant

record 's group_manager =
  gs_groups :: "string \<rightharpoonup> agent_group"
  gs_counter :: uint64
  gs_rrIndex :: "string \<rightharpoonup> uint64"
  gs_store :: "'s option"

definition groupKeyPrefix :: string where
  "groupKeyPrefix = ''grp_''"

definition normalizeWeight :: "int \<Rightarrow> string + int" where
  "normalizeWeight weight = (if weight \<le> 0 then Inl ''weight must be greater than zero'' else Inr weight)"

definition memberWeight :: "int \<Rightarrow> int" where
  "memberWeight weight = (if weight \<le> 0 then 1 else weight)"

definition groups_New :: "'s group_manager" where
  "groups_New = \<lparr>gs_groups = Map.empty, gs_counter = 0, gs_rrIndex = Map.empty, gs_store = None\<rparr>"

definition groups_NewWithStore :: "'s \<Rightarrow> 's group_manager" where
  "groups_NewWithStore p = \<lparr>gs_groups = Map.empty, gs_counter = 0, gs_rrIndex = Map.empty, gs_store = Some p\<rparr>"

definition marshal_member :: "group_member \<Rightarrow> json" where
  "marshal_member x = JObj [(''agent_id'', JStr (gm_AgentID x)), (''weight'', JInt (gm_Weight x))]"

definition marshal_group :: "agent_group \<Rightarrow> json" where
  "marshal_group g = JObj [(''id'', JStr (g_ID g)), (''tenant'', JStr (g_Tenant g)), (''name'', JStr (g_Name g)),
     (''members'', JArr (map marshal_member (g_Members g))), (''created_at'', JTime (g_CreatedAt g))]"

fun unmarshal_member :: "json \<Rightarrow> group_member option" where
  "unmarshal_member (JObj fs) =
     (case (as_str (field fs ''agent_id''), as_int (field fs ''weight'')) of
        (Some a, Some w) \<Rightarrow> Some \<lparr>gm_AgentID = a, gm_Weight = w\<rparr> | _ \<Rightarrow> None)"
| "unmarshal_member JNull = Some \<lparr>gm_AgentID = [], gm_Weight = 0\<rparr>"
| "unmarshal_member _ = None"

fun as_members :: "json \<Rightarrow> group_member list option" where
  "as_members JNull = Some []"
| "as_members (JArr xs) = sequence_opt (map unmarshal_member xs)"
| "as_members _ = None"

definition group_of_fields :: "(string \<times> json) list \<Rightarrow> agent_group option" where
  "group_of_fields fs =
     (case (as_str (field fs ''id''), as_str (field fs ''tenant''), as_str (field fs ''name''),
            as_members (field fs ''members''), as_time (field fs ''created_at''))
      of (Some i, Some t, Some n, Some ms, Some c) \<Rightarrow>
        Some \<lparr>g_ID = i, g_Tenant = t, g_Name = n, g_Members = ms, g_CreatedAt = c\<rparr>
      | _ \<Rightarrow> None)"

fun unmarshal_group :: "blob \<Rightarrow> agent_group option" where
  "unmarshal_group (Doc (JObj fs)) = group_of_fields fs"
| "unmarshal_group (Doc JNull) = group_of_fields []"
| "unmarshal_group _ = None"

section \<open>Operations\<close>

definition parseGroupNum :: "string \<Rightarrow> uint64" where
  "parseGroupNum i = parse_num ''grp-'' i"

definition groups_persist :: "'s persister \<Rightarrow> agent_group \<Rightarrow> 's option \<Rightarrow> 's option" where
  "groups_persist P g st = kv_write P st (g_Tenant g) (groupKeyPrefix @ g_ID g) (Doc (marshal_group g))"

definition groups_unpersist :: "'s persister \<Rightarrow> agent_group \<Rightarrow> 's option \<Rightarrow> 's option" where
  "groups_unpersist P g st = kv_remove P st (g_Tenant g) (groupKeyPrefix @ g_ID g)"

fun load_groups :: "agent_group list \<Rightarrow> 's group_manager \<Rightarrow> 's group_manager" where
  "load_groups [] m = m"
| "load_groups (g # gs) m = load_groups gs
     (m\<lparr>gs_counter := (let n = parseGroupNum (g_ID g) in if n > gs_counter m then n else gs_counter m),
        gs_groups := (gs_groups m)(g_ID g \<mapsto> g), gs_rrIndex := (gs_rrIndex m)(g_ID g \<mapsto> 0)\<rparr>)"

definition groups_LoadFromStore :: "'s persister \<Rightarrow> 's group_manager \<Rightarrow> string \<Rightarrow> (string + nat) \<times> 's group_manager" where
  "groups_LoadFromStore P m tenant =
     (case gs_store m of None \<Rightarrow> (Inr 0, m)
      | Some s \<Rightarrow>
        (case pScan P s tenant groupKeyPrefix of Inl e \<Rightarrow> (Inl e, m)
         | Inr kvs \<Rightarrow> let loaded = List.map_filter (\<lambda>kv. unmarshal_group (snd kv)) kvs
                     in (Inr (length loaded), load_groups loaded m)))"

definition put_group :: "'s persister \<Rightarrow> agent_group \<Rightarrow> 's group_manager \<Rightarrow> 's group_manager" where
  "put_group P g m = m\<lparr>gs_groups := (gs_groups m)(g_ID g \<mapsto> g), gs_store := groups_persist P g (gs_store m)\<rparr>"

definition groups_Create ::
    "'s persister \<Rightarrow> 's group_manager \<Rightarrow> string \<Rightarrow> string \<Rightarrow> instant \<Rightarrow> (string + agent_group) \<times> 's group_manager" where
  "groups_Create P m tenant name now =
     (if name = [] then (Inl ''name is required'', m)
      else
        let c = gs_counter m + 1;
            g = \<lparr>g_ID = numbered ''grp-'' c, g_Tenant = tenant, g_Name = name, g_Members = [], g_CreatedAt = now\<rparr>
        in (Inr g, put_group P g (m\<lparr>gs_counter := c, gs_rrIndex := (gs_rrIndex m)(g_ID g \<mapsto> 0)\<rparr>)))"

definition find_group :: "'s group_manager \<Rightarrow> string \<Rightarrow> string \<Rightarrow> agent_group option" where
  "find_group m tenant i =
     (case gs_groups m i of None \<Rightarrow> None | Some g \<Rightarrow> if g_Tenant g \<noteq> tenant then None else Some g)"

text \<open>Results of the three-valued kind (group, found, error) are \<open>Inl\<close> for an error and
  otherwise the group if it was found.\<close>

definition groups_Update ::
    "'s persister \<Rightarrow> 's group_manager \<Rightarrow> string \<Rightarrow> string \<Rightarrow> string option \<Rightarrow> (string + agent_group option) \<times> 's group_manager" where
  "groups_Update P m tenant i name =
     (case find_group m tenant i of None \<Rightarrow> (Inr None, m)
      | Some g \<Rightarrow>
          if name = Some [] then (Inl ''name is required'', m)
          else let g' = (case name of None \<Rightarrow> g | Some n \<Rightarrow> g\<lparr>g_Name := n\<rparr>)
               in (Inr (Some g'), put_group P g' m))"

definition groups_Delete :: "'s persister \<Rightarrow> 's group_manager \<Rightarrow> string \<Rightarrow> string \<Rightarrow> bool \<times> 's group_manager" where
  "groups_Delete P m tenant i =
     (case find_group m tenant i of None \<Rightarrow> (False, m)
      | Some g \<Rightarrow> (True, m\<lparr>gs_store := groups_unpersist P g (gs_store m),
          gs_groups := (gs_groups m)(i := None), gs_rrIndex := (gs_rrIndex m)(i := None)\<rparr>))"

definition groups_Get :: "'s group_manager \<Rightarrow> string \<Rightarrow> string \<Rightarrow> agent_group option" where
  "groups_Get m tenant i = find_group m tenant i"

definition groups_List :: "'s group_manager \<Rightarrow> string \<Rightarrow> string list \<Rightarrow> agent_group list" where
  "groups_List m tenant ks =
     sort_key g_Name (filter (\<lambda>g. tenant = [] \<or> g_Tenant g = tenant) (range_vals (gs_groups m) ks))"

definition groups_AddMemberWithWeight ::
    "'s persister \<Rightarrow> 's group_manager \<Rightarrow> string \<Rightarrow> string \<Rightarrow> string \<Rightarrow> int \<Rightarrow> string option \<times> 's group_manager" where
  "groups_AddMemberWithWeight P m tenant groupID agentID weight =
     (case normalizeWeight weight of Inl e \<Rightarrow> (Some e, m)
      | Inr w \<Rightarrow>
        (case find_group m tenant groupID of None \<Rightarrow> (Some (''group '' @ groupID @ '' not found''), m)
         | Some g \<Rightarrow>
             if list_ex (\<lambda>x. gm_AgentID x = agentID) (g_Members g) then (None, m)
             else (None, put_group P
               (g\<lparr>g_Members := g_Members g @ [\<lparr>gm_AgentID = agentID, gm_Weight = w\<rparr>]\<rparr>) m)))"

definition groups_AddMember ::
    "'s persister \<Rightarrow> 's group_manager \<Rightarrow> string \<Rightarrow> string \<Rightarrow> string \<Rightarrow> string option \<times> 's group_manager" where
  "groups_AddMember P m tenant groupID agentID = groups_AddMemberWithWeight P m tenant groupID agentID 1"

fun set_weight :: "string \<Rightarrow> int \<Rightarrow> group_member list \<Rightarrow> group_member list option" where
  "set_weight agentID w [] = None"
| "set_weight agentID w (x # xs) =
     (if gm_AgentID x = agentID then Some (x\<lparr>gm_Weight := w\<rparr> # xs)
      else map_option ((#) x) (set_weight agentID w xs))"

definition groups_UpdateMemberWeight ::
    "'s persister \<Rightarrow> 's group_manager \<Rightarrow> string \<Rightarrow> string \<Rightarrow> string \<Rightarrow> int \<Rightarrow> (string + agent_group option) \<times> 's group_manager" where
  "groups_UpdateMemberWeight P m tenant groupID agentID weight =
     (case normalizeWeight weight of Inl e \<Rightarrow> (Inl e, m)
      | Inr w \<Rightarrow>
        (case find_group m tenant groupID of None \<Rightarrow> (Inr None, m)
         | Some g \<Rightarrow>
            (case set_weight agentID w (g_Members g) of None \<Rightarrow> (Inr None, m)
             | Some ms \<Rightarrow> (Inr (Some (g\<lparr>g_Members := ms\<rparr>)), put_group P (g\<lparr>g_Members := ms\<rparr>) m))))"

definition groups_RemoveMember ::
    "'s persister \<Rightarrow> 's group_manager \<Rightarrow> string \<Rightarrow> string \<Rightarrow> string \<Rightarrow> string option \<times> 's group_manager" where
  "groups_RemoveMember P m tenant groupID agentID =
     (case find_group m tenant groupID of None \<Rightarrow> (Some (''group '' @ groupID @ '' not found''), m)
      | Some g \<Rightarrow>
          let filtered = filter (\<lambda>x. gm_AgentID x \<noteq> agentID) (g_Members g)
          in if \<not> list_ex (\<lambda>x. gm_AgentID x = agentID) (g_Members g) then (Some ''group member not found'', m)
             else (None, put_group P (g\<lparr>g_Members := filtered\<rparr>) m))"

subsection \<open>Weighted round robin\<close>

definition total_weight :: "group_member list \<Rightarrow> int" where
  "total_weight ms = foldl (\<lambda>s x. i64 (s + memberWeight (gm_Weight x))) 0 ms"

text \<open>The inner loop: the member whose cumulative weight first exceeds the slot.\<close>

fun slot_member :: "int \<Rightarrow> int \<Rightarrow> group_member list \<Rightarrow> string" where
  "slot_member slot cursor [] = []"
| "slot_member slot cursor (x # xs) =
     (let c = i64 (cursor + memberWeight (gm_Weight x))
      in if slot < c then gm_AgentID x else slot_member slot c xs)"

text \<open>The outer loop over \<open>i\<close> from 0 up to \<open>n\<close>; \<open>k\<close> iterations remain.\<close>

fun next_loop :: "('st \<Rightarrow> string \<Rightarrow> bool \<times> 'st) option \<Rightarrow> 'st \<Rightarrow> group_member list \<Rightarrow> uint64 \<Rightarrow> uint64 \<Rightarrow> uint64 \<Rightarrow> nat
    \<Rightarrow> string option \<times> 'st" where
  "next_loop allowFn st ms start n i 0 = (None, st)"
| "next_loop allowFn st ms start n i (Suc k) =
     (let candidate = slot_member (i64 (uint ((start + i) mod n))) 0 ms in
      if candidate = [] then next_loop allowFn st ms start n (i + 1) k
      else (case allowFn of None \<Rightarrow> (Some candidate, st)
            | Some f \<Rightarrow> (case f st candidate of (True, st') \<Rightarrow> (Some candidate, st')
                        | (False, st') \<Rightarrow> next_loop allowFn st' ms start n (i + 1) k)))"

definition groups_Next ::
    "'s group_manager \<Rightarrow> string \<Rightarrow> string \<Rightarrow> ('st \<Rightarrow> string \<Rightarrow> bool \<times> 'st) option \<Rightarrow> 'st
      \<Rightarrow> string option \<times> 'st \<times> 's group_manager" where
  "groups_Next m tenant groupID allowFn st =
     (case (find_group m tenant groupID, gs_rrIndex m groupID) of
        (Some g, Some idx) \<Rightarrow>
          if g_Members g = [] \<or> total_weight (g_Members g) = 0 then (None, st, m)
          else
            let n = word_of_int (total_weight (g_Members g));
                m' = m\<lparr>gs_rrIndex := (gs_rrIndex m)(groupID \<mapsto> idx + 1)\<rparr>
            in (case next_loop allowFn st (g_Members g) idx n 0 (unat n) of (r, st') \<Rightarrow> (r, st', m'))
      | _ \<Rightarrow> (None, st, m))"

section \<open>The slots of the members\<close>

text \<open>What round robin walks through: every member as often as its weight.\<close>

definition expand :: "group_member list \<Rightarrow> string list" where
  "expand ms = concat (map (\<lambda>x. replicate (nat (memberWeight (gm_Weight x))) (gm_AgentID x)) ms)"

definition weights_ok :: "group_member list \<Rightarrow> bool" where
  "weights_ok ms \<longleftrightarrow> int (length (expand ms)) < 2 ^ 63"

lemma memberWeight_pos: "0 < memberWeight w"
  by (simp add: memberWeight_def)

lemma expand_simps [simp]:
  "expand [] = []"
  "expand (x # xs) = replicate (nat (memberWeight (gm_Weight x))) (gm_AgentID x) @ expand xs"
  by (simp_all add: expand_def)

lemma total_weight_foldl:
  "0 \<le> s \<Longrightarrow> s + int (length (expand ms)) < 2 ^ 63 \<Longrightarrow>
     foldl (\<lambda>s x. i64 (s + memberWeight (gm_Weight x))) s ms = s + int (length (expand ms))"
proof (induction ms arbitrary: s)
  case (Cons x xs)
  have w: "0 < memberWeight (gm_Weight x)" by (rule memberWeight_pos)
  then have "i64 (s + memberWeight (gm_Weight x)) = s + memberWeight (gm_Weight x)"
    using Cons.prems by (intro i64_id) (simp add: is_i64_def)
  with Cons w show ?case by simp
qed simp

lemma total_weight_expand: "weights_ok ms \<Longrightarrow> total_weight ms = int (length (expand ms))"
  using total_weight_foldl [of 0 ms] by (simp add: total_weight_def weights_ok_def)

lemma slot_member_expand:
  "0 \<le> cursor \<Longrightarrow> cursor \<le> slot \<Longrightarrow> slot < cursor + int (length (expand ms)) \<Longrightarrow>
     cursor + int (length (expand ms)) < 2 ^ 63 \<Longrightarrow>
     slot_member slot cursor ms = expand ms ! nat (slot - cursor)"
proof (induction ms arbitrary: cursor)
  case (Cons x xs)
  let ?w = "memberWeight (gm_Weight x)"
  have w: "0 < ?w" by (rule memberWeight_pos)
  then have c: "i64 (cursor + ?w) = cursor + ?w"
    using Cons.prems by (intro i64_id) (simp add: is_i64_def)
  show ?case
  proof (cases "slot < cursor + ?w")
    case True
    with Cons.prems w c show ?thesis by (simp add: Let_def nth_append nat_less_iff)
  next
    case False
    with Cons.prems w Cons.IH [of "cursor + ?w"]
    have "slot_member slot (cursor + ?w) xs = expand xs ! nat (slot - (cursor + ?w))" by simp
    moreover have "nat (slot - cursor) - nat ?w = nat (slot - (cursor + ?w))" using w False by simp
    ultimately show ?thesis using False w c Cons.prems by (simp add: Let_def nth_append nat_less_iff)
  qed
qed simp

definition slot_at :: "group_member list \<Rightarrow> uint64 \<Rightarrow> string" where
  "slot_at ms pos = expand ms ! (unat pos mod length (expand ms))"

lemma unat_total: "weights_ok ms \<Longrightarrow> unat (word_of_int (total_weight ms) :: uint64) = length (expand ms)"
proof -
  assume ok: "weights_ok ms"
  then have "length (expand ms) < 2 ^ 64" by (simp add: weights_ok_def)
  then show ?thesis by (simp add: total_weight_expand [OF ok] unsigned_of_nat take_bit_nat_eq_self)
qed

lemma next_slot:
  assumes "weights_ok ms" "ms \<noteq> []"
  shows "slot_member (i64 (uint (pos mod word_of_int (total_weight ms)))) 0 ms = slot_at ms pos"
proof -
  let ?n = "length (expand ms)"
  have pos: "0 < ?n" using assms(2) memberWeight_pos by (cases ms) auto
  have u: "uint (pos mod word_of_int (total_weight ms)) = int (unat pos mod ?n)"
    using unat_total [OF assms(1)] by (simp add: uint_nat unat_mod)
  moreover have "int (unat pos mod ?n) < int ?n" using pos by simp
  moreover have "i64 (int (unat pos mod ?n)) = int (unat pos mod ?n)"
    using calculation(2) assms(1) by (intro i64_id) (simp add: is_i64_def weights_ok_def)
  ultimately show ?thesis
    using slot_member_expand [of 0 "int (unat pos mod ?n)" ms] assms(1)
    by (simp add: slot_at_def weights_ok_def)
qed


lemma slot_at_member:
  assumes "ms \<noteq> []"
  shows "slot_at ms pos \<in> gm_AgentID ` set ms"
proof -
  have "0 < length (expand ms)" using assms memberWeight_pos by (cases ms) auto
  then have "slot_at ms pos \<in> set (expand ms)" by (simp add: slot_at_def)
  then show ?thesis by (auto simp: expand_def)
qed

text \<open>The loop returns the first admitted member at or after the starting position.\<close>

lemma next_loop_pure:
  assumes "weights_ok ms" "ms \<noteq> []" "\<forall>x \<in> set ms. gm_AgentID x \<noteq> []"
  shows "fst (next_loop (Some (\<lambda>st a. (ok a, st))) st ms start (word_of_int (total_weight ms)) i k) =
    find ok (map (\<lambda>d. slot_at ms (start + i + of_nat d)) [0..<k])"
proof (induction k arbitrary: i)
  case (Suc k)
  have ne: "slot_at ms pos \<noteq> []" for pos using slot_at_member [OF assms(2), of pos] assms(3) by auto
  have "map (\<lambda>d. slot_at ms (start + i + of_nat d)) [0..<Suc k] =
      slot_at ms (start + i) # map (\<lambda>d. slot_at ms (start + (i + 1) + of_nat d)) [0..<k]"
    by (simp only: upt_conv_Cons [OF zero_less_Suc] map_Suc_upt [symmetric] list.map) (simp add: add.assoc)
  with Suc show ?case
    by (simp add: next_slot [OF assms(1,2)] ne Let_def del: upt_Suc)
qed simp

lemma next_loop_all:
  assumes "weights_ok ms" "ms \<noteq> []" "\<forall>x \<in> set ms. gm_AgentID x \<noteq> []" "0 < k"
  shows "next_loop None st ms start (word_of_int (total_weight ms)) i k = (Some (slot_at ms (start + i)), st)"
proof -
  have "slot_at ms pos \<noteq> []" for pos using slot_at_member [OF assms(2), of pos] assms(3) by auto
  with assms(4) show ?thesis by (cases k) (simp_all add: next_slot [OF assms(1,2)] Let_def)
qed

text \<open>A whole round visits every slot.\<close>

lemma round_slots:
  assumes "ms \<noteq> []" "unat start + length (expand ms) \<le> 2 ^ 64" "n = length (expand ms)"
  shows "map (\<lambda>d. slot_at ms (start + of_nat d)) [0..<n] = rotate (unat start) (expand ms)"
proof (rule nth_equalityI)
  fix d assume d: "d < length (map (\<lambda>d. slot_at ms (start + of_nat d)) [0..<n])"
  have "unat (start + of_nat d) = unat start + d"
  proof -
    have "unat (of_nat d :: uint64) = d" using d assms(2,3)
      by (simp add: unsigned_of_nat take_bit_nat_eq_self)
    moreover have "unat start + d < 2 ^ 64" using d assms(2,3) by simp
    ultimately show ?thesis by (simp add: unat_word_ariths)
  qed
  with d assms(3) show "map (\<lambda>d. slot_at ms (start + of_nat d)) [0..<n] ! d = rotate (unat start) (expand ms) ! d"
    by (simp add: slot_at_def nth_rotate add.commute)
qed (simp add: assms(3))

lemma count_expand:
  assumes "distinct (map gm_AgentID ms)" "x \<in> set ms"
  shows "count_list (expand ms) (gm_AgentID x) = nat (memberWeight (gm_Weight x))"
  using assms
proof (induction ms)
  case (Cons y ms)
  have absent: "count_list (expand zs) a = 0" if "a \<notin> gm_AgentID ` set zs" for zs a
    using that by (intro count_notin) (auto simp: expand_def)
  have rep: "count_list (replicate k a) b = (if a = b then k else 0)" for k and a b :: string
    by (induction k) auto
  show ?case
  proof (cases "x = y")
    case True
    with Cons absent show ?thesis by (simp add: rep)
  next
    case False
    with Cons have "gm_AgentID x \<noteq> gm_AgentID y" by (auto simp: image_iff)
    with False Cons show ?thesis by (simp add: rep)
  qed
qed simp

lemma count_list_rotate: "count_list (rotate n xs) a = count_list xs a"
  by (metis add.commute append_take_drop_id count_list_append rotate_drop_take)

section \<open>Sequences of selections\<close>

fun groups_take :: "nat \<Rightarrow> 's group_manager \<Rightarrow> string \<Rightarrow> string \<Rightarrow> string option list \<times> 's group_manager" where
  "groups_take 0 m tenant groupID = ([], m)"
| "groups_take (Suc k) m tenant groupID =
     (case groups_Next m tenant groupID (None :: (unit \<Rightarrow> string \<Rightarrow> bool \<times> unit) option) () of
        (r, _, m') \<Rightarrow> (case groups_take k m' tenant groupID of (rs, m'') \<Rightarrow> (r # rs, m'')))"

definition group_ready :: "'s group_manager \<Rightarrow> string \<Rightarrow> string \<Rightarrow> agent_group \<Rightarrow> uint64 \<Rightarrow> bool" where
  "group_ready m tenant groupID g idx \<longleftrightarrow> find_group m tenant groupID = Some g \<and>
     gs_rrIndex m groupID = Some idx \<and> g_Members g \<noteq> [] \<and> weights_ok (g_Members g) \<and>
     (\<forall>x \<in> set (g_Members g). gm_AgentID x \<noteq> [])"

lemma ready_total:
  assumes "group_ready m tenant groupID g idx"
  shows "total_weight (g_Members g) \<noteq> 0" "0 < length (expand (g_Members g))"
    "unat (word_of_int (total_weight (g_Members g)) :: uint64) = length (expand (g_Members g))"
proof -
  have ms: "g_Members g \<noteq> []" "weights_ok (g_Members g)" using assms by (simp_all add: group_ready_def)
  show n: "0 < length (expand (g_Members g))" using ms(1) memberWeight_pos by (cases "g_Members g") auto
  then show "total_weight (g_Members g) \<noteq> 0" using ms(2) by (simp add: total_weight_expand)
  show "unat (word_of_int (total_weight (g_Members g)) :: uint64) = length (expand (g_Members g))"
    using ms(2) by (rule unat_total)
qed

lemma Next_ready:
  assumes "group_ready m tenant groupID g idx"
  shows "groups_Next m tenant groupID None st =
    (Some (slot_at (g_Members g) idx), st, m\<lparr>gs_rrIndex := (gs_rrIndex m)(groupID \<mapsto> idx + 1)\<rparr>)"
  using assms ready_total [OF assms] next_loop_all [of "g_Members g" "length (expand (g_Members g))" st idx 0]
  by (simp add: groups_Next_def group_ready_def Let_def)

lemma take_ready:
  "group_ready m tenant groupID g idx \<Longrightarrow>
     fst (groups_take k m tenant groupID) = map (\<lambda>d. Some (slot_at (g_Members g) (idx + of_nat d))) [0..<k]"
proof (induction k arbitrary: m idx)
  case (Suc k)
  let ?m = "m\<lparr>gs_rrIndex := (gs_rrIndex m)(groupID \<mapsto> idx + 1)\<rparr>"
  have "group_ready ?m tenant groupID g (idx + 1)" using Suc.prems by (simp add: group_ready_def find_group_def)
  from Suc.IH [OF this] show ?case
    by (simp add: Next_ready [OF Suc.prems] case_prod_beta upt_conv_Cons map_Suc_upt [symmetric] add.assoc del: upt_Suc)
qed simp


lemma Next_filter:
  assumes "group_ready m tenant groupID g idx"
  shows "fst (groups_Next m tenant groupID (Some (\<lambda>st a. (ok a, st))) st) =
    find ok (map (\<lambda>d. slot_at (g_Members g) (idx + of_nat d)) [0..<length (expand (g_Members g))])"
  using assms ready_total [OF assms] next_loop_pure [of "g_Members g" ok st idx 0]
  by (simp add: groups_Next_def group_ready_def Let_def case_prod_beta)

lemma set_expand: "set (expand ms) = gm_AgentID ` set ms"
proof (induction ms)
  case (Cons x ms)
  have "nat (memberWeight (gm_Weight x)) \<noteq> 0" using memberWeight_pos [of "gm_Weight x"] by simp
  with Cons show ?case by (simp add: set_replicate_conv_if)
qed simp

section \<open>The groups and their store\<close>

interpretation group_ids: id_scheme "numbered ''grp-''" parseGroupNum
  by unfold_locales (simp add: parseGroupNum_def parse_num_numbered)

definition groups_inv :: "'s group_manager \<Rightarrow> bool" where
  "groups_inv m \<longleftrightarrow>
     (\<forall>k g. gs_groups m k = Some g \<longrightarrow> g_ID g = k \<and> (\<forall>x \<in> set (g_Members g). is_i64 (gm_Weight x))) \<and>
     (\<forall>k \<in> dom (gs_groups m). parseGroupNum k \<le> gs_counter m)"

abbreviation groups_synced :: "'db bolt \<Rightarrow> 'db group_manager \<Rightarrow> bool" where
  "groups_synced B m \<equiv> synced B groupKeyPrefix g_Tenant (\<lambda>g. Doc (marshal_group g)) (gs_store m) (gs_groups m)"

lemma members_roundtrip:
  "\<forall>x \<in> set ms. is_i64 (gm_Weight x) \<Longrightarrow> sequence_opt (map (unmarshal_member \<circ> marshal_member) ms) = Some ms"
  by (subst sequence_opt_map [where h = "\<lambda>x. x"]) (simp_all add: marshal_member_def json_field)

lemma unmarshal_marshal_group:
  "\<forall>x \<in> set (g_Members g). is_i64 (gm_Weight x) \<Longrightarrow> unmarshal_group (Doc (marshal_group g)) = Some g"
  by (simp add: marshal_group_def group_of_fields_def json_field members_roundtrip)

interpretation group_codec: record_codec g_ID g_Tenant "\<lambda>g. Doc (marshal_group g)" unmarshal_group "\<lambda>g. g"
  "\<lambda>g. \<forall>x \<in> set (g_Members g). is_i64 (gm_Weight x)"
  by unfold_locales (simp_all add: unmarshal_marshal_group)

text \<open>The operations that change groups. Creation stops short of the counter wrapping around.\<close>

inductive groups_change :: "'s persister \<Rightarrow> 's group_manager \<Rightarrow> 's group_manager \<Rightarrow> bool" for P where
  create: "gs_counter m + 1 \<noteq> 0 \<Longrightarrow> groups_change P m (snd (groups_Create P m tenant name now))"
| update: "groups_change P m (snd (groups_Update P m tenant i name))"
| delete: "groups_change P m (snd (groups_Delete P m tenant i))"
| add_member: "is_i64 weight \<Longrightarrow> groups_change P m (snd (groups_AddMemberWithWeight P m tenant i a weight))"
| weight: "is_i64 weight \<Longrightarrow> groups_change P m (snd (groups_UpdateMemberWeight P m tenant i a weight))"
| remove_member: "groups_change P m (snd (groups_RemoveMember P m tenant i a))"
| next_agent: "groups_change P m (snd (snd (groups_Next m tenant i (allowFn :: (unit \<Rightarrow> string \<Rightarrow> bool \<times> unit) option) st)))"

definition group_put_ok :: "'s group_manager \<Rightarrow> agent_group \<Rightarrow> bool" where
  "group_put_ok m g \<longleftrightarrow> (\<exists>g0. gs_groups m (g_ID g) = Some g0 \<and> g_Tenant g0 = g_Tenant g) \<and>
     (\<forall>x \<in> set (g_Members g). is_i64 (gm_Weight x))"

lemma put_group_simps [simp]:
  "gs_groups (put_group P g m) = (gs_groups m)(g_ID g \<mapsto> g)"
  "gs_counter (put_group P g m) = gs_counter m"
  "gs_rrIndex (put_group P g m) = gs_rrIndex m"
  "gs_store (put_group P g m) = groups_persist P g (gs_store m)"
  by (simp_all add: put_group_def)

lemma find_groupD:
  "groups_inv m \<Longrightarrow> find_group m tenant i = Some g \<Longrightarrow>
     gs_groups m i = Some g \<and> g_ID g = i \<and> g_Tenant g = tenant \<and> (\<forall>x \<in> set (g_Members g). is_i64 (gm_Weight x))"
  by (auto simp: find_group_def groups_inv_def split: option.splits if_splits)

lemma set_weight_i64:
  "set_weight a w ms = Some ms' \<Longrightarrow> is_i64 w \<Longrightarrow> \<forall>x \<in> set ms. is_i64 (gm_Weight x) \<Longrightarrow>
     \<forall>x \<in> set ms'. is_i64 (gm_Weight x)"
  by (induction ms arbitrary: ms') (auto split: if_splits)

text \<open>Every change is the entry of a new group, a new version of a group, the removal of a group,
  or no change to the groups at all.\<close>

lemma change_cases:
  assumes "groups_change P m m'" "groups_inv m"
  obtains (same) "gs_groups m' = gs_groups m" "gs_counter m' = gs_counter m" "gs_store m' = gs_store m"
  | (new) g where "gs_counter m + 1 \<noteq> 0" "g_ID g = numbered ''grp-'' (gs_counter m + 1)" "g_Members g = []"
      "gs_groups m' = (gs_groups m)(g_ID g \<mapsto> g)" "gs_counter m' = gs_counter m + 1"
      "gs_store m' = groups_persist P g (gs_store m)"
  | (put) g where "group_put_ok m g" "gs_groups m' = (gs_groups m)(g_ID g \<mapsto> g)"
      "gs_counter m' = gs_counter m" "gs_store m' = groups_persist P g (gs_store m)"
  | (drop) g where "gs_groups m (g_ID g) = Some g" "gs_groups m' = (gs_groups m)(g_ID g := None)"
      "gs_counter m' = gs_counter m" "gs_store m' = groups_unpersist P g (gs_store m)"
  using assms(1)
proof cases
  case (create tenant name now)
  let ?g = "\<lparr>g_ID = numbered ''grp-'' (gs_counter m + 1), g_Tenant = tenant, g_Name = name,
    g_Members = [], g_CreatedAt = now\<rparr>"
  show ?thesis
  proof (cases "name = []")
    case True
    with create show ?thesis by (intro same) (simp_all add: groups_Create_def)
  next
    case False
    with create show ?thesis by (intro new [of ?g]) (simp_all add: groups_Create_def Let_def)
  qed
next
  case (update tenant i name)
  show ?thesis
  proof (cases "find_group m tenant i")
    case None
    with update show ?thesis by (intro same) (simp_all add: groups_Update_def)
  next
    case (Some g)
    note g = find_groupD [OF assms(2) Some]
    show ?thesis
    proof (cases "name = Some []")
      case True
      with update Some show ?thesis by (intro same) (simp_all add: groups_Update_def)
    next
      case False
      with update Some g show ?thesis
        by (intro put [of "case name of None \<Rightarrow> g | Some n \<Rightarrow> g\<lparr>g_Name := n\<rparr>"])
          (auto simp: groups_Update_def group_put_ok_def Let_def split: option.splits)
    qed
  qed
next
  case (delete tenant i)
  show ?thesis
  proof (cases "find_group m tenant i")
    case None
    with delete show ?thesis by (intro same) (simp_all add: groups_Delete_def)
  next
    case (Some g)
    with delete find_groupD [OF assms(2) Some] show ?thesis
      by (intro drop [of g]) (simp_all add: groups_Delete_def)
  qed
next
  case (add_member weight tenant i a)
  show ?thesis
  proof (cases "snd (groups_AddMemberWithWeight P m tenant i a weight) = m")
    case True
    with add_member show ?thesis by (intro same) simp_all
  next
    case False
    then obtain g where g: "find_group m tenant i = Some g" "m' =
        put_group P (g\<lparr>g_Members := g_Members g @ [\<lparr>gm_AgentID = a, gm_Weight = weight\<rparr>]\<rparr>) m"
      using add_member by (auto simp: groups_AddMemberWithWeight_def normalizeWeight_def split: option.splits if_splits)
    with find_groupD [OF assms(2) g(1)] add_member(2) show ?thesis
      by (intro put [of "g\<lparr>g_Members := g_Members g @ [\<lparr>gm_AgentID = a, gm_Weight = weight\<rparr>]\<rparr>"])
        (auto simp: group_put_ok_def)
  qed
next
  case (weight w tenant i a)
  show ?thesis
  proof (cases "snd (groups_UpdateMemberWeight P m tenant i a w) = m")
    case True
    with weight show ?thesis by (intro same) simp_all
  next
    case False
    then obtain g ms where g: "find_group m tenant i = Some g" "set_weight a w (g_Members g) = Some ms"
      "m' = put_group P (g\<lparr>g_Members := ms\<rparr>) m"
      using weight by (auto simp: groups_UpdateMemberWeight_def normalizeWeight_def split: option.splits if_splits)
    with find_groupD [OF assms(2) g(1)] set_weight_i64 [OF g(2) weight(2)] show ?thesis
      by (intro put [of "g\<lparr>g_Members := ms\<rparr>"]) (auto simp: group_put_ok_def)
  qed
next
  case (remove_member tenant i a)
  show ?thesis
  proof (cases "snd (groups_RemoveMember P m tenant i a) = m")
    case True
    with remove_member show ?thesis by (intro same) simp_all
  next
    case False
    then obtain g where g: "find_group m tenant i = Some g"
      "m' = put_group P (g\<lparr>g_Members := filter (\<lambda>x. gm_AgentID x \<noteq> a) (g_Members g)\<rparr>) m"
      using remove_member by (auto simp: groups_RemoveMember_def Let_def split: option.splits if_splits)
    with find_groupD [OF assms(2) g(1)] show ?thesis
      by (intro put [of "g\<lparr>g_Members := filter (\<lambda>x. gm_AgentID x \<noteq> a) (g_Members g)\<rparr>"])
        (auto simp: group_put_ok_def)
  qed
next
  case (next_agent tenant i allowFn st)
  then show ?thesis
    by (intro same) (auto simp: groups_Next_def Let_def case_prod_beta split: option.splits)
qed

lemma change_inv:
  assumes "groups_change P m m'" "groups_inv m"
  shows "groups_inv m'"
  using assms
proof (cases rule: change_cases)
  case same
  with assms(2) show ?thesis by (simp add: groups_inv_def)
next
  case (new g)
  have "\<forall>i \<in> insert (g_ID g) (dom (gs_groups m)). parseGroupNum i \<le> gs_counter m + 1"
    using group_ids.bounded_insert [of "dom (gs_groups m)" "gs_counter m"] assms(2) new(1,2)
    by (simp add: groups_inv_def)
  with new assms(2) show ?thesis by (auto simp: groups_inv_def)
next
  case (put g)
  with assms(2) show ?thesis by (auto simp: groups_inv_def group_put_ok_def)
next
  case (drop g)
  have "gs_groups m' k = Some h \<Longrightarrow> gs_groups m k = Some h" for k h
    using drop(2) by (cases "k = g_ID g") simp_all
  then show ?thesis using assms(2) unfolding groups_inv_def drop(3) dom_def by blast
qed

lemma change_synced:
  assumes "groups_change (bolt_persister B) m m'" "groups_inv m" "bolt_ok B" "bolt_writes B" "groups_synced B m"
  shows "groups_synced B m'"
  using assms(1,2)
proof (cases rule: change_cases)
  case same
  with assms(5) show ?thesis by simp
next
  case (new g)
  have "gs_groups m (g_ID g) = None"
    using group_ids.fresh [of "dom (gs_groups m)" "gs_counter m"] assms(2) new(1,2)
    by (auto simp: groups_inv_def)
  with synced_write [OF assms(3-5), of "g_ID g" g] new show ?thesis by (simp add: groups_persist_def)
next
  case (put g)
  with synced_write [OF assms(3-5), of "g_ID g" g] show ?thesis
    by (auto simp: groups_persist_def group_put_ok_def)
next
  case (drop g)
  with synced_remove [OF assms(3-5) drop(1)] show ?thesis by (simp add: groups_unpersist_def)
qed

lemma changes_synced_groups:
  assumes "(groups_change (bolt_persister B))\<^sup>*\<^sup>* m m'" "groups_inv m" "bolt_ok B" "bolt_writes B" "groups_synced B m"
  shows "groups_inv m' \<and> groups_synced B m'"
  using assms(1)
proof (induction rule: rtranclp_induct)
  case (step y z)
  with change_inv change_synced [OF _ _ assms(3,4)] show ?case by blast
qed (simp add: assms)

lemma load_groups_eq:
  "gs_groups (load_groups gs m) = load_records g_ID gs (gs_groups m) \<and>
   gs_counter (load_groups gs m) = load_counter (\<lambda>g. parseGroupNum (g_ID g)) gs (gs_counter m)"
  by (induction gs arbitrary: m) (simp_all add: load_records_def load_counter_def Let_def)

lemma load_groups_index_keep: "gs_rrIndex m i = Some 0 \<Longrightarrow> gs_rrIndex (load_groups gs m) i = Some 0"
  by (induction gs arbitrary: m) auto

lemma load_groups_index: "i \<in> g_ID ` set gs \<Longrightarrow> gs_rrIndex (load_groups gs m) i = Some 0"
  by (induction gs arbitrary: m) (auto intro: load_groups_index_keep)


section \<open>Properties\<close>

definition ex_group :: agent_group where
  "ex_group = \<lparr>g_ID = ''grp-1'', g_Tenant = ''acme'', g_Name = ''pool'', g_Members =
     [\<lparr>gm_AgentID = ''a'', gm_Weight = 2\<rparr>, \<lparr>gm_AgentID = ''b'', gm_Weight = 1\<rparr>], g_CreatedAt = 5\<rparr>"

definition ex_groups :: "unit group_manager" where
  "ex_groups = \<lparr>gs_groups = [''grp-1'' \<mapsto> ex_group], gs_counter = 1, gs_rrIndex = [''grp-1'' \<mapsto> 7], gs_store = None\<rparr>"

lemma ex_expand: "expand (g_Members ex_group) = [''a'', ''a'', ''b'']"
  by (simp add: ex_group_def memberWeight_def numeral_eq_Suc)

lemma ex_ready: "group_ready ex_groups ''acme'' ''grp-1'' ex_group 7"
  using ex_expand by (simp add: group_ready_def ex_groups_def find_group_def weights_ok_def)
    (simp add: ex_group_def)

text \<open>C9. Weighted round robin is fair: in any full round of consecutive selections, as many as
  the weights sum up to, every member of the group is selected exactly as often as its weight
  says. (The position counter must not wrap around within the round, and the weights must sum up
  within an int.)\<close>

theorem round_robin_fair:
  assumes "group_ready m tenant groupID g idx" "distinct (map gm_AgentID (g_Members g))"
    and "n = length (expand (g_Members g))" "unat idx + n \<le> 2 ^ 64" "x \<in> set (g_Members g)"
  shows "count_list (fst (groups_take n m tenant groupID)) (Some (gm_AgentID x)) =
    nat (memberWeight (gm_Weight x))"
proof -
  have "g_Members g \<noteq> []" using assms(1) by (simp add: group_ready_def)
  from round_slots [OF this assms(4) [unfolded assms(3)] assms(3)]
  have "fst (groups_take n m tenant groupID) = map Some (rotate (unat idx) (expand (g_Members g)))"
    unfolding take_ready [OF assms(1)] by (metis (no_types, lifting) map_map comp_def map_eq_conv)
  moreover have "count_list (map Some zs) (Some a) = count_list zs a" for zs and a :: string
    by (induction zs) auto
  ultimately show ?thesis
    using count_expand [OF assms(2,5)] by (simp add: count_list_rotate)
qed

theorem round_robin_fair_witness:
  "count_list (fst (groups_take 3 ex_groups ''acme'' ''grp-1'')) (Some ''a'') = 2"
  using round_robin_fair [OF ex_ready, of 3 "\<lparr>gm_AgentID = ''a'', gm_Weight = 2\<rparr>"] ex_expand
  by (simp add: ex_group_def memberWeight_def)

text \<open>Selection under a filter returns a member the filter admits, and fails only when the
  filter admits no member of the group.\<close>

theorem next_admitted_member:
  assumes "group_ready m tenant groupID g idx" "unat idx + length (expand (g_Members g)) \<le> 2 ^ 64"
  shows "case fst (groups_Next m tenant groupID (Some (\<lambda>st a. (ok a, st))) st) of
      Some a \<Rightarrow> ok a \<and> a \<in> gm_AgentID ` set (g_Members g)
    | None \<Rightarrow> \<forall>x \<in> set (g_Members g). \<not> ok (gm_AgentID x)"
proof -
  have "g_Members g \<noteq> []" using assms(1) by (simp add: group_ready_def)
  from Next_filter [OF assms(1), of ok st] round_slots [OF this assms(2) refl]
  have eq: "fst (groups_Next m tenant groupID (Some (\<lambda>st a. (ok a, st))) st) =
      find ok (rotate (unat idx) (expand (g_Members g)))" by simp
  show ?thesis
  proof (cases "find ok (rotate (unat idx) (expand (g_Members g)))")
    case None
    then have "\<forall>x \<in> set (g_Members g). \<not> ok (gm_AgentID x)" by (simp add: find_None_iff set_expand)
    with None show ?thesis unfolding eq by simp
  next
    case (Some a)
    then have "ok a" "a \<in> set (rotate (unat idx) (expand (g_Members g)))"
      unfolding find_Some_iff by (auto simp del: set_rotate length_rotate)
    with Some show ?thesis unfolding eq by (simp add: set_expand)
  qed
qed

theorem next_admitted_member_witness:
  "fst (groups_Next ex_groups ''acme'' ''grp-1'' (Some (\<lambda>st a. (a = ''b'', st))) ()) = Some ''b''"
proof -
  have "unat (7 :: uint64) + length (expand (g_Members ex_group)) \<le> 2 ^ 64" by (simp add: ex_expand)
  from next_admitted_member [OF ex_ready this, of "\<lambda>a. a = ''b''" "()"] show ?thesis
    by (auto simp: ex_group_def split: option.splits)
qed

text \<open>Groups survive a restart: after any run of the manager on a store whose writes succeed,
  loading a tenant into a fresh manager returns exactly that tenant's groups with their members
  and weights, each with its round-robin position at the start, and new groups get identifiers
  unused by the loaded ones.\<close>

theorem groups_survive_restart:
  assumes "bolt_ok B" "bolt_writes B" "\<forall>db. view_error B db = None"
    and "has_bucket B db0 tenants_path" "\<forall>t i. tenant_view B db0 t (groupKeyPrefix @ i) = None"
    and "(groups_change (bolt_persister B))\<^sup>*\<^sup>* (groups_NewWithStore db0) m"
  shows "\<exists>db n m'. gs_store m = Some db \<and>
    groups_LoadFromStore (bolt_persister B) (groups_NewWithStore db) tenant = (Inr n, m') \<and>
    (\<forall>i. gs_groups m' i = (case gs_groups m i of None \<Rightarrow> None
       | Some g \<Rightarrow> if g_Tenant g = tenant then Some g else None)) \<and>
    (\<forall>i \<in> dom (gs_groups m'). gs_rrIndex m' i = Some 0 \<and> parseGroupNum i \<le> gs_counter m')"
proof -
  have "groups_inv (groups_NewWithStore db0)" by (simp add: groups_inv_def groups_NewWithStore_def)
  moreover have "groups_synced B (groups_NewWithStore db0)"
    by (simp add: groups_NewWithStore_def synced_new assms(4,5))
  ultimately have m: "groups_inv m" "groups_synced B m"
    using changes_synced_groups [OF assms(6) _ assms(1,2)] by blast+
  then obtain db where db: "gs_store m = Some db" by (auto simp: synced_def)
  have ve: "view_error B db = None" using assms(3) by blast
  obtain kvs gs where scan: "pScan (bolt_persister B) db tenant groupKeyPrefix = Inr kvs"
    "gs = List.map_filter (\<lambda>kv. unmarshal_group (snd kv)) kvs"
    and gs: "load_records g_ID gs Map.empty = tenant_records g_Tenant (\<lambda>g. g) (gs_groups m) tenant"
    "g_ID ` set gs = dom (tenant_records g_Tenant (\<lambda>g. g) (gs_groups m) tenant)"
    using group_codec.load_scan [OF assms(1) ve m(2) [unfolded db], of tenant] m(1)
    unfolding groups_inv_def by blast
  let ?m = "load_groups gs (groups_NewWithStore db)"
  have "groups_LoadFromStore (bolt_persister B) (groups_NewWithStore db) tenant = (Inr (length gs), ?m)"
    using scan by (simp add: groups_LoadFromStore_def groups_NewWithStore_def Let_def)
  moreover have grp: "gs_groups ?m = tenant_records g_Tenant (\<lambda>g. g) (gs_groups m) tenant"
    using gs(1) by (simp add: load_groups_eq groups_NewWithStore_def)
  moreover have "gs_rrIndex ?m i = Some 0 \<and> parseGroupNum i \<le> gs_counter ?m" if "i \<in> dom (gs_groups ?m)" for i
  proof -
    have i: "i \<in> g_ID ` set gs" using that gs(2) grp by simp
    then show ?thesis
      using load_groups_index load_counter_bound [of _ "\<lambda>g. parseGroupNum (g_ID g)" gs]
      by (auto simp: load_groups_eq)
  qed
  ultimately show ?thesis using db by (auto simp: tenant_records_def)
qed

theorem groups_survive_restart_witness:
  "\<exists>db n m'. groups_LoadFromStore (bolt_persister membolt) (groups_NewWithStore db) ''acme'' = (Inr n, m') \<and>
     gs_groups m' ''grp-1'' \<noteq> None"
proof -
  let ?P = "bolt_persister membolt" and ?start = "groups_NewWithStore mem0"
  let ?fin = "snd (groups_Create ?P ?start ''acme'' ''pool'' 3)"
  have "groups_change ?P ?start ?fin" by (rule groups_change.create) (simp add: groups_NewWithStore_def)
  then have run: "(groups_change ?P)\<^sup>*\<^sup>* ?start ?fin" by (rule r_into_rtranclp)
  have "\<exists>g. gs_groups ?fin ''grp-1'' = Some g \<and> g_Tenant g = ''acme''"
    by (simp add: groups_Create_def groups_NewWithStore_def Let_def numbered_def show_nat.simps)
  with groups_survive_restart [OF membolt_ok membolt_reliable _ _ _ run, of "''acme''"] show ?thesis
    by fastforce
qed

end
