(* ===== verification/Pipeline.thy ===== *)
theory Pipeline
  imports MemBolt
begin

text \<open>
  Pipelines of stages and their runs, \<^verbatim>\<open>pkg/pipeline/pipeline.go\<close>. Pipelines and
  runs live in two maps with two counters and are written to the store under two key prefixes.
\<close>

section \<open>Data\<close>

record stage =
  s_Name :: string
  s_AgentID :: string
  s_Capability :: string
  s_Payload :: payload

record pipeline =
  p_ID :: string
  p_Tenant :: string
  p_Name :: string
  p_Stages :: "stage list"
  p_CreatedAt :: instant

abbreviation RunStatusRunning :: string where "RunStatusRunning \<equiv> ''running''"
abbreviation RunStatusDone :: string where "RunStatusDone \<equiv> ''done''"
abbreviation RunStatusFailed :: string where "RunStatusFailed \<equiv> ''failed''"

record run =
  rn_ID :: string
  rn_PipelineID :: string
  rn_Tenant :: string
  rn_Status :: string
  rn_CurrentStage :: int
  rn_JobIDs :: "string list"
  rn_Input :: payload
  rn_CreatedAt :: instant
  rn_UpdatedAt :: instant

record 's pipe_manager =
  pm_pipelines :: "string \<rightharpoonup> pipeline"
  pm_runs :: "string \<rightharpoonup> run"
  pm_pipelineCounter :: uint64
  pm_runCounter :: uint64
  pm_store :: "'s option"

definition pipelineKeyPrefix :: string where "pipelineKeyPrefix = ''pipeline_''"
definition runKeyPrefix :: string where "runKeyPrefix = ''prun_''"

definition pipelines_New :: "'s pipe_manager" where
  "pipelines_New = \<lparr>pm_pipelines = Map.empty, pm_runs = Map.empty, pm_pipelineCounter = 0,
     pm_runCounter = 0, pm_store = None\<rparr>"

definition pipelines_NewWithStore :: "'s \<Rightarrow> 's pipe_manager" where
  "pipelines_NewWithStore p = \<lparr>pm_pipelines = Map.empty, pm_runs = Map.empty, pm_pipelineCounter = 0,
     pm_runCounter = 0, pm_store = Some p\<rparr>"

definition marshal_stage :: "stage \<Rightarrow> json" where
  "marshal_stage s = JObj ([(''name'', JStr (s_Name s))] @ opt_str ''agent_id'' (s_AgentID s) @
     opt_str ''capability'' (s_Capability s) @ opt_payload ''payload'' (s_Payload s))"

fun unmarshal_stage :: "json \<Rightarrow> stage option" where
  "unmarshal_stage (JObj fs) =
     (case (as_str (field fs ''name''), as_str (field fs ''agent_id''), as_str (field fs ''capability''),
            as_payload (field fs ''payload'')) of
        (Some n, Some a, Some c, Some p) \<Rightarrow> Some \<lparr>s_Name = n, s_AgentID = a, s_Capability = c, s_Payload = p\<rparr>
      | _ \<Rightarrow> None)"
| "unmarshal_stage JNull = Some \<lparr>s_Name = [], s_AgentID = [], s_Capability = [], s_Payload = None\<rparr>"
| "unmarshal_stage _ = None"

fun as_stages :: "json \<Rightarrow> stage list option" where
  "as_stages JNull = Some []"
| "as_stages (JArr xs) = sequence_opt (map unmarshal_stage xs)"
| "as_stages _ = None"

definition marshal_pipeline :: "pipeline \<Rightarrow> json" where
  "marshal_pipeline p = JObj [(''id'', JStr (p_ID p)), (''tenant'', JStr (p_Tenant p)), (''name'', JStr (p_Name p)),
     (''stages'', JArr (map marshal_stage (p_Stages p))), (''created_at'', JTime (p_CreatedAt p))]"

definition pipeline_of_fields :: "(string \<times> json) list \<Rightarrow> pipeline option" where
  "pipeline_of_fields fs =
     (case (as_str (field fs ''id''), as_str (field fs ''tenant''), as_str (field fs ''name''),
            as_stages (field fs ''stages''), as_time (field fs ''created_at'')) of
        (Some i, Some t, Some n, Some ss, Some c) \<Rightarrow>
          Some \<lparr>p_ID = i, p_Tenant = t, p_Name = n, p_Stages = ss, p_CreatedAt = c\<rparr>
      | _ \<Rightarrow> None)"

fun unmarshal_pipeline :: "blob \<Rightarrow> pipeline option" where
  "unmarshal_pipeline (Doc (JObj fs)) = pipeline_of_fields fs"
| "unmarshal_pipeline (Doc JNull) = pipeline_of_fields []"
| "unmarshal_pipeline _ = None"

definition run_fields :: "run \<Rightarrow> (string \<times> json) list" where
  "run_fields r =
     [(''id'', JStr (rn_ID r)), (''pipeline_id'', JStr (rn_PipelineID r)), (''tenant'', JStr (rn_Tenant r)),
      (''status'', JStr (rn_Status r)), (''current_stage'', JInt (rn_CurrentStage r)),
      (''job_ids'', JArr (map JStr (rn_JobIDs r)))] @ opt_payload ''input'' (rn_Input r) @
     [(''created_at'', JTime (rn_CreatedAt r)), (''updated_at'', JTime (rn_UpdatedAt r))]"

definition marshal_run :: "run \<Rightarrow> json" where
  "marshal_run r = JObj (run_fields r)"

definition run_of_fields :: "(string \<times> json) list \<Rightarrow> run option" where
  "run_of_fields fs =
     (case (as_str (field fs ''id''), as_str (field fs ''pipeline_id''), as_str (field fs ''tenant''),
            as_str (field fs ''status''), as_int (field fs ''current_stage''), as_strs (field fs ''job_ids''),
            as_payload (field fs ''input''), as_time (field fs ''created_at''), as_time (field fs ''updated_at'')) of
        (Some i, Some p, Some t, Some st, Some n, Some js, Some inp, Some c, Some u) \<Rightarrow>
          Some \<lparr>rn_ID = i, rn_PipelineID = p, rn_Tenant = t, rn_Status = st, rn_CurrentStage = n,
            rn_JobIDs = js, rn_Input = inp, rn_CreatedAt = c, rn_UpdatedAt = u\<rparr>
      | _ \<Rightarrow> None)"

fun unmarshal_run :: "blob \<Rightarrow> run option" where
  "unmarshal_run (Doc (JObj fs)) = run_of_fields fs"
| "unmarshal_run (Doc JNull) = run_of_fields []"
| "unmarshal_run _ = None"

section \<open>Operations\<close>

definition parsePipelineNum :: "string \<Rightarrow> uint64" where "parsePipelineNum i = parse_num ''pipe-'' i"
definition parseRunNum :: "string \<Rightarrow> uint64" where "parseRunNum i = parse_num ''prun-'' i"

definition persistPipeline :: "'s persister \<Rightarrow> pipeline \<Rightarrow> 's option \<Rightarrow> 's option" where
  "persistPipeline P p st = kv_write P st (p_Tenant p) (pipelineKeyPrefix @ p_ID p) (Doc (marshal_pipeline p))"

definition unpersistPipeline :: "'s persister \<Rightarrow> pipeline \<Rightarrow> 's option \<Rightarrow> 's option" where
  "unpersistPipeline P p st = kv_remove P st (p_Tenant p) (pipelineKeyPrefix @ p_ID p)"

definition persistRun :: "'s persister \<Rightarrow> run \<Rightarrow> 's option \<Rightarrow> 's option" where
  "persistRun P r st = kv_write P st (rn_Tenant r) (runKeyPrefix @ rn_ID r) (Doc (marshal_run r))"

fun load_pipelines :: "pipeline list \<Rightarrow> 's pipe_manager \<Rightarrow> 's pipe_manager" where
  "load_pipelines [] m = m"
| "load_pipelines (p # ps) m = load_pipelines ps
     (m\<lparr>pm_pipelineCounter := (let n = parsePipelineNum (p_ID p) in
          if n > pm_pipelineCounter m then n else pm_pipelineCounter m),
        pm_pipelines := (pm_pipelines m)(p_ID p \<mapsto> p)\<rparr>)"

fun load_runs :: "run list \<Rightarrow> 's pipe_manager \<Rightarrow> 's pipe_manager" where
  "load_runs [] m = m"
| "load_runs (r # rs) m = load_runs rs
     (m\<lparr>pm_runCounter := (let n = parseRunNum (rn_ID r) in if n > pm_runCounter m then n else pm_runCounter m),
        pm_runs := (pm_runs m)(rn_ID r \<mapsto> r)\<rparr>)"

definition pipelines_LoadFromStore ::
    "'s persister \<Rightarrow> 's pipe_manager \<Rightarrow> string \<Rightarrow> (string + nat \<times> nat) \<times> 's pipe_manager" where
  "pipelines_LoadFromStore P m tenant =
     (case pm_store m of None \<Rightarrow> (Inr (0, 0), m)
      | Some s \<Rightarrow>
        (case pScan P s tenant pipelineKeyPrefix of Inl e \<Rightarrow> (Inl e, m)
         | Inr pkvs \<Rightarrow>
           (case pScan P s tenant runKeyPrefix of Inl e \<Rightarrow> (Inl e, m)
            | Inr rkvs \<Rightarrow>
                let ps = List.map_filter (\<lambda>kv. unmarshal_pipeline (snd kv)) pkvs;
                    rs = List.map_filter (\<lambda>kv. unmarshal_run (snd kv)) rkvs
                in (Inr (length ps, length rs), load_runs rs (load_pipelines ps m)))))"

text \<open>\<open>validateStages\<close> returns the index and the name of the first bad stage in its message.\<close>

datatype pipe_error =
    NameRequired
  | StagesRequired
  | StageInvalid nat string
  | PipelineNotFound
  | RunNotFound
  | RunNotRunning string
  | PipelineGone
  | PipePanic

fun bad_stage :: "nat \<Rightarrow> stage list \<Rightarrow> pipe_error option" where
  "bad_stage i [] = None"
| "bad_stage i (s # ss) =
     (if s_AgentID s = [] \<and> s_Capability s = [] then Some (StageInvalid i (s_Name s)) else bad_stage (i + 1) ss)"

definition validateStages :: "stage list \<Rightarrow> pipe_error option" where
  "validateStages ss = (if ss = [] then Some StagesRequired else bad_stage 0 ss)"

definition put_pipeline :: "'s persister \<Rightarrow> pipeline \<Rightarrow> 's pipe_manager \<Rightarrow> 's pipe_manager" where
  "put_pipeline P p m = m\<lparr>pm_pipelines := (pm_pipelines m)(p_ID p \<mapsto> p), pm_store := persistPipeline P p (pm_store m)\<rparr>"

definition put_run :: "'s persister \<Rightarrow> run \<Rightarrow> 's pipe_manager \<Rightarrow> 's pipe_manager" where
  "put_run P r m = m\<lparr>pm_runs := (pm_runs m)(rn_ID r \<mapsto> r), pm_store := persistRun P r (pm_store m)\<rparr>"

definition pipelines_CreatePipeline ::
    "'s persister \<Rightarrow> 's pipe_manager \<Rightarrow> string \<Rightarrow> string \<Rightarrow> stage list \<Rightarrow> instant \<Rightarrow> (pipe_error + pipeline) \<times> 's pipe_manager" where
  "pipelines_CreatePipeline P m tenant name stages now =
     (if name = [] then (Inl NameRequired, m)
      else (case validateStages stages of Some e \<Rightarrow> (Inl e, m)
        | None \<Rightarrow>
          let c = pm_pipelineCounter m + 1;
              p = \<lparr>p_ID = numbered ''pipe-'' c, p_Tenant = tenant, p_Name = name, p_Stages = stages, p_CreatedAt = now\<rparr>
          in (Inr p, put_pipeline P p (m\<lparr>pm_pipelineCounter := c\<rparr>))))"

definition pipelines_GetPipeline :: "'s pipe_manager \<Rightarrow> string \<Rightarrow> string \<Rightarrow> pipeline option" where
  "pipelines_GetPipeline m tenant i =
     (case pm_pipelines m i of None \<Rightarrow> None | Some p \<Rightarrow> if p_Tenant p \<noteq> tenant then None else Some p)"

definition pipelines_ListPipelines :: "'s pipe_manager \<Rightarrow> string \<Rightarrow> string list \<Rightarrow> pipeline list" where
  "pipelines_ListPipelines m tenant ks =
     sort_key p_Name (filter (\<lambda>p. tenant = [] \<or> p_Tenant p = tenant) (range_vals (pm_pipelines m) ks))"

text \<open>The name is written into the shared record before the stages are checked.\<close>

definition pipelines_UpdatePipeline ::
    "'s persister \<Rightarrow> 's pipe_manager \<Rightarrow> string \<Rightarrow> string \<Rightarrow> string option \<Rightarrow> stage list option
      \<Rightarrow> (pipe_error + pipeline option) \<times> 's pipe_manager" where
  "pipelines_UpdatePipeline P m tenant i name stages =
     (case pipelines_GetPipeline m tenant i of None \<Rightarrow> (Inr None, m)
      | Some p \<Rightarrow>
          if name = Some [] then (Inl NameRequired, m)
          else
            let p1 = (case name of None \<Rightarrow> p | Some n \<Rightarrow> p\<lparr>p_Name := n\<rparr>);
                m1 = m\<lparr>pm_pipelines := (pm_pipelines m)(i \<mapsto> p1)\<rparr>
            in (case stages of
                  None \<Rightarrow> (Inr (Some p1), put_pipeline P p1 m1)
                | Some ss \<Rightarrow>
                    (case validateStages ss of Some e \<Rightarrow> (Inl e, m1)
                     | None \<Rightarrow> (Inr (Some (p1\<lparr>p_Stages := ss\<rparr>)), put_pipeline P (p1\<lparr>p_Stages := ss\<rparr>) m1))))"

definition pipelines_DeletePipeline :: "'s persister \<Rightarrow> 's pipe_manager \<Rightarrow> string \<Rightarrow> string \<Rightarrow> bool \<times> 's pipe_manager" where
  "pipelines_DeletePipeline P m tenant i =
     (case pipelines_GetPipeline m tenant i of None \<Rightarrow> (False, m)
      | Some p \<Rightarrow> (True, m\<lparr>pm_store := unpersistPipeline P p (pm_store m),
          pm_pipelines := (pm_pipelines m)(i := None)\<rparr>))"

text \<open>\<open>p.Stages[0]\<close> panics on a pipeline without stages, after the run has been entered.\<close>

definition pipelines_StartRun ::
    "'s persister \<Rightarrow> 's pipe_manager \<Rightarrow> string \<Rightarrow> string \<Rightarrow> payload \<Rightarrow> instant \<Rightarrow> (pipe_error + run \<times> stage) \<times> 's pipe_manager" where
  "pipelines_StartRun P m tenant pipelineID input now =
     (case pipelines_GetPipeline m tenant pipelineID of None \<Rightarrow> (Inl PipelineNotFound, m)
      | Some p \<Rightarrow>
          let c = pm_runCounter m + 1;
              r = \<lparr>rn_ID = numbered ''prun-'' c, rn_PipelineID = pipelineID, rn_Tenant = tenant,
                   rn_Status = RunStatusRunning, rn_CurrentStage = 0, rn_JobIDs = [], rn_Input = input,
                   rn_CreatedAt = now, rn_UpdatedAt = now\<rparr>;
              m' = put_run P r (m\<lparr>pm_runCounter := c\<rparr>)
          in (case p_Stages p of [] \<Rightarrow> (Inl PipePanic, m') | s # _ \<Rightarrow> (Inr (r, s), m')))"

definition pipelines_GetRun :: "'s pipe_manager \<Rightarrow> string \<Rightarrow> string \<Rightarrow> run option" where
  "pipelines_GetRun m tenant i =
     (case pm_runs m i of None \<Rightarrow> None | Some r \<Rightarrow> if rn_Tenant r \<noteq> tenant then None else Some r)"

definition pipelines_RecordStageJob ::
    "'s persister \<Rightarrow> 's pipe_manager \<Rightarrow> string \<Rightarrow> string \<Rightarrow> string \<Rightarrow> instant \<Rightarrow> (pipe_error + run) \<times> 's pipe_manager" where
  "pipelines_RecordStageJob P m tenant runID jobID now =
     (case pipelines_GetRun m tenant runID of None \<Rightarrow> (Inl RunNotFound, m)
      | Some r \<Rightarrow> let r' = r\<lparr>rn_JobIDs := rn_JobIDs r @ [jobID], rn_UpdatedAt := now\<rparr>
                 in (Inr r', put_run P r' m))"

text \<open>\<open>CurrentStage + 1\<close> is an int; indexing the stages with a negative number panics
  after the run has been stored.\<close>

definition pipelines_AdvanceRun ::
    "'s persister \<Rightarrow> 's pipe_manager \<Rightarrow> string \<Rightarrow> string \<Rightarrow> bool \<Rightarrow> instant
      \<Rightarrow> (pipe_error + run \<times> stage option) \<times> 's pipe_manager" where
  "pipelines_AdvanceRun P m tenant runID failed now =
     (case pipelines_GetRun m tenant runID of None \<Rightarrow> (Inl RunNotFound, m)
      | Some r \<Rightarrow>
          if rn_Status r \<noteq> RunStatusRunning then (Inl (RunNotRunning (rn_Status r)), m)
          else (case pm_pipelines m (rn_PipelineID r) of None \<Rightarrow> (Inl PipelineGone, m)
            | Some p \<Rightarrow>
                let r1 = r\<lparr>rn_UpdatedAt := now\<rparr>; nextStage = i64 (rn_CurrentStage r + 1) in
                if failed then
                  let r2 = r1\<lparr>rn_Status := RunStatusFailed\<rparr> in (Inr (r2, None), put_run P r2 m)
                else if nextStage \<ge> int (length (p_Stages p)) then
                  let r2 = r1\<lparr>rn_Status := RunStatusDone\<rparr> in (Inr (r2, None), put_run P r2 m)
                else
                  let r2 = r1\<lparr>rn_CurrentStage := nextStage\<rparr> in
                  (if nextStage < 0 then Inl PipePanic
                   else Inr (r2, Some (p_Stages p ! nat nextStage)), put_run P r2 m)))"

definition pipelines_ListRuns :: "'s pipe_manager \<Rightarrow> string \<Rightarrow> string \<Rightarrow> string list \<Rightarrow> run list" where
  "pipelines_ListRuns m tenant pipelineID ks =
     sort_key rn_CreatedAt (filter (\<lambda>r. rn_Tenant r = tenant \<and> (pipelineID = [] \<or> rn_PipelineID r = pipelineID))
       (range_vals (pm_runs m) ks))"


section \<open>Round trips\<close>

definition norm_stage :: "stage \<Rightarrow> stage" where
  "norm_stage s = s\<lparr>s_Payload := norm_payload (s_Payload s)\<rparr>"

definition norm_pipeline :: "pipeline \<Rightarrow> pipeline" where
  "norm_pipeline p = p\<lparr>p_Stages := map norm_stage (p_Stages p)\<rparr>"

definition norm_run :: "run \<Rightarrow> run" where
  "norm_run r = r\<lparr>rn_Input := norm_payload (rn_Input r)\<rparr>"

lemma unmarshal_marshal_stage: "unmarshal_stage (marshal_stage s) = Some (norm_stage s)"
  by (simp add: marshal_stage_def json_field image_Un norm_stage_def)

lemma unmarshal_marshal_pipeline: "unmarshal_pipeline (Doc (marshal_pipeline p)) = Some (norm_pipeline p)"
  using sequence_opt_map [of "p_Stages p" unmarshal_stage marshal_stage norm_stage]
  by (simp add: marshal_pipeline_def pipeline_of_fields_def json_field unmarshal_marshal_stage norm_pipeline_def)

lemma run_fields_read:
  "as_str (field (run_fields r) ''id'') = Some (rn_ID r)"
  "as_str (field (run_fields r) ''pipeline_id'') = Some (rn_PipelineID r)"
  "as_str (field (run_fields r) ''tenant'') = Some (rn_Tenant r)"
  "as_str (field (run_fields r) ''status'') = Some (rn_Status r)"
  "is_i64 (rn_CurrentStage r) \<Longrightarrow> as_int (field (run_fields r) ''current_stage'') = Some (rn_CurrentStage r)"
  "as_strs (field (run_fields r) ''job_ids'') = Some (rn_JobIDs r)"
  "as_payload (field (run_fields r) ''input'') = Some (norm_payload (rn_Input r))"
  "as_time (field (run_fields r) ''created_at'') = Some (rn_CreatedAt r)"
  "as_time (field (run_fields r) ''updated_at'') = Some (rn_UpdatedAt r)"
  by (simp_all add: run_fields_def json_field image_Un del: as_strs.simps)

lemma unmarshal_marshal_run:
  "is_i64 (rn_CurrentStage r) \<Longrightarrow> unmarshal_run (Doc (marshal_run r)) = Some (norm_run r)"
  by (simp add: marshal_run_def run_of_fields_def run_fields_read norm_run_def)

interpretation pipeline_codec: record_codec p_ID p_Tenant "\<lambda>p. Doc (marshal_pipeline p)" unmarshal_pipeline
  norm_pipeline "\<lambda>_. True"
  by unfold_locales (simp_all add: unmarshal_marshal_pipeline norm_pipeline_def)

interpretation run_codec: record_codec rn_ID rn_Tenant "\<lambda>r. Doc (marshal_run r)" unmarshal_run norm_run
  "\<lambda>r. is_i64 (rn_CurrentStage r)"
  by unfold_locales (simp_all add: unmarshal_marshal_run norm_run_def)

interpretation pipeline_ids: id_scheme "numbered ''pipe-''" parsePipelineNum
  by unfold_locales (simp add: parsePipelineNum_def parse_num_numbered)

interpretation run_ids: id_scheme "numbered ''prun-''" parseRunNum
  by unfold_locales (simp add: parseRunNum_def parse_num_numbered)

section \<open>Changes\<close>

text \<open>Accepted stages, with the length of a Go slice.\<close>

definition stages_ok :: "stage list \<Rightarrow> bool" where
  "stages_ok ss \<longleftrightarrow> validateStages ss = None \<and> int (length ss) < 2 ^ 63"

definition pipelines_inv :: "'s pipe_manager \<Rightarrow> bool" where
  "pipelines_inv m \<longleftrightarrow>
     (\<forall>k p. pm_pipelines m k = Some p \<longrightarrow> p_ID p = k \<and> stages_ok (p_Stages p)) \<and>
     (\<forall>k \<in> dom (pm_pipelines m). parsePipelineNum k \<le> pm_pipelineCounter m) \<and>
     (\<forall>k r. pm_runs m k = Some r \<longrightarrow> rn_ID r = k \<and> 0 \<le> rn_CurrentStage r \<and> rn_CurrentStage r < 2 ^ 63 - 1) \<and>
     (\<forall>k \<in> dom (pm_runs m). parseRunNum k \<le> pm_runCounter m)"

text \<open>A rejected update that has already renamed the pipeline is not a change of this relation.\<close>

inductive pipelines_change :: "'s persister \<Rightarrow> 's pipe_manager \<Rightarrow> 's pipe_manager \<Rightarrow> bool" for P where
  create: "pm_pipelineCounter m + 1 \<noteq> 0 \<Longrightarrow> int (length stages) < 2 ^ 63 \<Longrightarrow>
     pipelines_change P m (snd (pipelines_CreatePipeline P m tenant name stages now))"
| update: "name = None \<or> (\<forall>ss. stages = Some ss \<longrightarrow> validateStages ss = None) \<Longrightarrow>
     (\<forall>ss. stages = Some ss \<longrightarrow> int (length ss) < 2 ^ 63) \<Longrightarrow>
     pipelines_change P m (snd (pipelines_UpdatePipeline P m tenant i name stages))"
| delete: "pipelines_change P m (snd (pipelines_DeletePipeline P m tenant i))"
| start: "pm_runCounter m + 1 \<noteq> 0 \<Longrightarrow>
     pipelines_change P m (snd (pipelines_StartRun P m tenant i input now))"
| record_job: "pipelines_change P m (snd (pipelines_RecordStageJob P m tenant i job now))"
| advance: "pipelines_change P m (snd (pipelines_AdvanceRun P m tenant i failed now))"

definition stage_next :: "run \<Rightarrow> run \<Rightarrow> bool" where
  "stage_next r r' \<longleftrightarrow> rn_ID r' = rn_ID r \<and> rn_Tenant r' = rn_Tenant r \<and> rn_PipelineID r' = rn_PipelineID r \<and>
     (rn_Status r \<noteq> RunStatusRunning \<longrightarrow> rn_Status r' = rn_Status r \<and> rn_CurrentStage r' = rn_CurrentStage r)"

definition drop_pipeline :: "'s persister \<Rightarrow> pipeline \<Rightarrow> 's pipe_manager \<Rightarrow> 's pipe_manager" where
  "drop_pipeline P p m =
     m\<lparr>pm_store := unpersistPipeline P p (pm_store m), pm_pipelines := (pm_pipelines m)(p_ID p := None)\<rparr>"

inductive pipe_micro :: "'s persister \<Rightarrow> 's pipe_manager \<Rightarrow> 's pipe_manager \<Rightarrow> bool" for P where
  nothing: "pipe_micro P m m"
| new_pipeline: "pm_pipelineCounter m + 1 \<noteq> 0 \<Longrightarrow> p_ID p = numbered ''pipe-'' (pm_pipelineCounter m + 1) \<Longrightarrow>
     stages_ok (p_Stages p) \<Longrightarrow>
     pipe_micro P m (put_pipeline P p (m\<lparr>pm_pipelineCounter := pm_pipelineCounter m + 1\<rparr>))"
| put_pipeline: "pm_pipelines m (p_ID p) = Some p0 \<Longrightarrow> p_Tenant p = p_Tenant p0 \<Longrightarrow>
     stages_ok (p_Stages p) \<Longrightarrow> pipe_micro P m (put_pipeline P p m)"
| drop_pipeline: "pm_pipelines m (p_ID p) = Some p \<Longrightarrow>
     pipe_micro P m (drop_pipeline P p m)"
| new_run: "pm_runCounter m + 1 \<noteq> 0 \<Longrightarrow> rn_ID r = numbered ''prun-'' (pm_runCounter m + 1) \<Longrightarrow>
     rn_CurrentStage r = 0 \<Longrightarrow> pipe_micro P m (put_run P r (m\<lparr>pm_runCounter := pm_runCounter m + 1\<rparr>))"
| put_run: "pm_runs m (rn_ID r) = Some r0 \<Longrightarrow> stage_next r0 r \<Longrightarrow> 0 \<le> rn_CurrentStage r \<Longrightarrow>
     rn_CurrentStage r < 2 ^ 63 - 1 \<Longrightarrow> pipe_micro P m (put_run P r m)"

lemma put_simps [simp]:
  "pm_pipelines (put_pipeline P p m) = (pm_pipelines m)(p_ID p \<mapsto> p)"
  "pm_runs (put_pipeline P p m) = pm_runs m"
  "pm_pipelineCounter (put_pipeline P p m) = pm_pipelineCounter m"
  "pm_runCounter (put_pipeline P p m) = pm_runCounter m"
  "pm_store (put_pipeline P p m) = persistPipeline P p (pm_store m)"
  "pm_pipelines (put_run P r m) = pm_pipelines m"
  "pm_runs (put_run P r m) = (pm_runs m)(rn_ID r \<mapsto> r)"
  "pm_pipelineCounter (put_run P r m) = pm_pipelineCounter m"
  "pm_runCounter (put_run P r m) = pm_runCounter m"
  "pm_store (put_run P r m) = persistRun P r (pm_store m)"
  "pm_pipelines (drop_pipeline P p m) = (pm_pipelines m)(p_ID p := None)"
  "pm_runs (drop_pipeline P p m) = pm_runs m"
  "pm_pipelineCounter (drop_pipeline P p m) = pm_pipelineCounter m"
  "pm_runCounter (drop_pipeline P p m) = pm_runCounter m"
  "pm_store (drop_pipeline P p m) = unpersistPipeline P p (pm_store m)"
  by (simp_all add: put_pipeline_def put_run_def drop_pipeline_def)

lemma GetPipelineD: "pipelines_inv m \<Longrightarrow> pipelines_GetPipeline m tenant i = Some p \<Longrightarrow>
    pm_pipelines m i = Some p \<and> p_ID p = i \<and> p_Tenant p = tenant \<and> stages_ok (p_Stages p)"
  by (auto simp: pipelines_GetPipeline_def pipelines_inv_def split: option.splits if_splits)

lemma GetRunD: "pipelines_inv m \<Longrightarrow> pipelines_GetRun m tenant i = Some r \<Longrightarrow>
    pm_runs m i = Some r \<and> rn_ID r = i \<and> rn_Tenant r = tenant \<and> 0 \<le> rn_CurrentStage r \<and> rn_CurrentStage r < 2 ^ 63 - 1"
  by (auto simp: pipelines_GetRun_def pipelines_inv_def split: option.splits if_splits)

lemma micro_update:
  assumes "pipelines_inv m" "name = None \<or> (\<forall>ss. stages = Some ss \<longrightarrow> validateStages ss = None)"
    and "\<forall>ss. stages = Some ss \<longrightarrow> int (length ss) < 2 ^ 63"
  shows "pipe_micro P m (snd (pipelines_UpdatePipeline P m tenant i name stages))"
proof (cases "pipelines_GetPipeline m tenant i = None \<or> name = Some []")
  case True
  then show ?thesis by (auto simp: pipelines_UpdatePipeline_def pipe_micro.nothing split: option.split)
next
  case False
  then obtain p where g: "pipelines_GetPipeline m tenant i = Some p" and n: "name \<noteq> Some []" by auto
  note p = GetPipelineD [OF assms(1) g]
  define p1 where "p1 = (case name of None \<Rightarrow> p | Some n \<Rightarrow> p\<lparr>p_Name := n\<rparr>)"
  have p1: "p_ID p1 = i" "p_Tenant p1 = tenant" "p_Stages p1 = p_Stages p"
    using p by (simp_all add: p1_def split: option.split)
  have put1: "put_pipeline P q (m\<lparr>pm_pipelines := (pm_pipelines m)(i \<mapsto> p1)\<rparr>) = put_pipeline P q m"
    if "p_ID q = i" for q using that by (simp add: put_pipeline_def)
  have micro: "pipe_micro P m (put_pipeline P q m)" if "p_ID q = i" "p_Tenant q = tenant" "stages_ok (p_Stages q)" for q
    using that p by (intro pipe_micro.put_pipeline [of m q p]) simp_all
  consider (none) "stages = None" | (ok) ss where "stages = Some ss" "validateStages ss = None"
    | (bad) ss e where "stages = Some ss" "validateStages ss = Some e" by (metis not_Some_eq)
  then show ?thesis
  proof cases
    case none
    with g n p p1 micro [of p1] show ?thesis
      by (simp add: pipelines_UpdatePipeline_def Let_def p1_def [symmetric] put1)
  next
    case (ok ss)
    with g n p p1 micro [of "p1\<lparr>p_Stages := ss\<rparr>"] assms(3) show ?thesis
      by (simp add: pipelines_UpdatePipeline_def Let_def p1_def [symmetric] stages_ok_def put1)
  next
    case (bad ss e)
    with assms(2) have "p1 = p" by (simp add: p1_def)
    then have "m\<lparr>pm_pipelines := (pm_pipelines m)(i \<mapsto> p1)\<rparr> = m" using p by (simp add: fun_upd_idem)
    with bad g n show ?thesis
      by (simp add: pipelines_UpdatePipeline_def Let_def p1_def [symmetric] pipe_micro.nothing)
  qed
qed

lemma micro_advance:
  assumes "pipelines_inv m"
  shows "pipe_micro P m (snd (pipelines_AdvanceRun P m tenant i failed now))"
proof (cases "pipelines_GetRun m tenant i")
  case None
  then show ?thesis by (simp add: pipelines_AdvanceRun_def pipe_micro.nothing)
next
  case (Some r)
  note r = GetRunD [OF assms Some]
  show ?thesis
  proof (cases "rn_Status r = RunStatusRunning \<and> pm_pipelines m (rn_PipelineID r) \<noteq> None")
    case False
    with Some show ?thesis
      by (cases "pm_pipelines m (rn_PipelineID r)")
        (auto simp: pipelines_AdvanceRun_def pipe_micro.nothing)
  next
    case True
    then obtain p where p: "pm_pipelines m (rn_PipelineID r) = Some p" by auto
    have len: "int (length (p_Stages p)) < 2 ^ 63" using assms p by (auto simp: pipelines_inv_def stages_ok_def)
    have nxt: "i64 (rn_CurrentStage r + 1) = rn_CurrentStage r + 1"
      using r by (intro i64_id) (simp add: is_i64_def)
    have micro: "pipe_micro P m (put_run P r' m)"
      if "rn_ID r' = i" "stage_next r r'" "0 \<le> rn_CurrentStage r'" "rn_CurrentStage r' < 2 ^ 63 - 1" for r'
      using that r by (intro pipe_micro.put_run [of m r' r]) simp_all
    show ?thesis using Some True p r len
      by (auto simp: pipelines_AdvanceRun_def Let_def nxt stage_next_def intro!: micro)
  qed
qed

lemma change_is_micro:
  assumes "pipelines_change P m m'" "pipelines_inv m"
  shows "pipe_micro P m m'"
  using assms(1)
proof cases
  case (create stages tenant name now)
  let ?p = "\<lparr>p_ID = numbered ''pipe-'' (pm_pipelineCounter m + 1), p_Tenant = tenant, p_Name = name,
    p_Stages = stages, p_CreatedAt = now\<rparr>"
  have "validateStages stages = None \<Longrightarrow>
      pipe_micro P m (put_pipeline P ?p (m\<lparr>pm_pipelineCounter := pm_pipelineCounter m + 1\<rparr>))"
    using create by (intro pipe_micro.new_pipeline) (simp_all add: stages_ok_def)
  with create show ?thesis
    by (auto simp: pipelines_CreatePipeline_def Let_def pipe_micro.nothing split: option.splits)
next
  case (update name stages tenant i)
  with micro_update [OF assms(2)] show ?thesis by blast
next
  case (delete tenant i)
  show ?thesis
  proof (cases "pipelines_GetPipeline m tenant i")
    case None
    with delete show ?thesis by (simp add: pipelines_DeletePipeline_def pipe_micro.nothing)
  next
    case (Some p)
    with delete GetPipelineD [OF assms(2) Some] pipe_micro.drop_pipeline [of m p P] show ?thesis
      by (auto simp: pipelines_DeletePipeline_def drop_pipeline_def)
  qed
next
  case (start tenant i input now)
  show ?thesis
  proof (cases "pipelines_GetPipeline m tenant i")
    case None
    with start show ?thesis by (simp add: pipelines_StartRun_def pipe_micro.nothing)
  next
    case (Some p)
    with start show ?thesis
      by (auto simp: pipelines_StartRun_def Let_def split: list.split intro!: pipe_micro.new_run)
  qed
next
  case (record_job tenant i job now)
  show ?thesis
  proof (cases "pipelines_GetRun m tenant i")
    case None
    with record_job show ?thesis by (simp add: pipelines_RecordStageJob_def pipe_micro.nothing)
  next
    case (Some r)
    with record_job GetRunD [OF assms(2) Some] show ?thesis
      by (auto simp: pipelines_RecordStageJob_def Let_def stage_next_def intro!: pipe_micro.put_run)
  qed
next
  case (advance tenant i failed now)
  with micro_advance [OF assms(2)] show ?thesis by blast
qed


lemma micro_pipelines_inv: "pipe_micro P m m' \<Longrightarrow> pipelines_inv m \<Longrightarrow> pipelines_inv m'"
proof (induction rule: pipe_micro.induct)
  case (new_pipeline m p)
  have "\<forall>i \<in> insert (p_ID p) (dom (pm_pipelines m)). parsePipelineNum i \<le> pm_pipelineCounter m + 1"
    using pipeline_ids.bounded_insert [of "dom (pm_pipelines m)" "pm_pipelineCounter m"] new_pipeline
    by (simp add: pipelines_inv_def)
  with new_pipeline show ?case by (auto simp: pipelines_inv_def)
next
  case (put_pipeline m p p0)
  then show ?case by (auto simp: pipelines_inv_def)
next
  case (drop_pipeline m p)
  have sub: "((pm_pipelines m)(p_ID p := None)) k = Some q \<Longrightarrow> pm_pipelines m k = Some q" for k q
    by (cases "k = p_ID p") simp_all
  have "dom ((pm_pipelines m)(p_ID p := None)) \<subseteq> dom (pm_pipelines m)" by auto
  with sub drop_pipeline(2) show ?case unfolding pipelines_inv_def put_simps by blast
next
  case (new_run m r)
  have "\<forall>i \<in> insert (rn_ID r) (dom (pm_runs m)). parseRunNum i \<le> pm_runCounter m + 1"
    using run_ids.bounded_insert [of "dom (pm_runs m)" "pm_runCounter m"] new_run
    by (simp add: pipelines_inv_def)
  with new_run show ?case by (auto simp: pipelines_inv_def)
next
  case (put_run m r r0)
  then show ?case by (auto simp: pipelines_inv_def)
qed

abbreviation pipelines_synced :: "'db bolt \<Rightarrow> 'db pipe_manager \<Rightarrow> bool" where
  "pipelines_synced B m \<equiv>
     synced B pipelineKeyPrefix p_Tenant (\<lambda>p. Doc (marshal_pipeline p)) (pm_store m) (pm_pipelines m) \<and>
     synced B runKeyPrefix rn_Tenant (\<lambda>r. Doc (marshal_run r)) (pm_store m) (pm_runs m)"

lemma prefixes_apart:
  "\<not> prefix pipelineKeyPrefix (runKeyPrefix @ k)" "\<not> prefix runKeyPrefix (pipelineKeyPrefix @ k)"
  by (simp_all add: pipelineKeyPrefix_def runKeyPrefix_def)

lemma synced_persistPipeline:
  assumes "bolt_ok B" "bolt_writes B" "pipelines_synced B m" "\<And>q. pm_pipelines m (p_ID p) = Some q \<Longrightarrow> p_Tenant q = p_Tenant p"
  shows "pipelines_synced B (put_pipeline (bolt_persister B) p m)"
  using synced_write [OF assms(1,2) conjunct1 [OF assms(3)] assms(4)]
    synced_write_other [OF assms(1) conjunct2 [OF assms(3)] prefixes_apart(2)]
  by (simp add: persistPipeline_def)

lemma synced_persistRun:
  assumes "bolt_ok B" "bolt_writes B" "pipelines_synced B m" "\<And>q. pm_runs m (rn_ID r) = Some q \<Longrightarrow> rn_Tenant q = rn_Tenant r"
  shows "pipelines_synced B (put_run (bolt_persister B) r m)"
  using synced_write [OF assms(1,2) conjunct2 [OF assms(3)] assms(4)]
    synced_write_other [OF assms(1) conjunct1 [OF assms(3)] prefixes_apart(1)]
  by (simp add: persistRun_def)

lemma micro_pipelines_synced:
  assumes "pipe_micro (bolt_persister B) m m'" "bolt_ok B" "bolt_writes B" "pipelines_inv m" "pipelines_synced B m"
  shows "pipelines_synced B m'"
  using assms
proof (induction rule: pipe_micro.induct)
  case (new_pipeline m p)
  have "pm_pipelines m (p_ID p) = None"
    using pipeline_ids.fresh [of "dom (pm_pipelines m)" "pm_pipelineCounter m"] new_pipeline
    by (auto simp: pipelines_inv_def)
  with new_pipeline show ?case by (intro synced_persistPipeline) simp_all
next
  case (put_pipeline m p p0)
  then show ?case by (intro synced_persistPipeline) simp_all
next
  case (drop_pipeline m p)
  from synced_remove [OF drop_pipeline(2,3) conjunct1 [OF drop_pipeline(5)] drop_pipeline(1)]
    synced_remove_other [OF drop_pipeline(2) conjunct2 [OF drop_pipeline(5)] prefixes_apart(2)]
  show ?case unfolding put_simps unpersistPipeline_def by blast
next
  case (new_run m r)
  have "pm_runs m (rn_ID r) = None"
    using run_ids.fresh [of "dom (pm_runs m)" "pm_runCounter m"] new_run
    by (auto simp: pipelines_inv_def)
  with new_run show ?case by (intro synced_persistRun) simp_all
next
  case (put_run m r r0)
  then show ?case by (intro synced_persistRun) (simp_all add: stage_next_def)
qed

lemma changes_pipelines:
  assumes "(pipelines_change (bolt_persister B))\<^sup>*\<^sup>* m m'" "bolt_ok B" "bolt_writes B" "pipelines_inv m" "pipelines_synced B m"
  shows "pipelines_inv m' \<and> pipelines_synced B m'"
  using assms(1)
proof (induction rule: rtranclp_induct)
  case (step y z)
  then have "pipe_micro (bolt_persister B) y z" by (auto intro: change_is_micro)
  with step micro_pipelines_inv micro_pipelines_synced [OF _ assms(2,3)] show ?case by blast
qed (use assms in blast)

lemma load_pipelines_eq:
  "pm_pipelines (load_pipelines ps m) = load_records p_ID ps (pm_pipelines m) \<and>
   pm_runs (load_pipelines ps m) = pm_runs m \<and> pm_runCounter (load_pipelines ps m) = pm_runCounter m \<and>
   pm_pipelineCounter (load_pipelines ps m) = load_counter (\<lambda>p. parsePipelineNum (p_ID p)) ps (pm_pipelineCounter m)"
  by (induction ps arbitrary: m) (simp_all add: load_records_def load_counter_def Let_def)

lemma load_runs_eq:
  "pm_runs (load_runs rs m) = load_records rn_ID rs (pm_runs m) \<and>
   pm_pipelines (load_runs rs m) = pm_pipelines m \<and> pm_pipelineCounter (load_runs rs m) = pm_pipelineCounter m \<and>
   pm_runCounter (load_runs rs m) = load_counter (\<lambda>r. parseRunNum (rn_ID r)) rs (pm_runCounter m)"
  by (induction rs arbitrary: m) (simp_all add: load_records_def load_counter_def Let_def)

section \<open>Properties\<close>

text \<open>Advancing a run successfully again and again, at the given instants.\<close>

fun advances :: "'s persister \<Rightarrow> instant list \<Rightarrow> 's pipe_manager \<Rightarrow> string \<Rightarrow> string
    \<Rightarrow> (pipe_error + run \<times> stage option) list \<times> 's pipe_manager" where
  "advances P [] m tenant runID = ([], m)"
| "advances P (now # ts) m tenant runID =
     (case pipelines_AdvanceRun P m tenant runID False now of
        (res, m') \<Rightarrow> (case advances P ts m' tenant runID of (rs, m'') \<Rightarrow> (res # rs, m'')))"

definition stage_of :: "pipe_error + run \<times> stage option \<Rightarrow> stage option" where
  "stage_of res = (case res of Inl e \<Rightarrow> None | Inr (r, s) \<Rightarrow> s)"

lemma stage_of_simps [simp]: "stage_of (Inr (r, s)) = s"
  by (simp add: stage_of_def)

lemma advance_running:
  assumes "pm_runs m i = Some r" "rn_ID r = i" "rn_Tenant r = tenant" "rn_Status r = RunStatusRunning"
    and "pm_pipelines m (rn_PipelineID r) = Some p" "rn_CurrentStage r = int c" "c < length (p_Stages p)"
    and "int (length (p_Stages p)) < 2 ^ 63"
  shows "c + 1 < length (p_Stages p) \<Longrightarrow> pipelines_AdvanceRun P m tenant i False now =
      (let r' = r\<lparr>rn_UpdatedAt := now, rn_CurrentStage := int (c + 1)\<rparr>
       in (Inr (r', Some (p_Stages p ! (c + 1))), put_run P r' m))"
    and "c + 1 = length (p_Stages p) \<Longrightarrow> pipelines_AdvanceRun P m tenant i False now =
      (let r' = r\<lparr>rn_UpdatedAt := now, rn_Status := RunStatusDone\<rparr> in (Inr (r', None), put_run P r' m))"
proof -
  have nxt: "i64 (int c + 1) = int (c + 1)" using assms(7,8) by (subst i64_id) (auto simp: is_i64_def)
  note d = pipelines_AdvanceRun_def pipelines_GetRun_def Let_def
  show "c + 1 < length (p_Stages p) \<Longrightarrow> pipelines_AdvanceRun P m tenant i False now =
      (let r' = r\<lparr>rn_UpdatedAt := now, rn_CurrentStage := int (c + 1)\<rparr>
       in (Inr (r', Some (p_Stages p ! (c + 1))), put_run P r' m))"
    using assms nxt by (simp add: d nat_add_distrib)
  show "c + 1 = length (p_Stages p) \<Longrightarrow> pipelines_AdvanceRun P m tenant i False now =
      (let r' = r\<lparr>rn_UpdatedAt := now, rn_Status := RunStatusDone\<rparr> in (Inr (r', None), put_run P r' m))"
    using assms nxt by (simp add: d)
qed

lemma advances_from:
  assumes "pm_runs m i = Some r" "rn_ID r = i" "rn_Tenant r = tenant" "rn_Status r = RunStatusRunning"
    and "pm_pipelines m (rn_PipelineID r) = Some p" "rn_CurrentStage r = int c" "c < length (p_Stages p)"
    and "int (length (p_Stages p)) < 2 ^ 63" "length ts = length (p_Stages p) - c"
  shows "map stage_of (fst (advances P ts m tenant i)) = map Some (drop (c + 1) (p_Stages p)) @ [None] \<and>
    (\<exists>r'. pm_runs (snd (advances P ts m tenant i)) i = Some r' \<and> rn_Status r' = RunStatusDone)"
  using assms
proof (induction ts arbitrary: m r c)
  case (Cons now ts)
  note adv = advance_running [OF Cons.prems(1-8)]
  show ?case
  proof (cases "c + 1 < length (p_Stages p)")
    case True
    let ?r = "r\<lparr>rn_UpdatedAt := now, rn_CurrentStage := int (c + 1)\<rparr>"
    have ih: "map stage_of (fst (advances P ts (put_run P ?r m) tenant i)) = map Some (drop (c + 1 + 1) (p_Stages p)) @ [None] \<and>
      (\<exists>r'. pm_runs (snd (advances P ts (put_run P ?r m) tenant i)) i = Some r' \<and> rn_Status r' = RunStatusDone)"
      by (rule Cons.IH [of "put_run P ?r m" ?r "c + 1"]) (use Cons.prems True in simp_all)
    have "drop (c + 1) (p_Stages p) = p_Stages p ! (c + 1) # drop (c + 1 + 1) (p_Stages p)"
      using True by (simp add: Cons_nth_drop_Suc)
    with ih show ?thesis
      by (simp add: adv(1) [OF True] Let_def case_prod_beta)
  next
    case False
    then have last: "c + 1 = length (p_Stages p)" using Cons.prems(7) by simp
    have "length ts = 0" using last [symmetric] Cons.prems(9) by simp
    then have "ts = []" by simp
    with last Cons.prems show ?thesis by (simp add: adv(2) Let_def)
  qed
qed simp


definition ex_stage :: "string \<Rightarrow> stage" where
  "ex_stage n = \<lparr>s_Name = n, s_AgentID = [], s_Capability = ''gpu'', s_Payload = None\<rparr>"

definition ex_pipes :: "memdb pipe_manager" where
  "ex_pipes = \<lparr>pm_pipelines = [''pipe-1'' \<mapsto> \<lparr>p_ID = ''pipe-1'', p_Tenant = ''acme'', p_Name = ''etl'',
     p_Stages = [ex_stage ''a'', ex_stage ''b''], p_CreatedAt = 1\<rparr>], pm_runs = Map.empty,
     pm_pipelineCounter = 1, pm_runCounter = 0, pm_store = None\<rparr>"

text \<open>C10. A run goes through the stages of its pipeline in order: starting it yields the first
  stage, each successful advance yields the next one, and the advance after the last stage yields
  none and marks the run done.\<close>

theorem run_visits_all_stages:
  assumes "pipelines_GetPipeline m tenant pid = Some p" "int (length (p_Stages p)) < 2 ^ 63"
    and "pipelines_StartRun P m tenant pid input now = (Inr (r, s), m1)" "length ts = length (p_Stages p)"
  shows "s # List.map_filter stage_of (fst (advances P ts m1 tenant (rn_ID r))) = p_Stages p \<and>
    stage_of (last (fst (advances P ts m1 tenant (rn_ID r)))) = None \<and>
    (\<exists>r'. pm_runs (snd (advances P ts m1 tenant (rn_ID r))) (rn_ID r) = Some r' \<and> rn_Status r' = RunStatusDone)"
proof -
  obtain ss where st: "p_Stages p = s # ss"
    using assms(1,3) by (auto simp: pipelines_StartRun_def Let_def split: list.splits)
  have r: "pm_runs m1 (rn_ID r) = Some r" "rn_Tenant r = tenant" "rn_Status r = RunStatusRunning"
    "rn_PipelineID r = pid" "rn_CurrentStage r = int 0" "pm_pipelines m1 = pm_pipelines m"
    using assms(1,3) st by (auto simp: pipelines_StartRun_def Let_def)
  have "pm_pipelines m1 (rn_PipelineID r) = Some p" using assms(1) r
    by (auto simp: pipelines_GetPipeline_def split: option.splits if_splits)
  from advances_from [OF r(1) refl r(2,3) this r(5) _ assms(2), of ts P] assms(4) st
  have adv: "map stage_of (fst (advances P ts m1 tenant (rn_ID r))) = map Some ss @ [None]"
    "\<exists>r'. pm_runs (snd (advances P ts m1 tenant (rn_ID r))) (rn_ID r) = Some r' \<and> rn_Status r' = RunStatusDone"
    by simp_all
  have mf: "List.map_filter f xs = List.map_filter id (map f xs)" for f :: "'x \<Rightarrow> stage option" and xs
    by (induction xs) (simp_all split: option.split)
  have some: "List.map_filter id (map Some zs @ [None]) = zs" for zs :: "stage list"
    by (induction zs) simp_all
  have "fst (advances P ts m1 tenant (rn_ID r)) \<noteq> []" using adv(1) by auto
  then have "stage_of (last (fst (advances P ts m1 tenant (rn_ID r)))) = None"
    using adv(1) by (metis last_map last_snoc)
  with adv st show ?thesis by (simp add: mf [of stage_of] some)
qed

theorem run_visits_all_stages_witness:
  "\<exists>r m1. pipelines_StartRun (bolt_persister membolt) ex_pipes ''acme'' ''pipe-1'' None 5 = (Inr (r, ex_stage ''a''), m1) \<and>
     List.map_filter stage_of (fst (advances (bolt_persister membolt) [6, 7] m1 ''acme'' (rn_ID r))) = [ex_stage ''b'']"
proof -
  let ?P = "bolt_persister membolt"
  obtain r m1 where st: "pipelines_StartRun ?P ex_pipes ''acme'' ''pipe-1'' None 5 = (Inr (r, ex_stage ''a''), m1)"
    by (simp add: pipelines_StartRun_def pipelines_GetPipeline_def ex_pipes_def Let_def)
  let ?p = "the (pm_pipelines ex_pipes ''pipe-1'')"
  have p: "pipelines_GetPipeline ex_pipes ''acme'' ''pipe-1'' = Some ?p"
    by (simp add: pipelines_GetPipeline_def ex_pipes_def)
  have "p_Stages ?p = [ex_stage ''a'', ex_stage ''b'']" by (simp add: ex_pipes_def)
  with run_visits_all_stages [OF p _ st, of "[6, 7]"] st show ?thesis by auto
qed

text \<open>A finished run is frozen: whatever operation follows, a run that is not running keeps
  its status and its stage, and no operation removes it.\<close>

theorem finished_run_frozen:
  assumes "pipelines_inv m" "(pipelines_change P)\<^sup>*\<^sup>* m m'" "pm_runs m i = Some r" "rn_Status r \<noteq> RunStatusRunning"
  shows "\<exists>r'. pm_runs m' i = Some r' \<and> rn_Status r' = rn_Status r \<and> rn_CurrentStage r' = rn_CurrentStage r"
proof -
  let ?keeps = "\<lambda>z. pipelines_inv z \<and>
    (\<exists>r'. pm_runs z i = Some r' \<and> rn_Status r' = rn_Status r \<and> rn_CurrentStage r' = rn_CurrentStage r)"
  have "?keeps m'" using assms(2)
  proof (induction rule: rtranclp_induct)
    case base
    with assms show ?case by blast
  next
    case (step y z)
    then obtain r' where r': "pm_runs y i = Some r'" "rn_Status r' = rn_Status r" "rn_CurrentStage r' = rn_CurrentStage r"
      by blast
    have micro: "pipe_micro P y z" using step change_is_micro by blast
    then have "\<exists>q. pm_runs z i = Some q \<and> rn_Status q = rn_Status r \<and> rn_CurrentStage q = rn_CurrentStage r"
    proof cases
      case (new_run q)
      have "pm_runs y (rn_ID q) = None"
        using run_ids.fresh [of "dom (pm_runs y)" "pm_runCounter y"] new_run step(3)
        by (auto simp: pipelines_inv_def)
      with r' new_run show ?thesis by auto
    next
      case (put_run q r0)
      with r' assms(4) show ?thesis by (cases "i = rn_ID q") (auto simp: stage_next_def)
    qed (use r' in auto)
    with micro_pipelines_inv [OF micro] step show ?case by blast
  qed
  then show ?thesis by blast
qed

theorem finished_run_frozen_witness:
  "let r = \<lparr>rn_ID = ''prun-1'', rn_PipelineID = ''pipe-1'', rn_Tenant = ''acme'', rn_Status = RunStatusDone,
             rn_CurrentStage = 1, rn_JobIDs = [], rn_Input = None, rn_CreatedAt = 1, rn_UpdatedAt = 2\<rparr>;
       m = \<lparr>pm_pipelines = Map.empty, pm_runs = [''prun-1'' \<mapsto> r], pm_pipelineCounter = 1, pm_runCounter = 1,
            pm_store = (None :: memdb option)\<rparr>
   in \<exists>r'. pm_runs (snd (pipelines_AdvanceRun (bolt_persister membolt) m ''acme'' ''prun-1'' True 9)) ''prun-1'' = Some r' \<and>
        rn_Status r' = RunStatusDone"
proof -
  define r where "r = \<lparr>rn_ID = ''prun-1'', rn_PipelineID = ''pipe-1'', rn_Tenant = ''acme'', rn_Status = RunStatusDone,
    rn_CurrentStage = 1, rn_JobIDs = [], rn_Input = None, rn_CreatedAt = 1, rn_UpdatedAt = 2\<rparr>"
  define m where "m = \<lparr>pm_pipelines = Map.empty, pm_runs = [''prun-1'' \<mapsto> r], pm_pipelineCounter = 1, pm_runCounter = 1,
    pm_store = (None :: memdb option)\<rparr>"
  have "pipelines_inv m"
    by (auto simp: pipelines_inv_def m_def r_def parseRunNum_def parse_num_def scan_uint64_def is_digit_def
        is_space_def less_eq_char_def digits_val_def digit_val_def split: if_splits)
  moreover have "pm_runs m ''prun-1'' = Some r" "rn_Status r \<noteq> RunStatusRunning" by (simp_all add: m_def r_def)
  moreover have "(pipelines_change (bolt_persister membolt))\<^sup>*\<^sup>* m
      (snd (pipelines_AdvanceRun (bolt_persister membolt) m ''acme'' ''prun-1'' True 9))"
    by (rule r_into_rtranclp) (rule pipelines_change.advance)
  ultimately have "\<exists>r'. pm_runs (snd (pipelines_AdvanceRun (bolt_persister membolt) m ''acme'' ''prun-1'' True 9)) ''prun-1'' =
      Some r' \<and> rn_Status r' = rn_Status r \<and> rn_CurrentStage r' = rn_CurrentStage r"
    by (intro finished_run_frozen)
  then show ?thesis by (auto simp: Let_def m_def r_def)
qed

text \<open>A rejected update can still rename a pipeline: when the new stages are invalid the call
  returns the error, yet the new name is already in memory, while the store keeps the old
  record.\<close>

theorem rejected_update_renames:
  assumes "pipelines_GetPipeline m tenant i = Some p" "n \<noteq> []" "validateStages ss = Some e"
    and "pipelines_UpdatePipeline P m tenant i (Some n) (Some ss) = (res, m')"
  shows "res = Inl e \<and> pipelines_GetPipeline m' tenant i = Some (p\<lparr>p_Name := n\<rparr>) \<and> pm_store m' = pm_store m"
  using assms by (auto simp: pipelines_UpdatePipeline_def pipelines_GetPipeline_def Let_def split: option.splits if_splits)

theorem rejected_update_renames_witness:
  "\<exists>m'. pipelines_UpdatePipeline (bolt_persister membolt) ex_pipes ''acme'' ''pipe-1'' (Some ''x'') (Some []) =
     (Inl StagesRequired, m') \<and> (\<exists>p. pipelines_GetPipeline m' ''acme'' ''pipe-1'' = Some p \<and> p_Name p = ''x'')"
proof -
  obtain res m' where u: "pipelines_UpdatePipeline (bolt_persister membolt) ex_pipes ''acme'' ''pipe-1''
      (Some ''x'') (Some []) = (res, m')" by fastforce
  have "pipelines_GetPipeline ex_pipes ''acme'' ''pipe-1'' = Some (the (pm_pipelines ex_pipes ''pipe-1''))"
    by (simp add: pipelines_GetPipeline_def ex_pipes_def)
  from rejected_update_renames [OF this _ _ u, of StagesRequired] u show ?thesis
    by (simp add: validateStages_def)
qed


text \<open>Pipelines and runs survive a restart: after any run of the manager on a store whose
  writes succeed, loading a tenant into a fresh manager returns exactly that tenant's pipelines
  and runs, although both kinds of record share the tenant's bucket, and both counters are past
  the loaded identifiers.\<close>

theorem pipelines_survive_restart:
  assumes "bolt_ok B" "bolt_writes B" "\<forall>db. view_error B db = None" "has_bucket B db0 tenants_path"
    and "\<forall>t i. tenant_view B db0 t (pipelineKeyPrefix @ i) = None" "\<forall>t i. tenant_view B db0 t (runKeyPrefix @ i) = None"
    and "(pipelines_change (bolt_persister B))\<^sup>*\<^sup>* (pipelines_NewWithStore db0) m"
  shows "\<exists>db n m'. pm_store m = Some db \<and>
    pipelines_LoadFromStore (bolt_persister B) (pipelines_NewWithStore db) tenant = (Inr n, m') \<and>
    pm_pipelines m' = tenant_records p_Tenant norm_pipeline (pm_pipelines m) tenant \<and>
    pm_runs m' = tenant_records rn_Tenant norm_run (pm_runs m) tenant \<and>
    (\<forall>i \<in> dom (pm_pipelines m'). parsePipelineNum i \<le> pm_pipelineCounter m') \<and>
    (\<forall>i \<in> dom (pm_runs m'). parseRunNum i \<le> pm_runCounter m')"
proof -
  have "pipelines_inv (pipelines_NewWithStore db0)" by (simp add: pipelines_inv_def pipelines_NewWithStore_def)
  moreover have "pipelines_synced B (pipelines_NewWithStore db0)"
    by (simp add: pipelines_NewWithStore_def synced_new assms(4-6))
  ultimately have m: "pipelines_inv m" "pipelines_synced B m"
    using changes_pipelines [OF assms(7,1,2)] by blast+
  then obtain db where db: "pm_store m = Some db" by (auto simp: synced_def)
  have ve: "view_error B db = None" using assms(3) by blast
  have pid: "\<forall>i p. pm_pipelines m i = Some p \<longrightarrow> p_ID p = i \<and> True"
    using m(1) by (auto simp: pipelines_inv_def)
  have rid: "\<forall>i r. pm_runs m i = Some r \<longrightarrow> rn_ID r = i \<and> is_i64 (rn_CurrentStage r)"
  proof (intro allI impI)
    fix i r assume "pm_runs m i = Some r"
    with m(1) have "rn_ID r = i" "0 \<le> rn_CurrentStage r" "rn_CurrentStage r < 2 ^ 63 - 1"
      by (auto simp: pipelines_inv_def)
    then show "rn_ID r = i \<and> is_i64 (rn_CurrentStage r)" by (simp add: is_i64_def)
  qed
  obtain pkvs ps where p: "pScan (bolt_persister B) db tenant pipelineKeyPrefix = Inr pkvs"
    "ps = List.map_filter (\<lambda>kv. unmarshal_pipeline (snd kv)) pkvs"
    "load_records p_ID ps Map.empty = tenant_records p_Tenant norm_pipeline (pm_pipelines m) tenant"
    "p_ID ` set ps = dom (tenant_records p_Tenant norm_pipeline (pm_pipelines m) tenant)"
    using pipeline_codec.load_scan [OF assms(1) ve conjunct1 [OF m(2) [unfolded db]] pid, where t = tenant] by blast
  obtain rkvs rs where r: "pScan (bolt_persister B) db tenant runKeyPrefix = Inr rkvs"
    "rs = List.map_filter (\<lambda>kv. unmarshal_run (snd kv)) rkvs"
    "load_records rn_ID rs Map.empty = tenant_records rn_Tenant norm_run (pm_runs m) tenant"
    "rn_ID ` set rs = dom (tenant_records rn_Tenant norm_run (pm_runs m) tenant)"
    using run_codec.load_scan [OF assms(1) ve conjunct2 [OF m(2) [unfolded db]] rid, where t = tenant] by blast
  let ?m = "load_runs rs (load_pipelines ps (pipelines_NewWithStore db))"
  have load: "pipelines_LoadFromStore (bolt_persister B) (pipelines_NewWithStore db) tenant = (Inr (length ps, length rs), ?m)"
    using p(1,2) r(1,2) by (simp add: pipelines_LoadFromStore_def pipelines_NewWithStore_def Let_def)
  have maps: "pm_pipelines ?m = tenant_records p_Tenant norm_pipeline (pm_pipelines m) tenant"
    "pm_runs ?m = tenant_records rn_Tenant norm_run (pm_runs m) tenant"
    using p(3) r(3) by (simp_all add: load_pipelines_eq load_runs_eq pipelines_NewWithStore_def)
  have pc: "\<forall>i \<in> p_ID ` set ps. parsePipelineNum i \<le> pm_pipelineCounter ?m"
    using load_counter_bound [of 0 "\<lambda>p. parsePipelineNum (p_ID p)" ps]
    by (simp add: load_pipelines_eq load_runs_eq pipelines_NewWithStore_def)
  have rc: "\<forall>i \<in> rn_ID ` set rs. parseRunNum i \<le> pm_runCounter ?m"
    using load_counter_bound [of 0 "\<lambda>r. parseRunNum (rn_ID r)" rs]
    by (simp add: load_pipelines_eq load_runs_eq pipelines_NewWithStore_def)
  show ?thesis using pc rc p(4) r(4) maps load db
    by (intro exI [of _ db] exI [of _ "(length ps, length rs)"] exI [of _ ?m]) simp
qed

theorem pipelines_survive_restart_witness:
  "\<exists>db n m'. pipelines_LoadFromStore (bolt_persister membolt) (pipelines_NewWithStore db) ''acme'' = (Inr n, m') \<and>
     pm_pipelines m' ''pipe-1'' \<noteq> None"
proof -
  let ?P = "bolt_persister membolt" and ?start = "pipelines_NewWithStore mem0"
  let ?fin = "snd (pipelines_CreatePipeline ?P ?start ''acme'' ''etl'' [ex_stage ''a''] 3)"
  have "pipelines_change ?P ?start ?fin"
    by (rule pipelines_change.create) (simp_all add: pipelines_NewWithStore_def)
  then have run: "(pipelines_change ?P)\<^sup>*\<^sup>* ?start ?fin" by (rule r_into_rtranclp)
  have "\<exists>p. pm_pipelines ?fin ''pipe-1'' = Some p \<and> p_Tenant p = ''acme''"
    by (simp add: pipelines_CreatePipeline_def pipelines_NewWithStore_def validateStages_def ex_stage_def
        Let_def numbered_def show_nat.simps)
  with pipelines_survive_restart [OF membolt_ok membolt_reliable _ _ _ _ run, of "''acme''"] show ?thesis
    by (fastforce simp: tenant_records_def)
qed

end
