(* ===== verification/Events.thy ===== *)
theory Events
  imports JsonDoc
begin

text \<open>
  The event broker of \<^verbatim>\<open>pkg/events/events.go\<close>: fan-out to subscribers through
  bounded channels and a ring buffer of recent events. Channels are shared between the broker and
  the readers, so they live in a store of their own and the broker's map holds references.
  Publishing is one step, although the code takes two locks in turn.
\<close>

record event =
  ev_ID :: string
  ev_Type :: string
  ev_TenantID :: string
  ev_Timestamp :: instant
  ev_Data :: json

record channel =
  ch_buf :: "event list"
  ch_cap :: nat
  ch_closed :: bool

record broker =
  br_subscribers :: "string \<rightharpoonup> nat"
  br_chans :: "channel list"
  br_histBuf :: "event list"
  br_histHead :: nat
  br_histMax :: nat
  br_histCount :: int

definition zero_event :: event where
  "zero_event = \<lparr>ev_ID = [], ev_Type = [], ev_TenantID = [], ev_Timestamp = zero_time, ev_Data = JNull\<rparr>"

definition DefaultHistorySize :: int where "DefaultHistorySize = 256"

definition events_NewBrokerWithHistory :: "int \<Rightarrow> broker" where
  "events_NewBrokerWithHistory historySize =
     (let n = (if historySize < 0 then 0 else nat historySize)
      in \<lparr>br_subscribers = Map.empty, br_chans = [], br_histBuf = replicate n zero_event,
          br_histHead = 0, br_histMax = n, br_histCount = 0\<rparr>)"

definition events_NewBroker :: broker where
  "events_NewBroker = events_NewBrokerWithHistory DefaultHistorySize"

definition events_Subscribe :: "broker \<Rightarrow> string \<Rightarrow> int \<Rightarrow> nat \<times> broker" where
  "events_Subscribe b i bufSize =
     (let cap = (if bufSize \<le> 0 then 64 else nat bufSize);
          ref = length (br_chans b)
      in (ref, b\<lparr>br_chans := br_chans b @ [\<lparr>ch_buf = [], ch_cap = cap, ch_closed = False\<rparr>],
                 br_subscribers := (br_subscribers b)(i \<mapsto> ref)\<rparr>))"

definition events_Unsubscribe :: "broker \<Rightarrow> string \<Rightarrow> broker" where
  "events_Unsubscribe b i =
     (case br_subscribers b i of None \<Rightarrow> b
      | Some ref \<Rightarrow> b\<lparr>br_chans := (br_chans b)[ref := (br_chans b ! ref)\<lparr>ch_closed := True\<rparr>],
                      br_subscribers := (br_subscribers b)(i := None)\<rparr>)"

text \<open>The fields filled in: the time, and eight random bytes in hexadecimal, \<open>rnd\<close>.\<close>

definition stamp :: "event \<Rightarrow> instant \<Rightarrow> string \<Rightarrow> event" where
  "stamp e now rnd = e\<lparr>ev_Timestamp := (if ev_Timestamp e = zero_time then now else ev_Timestamp e),
     ev_ID := (if ev_ID e = [] then rnd else ev_ID e)\<rparr>"

definition ring_append :: "event \<Rightarrow> broker \<Rightarrow> broker" where
  "ring_append e b =
     (if br_histMax b > 0
      then b\<lparr>br_histBuf := (br_histBuf b)[br_histHead b := e],
             br_histHead := (br_histHead b + 1) mod br_histMax b,
             br_histCount := i64 (br_histCount b + 1)\<rparr>
      else b)"

text \<open>The non-blocking send: the event is dropped when the buffer is full.\<close>

definition try_send :: "event \<Rightarrow> channel \<Rightarrow> channel" where
  "try_send e c = (if length (ch_buf c) < ch_cap c then c\<lparr>ch_buf := ch_buf c @ [e]\<rparr> else c)"

fun fan_out :: "event \<Rightarrow> (string \<rightharpoonup> nat) \<Rightarrow> string list \<Rightarrow> channel list \<Rightarrow> channel list" where
  "fan_out e subs [] cs = cs"
| "fan_out e subs (k # ks) cs =
     fan_out e subs ks (case subs k of None \<Rightarrow> cs | Some ref \<Rightarrow> cs[ref := try_send e (cs ! ref)])"

definition events_Publish :: "broker \<Rightarrow> event \<Rightarrow> string list \<Rightarrow> instant \<Rightarrow> string \<Rightarrow> broker" where
  "events_Publish b e ks now rnd =
     (let ev = stamp e now rnd; b' = ring_append ev b
      in b'\<lparr>br_chans := fan_out ev (br_subscribers b) ks (br_chans b)\<rparr>)"

text \<open>\<open>History\<close>: the copying loop, with the indices of the code.\<close>

definition events_History :: "broker \<Rightarrow> int \<Rightarrow> event list" where
  "events_History b limit =
     (if br_histMax b = 0 \<or> br_histCount b = 0 then []
      else
        let filled = (if br_histCount b > int (br_histMax b) then int (br_histMax b) else br_histCount b);
            lim = (if limit \<le> 0 \<or> limit > filled then filled else limit)
        in map (\<lambda>j. let i = lim - 1 - int j
                    in br_histBuf b ! nat ((int (br_histHead b) - 1 - i + int (br_histMax b)) mod int (br_histMax b)))
             [0..<nat lim])"

definition events_SubscriberCount :: "broker \<Rightarrow> nat" where
  "events_SubscriberCount b = card (dom (br_subscribers b))"

section \<open>The ring buffer holds the latest events\<close>

text \<open>\<open>evs\<close> is everything published so far, oldest first.\<close>

definition ring_ok :: "broker \<Rightarrow> event list \<Rightarrow> bool" where
  "ring_ok b evs \<longleftrightarrow> length (br_histBuf b) = br_histMax b \<and> 0 < br_histMax b \<and>
     br_histHead b = length evs mod br_histMax b \<and> br_histCount b = int (length evs) \<and>
     (\<forall>p < length evs. length evs \<le> p + br_histMax b \<longrightarrow> br_histBuf b ! (p mod br_histMax b) = evs ! p)"

lemma ring_append_ok:
  assumes "ring_ok b evs" "int (length evs) < 2 ^ 63 - 1"
  shows "ring_ok (ring_append e b) (evs @ [e])"
proof -
  let ?n = "br_histMax b" and ?l = "length evs"
  from assms have n: "0 < ?n" "length (br_histBuf b) = ?n" "br_histHead b = ?l mod ?n" "br_histCount b = int ?l"
    by (auto simp: ring_ok_def)
  have cnt: "i64 (int ?l + 1) = int (?l + 1)" using assms(2) by (subst i64_id) (auto simp: is_i64_def)
  have "(br_histBuf b)[?l mod ?n := e] ! (p mod ?n) = (evs @ [e]) ! p"
    if p: "p < ?l + 1" "?l + 1 \<le> p + ?n" for p
  proof (cases "p = ?l")
    case True
    with n show ?thesis by simp
  next
    case False
    with p have "p < ?l" "?l - p < ?n" by auto
    then have "p mod ?n \<noteq> ?l mod ?n"
      by (metis mod_eq_dvd_iff_nat less_imp_le nat_dvd_not_less zero_less_diff)
    moreover have "br_histBuf b ! (p mod ?n) = evs ! p" using assms(1) p \<open>p < ?l\<close> by (simp add: ring_ok_def)
    ultimately show ?thesis using \<open>p < ?l\<close> by (simp add: nth_append)
  qed
  with n cnt show ?thesis by (simp add: ring_ok_def ring_append_def mod_Suc_eq)
qed

lemma ring_new: "0 < n \<Longrightarrow> ring_ok (events_NewBrokerWithHistory n) []"
  by (simp add: ring_ok_def events_NewBrokerWithHistory_def Let_def)

lemma ring_history:
  assumes "ring_ok b evs"
  shows "events_History b limit =
    (let filled = min (length evs) (br_histMax b); lim = (if limit \<le> 0 \<or> limit > int filled then filled else nat limit)
     in drop (length evs - lim) evs)"
proof (cases "evs = []")
  case True
  with assms show ?thesis by (simp add: ring_ok_def events_History_def Let_def)
next
  case False
  let ?n = "br_histMax b" and ?l = "length evs"
  from assms have n: "0 < ?n" "br_histHead b = ?l mod ?n" "br_histCount b = int ?l" by (auto simp: ring_ok_def)
  define lim where "lim = (if limit \<le> 0 \<or> limit > int (min ?l ?n) then min ?l ?n else nat limit)"
  have lim: "lim \<le> ?l" "lim \<le> ?n" by (auto simp: lim_def)
  have filled: "(if int ?l > int ?n then int ?n else int ?l) = int (min ?l ?n)" by simp
  have limi: "(if limit \<le> 0 \<or> limit > int (min ?l ?n) then int (min ?l ?n) else limit) = int lim"
    by (auto simp: lim_def)
  have idx: "br_histBuf b ! nat ((int (?l mod ?n) - 1 - (int lim - 1 - int j) + int ?n) mod int ?n) = evs ! (?l - lim + j)"
    if j: "j < lim" for j
  proof -
    have "(int (?l mod ?n) - 1 - (int lim - 1 - int j) + int ?n) mod int ?n = int ((?l - lim + j) mod ?n)"
    proof -
      have "(int (?l mod ?n) - 1 - (int lim - 1 - int j) + int ?n) mod int ?n =
          (int ?l - int lim + int j) mod int ?n"
        by (simp add: zmod_int) (metis add_diff_eq diff_add_eq mod_add_left_eq mod_diff_left_eq)
      also have "int ?l - int lim + int j = int (?l - lim + j)" using lim by simp
      finally show ?thesis by (simp add: zmod_int)
    qed
    moreover have "br_histBuf b ! ((?l - lim + j) mod ?n) = evs ! (?l - lim + j)"
      using assms j lim by (auto simp: ring_ok_def)
    ultimately show ?thesis by (simp only: nat_int)
  qed
  have "(br_histMax b = 0 \<or> int ?l = 0) = False" using False n by simp
  then have "events_History b limit = map (\<lambda>j. br_histBuf b !
      nat ((int (?l mod ?n) - 1 - (int lim - 1 - int j) + int ?n) mod int ?n)) [0..<lim]"
    unfolding events_History_def Let_def n(2,3) filled limi by (simp only: if_False nat_int)
  also have "\<dots> = map (\<lambda>j. evs ! (?l - lim + j)) [0..<lim]" by (intro map_cong refl idx) simp
  also have "\<dots> = drop (?l - lim) evs" using lim by (intro nth_equalityI) simp_all
  finally show ?thesis by (simp add: Let_def lim_def)
qed


section \<open>Delivery\<close>

lemma fan_out_length [simp]: "length (fan_out e subs ks cs) = length cs"
  by (induction ks arbitrary: cs) (auto split: option.split)

lemma fan_out_other: "(\<forall>k \<in> set ks. subs k \<noteq> Some r) \<Longrightarrow> fan_out e subs ks cs ! r = cs ! r"
  by (induction ks arbitrary: cs) (auto split: option.split)

lemma fan_out_sub:
  "distinct ks \<Longrightarrow> inj_on subs (dom subs) \<Longrightarrow> i \<in> set ks \<Longrightarrow> subs i = Some r \<Longrightarrow> r < length cs \<Longrightarrow>
     fan_out e subs ks cs ! r = try_send e (cs ! r)"
proof (induction ks arbitrary: cs)
  case (Cons k ks)
  show ?case
  proof (cases "k = i")
    case True
    then have "\<forall>j \<in> set ks. subs j \<noteq> Some r" using Cons.prems
      by (metis distinct.simps(2) domI inj_onD)
    with True Cons.prems show ?thesis by (simp add: fan_out_other)
  next
    case False
    with Cons.prems have "subs k \<noteq> Some r" by (metis domI inj_onD)
    with False Cons show ?thesis by (auto split: option.split)
  qed
qed simp

text \<open>A broker's references are valid and no two subscribers share a channel.\<close>

definition subs_ok :: "broker \<Rightarrow> bool" where
  "subs_ok b \<longleftrightarrow> inj_on (br_subscribers b) (dom (br_subscribers b)) \<and>
     (\<forall>i r. br_subscribers b i = Some r \<longrightarrow> r < length (br_chans b) \<and> \<not> ch_closed (br_chans b ! r))"

lemma ring_append_subs [simp]: "br_subscribers (ring_append e b) = br_subscribers b"
  by (simp add: ring_append_def)

text \<open>Publishing a list of requests: the event, the visiting order, the instant, the random part.\<close>

definition publish_all :: "(event \<times> string list \<times> instant \<times> string) list \<Rightarrow> broker \<Rightarrow> broker" where
  "publish_all reqs b = fold (\<lambda>(e, ks, now, rnd) b. events_Publish b e ks now rnd) reqs b"

definition stamped :: "(event \<times> string list \<times> instant \<times> string) list \<Rightarrow> event list" where
  "stamped reqs = map (\<lambda>(e, ks, now, rnd). stamp e now rnd) reqs"

lemma publish_all_simps [simp]:
  "publish_all [] b = b"
  "publish_all ((e, ks, now, rnd) # reqs) b = publish_all reqs (events_Publish b e ks now rnd)"
  by (simp_all add: publish_all_def)

lemma stamped_simps [simp]: "stamped [] = []"
  "stamped ((e, ks, now, rnd) # reqs) = stamp e now rnd # stamped reqs"
  by (simp_all add: stamped_def)

lemma ring_publish:
  "ring_ok b evs \<Longrightarrow> int (length evs) < 2 ^ 63 - 1 \<Longrightarrow> ring_ok (events_Publish b e ks now rnd) (evs @ [stamp e now rnd])"
  using ring_append_ok [of b evs "stamp e now rnd"] by (simp add: events_Publish_def Let_def ring_ok_def)

lemma ring_publish_all:
  "ring_ok b evs \<Longrightarrow> int (length evs + length reqs) < 2 ^ 63 \<Longrightarrow> ring_ok (publish_all reqs b) (evs @ stamped reqs)"
proof (induction reqs arbitrary: b evs)
  case (Cons rq reqs)
  obtain e ks now rnd where rq: "rq = (e, ks, now, rnd)" by (cases rq)
  have "ring_ok (events_Publish b e ks now rnd) (evs @ [stamp e now rnd])"
    using Cons.prems by (intro ring_publish) simp_all
  from Cons.IH [OF this] Cons.prems(2) rq show ?case by simp
qed simp

lemma histMax_publish_all: "br_histMax (publish_all reqs b) = br_histMax b"
proof (induction reqs arbitrary: b)
  case (Cons rq reqs)
  then show ?case by (cases rq) (simp add: events_Publish_def ring_append_def Let_def)
qed simp

lemma deliver_all:
  assumes "inj_on (br_subscribers b) (dom (br_subscribers b))" "br_subscribers b i = Some r" "r < length (br_chans b)"
    and "\<forall>(e, ks, now, rnd) \<in> set reqs. iter_order (br_subscribers b) ks" "length (ch_buf (br_chans b ! r)) \<le> ch_cap (br_chans b ! r)"
  shows "ch_buf (br_chans (publish_all reqs b) ! r) =
    take (ch_cap (br_chans b ! r)) (ch_buf (br_chans b ! r) @ stamped reqs)"
  using assms
proof (induction reqs arbitrary: b)
  case (Cons rq reqs)
  obtain e ks now rnd where rq: "rq = (e, ks, now, rnd)" by (cases rq)
  let ?b = "events_Publish b e ks now rnd" and ?c = "br_chans b ! r"
  have ks: "distinct ks" "i \<in> set ks" using Cons.prems(2,4) rq by (auto simp: iter_order_def)
  have subs: "br_subscribers ?b = br_subscribers b" by (simp add: events_Publish_def Let_def)
  have c: "br_chans ?b ! r = try_send (stamp e now rnd) ?c"
    using fan_out_sub [OF ks(1) Cons.prems(1) ks(2) Cons.prems(2,3)] by (simp add: events_Publish_def Let_def)
  have "ch_buf (br_chans (publish_all reqs ?b) ! r) =
      take (ch_cap (br_chans ?b ! r)) (ch_buf (br_chans ?b ! r) @ stamped reqs)"
    using Cons.prems rq by (intro Cons.IH)
      (auto simp: subs c try_send_def, simp add: events_Publish_def Let_def)
  then show ?case using Cons.prems(5) rq by (auto simp: c try_send_def take_Cons')
qed simp

section \<open>Properties\<close>

text \<open>The history is exactly the latest events, oldest first: after publishing any sequence of
  events on a broker with room for n, asking for at most k returns the last k of those (all that
  are retained for k not positive), with the identifiers and times they were published with.\<close>

theorem history_is_latest:
  assumes "0 < n" "int (length reqs) < 2 ^ 63"
  shows "events_History (publish_all reqs (events_NewBrokerWithHistory n)) limit =
    (let filled = min (length reqs) (nat n);
         k = (if limit \<le> 0 \<or> limit > int filled then filled else nat limit)
     in drop (length reqs - k) (stamped reqs))"
proof -
  let ?b = "publish_all reqs (events_NewBrokerWithHistory n)"
  have "ring_ok ?b ([] @ stamped reqs)" using ring_publish_all [OF ring_new [OF assms(1)]] assms(2) by simp
  moreover have "br_histMax ?b = nat n"
    using assms(1) by (simp add: histMax_publish_all events_NewBrokerWithHistory_def Let_def)
  ultimately show ?thesis using ring_history [of ?b "stamped reqs" limit] by (simp add: stamped_def)
qed

definition ex_event :: "string \<Rightarrow> event" where
  "ex_event i = \<lparr>ev_ID = i, ev_Type = ''t'', ev_TenantID = [], ev_Timestamp = 7, ev_Data = JNull\<rparr>"

theorem history_is_latest_witness:
  "events_History (publish_all [(ex_event ''1'', [], 9, []), (ex_event ''2'', [], 9, []), (ex_event ''3'', [], 9, [])]
     (events_NewBrokerWithHistory 2)) 0 = [ex_event ''2'', ex_event ''3'']"
  using history_is_latest [of 2 "[(ex_event ''1'', [], 9, []), (ex_event ''2'', [], 9, []), (ex_event ''3'', [], 9, [])]" 0]
  by (simp add: stamped_def stamp_def ex_event_def zero_time_def Let_def)

text \<open>A subscriber that does not read receives the first events that fit its buffer, in the
  order they were published, and nothing else; other subscribers do not slow or reorder it.\<close>

theorem subscriber_gets_prefix:
  assumes "inj_on (br_subscribers b) (dom (br_subscribers b))" "br_subscribers b i = Some r"
    and "r < length (br_chans b)" "ch_buf (br_chans b ! r) = []"
    and "\<forall>(e, ks, now, rnd) \<in> set reqs. iter_order (br_subscribers b) ks"
  shows "ch_buf (br_chans (publish_all reqs b) ! r) = take (ch_cap (br_chans b ! r)) (stamped reqs)"
  using deliver_all [OF assms(1-3,5)] assms(4) by simp

theorem subscriber_gets_prefix_witness:
  "let b = snd (events_Subscribe (events_NewBrokerWithHistory 0) ''s'' 1)
   in ch_buf (br_chans (publish_all [(ex_event ''1'', [''s''], 9, []), (ex_event ''2'', [''s''], 9, [])] b) ! 0) = [ex_event ''1'']"
proof -
  let ?b = "snd (events_Subscribe (events_NewBrokerWithHistory 0) ''s'' 1)"
  let ?reqs = "[(ex_event ''1'', [''s''], 9, []), (ex_event ''2'', [''s''], 9, [])]"
  have b: "br_subscribers ?b = [''s'' \<mapsto> 0]" "br_chans ?b = [\<lparr>ch_buf = [], ch_cap = 1, ch_closed = False\<rparr>]"
    by (simp_all add: events_Subscribe_def events_NewBrokerWithHistory_def Let_def)
  have "ch_buf (br_chans (publish_all ?reqs ?b) ! 0) = take (ch_cap (br_chans ?b ! 0)) (stamped ?reqs)"
    by (rule subscriber_gets_prefix [of ?b "''s''" 0 ?reqs]) (simp_all add: b iter_order_def)
  then show ?thesis by (simp add: Let_def b stamped_def stamp_def ex_event_def zero_time_def)
qed

end
