(* ===== verification/Crypto.thy ===== *)
theory Crypto
  imports GoPrelude
begin

text \<open>
  Hashing and signatures. SHA-256 (\<^verbatim>\<open>crypto/sha256\<close>) and HMAC
  (\<^verbatim>\<open>crypto/hmac\<close>) are written out on byte strings, as is their lower-case
  hexadecimal form. The byte-wise comparison that the repository repeats in
  \<^verbatim>\<open>cmd/spectral-cloud/main.go\<close>, \<^verbatim>\<open>pkg/mesh/mesh.go\<close>,
  \<^verbatim>\<open>pkg/blockchain/blockchain.go\<close> and \<^verbatim>\<open>pkg/webhook/webhook.go\<close>
  is shown to be equality once and for all; the theory ends with the webhook signatures.
\<close>

unbundle bit_operations_syntax

section \<open>SHA-256\<close>

type_synonym w32 = "32 word"

definition sha_k :: "w32 list" where
  "sha_k =
    [0x428a2f98, 0x71374491, 0xb5c0fbcf, 0xe9b5dba5, 0x3956c25b, 0x59f111f1, 0x923f82a4, 0xab1c5ed5,
     0xd807aa98, 0x12835b01, 0x243185be, 0x550c7dc3, 0x72be5d74, 0x80deb1fe, 0x9bdc06a7, 0xc19bf174,
     0xe49b69c1, 0xefbe4786, 0x0fc19dc6, 0x240ca1cc, 0x2de92c6f, 0x4a7484aa, 0x5cb0a9dc, 0x76f988da,
     0x983e5152, 0xa831c66d, 0xb00327c8, 0xbf597fc7, 0xc6e00bf3, 0xd5a79147, 0x06ca6351, 0x14292967,
     0x27b70a85, 0x2e1b2138, 0x4d2c6dfc, 0x53380d13, 0x650a7354, 0x766a0abb, 0x81c2c92e, 0x92722c85,
     0xa2bfe8a1, 0xa81a664b, 0xc24b8b70, 0xc76c51a3, 0xd192e819, 0xd6990624, 0xf40e3585, 0x106aa070,
     0x19a4c116, 0x1e376c08, 0x2748774c, 0x34b0bcb5, 0x391c0cb3, 0x4ed8aa4a, 0x5b9cca4f, 0x682e6ff3,
     0x748f82ee, 0x78a5636f, 0x84c87814, 0x8cc70208, 0x90befffa, 0xa4506ceb, 0xbef9a3f7, 0xc67178f2]"

definition sha_init :: "w32 list" where
  "sha_init = [0x6a09e667, 0xbb67ae85, 0x3c6ef372, 0xa54ff53a, 0x510e527f, 0x9b05688c, 0x1f83d9ab, 0x5be0cd19]"

definition be_bytes :: "nat \<Rightarrow> nat \<Rightarrow> string" where
  "be_bytes k n = map (\<lambda>i. char_of (n div 256 ^ (k - 1 - i))) [0..<k]"

definition sha_pad :: "string \<Rightarrow> string" where
  "sha_pad m = m @ [CHR 0x80] @ replicate ((119 - length m mod 64) mod 64) (CHR 0x00) @ be_bytes 8 (8 * length m)"

fun word32s :: "string \<Rightarrow> w32 list" where
  "word32s (a # b # c # d # rest) =
     word_of_nat (((of_char a * 256 + of_char b) * 256 + of_char c) * 256 + of_char d) # word32s rest"
| "word32s _ = []"

fun chunks :: "nat \<Rightarrow> 'a list \<Rightarrow> 'a list list" where
  "chunks 0 xs = []"
| "chunks (Suc n) xs = (if xs = [] then [] else take 16 xs # chunks n (drop 16 xs))"

definition small_sigma0 :: "w32 \<Rightarrow> w32" where
  "small_sigma0 x = word_rotr 7 x XOR word_rotr 18 x XOR drop_bit 3 x"
definition small_sigma1 :: "w32 \<Rightarrow> w32" where
  "small_sigma1 x = word_rotr 17 x XOR word_rotr 19 x XOR drop_bit 10 x"
definition big_sigma0 :: "w32 \<Rightarrow> w32" where
  "big_sigma0 x = word_rotr 2 x XOR word_rotr 13 x XOR word_rotr 22 x"
definition big_sigma1 :: "w32 \<Rightarrow> w32" where
  "big_sigma1 x = word_rotr 6 x XOR word_rotr 11 x XOR word_rotr 25 x"

definition sha_schedule :: "w32 list \<Rightarrow> w32 list" where
  "sha_schedule w = fold (\<lambda>t w. w @ [small_sigma1 (w ! (t - 2)) + w ! (t - 7) + small_sigma0 (w ! (t - 15)) + w ! (t - 16)])
     [16..<64] w"

fun sha_round :: "w32 \<times> w32 \<Rightarrow> w32 list \<Rightarrow> w32 list" where
  "sha_round (k, w) [a, b, c, d, e, f, g, h] =
     (let t1 = h + big_sigma1 e + ((e AND f) XOR (NOT e AND g)) + k + w;
          t2 = big_sigma0 a + ((a AND b) XOR (a AND c) XOR (b AND c))
      in [t1 + t2, a, b, c, d + t1, e, f, g])"
| "sha_round _ st = st"

definition sha_block :: "w32 list \<Rightarrow> w32 list \<Rightarrow> w32 list" where
  "sha_block w st = map2 (+) st (fold sha_round (zip sha_k (sha_schedule w)) st)"

definition sha256 :: "string \<Rightarrow> string" where
  "sha256 m = (let ws = word32s (sha_pad m)
     in concat (map (\<lambda>x. be_bytes 4 (unat x)) (fold sha_block (chunks (length ws) ws) sha_init)))"

section \<open>HMAC and hexadecimal\<close>

definition byte_xor :: "nat \<Rightarrow> char \<Rightarrow> char" where
  "byte_xor n c = char_of (n XOR of_char c)"

definition hmac256 :: "string \<Rightarrow> string \<Rightarrow> string" where
  "hmac256 key m =
     (let k0 = (if length key > 64 then sha256 key else key);
          k = k0 @ replicate (64 - length k0) (CHR 0x00)
      in sha256 (map (byte_xor 0x5c) k @ sha256 (map (byte_xor 0x36) k @ m)))"

definition hex_digit :: "nat \<Rightarrow> char" where
  "hex_digit d = (if d < 10 then char_of (48 + d) else char_of (87 + d))"

definition hex :: "string \<Rightarrow> string" where
  "hex bs = concat (map (\<lambda>c. [hex_digit (of_char c div 16), hex_digit (of_char c mod 16)]) bs)"

lemma sha_round_length: "length (sha_round kw st) = length st"
  by (cases "(kw, st)" rule: sha_round.cases) (simp_all add: Let_def)

lemma sha_rounds_length: "length (fold sha_round kws st) = length st"
  by (induction kws arbitrary: st) (simp_all add: sha_round_length)

lemma sha_blocks_length: "length (fold sha_block ws st) = length st"
  by (induction ws arbitrary: st) (simp_all add: sha_block_def sha_rounds_length)

lemma sha256_length: "length (sha256 m) = 32"
proof -
  have "length (concat (map (\<lambda>x. be_bytes 4 (unat x)) ws)) = 4 * length ws" for ws :: "w32 list"
    by (induction ws) (simp_all add: be_bytes_def)
  then show ?thesis by (simp add: sha256_def Let_def sha_blocks_length sha_init_def)
qed

lemma hmac256_length: "length (hmac256 key m) = 32"
  by (simp add: hmac256_def Let_def sha256_length)

lemma hex_length: "length (hex bs) = 2 * length bs"
  by (induction bs) (simp_all add: hex_def)

lemma hex_digit_not_space: "n < 16 \<Longrightarrow> \<not> is_space (hex_digit n)"
proof -
  have "\<forall>n \<in> set [0..<16]. \<not> is_space (hex_digit n)" by code_simp
  then show "n < 16 \<Longrightarrow> \<not> is_space (hex_digit n)" by auto
qed

lemma hex_no_space: "\<forall>c \<in> set (hex bs). \<not> is_space c"
proof
  fix c assume "c \<in> set (hex bs)"
  then obtain b :: char where "c = hex_digit (of_char b div 16) \<or> c = hex_digit (of_char b mod 16)"
    by (auto simp: hex_def)
  moreover have "(of_char b :: nat) div 16 < 16" for b by (rule less_mult_imp_div_less) simp
  ultimately show "\<not> is_space c" using hex_digit_not_space by fastforce
qed

lemma hex_hmac_not_blank: "\<not> blank (hex (hmac256 key m))"
proof -
  have "hex (hmac256 key m) \<noteq> []" using hex_length [of "hmac256 key m"] by (auto simp: hmac256_length)
  then have "hd (hex (hmac256 key m)) \<in> set (hex (hmac256 key m))" by simp
  then show ?thesis using hex_no_space unfolding blank_iff by blast
qed

section \<open>Comparison in constant time\<close>

definition byte_of :: "char \<Rightarrow> 8 word" where
  "byte_of c = word_of_nat (of_char c)"

text \<open>The loop \<^verbatim>\<open>for i := 0; i < len(a); i++ { out |= a[i] ^ b[i] }\<close> on strings of
  the same length.\<close>

fun ct_diff :: "string \<Rightarrow> string \<Rightarrow> 8 word \<Rightarrow> 8 word" where
  "ct_diff (a # as) (b # bs) out = ct_diff as bs (out OR (byte_of a XOR byte_of b))"
| "ct_diff _ _ out = out"

definition secureEquals :: "string \<Rightarrow> string \<Rightarrow> bool" where
  "secureEquals a b = (if length a \<noteq> length b then False else ct_diff a b 0 = 0)"

lemma byte_of_inject: "byte_of a = byte_of b \<longleftrightarrow> a = b"
proof
  assume eq: "byte_of a = byte_of b"
  have "unat (byte_of c) = (of_char c :: nat)" for c
  proof -
    have "(of_char c :: nat) < 256" by simp
    then show ?thesis unfolding byte_of_def by (simp add: unsigned_of_nat take_bit_nat_eq_self)
  qed
  with eq have "(of_char a :: nat) = of_char b" by metis
  then show "a = b" by simp
qed simp

lemma xor_zero: "(x :: 8 word) XOR y = 0 \<longleftrightarrow> x = y"
  by (auto simp: bit_eq_iff bit_xor_iff)

lemma ct_diff_zero: "length as = length bs \<Longrightarrow> ct_diff as bs out = 0 \<longleftrightarrow> out = 0 \<and> as = bs"
  by (induction as bs arbitrary: out rule: list_induct2) (auto simp: xor_zero byte_of_inject or_eq_0_iff)

lemma secureEquals_iff [simp]: "secureEquals a b \<longleftrightarrow> a = b"
  by (auto simp: secureEquals_def ct_diff_zero)

section \<open>Webhook signatures\<close>

definition webhook_sign :: "string \<Rightarrow> string \<Rightarrow> string" where
  "webhook_sign body secret = hex (hmac256 secret body)"

definition webhook_VerifySignature :: "string \<Rightarrow> string \<Rightarrow> string \<Rightarrow> bool" where
  "webhook_VerifySignature signatureHeader body secret =
     (if \<not> prefix ''sha256='' signatureHeader then False
      else
        let provided = drop (length ''sha256='') signatureHeader;
            expected = webhook_sign body secret
        in if length provided \<noteq> length expected then False else ct_diff provided expected 0 = 0)"

lemma prefix_strip: "s = p @ t \<longleftrightarrow> prefix p s \<and> drop (length p) s = t"
  by (auto simp: prefix_def)

text \<open>A webhook signature header is accepted exactly when it is the prefix sha256= followed by
  the lower-case hexadecimal HMAC-SHA256 of the body under the secret.\<close>

theorem webhook_signature_exact:
  "webhook_VerifySignature header body secret \<longleftrightarrow> header = ''sha256='' @ hex (hmac256 secret body)"
  unfolding prefix_strip webhook_VerifySignature_def webhook_sign_def Let_def
    secureEquals_def [symmetric] secureEquals_iff by simp

end
