(* ===== verification/JsonText.thy ===== *)
theory JsonText
  imports JsonDoc Crypto
begin

text \<open>
  The bytes \<^verbatim>\<open>json.Marshal\<close> writes, for the records whose encoding is signed. Strings are
  quoted as \<^verbatim>\<open>encoding/json\<close> does by default: the quote, the backslash and the control
  characters are escaped, and so are the three HTML characters; a byte that is not part of a valid
  UTF-8 sequence becomes the escape of the replacement character.
\<close>

definition show_int :: "int \<Rightarrow> string" where
  "show_int i = (if i < 0 then ''-'' @ show_nat (nat (- i)) else show_nat (nat i))"

definition byte_in :: "nat \<Rightarrow> nat \<Rightarrow> string \<Rightarrow> nat \<Rightarrow> bool" where
  "byte_in lo hi s i \<longleftrightarrow> i < length s \<and> lo \<le> of_char (s ! i) \<and> of_char (s ! i) \<le> hi"

text \<open>The length of the valid UTF-8 sequence at the front of a string that starts with a byte above
  127, or 0.\<close>

definition utf8_len :: "string \<Rightarrow> nat" where
  "utf8_len s =
     (let b = (of_char (hd s) :: nat); cont = byte_in 128 191 s
      in if 194 \<le> b \<and> b \<le> 223 then (if cont 1 then 2 else 0)
         else if 224 \<le> b \<and> b \<le> 239 then
           (if byte_in (if b = 224 then 160 else 128) (if b = 237 then 159 else 191) s 1 \<and> cont 2 then 3 else 0)
         else if 240 \<le> b \<and> b \<le> 244 then
           (if byte_in (if b = 240 then 144 else 128) (if b = 244 then 143 else 191) s 1 \<and> cont 2 \<and> cont 3 then 4 else 0)
         else 0)"

definition bslash :: char where
  "bslash = CHR 0x5C"

definition esc_ascii :: "char \<Rightarrow> string" where
  "esc_ascii c =
     (if c = CHR 0x22 \<or> c = bslash then [bslash, c]
      else if c = CHR 0x08 then bslash # ''b''
      else if c = CHR 0x0C then bslash # ''f''
      else if c = CHR 0x0A then bslash # ''n''
      else if c = CHR 0x0D then bslash # ''r''
      else if c = CHR 0x09 then bslash # ''t''
      else if (of_char c :: nat) < 32 \<or> c = CHR ''<'' \<or> c = CHR ''>'' \<or> c = CHR ''&''
      then bslash # ''u00'' @ [hex_digit (of_char c div 16), hex_digit (of_char c mod 16)]
      else [c])"

function esc_string :: "string \<Rightarrow> string" where
  "esc_string [] = []"
| "esc_string (c # cs) =
     (if (of_char c :: nat) < 128 then esc_ascii c @ esc_string cs
      else
        let n = utf8_len (c # cs)
        in if n = 0 then (bslash # ''ufffd'') @ esc_string cs
           else if take 3 (c # cs) = [CHR 0xE2, CHR 0x80, CHR 0xA8] then (bslash # ''u2028'') @ esc_string (drop 2 cs)
           else if take 3 (c # cs) = [CHR 0xE2, CHR 0x80, CHR 0xA9] then (bslash # ''u2029'') @ esc_string (drop 2 cs)
           else take n (c # cs) @ esc_string (drop (n - 1) cs))"
  by pat_completeness auto
termination by (relation "measure length") auto

definition json_quote :: "string \<Rightarrow> string" where
  "json_quote s = [CHR 0x22] @ esc_string s @ [CHR 0x22]"

definition json_member :: "string \<Rightarrow> string \<Rightarrow> string" where
  "json_member k v = json_quote k @ '':'' @ v"

definition json_object :: "string list \<Rightarrow> string" where
  "json_object ms = ''{'' @ join '','' ms @ ''}''"

definition json_array :: "string list \<Rightarrow> string" where
  "json_array xs = ''['' @ join '','' xs @ '']''"

end
