(* ===== verification/Blockchain.thy ===== *)
theory Blockchain
  imports JsonText
begin

text \<open>
  The per-tenant chain of \<^verbatim>\<open>pkg/blockchain/blockchain.go\<close>, and the validation of
  transactions and of stored blocks in \<^verbatim>\<open>cmd/spectral-cloud/main.go\<close>.

  An amount is a float64, kept as its 64 bits. How \<^verbatim>\<open>fmt\<close> prints a float64 is a
  parameter \<open>ff\<close> of the definitions; every theorem holds for any such function. The
  formatted current time is an argument. A chain is the list of its blocks; the code never stores
  a nil block.
\<close>

section \<open>Data\<close>

type_synonym float64 = "64 word"

record transaction =
  tx_Sender :: string
  tx_Recipient :: string
  tx_Amount :: float64

record block =
  bk_Index :: int
  bk_Timestamp :: string
  bk_Transactions :: "transaction list"
  bk_PreviousHash :: string
  bk_Hash :: string
  bk_Signature :: string

type_synonym chain = "block list"

section \<open>Hashing\<close>

text \<open>\<^verbatim>\<open>%v\<close> of a slice of structs: braces around the fields, brackets around the
  elements, single blanks between them.\<close>

definition show_tx :: "(float64 \<Rightarrow> string) \<Rightarrow> transaction \<Rightarrow> string" where
  "show_tx ff t = ''{'' @ join '' '' [tx_Sender t, tx_Recipient t, ff (tx_Amount t)] @ ''}''"

definition show_txs :: "(float64 \<Rightarrow> string) \<Rightarrow> transaction list \<Rightarrow> string" where
  "show_txs ff ts = ''['' @ join '' '' (map (show_tx ff) ts) @ '']''"

definition calculateHash :: "(float64 \<Rightarrow> string) \<Rightarrow> int \<Rightarrow> string \<Rightarrow> transaction list \<Rightarrow> string" where
  "calculateHash ff index timestamp transactions =
     hex (sha256 (show_int index @ timestamp @ show_txs ff transactions))"

definition bc_Verify :: "(float64 \<Rightarrow> string) \<Rightarrow> block \<Rightarrow> bool" where
  "bc_Verify ff b \<longleftrightarrow> bk_Hash b = calculateHash ff (bk_Index b) (bk_Timestamp b) (bk_Transactions b)"

definition SignBlock :: "block \<Rightarrow> string \<Rightarrow> string \<times> block" where
  "SignBlock b signingKey =
     (if signingKey = [] then ([], b)
      else let sig = hex (hmac256 signingKey (bk_Hash b)) in (sig, b\<lparr>bk_Signature := sig\<rparr>))"

definition bc_VerifySignature :: "block \<Rightarrow> string \<Rightarrow> bool" where
  "bc_VerifySignature b signingKey =
     (if bk_Signature b = [] \<or> signingKey = [] then False
      else
        let expected = hex (hmac256 signingKey (bk_Hash b))
        in if length (bk_Signature b) \<noteq> length expected then False
           else ct_diff (bk_Signature b) expected 0 = 0)"

section \<open>The chain\<close>

definition createGenesisBlock :: "(float64 \<Rightarrow> string) \<Rightarrow> string \<Rightarrow> block" where
  "createGenesisBlock ff ts = \<lparr>bk_Index = 0, bk_Timestamp = ts, bk_Transactions = [], bk_PreviousHash = [],
     bk_Hash = calculateHash ff 0 ts [], bk_Signature = []\<rparr>"

definition NewBlockchain :: "(float64 \<Rightarrow> string) \<Rightarrow> string \<Rightarrow> chain" where
  "NewBlockchain ff ts = [createGenesisBlock ff ts]"

definition NewBlockchainFromBlocks :: "(float64 \<Rightarrow> string) \<Rightarrow> string \<Rightarrow> block list \<Rightarrow> chain" where
  "NewBlockchainFromBlocks ff ts blocks = (if blocks = [] then NewBlockchain ff ts else blocks)"

text \<open>Adding to an empty chain panics (\<open>None\<close>); no operation leaves a chain empty.\<close>

definition bc_AddBlock :: "(float64 \<Rightarrow> string) \<Rightarrow> chain \<Rightarrow> transaction list \<Rightarrow> string \<Rightarrow> (block \<times> chain) option" where
  "bc_AddBlock ff bc transactions ts =
     (if bc = [] then None
      else
        let previousBlock = last bc;
            newIndex = i64 (bk_Index previousBlock + 1);
            newBlock = \<lparr>bk_Index = newIndex, bk_Timestamp = ts, bk_Transactions = transactions,
              bk_PreviousHash = bk_Hash previousBlock,
              bk_Hash = calculateHash ff newIndex ts transactions, bk_Signature = []\<rparr>
        in Some (newBlock, bc @ [newBlock]))"

text \<open>The block is signed in place after it has been appended.\<close>

definition bc_AddSignedBlock ::
    "(float64 \<Rightarrow> string) \<Rightarrow> chain \<Rightarrow> transaction list \<Rightarrow> string \<Rightarrow> string \<Rightarrow> (block \<times> chain) option" where
  "bc_AddSignedBlock ff bc transactions signingKey ts =
     (case bc_AddBlock ff bc transactions ts of None \<Rightarrow> None
      | Some (b, bc') \<Rightarrow>
          if signingKey \<noteq> [] then
            let b' = snd (SignBlock b signingKey) in Some (b', bc'[length bc' - 1 := b'])
          else Some (b, bc'))"

definition bc_Height :: "chain \<Rightarrow> nat" where
  "bc_Height bc = length bc"

definition bc_LastBlock :: "chain \<Rightarrow> block option" where
  "bc_LastBlock bc = (if bc = [] then None else Some (last bc))"

definition bc_Snapshot :: "chain \<Rightarrow> block list" where
  "bc_Snapshot bc = bc"

definition bc_RemoveLastBlock :: "chain \<Rightarrow> chain" where
  "bc_RemoveLastBlock bc = (if length bc \<le> 1 then bc else butlast bc)"

definition bc_GetBlock :: "chain \<Rightarrow> int \<Rightarrow> block option" where
  "bc_GetBlock bc index = (if index < 0 \<or> index \<ge> int (length bc) then None else Some (bc ! nat index))"

definition bc_BlockRange :: "chain \<Rightarrow> int \<Rightarrow> int \<Rightarrow> block list" where
  "bc_BlockRange bc start end' =
     (let s = (if start < 0 then 0 else start);
          e = (if end' > int (length bc) then int (length bc) else end')
      in if s \<ge> e then [] else take (nat (e - s)) (drop (nat s) bc))"

text \<open>The loop of \<open>VerifyChain\<close>, from position \<open>i\<close> on, with the block before it.\<close>

fun verify_from :: "(float64 \<Rightarrow> string) \<Rightarrow> nat \<Rightarrow> block option \<Rightarrow> chain \<Rightarrow> int \<times> bool" where
  "verify_from ff i prev [] = (-1, True)"
| "verify_from ff i prev (b # bs) =
     (if \<not> bc_Verify ff b then (int i, False)
      else if (case prev of None \<Rightarrow> False | Some p \<Rightarrow> bk_PreviousHash b \<noteq> bk_Hash p) then (int i, False)
      else verify_from ff (i + 1) (Some b) bs)"

definition bc_VerifyChain :: "(float64 \<Rightarrow> string) \<Rightarrow> chain \<Rightarrow> int \<times> bool" where
  "bc_VerifyChain ff bc = verify_from ff 0 None bc"

definition tx_match :: "string \<Rightarrow> string \<Rightarrow> transaction \<Rightarrow> bool" where
  "tx_match sender recipient t \<longleftrightarrow> (sender = [] \<or> tx_Sender t = sender) \<and> (recipient = [] \<or> tx_Recipient t = recipient)"

definition bc_SearchTransactions :: "chain \<Rightarrow> string \<Rightarrow> string \<Rightarrow> block list" where
  "bc_SearchTransactions bc sender recipient = filter (\<lambda>b. list_ex (tx_match sender recipient) (bk_Transactions b)) bc"

definition bc_Load :: "(float64 \<Rightarrow> string) \<Rightarrow> string \<Rightarrow> block list \<Rightarrow> chain" where
  "bc_Load ff ts blocks = (if blocks = [] then [createGenesisBlock ff ts] else blocks)"

section \<open>Checks of the server\<close>

text \<open>\<^verbatim>\<open>tx.Amount < 0\<close> on the bits of a float64: negative, not minus zero, not NaN.\<close>

definition f64_negative :: "float64 \<Rightarrow> bool" where
  "f64_negative a \<longleftrightarrow> bit a 63 \<and> take_bit 63 a \<noteq> 0 \<and> take_bit 63 a \<le> 0x7FF0000000000000"

fun validate_txs :: "nat \<Rightarrow> transaction list \<Rightarrow> string option" where
  "validate_txs i [] = None"
| "validate_txs i (t # ts) =
     (if blank (tx_Sender t) \<or> blank (tx_Recipient t) then Some ''transaction sender and recipient must be set''
      else if f64_negative (tx_Amount t) then Some ''transaction amount must be non-negative''
      else if i \<ge> 1000 then Some ''too many transactions''
      else validate_txs (i + 1) ts)"

definition validateTransactions :: "transaction list \<Rightarrow> string option" where
  "validateTransactions txs = validate_txs 0 txs"

fun filter_valid :: "(float64 \<Rightarrow> string) \<Rightarrow> string \<Rightarrow> block list \<Rightarrow> block list" where
  "filter_valid ff previousHash [] = []"
| "filter_valid ff previousHash (b # bs) =
     (if \<not> bc_Verify ff b then []
      else if bk_Index b > 0 \<and> bk_PreviousHash b \<noteq> previousHash then []
      else b # filter_valid ff (bk_Hash b) bs)"

definition filterValidBlocks :: "(float64 \<Rightarrow> string) \<Rightarrow> block list \<Rightarrow> block list" where
  "filterValidBlocks ff blocks = filter_valid ff [] blocks"

section \<open>Valid chains\<close>

definition block_ok :: "(float64 \<Rightarrow> string) \<Rightarrow> chain \<Rightarrow> nat \<Rightarrow> bool" where
  "block_ok ff bc i \<longleftrightarrow> bc_Verify ff (bc ! i) \<and> (0 < i \<longrightarrow> bk_PreviousHash (bc ! i) = bk_Hash (bc ! (i - 1)))"

definition chain_ok :: "(float64 \<Rightarrow> string) \<Rightarrow> chain \<Rightarrow> bool" where
  "chain_ok ff bc \<longleftrightarrow> (\<forall>i < length bc. block_ok ff bc i)"

lemma verify_from_suffix:
  "verify_from ff (length pre) (if pre = [] then None else Some (last pre)) bs =
     (if \<forall>i < length bs. block_ok ff (pre @ bs) (length pre + i) then (-1, True)
      else (int (LEAST i. length pre \<le> i \<and> i < length pre + length bs \<and> \<not> block_ok ff (pre @ bs) i), False))"
proof (induction bs arbitrary: pre)
  case Nil
  then show ?case by simp
next
  case (Cons b bs)
  let ?n = "length pre"
  let ?prev = "if pre = [] then None else Some (last pre)"
  have head: "block_ok ff (pre @ b # bs) ?n \<longleftrightarrow>
      bc_Verify ff b \<and> \<not> (case ?prev of None \<Rightarrow> False | Some p \<Rightarrow> bk_PreviousHash b \<noteq> bk_Hash p)"
    by (cases pre rule: rev_cases) (auto simp: block_ok_def nth_append)
  show ?case
  proof (cases "block_ok ff (pre @ b # bs) ?n")
    case False
    then have "(LEAST i. ?n \<le> i \<and> i < ?n + length (b # bs) \<and> \<not> block_ok ff (pre @ b # bs) i) = ?n"
      by (intro Least_equality) auto
    moreover have "verify_from ff ?n ?prev (b # bs) = (int ?n, False)" using False head by auto
    moreover have "\<not> (\<forall>i < length (b # bs). block_ok ff (pre @ b # bs) (?n + i))" using False by force
    ultimately show ?thesis by simp
  next
    case True
    have "verify_from ff ?n ?prev (b # bs) = verify_from ff (length (pre @ [b])) (Some (last (pre @ [b]))) bs"
      using True head by simp
    also have "\<dots> = (if \<forall>i < length bs. block_ok ff (pre @ b # bs) (?n + 1 + i) then (-1, True)
        else (int (LEAST i. ?n + 1 \<le> i \<and> i < ?n + 1 + length bs \<and> \<not> block_ok ff (pre @ b # bs) i), False))"
      using Cons.IH [of "pre @ [b]"] by simp
    also have "(\<forall>i < length bs. block_ok ff (pre @ b # bs) (?n + 1 + i)) \<longleftrightarrow>
        (\<forall>i < length (b # bs). block_ok ff (pre @ b # bs) (?n + i))"
      using True by (auto simp: less_Suc_eq_0_disj)
    also have "(\<lambda>i. ?n + 1 \<le> i \<and> i < ?n + 1 + length bs \<and> \<not> block_ok ff (pre @ b # bs) i) =
        (\<lambda>i. ?n \<le> i \<and> i < ?n + length (b # bs) \<and> \<not> block_ok ff (pre @ b # bs) i)"
      using True by (intro ext) (auto simp: le_less Suc_le_eq)
    finally show ?thesis .
  qed
qed

lemma VerifyChain_eq:
  "bc_VerifyChain ff bc = (if chain_ok ff bc then (-1, True)
     else (int (LEAST i. i < length bc \<and> \<not> block_ok ff bc i), False))"
  using verify_from_suffix [of ff "[]" bc] by (simp add: bc_VerifyChain_def chain_ok_def)

lemma VerifyChain_ok: "bc_VerifyChain ff bc = (-1, True) \<longleftrightarrow> chain_ok ff bc"
  by (simp add: VerifyChain_eq)

lemma chain_ok_snoc:
  "chain_ok ff (bc @ [b]) \<longleftrightarrow> chain_ok ff bc \<and> bc_Verify ff b \<and> (bc \<noteq> [] \<longrightarrow> bk_PreviousHash b = bk_Hash (last bc))"
proof -
  have "block_ok ff (bc @ [b]) i = block_ok ff bc i" if "i < length bc" for i
    using that by (auto simp: block_ok_def nth_append)
  moreover have "block_ok ff (bc @ [b]) (length bc) \<longleftrightarrow> bc_Verify ff b \<and> (bc \<noteq> [] \<longrightarrow> bk_PreviousHash b = bk_Hash (last bc))"
    by (cases bc rule: rev_cases) (auto simp: block_ok_def nth_append)
  ultimately show ?thesis by (auto simp: chain_ok_def less_Suc_eq)
qed

lemma chain_ok_sign: "bc_Verify ff (snd (SignBlock b k)) = bc_Verify ff b"
  "bk_PreviousHash (snd (SignBlock b k)) = bk_PreviousHash b" "bk_Hash (snd (SignBlock b k)) = bk_Hash b"
  by (simp_all add: SignBlock_def bc_Verify_def Let_def)

text \<open>How a chain evolves.\<close>

inductive bc_step :: "(float64 \<Rightarrow> string) \<Rightarrow> chain \<Rightarrow> chain \<Rightarrow> bool" for ff where
  add: "bc_AddBlock ff bc txs ts = Some (b, bc') \<Longrightarrow> bc_step ff bc bc'"
| add_signed: "bc_AddSignedBlock ff bc txs key ts = Some (b, bc') \<Longrightarrow> bc_step ff bc bc'"
| remove: "bc_step ff bc (bc_RemoveLastBlock bc)"

lemma AddBlock_ok: "bc_AddBlock ff bc txs ts = Some (b, bc') \<Longrightarrow> chain_ok ff bc \<Longrightarrow>
    chain_ok ff bc' \<and> bc' = bc @ [b] \<and> bc_Verify ff b \<and> bk_PreviousHash b = bk_Hash (last bc)"
  by (auto simp: bc_AddBlock_def Let_def chain_ok_snoc bc_Verify_def split: if_splits)

lemma bc_step_ok: "bc_step ff bc bc' \<Longrightarrow> bc \<noteq> [] \<Longrightarrow> chain_ok ff bc \<Longrightarrow> bc' \<noteq> [] \<and> chain_ok ff bc'"
proof (induction rule: bc_step.induct)
  case (add bc txs ts b bc')
  then show ?case using AddBlock_ok by fastforce
next
  case (add_signed bc txs key ts b bc')
  then obtain b0 bc0 where a: "bc_AddBlock ff bc txs ts = Some (b0, bc0)"
    by (auto simp: bc_AddSignedBlock_def split: option.splits)
  note ok = AddBlock_ok [OF a add_signed(3)]
  with a add_signed(1) have "bc' = bc @ [b0] \<or> bc' = bc @ [snd (SignBlock b0 key)]"
    by (auto simp: bc_AddSignedBlock_def Let_def split: if_splits)
  with ok add_signed(3) show ?case by (auto simp: chain_ok_snoc chain_ok_sign)
next
  case (remove bc)
  show ?case
  proof (cases "length bc \<le> 1")
    case True
    with remove show ?thesis by (simp add: bc_RemoveLastBlock_def)
  next
    case False
    then obtain ys y where "bc = ys @ [y]" "ys \<noteq> []" by (cases bc rule: rev_cases) auto
    with False remove show ?thesis by (simp add: bc_RemoveLastBlock_def chain_ok_snoc)
  qed
qed


lemma filter_valid_prefix: "prefix (filter_valid ff h bs) bs"
  by (induction bs arbitrary: h) auto

lemma filter_valid_ok:
  "chain_ok ff pre \<Longrightarrow> pre \<noteq> [] \<Longrightarrow> h = bk_Hash (last pre) \<Longrightarrow> \<forall>b \<in> set bs. 0 < bk_Index b \<Longrightarrow>
     chain_ok ff (pre @ filter_valid ff h bs)"
proof (induction bs arbitrary: pre h)
  case (Cons b bs)
  show ?case
  proof (cases "bc_Verify ff b \<and> bk_PreviousHash b = h")
    case True
    with Cons.prems have "chain_ok ff (pre @ [b])" by (simp add: chain_ok_snoc)
    with Cons.IH [of "pre @ [b]" "bk_Hash b"] Cons.prems True show ?thesis by simp
  next
    case False
    with Cons.prems show ?thesis by auto
  qed
qed simp

section \<open>Properties\<close>



text \<open>Verification of a chain reports the first block whose hash does not match its contents or
  whose link does not match the block before it, and succeeds exactly when there is none.\<close>

theorem verify_chain_exact:
  "case bc_VerifyChain ff bc of (i, ok) \<Rightarrow>
     (ok \<longleftrightarrow> (\<forall>k < length bc. bk_Hash (bc ! k) = calculateHash ff (bk_Index (bc ! k)) (bk_Timestamp (bc ! k)) (bk_Transactions (bc ! k)) \<and>
        (0 < k \<longrightarrow> bk_PreviousHash (bc ! k) = bk_Hash (bc ! (k - 1))))) \<and>
     (if ok then i = -1
      else 0 \<le> i \<and> i < int (length bc) \<and> \<not> block_ok ff bc (nat i) \<and> (\<forall>k < nat i. block_ok ff bc k))"
proof -
  have ok: "(\<forall>k < length bc. bk_Hash (bc ! k) = calculateHash ff (bk_Index (bc ! k)) (bk_Timestamp (bc ! k)) (bk_Transactions (bc ! k)) \<and>
      (0 < k \<longrightarrow> bk_PreviousHash (bc ! k) = bk_Hash (bc ! (k - 1)))) \<longleftrightarrow> chain_ok ff bc"
    by (simp add: chain_ok_def block_ok_def bc_Verify_def)
  show ?thesis unfolding ok
  proof (cases "chain_ok ff bc")
    case False
    define n where "n = (LEAST i. i < length bc \<and> \<not> block_ok ff bc i)"
    have "\<exists>i. i < length bc \<and> \<not> block_ok ff bc i" using False by (auto simp: chain_ok_def)
    then have l: "n < length bc" "\<not> block_ok ff bc n"
      using LeastI_ex [of "\<lambda>i. i < length bc \<and> \<not> block_ok ff bc i"] by (simp_all add: n_def)
    have "\<forall>k < n. block_ok ff bc k"
      using not_less_Least [of _ "\<lambda>i. i < length bc \<and> \<not> block_ok ff bc i"] l(1)
      unfolding n_def by (meson less_trans)
    moreover have "bc_VerifyChain ff bc = (int n, False)" using False by (simp add: VerifyChain_eq n_def)
    ultimately show "case bc_VerifyChain ff bc of (i, ok) \<Rightarrow> (ok \<longleftrightarrow> chain_ok ff bc) \<and>
       (if ok then i = -1
        else 0 \<le> i \<and> i < int (length bc) \<and> \<not> block_ok ff bc (nat i) \<and> (\<forall>k < nat i. block_ok ff bc k))"
      using l False by simp
  qed (simp add: VerifyChain_eq)
qed

theorem verify_chain_exact_witness:
  "snd (bc_VerifyChain (\<lambda>_. ''1'') [(createGenesisBlock (\<lambda>_. ''1'') ''t0'')\<lparr>bk_Hash := ''forged''\<rparr>]) \<longleftrightarrow>
   ''forged'' = calculateHash (\<lambda>_. ''1'') 0 ''t0'' []"
  using verify_chain_exact [where ff = "\<lambda>_. ''1''" and bc = "[(createGenesisBlock (\<lambda>_. ''1'') ''t0'')\<lparr>bk_Hash := ''forged''\<rparr>]"]
  by (auto simp: createGenesisBlock_def case_prod_beta)

definition rewrite_block :: "(float64 \<Rightarrow> string) \<Rightarrow> nat \<Rightarrow> transaction list \<Rightarrow> chain \<Rightarrow> chain" where
  "rewrite_block ff k txs bc =
     (let b = bc ! k;
          b' = b\<lparr>bk_Transactions := txs, bk_Hash := calculateHash ff (bk_Index b) (bk_Timestamp b) txs\<rparr>;
          bc1 = bc[k := b']
      in if Suc k < length bc then bc1[Suc k := (bc ! Suc k)\<lparr>bk_PreviousHash := bk_Hash b'\<rparr>] else bc1)"

lemma rewrite_nth:
  assumes "k < length bc" "i < length bc"
  shows "rewrite_block ff k txs bc ! i =
    (if i = k then (bc ! k)\<lparr>bk_Transactions := txs, bk_Hash := calculateHash ff (bk_Index (bc ! k)) (bk_Timestamp (bc ! k)) txs\<rparr>
     else if i = Suc k then (bc ! i)\<lparr>bk_PreviousHash := calculateHash ff (bk_Index (bc ! k)) (bk_Timestamp (bc ! k)) txs\<rparr>
     else bc ! i)"
  using assms by (auto simp: rewrite_block_def Let_def nth_list_update)

text \<open>History can be rewritten without detection: the hash of a block does not cover the link to
  its predecessor, so giving any block other transactions and a recomputed hash, and patching the
  link of its successor, yields a chain that verifies again with every other hash unchanged.\<close>

theorem history_rewrite_undetected:
  assumes "bc_VerifyChain ff bc = (-1, True)" "k < length bc"
  shows "bc_VerifyChain ff (rewrite_block ff k txs bc) = (-1, True) \<and>
    bk_Transactions (rewrite_block ff k txs bc ! k) = txs \<and>
    (\<forall>i < length bc. i \<noteq> k \<longrightarrow> bk_Hash (rewrite_block ff k txs bc ! i) = bk_Hash (bc ! i) \<and>
       bk_Signature (rewrite_block ff k txs bc ! i) = bk_Signature (bc ! i))"
proof -
  note nth = rewrite_nth [OF assms(2)]
  have ok: "chain_ok ff bc" using assms(1) by (simp add: VerifyChain_ok)
  have len: "length (rewrite_block ff k txs bc) = length bc" by (simp add: rewrite_block_def Let_def)
  have "block_ok ff (rewrite_block ff k txs bc) i" if i: "i < length bc" for i
  proof -
    have b: "block_ok ff bc i" using ok i by (simp add: chain_ok_def)
    have "0 < i \<Longrightarrow> i - 1 < length bc" using i by simp
    with b show ?thesis
      using nth [OF i, of ff txs] nth [of "i - 1" ff txs] i
      by (cases "0 < i") (auto simp: block_ok_def bc_Verify_def)
  qed
  then have "chain_ok ff (rewrite_block ff k txs bc)" by (simp add: chain_ok_def len)
  then show ?thesis using assms(2) by (simp add: VerifyChain_ok nth)
qed

theorem history_rewrite_undetected_witness:
  "bc_VerifyChain (\<lambda>_. ''1'') (rewrite_block (\<lambda>_. ''1'') 0 [\<lparr>tx_Sender = ''x'', tx_Recipient = ''y'', tx_Amount = 0\<rparr>]
     (NewBlockchain (\<lambda>_. ''1'') ''t0'')) = (-1, True)"
proof -
  let ?ff = "\<lambda>_ :: float64. ''1''"
  have "bc_VerifyChain ?ff (NewBlockchain ?ff ''t0'') = (-1, True)"
    by (simp add: bc_VerifyChain_def NewBlockchain_def createGenesisBlock_def bc_Verify_def)
  from history_rewrite_undetected [OF this, of 0] show ?thesis by (simp add: NewBlockchain_def)
qed

text \<open>Different transactions can have the same hash: names may contain blanks, and the printed
  form of a transaction separates its fields by blanks only, so moving a blank from one name to the
  other leaves the hashed record as it was.\<close>

theorem hash_ambiguous:
  "calculateHash ff i ts (pre @ \<lparr>tx_Sender = a @ '' '' @ b, tx_Recipient = c, tx_Amount = x\<rparr> # post) =
   calculateHash ff i ts (pre @ \<lparr>tx_Sender = a, tx_Recipient = b @ '' '' @ c, tx_Amount = x\<rparr> # post)"
  by (simp add: calculateHash_def show_txs_def show_tx_def)

text \<open>A block signature is accepted exactly when it is the HMAC-SHA256 of the block's hash under
  the key, in hexadecimal; a block signed with a key verifies under that key.\<close>

theorem block_signature_exact:
  "(bc_VerifySignature b key \<longleftrightarrow>
      key \<noteq> [] \<and> bk_Signature b \<noteq> [] \<and> bk_Signature b = hex (hmac256 key (bk_Hash b))) \<and>
   (key \<noteq> [] \<and> hex (hmac256 key (bk_Hash b)) \<noteq> [] \<longrightarrow> bc_VerifySignature (snd (SignBlock b key)) key)"
  unfolding bc_VerifySignature_def SignBlock_def Let_def secureEquals_def [symmetric] secureEquals_iff by auto

theorem block_signature_exact_witness:
  "bc_VerifySignature (createGenesisBlock (\<lambda>_. ''1'') ''t0'') ''k'' = False"
  using block_signature_exact [of "createGenesisBlock (\<lambda>_. ''1'') ''t0''" "''k''"]
  by (simp add: createGenesisBlock_def)

text \<open>What the server keeps of stored blocks is a prefix of them, and when the blocks after the
  first are numbered from 1 the kept chain verifies.\<close>

theorem filtered_blocks_verify:
  assumes "\<forall>b \<in> set bs. 0 < bk_Index b"
  shows "prefix (filterValidBlocks ff (b0 # bs)) (b0 # bs) \<and>
    (bk_Index b0 = 0 \<longrightarrow> bc_VerifyChain ff (bc_Load ff ts (filterValidBlocks ff (b0 # bs))) = (-1, True))"
proof (intro conjI impI)
  show "prefix (filterValidBlocks ff (b0 # bs)) (b0 # bs)"
    unfolding filterValidBlocks_def by (rule filter_valid_prefix)
next
  assume i0: "bk_Index b0 = 0"
  show "bc_VerifyChain ff (bc_Load ff ts (filterValidBlocks ff (b0 # bs))) = (-1, True)"
  proof (cases "bc_Verify ff b0")
    case True
    then have "chain_ok ff [b0]" by (simp add: chain_ok_def block_ok_def)
    from filter_valid_ok [OF this _ _ assms] True i0 show ?thesis
      by (simp add: filterValidBlocks_def VerifyChain_ok bc_Load_def)
  next
    case False
    then show ?thesis
      by (simp add: filterValidBlocks_def bc_Load_def bc_VerifyChain_def createGenesisBlock_def bc_Verify_def)
  qed
qed

theorem filtered_blocks_verify_witness:
  "bc_VerifyChain (\<lambda>_. ''1'') (bc_Load (\<lambda>_. ''1'') ''t'' (filterValidBlocks (\<lambda>_. ''1'')
     [createGenesisBlock (\<lambda>_. ''1'') ''t0''])) = (-1, True)"
  using filtered_blocks_verify [of "[]" "\<lambda>_. ''1''" "createGenesisBlock (\<lambda>_. ''1'') ''t0''" "''t''"]
  by (simp add: createGenesisBlock_def)

end
