(* ===== verification/Routing.thy ===== *)
theory Routing
  imports GoPrelude
begin

text \<open>
  The routing table of \<^verbatim>\<open>pkg/routing/routing.go\<close>: a list of routes with metrics,
  tags and deadlines, and the selection of the best next hop.

  Scores are float64 values that are always whole numbers: \<open>f64_round\<close> is the rounding
  of an integer to the nearest float64, ties to even, which the code applies when it converts an
  int and after each addition or subtraction.
\<close>

section \<open>Data\<close>

record route_metric =
  rm_Latency :: int
  rm_Throughput :: int

record route =
  rt_Destination :: string
  rt_Metric :: route_metric
  rt_AddedAt :: instant
  rt_ExpiresAt :: "instant option"
  rt_Satellite :: bool
  rt_Tags :: "string \<rightharpoonup> string"

record route_options =
  ro_TTL :: duration
  ro_Satellite :: bool
  ro_Tags :: "string \<rightharpoonup> string"

record update_route_options =
  uo_Metric :: "route_metric option"
  uo_TTL :: "duration option"
  uo_Satellite :: "bool option"
  uo_Tags :: "(string \<rightharpoonup> string) option"

text \<open>The tags of a filter are the list of its entries.\<close>

record best_route_filter =
  bf_MaxLatency :: int
  bf_MinThroughput :: int
  bf_Satellite :: "bool option"
  bf_Tags :: "(string \<times> string) list"

definition SatellitePenaltyMs :: int where "SatellitePenaltyMs = 300"

type_synonym routes = "route list"

section \<open>Whole numbers as float64\<close>

fun excess_bits :: "nat \<Rightarrow> nat" where
  "excess_bits n = (if n < 2 ^ 53 then 0 else Suc (excess_bits (n div 2)))"

declare excess_bits.simps [simp del]

definition round_nat :: "nat \<Rightarrow> nat" where
  "round_nat n =
     (let d = 2 ^ excess_bits n; q = n div d; r = n mod d
      in if 2 * r > d \<or> (2 * r = d \<and> odd q) then (q + 1) * d else q * d)"

definition f64_round :: "int \<Rightarrow> int" where
  "f64_round x = (if x < 0 then - int (round_nat (nat (- x))) else int (round_nat (nat x)))"

lemma f64_round_small: "\<bar>x\<bar> < 2 ^ 53 \<Longrightarrow> f64_round x = x"
proof -
  assume x: "\<bar>x\<bar> < 2 ^ 53"
  have "n < 2 ^ 53 \<Longrightarrow> round_nat n = n" for n
    by (simp add: round_nat_def excess_bits.simps [of n] Let_def)
  moreover have "nat \<bar>x\<bar> < 2 ^ 53" using x by (simp add: nat_less_iff)
  ultimately have "round_nat (nat \<bar>x\<bar>) = nat \<bar>x\<bar>" by blast
  then show ?thesis by (cases "x < 0") (simp_all add: f64_round_def)
qed

section \<open>Matching and scoring\<close>

definition route_dead :: "instant \<Rightarrow> route \<Rightarrow> bool" where
  "route_dead now r \<longleftrightarrow> expired now (rt_ExpiresAt r)"

definition matchTags :: "(string \<rightharpoonup> string) \<Rightarrow> (string \<times> string) list \<Rightarrow> bool" where
  "matchTags routeTags fs = list_all (\<lambda>(k, v). (case routeTags k of None \<Rightarrow> [] | Some x \<Rightarrow> x) = v) fs"

definition routeMatchesFilter :: "route \<Rightarrow> best_route_filter \<Rightarrow> instant \<Rightarrow> bool" where
  "routeMatchesFilter r f now =
     (if expired now (rt_ExpiresAt r) then False
      else if bf_MaxLatency f > 0 \<and> rm_Latency (rt_Metric r) > bf_MaxLatency f then False
      else if bf_MinThroughput f > 0 \<and> rm_Throughput (rt_Metric r) < bf_MinThroughput f then False
      else if (case bf_Satellite f of None \<Rightarrow> False | Some b \<Rightarrow> rt_Satellite r \<noteq> b) then False
      else matchTags (rt_Tags r) (bf_Tags f))"

definition routeScore :: "route \<Rightarrow> int \<Rightarrow> int" where
  "routeScore r satellitePenalty =
     (let lat0 = f64_round (rm_Latency (rt_Metric r));
          lat1 = (if lat0 < 0 then 0 else lat0);
          lat2 = (if rt_Satellite r \<and> satellitePenalty > 0 then f64_round (lat1 + f64_round satellitePenalty) else lat1);
          thr = f64_round (rm_Throughput (rt_Metric r))
      in if thr > 0 then f64_round (lat2 - thr) else lat2)"

text \<open>The loop of \<open>selectBestRoute\<close> keeps the best route and its score.\<close>

fun best_loop :: "best_route_filter \<Rightarrow> int \<Rightarrow> instant \<Rightarrow> route option \<Rightarrow> int \<Rightarrow> routes \<Rightarrow> route option" where
  "best_loop f p now best bestScore [] = best"
| "best_loop f p now best bestScore (r # rs) =
     (if \<not> routeMatchesFilter r f now then best_loop f p now best bestScore rs
      else
        let score = routeScore r p
        in if best = None \<or> score < bestScore then best_loop f p now (Some r) score rs
           else best_loop f p now best bestScore rs)"

definition selectBestRoute :: "routes \<Rightarrow> best_route_filter \<Rightarrow> int \<Rightarrow> instant \<Rightarrow> string + route" where
  "selectBestRoute rs f p now =
     (case best_loop f p now None (2 ^ 62) rs of None \<Rightarrow> Inl ''no routes available'' | Some r \<Rightarrow> Inr r)"

definition no_filter :: best_route_filter where
  "no_filter = \<lparr>bf_MaxLatency = 0, bf_MinThroughput = 0, bf_Satellite = None, bf_Tags = []\<rparr>"

definition BestRouteFromRoutes :: "routes \<Rightarrow> int \<Rightarrow> instant \<Rightarrow> string + route" where
  "BestRouteFromRoutes rs p now = selectBestRoute rs no_filter p now"

definition BestRouteFromRoutesFiltered :: "routes \<Rightarrow> best_route_filter \<Rightarrow> int \<Rightarrow> instant \<Rightarrow> string + route" where
  "BestRouteFromRoutesFiltered rs f p now = selectBestRoute rs f p now"

definition RankedRoutesFromRoutesFiltered :: "routes \<Rightarrow> best_route_filter \<Rightarrow> int \<Rightarrow> instant \<Rightarrow> routes" where
  "RankedRoutesFromRoutesFiltered rs f p now =
     sort_key (\<lambda>r. routeScore r p) (filter (\<lambda>r. routeMatchesFilter r f now) rs)"

definition FilterRoutes :: "routes \<Rightarrow> best_route_filter \<Rightarrow> instant \<Rightarrow> routes" where
  "FilterRoutes rs f now = filter (\<lambda>r. routeMatchesFilter r f now) rs"

section \<open>The routing engine\<close>

definition pruneExpiredLocked :: "routes \<Rightarrow> instant \<Rightarrow> routes" where
  "pruneExpiredLocked rs now = filter (\<lambda>r. \<not> route_dead now r) rs"

definition NewRoutingEngine :: routes where "NewRoutingEngine = []"

definition NewRoutingEngineFromRoutes :: "routes \<Rightarrow> instant \<Rightarrow> routes" where
  "NewRoutingEngineFromRoutes rs now = pruneExpiredLocked rs now"

definition re_AddRouteWithOptions ::
    "routes \<Rightarrow> string \<Rightarrow> route_metric \<Rightarrow> route_options \<Rightarrow> instant \<Rightarrow> string option \<times> routes" where
  "re_AddRouteWithOptions rs destination metric opts now =
     (if destination = [] then (Some ''destination cannot be empty'', rs)
      else if rm_Latency metric < 0 \<or> rm_Throughput metric < 0
      then (Some ''latency and throughput must be non-negative'', rs)
      else (None, rs @ [\<lparr>rt_Destination = destination, rt_Metric = metric, rt_AddedAt = now,
        rt_ExpiresAt = (if ro_TTL opts > 0 then Some (now + ro_TTL opts) else None),
        rt_Satellite = ro_Satellite opts, rt_Tags = ro_Tags opts\<rparr>]))"

definition re_AddRouteWithTTL ::
    "routes \<Rightarrow> string \<Rightarrow> route_metric \<Rightarrow> duration \<Rightarrow> instant \<Rightarrow> string option \<times> routes" where
  "re_AddRouteWithTTL rs destination metric ttl now =
     (if destination = [] then (Some ''destination cannot be empty'', rs)
      else if rm_Latency metric < 0 \<or> rm_Throughput metric < 0
      then (Some ''latency and throughput must be non-negative'', rs)
      else (None, rs @ [\<lparr>rt_Destination = destination, rt_Metric = metric, rt_AddedAt = now,
        rt_ExpiresAt = (if ttl > 0 then Some (now + ttl) else None),
        rt_Satellite = False, rt_Tags = Map.empty\<rparr>]))"

definition re_AddRoute :: "routes \<Rightarrow> string \<Rightarrow> route_metric \<Rightarrow> instant \<Rightarrow> string option \<times> routes" where
  "re_AddRoute rs destination metric now = re_AddRouteWithTTL rs destination metric 0 now"

fun re_GetRoute :: "routes \<Rightarrow> string \<Rightarrow> instant \<Rightarrow> string + route" where
  "re_GetRoute [] destination now = Inl ''route not found''"
| "re_GetRoute (r # rs) destination now =
     (if rt_Destination r = destination
      then (if route_dead now r then Inl ''route expired'' else Inr r)
      else re_GetRoute rs destination now)"

fun re_UpdateLinkQuality :: "routes \<Rightarrow> string \<Rightarrow> route_metric \<Rightarrow> string option \<times> routes" where
  "re_UpdateLinkQuality [] destination metric = (Some ''route not found'', [])"
| "re_UpdateLinkQuality (r # rs) destination metric =
     (if rt_Destination r = destination then (None, r\<lparr>rt_Metric := metric\<rparr> # rs)
      else (case re_UpdateLinkQuality rs destination metric of (e, rs') \<Rightarrow> (e, r # rs')))"

text \<open>The changes are made one by one in the shared table; an error stops half-way.\<close>

definition update_one :: "route \<Rightarrow> update_route_options \<Rightarrow> instant \<Rightarrow> (string + route) \<times> route" where
  "update_one r opts now =
     (if (case uo_Metric opts of None \<Rightarrow> False | Some m \<Rightarrow> rm_Latency m < 0 \<or> rm_Throughput m < 0)
      then (Inl ''latency and throughput must be non-negative'', r)
      else
        let r1 = (case uo_Metric opts of None \<Rightarrow> r | Some m \<Rightarrow> r\<lparr>rt_Metric := m\<rparr>)
        in if (case uo_TTL opts of None \<Rightarrow> False | Some t \<Rightarrow> t < 0) then (Inl ''ttl must be non-negative'', r1)
           else
             let r2 = (case uo_TTL opts of None \<Rightarrow> r1
                       | Some t \<Rightarrow> r1\<lparr>rt_ExpiresAt := (if t = 0 then None else Some (now + t))\<rparr>);
                 r3 = (case uo_Satellite opts of None \<Rightarrow> r2 | Some b \<Rightarrow> r2\<lparr>rt_Satellite := b\<rparr>);
                 r4 = (case uo_Tags opts of None \<Rightarrow> r3 | Some ts \<Rightarrow> r3\<lparr>rt_Tags := ts\<rparr>)
             in (Inr r4, r4))"

fun re_UpdateRoute :: "routes \<Rightarrow> string \<Rightarrow> update_route_options \<Rightarrow> instant \<Rightarrow> (string + route) \<times> routes" where
  "re_UpdateRoute [] destination opts now = (Inl ''route not found'', [])"
| "re_UpdateRoute (r # rs) destination opts now =
     (if rt_Destination r \<noteq> destination
      then (case re_UpdateRoute rs destination opts now of (res, rs') \<Rightarrow> (res, r # rs'))
      else (case update_one r opts now of (res, r') \<Rightarrow> (res, r' # rs)))"

fun re_GetLinkQuality :: "routes \<Rightarrow> string \<Rightarrow> instant \<Rightarrow> string + route_metric" where
  "re_GetLinkQuality [] destination now = Inl ''route not found''"
| "re_GetLinkQuality (r # rs) destination now =
     (if rt_Destination r = destination
      then (if route_dead now r then Inl ''route expired'' else Inr (rt_Metric r))
      else re_GetLinkQuality rs destination now)"

definition re_RouteCount :: "routes \<Rightarrow> instant \<Rightarrow> nat \<times> routes" where
  "re_RouteCount rs now = (let rs' = pruneExpiredLocked rs now in (length rs', rs'))"

definition re_ListRoutes :: "routes \<Rightarrow> instant \<Rightarrow> routes \<times> routes" where
  "re_ListRoutes rs now = (let rs' = pruneExpiredLocked rs now in (rs', rs'))"

definition re_Load :: "routes \<Rightarrow> routes \<Rightarrow> routes" where
  "re_Load rs new = new"

definition re_SelectBestNextHopFiltered :: "routes \<Rightarrow> best_route_filter \<Rightarrow> int \<Rightarrow> instant \<Rightarrow> string + route" where
  "re_SelectBestNextHopFiltered rs f p now = selectBestRoute rs f p now"

definition re_SelectBestNextHopOpts :: "routes \<Rightarrow> int \<Rightarrow> instant \<Rightarrow> string + route" where
  "re_SelectBestNextHopOpts rs p now = re_SelectBestNextHopFiltered rs no_filter p now"

definition re_SelectBestNextHop :: "routes \<Rightarrow> instant \<Rightarrow> string + route" where
  "re_SelectBestNextHop rs now = re_SelectBestNextHopOpts rs SatellitePenaltyMs now"

definition re_FilterByTags :: "routes \<Rightarrow> (string \<times> string) list \<Rightarrow> instant \<Rightarrow> routes \<times> routes" where
  "re_FilterByTags rs f now =
     (let rs' = pruneExpiredLocked rs now in (filter (\<lambda>r. matchTags (rt_Tags r) f) rs', rs'))"

fun re_DeleteRoute :: "routes \<Rightarrow> string \<Rightarrow> string option \<times> routes" where
  "re_DeleteRoute [] destination = (Some ''route not found'', [])"
| "re_DeleteRoute (r # rs) destination =
     (if rt_Destination r = destination then (None, rs)
      else (case re_DeleteRoute rs destination of (e, rs') \<Rightarrow> (e, r # rs')))"

definition re_DeleteAll :: "routes \<Rightarrow> routes" where
  "re_DeleteAll rs = []"

definition re_RemoveExpiredRoutes :: "routes \<Rightarrow> instant \<Rightarrow> routes" where
  "re_RemoveExpiredRoutes rs now = pruneExpiredLocked rs now"

section \<open>Selection is the head of the ranking\<close>

definition route_better :: "int \<Rightarrow> route \<Rightarrow> route \<Rightarrow> bool" where
  "route_better p x y \<longleftrightarrow> routeScore x p < routeScore y p"

interpretation route_pref: strict_pref "route_better p" for p
  by unfold_locales (auto simp: route_better_def)

lemma best_loop_select:
  "(best \<noteq> None \<longrightarrow> bestScore = routeScore (the best) p) \<Longrightarrow>
   best_loop f p now best bestScore rs = select_best (\<lambda>r. routeMatchesFilter r f now) (route_better p) best rs"
  by (induction rs arbitrary: best bestScore) (auto simp: Let_def route_better_def split: option.splits)

lemma select_best_filter: "select_best ok better b xs = select_best (\<lambda>_. True) better b (filter ok xs)"
  by (induction xs arbitrary: b) auto

lemma select_best_sort_Some:
  "select_best (\<lambda>_. True) (route_better p) (Some b) xs = Some (hd (sort_key (\<lambda>r. routeScore r p) (b # xs)))"
proof (induction xs arbitrary: b)
  case (Cons x xs)
  let ?k = "\<lambda>r. routeScore r p"
  let ?s = "sort_key ?k xs"
  have ins: "hd (insort_key ?k a zs) = (if zs = [] \<or> ?k a \<le> ?k (hd zs) then a else hd zs)" for a zs
    by (cases zs) auto
  show ?case
    using Cons [of b] Cons [of x]
    by (cases ?s) (auto simp: route_better_def ins split: if_splits)
qed simp

lemma select_ranked:
  "best_loop f p now None s0 rs =
     (case RankedRoutesFromRoutesFiltered rs f p now of [] \<Rightarrow> None | r # _ \<Rightarrow> Some r)"
proof -
  have "best_loop f p now None s0 rs =
      select_best (\<lambda>_. True) (route_better p) None (filter (\<lambda>r. routeMatchesFilter r f now) rs)"
    by (simp add: best_loop_select select_best_filter [of "\<lambda>r. routeMatchesFilter r f now"])
  also have "\<dots> = (case RankedRoutesFromRoutesFiltered rs f p now of [] \<Rightarrow> None | r # _ \<Rightarrow> Some r)"
  proof (cases "filter (\<lambda>r. routeMatchesFilter r f now) rs")
    case (Cons x xs)
    have "sort_key (\<lambda>r. routeScore r p) (x # xs) \<noteq> []" by (metis length_0_conv length_sort list.distinct(1))
    then show ?thesis unfolding RankedRoutesFromRoutesFiltered_def Cons
      by (simp only: select_best.simps if_False not_True_eq_False option.case select_best_sort_Some)
        (cases "sort_key (\<lambda>r. routeScore r p) (x # xs)", simp_all)
  qed (simp add: RankedRoutesFromRoutesFiltered_def)
  finally show ?thesis .
qed


section \<open>Properties\<close>

definition ex_route :: "string \<Rightarrow> int \<Rightarrow> bool \<Rightarrow> route" where
  "ex_route d lat sat = \<lparr>rt_Destination = d, rt_Metric = \<lparr>rm_Latency = lat, rm_Throughput = 10\<rparr>,
     rt_AddedAt = 0, rt_ExpiresAt = Some 100, rt_Satellite = sat, rt_Tags = Map.empty\<rparr>"

text \<open>C21. The best next hop is a live route that meets the filter, and no other such route has a
  lower score; among equals the one added first wins. It fails only when no live route meets the
  filter. The selection loop and the ranking agree: it is the first of the ranked routes.\<close>

theorem best_next_hop:
  "case re_SelectBestNextHopFiltered rs f p now of
     Inl e \<Rightarrow> (\<forall>r \<in> set rs. \<not> routeMatchesFilter r f now) \<and> RankedRoutesFromRoutesFiltered rs f p now = []
   | Inr b \<Rightarrow> b \<in> set rs \<and> routeMatchesFilter b f now \<and> \<not> expired now (rt_ExpiresAt b) \<and>
       (\<forall>r \<in> set rs. routeMatchesFilter r f now \<longrightarrow> routeScore b p \<le> routeScore r p) \<and>
       (\<exists>more. RankedRoutesFromRoutesFiltered rs f p now = b # more)"
proof (cases "RankedRoutesFromRoutesFiltered rs f p now")
  case Nil
  then have "filter (\<lambda>r. routeMatchesFilter r f now) rs = []"
    by (metis RankedRoutesFromRoutesFiltered_def length_0_conv length_sort)
  then have "\<forall>r \<in> set rs. \<not> routeMatchesFilter r f now" by (simp add: filter_empty_conv)
  with Nil show ?thesis by (simp add: re_SelectBestNextHopFiltered_def selectBestRoute_def select_ranked)
next
  case (Cons b more)
  have sorted: "sorted (map (\<lambda>r. routeScore r p) (b # more))" and
    set: "set (b # more) = {r \<in> set rs. routeMatchesFilter r f now}"
    unfolding Cons [symmetric] by (auto simp: RankedRoutesFromRoutesFiltered_def)
  have "\<forall>r \<in> set rs. routeMatchesFilter r f now \<longrightarrow> routeScore b p \<le> routeScore r p" using sorted set by auto
  moreover have "b \<in> set rs" "routeMatchesFilter b f now" using set by auto
  moreover have "\<not> expired now (rt_ExpiresAt b)" using calculation(3) by (simp add: routeMatchesFilter_def split: if_splits)
  ultimately show ?thesis using Cons
    by (simp add: re_SelectBestNextHopFiltered_def selectBestRoute_def select_ranked)
qed

theorem best_next_hop_witness:
  "re_SelectBestNextHopFiltered [ex_route ''a'' 50 True, ex_route ''b'' 90 False] no_filter 300 7 = Inr (ex_route ''b'' 90 False) \<and>
   (\<exists>more. RankedRoutesFromRoutesFiltered [ex_route ''a'' 50 True, ex_route ''b'' 90 False] no_filter 300 7 = ex_route ''b'' 90 False # more)"
proof -
  let ?rs = "[ex_route ''a'' 50 True, ex_route ''b'' 90 False]"
  have "re_SelectBestNextHopFiltered ?rs no_filter 300 7 = Inr (ex_route ''b'' 90 False)"
    by (simp add: re_SelectBestNextHopFiltered_def selectBestRoute_def routeMatchesFilter_def no_filter_def
        ex_route_def matchTags_def routeScore_def f64_round_small Let_def)
  with best_next_hop [where rs = ?rs and f = no_filter and p = 300 and now = 7] show ?thesis by simp
qed

text \<open>For metrics and penalties below 2 to the power 51 no rounding happens: the score is the
  latency, plus the penalty on satellite routes, minus the throughput.\<close>

theorem score_exact:
  assumes "0 \<le> rm_Latency (rt_Metric r)" "rm_Latency (rt_Metric r) < 2 ^ 51" "0 \<le> rm_Throughput (rt_Metric r)"
    and "rm_Throughput (rt_Metric r) < 2 ^ 51" "0 \<le> p" "p < 2 ^ 51"
  shows "routeScore r p =
    rm_Latency (rt_Metric r) + (if rt_Satellite r then p else 0) - rm_Throughput (rt_Metric r)"
  using assms by (auto simp: routeScore_def Let_def f64_round_small)

theorem score_exact_witness: "routeScore (ex_route ''a'' 50 True) 300 = 340"
  using score_exact [of "ex_route ''a'' 50 True" 300] by (simp add: ex_route_def)

text \<open>A rejected route update can still change the route: a new metric is stored before the time
  to live is checked, so the call fails and the metric stays changed.\<close>

theorem rejected_update_changes_metric:
  assumes "rt_Destination r = d" "\<forall>x \<in> set pre. rt_Destination x \<noteq> d"
    and "uo_Metric opts = Some m" "0 \<le> rm_Latency m" "0 \<le> rm_Throughput m" "uo_TTL opts = Some ttl" "ttl < 0"
  shows "re_UpdateRoute (pre @ r # post) d opts now = (Inl ''ttl must be non-negative'', pre @ r\<lparr>rt_Metric := m\<rparr> # post)"
  using assms(2)
proof (induction pre)
  case Nil
  with assms show ?case by (simp add: update_one_def)
qed simp

theorem rejected_update_changes_metric_witness:
  "re_UpdateRoute [ex_route ''a'' 50 True] ''a''
     \<lparr>uo_Metric = Some \<lparr>rm_Latency = 1, rm_Throughput = 1\<rparr>, uo_TTL = Some (-1), uo_Satellite = None, uo_Tags = None\<rparr> 7 =
   (Inl ''ttl must be non-negative'', [(ex_route ''a'' 50 True)\<lparr>rt_Metric := \<lparr>rm_Latency = 1, rm_Throughput = 1\<rparr>\<rparr>])"
  using rejected_update_changes_metric [of "ex_route ''a'' 50 True" "''a''" "[]"
      "\<lparr>uo_Metric = Some \<lparr>rm_Latency = 1, rm_Throughput = 1\<rparr>, uo_TTL = Some (-1), uo_Satellite = None, uo_Tags = None\<rparr>"
      "\<lparr>rm_Latency = 1, rm_Throughput = 1\<rparr>" "-1" "[]" 7]
  by (simp add: ex_route_def)

end
