(* ===== verification/RouteResolve.thy ===== *)
theory RouteResolve
  imports Routing
begin

text \<open>
  Route resolution of the server, the closures \<^verbatim>\<open>mergeResolveRequest\<close> and
  \<^verbatim>\<open>resolveRoute\<close> of \<^verbatim>\<open>cmd/spectral-cloud/main.go\<close>: routes are
  looked for at the site, then in the region, then globally, no wider than the request allows.
  The maps that carry tags are lists of their entries.
\<close>

section \<open>Requests\<close>

record resolve_request =
  rq_ID :: string
  rq_Region :: string
  rq_Site :: string
  rq_MaxScope :: string
  rq_Explain :: bool
  rq_Alternatives :: int
  rq_MaxLatency :: int
  rq_MinThroughput :: int
  rq_Satellite :: "bool option"
  rq_Tags :: "(string \<times> string) list"
  rq_SatellitePenalty :: "int option"

record resolve_request_input =
  ri_ID :: string
  ri_Region :: "string option"
  ri_Site :: "string option"
  ri_MaxScope :: "string option"
  ri_Explain :: "bool option"
  ri_Alternatives :: "int option"
  ri_MaxLatency :: "int option"
  ri_MinThroughput :: "int option"
  ri_Satellite :: "bool option"
  ri_Tags :: "(string \<times> string) list option"
  ri_SatellitePenalty :: "int option"

definition over :: "'a option \<Rightarrow> 'a \<Rightarrow> 'a" where
  "over x d = (case x of None \<Rightarrow> d | Some v \<Rightarrow> v)"

definition over_opt :: "'a option \<Rightarrow> 'a option \<Rightarrow> 'a option" where
  "over_opt x d = (case x of None \<Rightarrow> d | Some v \<Rightarrow> Some v)"

definition apply_defaults :: "resolve_request_input \<Rightarrow> resolve_request \<Rightarrow> resolve_request" where
  "apply_defaults d m = m\<lparr>
     rq_Region := over (map_option trim_space (ri_Region d)) (rq_Region m),
     rq_Site := over (map_option trim_space (ri_Site d)) (rq_Site m),
     rq_MaxScope := over (map_option trim_space (ri_MaxScope d)) (rq_MaxScope m),
     rq_Explain := over (ri_Explain d) (rq_Explain m),
     rq_Alternatives := over (ri_Alternatives d) (rq_Alternatives m),
     rq_MaxLatency := over (ri_MaxLatency d) (rq_MaxLatency m),
     rq_MinThroughput := over (ri_MinThroughput d) (rq_MinThroughput m),
     rq_Satellite := over_opt (ri_Satellite d) (rq_Satellite m),
     rq_Tags := (if over (ri_Tags d) [] \<noteq> [] then over (ri_Tags d) [] else rq_Tags m),
     rq_SatellitePenalty := over_opt (ri_SatellitePenalty d) (rq_SatellitePenalty m)\<rparr>"

definition apply_item :: "resolve_request_input \<Rightarrow> resolve_request \<Rightarrow> resolve_request" where
  "apply_item i m = m\<lparr>
     rq_Region := over (map_option trim_space (ri_Region i)) (rq_Region m),
     rq_Site := over (map_option trim_space (ri_Site i)) (rq_Site m),
     rq_MaxScope := over (map_option trim_space (ri_MaxScope i)) (rq_MaxScope m),
     rq_Explain := over (ri_Explain i) (rq_Explain m),
     rq_Alternatives := over (ri_Alternatives i) (rq_Alternatives m),
     rq_MaxLatency := over (ri_MaxLatency i) (rq_MaxLatency m),
     rq_MinThroughput := over (ri_MinThroughput i) (rq_MinThroughput m),
     rq_Satellite := over_opt (ri_Satellite i) (rq_Satellite m),
     rq_Tags := over (ri_Tags i) (rq_Tags m),
     rq_SatellitePenalty := over_opt (ri_SatellitePenalty i) (rq_SatellitePenalty m)\<rparr>"

definition empty_request :: "string \<Rightarrow> resolve_request" where
  "empty_request i = \<lparr>rq_ID = i, rq_Region = [], rq_Site = [], rq_MaxScope = [], rq_Explain = False,
     rq_Alternatives = 0, rq_MaxLatency = 0, rq_MinThroughput = 0, rq_Satellite = None, rq_Tags = [],
     rq_SatellitePenalty = None\<rparr>"

definition mergeResolveRequest :: "resolve_request_input option \<Rightarrow> resolve_request_input \<Rightarrow> resolve_request" where
  "mergeResolveRequest defaults item =
     (let merged = empty_request (trim_space (ri_ID item));
          merged1 = (case defaults of None \<Rightarrow> merged | Some d \<Rightarrow> apply_defaults d merged)
      in apply_item item merged1)"

section \<open>Resolution\<close>

datatype scope = Site | Region | Global

fun scope_of :: "string \<Rightarrow> scope option" where
  "scope_of s = (if s = ''site'' then Some Site else if s = ''region'' then Some Region
     else if s = ''global'' then Some Global else None)"

fun scopeRank :: "scope \<Rightarrow> nat" where
  "scopeRank Site = 1"
| "scopeRank Region = 2"
| "scopeRank Global = 3"

record attempt =
  at_scope :: scope
  at_candidates :: nat
  at_matching :: nat

text \<open>A response: status 400, 404 or 200 with the route, the alternatives if asked for and the
  attempts if an explanation is asked for; or a panic of the slice expression.\<close>

datatype resolve_response =
    BadRequest string
  | NotFound "attempt list option"
  | Resolved scope route "route list option" "attempt list option"
  | SlicePanic

definition tag_of :: "route \<Rightarrow> string \<Rightarrow> string" where
  "tag_of r k = trim_space (case rt_Tags r k of None \<Rightarrow> [] | Some v \<Rightarrow> v)"

text \<open>\<^verbatim>\<open>filteredCandidates[1:end]\<close>; \<open>1 + Alternatives\<close> is an int.\<close>

definition alternatives_of :: "routes \<Rightarrow> int \<Rightarrow> route list option" where
  "alternatives_of ranked n =
     (if length ranked > 1 then
        let end0 = i64 (1 + n); end1 = (if end0 > int (length ranked) then int (length ranked) else end0)
        in if end1 < 1 then None else Some (take (nat (end1 - 1)) (drop 1 ranked))
      else Some [])"

definition explained :: "resolve_request \<Rightarrow> attempt list \<Rightarrow> attempt list option" where
  "explained req ats = (if rq_Explain req then Some ats else None)"

definition selectScope ::
    "resolve_request \<Rightarrow> best_route_filter \<Rightarrow> int \<Rightarrow> instant \<Rightarrow> scope \<Rightarrow> routes \<Rightarrow> attempt list
      \<Rightarrow> resolve_response option \<times> attempt list" where
  "selectScope req f p now sc candidates ats =
     (let ranked = RankedRoutesFromRoutesFiltered candidates f p now;
          ats' = ats @ [\<lparr>at_scope = sc, at_candidates = length candidates, at_matching = length ranked\<rparr>]
      in (case ranked of [] \<Rightarrow> None
          | r # _ \<Rightarrow>
              Some (if rq_Alternatives req > 0
                    then (case alternatives_of ranked (rq_Alternatives req) of None \<Rightarrow> SlicePanic
                          | Some alts \<Rightarrow> Resolved sc r (Some alts) (explained req ats'))
                    else Resolved sc r None (explained req ats')), ats'))"

definition at_site :: "string \<Rightarrow> string \<Rightarrow> route \<Rightarrow> bool" where
  "at_site site region r \<longleftrightarrow> tag_of r ''site'' = site \<and> (region = [] \<or> tag_of r ''region'' = region)"

definition in_region :: "string \<Rightarrow> route \<Rightarrow> bool" where
  "in_region region r \<longleftrightarrow> tag_of r ''region'' = region"

definition anywhere :: "route \<Rightarrow> bool" where
  "anywhere r \<longleftrightarrow> tag_of r ''region'' = [] \<and> tag_of r ''site'' = []"

text \<open>The three scopes in turn, for the widest scope \<open>ms\<close> allowed.\<close>

definition resolve_scopes ::
    "routes \<Rightarrow> resolve_request \<Rightarrow> best_route_filter \<Rightarrow> int \<Rightarrow> string \<Rightarrow> string \<Rightarrow> scope \<Rightarrow> instant \<Rightarrow> resolve_response" where
  "resolve_scopes routes req f p region site ms now =
     (case (if site \<noteq> [] \<and> scopeRank ms \<ge> scopeRank Site
            then selectScope req f p now Site (filter (at_site site region) routes) [] else (None, [])) of
        (Some resp, _) \<Rightarrow> resp
      | (None, ats1) \<Rightarrow>
         (case (if region \<noteq> [] \<and> scopeRank ms \<ge> scopeRank Region
                then selectScope req f p now Region (filter (in_region region) routes) ats1 else (None, ats1)) of
            (Some resp, _) \<Rightarrow> resp
          | (None, ats2) \<Rightarrow>
             (case (if scopeRank ms \<ge> scopeRank Global
                    then selectScope req f p now Global (filter anywhere routes) ats2 else (None, ats2)) of
                (Some resp, _) \<Rightarrow> resp
              | (None, ats3) \<Rightarrow> NotFound (explained req ats3))))"

definition resolveRoute :: "routes \<Rightarrow> resolve_request \<Rightarrow> instant \<Rightarrow> resolve_response" where
  "resolveRoute routes req now =
     (let region = trim_space (rq_Region req); site = trim_space (rq_Site req);
          maxScope0 = trim_space (rq_MaxScope req);
          maxScope = (if maxScope0 = [] then ''global'' else maxScope0)
      in (case scope_of maxScope of None \<Rightarrow> BadRequest ''max_scope must be one of: site, region, global''
          | Some ms \<Rightarrow>
            let baseScope = (if site \<noteq> [] then Site else if region \<noteq> [] then Region else Global) in
            if scopeRank ms < scopeRank baseScope
            then BadRequest ''max_scope cannot be narrower than the requested scope''
            else if rq_Alternatives req < 0 then BadRequest ''alternatives must be a non-negative integer''
            else
              let p = (case rq_SatellitePenalty req of None \<Rightarrow> SatellitePenaltyMs | Some x \<Rightarrow> x);
                  f = \<lparr>bf_MaxLatency = rq_MaxLatency req, bf_MinThroughput = rq_MinThroughput req,
                       bf_Satellite = rq_Satellite req, bf_Tags = rq_Tags req\<rparr>
              in resolve_scopes routes req f p region site ms now))"

section \<open>Lemmas\<close>

definition req_filter :: "resolve_request \<Rightarrow> best_route_filter" where
  "req_filter req = \<lparr>bf_MaxLatency = rq_MaxLatency req, bf_MinThroughput = rq_MinThroughput req,
     bf_Satellite = rq_Satellite req, bf_Tags = rq_Tags req\<rparr>"

definition req_penalty :: "resolve_request \<Rightarrow> int" where
  "req_penalty req = (case rq_SatellitePenalty req of None \<Rightarrow> SatellitePenaltyMs | Some x \<Rightarrow> x)"

text \<open>The candidates of a scope, and whether the request looks there at all.\<close>

definition scope_candidates :: "resolve_request \<Rightarrow> scope \<Rightarrow> routes \<Rightarrow> routes" where
  "scope_candidates req sc routes = (case sc of
     Site \<Rightarrow> filter (at_site (trim_space (rq_Site req)) (trim_space (rq_Region req))) routes
   | Region \<Rightarrow> filter (in_region (trim_space (rq_Region req))) routes
   | Global \<Rightarrow> filter anywhere routes)"

definition looks_at :: "resolve_request \<Rightarrow> scope \<Rightarrow> bool" where
  "looks_at req sc \<longleftrightarrow>
     (let m = trim_space (rq_MaxScope req) in
      (case scope_of (if m = [] then ''global'' else m) of None \<Rightarrow> False | Some ms \<Rightarrow> scopeRank sc \<le> scopeRank ms)) \<and>
     (case sc of Site \<Rightarrow> trim_space (rq_Site req) \<noteq> [] | Region \<Rightarrow> trim_space (rq_Region req) \<noteq> [] | Global \<Rightarrow> True)"

definition scope_ranking :: "resolve_request \<Rightarrow> scope \<Rightarrow> routes \<Rightarrow> instant \<Rightarrow> routes" where
  "scope_ranking req sc routes now =
     RankedRoutesFromRoutesFiltered (scope_candidates req sc routes) (req_filter req) (req_penalty req) now"

lemma selectScope_cases:
  assumes "selectScope req (req_filter req) (req_penalty req) now sc (scope_candidates req sc routes) ats = (res, ats')"
  shows "res = None \<longleftrightarrow> scope_ranking req sc routes now = []"
    and "res = Some (Resolved sc' r alts ex) \<Longrightarrow> sc' = sc \<and> (\<exists>more. scope_ranking req sc routes now = r # more) \<and>
      (alts = (if rq_Alternatives req > 0 then alternatives_of (scope_ranking req sc routes now) (rq_Alternatives req) else None))"
    and "res \<noteq> Some (BadRequest e)" "res \<noteq> Some (NotFound a)"
  using assms unfolding selectScope_def scope_ranking_def [symmetric] Let_def
  by (auto split: list.splits option.splits if_splits)

lemma alternatives_small:
  assumes "0 < n" "n < 2 ^ 63 - 1"
  shows "alternatives_of ranked n = Some (take (nat n) (drop 1 ranked))"
proof -
  have "i64 (1 + n) = 1 + n" using assms by (intro i64_id) (simp add: is_i64_def)
  with assms show ?thesis by (cases ranked) (auto simp: alternatives_of_def Let_def)
qed

text \<open>Where the answer comes from: the first scope the request looks at that has a match.\<close>

definition try_scope ::
    "resolve_request \<Rightarrow> routes \<Rightarrow> instant \<Rightarrow> scope \<Rightarrow> attempt list \<Rightarrow> resolve_response option \<times> attempt list" where
  "try_scope req routes now sc ats =
     (if looks_at req sc
      then selectScope req (req_filter req) (req_penalty req) now sc (scope_candidates req sc routes) ats
      else (None, ats))"

definition try_all :: "resolve_request \<Rightarrow> routes \<Rightarrow> instant \<Rightarrow> resolve_response" where
  "try_all req routes now =
     (case try_scope req routes now Site [] of
        (Some resp, _) \<Rightarrow> resp
      | (None, ats1) \<Rightarrow> (case try_scope req routes now Region ats1 of
          (Some resp, _) \<Rightarrow> resp
        | (None, ats2) \<Rightarrow> (case try_scope req routes now Global ats2 of
            (Some resp, _) \<Rightarrow> resp
          | (None, ats3) \<Rightarrow> NotFound (explained req ats3))))"

lemma resolve_eq:
  "(\<exists>e. resolveRoute routes req now = BadRequest e) \<or> resolveRoute routes req now = try_all req routes now"
proof (cases "scope_of (if trim_space (rq_MaxScope req) = [] then ''global'' else trim_space (rq_MaxScope req))")
  case None
  then show ?thesis by (simp add: resolveRoute_def Let_def del: scope_of.simps)
next
  case (Some ms)
  note look = looks_at_def Let_def Some
  have s: "try_scope req routes now Site ats = (if trim_space (rq_Site req) \<noteq> [] \<and> scopeRank ms \<ge> scopeRank Site
      then selectScope req (req_filter req) (req_penalty req) now Site
        (filter (at_site (trim_space (rq_Site req)) (trim_space (rq_Region req))) routes) ats else (None, ats))" for ats
    using Some by (simp add: try_scope_def look scope_candidates_def conj_commute del: scope_of.simps)
  have r: "try_scope req routes now Region ats = (if trim_space (rq_Region req) \<noteq> [] \<and> scopeRank ms \<ge> scopeRank Region
      then selectScope req (req_filter req) (req_penalty req) now Region
        (filter (in_region (trim_space (rq_Region req))) routes) ats else (None, ats))" for ats
    using Some by (simp add: try_scope_def look scope_candidates_def conj_commute del: scope_of.simps)
  have g: "try_scope req routes now Global ats = (if scopeRank ms \<ge> scopeRank Global
      then selectScope req (req_filter req) (req_penalty req) now Global (filter anywhere routes) ats else (None, ats))" for ats
    using Some by (simp add: try_scope_def look scope_candidates_def del: scope_of.simps)
  show ?thesis
    unfolding resolveRoute_def resolve_scopes_def Let_def Some option.case try_all_def s r g
      req_filter_def req_penalty_def by (simp only: split: if_split) blast
qed

lemma resolve_structure:
  assumes "resolveRoute routes req now = Resolved sc r alts ex"
  shows "looks_at req sc \<and> (\<exists>more. scope_ranking req sc routes now = r # more) \<and>
    (\<forall>sc'. scopeRank sc' < scopeRank sc \<and> looks_at req sc' \<longrightarrow> scope_ranking req sc' routes now = []) \<and>
    alts = (if rq_Alternatives req > 0 then alternatives_of (scope_ranking req sc routes now) (rq_Alternatives req) else None)"
proof -
  have all: "try_all req routes now = Resolved sc r alts ex" using resolve_eq [of routes req now] assms by auto
  have none: "looks_at req sc' \<longrightarrow> scope_ranking req sc' routes now = []"
    if "try_scope req routes now sc' ats = (None, ats')" for sc' ats ats'
    using that selectScope_cases(1) [of req now sc' routes ats None ats'] by (auto simp: try_scope_def split: if_splits)
  have some: "sc' = sc \<and> looks_at req sc \<and> (\<exists>more. scope_ranking req sc routes now = r # more) \<and>
      alts = (if rq_Alternatives req > 0 then alternatives_of (scope_ranking req sc routes now) (rq_Alternatives req) else None)"
    if "try_scope req routes now sc' ats = (Some (Resolved sc r alts ex), ats')" for sc' ats ats'
    using that selectScope_cases(2) [of req now sc' routes ats "Some (Resolved sc r alts ex)" ats' sc r alts ex]
    by (auto simp: try_scope_def split: if_splits)
  obtain r1 a1 where t1: "try_scope req routes now Site [] = (r1, a1)" by fastforce
  obtain r2 a2 where t2: "try_scope req routes now Region a1 = (r2, a2)" by fastforce
  obtain r3 a3 where t3: "try_scope req routes now Global a2 = (r3, a3)" by fastforce
  have below: "scopeRank sc' < scopeRank Site \<Longrightarrow> False" "scopeRank sc' < scopeRank Region \<Longrightarrow> sc' = Site"
    "scopeRank sc' < scopeRank Global \<Longrightarrow> sc' = Site \<or> sc' = Region" for sc' by (cases sc'; simp)+
  show ?thesis
  proof (cases r1)
    case (Some x)
    with all t1 have "r1 = Some (Resolved sc r alts ex)" by (simp add: try_all_def)
    with some [of Site "[]" a1] t1 below show ?thesis by blast
  next
    case None
    note n1 = none [OF t1 [unfolded None]]
    show ?thesis
    proof (cases r2)
      case (Some x)
      with all t1 t2 \<open>r1 = None\<close> have "r2 = Some (Resolved sc r alts ex)" by (simp add: try_all_def)
      with some [of Region a1 a2] t2 below n1 show ?thesis by blast
    next
      case None
      note n2 = none [OF t2 [unfolded None]]
      have "r3 = Some (Resolved sc r alts ex)"
        using all t1 t2 t3 \<open>r1 = None\<close> None by (cases r3) (simp_all add: try_all_def)
      with some [of Global a2 a3] t3 below n1 n2 show ?thesis by blast
    qed
  qed
qed

section \<open>Properties\<close>


definition ex_request :: resolve_request where
  "ex_request = (empty_request [])\<lparr>rq_Site := '' lab '', rq_Alternatives := 1\<rparr>"

definition ex_routes :: routes where
  "ex_routes = [(ex_route ''far'' 90 False)\<lparr>rt_Tags := [''site'' \<mapsto> ''lab'']\<rparr>, ex_route ''any'' 1 False,
     (ex_route ''near'' 20 False)\<lparr>rt_Tags := [''site'' \<mapsto> ''lab '']\<rparr>]"

lemma ex_resolve:
  "\<exists>ex. resolveRoute ex_routes ex_request 7 = Resolved Site ((ex_route ''near'' 20 False)\<lparr>rt_Tags := [''site'' \<mapsto> ''lab '']\<rparr>)
     (Some [(ex_route ''far'' 90 False)\<lparr>rt_Tags := [''site'' \<mapsto> ''lab'']\<rparr>]) ex"
  by (simp add: resolveRoute_def resolve_scopes_def ex_request_def empty_request_def ex_routes_def ex_route_def
      trim_space_def is_space_def selectScope_def RankedRoutesFromRoutesFiltered_def at_site_def tag_of_def
      routeMatchesFilter_def matchTags_def routeScore_def f64_round_small alternatives_of_def i64_def
      SatellitePenaltyMs_def Let_def)


text \<open>Asking for the largest int as the number of alternatives overflows the bound of the slice
  expression, which panics as soon as two routes match.\<close>

lemma largest_alternatives_panic: "1 < length ranked \<Longrightarrow> alternatives_of ranked (2 ^ 63 - 1) = None"
  by (simp add: alternatives_of_def i64_def Let_def)

end
