(* ===== verification/NetAddr.thy ===== *)
theory NetAddr
  imports GoPrelude
begin

text \<open>
  The part of the standard package \<^verbatim>\<open>net\<close> that the access checks of
  \<^verbatim>\<open>cmd/spectral-cloud/main.go\<close> use, on byte strings: \<^verbatim>\<open>SplitHostPort\<close>,
  \<^verbatim>\<open>ParseIP\<close> (dotted IPv4, IPv6 with one ellipsis and an IPv4 tail, no zone),
  \<^verbatim>\<open>ParseCIDR\<close>, \<^verbatim>\<open>IPNet.Contains\<close> and \<^verbatim>\<open>IP.IsLoopback\<close>; and the
  functions of the server built on them: \<open>clientIP\<close>, \<open>isLocalRequest\<close>,
  \<open>adminIPAllowed\<close> and \<open>parseCIDRList\<close>. An address is the list of its bytes, sixteen of
  them as \<^verbatim>\<open>ParseIP\<close> returns it, an IPv4 address being the last four after the
  mapped prefix.
\<close>

unbundle bit_operations_syntax

type_synonym byte = "8 word"
type_synonym ip = "byte list"

section \<open>Addresses\<close>

definition v4_prefix :: "byte list" where
  "v4_prefix = replicate 10 0 @ [255, 255]"

definition ip_To4 :: "ip \<Rightarrow> ip option" where
  "ip_To4 a =
     (if length a = 4 then Some a
      else if length a = 16 \<and> take 12 a = v4_prefix then Some (drop 12 a)
      else None)"

definition ip_IsLoopback :: "ip \<Rightarrow> bool" where
  "ip_IsLoopback a = (case ip_To4 a of Some b \<Rightarrow> hd b = 127 | None \<Rightarrow> a = replicate 15 0 @ [1])"

definition parse_octet :: "string \<Rightarrow> byte option" where
  "parse_octet s =
     (if s = [] \<or> \<not> list_all is_digit s \<or> (1 < length s \<and> hd s = CHR ''0'') \<or> 255 < digits_val s
      then None else Some (word_of_nat (digits_val s)))"

fun all_some :: "'a option list \<Rightarrow> 'a list option" where
  "all_some [] = Some []"
| "all_some (None # _) = None"
| "all_some (Some x # xs) = map_option (Cons x) (all_some xs)"

definition parse_v4 :: "string \<Rightarrow> ip option" where
  "parse_v4 s =
     (let fs = split_on (CHR ''.'') s
      in if length fs \<noteq> 4 then None else all_some (map parse_octet fs))"

definition hex_val :: "char \<Rightarrow> nat option" where
  "hex_val c =
     (if is_digit c then Some (digit_val c)
      else if CHR ''a'' \<le> c \<and> c \<le> CHR ''f'' then Some (of_char c - 87)
      else if CHR ''A'' \<le> c \<and> c \<le> CHR ''F'' then Some (of_char c - 55)
      else None)"

definition hex_run :: "string \<Rightarrow> string" where
  "hex_run s = takeWhile (\<lambda>c. hex_val c \<noteq> None) s"

definition hex_num :: "string \<Rightarrow> nat" where
  "hex_num s = foldl (\<lambda>v c. 16 * v + the (hex_val c)) 0 s"

definition group_bytes :: "nat \<Rightarrow> byte list" where
  "group_bytes n = [word_of_nat (n div 256), word_of_nat n]"

text \<open>The group loop of the IPv6 parser: \<open>n\<close> groups may still follow, \<open>acc\<close> holds the bytes
  read, \<open>ell\<close> the number of bytes before the ellipsis. The result is the final state of the
  loop with what is left of the input.\<close>

fun v6_groups :: "nat \<Rightarrow> byte list \<Rightarrow> nat option \<Rightarrow> string \<Rightarrow> (byte list \<times> nat option \<times> string) option" where
  "v6_groups 0 acc ell s = Some (acc, ell, s)"
| "v6_groups (Suc n) acc ell s =
     (let h = hex_run s; rest = drop (length h) s
      in if h = [] \<or> 4 < length h then None
         else if rest \<noteq> [] \<and> hd rest = CHR ''.'' then
           if ell = None \<and> length acc \<noteq> 12 then None
           else if 16 < length acc + 4 then None
           else (case parse_v4 s of None \<Rightarrow> None | Some q \<Rightarrow> Some (acc @ q, ell, []))
         else
           let acc' = acc @ group_bytes (hex_num h)
           in case rest of
                [] \<Rightarrow> Some (acc', ell, [])
              | c # s1 \<Rightarrow>
                  if c \<noteq> CHR '':'' \<or> s1 = [] then None
                  else if hd s1 = CHR '':'' then
                    if ell \<noteq> None then None
                    else if tl s1 = [] then Some (acc', Some (length acc'), [])
                    else v6_groups n acc' (Some (length acc')) (tl s1)
                  else v6_groups n acc' ell s1)"

definition parse_v6 :: "string \<Rightarrow> ip option" where
  "parse_v6 s =
     (let start = (if prefix ''::'' s then (if drop 2 s = [] then Some ([], Some 0, []) else v6_groups 8 [] (Some 0) (drop 2 s))
                   else v6_groups 8 [] None s)
      in case start of
           None \<Rightarrow> None
         | Some (acc, ell, rest) \<Rightarrow>
             if rest \<noteq> [] then None
             else if length acc < 16 then
               (case ell of None \<Rightarrow> None
                | Some k \<Rightarrow> Some (take k acc @ replicate (16 - length acc) 0 @ drop k acc))
             else if ell \<noteq> None then None
             else Some acc)"

text \<open>\<^verbatim>\<open>netip.ParseAddr\<close> picks the notation by the first of the characters
  \<^verbatim>\<open>. : %\<close>; an address with a zone is refused by the callers. The result carries the
  number of bits of the notation.\<close>

definition parse_addr :: "string \<Rightarrow> (ip \<times> nat) option" where
  "parse_addr s =
     (if CHR ''%'' \<in> set s then None
      else case dropWhile (\<lambda>c. c \<noteq> CHR ''.'' \<and> c \<noteq> CHR '':'') s of
             [] \<Rightarrow> None
           | c # _ \<Rightarrow>
               if c = CHR ''.'' then map_option (\<lambda>a. (v4_prefix @ a, 32)) (parse_v4 s)
               else map_option (\<lambda>a. (a, 128)) (parse_v6 s))"

definition net_ParseIP :: "string \<Rightarrow> ip option" where
  "net_ParseIP s = map_option fst (parse_addr s)"

text \<open>\<^verbatim>\<open>net.SplitHostPort\<close>; only the host and whether there was an error are used.\<close>

definition last_index :: "char \<Rightarrow> string \<Rightarrow> nat option" where
  "last_index c s = (if c \<in> set s then Some (length s - 1 - length (takeWhile (\<lambda>d. d \<noteq> c) (rev s))) else None)"

definition first_index :: "char \<Rightarrow> string \<Rightarrow> nat option" where
  "first_index c s = (if c \<in> set s then Some (length (takeWhile (\<lambda>d. d \<noteq> c) s)) else None)"

definition net_SplitHostPort :: "string \<Rightarrow> string option" where
  "net_SplitHostPort hp =
     (case last_index (CHR '':'') hp of
        None \<Rightarrow> None
      | Some i \<Rightarrow>
          if hd hp = CHR ''['' then
            (case first_index (CHR '']'') hp of
               None \<Rightarrow> None
             | Some e \<Rightarrow>
                 if e + 1 \<noteq> i then None
                 else if CHR ''['' \<in> set (drop 1 hp) \<or> CHR '']'' \<in> set (drop (e + 1) hp) then None
                 else Some (take (e - 1) (drop 1 hp)))
          else if CHR '':'' \<in> set (take i hp) \<or> CHR ''['' \<in> set hp \<or> CHR '']'' \<in> set hp then None
          else Some (take i hp))"

section \<open>Networks\<close>

record ipnet =
  in_IP :: ip
  in_Mask :: "byte list"

fun cidr_mask :: "nat \<Rightarrow> nat \<Rightarrow> byte list" where
  "cidr_mask n 0 = []"
| "cidr_mask n (Suc l) =
     (if 8 \<le> n then 255 # cidr_mask (n - 8) l else NOT (drop_bit n 255) # cidr_mask 0 l)"

text \<open>\<^verbatim>\<open>IP.Mask\<close>: an IPv4 mask is applied to the last four bytes of a mapped address.\<close>

definition ip_Mask :: "ip \<Rightarrow> byte list \<Rightarrow> ip" where
  "ip_Mask a m =
     (let b = (if length m = 4 \<and> length a = 16 \<and> take 12 a = v4_prefix then drop 12 a else a)
      in map2 (AND) b m)"

definition net_ParseCIDR :: "string \<Rightarrow> string + ipnet" where
  "net_ParseCIDR s =
     (case split2 (CHR ''/'') s of
        [addr, m] \<Rightarrow>
          (case parse_addr addr of
             None \<Rightarrow> Inl ''invalid CIDR address''
           | Some (a, bits) \<Rightarrow>
               if m = [] \<or> \<not> list_all is_digit m \<or> bits < digits_val m then Inl ''invalid CIDR address''
               else let mask = cidr_mask (digits_val m) (bits div 8)
                    in Inr \<lparr>in_IP = ip_Mask a mask, in_Mask = mask\<rparr>)
      | _ \<Rightarrow> Inl ''invalid CIDR address'')"

text \<open>\<^verbatim>\<open>IPNet.Contains\<close>, with the normalisation of the network number and mask.\<close>

definition network_number_and_mask :: "ipnet \<Rightarrow> (ip \<times> byte list) option" where
  "network_number_and_mask n =
     (let a = (case ip_To4 (in_IP n) of Some b \<Rightarrow> b | None \<Rightarrow> in_IP n); m = in_Mask n
      in if length a \<noteq> 4 \<and> length a \<noteq> 16 then None
         else if length m = 4 then (if length a \<noteq> 4 then None else Some (a, m))
         else if length m = 16 then Some (a, if length a = 4 then drop 12 m else m)
         else None)"

definition ipnet_Contains :: "ipnet \<Rightarrow> ip \<Rightarrow> bool" where
  "ipnet_Contains n a =
     (let b = (case ip_To4 a of Some x \<Rightarrow> x | None \<Rightarrow> a)
      in case network_number_and_mask n of
           None \<Rightarrow> b = []
         | Some (nn, m) \<Rightarrow>
             length b = length nn \<and>
             (\<forall>i \<in> set [0..<length b]. nn ! i AND m ! i = b ! i AND m ! i))"

section \<open>The access checks of the server\<close>

definition clientIP :: "string \<Rightarrow> ip option" where
  "clientIP RemoteAddr =
     net_ParseIP (case net_SplitHostPort RemoteAddr of Some h \<Rightarrow> h | None \<Rightarrow> RemoteAddr)"

definition isLocalRequest :: "string \<Rightarrow> bool" where
  "isLocalRequest RemoteAddr =
     (case net_ParseIP (case net_SplitHostPort RemoteAddr of Some h \<Rightarrow> h | None \<Rightarrow> RemoteAddr) of
        None \<Rightarrow> False | Some a \<Rightarrow> ip_IsLoopback a)"

definition adminIPAllowed :: "string \<Rightarrow> ipnet list \<Rightarrow> bool \<Rightarrow> bool" where
  "adminIPAllowed RemoteAddr allowlist allowRemote =
     (case clientIP RemoteAddr of
        None \<Rightarrow> False
      | Some a \<Rightarrow>
          if allowlist \<noteq> [] then list_ex (\<lambda>n. ipnet_Contains n a) allowlist
          else if allowRemote then True
          else ip_IsLoopback a)"

fun parse_cidrs :: "string list \<Rightarrow> string + ipnet list" where
  "parse_cidrs [] = Inr []"
| "parse_cidrs (part # parts) =
     (let p = trim_space part
      in if p = [] then parse_cidrs parts
         else case net_ParseCIDR p of
                Inl e \<Rightarrow> Inl e
              | Inr n \<Rightarrow> (case parse_cidrs parts of Inl e \<Rightarrow> Inl e | Inr ns \<Rightarrow> Inr (n # ns)))"

definition parseCIDRList :: "string \<Rightarrow> string + ipnet list" where
  "parseCIDRList raw =
     (let r = trim_space raw in if r = [] then Inr [] else parse_cidrs (split_on (CHR '','') r))"

section \<open>What a network contains\<close>

definition byte_bits :: "byte \<Rightarrow> bool list" where
  "byte_bits b = map (\<lambda>j. bit b (7 - j)) [0..<8]"

definition ip_bits :: "ip \<Rightarrow> bool list" where
  "ip_bits a = concat (map byte_bits a)"

abbreviation masked :: "ip \<Rightarrow> byte list \<Rightarrow> ip" where
  "masked a m \<equiv> map2 (AND) a m"

lemma byte_bits_length [simp]: "length (byte_bits b) = 8"
  by (simp add: byte_bits_def)

lemma ip_bits_simps [simp]:
  "ip_bits [] = []" "ip_bits (b # a) = byte_bits b @ ip_bits a" "ip_bits (a @ c) = ip_bits a @ ip_bits c"
  by (simp_all add: ip_bits_def)

lemma ip_bits_length [simp]: "length (ip_bits a) = 8 * length a"
  by (induction a) simp_all

lemma cidr_mask_length [simp]: "length (cidr_mask n l) = l"
  by (induction l arbitrary: n) simp_all

lemma masked_length: "length a = length m \<Longrightarrow> length (masked a m) = length m"
  by simp

lemma bit_255: "bit (255 :: byte) j \<longleftrightarrow> j < 8"
proof -
  have "(255 :: byte) = - 1" by simp
  then show ?thesis unfolding \<open>(255 :: byte) = - 1\<close> by (simp add: possible_bit_def)
qed

lemma take_byte_bits:
  assumes "n \<le> 8"
  shows "take n (byte_bits x) = take n (byte_bits y) \<longleftrightarrow> (\<forall>j. 8 - n \<le> j \<and> j < 8 \<longrightarrow> (bit x j \<longleftrightarrow> bit y j))"
proof -
  have "take n (byte_bits x) = take n (byte_bits y) \<longleftrightarrow> (\<forall>j < n. bit x (7 - j) \<longleftrightarrow> bit y (7 - j))"
    using assms by (auto simp: list_eq_iff_nth_eq byte_bits_def)
  also have "\<dots> \<longleftrightarrow> (\<forall>j. 8 - n \<le> j \<and> j < 8 \<longrightarrow> (bit x j \<longleftrightarrow> bit y j))"
  proof (rule iffI; intro allI impI)
    fix j assume h: "\<forall>j < n. bit x (7 - j) \<longleftrightarrow> bit y (7 - j)" "8 - n \<le> j \<and> j < 8"
    then have "7 - j < n" "7 - (7 - j) = j" using assms by linarith+
    with h(1) show "bit x j \<longleftrightarrow> bit y j" by metis
  next
    fix j assume h: "\<forall>j. 8 - n \<le> j \<and> j < 8 \<longrightarrow> (bit x j \<longleftrightarrow> bit y j)" "j < n"
    then have "8 - n \<le> 7 - j \<and> 7 - j < 8" using assms by linarith
    with h(1) show "bit x (7 - j) \<longleftrightarrow> bit y (7 - j)" by blast
  qed
  finally show ?thesis .
qed

lemma masked_byte:
  assumes "n < 8"
  shows "x AND NOT (drop_bit n 255) = y AND NOT (drop_bit n 255) \<longleftrightarrow>
    take n (byte_bits x) = take n (byte_bits y)" (is "?l \<longleftrightarrow> ?r")
proof -
  have "?l \<longleftrightarrow> (\<forall>j < 8. \<not> n + j < 8 \<longrightarrow> (bit x j \<longleftrightarrow> bit y j))"
    using bit_255 by (auto simp: bit_eq_iff bit_and_iff bit_not_iff bit_drop_bit_eq simp del: bit_numeral_iff)
  also have "\<dots> \<longleftrightarrow> ?r" using assms by (auto simp: take_byte_bits)
  finally show ?thesis .
qed

lemma byte_bits_inject: "byte_bits x = byte_bits y \<longleftrightarrow> x = y"
  using take_byte_bits [of 8 x y] by (auto simp: bit_eq_iff)

lemma ip_bits_inject: "length a = length b \<Longrightarrow> ip_bits a = ip_bits b \<longleftrightarrow> a = b"
  by (induction a b rule: list_induct2) (simp_all add: byte_bits_inject)

lemma and_255 [simp]: "(x :: byte) AND 255 = x"
  using bit_255 by (auto simp: bit_eq_iff bit_and_iff)

text \<open>Masking with the first \<open>n\<close> bits compares exactly those bits.\<close>

lemma masked_eq_iff:
  assumes "length a = length b" "n \<le> 8 * length a"
  shows "masked a (cidr_mask n (length a)) = masked b (cidr_mask n (length a)) \<longleftrightarrow>
    take n (ip_bits a) = take n (ip_bits b)"
  using assms
proof (induction a b arbitrary: n rule: list_induct2)
  case (Cons x a y b)
  show ?case
  proof (cases "8 \<le> n")
    case True
    with Cons.prems Cons.IH [of "n - 8"] show ?thesis by (simp add: byte_bits_inject)
  next
    case False
    with Cons.IH [of 0] show ?thesis by (simp add: masked_byte)
  qed
qed simp

lemma masked_masked [simp]: "length a = length m \<Longrightarrow> masked (masked a m) m = masked a m"
  by (induction a m rule: list_induct2) (simp_all add: and.assoc)

lemma pointwise_masked:
  "length a = length b \<Longrightarrow> length m = length a \<Longrightarrow>
    (\<forall>i \<in> set [0..<length b]. a ! i AND m ! i = b ! i AND m ! i) \<longleftrightarrow> masked a m = masked b m"
proof (induction a b arbitrary: m rule: list_induct2)
  case (Cons x a y b)
  then obtain k m' where "m = k # m'" "length m' = length a" by (cases m) auto
  with Cons.IH [of m'] show ?case by (simp add: atLeast0LessThan lessThan_Suc_eq_insert_0 del: upt_Suc)
qed simp

lemma cidr_mask_append:
  "n \<le> 8 * k \<Longrightarrow> cidr_mask n (k + l) = cidr_mask n k @ cidr_mask 0 l"
  "8 * k \<le> n \<Longrightarrow> cidr_mask n (k + l) = cidr_mask n k @ cidr_mask (n - 8 * k) l"
  "8 * k \<le> n \<Longrightarrow> cidr_mask n k = replicate k 255"
  by (induction k arbitrary: n) auto

lemma take_ip_bits_append:
  assumes "length x = length y"
  shows "take (8 * length x + n) (ip_bits (x @ u)) = take (8 * length x + n) (ip_bits (y @ v)) \<longleftrightarrow>
    x = y \<and> take n (ip_bits u) = take n (ip_bits v)"
  using assms by (simp add: ip_bits_inject)

lemma v4_prefix_length [simp]: "length v4_prefix = 12"
  by (simp add: v4_prefix_def)

lemma ip_To4_cases:
  assumes "length a = 16"
  obtains (v4) q where "a = v4_prefix @ q" "length q = 4" "ip_To4 a = Some q"
  | (v6) "take 12 a \<noteq> v4_prefix" "ip_To4 a = None"
proof (cases "take 12 a = v4_prefix")
  case True
  with assms v4 [of "drop 12 a"] show ?thesis by (simp add: ip_To4_def) (metis append_take_drop_id)
next
  case False
  with assms v6 show ?thesis by (simp add: ip_To4_def)
qed

lemma contains_v4_net:
  assumes "length q = 4" "n \<le> 32" "length a = 16"
  shows "ipnet_Contains \<lparr>in_IP = masked q (cidr_mask n 4), in_Mask = cidr_mask n 4\<rparr> a \<longleftrightarrow>
    take (96 + n) (ip_bits a) = take (96 + n) (ip_bits (v4_prefix @ q))"
proof -
  let ?m = "cidr_mask n 4"
  have net: "network_number_and_mask \<lparr>in_IP = masked q ?m, in_Mask = ?m\<rparr> = Some (masked q ?m, ?m)"
    using assms(1) by (simp add: network_number_and_mask_def ip_To4_def Let_def)
  from assms(3) show ?thesis
  proof (cases rule: ip_To4_cases)
    case (v4 b)
    have "ipnet_Contains \<lparr>in_IP = masked q ?m, in_Mask = ?m\<rparr> a \<longleftrightarrow> masked (masked q ?m) ?m = masked b ?m"
      using pointwise_masked [of "masked q ?m" b ?m] assms(1) v4 net by (simp add: ipnet_Contains_def)
    also have "\<dots> \<longleftrightarrow> take n (ip_bits b) = take n (ip_bits q)"
      using masked_eq_iff [of q b n] assms v4 by auto
    finally show ?thesis
      using take_ip_bits_append [of v4_prefix v4_prefix n b q] v4(1) by simp
  next
    case v6
    have "take (96 + n) (ip_bits a) \<noteq> take (96 + n) (ip_bits (v4_prefix @ q))"
      using take_ip_bits_append [of "take 12 a" v4_prefix n "drop 12 a" q] assms(3) v6(1) by simp
    with v6 net assms show ?thesis by (simp add: ipnet_Contains_def)
  qed
qed

lemma masked_take:
  "length a = 16 \<Longrightarrow> 96 \<le> n \<Longrightarrow> take 12 (masked a (cidr_mask n 16)) = take 12 a"
proof -
  assume a: "length a = 16" and n: "96 \<le> n"
  have "cidr_mask n 16 = replicate 12 255 @ cidr_mask (n - 96) 4"
    using cidr_mask_append(2) [of 12 n 4] cidr_mask_append(3) [of 12 n] n by simp
  then have "take 12 (masked a (cidr_mask n 16)) = masked (take 12 a) (replicate 12 255)"
    by (simp add: take_map take_zip)
  also have "\<dots> = take 12 a" using a by (simp add: list_eq_iff_nth_eq)
  finally show ?thesis .
qed

lemma mapped_net_long:
  assumes "length a = 16" "take 12 (masked a (cidr_mask n 16)) = v4_prefix"
  shows "96 \<le> n"
proof (rule ccontr)
  assume n: "\<not> 96 \<le> n"
  have m: "cidr_mask n 16 = cidr_mask n 12 @ cidr_mask 0 4"
    using cidr_mask_append(1) [of n 12 4] n by simp
  have "bit (cidr_mask n 12 ! 11) 0"
  proof -
    have "take 12 (masked a (cidr_mask n 16)) ! 11 = v4_prefix ! 11" by (simp only: assms(2))
    then have "masked a (cidr_mask n 16) ! 11 = v4_prefix ! 11" by (subst (asm) nth_take) simp_all
    then have "a ! 11 AND cidr_mask n 12 ! 11 = 255" using assms(1) m by (simp add: nth_append v4_prefix_def)
    then have "bit (a ! 11 AND cidr_mask n 12 ! 11) 0" by simp
    then show ?thesis by (simp add: bit_and_iff)
  qed
  moreover
  have "\<not> bit (cidr_mask k (Suc l) ! l) 0" if "k < 8 * Suc l" for k l
    using that
  proof (induction l arbitrary: k)
    case 0
    then show ?case using bit_255 [of k] by (simp add: bit_not_iff bit_drop_bit_eq del: bit_numeral_iff bit_0)
  next
    case (Suc l)
    from Suc.IH [of "k - 8"] Suc.IH [of 0] Suc.prems show ?case by (cases "8 \<le> k") auto
  qed
  from this [of n 11] n have "\<not> bit (cidr_mask n 12 ! 11) 0" by simp
  ultimately show False by blast
qed

lemma contains_v6_net:
  assumes "length c = 16" "n \<le> 128" "length a = 16"
  shows "ipnet_Contains \<lparr>in_IP = masked c (cidr_mask n 16), in_Mask = cidr_mask n 16\<rparr> a \<longleftrightarrow>
    take n (ip_bits a) = take n (ip_bits c) \<and> (ip_To4 a \<noteq> None \<longrightarrow> 96 \<le> n)"
proof -
  let ?m = "cidr_mask n 16" let ?c = "masked c ?m" let ?net = "\<lparr>in_IP = ?c, in_Mask = ?m\<rparr>"
  have len: "length ?c = 16" using assms(1) by simp
  have bits: "masked ?c ?m = masked a ?m \<longleftrightarrow> take n (ip_bits a) = take n (ip_bits c)"
    using masked_eq_iff [of c a n] assms by auto
  from len show ?thesis
  proof (cases rule: ip_To4_cases)
    case (v4 q)
    then have n: "96 \<le> n" using mapped_net_long assms(1) by simp
    have m: "?m = replicate 12 255 @ drop 12 ?m"
      using cidr_mask_append(2) [of 12 n 4] cidr_mask_append(3) [of 12 n] n by simp
    have net: "network_number_and_mask ?net = Some (q, drop 12 ?m)"
      using v4 by (simp add: network_number_and_mask_def Let_def)
    from assms(3) show ?thesis
    proof (cases rule: ip_To4_cases)
      case aV4: (v4 b)
      have "ipnet_Contains ?net a \<longleftrightarrow> masked q (drop 12 ?m) = masked b (drop 12 ?m)"
        using pointwise_masked [of q b "drop 12 ?m"] v4(2) aV4 net by (simp add: ipnet_Contains_def)
      also have "\<dots> \<longleftrightarrow> masked (v4_prefix @ q) ?m = masked (v4_prefix @ b) ?m"
        by (subst (3 4) m) (simp add: v4(2) aV4(2))
      finally show ?thesis using bits n aV4 v4(1) by simp
    next
      case aV6: v6
      have "masked ?c ?m \<noteq> masked a ?m"
        using v4(1) masked_take [of ?c n] masked_take [of a n] n len assms(3) aV6(1) by force
      with bits aV6 net v4 assms(3) show ?thesis by (simp add: ipnet_Contains_def)
    qed
  next
    case v6
    have net: "network_number_and_mask ?net = Some (?c, ?m)"
      using v6 len by (simp add: network_number_and_mask_def Let_def)
    from assms(3) show ?thesis
    proof (cases rule: ip_To4_cases)
      case aV4: (v4 b)
      have "\<not> (masked ?c ?m = masked a ?m \<and> 96 \<le> n)"
        using v6(1) masked_take [of ?c n] masked_take [of a n] len assms(3) aV4 by force
      moreover have "\<not> ipnet_Contains ?net a" using net aV4 len by (simp add: ipnet_Contains_def)
      ultimately show ?thesis using bits aV4 by auto
    next
      case aV6: v6
      have "ipnet_Contains ?net a \<longleftrightarrow> masked ?c ?m = masked a ?m"
        using pointwise_masked [of ?c a ?m] assms(3) len net aV6 by (simp add: ipnet_Contains_def)
      with bits aV6 show ?thesis by simp
    qed
  qed
qed

lemma all_some_length: "all_some xs = Some ys \<Longrightarrow> length ys = length xs"
  by (induction xs arbitrary: ys rule: all_some.induct) auto

lemma parse_v4_length: "parse_v4 s = Some q \<Longrightarrow> length q = 4"
  by (auto simp: parse_v4_def Let_def dest!: all_some_length split: if_splits)

lemma v6_groups_bound:
  "v6_groups n acc ell s = Some (acc', ell', s') \<Longrightarrow> length acc + 2 * n \<le> 16 \<Longrightarrow>
    (\<forall>k. ell = Some k \<longrightarrow> k \<le> length acc) \<Longrightarrow> length acc' \<le> 16 \<and> (\<forall>k. ell' = Some k \<longrightarrow> k \<le> length acc')"
proof (induction n acc ell s rule: v6_groups.induct)
  case (2 n acc ell s)
  from 2(3) show ?case
    using 2(1) [OF refl refl _ _ refl] 2(2) [OF refl refl _ _ refl] 2(4,5)
    by (force simp: Let_def group_bytes_def dest: parse_v4_length split: if_splits option.splits list.splits)
qed auto

lemma parse_v6_length:
  assumes "parse_v6 s = Some a"
  shows "length a = 16"
proof (cases "prefix ''::'' s \<and> drop 2 s = []")
  case True
  with assms show ?thesis by (auto simp: parse_v6_def)
next
  case False
  with assms obtain acc ell where "length acc \<le> 16" "\<forall>k. ell = Some k \<longrightarrow> k \<le> length acc"
    and "Some a = (if length acc < 16 then (case ell of None \<Rightarrow> None
         | Some k \<Rightarrow> Some (take k acc @ replicate (16 - length acc) 0 @ drop k acc))
       else if ell \<noteq> None then None else Some acc)"
    using v6_groups_bound [of 8 "[]" "Some 0" "drop 2 s"] v6_groups_bound [of 8 "[]" None s]
    by (auto simp: parse_v6_def Let_def split: if_splits option.splits)
  then show ?thesis by (auto split: if_splits option.splits)
qed

lemma parse_addr_cases:
  assumes "parse_addr s = Some (c, bits)"
  obtains (v4) q where "c = v4_prefix @ q" "length q = 4" "bits = 32" | (v6) "length c = 16" "bits = 128"
  using assms by (auto simp: parse_addr_def split: if_splits list.splits dest: parse_v4_length parse_v6_length)

lemma split2_shape: "split2 d s = [x, y] \<Longrightarrow> s = x @ [d] @ y"
proof -
  assume s: "split2 d s = [x, y]"
  then have d: "d \<in> set s" "x = takeWhile (\<lambda>c. c \<noteq> d) s" "y = tl (dropWhile (\<lambda>c. c \<noteq> d) s)"
    by (auto simp: split2_def split: if_splits)
  from d(1) have "dropWhile (\<lambda>c. c \<noteq> d) s = d # y"
    using d(3) hd_dropWhile [of "\<lambda>c. c \<noteq> d" s] by (metis (full_types) dropWhile_eq_Nil_conv list.collapse)
  with d(2) takeWhile_dropWhile_id [of "\<lambda>c. c \<noteq> d" s] show ?thesis by simp
qed

text \<open>A network of the allow list contains a client exactly when the client's address agrees with
  the address written in the list on the number of leading bits written after the slash, counted in
  the sixteen-byte form; an IPv4 client is in an IPv6 network only when the network lies in the
  mapped range.\<close>

theorem cidr_contains_exact:
  assumes "net_ParseCIDR s = Inr net" "clientIP remote = Some a"
  shows "\<exists>addr m c bits. s = addr @ ''/'' @ m \<and> parse_addr addr = Some (c, bits) \<and> digits_val m \<le> bits \<and>
    (ipnet_Contains net a \<longleftrightarrow>
       take (128 - bits + digits_val m) (ip_bits a) = take (128 - bits + digits_val m) (ip_bits c) \<and>
       (ip_To4 a \<noteq> None \<longrightarrow> 96 \<le> 128 - bits + digits_val m))"
proof -
  from assms(1) obtain addr m c bits where s: "split2 (CHR ''/'') s = [addr, m]"
    and p: "parse_addr addr = Some (c, bits)" and m: "digits_val m \<le> bits"
    and net: "net = \<lparr>in_IP = ip_Mask c (cidr_mask (digits_val m) (bits div 8)),
       in_Mask = cidr_mask (digits_val m) (bits div 8)\<rparr>"
    by (auto simp: net_ParseCIDR_def Let_def not_less split: list.splits option.splits if_splits)
  from assms(2) have a: "length a = 16"
    by (auto simp: clientIP_def net_ParseIP_def elim: parse_addr_cases)
  from p have "ipnet_Contains net a \<longleftrightarrow>
       take (128 - bits + digits_val m) (ip_bits a) = take (128 - bits + digits_val m) (ip_bits c) \<and>
       (ip_To4 a \<noteq> None \<longrightarrow> 96 \<le> 128 - bits + digits_val m)"
  proof (cases rule: parse_addr_cases)
    case (v4 q)
    with contains_v4_net [of q "digits_val m" a] m a net show ?thesis by (simp add: ip_Mask_def)
  next
    case v6
    with contains_v6_net [of c "digits_val m" a] m a net show ?thesis by (simp add: ip_Mask_def)
  qed
  with split2_shape [OF s] p m show ?thesis by (metis append_Cons append_Nil)
qed

theorem cidr_contains_exact_witness:
  "\<exists>addr m c bits. ''10.0.0.0/8'' = addr @ ''/'' @ m \<and> parse_addr addr = Some (c, bits) \<and> digits_val m \<le> bits \<and>
    (ipnet_Contains \<lparr>in_IP = [10, 0, 0, 0], in_Mask = [255, 0, 0, 0]\<rparr> (v4_prefix @ [10, 1, 2, 3]) \<longleftrightarrow>
       take (128 - bits + digits_val m) (ip_bits (v4_prefix @ [10, 1, 2, 3])) = take (128 - bits + digits_val m) (ip_bits c) \<and>
       (ip_To4 (v4_prefix @ [10, 1, 2, 3]) \<noteq> None \<longrightarrow> 96 \<le> 128 - bits + digits_val m))"
proof (rule cidr_contains_exact [where remote = "''10.1.2.3:5000''"])
  show "net_ParseCIDR ''10.0.0.0/8'' = Inr \<lparr>in_IP = [10, 0, 0, 0], in_Mask = [255, 0, 0, 0]\<rparr>" by code_simp
  show "clientIP ''10.1.2.3:5000'' = Some (v4_prefix @ [10, 1, 2, 3])" by code_simp
qed

end
