(* ===== verification/Billing.thy ===== *)
theory Billing
  imports MemBolt Crypto
begin

text \<open>
  Metering and API keys of \<^verbatim>\<open>pkg/billing/billing.go\<close>.

  The meter counts usage per tenant and metric for the current UTC day. \<^verbatim>\<open>Format("2006-01-02")\<close>
  names a day, so the field \<^verbatim>\<open>day\<close> is the number of the day. The bytes
  \<^verbatim>\<open>crypto/rand\<close> delivers are arguments, \<open>None\<close> when it fails. Profiles and
  keys live in the store only: those operations take and return the database. A nil
  \<^verbatim>\<open>*Meter\<close> does not occur in the server and is not represented; a nil store is
  \<open>None\<close>.

  \<^verbatim>\<open>TouchKey\<close> runs in its own goroutine and uses one transaction to read the key and
  another to write it back; the two halves are \<open>touch_read\<close> and \<open>touch_write\<close>, so that other
  operations can be put between them.
\<close>

section \<open>Usage\<close>

abbreviation MetricAPICalls :: string where "MetricAPICalls \<equiv> ''api_calls''"
abbreviation MetricAITokens :: string where "MetricAITokens \<equiv> ''ai_tokens''"
abbreviation MetricJobs :: string where "MetricJobs \<equiv> ''jobs''"

record quota =
  qt_Agents :: int
  qt_JobsDay :: int
  qt_APIDay :: int
  qt_TokensDay :: int

definition QuotaFor :: "string \<Rightarrow> quota" where
  "QuotaFor p =
     (if p = ''pro'' then \<lparr>qt_Agents = 50, qt_JobsDay = 200000, qt_APIDay = 1000000, qt_TokensDay = 100000000\<rparr>
      else if p = ''enterprise'' then \<lparr>qt_Agents = 250, qt_JobsDay = 2000000, qt_APIDay = 10000000, qt_TokensDay = 2000000000\<rparr>
      else \<lparr>qt_Agents = 10, qt_JobsDay = 20000, qt_APIDay = 100000, qt_TokensDay = 5000000\<rparr>)"

definition day_of :: "instant \<Rightarrow> int" where
  "day_of t = t div (86400 * second_ns)"

record meter =
  mt_usage :: "string \<rightharpoonup> (string \<rightharpoonup> int)"
  mt_day :: int

definition billing_New :: "instant \<Rightarrow> meter" where
  "billing_New now = \<lparr>mt_usage = Map.empty, mt_day = day_of now\<rparr>"

definition rotateDayIfNeededLocked :: "meter \<Rightarrow> instant \<Rightarrow> meter" where
  "rotateDayIfNeededLocked m now =
     (let today = day_of now
      in if today = mt_day m then m else \<lparr>mt_usage = Map.empty, mt_day = today\<rparr>)"

definition billing_Record :: "meter \<Rightarrow> string \<Rightarrow> string \<Rightarrow> int \<Rightarrow> instant \<Rightarrow> meter" where
  "billing_Record m tenant metric delta now =
     (if blank tenant \<or> delta = 0 then m
      else
        let m1 = rotateDayIfNeededLocked m now;
            metrics = (case mt_usage m1 tenant of None \<Rightarrow> Map.empty | Some x \<Rightarrow> x);
            old = (case metrics metric of None \<Rightarrow> 0 | Some n \<Rightarrow> n)
        in m1\<lparr>mt_usage := (mt_usage m1)(tenant \<mapsto> metrics(metric \<mapsto> i64 (old + delta)))\<rparr>)"

definition billing_Usage :: "meter \<Rightarrow> string \<Rightarrow> instant \<Rightarrow> (string \<rightharpoonup> int) \<times> meter" where
  "billing_Usage m tenant now =
     (let m1 = rotateDayIfNeededLocked m now;
          out = [MetricAPICalls \<mapsto> 0, MetricAITokens \<mapsto> 0, MetricJobs \<mapsto> 0]
      in (case mt_usage m1 tenant of None \<Rightarrow> out | Some src \<Rightarrow> out ++ src, m1))"

section \<open>Profiles\<close>

record tenant_profile =
  pf_TenantID :: string
  pf_Name :: string
  pf_Email :: string
  pf_Plan :: string
  pf_Quota :: quota
  pf_CreatedAt :: instant
  pf_UpdatedAt :: instant

definition profileKey :: string where "profileKey = ''billing_profile''"
definition keyPrefix :: string where "keyPrefix = ''billing_key_''"

definition marshal_quota :: "quota \<Rightarrow> json" where
  "marshal_quota q = JObj [(''agents'', JInt (qt_Agents q)), (''jobs_day'', JInt (qt_JobsDay q)),
     (''api_day'', JInt (qt_APIDay q)), (''tokens_day'', JInt (qt_TokensDay q))]"

definition quota_of_fields :: "(string \<times> json) list \<Rightarrow> quota option" where
  "quota_of_fields fs =
     (case (as_int (field fs ''agents''), as_int (field fs ''jobs_day''), as_int (field fs ''api_day''), as_int (field fs ''tokens_day''))
      of (Some a, Some j, Some p, Some t) \<Rightarrow> Some \<lparr>qt_Agents = a, qt_JobsDay = j, qt_APIDay = p, qt_TokensDay = t\<rparr>
       | _ \<Rightarrow> None)"

fun unmarshal_quota :: "json \<Rightarrow> quota option" where
  "unmarshal_quota JNull = quota_of_fields []"
| "unmarshal_quota (JObj fs) = quota_of_fields fs"
| "unmarshal_quota _ = None"

text \<open>\<^verbatim>\<open>omitempty\<close> has no effect on a \<^verbatim>\<open>time.Time\<close>, so both instants are always
  written.\<close>

definition marshal_profile :: "tenant_profile \<Rightarrow> json" where
  "marshal_profile p = JObj ([(''tenant_id'', JStr (pf_TenantID p))] @ opt_str ''name'' (pf_Name p) @
     opt_str ''email'' (pf_Email p) @ [(''plan'', JStr (pf_Plan p)), (''quota'', marshal_quota (pf_Quota p)),
     (''created_at'', JTime (pf_CreatedAt p)), (''updated_at'', JTime (pf_UpdatedAt p))])"

definition profile_of_fields :: "(string \<times> json) list \<Rightarrow> tenant_profile option" where
  "profile_of_fields fs =
     (case (as_str (field fs ''tenant_id''), as_str (field fs ''name''), as_str (field fs ''email''), as_str (field fs ''plan''),
            unmarshal_quota (field fs ''quota''), as_time (field fs ''created_at''), as_time (field fs ''updated_at''))
      of (Some i, Some n, Some e, Some p, Some q, Some c, Some u) \<Rightarrow>
           Some \<lparr>pf_TenantID = i, pf_Name = n, pf_Email = e, pf_Plan = p, pf_Quota = q, pf_CreatedAt = c, pf_UpdatedAt = u\<rparr>
       | _ \<Rightarrow> None)"

fun unmarshal_profile :: "blob \<Rightarrow> tenant_profile option" where
  "unmarshal_profile (Doc (JObj fs)) = profile_of_fields fs"
| "unmarshal_profile (Doc JNull) = profile_of_fields []"
| "unmarshal_profile _ = None"

definition billing_SaveProfile ::
    "'db bolt \<Rightarrow> 'db option \<Rightarrow> tenant_profile \<Rightarrow> instant \<Rightarrow> string option \<times> 'db option" where
  "billing_SaveProfile B st p now =
     (case st of None \<Rightarrow> (Some ''billing meter not initialized'', None)
      | Some db \<Rightarrow>
          let t = trim_space (pf_TenantID p)
          in if t = [] then (Some ''tenant id is required'', st)
             else
               let p1 = p\<lparr>pf_TenantID := t,
                     pf_CreatedAt := (if pf_CreatedAt p = zero_time then now else pf_CreatedAt p),
                     pf_UpdatedAt := now\<rparr>
               in map_prod id Some (store_PutKV B db t profileKey (Doc (marshal_profile p1))))"

definition billing_GetProfile :: "'db bolt \<Rightarrow> 'db option \<Rightarrow> string \<Rightarrow> tenant_profile option" where
  "billing_GetProfile B st tenant =
     (case st of None \<Rightarrow> None
      | Some db \<Rightarrow>
          (case store_GetKV B db tenant profileKey of
             Inr (Some raw) \<Rightarrow> unmarshal_profile raw
           | _ \<Rightarrow> None))"

section \<open>API keys\<close>

record sub_key =
  sk_ID :: string
  sk_TenantID :: string
  sk_Name :: string
  sk_Key :: string
  sk_Prefix :: string
  sk_CreatedAt :: instant
  sk_LastUsedAt :: instant

definition marshal_key :: "sub_key \<Rightarrow> json" where
  "marshal_key k = JObj ([(''id'', JStr (sk_ID k)), (''tenant_id'', JStr (sk_TenantID k)), (''name'', JStr (sk_Name k))] @
     opt_str ''key'' (sk_Key k) @ [(''prefix'', JStr (sk_Prefix k)), (''created_at'', JTime (sk_CreatedAt k)),
     (''last_used_at'', JTime (sk_LastUsedAt k))])"

definition key_of_fields :: "(string \<times> json) list \<Rightarrow> sub_key option" where
  "key_of_fields fs =
     (case (as_str (field fs ''id''), as_str (field fs ''tenant_id''), as_str (field fs ''name''), as_str (field fs ''key''),
            as_str (field fs ''prefix''), as_time (field fs ''created_at''), as_time (field fs ''last_used_at''))
      of (Some i, Some t, Some n, Some k, Some p, Some c, Some u) \<Rightarrow>
           Some \<lparr>sk_ID = i, sk_TenantID = t, sk_Name = n, sk_Key = k, sk_Prefix = p, sk_CreatedAt = c, sk_LastUsedAt = u\<rparr>
       | _ \<Rightarrow> None)"

fun unmarshal_key :: "blob \<Rightarrow> sub_key option" where
  "unmarshal_key (Doc (JObj fs)) = key_of_fields fs"
| "unmarshal_key (Doc JNull) = key_of_fields []"
| "unmarshal_key _ = None"

definition prefixFor :: "string \<Rightarrow> string" where
  "prefixFor secret = (if length secret \<le> 10 then secret else take 10 secret)"

definition newID :: "string option \<Rightarrow> string + string" where
  "newID random = (case random of None \<Rightarrow> Inl ''random id'' | Some buf \<Rightarrow> Inr (hex buf))"

definition billing_GenerateKey ::
    "'db bolt \<Rightarrow> 'db option \<Rightarrow> string \<Rightarrow> string \<Rightarrow> string option \<Rightarrow> string option \<Rightarrow> instant \<Rightarrow> (string + sub_key) \<times> 'db option" where
  "billing_GenerateKey B st tenant name rnd8 rnd24 now =
     (case st of None \<Rightarrow> (Inl ''billing meter not initialized'', None)
      | Some db \<Rightarrow>
          let t = trim_space tenant
          in if t = [] then (Inl ''tenant id is required'', st)
             else
               let n = (if blank name then ''default'' else name)
               in case newID rnd8 of Inl e \<Rightarrow> (Inl e, st)
                  | Inr i \<Rightarrow>
                      (case newID rnd24 of Inl e \<Rightarrow> (Inl e, st)
                       | Inr raw \<Rightarrow>
                           let secret = ''sk-'' @ raw;
                               sk = \<lparr>sk_ID = i, sk_TenantID = t, sk_Name = n, sk_Key = secret,
                                 sk_Prefix = prefixFor secret, sk_CreatedAt = now, sk_LastUsedAt = zero_time\<rparr>
                           in case store_PutKV B db t (keyPrefix @ i) (Doc (marshal_key sk)) of
                                (Some e, db') \<Rightarrow> (Inl e, Some db')
                              | (None, db') \<Rightarrow> (Inr sk, Some db')))"

definition billing_ListKeys :: "'db bolt \<Rightarrow> 'db option \<Rightarrow> string \<Rightarrow> sub_key list \<times> string option" where
  "billing_ListKeys B st tenant =
     (case st of None \<Rightarrow> ([], Some ''billing meter not initialized'')
      | Some db \<Rightarrow>
          (case store_ScanPrefix B db tenant keyPrefix (\<lambda>keys _ val.
              case unmarshal_key val of None \<Rightarrow> (None, keys)
              | Some sk \<Rightarrow> (None, keys @ [sk\<lparr>sk_Key := []\<rparr>])) [] of
             (e, keys) \<Rightarrow> (keys, e)))"

definition billing_DeleteKey :: "'db bolt \<Rightarrow> 'db option \<Rightarrow> string \<Rightarrow> string \<Rightarrow> string option \<times> 'db option" where
  "billing_DeleteKey B st tenant keyID =
     (case st of None \<Rightarrow> (Some ''billing meter not initialized'', None)
      | Some db \<Rightarrow>
          if blank keyID then (Some ''key id is required'', st)
          else map_prod id Some (store_DeleteKV B db tenant (keyPrefix @ keyID)))"

text \<open>The callback of the scan keeps the first key with the secret and stops the scan there.\<close>

definition match_secret :: "string \<Rightarrow> sub_key option \<Rightarrow> string \<Rightarrow> blob \<Rightarrow> string option \<times> sub_key option" where
  "match_secret secret found k val =
     (case unmarshal_key val of None \<Rightarrow> (None, found)
      | Some sk \<Rightarrow> if sk_Key sk = secret then (Some ''found'', Some sk) else (None, found))"

fun secret_search :: "'db bolt \<Rightarrow> 'db \<Rightarrow> string list \<Rightarrow> string \<Rightarrow> sub_key option" where
  "secret_search B db [] secret = None"
| "secret_search B db (tenant # tenants) secret =
     (case snd (store_ScanPrefix B db tenant keyPrefix (match_secret secret) None) of
        Some sk \<Rightarrow> Some sk
      | None \<Rightarrow> secret_search B db tenants secret)"

definition billing_GetKeyBySecret :: "'db bolt \<Rightarrow> 'db option \<Rightarrow> string list \<Rightarrow> string \<Rightarrow> sub_key option" where
  "billing_GetKeyBySecret B st tenants secret =
     (case st of None \<Rightarrow> None
      | Some db \<Rightarrow> if blank secret then None else secret_search B db tenants secret)"

definition touch_read :: "'db bolt \<Rightarrow> 'db \<Rightarrow> string \<Rightarrow> string \<Rightarrow> string option + sub_key" where
  "touch_read B db tenant keyID =
     (case store_GetKV B db tenant (keyPrefix @ keyID) of
        Inl e \<Rightarrow> Inl (Some e)
      | Inr None \<Rightarrow> Inl None
      | Inr (Some raw) \<Rightarrow>
          if raw = Raw [] then Inl None
          else (case unmarshal_key raw of None \<Rightarrow> Inl (Some ''invalid JSON'') | Some sk \<Rightarrow> Inr sk))"

definition touch_write :: "'db bolt \<Rightarrow> 'db \<Rightarrow> string \<Rightarrow> string \<Rightarrow> sub_key \<Rightarrow> instant \<Rightarrow> string option \<times> 'db" where
  "touch_write B db tenant keyID sk now =
     store_PutKV B db tenant (keyPrefix @ keyID) (Doc (marshal_key (sk\<lparr>sk_LastUsedAt := now\<rparr>)))"

definition billing_TouchKey :: "'db bolt \<Rightarrow> 'db option \<Rightarrow> string \<Rightarrow> string \<Rightarrow> instant \<Rightarrow> string option \<times> 'db option" where
  "billing_TouchKey B st tenant keyID now =
     (case st of None \<Rightarrow> (Some ''billing meter not initialized'', None)
      | Some db \<Rightarrow>
          (case touch_read B db tenant keyID of
             Inl e \<Rightarrow> (e, st)
           | Inr sk \<Rightarrow> map_prod id Some (touch_write B db tenant keyID sk now)))"

section \<open>Records read back\<close>

lemma unmarshal_marshal_key [simp]: "unmarshal_key (Doc (marshal_key k)) = Some k"
  by (simp add: marshal_key_def key_of_fields_def json_field)

lemma unmarshal_marshal_quota [simp]:
  "is_i64 (qt_Agents q) \<Longrightarrow> is_i64 (qt_JobsDay q) \<Longrightarrow> is_i64 (qt_APIDay q) \<Longrightarrow> is_i64 (qt_TokensDay q) \<Longrightarrow>
    unmarshal_quota (marshal_quota q) = Some q"
  by (simp add: marshal_quota_def quota_of_fields_def json_field)

lemma unmarshal_marshal_profile:
  "unmarshal_quota (marshal_quota (pf_Quota p)) = Some (pf_Quota p) \<Longrightarrow>
    unmarshal_profile (Doc (marshal_profile p)) = Some p"
  by (simp add: marshal_profile_def profile_of_fields_def json_field image_Un)

definition ex_key :: sub_key where
  "ex_key = \<lparr>sk_ID = hex ''a'', sk_TenantID = ''acme'', sk_Name = ''default'', sk_Key = ''sk-'' @ hex ''b'',
     sk_Prefix = prefixFor (''sk-'' @ hex ''b''), sk_CreatedAt = 5, sk_LastUsedAt = zero_time\<rparr>"

section \<open>Looking up a secret\<close>

text \<open>\<open>stored_key\<close>: the database holds the key \<open>sk\<close> under identifier \<open>i\<close> of tenant \<open>t\<close>.\<close>

definition stored_key :: "'db bolt \<Rightarrow> 'db \<Rightarrow> string \<Rightarrow> string \<Rightarrow> sub_key \<Rightarrow> bool" where
  "stored_key B db t i sk \<longleftrightarrow>
     (\<exists>v. tenant_view B db t (keyPrefix @ i) = Some v \<and> unmarshal_key v = Some sk)"

lemma match_scan:
  "case snd (scan_loop (match_secret s) None kvs) of
     None \<Rightarrow> \<forall>(k, v) \<in> set kvs. \<forall>sk. unmarshal_key v = Some sk \<longrightarrow> sk_Key sk \<noteq> s
   | Some sk \<Rightarrow> sk_Key sk = s \<and> (\<exists>(k, v) \<in> set kvs. unmarshal_key v = Some sk)"
  by (induction kvs) (auto simp: match_secret_def split: option.splits if_splits)

lemma match_tenant:
  assumes "bolt_ok B" "has_bucket B db tenants_path" "view_error B db = None"
  shows "case snd (store_ScanPrefix B db t keyPrefix (match_secret s) None) of
     None \<Rightarrow> \<forall>i sk. stored_key B db t i sk \<longrightarrow> sk_Key sk \<noteq> s
   | Some sk \<Rightarrow> sk_Key sk = s \<and> (\<exists>i. stored_key B db t i sk)"
proof -
  obtain kvs where scan: "\<And>fn (acc :: sub_key option). store_ScanPrefix B db t keyPrefix fn acc = scan_loop fn acc kvs"
    and kvs: "set kvs = {(k, v). prefix keyPrefix k \<and> tenant_view B db t k = Some v}"
    using ScanPrefix_entries [OF assms] by blast
  show ?thesis using match_scan [where s = s and kvs = kvs] unfolding scan kvs
    by (fastforce simp: stored_key_def prefix_def split: option.splits)
qed

lemma secret_search_spec:
  assumes "bolt_ok B" "has_bucket B db tenants_path" "view_error B db = None"
  shows "case secret_search B db ts s of
     None \<Rightarrow> \<forall>t \<in> set ts. \<forall>i sk. stored_key B db t i sk \<longrightarrow> sk_Key sk \<noteq> s
   | Some sk \<Rightarrow> sk_Key sk = s \<and> (\<exists>t \<in> set ts. \<exists>i. stored_key B db t i sk)"
proof (induction ts)
  case (Cons t ts)
  then show ?case using match_tenant [OF assms, of t s] by (auto split: option.splits)
qed simp

lemma secret_search_unique:
  assumes "bolt_ok B" "has_bucket B db tenants_path" "view_error B db = None"
    and "stored_key B db t i sk" "t \<in> set ts"
    and "\<And>t' i' sk'. stored_key B db t' i' sk' \<Longrightarrow> sk_Key sk' = sk_Key sk \<Longrightarrow> t' = t \<and> i' = i"
  shows "secret_search B db ts (sk_Key sk) = Some sk"
proof (cases "secret_search B db ts (sk_Key sk)")
  case None
  with secret_search_spec [OF assms(1-3), of ts "sk_Key sk"] assms(4,5) show ?thesis by auto
next
  case (Some sk')
  with secret_search_spec [OF assms(1-3), of ts "sk_Key sk"]
  obtain t' i' where "stored_key B db t' i' sk'" "sk_Key sk' = sk_Key sk" by auto
  with assms(4,6) have "stored_key B db t i sk'" by blast
  with assms(4) Some show ?thesis by (auto simp: stored_key_def)
qed

lemma secret_search_absent:
  assumes "bolt_ok B" "has_bucket B db tenants_path" "view_error B db = None"
    and "\<And>t i sk. stored_key B db t i sk \<Longrightarrow> sk_Key sk \<noteq> s"
  shows "secret_search B db ts s = None"
  using secret_search_spec [OF assms(1-3), of ts s] assms(4) by (auto split: option.splits)

lemma stored_put:
  assumes "tenant_view B db' = (tenant_view B db)(t := (tenant_view B db t)(keyPrefix @ i \<mapsto> Doc (marshal_key sk)))"
  shows "stored_key B db' t' i' sk' \<longleftrightarrow> (if t' = t \<and> i' = i then sk' = sk else stored_key B db t' i' sk')"
  using assms by (auto simp: stored_key_def)

lemma stored_del:
  assumes "tenant_view B db' = (tenant_view B db)(t := (tenant_view B db t)(keyPrefix @ i := None))"
  shows "stored_key B db' t' i' sk' \<longleftrightarrow> \<not> (t' = t \<and> i' = i) \<and> stored_key B db t' i' sk'"
  using assms by (auto simp: stored_key_def)

lemma sk_not_blank: "prefix ''sk-'' s \<Longrightarrow> \<not> blank s"
proof -
  assume "prefix ''sk-'' s"
  then have "CHR ''s'' \<in> set s" by (auto simp: prefix_def)
  moreover have "\<not> is_space (CHR ''s'')" by (simp add: is_space_def)
  ultimately show ?thesis unfolding blank_iff by blast
qed

lemma DeleteKey_ok:
  assumes "bolt_ok B" "has_bucket B db tenants_path" "billing_DeleteKey B (Some db) t i = (None, Some db')"
  shows "tenant_view B db' = (tenant_view B db)(t := (tenant_view B db t)(keyPrefix @ i := None))"
    and "has_bucket B db' tenants_path"
proof -
  from assms(3) have "store_DeleteKV B db t (keyPrefix @ i) = (None, db')"
    by (auto simp: billing_DeleteKey_def map_prod_def split: if_splits prod.splits)
  from DeleteKV_ok [OF assms(1) this assms(2)]
  show "tenant_view B db' = (tenant_view B db)(t := (tenant_view B db t)(keyPrefix @ i := None))"
    and "has_bucket B db' tenants_path" .
qed

lemma GenerateKey_put:
  assumes "billing_GenerateKey B (Some db) tenant name (Some r8) (Some r24) now = (Inr sk, Some db1)"
  shows "store_PutKV B db (sk_TenantID sk) (keyPrefix @ sk_ID sk) (Doc (marshal_key sk)) = (None, db1)"
    and "sk_TenantID sk = trim_space tenant" and "sk_Key sk = ''sk-'' @ hex r24"
  using assms by (auto simp: billing_GenerateKey_def newID_def Let_def split: if_splits prod.splits option.splits)

lemma generated_key_found:
  assumes "bolt_ok B" "view_error B db1 = None"
    and "\<forall>t i sk'. stored_key B db t i sk' \<longrightarrow> sk_Key sk' \<noteq> ''sk-'' @ hex r24"
    and gen: "billing_GenerateKey B (Some db) tenant name (Some r8) (Some r24) now = (Inr sk, Some db1)"
    and "sk_TenantID sk \<in> set tenants"
  shows "billing_GetKeyBySecret B (Some db1) tenants (sk_Key sk) = Some sk"
proof -
  note g = GenerateKey_put [OF gen]
  note p = PutKV_ok [OF assms(1) g(1)]
  have "secret_search B db1 tenants (sk_Key sk) = Some sk"
    using assms(2,3,5) g(3)
    by (intro secret_search_unique [OF assms(1) p(2), where t = "sk_TenantID sk" and i = "sk_ID sk"])
      (auto simp: stored_put [OF p(1)] split: if_splits)
  moreover have "\<not> blank (sk_Key sk)" using g(3) by (intro sk_not_blank) simp
  ultimately show ?thesis by (simp add: billing_GetKeyBySecret_def)
qed

text \<open>C28. A generated key authenticates as its tenant: looking its secret up among tenants that include
  its own returns exactly the generated key, and once the key is deleted the secret is not found
  any more, provided the random secret was not in use before.\<close>

theorem key_lifecycle:
  assumes "bolt_ok B" "\<forall>db. view_error B db = None" "has_bucket B db tenants_path"
    and fresh: "\<forall>t i sk'. stored_key B db t i sk' \<longrightarrow> sk_Key sk' \<noteq> ''sk-'' @ hex r24"
    and gen: "billing_GenerateKey B (Some db) tenant name (Some r8) (Some r24) now = (Inr sk, Some db1)"
    and del: "billing_DeleteKey B (Some db1) (sk_TenantID sk) (sk_ID sk) = (None, Some db2)"
    and "trim_space tenant \<in> set tenants"
  shows "sk_TenantID sk = trim_space tenant \<and>
    billing_GetKeyBySecret B (Some db1) tenants (sk_Key sk) = Some sk \<and>
    billing_GetKeyBySecret B (Some db2) tenants (sk_Key sk) = None"
proof -
  note g = GenerateKey_put [OF gen]
  note p = PutKV_ok [OF assms(1) g(1)]
  note d = DeleteKey_ok [OF assms(1) p(2) del]
  have "\<not> blank (sk_Key sk)" using g(3) by (intro sk_not_blank) simp
  moreover have "secret_search B db2 tenants (sk_Key sk) = None"
    using assms(2) fresh g(3) by (intro secret_search_absent [OF assms(1) d(2)])
      (auto simp: stored_put [OF p(1)] stored_del [OF d(1)] split: if_splits)
  ultimately show ?thesis
    using generated_key_found [OF assms(1) _ fresh gen, of tenants] assms(2,7) g(2)
    by (simp add: billing_GetKeyBySecret_def)
qed

theorem key_lifecycle_witness:
  "\<exists>sk db1 db2. billing_GetKeyBySecret membolt (Some db1) [''acme''] (sk_Key sk) = Some sk \<and>
     billing_GetKeyBySecret membolt (Some db2) [''acme''] (sk_Key sk) = None"
proof -
  let ?sk = "ex_key"
  obtain db1 where put: "store_PutKV membolt mem0 ''acme'' (keyPrefix @ hex ''a'') (Doc (marshal_key ?sk)) = (None, db1)"
    and b1: "has_bucket membolt db1 tenants_path" by (rule membolt_put [OF mem0_simps(1)])
  obtain db2 where del: "store_DeleteKV membolt db1 ''acme'' (keyPrefix @ hex ''a'') = (None, db2)"
    using membolt_del [OF b1] by blast
  have t: "trim_space ''acme'' = ''acme''" by (simp add: trim_space_def is_space_def)
  have h: "\<not> blank (hex ''a'')" by code_simp
  have "billing_GenerateKey membolt (Some mem0) ''acme'' [] (Some ''a'') (Some ''b'') 5 = (Inr ?sk, Some db1)"
    using put by (simp add: billing_GenerateKey_def newID_def Let_def t ex_key_def)
  moreover have "billing_DeleteKey membolt (Some db1) (sk_TenantID ?sk) (sk_ID ?sk) = (None, Some db2)"
    using del h by (simp add: billing_DeleteKey_def ex_key_def)
  ultimately show ?thesis
    using key_lifecycle [of membolt mem0 "''b''" "''acme''" "[]" "''a''" 5 ?sk db1 db2 "[''acme'']"] t
    by (auto simp: stored_key_def)
qed

text \<open>A deleted key can come back: when the goroutine that records a key's use has read the key
  before it is deleted and writes it back afterwards, the deleted secret authenticates again.\<close>

theorem revoked_key_revived:
  assumes "bolt_ok B" "\<forall>db. view_error B db = None" "has_bucket B db tenants_path"
    and "touch_read B db t i = Inr sk" "prefix ''sk-'' (sk_Key sk)" "t \<in> set tenants"
    and unique: "\<forall>t' i' sk'. stored_key B db t' i' sk' \<and> sk_Key sk' = sk_Key sk \<longrightarrow> t' = t \<and> i' = i"
    and del: "billing_DeleteKey B (Some db) t i = (None, Some db1)"
    and put: "touch_write B db1 t i sk now = (None, db2)"
  shows "billing_GetKeyBySecret B (Some db1) tenants (sk_Key sk) = None \<and>
    billing_GetKeyBySecret B (Some db2) tenants (sk_Key sk) = Some (sk\<lparr>sk_LastUsedAt := now\<rparr>)"
proof -
  let ?sk = "sk\<lparr>sk_LastUsedAt := now\<rparr>"
  note d = DeleteKey_ok [OF assms(1,3) del]
  note p = PutKV_ok [OF assms(1) put [unfolded touch_write_def]]
  note st1 = stored_del [OF d(1)] and st2 = stored_put [OF p(1)]
  have nb: "\<not> blank (sk_Key sk)" using assms(5) by (rule sk_not_blank)
  have "secret_search B db1 tenants (sk_Key sk) = None"
    using assms(2) unique by (intro secret_search_absent [OF assms(1) d(2)]) (auto simp: st1)
  moreover have "secret_search B db2 tenants (sk_Key ?sk) = Some ?sk"
    using assms(2,6) unique
    by (intro secret_search_unique [OF assms(1) p(2), where t = t and i = i])
      (auto simp: st1 st2 split: if_splits)
  ultimately show ?thesis using nb by (simp add: billing_GetKeyBySecret_def)
qed

theorem revoked_key_revived_witness:
  "\<exists>db1 db2. billing_GetKeyBySecret membolt (Some db1) [''acme''] (sk_Key ex_key) = None \<and>
    billing_GetKeyBySecret membolt (Some db2) [''acme''] (sk_Key ex_key) = Some (ex_key\<lparr>sk_LastUsedAt := 9\<rparr>)"
proof -
  obtain db where put: "store_PutKV membolt mem0 ''acme'' (keyPrefix @ hex ''a'') (Doc (marshal_key ex_key)) = (None, db)"
    and b: "has_bucket membolt db tenants_path" by (rule membolt_put [OF mem0_simps(1)])
  obtain db1 where del: "store_DeleteKV membolt db ''acme'' (keyPrefix @ hex ''a'') = (None, db1)"
    and b1: "has_bucket membolt db1 tenants_path" using membolt_del [OF b] by blast
  obtain db2 where wback: "touch_write membolt db1 ''acme'' (hex ''a'') ex_key 9 = (None, db2)"
    unfolding touch_write_def using membolt_put [OF b1] by blast
  note view = PutKV_ok(1) [OF membolt_ok put]
  have read: "touch_read membolt db ''acme'' (hex ''a'') = Inr ex_key"
    using b by (simp add: touch_read_def GetKV_view view)
  have st: "stored_key membolt db t i sk \<longleftrightarrow> t = ''acme'' \<and> i = hex ''a'' \<and> sk = ex_key" for t i sk
    unfolding stored_put [OF view] by (auto simp: stored_key_def)
  have h: "\<not> blank (hex ''a'')" by code_simp
  have "billing_DeleteKey membolt (Some db) ''acme'' (hex ''a'') = (None, Some db1)"
    using del h by (simp add: billing_DeleteKey_def)
  moreover have "prefix ''sk-'' (sk_Key ex_key)" by (simp add: ex_key_def)
  ultimately have "billing_GetKeyBySecret membolt (Some db1) [''acme''] (sk_Key ex_key) = None \<and>
      billing_GetKeyBySecret membolt (Some db2) [''acme''] (sk_Key ex_key) = Some (ex_key\<lparr>sk_LastUsedAt := 9\<rparr>)"
    by (intro revoked_key_revived [OF membolt_ok _ b read _ _ _ _ wback]) (simp_all add: st)
  then show ?thesis by blast
qed

section \<open>Usage of the current day\<close>

type_synonym usage_event = "string \<times> string \<times> int \<times> instant"

definition record_all :: "usage_event list \<Rightarrow> meter \<Rightarrow> meter" where
  "record_all es m = fold (\<lambda>(t, metric, d, now) m. billing_Record m t metric d now) es m"

definition day_total :: "usage_event list \<Rightarrow> string \<Rightarrow> string \<Rightarrow> int \<Rightarrow> int" where
  "day_total es t metric day =
     sum_list (map (\<lambda>(u, k, d, now). if u = t \<and> k = metric \<and> day_of now = day then d else 0) es)"

definition counted :: "meter \<Rightarrow> string \<Rightarrow> string \<Rightarrow> int" where
  "counted m t metric = (case mt_usage m t of None \<Rightarrow> 0 | Some u \<Rightarrow> (case u metric of None \<Rightarrow> 0 | Some n \<Rightarrow> n))"

lemma i64_add: "i64 (i64 a + b) = i64 (a + b)"
proof -
  have "i64 a + b + 2 ^ 63 = (a + 2 ^ 63) mod 2 ^ 64 + b" by (simp add: i64_def)
  then have "(i64 a + b + 2 ^ 63) mod 2 ^ 64 = (a + 2 ^ 63 + b) mod 2 ^ 64" by (simp only: mod_add_left_eq)
  also have "a + 2 ^ 63 + b = a + b + 2 ^ 63" by simp
  finally show ?thesis by (simp only: i64_def)
qed

lemma counted_rotate: "counted (rotateDayIfNeededLocked m now) t metric = (if day_of now = mt_day m then counted m t metric else 0)"
  by (simp add: counted_def rotateDayIfNeededLocked_def Let_def)

lemma day_rotate [simp]: "mt_day (rotateDayIfNeededLocked m now) = day_of now"
  by (simp add: rotateDayIfNeededLocked_def Let_def)

lemma counted_Record:
  "counted (billing_Record m u k d now) t metric =
    (if blank u \<or> d = 0 then counted m t metric
     else if u = t \<and> k = metric then i64 ((if day_of now = mt_day m then counted m t metric else 0) + d)
     else if day_of now = mt_day m then counted m t metric else 0)"
  using counted_rotate [of m now t metric]
  by (auto simp: billing_Record_def Let_def counted_def split: option.splits if_splits)

lemma day_Record: "mt_day (billing_Record m u k d now) = (if blank u \<or> d = 0 then mt_day m else day_of now)"
  by (simp add: billing_Record_def Let_def)

lemma day_of_mono: "x \<le> y \<Longrightarrow> day_of x \<le> day_of y"
  by (simp add: day_of_def zdiv_mono1)

text \<open>The meter's count is the total of the day it is set to, and nothing was recorded on a later
  day.\<close>

definition meter_ok :: "usage_event list \<Rightarrow> meter \<Rightarrow> string \<Rightarrow> string \<Rightarrow> bool" where
  "meter_ok es m t metric \<longleftrightarrow>
     counted m t metric = i64 (day_total es t metric (mt_day m)) \<and>
     (\<forall>(u, k, d, now) \<in> set es. \<not> blank u \<longrightarrow> d \<noteq> 0 \<longrightarrow> day_of now \<le> mt_day m)"

lemma day_total_later:
  assumes "\<forall>(u, k, d, now) \<in> set es. \<not> blank u \<longrightarrow> d \<noteq> 0 \<longrightarrow> day_of now < day" "\<not> blank t"
  shows "day_total es t metric day = 0"
  using assms by (induction es) (auto simp: day_total_def split: if_splits)

lemma meter_ok_Record:
  assumes "meter_ok es m t metric" "mt_day m \<le> day_of now" "\<not> blank t"
  shows "meter_ok (es @ [(u, k, d, now)]) (billing_Record m u k d now) t metric"
proof (cases "blank u \<or> d = 0")
  case True
  with assms have "day_total (es @ [(u, k, d, now)]) t metric (mt_day m) = day_total es t metric (mt_day m)"
    by (auto simp: day_total_def)
  with True assms show ?thesis by (auto simp: meter_ok_def counted_Record day_Record)
next
  case False
  have prev: "(if day_of now = mt_day m then counted m t metric else 0) = i64 (day_total es t metric (day_of now))"
  proof (cases "day_of now = mt_day m")
    case False
    with assms have "\<forall>(u, k, d, x) \<in> set es. \<not> blank u \<longrightarrow> d \<noteq> 0 \<longrightarrow> day_of x < day_of now"
      by (fastforce simp: meter_ok_def)
    from day_total_later [OF this assms(3)] False show ?thesis by (simp add: i64_def)
  qed (use assms in \<open>simp add: meter_ok_def\<close>)
  have "counted (billing_Record m u k d now) t metric = i64 (day_total (es @ [(u, k, d, now)]) t metric (day_of now))"
    using False unfolding counted_Record prev by (simp add: day_total_def i64_add)
  moreover have "\<forall>(u, k, d, x) \<in> set es. \<not> blank u \<longrightarrow> d \<noteq> 0 \<longrightarrow> day_of x \<le> day_of now"
    using assms(1,2) by (fastforce simp: meter_ok_def)
  ultimately show ?thesis using False by (simp add: meter_ok_def day_Record)
qed

lemma meter_ok_all:
  "meter_ok es0 m t metric \<Longrightarrow> \<not> blank t \<Longrightarrow> sorted (map (\<lambda>(u, k, d, now). now) es) \<Longrightarrow>
    (\<forall>(u, k, d, now) \<in> set es. mt_day m \<le> day_of now) \<Longrightarrow> meter_ok (es0 @ es) (record_all es m) t metric \<and>
    (\<forall>x. mt_day m \<le> day_of x \<and> (\<forall>(u, k, d, now) \<in> set es. now \<le> x) \<longrightarrow> mt_day (record_all es m) \<le> day_of x)"
proof (induction es arbitrary: es0 m)
  case (Cons e es)
  obtain u k d now where e: "e = (u, k, d, now)" by (cases e)
  let ?m = "billing_Record m u k d now"
  have ok: "meter_ok (es0 @ [e]) ?m t metric"
    unfolding e using Cons.prems(1,2,4) e by (intro meter_ok_Record) auto
  have "\<forall>(u', k', d', x) \<in> set es. mt_day ?m \<le> day_of x"
    using Cons.prems(3,4) day_of_mono unfolding e by (fastforce simp: day_Record)
  with Cons.IH [OF ok Cons.prems(2)] Cons.prems(3) day_of_mono [of now] show ?case
    by (auto simp: e record_all_def day_Record)
qed (simp add: record_all_def)

text \<open>Under a clock that does not run backwards, the usage reported for a metric is the total (as an
  int64) of what was recorded for the tenant on the current UTC day, whatever was recorded on
  other days or for other tenants.\<close>

theorem usage_is_todays_total:
  assumes "\<not> blank t" "sorted (map (\<lambda>(u, k, d, now). now) es @ [now])"
    and "\<forall>(u, k, d, x) \<in> set es. start \<le> x" "start \<le> now"
  shows "(case fst (billing_Usage (record_all es (billing_New start)) t now) metric of None \<Rightarrow> 0 | Some n \<Rightarrow> n) =
    i64 (day_total es t metric (day_of now))"
proof -
  let ?m = "record_all es (billing_New start)"
  have z: "meter_ok [] (billing_New start) t metric"
    by (simp add: meter_ok_def counted_def billing_New_def day_total_def i64_def)
  have "\<forall>(u, k, d, x) \<in> set es. mt_day (billing_New start) \<le> day_of x"
    using assms(3) day_of_mono by (fastforce simp: billing_New_def)
  moreover have srt: "sorted (map (\<lambda>(u, k, d, now). now) es)" using assms(2) by (simp add: sorted_append)
  ultimately have ok: "meter_ok es ?m t metric"
    and day: "\<forall>x. mt_day (billing_New start) \<le> day_of x \<and> (\<forall>(u, k, d, now) \<in> set es. now \<le> x) \<longrightarrow> mt_day ?m \<le> day_of x"
    using meter_ok_all [OF z assms(1), of es] by simp_all
  have "\<forall>(u, k, d, x) \<in> set es. x \<le> now" using assms(2) by (auto simp: sorted_append)
  then have later: "mt_day ?m \<le> day_of now"
    using day day_of_mono [OF assms(4)] by (simp add: billing_New_def)
  have "counted (rotateDayIfNeededLocked ?m now) t metric = i64 (day_total es t metric (day_of now))"
  proof (cases "day_of now = mt_day ?m")
    case True
    with ok show ?thesis by (simp add: counted_rotate meter_ok_def)
  next
    case False
    with ok later have "\<forall>(u, k, d, x) \<in> set es. \<not> blank u \<longrightarrow> d \<noteq> 0 \<longrightarrow> day_of x < day_of now"
      by (fastforce simp: meter_ok_def)
    from day_total_later [OF this assms(1)] False show ?thesis by (simp add: counted_rotate i64_def)
  qed
  moreover have "(case fst (billing_Usage ?m t now) metric of None \<Rightarrow> 0 | Some n \<Rightarrow> n) =
      counted (rotateDayIfNeededLocked ?m now) t metric"
    by (auto simp: billing_Usage_def Let_def counted_def split: option.splits)
  ultimately show ?thesis by simp
qed

theorem usage_is_todays_total_witness:
  "(case fst (billing_Usage (record_all [(''acme'', ''jobs'', 4, 0), (''acme'', ''jobs'', 2, 100000 * second_ns)] (billing_New 0))
      ''acme'' (100001 * second_ns)) ''jobs'' of None \<Rightarrow> 0 | Some n \<Rightarrow> n) = 2"
proof -
  have "\<not> blank ''acme''" by (simp add: trim_space_def is_space_def)
  moreover have "i64 (day_total [(''acme'', ''jobs'', 4, 0), (''acme'', ''jobs'', 2, 100000 * second_ns)] ''acme'' ''jobs''
      (day_of (100001 * second_ns))) = 2" by (simp add: day_total_def day_of_def i64_def)
  ultimately show ?thesis
    using usage_is_todays_total [of "''acme''" "[(''acme'', ''jobs'', 4, 0), (''acme'', ''jobs'', 2, 100000 * second_ns)]"
        "100001 * second_ns" 0 "''jobs''"] by simp
qed

end
