(* ===== verification/Auth.thy ===== *)
theory Auth
  imports NetAddr Billing
begin

text \<open>
  Who may call the server: the tenant keys of \<^verbatim>\<open>pkg/auth/auth.go\<close>, and the path rules,
  credentials and middleware \<^verbatim>\<open>withAuth\<close> and \<^verbatim>\<open>withDynAuth\<close> of
  \<^verbatim>\<open>cmd/spectral-cloud/main.go\<close>.

  A request is its method, path, remote address and the values of the two headers the code reads
  (the empty string for a missing header). The middleware answers a request with an error status
  (\<open>Rejected\<close>) or passes it to the next handler (\<open>Served\<close>) with the tenant and the principal
  it put into the context. The environment variables are arguments, already read.
\<close>

section \<open>Tenant keys\<close>

type_synonym key_manager = "string \<rightharpoonup> string"

text \<open>The loop over the comma-separated entries: blank ones are skipped, an entry must be
  \<^verbatim>\<open>tenant:key\<close> with both parts non-blank.\<close>

fun parse_pairs :: "string list \<Rightarrow> key_manager \<Rightarrow> string + key_manager" where
  "parse_pairs [] m = Inr m"
| "parse_pairs (pair # pairs) m =
     (let p = trim_space pair
      in if p = [] then parse_pairs pairs m
         else case split2 (CHR '':'') p of
                [a, b] \<Rightarrow>
                  let tenant = trim_space a; key = trim_space b
                  in if tenant = [] \<or> key = [] then Inl (''invalid TENANT_KEYS entry: '' @ p)
                     else parse_pairs pairs (m(key \<mapsto> tenant))
              | _ \<Rightarrow> Inl (''invalid TENANT_KEYS entry: '' @ p))"

text \<open>The last test of the code, that the map is not empty, is made on the list of its entries: no
  entry is ever removed.\<close>

definition NewManagerFromEnv :: "string \<Rightarrow> string + key_manager" where
  "NewManagerFromEnv raw =
     (let r = trim_space raw
      in if r = [] then Inl ''TENANT_KEYS is empty''
         else case parse_pairs (split_on (CHR '','') r) Map.empty of
                Inl e \<Rightarrow> Inl e
              | Inr m \<Rightarrow> if list_all blank (split_on (CHR '','') r) then Inl ''TENANT_KEYS contains no valid entries''
                        else Inr m)"

definition TenantFromKey :: "key_manager \<Rightarrow> string \<Rightarrow> string option" where
  "TenantFromKey m key = m key"

record http_request =
  hr_Method :: string
  hr_Path :: string
  hr_Authorization :: string
  hr_XAPIKey :: string
  hr_RemoteAddr :: string

definition is_bearer :: "string \<Rightarrow> bool" where
  "is_bearer header \<longleftrightarrow> prefix ''bearer '' (to_lower header)"

definition TenantFromRequest :: "key_manager \<Rightarrow> http_request \<Rightarrow> string option" where
  "TenantFromRequest m r =
     (let key0 = trim_space (hr_XAPIKey r);
          authz = trim_space (hr_Authorization r);
          key = (if key0 = [] \<and> is_bearer authz then trim_space (drop 7 authz) else key0)
      in if key = [] then None else TenantFromKey m key)"

text \<open>The metadata of an incoming gRPC call, \<open>None\<close> when the context carries none.\<close>

definition TenantFromContext :: "key_manager \<Rightarrow> (string \<Rightarrow> string list) option \<Rightarrow> string option" where
  "TenantFromContext m md =
     (case md of None \<Rightarrow> None
      | Some g \<Rightarrow>
          let bearer = (case g ''authorization'' of [] \<Rightarrow> None
                | v # _ \<Rightarrow> let val = trim_space v
                          in if is_bearer val then TenantFromKey m (trim_space (drop 7 val)) else None)
          in case g ''x-api-key'' of
               [] \<Rightarrow> bearer
             | k # _ \<Rightarrow> (case TenantFromKey m (trim_space k) of Some t \<Rightarrow> Some t | None \<Rightarrow> bearer))"

section \<open>Path rules\<close>

record path_rule =
  pr_value :: string
  pr_prefix :: bool
  pr_method :: string

definition isHTTPMethod :: "string \<Rightarrow> bool" where
  "isHTTPMethod v \<longleftrightarrow> to_upper (trim_space v) \<in>
     set [''GET'', ''POST'', ''PUT'', ''PATCH'', ''DELETE'', ''HEAD'', ''OPTIONS'']"

definition isWriteMethod :: "string \<Rightarrow> bool" where
  "isWriteMethod m \<longleftrightarrow> to_upper (trim_space m) \<in> set [''POST'', ''PUT'', ''PATCH'', ''DELETE'']"

text \<open>\<^verbatim>\<open>strings.Fields\<close>: the maximal runs of characters that are not white space.\<close>

function fields :: "string \<Rightarrow> string list" where
  "fields s =
     (case dropWhile is_space s of [] \<Rightarrow> []
      | c # cs \<Rightarrow> takeWhile (\<lambda>x. \<not> is_space x) (c # cs) # fields (dropWhile (\<lambda>x. \<not> is_space x) (c # cs)))"
  by pat_completeness auto
termination
proof (relation "measure length")
  fix s c cs assume d: "dropWhile is_space s = c # cs"
  then have "\<not> is_space c" by (metis hd_dropWhile list.distinct(1) list.sel(1))
  then have "length (dropWhile (\<lambda>x. \<not> is_space x) (c # cs)) \<le> length cs"
    by (simp add: length_dropWhile_le)
  moreover have "length (c # cs) \<le> length s" using length_dropWhile_le [of is_space s] d by simp
  ultimately show "(dropWhile (\<lambda>x. \<not> is_space x) (c # cs), s) \<in> measure length" by simp
qed simp

declare fields.simps [simp del]

definition rule_parts :: "string \<Rightarrow> string \<times> string" where
  "rule_parts part =
     (if CHR '' '' \<in> set part then
        (case fields part of
           m # p # _ \<Rightarrow> if isHTTPMethod m then (to_upper m, p) else ([], part)
         | _ \<Rightarrow> ([], part))
      else
        (case split2 (CHR '':'') part of
           [m, p] \<Rightarrow> if isHTTPMethod m then (to_upper m, p) else ([], part)
         | _ \<Rightarrow> ([], part)))"

definition parsePathRule :: "string \<Rightarrow> path_rule option" where
  "parsePathRule part0 =
     (let part = trim_space part0
      in if part = [] then None
         else case rule_parts part of (method, path0) \<Rightarrow>
           let path = trim_space path0
           in if path = [] then None
              else if last path = CHR ''*'' then Some \<lparr>pr_value = butlast path, pr_prefix = True, pr_method = method\<rparr>
              else Some \<lparr>pr_value = path, pr_prefix = False, pr_method = method\<rparr>)"

definition parsePathRules :: "string \<Rightarrow> string list \<Rightarrow> path_rule list" where
  "parsePathRules raw defaults =
     (let v = trim_space raw; parts = (if v = [] then defaults else split_on (CHR '','') v)
      in List.map_filter (\<lambda>part. let p = trim_space part in if p = [] then None else parsePathRule p) parts)"

definition rule_matches :: "string \<Rightarrow> string \<Rightarrow> path_rule \<Rightarrow> bool" where
  "rule_matches path method rule \<longleftrightarrow>
     \<not> (pr_method rule \<noteq> [] \<and> pr_method rule \<noteq> method) \<and>
     (if pr_prefix rule then prefix (pr_value rule) path else path = pr_value rule)"

definition matchPathRules :: "string \<Rightarrow> string \<Rightarrow> path_rule list \<Rightarrow> bool" where
  "matchPathRules path method rules = list_ex (rule_matches path (to_upper (trim_space method))) rules"

section \<open>Credentials\<close>

record auth_config =
  ac_apiKey :: string
  ac_adminKey :: string
  ac_adminWriteKey :: string
  ac_writeKey :: string
  ac_tenantKeys :: "key_manager option"
  ac_tenantWrite :: "key_manager option"
  ac_defaultTenant :: string
  ac_publicRules :: "path_rule list"
  ac_adminRules :: "path_rule list"
  ac_allowRemote :: bool
  ac_adminCIDRs :: "ipnet list"

record request_auth =
  ra_access :: string
  ra_tenant :: string

definition hasValidAPIKey :: "http_request \<Rightarrow> string \<Rightarrow> bool" where
  "hasValidAPIKey r apiKey =
     (let header = trim_space (hr_Authorization r);
          bearer = (if is_bearer header then trim_space (drop 7 header) else []);
          token = (if bearer = [] then trim_space (hr_XAPIKey r) else bearer)
      in if token = [] then False else secureEquals token apiKey)"

definition requestCredential :: "http_request \<Rightarrow> string" where
  "requestCredential r =
     (let header = trim_space (hr_Authorization r)
      in if is_bearer header \<and> trim_space (drop 7 header) \<noteq> [] then trim_space (drop 7 header)
         else trim_space (hr_XAPIKey r))"

definition key_is :: "string \<Rightarrow> string \<Rightarrow> bool" where
  "key_is token configured = (let key = trim_space configured in key \<noteq> [] \<and> secureEquals token key)"

definition tenant_of :: "key_manager option \<Rightarrow> string \<Rightarrow> string option" where
  "tenant_of mgr token = (case mgr of None \<Rightarrow> None | Some m \<Rightarrow> TenantFromKey m token)"

definition resolvePresentedCredential :: "http_request \<Rightarrow> auth_config \<Rightarrow> request_auth option" where
  "resolvePresentedCredential r cfg =
     (let token = requestCredential r; dt = trim_space (ac_defaultTenant cfg)
      in if token = [] then None
         else if key_is token (ac_adminWriteKey cfg) then Some \<lparr>ra_access = ''admin-write'', ra_tenant = dt\<rparr>
         else if key_is token (ac_adminKey cfg) then Some \<lparr>ra_access = ''admin'', ra_tenant = dt\<rparr>
         else case tenant_of (ac_tenantWrite cfg) token of
           Some t \<Rightarrow> Some \<lparr>ra_access = ''tenant-write'', ra_tenant = t\<rparr>
         | None \<Rightarrow>
             (case tenant_of (ac_tenantKeys cfg) token of
                Some t \<Rightarrow> Some \<lparr>ra_access = ''tenant'', ra_tenant = t\<rparr>
              | None \<Rightarrow>
                  if key_is token (ac_writeKey cfg) then Some \<lparr>ra_access = ''write'', ra_tenant = dt\<rparr>
                  else if key_is token (ac_apiKey cfg) then Some \<lparr>ra_access = ''api'', ra_tenant = dt\<rparr>
                  else None))"

definition anyAuthConfigured :: "auth_config \<Rightarrow> bool" where
  "anyAuthConfigured cfg \<longleftrightarrow> \<not> blank (ac_apiKey cfg) \<or> \<not> blank (ac_writeKey cfg) \<or> \<not> blank (ac_adminKey cfg) \<or>
     \<not> blank (ac_adminWriteKey cfg) \<or> ac_tenantKeys cfg \<noteq> None \<or> ac_tenantWrite cfg \<noteq> None"

definition meshAuthManager :: "auth_config \<Rightarrow> key_manager option" where
  "meshAuthManager cfg =
     (case ac_tenantWrite cfg of Some m \<Rightarrow> Some m
      | None \<Rightarrow>
          (case ac_tenantKeys cfg of Some m \<Rightarrow> Some m
           | None \<Rightarrow>
               let key = (if ac_writeKey cfg = [] then ac_apiKey cfg else ac_writeKey cfg)
               in if key = [] \<or> blank (ac_defaultTenant cfg) then None
                  else (case NewManagerFromEnv (ac_defaultTenant cfg @ '':'' @ key) of
                          Inl _ \<Rightarrow> None | Inr m \<Rightarrow> Some m)))"

section \<open>The middleware\<close>

datatype auth_outcome =
    Rejected nat string
  | Served "string option" "request_auth option"

text \<open>\<open>serve_as\<close>: the default tenant goes into the context only when it is set.\<close>

definition serve_as :: "auth_config \<Rightarrow> string \<Rightarrow> auth_outcome" where
  "serve_as cfg access =
     Served (if ac_defaultTenant cfg \<noteq> [] then Some (ac_defaultTenant cfg) else None)
       (Some \<lparr>ra_access = access, ra_tenant = ac_defaultTenant cfg\<rparr>)"

definition auth_admin :: "auth_config \<Rightarrow> http_request \<Rightarrow> auth_outcome" where
  "auth_admin cfg r =
     (let write = isWriteMethod (hr_Method r); awk = ac_adminWriteKey cfg
      in if blank (ac_adminKey cfg) \<and> blank (ac_apiKey cfg) \<and> (\<not> write \<or> blank awk)
         then Rejected 403 ''admin endpoint requires API key''
         else if \<not> adminIPAllowed (hr_RemoteAddr r) (ac_adminCIDRs cfg) (ac_allowRemote cfg)
         then Rejected 403 ''admin endpoint is local-only''
         else
           let key1 = (if write \<and> \<not> blank awk then awk else ac_adminKey cfg);
               key = (if blank key1 then ac_apiKey cfg else key1)
           in if \<not> hasValidAPIKey r key then Rejected 401 ''unauthorized''
              else serve_as cfg (if write \<and> \<not> blank awk then ''admin-write'' else ''admin''))"

definition auth_tenant :: "auth_config \<Rightarrow> http_request \<Rightarrow> auth_outcome" where
  "auth_tenant cfg r =
     (let use_write = isWriteMethod (hr_Method r) \<and> ac_tenantWrite cfg \<noteq> None;
          manager = (if use_write then ac_tenantWrite cfg else ac_tenantKeys cfg);
          access = (if use_write then ''tenant-write'' else ''tenant'')
      in case manager of
           None \<Rightarrow> Served None None
         | Some m \<Rightarrow>
             (case TenantFromRequest m r of
                None \<Rightarrow> Rejected 401 ''unauthorized''
              | Some t \<Rightarrow> Served (Some t) (Some \<lparr>ra_access = access, ra_tenant = t\<rparr>)))"

definition withAuth :: "auth_config \<Rightarrow> http_request \<Rightarrow> auth_outcome" where
  "withAuth cfg r =
     (let path = hr_Path r; write = isWriteMethod (hr_Method r)
      in if matchPathRules path (hr_Method r) (ac_publicRules cfg) then Served None None
         else if matchPathRules path (hr_Method r) (ac_adminRules cfg) then auth_admin cfg r
         else if ac_tenantKeys cfg \<noteq> None \<or> (write \<and> ac_tenantWrite cfg \<noteq> None) then auth_tenant cfg r
         else if write \<and> \<not> blank (ac_writeKey cfg) then
           (if \<not> hasValidAPIKey r (ac_writeKey cfg) then Rejected 401 ''unauthorized'' else serve_as cfg ''write'')
         else if \<not> blank (ac_apiKey cfg) then
           (if \<not> hasValidAPIKey r (ac_apiKey cfg) then Rejected 401 ''unauthorized'' else serve_as cfg ''api'')
         else Served None None)"

text \<open>\<open>withDynAuth\<close> also returns the key whose use it records in the background.\<close>

definition presented_key :: "http_request \<Rightarrow> string" where
  "presented_key r =
     (let key = trim_space (hr_XAPIKey r); h = hr_Authorization r
      in if key = [] then trim_space (if prefix ''Bearer '' h then drop 7 h else h) else key)"

definition withDynAuth ::
    "'db bolt \<Rightarrow> 'db \<Rightarrow> auth_config \<Rightarrow> http_request \<Rightarrow> auth_outcome \<times> (string \<times> string) option" where
  "withDynAuth B db cfg r =
     (let key = presented_key r;
          names = (case store_TenantNames B db of Inl _ \<Rightarrow> [] | Inr ns \<Rightarrow> ns)
      in if key \<noteq> [] \<and> prefix ''sk-'' key then
           (case billing_GetKeyBySecret B (Some db) names key of
              Some sk \<Rightarrow> (Served (Some (sk_TenantID sk)) (Some \<lparr>ra_access = ''tenant'', ra_tenant = sk_TenantID sk\<rparr>),
                 Some (sk_TenantID sk, sk_ID sk))
            | None \<Rightarrow> (withAuth cfg r, None))
         else (withAuth cfg r, None))"

section \<open>Who gets through\<close>

definition ex_rule :: "string \<Rightarrow> path_rule" where
  "ex_rule p = \<lparr>pr_value = p, pr_prefix = False, pr_method = []\<rparr>"

definition ex_config :: auth_config where
  "ex_config = \<lparr>ac_apiKey = [], ac_adminKey = ''root'', ac_adminWriteKey = [], ac_writeKey = [],
     ac_tenantKeys = Some [''k1'' \<mapsto> ''acme''], ac_tenantWrite = None, ac_defaultTenant = ''default'',
     ac_publicRules = [ex_rule ''/health''], ac_adminRules = [ex_rule ''/admin/status''],
     ac_allowRemote = False, ac_adminCIDRs = []\<rparr>"

definition ex_http :: "string \<Rightarrow> string \<Rightarrow> string \<Rightarrow> http_request" where
  "ex_http path key addr = \<lparr>hr_Method = ''GET'', hr_Path = path, hr_Authorization = [], hr_XAPIKey = key, hr_RemoteAddr = addr\<rparr>"

lemma hasValidAPIKey_iff: "hasValidAPIKey r k \<longleftrightarrow> requestCredential r = k \<and> k \<noteq> []"
  by (auto simp: hasValidAPIKey_def requestCredential_def Let_def)

lemma no_credential_tenant: "requestCredential r = [] \<Longrightarrow> TenantFromRequest m r = None"
  by (auto simp: requestCredential_def TenantFromRequest_def Let_def split: if_splits)

lemma serve_as_iff [simp]: "serve_as cfg a \<noteq> Rejected c e" "serve_as cfg a \<noteq> Served t None"
  by (simp_all add: serve_as_def)

text \<open>C6. An admin path is served only to a client from an allowed address that presents the key in
  charge: the admin write key for a write when one is configured, otherwise the admin key, otherwise
  the API key; a blank key never lets anyone in.\<close>

theorem admin_requires_key:
  assumes "matchPathRules (hr_Path r) (hr_Method r) (ac_adminRules cfg)"
    and "\<not> matchPathRules (hr_Path r) (hr_Method r) (ac_publicRules cfg)"
    and "withAuth cfg r = Served t info"
  shows "adminIPAllowed (hr_RemoteAddr r) (ac_adminCIDRs cfg) (ac_allowRemote cfg) \<and>
    \<not> blank (requestCredential r) \<and>
    requestCredential r =
      (if isWriteMethod (hr_Method r) \<and> \<not> blank (ac_adminWriteKey cfg) then ac_adminWriteKey cfg
       else if \<not> blank (ac_adminKey cfg) then ac_adminKey cfg else ac_apiKey cfg)"
proof -
  from assms have "auth_admin cfg r = Served t info" by (simp add: withAuth_def)
  then show ?thesis
    unfolding auth_admin_def Let_def hasValidAPIKey_iff
    by (cases "isWriteMethod (hr_Method r) \<and> \<not> blank (ac_adminWriteKey cfg)"; cases "blank (ac_adminKey cfg)")
      (auto split: if_splits)
qed

theorem admin_requires_key_witness:
  "requestCredential (ex_http ''/admin/status'' ''root'' ''127.0.0.1:9'') = ''root'' \<and>
   adminIPAllowed ''127.0.0.1:9'' [] False"
proof -
  let ?r = "ex_http ''/admin/status'' ''root'' ''127.0.0.1:9''"
  have "matchPathRules (hr_Path ?r) (hr_Method ?r) (ac_adminRules ex_config)" by code_simp
  moreover have "\<not> matchPathRules (hr_Path ?r) (hr_Method ?r) (ac_publicRules ex_config)" by code_simp
  moreover have "withAuth ex_config ?r = Served (Some ''default'') (Some \<lparr>ra_access = ''admin'', ra_tenant = ''default''\<rparr>)"
    by code_simp
  ultimately have "adminIPAllowed (hr_RemoteAddr ?r) (ac_adminCIDRs ex_config) (ac_allowRemote ex_config) \<and>
    \<not> blank (requestCredential ?r) \<and> requestCredential ?r =
      (if isWriteMethod (hr_Method ?r) \<and> \<not> blank (ac_adminWriteKey ex_config) then ac_adminWriteKey ex_config
       else if \<not> blank (ac_adminKey ex_config) then ac_adminKey ex_config else ac_apiKey ex_config)"
    by (rule admin_requires_key)
  moreover have "\<not> blank (ac_adminKey ex_config)" by code_simp
  ultimately show ?thesis by (auto simp: ex_http_def ex_config_def split: if_splits)
qed

text \<open>C8. A request without credentials gets through exactly when its path is public, or when it is no
  admin path and nothing guards its kind of method: no tenant keys, no API key, and for a write no
  tenant write keys and no write key.\<close>

theorem anonymous_access_exact:
  assumes "requestCredential r = []"
  shows "(\<exists>t info. withAuth cfg r = Served t info) \<longleftrightarrow>
    matchPathRules (hr_Path r) (hr_Method r) (ac_publicRules cfg) \<or>
    \<not> matchPathRules (hr_Path r) (hr_Method r) (ac_adminRules cfg) \<and>
    ac_tenantKeys cfg = None \<and> blank (ac_apiKey cfg) \<and>
    (isWriteMethod (hr_Method r) \<longrightarrow> ac_tenantWrite cfg = None \<and> blank (ac_writeKey cfg))"
proof -
  have "auth_admin cfg r \<noteq> Served t info" for t info
    using assms by (simp add: auth_admin_def Let_def hasValidAPIKey_iff)
  moreover have "auth_tenant cfg r \<noteq> Served t info"
    if "ac_tenantKeys cfg \<noteq> None \<or> (isWriteMethod (hr_Method r) \<and> ac_tenantWrite cfg \<noteq> None)" for t info
    using that no_credential_tenant [OF assms] by (auto simp: auth_tenant_def Let_def split: option.splits)
  ultimately show ?thesis
    using assms by (auto simp: withAuth_def Let_def hasValidAPIKey_iff)
qed

theorem anonymous_access_exact_witness:
  "(\<exists>t info. withAuth ex_config (ex_http ''/health'' [] ''9.9.9.9:1'') = Served t info) \<and>
   \<not> (\<exists>t info. withAuth ex_config (ex_http ''/jobs'' [] ''9.9.9.9:1'') = Served t info)"
proof -
  have c: "requestCredential (ex_http p [] a) = []" for p a
    by (simp add: requestCredential_def ex_http_def is_bearer_def to_lower_def)
  have "matchPathRules ''/health'' ''GET'' (ac_publicRules ex_config)"
    and "\<not> matchPathRules ''/jobs'' ''GET'' (ac_publicRules ex_config)" by code_simp+
  then show ?thesis using anonymous_access_exact [OF c, of ex_config] by (simp add: ex_http_def ex_config_def)
qed

text \<open>A request served as a tenant presented a key that the manager in charge of its kind of
  method assigns to exactly that tenant.\<close>

theorem tenant_principal_owns_key:
  assumes "withAuth cfg r = Served t (Some ra)" "ra_access ra \<in> {''tenant'', ''tenant-write''}"
  shows "\<exists>m. (if ra_access ra = ''tenant-write'' then ac_tenantWrite cfg else ac_tenantKeys cfg) = Some m \<and>
    t = Some (ra_tenant ra) \<and>
    (m (trim_space (hr_XAPIKey r)) = t \<or> m (trim_space (drop 7 (trim_space (hr_Authorization r)))) = t) \<and>
    (isWriteMethod (hr_Method r) \<and> ac_tenantWrite cfg \<noteq> None \<longrightarrow> ra_access ra = ''tenant-write'')"
proof -
  have "auth_tenant cfg r = Served t (Some ra)"
    using assms by (auto simp: withAuth_def Let_def auth_admin_def serve_as_def split: if_splits)
  then show ?thesis
    by (auto simp: auth_tenant_def Let_def TenantFromRequest_def TenantFromKey_def split: option.splits if_splits)
qed

theorem tenant_principal_owns_key_witness:
  "withAuth ex_config (ex_http ''/jobs'' ''k1'' ''9.9.9.9:1'') = Served (Some ''acme'') (Some \<lparr>ra_access = ''tenant'', ra_tenant = ''acme''\<rparr>) \<and>
   (\<exists>m. ac_tenantKeys ex_config = Some m)"
proof -
  let ?r = "ex_http ''/jobs'' ''k1'' ''9.9.9.9:1''"
  have "withAuth ex_config ?r = Served (Some ''acme'') (Some \<lparr>ra_access = ''tenant'', ra_tenant = ''acme''\<rparr>)"
    by code_simp
  with tenant_principal_owns_key [OF this] show ?thesis by auto
qed

lemma secret_trimmed: "trimmed (''sk-'' @ hex bs)"
proof -
  have "\<forall>c \<in> set (''-'' @ hex bs). \<not> is_space c" using hex_no_space [of bs] by (simp add: is_space_def)
  then have "\<not> is_space (last (''-'' @ hex bs))" using last_in_set [of "''-'' @ hex bs"] by blast
  then show ?thesis by (simp add: trimmed_def is_space_def)
qed

lemma put_names:
  assumes "bolt_ok B" "store_PutKV B db t k v = (None, db')" "view_error B db' = None"
  shows "\<exists>ns. store_TenantNames B db' = Inr ns \<and> t \<in> set ns"
proof -
  note p = PutKV_ok [OF assms(1,2)]
  have "tenant_view B db' t k = Some v" by (simp add: p(1))
  then have "has_bucket B db' (tenants_path @ [t])"
    using bget_no_bucket [OF assms(1), of db' "tenant_path t" k]
    by (auto simp: tenant_view_def tenant_path_def tenants_path_def)
  then have "t \<in> set (sub_buckets B db' tenants_path)"
    using assms(1) by (simp add: bolt_ok_def bucket_law_def)
  with p(2) assms(3) show ?thesis by (simp add: store_TenantNames_def store_view_def)
qed

text \<open>C31. A tenant's own API key skips the checks of an admin path: a request carrying a key the tenant
  generated is passed to the handler as that tenant from any address, where the admin rules refuse
  the address.\<close>

theorem subkey_skips_admin_checks:
  assumes "bolt_ok B" "view_error B db1 = None"
    and "\<forall>t i sk'. stored_key B db t i sk' \<longrightarrow> sk_Key sk' \<noteq> ''sk-'' @ hex r24"
    and gen: "billing_GenerateKey B (Some db) tenant name (Some r8) (Some r24) now = (Inr sk, Some db1)"
    and "hr_XAPIKey r = sk_Key sk"
    and "matchPathRules (hr_Path r) (hr_Method r) (ac_adminRules cfg)"
    and "\<not> matchPathRules (hr_Path r) (hr_Method r) (ac_publicRules cfg)"
    and "\<not> adminIPAllowed (hr_RemoteAddr r) (ac_adminCIDRs cfg) (ac_allowRemote cfg)"
  shows "(\<exists>e. withAuth cfg r = Rejected 403 e) \<and>
    fst (withDynAuth B db1 cfg r) =
      Served (Some (trim_space tenant)) (Some \<lparr>ra_access = ''tenant'', ra_tenant = trim_space tenant\<rparr>)"
proof -
  note g = GenerateKey_put [OF gen]
  obtain ns where ns: "store_TenantNames B db1 = Inr ns" "sk_TenantID sk \<in> set ns"
    using put_names [OF assms(1) g(1) assms(2)] by blast
  have found: "billing_GetKeyBySecret B (Some db1) ns (sk_Key sk) = Some sk"
    by (rule generated_key_found [OF assms(1-3) gen ns(2)])
  have key: "presented_key r = sk_Key sk" "sk_Key sk \<noteq> []" "prefix ''sk-'' (sk_Key sk)"
    using assms(5) g(3) trim_space_trimmed [OF secret_trimmed, of r24] by (simp_all add: presented_key_def)
  have "fst (withDynAuth B db1 cfg r) =
      Served (Some (trim_space tenant)) (Some \<lparr>ra_access = ''tenant'', ra_tenant = trim_space tenant\<rparr>)"
    using key found g(2) by (simp add: withDynAuth_def ns(1))
  moreover have "\<exists>e. withAuth cfg r = Rejected 403 e"
    using assms(6-8) by (simp add: withAuth_def auth_admin_def Let_def)
  ultimately show ?thesis by blast
qed

theorem subkey_skips_admin_checks_witness:
  "\<exists>db1. (\<exists>e. withAuth ex_config (ex_http ''/admin/status'' (sk_Key ex_key) ''9.9.9.9:1'') = Rejected 403 e) \<and>
    fst (withDynAuth membolt db1 ex_config (ex_http ''/admin/status'' (sk_Key ex_key) ''9.9.9.9:1'')) =
      Served (Some ''acme'') (Some \<lparr>ra_access = ''tenant'', ra_tenant = ''acme''\<rparr>)"
proof -
  let ?r = "ex_http ''/admin/status'' (sk_Key ex_key) ''9.9.9.9:1''"
  obtain db1 where put: "store_PutKV membolt mem0 ''acme'' (keyPrefix @ hex ''a'') (Doc (marshal_key ex_key)) = (None, db1)"
    by (rule membolt_put [OF mem0_simps(1)])
  have t: "trim_space ''acme'' = ''acme''" by code_simp
  have gen: "billing_GenerateKey membolt (Some mem0) ''acme'' [] (Some ''a'') (Some ''b'') 5 = (Inr ex_key, Some db1)"
    using put by (simp add: billing_GenerateKey_def newID_def Let_def t ex_key_def)
  have "\<not> adminIPAllowed (hr_RemoteAddr ?r) (ac_adminCIDRs ex_config) (ac_allowRemote ex_config)" by code_simp
  moreover have "matchPathRules (hr_Path ?r) (hr_Method ?r) (ac_adminRules ex_config)"
    and "\<not> matchPathRules (hr_Path ?r) (hr_Method ?r) (ac_publicRules ex_config)" by code_simp+
  ultimately have "(\<exists>e. withAuth ex_config ?r = Rejected 403 e) \<and> fst (withDynAuth membolt db1 ex_config ?r) =
      Served (Some (trim_space ''acme'')) (Some \<lparr>ra_access = ''tenant'', ra_tenant = trim_space ''acme''\<rparr>)"
    by (intro subkey_skips_admin_checks [OF membolt_ok _ _ gen]) (simp_all add: ex_http_def stored_key_def)
  then show ?thesis unfolding t by blast
qed

section \<open>Reading tenant keys\<close>

definition entry_ok :: "string \<times> string \<Rightarrow> bool" where
  "entry_ok e \<longleftrightarrow> trimmed (fst e) \<and> trimmed (snd e) \<and> CHR '':'' \<notin> set (fst e) \<and>
     CHR '','' \<notin> set (fst e) \<and> CHR '','' \<notin> set (snd e)"

definition env_entry :: "string \<times> string \<Rightarrow> string" where
  "env_entry e = fst e @ '':'' @ snd e"

lemma env_entry_ok: "entry_ok e \<Longrightarrow> trimmed (env_entry e) \<and> CHR '','' \<notin> set (env_entry e)"
  using trimmed_append [of "fst e" "snd e" "'':''"] by (auto simp: entry_ok_def env_entry_def)

lemma parse_pairs_entries:
  "\<forall>e \<in> set es. entry_ok e \<Longrightarrow>
    parse_pairs (map env_entry es) m = Inr (m ++ map_of (rev (map (\<lambda>e. (snd e, fst e)) es)))"
proof (induction es arbitrary: m)
  case (Cons e es)
  then have e: "entry_ok e" by simp
  have ne: "env_entry e \<noteq> []" "fst e \<noteq> []" "snd e \<noteq> []" using e by (auto simp: entry_ok_def env_entry_def trimmed_def)
  have tr: "trim_space (env_entry e) = env_entry e" "trim_space (fst e) = fst e" "trim_space (snd e) = snd e"
    using e env_entry_ok [OF e] by (auto simp: entry_ok_def intro: trim_space_trimmed)
  have sp: "split2 (CHR '':'') (env_entry e) = [fst e, snd e]"
    using e split2_append [of "CHR '':''" "fst e" "snd e"] by (simp add: entry_ok_def env_entry_def)
  show ?case using Cons by (simp add: Let_def tr ne sp map_add_def fun_eq_iff split: option.splits)
qed simp

text \<open>Reading back a list of tenant keys written as comma-separated entries (tenant, colon, key) gives a
  manager that maps each key to its tenant, the last entry winning for a repeated key, and knows no
  other key.\<close>

theorem tenant_keys_parse:
  assumes "es \<noteq> []" "\<forall>e \<in> set es. entry_ok e"
  shows "\<exists>m. NewManagerFromEnv (join '','' (map env_entry es)) = Inr m \<and>
    (\<forall>k. TenantFromKey m k = map_option fst (find (\<lambda>e. snd e = k) (rev es)))"
proof -
  let ?raw = "join '','' (map env_entry es)"
  have ok: "\<forall>x \<in> set (map env_entry es). trimmed x \<and> CHR '','' \<notin> set x"
    using assms(2) env_entry_ok by auto
  then have tr: "trim_space ?raw = ?raw" "?raw \<noteq> []"
    using trimmed_join [of "map env_entry es" "'',''"] assms(1) by (auto intro!: trim_space_trimmed simp: trimmed_def)
  have sp: "split_on (CHR '','') ?raw = map env_entry es" using ok assms(1) by (intro split_on_join) auto
  have "\<not> list_all blank (map env_entry es)"
    using ok assms(1) trim_space_trimmed [of "env_entry (hd es)"] by (cases es) (auto simp: trimmed_def)
  then have "NewManagerFromEnv ?raw = Inr (map_of (rev (map (\<lambda>e. (snd e, fst e)) es)))"
    using parse_pairs_entries [OF assms(2), of Map.empty] by (simp add: NewManagerFromEnv_def Let_def tr sp)
  moreover have "map_of (map (\<lambda>e. (snd e, fst e)) xs) k = map_option fst (find (\<lambda>e. snd e = k) xs)"
    for xs :: "(string \<times> string) list" and k
    by (induction xs) auto
  ultimately show ?thesis by (auto simp: TenantFromKey_def rev_map)
qed

theorem tenant_keys_parse_witness:
  "\<exists>m. NewManagerFromEnv ''acme:k1,beta:k2'' = Inr m \<and> TenantFromKey m ''k2'' = Some ''beta''"
proof -
  let ?es = "[(''acme'', ''k1''), (''beta'', ''k2'')]"
  have "\<forall>e \<in> set ?es. entry_ok e" by (simp add: entry_ok_def trimmed_def is_space_def)
  from tenant_keys_parse [OF _ this] show ?thesis by (auto simp: env_entry_def)
qed

end
