(* ===== verification/Mesh.thy ===== *)
theory Mesh
  imports JsonText Routing Auth
begin

text \<open>
  The mesh node of \<^verbatim>\<open>pkg/mesh/mesh.go\<close> and the gRPC service of
  \<^verbatim>\<open>pkg/mesh/server.go\<close>.

  A node is a state: its configuration, the routing table it shares with the server, the packet
  counters and the health of its peers. The protocol buffer encoding is third-party code: the
  function \<open>decode\<close> from packets to control messages is an argument of \<open>mesh_handlePacket\<close>. The
  payload of a message is a JSON document; what is signed are its bytes, \<open>payload_text\<close>. The
  clock readings made while one packet is handled are one instant. What a node sends is the list of
  messages with their peers; resolving the peer's address and writing to the socket are left out.
\<close>

section \<open>Data\<close>

type_synonym uint32 = "32 word"

record mesh_config =
  mc_NodeID :: uint32
  mc_BindAddr :: string
  mc_Peers :: "string list"
  mc_HeartbeatInterval :: duration
  mc_RouteTTL :: duration
  mc_SharedKeys :: "string list"
  mc_PeerKeys :: "string \<rightharpoonup> string"
  mc_TenantID :: string
  mc_GossipInterval :: duration
  mc_GossipMaxRoutes :: int

record peer_stat =
  ps_Addr :: string
  ps_LastSeen :: instant
  ps_LatencyMs :: int
  ps_Packets :: uint64

record mesh_stats =
  ms_Received :: uint64
  ms_Accepted :: uint64
  ms_Rejected :: uint64
  ms_RejectedAuth :: uint64
  ms_RejectedParse :: uint64

record mesh_node =
  nd_cfg :: mesh_config
  nd_router :: routes
  nd_stats :: mesh_stats
  nd_peers :: "string \<rightharpoonup> peer_stat"
  nd_closed :: bool

datatype control_type = HEARTBEAT | HANDSHAKE | OtherControl int

record control_message =
  cm_ControlType :: control_type
  cm_NodeId :: uint32
  cm_Payload :: blob
  cm_TenantId :: string

record gossip_route =
  gr_Dst :: string
  gr_Lat :: int
  gr_Thr :: int

record control_payload =
  cp_Timestamp :: int
  cp_Addr :: string
  cp_Routes :: "gossip_route list"
  cp_Signature :: string

section \<open>Payloads and their signatures\<close>

definition gossip_text :: "gossip_route \<Rightarrow> string" where
  "gossip_text g = json_object [json_member ''dst'' (json_quote (gr_Dst g)),
     json_member ''lat'' (show_int (gr_Lat g)), json_member ''thr'' (show_int (gr_Thr g))]"

definition payload_text :: "control_payload \<Rightarrow> string" where
  "payload_text p = json_object ([json_member ''ts'' (show_int (cp_Timestamp p)), json_member ''addr'' (json_quote (cp_Addr p))] @
     (if cp_Routes p = [] then [] else [json_member ''routes'' (json_array (map gossip_text (cp_Routes p)))]) @
     (if cp_Signature p = [] then [] else [json_member ''sig'' (json_quote (cp_Signature p))]))"

definition gossip_doc :: "gossip_route \<Rightarrow> json" where
  "gossip_doc g = JObj [(''dst'', JStr (gr_Dst g)), (''lat'', JInt (gr_Lat g)), (''thr'', JInt (gr_Thr g))]"

definition payload_doc :: "control_payload \<Rightarrow> json" where
  "payload_doc p = JObj ([(''ts'', JInt (cp_Timestamp p)), (''addr'', JStr (cp_Addr p))] @
     (if cp_Routes p = [] then [] else [(''routes'', JArr (map gossip_doc (cp_Routes p)))]) @
     opt_str ''sig'' (cp_Signature p))"

definition gossip_of_fields :: "(string \<times> json) list \<Rightarrow> gossip_route option" where
  "gossip_of_fields fs =
     (case (as_str (field fs ''dst''), as_int (field fs ''lat''), as_int (field fs ''thr'')) of
        (Some d, Some l, Some t) \<Rightarrow> Some \<lparr>gr_Dst = d, gr_Lat = l, gr_Thr = t\<rparr>
      | _ \<Rightarrow> None)"

fun unmarshal_gossip :: "json \<Rightarrow> gossip_route option" where
  "unmarshal_gossip (JObj fs) = gossip_of_fields fs"
| "unmarshal_gossip JNull = gossip_of_fields []"
| "unmarshal_gossip _ = None"

fun as_gossip :: "json \<Rightarrow> gossip_route list option" where
  "as_gossip JNull = Some []"
| "as_gossip (JArr xs) = sequence_opt (map unmarshal_gossip xs)"
| "as_gossip _ = None"

definition payload_of_fields :: "(string \<times> json) list \<Rightarrow> control_payload option" where
  "payload_of_fields fs =
     (case (as_int (field fs ''ts''), as_str (field fs ''addr''), as_gossip (field fs ''routes''), as_str (field fs ''sig'')) of
        (Some t, Some a, Some r, Some s) \<Rightarrow> Some \<lparr>cp_Timestamp = t, cp_Addr = a, cp_Routes = r, cp_Signature = s\<rparr>
      | _ \<Rightarrow> None)"

fun unmarshal_payload :: "blob \<Rightarrow> control_payload option" where
  "unmarshal_payload (Doc (JObj fs)) = payload_of_fields fs"
| "unmarshal_payload (Doc JNull) = payload_of_fields []"
| "unmarshal_payload _ = None"

definition mesh_sign :: "string \<Rightarrow> string \<Rightarrow> string" where
  "mesh_sign data key = hex (hmac256 key data)"

definition marshalControlPayload :: "control_payload \<Rightarrow> string \<Rightarrow> blob" where
  "marshalControlPayload p key =
     (if blank key then Doc (payload_doc p)
      else let base = payload_text (p\<lparr>cp_Signature := []\<rparr>)
           in Doc (payload_doc (p\<lparr>cp_Signature := mesh_sign base key\<rparr>)))"

definition verifyControlPayload :: "control_payload \<Rightarrow> string list \<Rightarrow> bool" where
  "verifyControlPayload p keys =
     (if keys = [] then True
      else if blank (cp_Signature p) then False
      else let base = payload_text (p\<lparr>cp_Signature := []\<rparr>)
           in list_ex (\<lambda>key. \<not> blank key \<and> secureEquals (cp_Signature p) (mesh_sign base key)) keys)"

definition sharedKeyFor :: "mesh_config \<Rightarrow> string \<Rightarrow> string" where
  "sharedKeyFor cfg peer =
     (case (if blank peer then None else mc_PeerKeys cfg peer) of
        Some key \<Rightarrow> if \<not> blank key then key else (case mc_SharedKeys cfg of [] \<Rightarrow> [] | k # _ \<Rightarrow> k)
      | None \<Rightarrow> (case mc_SharedKeys cfg of [] \<Rightarrow> [] | k # _ \<Rightarrow> k))"

text \<open>The keys a packet may be signed with, from the address it claims and the address it came from
  (\<open>None\<close> for a nil address).\<close>

definition keyCandidates :: "mesh_config \<Rightarrow> string option \<Rightarrow> string \<Rightarrow> string list" where
  "keyCandidates cfg addr claimed =
     (if claimed = [] then [] else (case mc_PeerKeys cfg claimed of None \<Rightarrow> [] | Some k \<Rightarrow> [k])) @
     (case addr of None \<Rightarrow> [] | Some a \<Rightarrow> (case mc_PeerKeys cfg a of None \<Rightarrow> [] | Some k \<Rightarrow> [k])) @
     mc_SharedKeys cfg"

section \<open>The node\<close>

definition zero_stats :: mesh_stats where
  "zero_stats = \<lparr>ms_Received = 0, ms_Accepted = 0, ms_Rejected = 0, ms_RejectedAuth = 0, ms_RejectedParse = 0\<rparr>"

text \<open>\<open>Start\<close> without opening the socket: the defaults of the configuration and the fresh node.\<close>

definition mesh_Start :: "mesh_config \<Rightarrow> routes option \<Rightarrow> string + mesh_node" where
  "mesh_Start cfg router =
     (case router of None \<Rightarrow> Inl ''router is required''
      | Some rs \<Rightarrow>
          if mc_BindAddr cfg = [] then Inl ''bind addr is required''
          else
            let cfg' = cfg\<lparr>
                  mc_HeartbeatInterval := (if mc_HeartbeatInterval cfg \<le> 0 then 5 * second_ns else mc_HeartbeatInterval cfg),
                  mc_RouteTTL := (if mc_RouteTTL cfg \<le> 0 then 30 * second_ns else mc_RouteTTL cfg),
                  mc_GossipMaxRoutes := (if mc_GossipMaxRoutes cfg \<le> 0 then 50 else mc_GossipMaxRoutes cfg)\<rparr>
            in Inr \<lparr>nd_cfg = cfg', nd_router = rs, nd_stats = zero_stats, nd_peers = Map.empty, nd_closed = False\<rparr>)"

definition mesh_Close :: "mesh_node \<Rightarrow> mesh_node" where
  "mesh_Close n = (if nd_closed n then n else n\<lparr>nd_closed := True\<rparr>)"

definition mesh_Snapshot :: "mesh_node \<Rightarrow> mesh_stats \<times> mesh_config" where
  "mesh_Snapshot n = (nd_stats n, nd_cfg n)"

definition mesh_PeerHealth :: "mesh_node \<Rightarrow> string \<rightharpoonup> peer_stat" where
  "mesh_PeerHealth n = nd_peers n"

definition reject_parse :: "mesh_stats \<Rightarrow> mesh_stats" where
  "reject_parse s = s\<lparr>ms_Rejected := ms_Rejected s + 1, ms_RejectedParse := ms_RejectedParse s + 1\<rparr>"

definition reject_auth :: "mesh_stats \<Rightarrow> mesh_stats" where
  "reject_auth s = s\<lparr>ms_Rejected := ms_Rejected s + 1, ms_RejectedAuth := ms_RejectedAuth s + 1\<rparr>"

definition packet_latency :: "int \<Rightarrow> instant \<Rightarrow> int" where
  "packet_latency ts now =
     (if 0 < ts then
        let delta = i64 (now div millisecond_ns - ts)
        in if 0 < delta \<and> delta < 3600000 then delta else 0
      else 0)"

fun apply_gossip :: "duration \<Rightarrow> instant \<Rightarrow> gossip_route list \<Rightarrow> routes \<Rightarrow> routes" where
  "apply_gossip ttl now [] rs = rs"
| "apply_gossip ttl now (g # gs) rs =
     apply_gossip ttl now gs
       (if blank (gr_Dst g) then rs
        else snd (re_AddRouteWithTTL rs (gr_Dst g) \<lparr>rm_Latency = gr_Lat g, rm_Throughput = gr_Thr g\<rparr> ttl now))"

definition touch_peer :: "(string \<rightharpoonup> peer_stat) \<Rightarrow> string \<Rightarrow> int \<Rightarrow> instant \<Rightarrow> string \<rightharpoonup> peer_stat" where
  "touch_peer ps a latency now =
     (let n = (case ps a of None \<Rightarrow> 0 | Some p \<Rightarrow> ps_Packets p);
          name = (case ps a of None \<Rightarrow> a | Some p \<Rightarrow> ps_Addr p)
      in ps(a \<mapsto> \<lparr>ps_Addr = name, ps_LastSeen = now, ps_LatencyMs = latency, ps_Packets = n + 1\<rparr>))"

text \<open>What an accepted payload does.\<close>

definition accept_payload :: "mesh_node \<Rightarrow> control_payload \<Rightarrow> string \<Rightarrow> instant \<Rightarrow> mesh_node" where
  "accept_payload n p addr now =
     (let latency = packet_latency (cp_Timestamp p) now;
          routeAddr = (if cp_Addr p \<noteq> [] then cp_Addr p else addr);
          ttl = mc_RouteTTL (nd_cfg n);
          rs1 = snd (re_AddRouteWithTTL (nd_router n) routeAddr \<lparr>rm_Latency = latency, rm_Throughput = 0\<rparr> ttl now)
      in n\<lparr>nd_router := apply_gossip ttl now (cp_Routes p) rs1,
           nd_peers := touch_peer (nd_peers n) routeAddr latency now,
           nd_stats := (nd_stats n)\<lparr>ms_Accepted := ms_Accepted (nd_stats n) + 1\<rparr>\<rparr>)"

definition mesh_handlePacket ::
    "(string \<Rightarrow> control_message option) \<Rightarrow> mesh_node \<Rightarrow> string \<Rightarrow> string \<Rightarrow> instant \<Rightarrow> mesh_node" where
  "mesh_handlePacket decode n0 data addr now =
     (let n = n0\<lparr>nd_stats := (nd_stats n0)\<lparr>ms_Received := ms_Received (nd_stats n0) + 1\<rparr>\<rparr>; cfg = nd_cfg n
      in case decode data of
           None \<Rightarrow> n\<lparr>nd_stats := reject_parse (nd_stats n)\<rparr>
         | Some msg \<Rightarrow>
             if cm_ControlType msg \<noteq> HEARTBEAT \<and> cm_ControlType msg \<noteq> HANDSHAKE
             then n\<lparr>nd_stats := reject_parse (nd_stats n)\<rparr>
             else if \<not> blank (mc_TenantID cfg) \<and> cm_TenantId msg \<noteq> [] \<and> cm_TenantId msg \<noteq> mc_TenantID cfg
             then n\<lparr>nd_stats := reject_auth (nd_stats n)\<rparr>
             else case unmarshal_payload (cm_Payload msg) of
                    None \<Rightarrow> n\<lparr>nd_stats := reject_parse (nd_stats n)\<rparr>
                  | Some p \<Rightarrow>
                      if \<not> verifyControlPayload p (keyCandidates cfg (Some addr) (cp_Addr p))
                      then n\<lparr>nd_stats := reject_auth (nd_stats n)\<rparr>
                      else accept_payload n p addr now)"

section \<open>What a node sends\<close>

definition mesh_message :: "mesh_config \<Rightarrow> control_type \<Rightarrow> blob \<Rightarrow> control_message" where
  "mesh_message cfg t payload =
     \<lparr>cm_ControlType = t, cm_NodeId = mc_NodeID cfg, cm_Payload = payload, cm_TenantId = mc_TenantID cfg\<rparr>"

definition send_to_peers :: "mesh_config \<Rightarrow> (string \<Rightarrow> control_message) \<Rightarrow> (string \<times> control_message) list" where
  "send_to_peers cfg f =
     List.map_filter (\<lambda>peer. let p = trim_space peer in if p = [] then None else Some (p, f p)) (mc_Peers cfg)"

definition broadcastControl :: "mesh_node \<Rightarrow> control_type \<Rightarrow> instant \<Rightarrow> (string \<times> control_message) list" where
  "broadcastControl n t now =
     send_to_peers (nd_cfg n) (\<lambda>peer. mesh_message (nd_cfg n) t
       (marshalControlPayload \<lparr>cp_Timestamp = now div millisecond_ns, cp_Addr = mc_BindAddr (nd_cfg n),
          cp_Routes = [], cp_Signature = []\<rparr> (sharedKeyFor (nd_cfg n) peer)))"

text \<open>\<open>ListRoutes\<close> prunes the table it lists, so gossiping changes the node.\<close>

definition broadcastGossip :: "mesh_node \<Rightarrow> instant \<Rightarrow> (string \<times> control_message) list \<times> mesh_node" where
  "broadcastGossip n now =
     (case re_ListRoutes (nd_router n) now of (listed, rs) \<Rightarrow>
        let max = mc_GossipMaxRoutes (nd_cfg n);
            routes = (if max < int (length listed) then take (nat max) listed else listed);
            gossip = map (\<lambda>r. \<lparr>gr_Dst = rt_Destination r, gr_Lat = rm_Latency (rt_Metric r), gr_Thr = rm_Throughput (rt_Metric r)\<rparr>) routes
        in (if routes = [] then []
            else send_to_peers (nd_cfg n) (\<lambda>peer. mesh_message (nd_cfg n) HEARTBEAT
              (marshalControlPayload \<lparr>cp_Timestamp = now div millisecond_ns, cp_Addr = mc_BindAddr (nd_cfg n),
                 cp_Routes = gossip, cp_Signature = []\<rparr> (sharedKeyFor (nd_cfg n) peer))),
            n\<lparr>nd_router := rs\<rparr>))"

section \<open>The gRPC service\<close>

datatype grpc_error = Unauthenticated string | PermissionDenied string

record data_message =
  dm_SourceId :: uint32
  dm_DestinationId :: uint32
  dm_TenantId :: string

record ack =
  ak_SourceId :: uint32
  ak_DestinationId :: uint32
  ak_Timestamp :: int
  ak_Message :: string
  ak_TenantId :: string

definition mesh_SendData ::
    "key_manager \<Rightarrow> (string \<Rightarrow> string list) option \<Rightarrow> data_message \<Rightarrow> instant \<Rightarrow> grpc_error + ack" where
  "mesh_SendData m md msg now =
     (case TenantFromContext m md of
        None \<Rightarrow> Inl (Unauthenticated ''missing tenant'')
      | Some tenant \<Rightarrow>
          if dm_TenantId msg \<noteq> [] \<and> dm_TenantId msg \<noteq> tenant then Inl (PermissionDenied ''tenant mismatch'')
          else Inr \<lparr>ak_SourceId = dm_DestinationId msg, ak_DestinationId = dm_SourceId msg,
            ak_Timestamp = now div second_ns, ak_Message = ''ack'', ak_TenantId = tenant\<rparr>)"

definition mesh_SendControl ::
    "key_manager \<Rightarrow> (string \<Rightarrow> string list) option \<Rightarrow> control_message \<Rightarrow> instant \<Rightarrow> grpc_error + ack" where
  "mesh_SendControl m md msg now =
     (case TenantFromContext m md of
        None \<Rightarrow> Inl (Unauthenticated ''missing tenant'')
      | Some tenant \<Rightarrow>
          if cm_TenantId msg \<noteq> [] \<and> cm_TenantId msg \<noteq> tenant then Inl (PermissionDenied ''tenant mismatch'')
          else Inr \<lparr>ak_SourceId = cm_NodeId msg, ak_DestinationId = cm_NodeId msg,
            ak_Timestamp = now div second_ns, ak_Message = ''ack'', ak_TenantId = tenant\<rparr>)"

section \<open>Payloads read back\<close>

definition payload_ok :: "control_payload \<Rightarrow> bool" where
  "payload_ok p \<longleftrightarrow> is_i64 (cp_Timestamp p) \<and> (\<forall>g \<in> set (cp_Routes p). is_i64 (gr_Lat g) \<and> is_i64 (gr_Thr g))"

lemma unmarshal_gossip_doc:
  "is_i64 (gr_Lat g) \<Longrightarrow> is_i64 (gr_Thr g) \<Longrightarrow> unmarshal_gossip (gossip_doc g) = Some g"
  by (simp add: gossip_doc_def gossip_of_fields_def json_field)

lemma as_gossip_docs:
  "\<forall>g \<in> set gs. is_i64 (gr_Lat g) \<and> is_i64 (gr_Thr g) \<Longrightarrow> as_gossip (JArr (map gossip_doc gs)) = Some gs"
  using sequence_opt_map [of gs unmarshal_gossip gossip_doc "\<lambda>x. x"] by (simp add: unmarshal_gossip_doc)

lemma unmarshal_payload_doc: "payload_ok p \<Longrightarrow> unmarshal_payload (Doc (payload_doc p)) = Some p"
  by (cases "cp_Routes p = []")
    (simp_all add: payload_ok_def payload_doc_def payload_of_fields_def json_field image_Un as_gossip_docs del: as_gossip.simps(2))

lemma payload_ok_sig [simp]: "payload_ok (p\<lparr>cp_Signature := s\<rparr>) = payload_ok p"
  by (simp add: payload_ok_def)

lemma verify_iff:
  "verifyControlPayload p keys \<longleftrightarrow> keys = [] \<or>
     (\<not> blank (cp_Signature p) \<and> (\<exists>key \<in> set keys. \<not> blank key \<and>
        cp_Signature p = mesh_sign (payload_text (p\<lparr>cp_Signature := []\<rparr>)) key))"
  by (auto simp: verifyControlPayload_def Let_def list_ex_iff)

lemma signed_verifies:
  assumes "payload_ok p" "\<not> blank key" "key \<in> set keys"
  obtains q where "unmarshal_payload (marshalControlPayload p key) = Some q"
    "verifyControlPayload q keys" "cp_Addr q = cp_Addr p"
proof -
  let ?q = "p\<lparr>cp_Signature := mesh_sign (payload_text (p\<lparr>cp_Signature := []\<rparr>)) key\<rparr>"
  have "unmarshal_payload (marshalControlPayload p key) = Some ?q"
    using assms(1,2) unmarshal_payload_doc [of ?q] by (simp add: marshalControlPayload_def Let_def)
  moreover have "verifyControlPayload ?q keys"
    unfolding verify_iff using assms(2,3) hex_hmac_not_blank by (auto simp: mesh_sign_def)
  ultimately show ?thesis by (rule that) simp
qed

section \<open>Which packets change a node\<close>

definition received :: "mesh_node \<Rightarrow> mesh_node" where
  "received n = n\<lparr>nd_stats := (nd_stats n)\<lparr>ms_Received := ms_Received (nd_stats n) + 1\<rparr>\<rparr>"

definition packet_ok ::
    "(string \<Rightarrow> control_message option) \<Rightarrow> mesh_config \<Rightarrow> string \<Rightarrow> string \<Rightarrow> control_payload \<Rightarrow> bool" where
  "packet_ok decode cfg data addr p \<longleftrightarrow>
     (\<exists>msg. decode data = Some msg \<and> cm_ControlType msg \<in> {HEARTBEAT, HANDSHAKE} \<and>
        (blank (mc_TenantID cfg) \<or> cm_TenantId msg = [] \<or> cm_TenantId msg = mc_TenantID cfg) \<and>
        unmarshal_payload (cm_Payload msg) = Some p \<and>
        verifyControlPayload p (keyCandidates cfg (Some addr) (cp_Addr p)))"

lemma handlePacket_accepts:
  "packet_ok decode (nd_cfg n) data addr p \<Longrightarrow>
    mesh_handlePacket decode n data addr now = accept_payload (received n) p addr now"
  by (auto simp: packet_ok_def mesh_handlePacket_def received_def Let_def)

lemma handlePacket_cases:
  obtains (accepted) p where "packet_ok decode (nd_cfg n) data addr p"
      "mesh_handlePacket decode n data addr now = accept_payload (received n) p addr now"
  | (refused) s where "\<And>p. \<not> packet_ok decode (nd_cfg n) data addr p"
      "mesh_handlePacket decode n data addr now = (received n)\<lparr>nd_stats := s\<rparr>"
      "s \<in> {reject_parse (nd_stats (received n)), reject_auth (nd_stats (received n))}"
proof (cases "\<exists>p. packet_ok decode (nd_cfg n) data addr p")
  case True
  then obtain p where "packet_ok decode (nd_cfg n) data addr p" by blast
  with handlePacket_accepts accepted show ?thesis by blast
next
  case False
  then have "\<exists>s \<in> {reject_parse (nd_stats (received n)), reject_auth (nd_stats (received n))}.
      mesh_handlePacket decode n data addr now = (received n)\<lparr>nd_stats := s\<rparr>"
    by (fastforce simp: packet_ok_def mesh_handlePacket_def received_def Let_def split: option.splits)
  with False refused show ?thesis by blast
qed

lemma received_simps [simp]:
  "nd_cfg (received n) = nd_cfg n" "nd_router (received n) = nd_router n" "nd_peers (received n) = nd_peers n"
  by (simp_all add: received_def)

definition ex_mesh :: "string list \<Rightarrow> mesh_node" where
  "ex_mesh keys = \<lparr>nd_cfg = \<lparr>mc_NodeID = 7, mc_BindAddr = ''10.0.0.1:7000'', mc_Peers = [''10.0.0.2:7000''],
       mc_HeartbeatInterval = 5 * second_ns, mc_RouteTTL = 30 * second_ns, mc_SharedKeys = keys,
       mc_PeerKeys = [''10.0.0.9:7000'' \<mapsto> ''pk''], mc_TenantID = ''acme'', mc_GossipInterval = 0, mc_GossipMaxRoutes = 50\<rparr>,
     nd_router = [], nd_stats = zero_stats, nd_peers = Map.empty, nd_closed = False\<rparr>"

definition ex_payload :: control_payload where
  "ex_payload = \<lparr>cp_Timestamp = 1, cp_Addr = ''10.0.0.3:7000'', cp_Routes = [\<lparr>gr_Dst = ''r1'', gr_Lat = 2, gr_Thr = 3\<rparr>], cp_Signature = []\<rparr>"

lemma ex_payload_ok [simp]: "payload_ok ex_payload"
  by (simp add: payload_ok_def ex_payload_def is_i64_def)

lemma apply_gossip_keeps: "r \<in> set rs \<Longrightarrow> r \<in> set (apply_gossip ttl now gs rs)"
  by (induction gs arbitrary: rs) (auto simp: re_AddRouteWithTTL_def)

text \<open>C15. A node with shared keys changes its routes or its view of the peers only for a packet whose
  payload is signed: the signature is the hexadecimal HMAC-SHA256 of the rest of the payload under
  one of the shared keys or the key of the claimed or actual sender.\<close>

theorem only_signed_packets_count:
  assumes "mc_SharedKeys (nd_cfg n) \<noteq> []" "n' = mesh_handlePacket decode n data addr now"
    and "nd_router n' \<noteq> nd_router n \<or> nd_peers n' \<noteq> nd_peers n"
  shows "\<exists>msg p key. decode data = Some msg \<and> unmarshal_payload (cm_Payload msg) = Some p \<and> \<not> blank key \<and>
    (key \<in> set (mc_SharedKeys (nd_cfg n)) \<or> mc_PeerKeys (nd_cfg n) (cp_Addr p) = Some key \<or>
       mc_PeerKeys (nd_cfg n) addr = Some key) \<and>
    cp_Signature p = hex (hmac256 key (payload_text (p\<lparr>cp_Signature := []\<rparr>)))"
  using handlePacket_cases [of decode n data addr now]
proof cases
  case (accepted p)
  then obtain key where "key \<in> set (keyCandidates (nd_cfg n) (Some addr) (cp_Addr p))" "\<not> blank key"
    "cp_Signature p = mesh_sign (payload_text (p\<lparr>cp_Signature := []\<rparr>)) key"
    using assms(1) by (auto simp: packet_ok_def verify_iff keyCandidates_def)
  with accepted show ?thesis
    by (fastforce simp: packet_ok_def keyCandidates_def mesh_sign_def split: if_splits option.splits)
next
  case (refused s)
  with assms show ?thesis by simp
qed

theorem only_signed_packets_count_witness:
  "\<exists>key. \<not> blank key \<and> (\<exists>(msg :: control_message) p. unmarshal_payload (cm_Payload msg) = Some p \<and>
     cp_Signature p = hex (hmac256 key (payload_text (p\<lparr>cp_Signature := []\<rparr>))))"
proof -
  let ?n = "ex_mesh [''k'']" and ?addr = "''10.0.0.3:7000''"
  let ?msg = "mesh_message (nd_cfg ?n) HEARTBEAT (marshalControlPayload ex_payload ''k'')"
  have k: "\<not> blank ''k''" by code_simp
  have "''k'' \<in> set (keyCandidates (nd_cfg ?n) (Some ?addr) ?addr)" by (simp add: keyCandidates_def ex_mesh_def)
  then obtain q where q: "unmarshal_payload (marshalControlPayload ex_payload ''k'') = Some q"
    "verifyControlPayload q (keyCandidates (nd_cfg ?n) (Some ?addr) ?addr)"
    and "cp_Addr q = cp_Addr ex_payload" using signed_verifies [OF ex_payload_ok k] by blast
  then have a: "cp_Addr q = ?addr" by (simp add: ex_payload_def)
  have "packet_ok (\<lambda>_. Some ?msg) (nd_cfg ?n) [] ?addr q" using q a by (simp add: packet_ok_def mesh_message_def)
  then have "nd_peers (mesh_handlePacket (\<lambda>_. Some ?msg) ?n [] ?addr 5) \<noteq> nd_peers ?n"
    by (simp add: handlePacket_accepts accept_payload_def Let_def touch_peer_def ex_mesh_def)
  then have ch: "nd_router (mesh_handlePacket (\<lambda>_. Some ?msg) ?n [] ?addr 5) \<noteq> nd_router ?n \<or>
      nd_peers (mesh_handlePacket (\<lambda>_. Some ?msg) ?n [] ?addr 5) \<noteq> nd_peers ?n" by blast
  have sk: "mc_SharedKeys (nd_cfg ?n) \<noteq> []" by (simp add: ex_mesh_def)
  from only_signed_packets_count [OF sk refl ch] show ?thesis by blast
qed

definition handle_all ::
    "(string \<Rightarrow> control_message option) \<Rightarrow> (string \<times> string \<times> instant) list \<Rightarrow> mesh_node \<Rightarrow> mesh_node" where
  "handle_all decode pkts n = fold (\<lambda>(data, addr, now) n. mesh_handlePacket decode n data addr now) pkts n"

definition stats_ok :: "mesh_stats \<Rightarrow> bool" where
  "stats_ok s \<longleftrightarrow> ms_Received s = ms_Accepted s + ms_Rejected s \<and> ms_Rejected s = ms_RejectedAuth s + ms_RejectedParse s"

lemma handlePacket_stats:
  "stats_ok (nd_stats n) \<Longrightarrow> stats_ok (nd_stats (mesh_handlePacket decode n data addr now))"
  using handlePacket_cases [of decode n data addr now]
  by cases (auto simp: stats_ok_def received_def accept_payload_def Let_def reject_parse_def reject_auth_def)

lemma handle_all_stats: "stats_ok (nd_stats n) \<Longrightarrow> stats_ok (nd_stats (handle_all decode pkts n))"
  by (induction pkts arbitrary: n) (auto simp: handle_all_def handlePacket_stats)

text \<open>Every packet is counted once: over any sequence of packets the number received is the number
  accepted plus the number rejected, and the rejected ones are those with a bad signature or tenant
  plus those that do not parse.\<close>

theorem packets_accounted:
  assumes "mesh_Start cfg (Some rs) = Inr n" "s = nd_stats (handle_all decode pkts n)"
  shows "ms_Received s = ms_Accepted s + ms_Rejected s \<and> ms_Rejected s = ms_RejectedAuth s + ms_RejectedParse s"
proof -
  have "stats_ok (nd_stats n)"
    using assms(1) by (auto simp: mesh_Start_def Let_def stats_ok_def zero_stats_def split: if_splits)
  from handle_all_stats [OF this] assms(2) show ?thesis by (simp add: stats_ok_def)
qed

theorem packets_accounted_witness:
  "\<exists>n. mesh_Start (nd_cfg (ex_mesh [''k''])) (Some []) = Inr n \<and>
     ms_Received (nd_stats (handle_all (\<lambda>_. None) [([], [], 1), ([], [], 2)] n)) =
       ms_Accepted (nd_stats (handle_all (\<lambda>_. None) [([], [], 1), ([], [], 2)] n)) +
       ms_Rejected (nd_stats (handle_all (\<lambda>_. None) [([], [], 1), ([], [], 2)] n))"
proof -
  obtain n where "mesh_Start (nd_cfg (ex_mesh [''k''])) (Some []) = Inr n"
    by (simp add: mesh_Start_def ex_mesh_def Let_def)
  with packets_accounted [OF this refl] show ?thesis by blast
qed

text \<open>A heartbeat or handshake one node sends is accepted by a node that shares the key it was signed
  with: the receiver counts it as accepted and records the sender under its own address.\<close>

theorem peer_control_accepted:
  assumes "(peer, msg) \<in> set (broadcastControl sender t sent)" "t \<in> {HEARTBEAT, HANDSHAKE}"
    and "is_i64 (sent div millisecond_ns)" "decode data = Some msg"
    and "\<not> blank (sharedKeyFor (nd_cfg sender) peer)"
    and "sharedKeyFor (nd_cfg sender) peer \<in> set (keyCandidates (nd_cfg n) (Some addr) (mc_BindAddr (nd_cfg sender)))"
    and "mc_TenantID (nd_cfg sender) = mc_TenantID (nd_cfg n)" "mc_BindAddr (nd_cfg sender) \<noteq> []"
    and "n' = mesh_handlePacket decode n data addr now"
  shows "ms_Accepted (nd_stats n') = ms_Accepted (nd_stats n) + 1 \<and>
    (\<exists>ps. mesh_PeerHealth n' (mc_BindAddr (nd_cfg sender)) = Some ps \<and> ps_LastSeen ps = now)"
proof -
  let ?p = "\<lparr>cp_Timestamp = sent div millisecond_ns, cp_Addr = mc_BindAddr (nd_cfg sender), cp_Routes = [], cp_Signature = []\<rparr>"
  let ?key = "sharedKeyFor (nd_cfg sender) peer" and ?keys = "keyCandidates (nd_cfg n) (Some addr) (mc_BindAddr (nd_cfg sender))"
  have msg: "msg = mesh_message (nd_cfg sender) t (marshalControlPayload ?p ?key)"
    using assms(1) by (auto simp: broadcastControl_def send_to_peers_def map_filter_def Let_def split: if_splits)
  have "payload_ok ?p" using assms(3) by (simp add: payload_ok_def)
  then obtain q where q: "unmarshal_payload (marshalControlPayload ?p ?key) = Some q" "verifyControlPayload q ?keys"
    and a: "cp_Addr q = mc_BindAddr (nd_cfg sender)"
    using signed_verifies [OF _ assms(5,6)] by (metis control_payload.select_convs(2))
  have "packet_ok decode (nd_cfg n) data addr q"
    using assms(2,4,7) q a msg by (auto simp: packet_ok_def mesh_message_def)
  then have "n' = accept_payload (received n) q addr now" by (simp add: assms(9) handlePacket_accepts)
  with a assms(8) show ?thesis
    by (simp add: accept_payload_def Let_def mesh_PeerHealth_def touch_peer_def received_def)
qed

theorem peer_control_accepted_witness:
  "\<exists>msg. ms_Accepted (nd_stats (mesh_handlePacket (\<lambda>_. Some msg) (ex_mesh [''k'']) [] ''10.0.0.1:7000'' 9)) = 1"
proof -
  let ?n = "ex_mesh [''k'']" and ?peer = "''10.0.0.2:7000''"
  have p: "trim_space ?peer = ?peer" by code_simp
  have key: "sharedKeyFor (nd_cfg ?n) ?peer = ''k''" by (simp add: sharedKeyFor_def ex_mesh_def p)
  have "\<exists>msg. (?peer, msg) \<in> set (broadcastControl ?n HEARTBEAT 4)"
    by (simp add: broadcastControl_def send_to_peers_def map_filter_def ex_mesh_def p Let_def)
  then obtain msg where m: "(?peer, msg) \<in> set (broadcastControl ?n HEARTBEAT 4)" by blast
  have "\<not> blank ''k''" by code_simp
  then have "ms_Accepted (nd_stats (mesh_handlePacket (\<lambda>_. Some msg) ?n [] ''10.0.0.1:7000'' 9)) = ms_Accepted (nd_stats ?n) + 1"
    using peer_control_accepted [OF m, of "\<lambda>_. Some msg" "[]" ?n "''10.0.0.1:7000''" _ 9] key
    by (simp add: keyCandidates_def ex_mesh_def is_i64_def)
  then show ?thesis by (auto simp: ex_mesh_def zero_stats_def)
qed

lemma apply_gossip_adds:
  assumes "g \<in> set gs" "\<not> blank (gr_Dst g)" "0 \<le> gr_Lat g" "0 \<le> gr_Thr g"
  shows "\<exists>r \<in> set (apply_gossip ttl now gs rs). rt_Destination r = gr_Dst g \<and>
    rt_Metric r = \<lparr>rm_Latency = gr_Lat g, rm_Throughput = gr_Thr g\<rparr>"
  using assms(1)
proof (induction gs arbitrary: rs)
  case (Cons h gs)
  show ?case
  proof (cases "g = h")
    case True
    have "gr_Dst g \<noteq> []" using assms(2) by (auto simp: trim_space_def)
    define r where "r = \<lparr>rt_Destination = gr_Dst g, rt_Metric = \<lparr>rm_Latency = gr_Lat g, rm_Throughput = gr_Thr g\<rparr>,
      rt_AddedAt = now, rt_ExpiresAt = (if ttl > 0 then Some (now + ttl) else None), rt_Satellite = False, rt_Tags = Map.empty\<rparr>"
    have r: "r \<in> set (snd (re_AddRouteWithTTL rs (gr_Dst g) \<lparr>rm_Latency = gr_Lat g, rm_Throughput = gr_Thr g\<rparr> ttl now))"
      "rt_Destination r = gr_Dst g" "rt_Metric r = \<lparr>rm_Latency = gr_Lat g, rm_Throughput = gr_Thr g\<rparr>"
      using \<open>gr_Dst g \<noteq> []\<close> assms(3,4) by (simp_all add: re_AddRouteWithTTL_def r_def)
    from apply_gossip_keeps [OF r(1), of ttl now gs] True assms(2)
    have "r \<in> set (apply_gossip ttl now (h # gs) rs)" by simp
    with r(2,3) show ?thesis by blast
  next
    case False
    with Cons show ?thesis by simp
  qed
qed simp

text \<open>Keys configured per peer protect nothing on their own: without shared keys, an unsigned packet
  from an unknown address that claims an unknown address is accepted, and the routes it gossips
  enter the routing table.\<close>

theorem peer_keys_accept_unsigned:
  assumes "mc_SharedKeys (nd_cfg n) = []" "mc_PeerKeys (nd_cfg n) (cp_Addr p) = None" "mc_PeerKeys (nd_cfg n) addr = None"
    and "payload_ok p" "cp_Signature p = []"
    and "decode data = Some \<lparr>cm_ControlType = HEARTBEAT, cm_NodeId = i, cm_Payload = Doc (payload_doc p), cm_TenantId = []\<rparr>"
    and "g \<in> set (cp_Routes p)" "\<not> blank (gr_Dst g)" "0 \<le> gr_Lat g" "0 \<le> gr_Thr g"
  shows "\<exists>r \<in> set (nd_router (mesh_handlePacket decode n data addr now)).
    rt_Destination r = gr_Dst g \<and> rt_Metric r = \<lparr>rm_Latency = gr_Lat g, rm_Throughput = gr_Thr g\<rparr>"
proof -
  have keys: "keyCandidates (nd_cfg n) (Some addr) (cp_Addr p) = []" using assms(1-3) by (simp add: keyCandidates_def)
  have "mesh_handlePacket decode n data addr now = accept_payload (received n) p addr now"
    using unmarshal_payload_doc [OF assms(4)] keys assms(6)
    by (simp add: mesh_handlePacket_def Let_def verifyControlPayload_def received_def)
  with apply_gossip_adds [OF assms(7-10)] show ?thesis by (simp add: accept_payload_def Let_def)
qed

theorem peer_keys_accept_unsigned_witness:
  "\<exists>r \<in> set (nd_router (mesh_handlePacket (\<lambda>_. Some \<lparr>cm_ControlType = HEARTBEAT, cm_NodeId = 1,
      cm_Payload = Doc (payload_doc ex_payload), cm_TenantId = []\<rparr>) (ex_mesh []) [] ''6.6.6.6:1'' 5)). rt_Destination r = ''r1''"
proof -
  let ?msg = "\<lparr>cm_ControlType = HEARTBEAT, cm_NodeId = 1, cm_Payload = Doc (payload_doc ex_payload), cm_TenantId = []\<rparr>"
  let ?g = "\<lparr>gr_Dst = ''r1'', gr_Lat = 2, gr_Thr = 3\<rparr>"
  have "\<not> blank ''r1''" by code_simp
  then have "\<exists>r \<in> set (nd_router (mesh_handlePacket (\<lambda>_. Some ?msg) (ex_mesh []) [] ''6.6.6.6:1'' 5)).
      rt_Destination r = gr_Dst ?g \<and> rt_Metric r = \<lparr>rm_Latency = gr_Lat ?g, rm_Throughput = gr_Thr ?g\<rparr>"
    by (intro peer_keys_accept_unsigned [where p = ex_payload and i = 1]) (simp_all add: ex_mesh_def ex_payload_def is_i64_def payload_ok_def)
  then show ?thesis by auto
qed

end
