(* ===== verification/RecordManager.thy ===== *)
theory RecordManager
  imports MemBolt
begin

text \<open>
  What the managers that keep numbered records in step with the store have in common. Whatever an
  operation of such a manager does, on its records it is one of four steps (\<open>rec_step\<close>): nothing,
  a new record under the next number, a new version of a record, or the removal of one, each with
  the write that belongs to it. The locale \<open>record_manager\<close> brings the encoding of a kind of record
  and its identifier scheme together and proves once that the records always stay in step with the
  store and that loading a tenant gives its records back.
\<close>

type_synonym ('a, 's) rec_state = "(string \<rightharpoonup> 'a) \<times> uint64 \<times> 's option"

inductive rec_step ::
    "'s persister \<Rightarrow> string \<Rightarrow> ('a \<Rightarrow> string) \<Rightarrow> ('a \<Rightarrow> string) \<Rightarrow> ('a \<Rightarrow> blob) \<Rightarrow> ('a \<Rightarrow> bool) \<Rightarrow> (uint64 \<Rightarrow> string) \<Rightarrow>
      ('a, 's) rec_state \<Rightarrow> ('a, 's) rec_state \<Rightarrow> bool"
  for P pfx idf ten enc good mk where
  same: "rec_step P pfx idf ten enc good mk s s"
| new: "c + 1 \<noteq> 0 \<Longrightarrow> idf x = mk (c + 1) \<Longrightarrow> good x \<Longrightarrow>
    rec_step P pfx idf ten enc good mk (m, c, st) (m(idf x \<mapsto> x), c + 1, kv_write P st (ten x) (pfx @ idf x) (enc x))"
| put: "m (idf x) = Some y \<Longrightarrow> ten y = ten x \<Longrightarrow> good x \<Longrightarrow>
    rec_step P pfx idf ten enc good mk (m, c, st) (m(idf x \<mapsto> x), c, kv_write P st (ten x) (pfx @ idf x) (enc x))"
| drop: "m i = Some x \<Longrightarrow> idf x = i \<Longrightarrow>
    rec_step P pfx idf ten enc good mk (m, c, st) (m(i := None), c, kv_remove P st (ten x) (pfx @ i))"

locale record_manager = record_codec idf ten enc dec nrm good + id_scheme mk num
  for idf :: "'a \<Rightarrow> string" and ten :: "'a \<Rightarrow> string" and enc :: "'a \<Rightarrow> blob" and dec :: "blob \<Rightarrow> 'a option"
    and nrm :: "'a \<Rightarrow> 'a" and good :: "'a \<Rightarrow> bool" and mk :: "uint64 \<Rightarrow> string" and num :: "string \<Rightarrow> uint64" +
  fixes pfx :: string
begin

lemma rec_step_inv:
  assumes "rec_step P pfx idf ten enc good mk s s'"
    and "case s of (m, c, st) \<Rightarrow> (\<forall>i x. m i = Some x \<longrightarrow> idf x = i \<and> good x) \<and> (\<forall>i \<in> dom m. num i \<le> c)"
  shows "case s' of (m, c, st) \<Rightarrow> (\<forall>i x. m i = Some x \<longrightarrow> idf x = i \<and> good x) \<and> (\<forall>i \<in> dom m. num i \<le> c)"
  using assms
proof cases
  case (new c x m st)
  have "\<forall>i \<in> insert (mk (c + 1)) (dom m). num i \<le> c + 1"
    using bounded_insert [of "dom m" c] assms(2) new by simp
  with new assms(2) show ?thesis by auto
next
  case (put m x y c st)
  with assms(2) show ?thesis by auto
next
  case (drop m i x c st)
  with assms(2) show ?thesis by (auto split: if_splits)
qed simp

lemma rec_step_synced:
  assumes "rec_step (bolt_persister B) pfx idf ten enc good mk s s'" "bolt_ok B" "bolt_writes B"
    and "case s of (m, c, st) \<Rightarrow> (\<forall>i \<in> dom m. num i \<le> c) \<and> synced B pfx ten enc st m"
  shows "case s' of (m, c, st) \<Rightarrow> synced B pfx ten enc st m"
  using assms(1)
proof cases
  case (new c x m st)
  have "m (idf x) = None" using fresh [of "dom m" c] assms(4) new by auto
  with synced_write [OF assms(2,3), of pfx ten enc st m "idf x" x] assms(4) new show ?thesis by simp
next
  case (put m x y c st)
  with synced_write [OF assms(2,3), of pfx ten enc st m "idf x" x] assms(4) show ?thesis by auto
next
  case (drop m i x c st)
  with synced_remove [OF assms(2,3), of pfx ten enc st m i x] assms(4) show ?thesis by auto
qed (use assms(4) in auto)

text \<open>A run of a manager that maps to these steps keeps its records in step with the store.\<close>

lemma run_synced:
  assumes run: "step\<^sup>*\<^sup>* a b" and steps: "\<And>x y. step x y \<Longrightarrow> wf_state x \<Longrightarrow> rec_step (bolt_persister B) pfx idf ten enc good mk (recs x) (recs y) \<and> wf_state y"
    and "bolt_ok B" "bolt_writes B" "wf_state a"
    and "recs a = (Map.empty, c0, Some db0)" "has_bucket B db0 tenants_path" "\<forall>t i. tenant_view B db0 t (pfx @ i) = None"
  shows "wf_state b \<and> (case recs b of (m, c, st) \<Rightarrow> (\<forall>i x. m i = Some x \<longrightarrow> idf x = i \<and> good x) \<and>
    (\<forall>i \<in> dom m. num i \<le> c) \<and> synced B pfx ten enc st m)"
  using run
proof (induction rule: rtranclp_induct)
  case base
  from assms(5-8) show ?case by (simp add: synced_new)
next
  case (step y z)
  then have s: "rec_step (bolt_persister B) pfx idf ten enc good mk (recs y) (recs z)" "wf_state z" using steps by blast+
  from step.IH have "case recs y of (m, c, st) \<Rightarrow> (\<forall>i x. m i = Some x \<longrightarrow> idf x = i \<and> good x) \<and> (\<forall>i \<in> dom m. num i \<le> c)"
    and "case recs y of (m, c, st) \<Rightarrow> (\<forall>i \<in> dom m. num i \<le> c) \<and> synced B pfx ten enc st m" by auto
  with s rec_step_inv [OF s(1)] rec_step_synced [OF s(1) assms(3,4)] show ?case by auto
qed

text \<open>Loading a tenant from a store that is in step.\<close>

lemma reload:
  assumes "bolt_ok B" "\<forall>db. view_error B db = None" "synced B pfx ten enc st m" "\<forall>i x. m i = Some x \<longrightarrow> idf x = i \<and> good x"
  obtains db kvs xs where "st = Some db" "pScan (bolt_persister B) db t pfx = Inr kvs"
    "xs = List.map_filter (\<lambda>kv. dec (snd kv)) kvs"
    "load_records idf xs Map.empty = tenant_records ten nrm m t"
    "\<forall>i \<in> dom (tenant_records ten nrm m t). num i \<le> load_counter (\<lambda>x. num (idf x)) xs c"
proof -
  obtain db where db: "st = Some db" using assms(3) by (auto simp: synced_def)
  have "view_error B db = None" using assms(2) by blast
  from load_scan [OF assms(1) this assms(3) [unfolded db] assms(4), of t]
  obtain kvs xs where kx: "pScan (bolt_persister B) db t pfx = Inr kvs" "xs = List.map_filter (\<lambda>kv. dec (snd kv)) kvs"
    "load_records idf xs Map.empty = tenant_records ten nrm m t" "idf ` set xs = dom (tenant_records ten nrm m t)" .
  have "\<forall>i \<in> idf ` set xs. num i \<le> load_counter (\<lambda>x. num (idf x)) xs c"
    using load_counter_bound [of c "\<lambda>x. num (idf x)" xs] by auto
  with kx db that show ?thesis by simp
qed

end

end
