(* ===== verification/Notify.thy ===== *)
theory Notify
  imports RecordManager Events Crypto
begin

text \<open>
  Notification rules, \<^verbatim>\<open>pkg/notify/notify.go\<close>: rules kept in memory and in the store,
  and the dispatch of an event to the rules it matches. Delivering a notification is an HTTP
  request in its own goroutine; \<open>notify_request\<close> is the request it makes and \<open>notify_fired\<close> what the
  manager records afterwards. The bytes \<^verbatim>\<open>json.Marshal\<close> writes for the body are given by the
  argument \<open>render\<close>.
\<close>

section \<open>Data\<close>

record rule =
  nr_ID :: string
  nr_Tenant :: string
  nr_Name :: string
  nr_EventTypes :: "string list"
  nr_WebhookURL :: string
  nr_Secret :: string
  nr_CreatedAt :: instant
  nr_Active :: bool
  nr_FiredTotal :: uint64

record 's notify_manager =
  nm_rules :: "string \<rightharpoonup> rule"
  nm_counter :: uint64
  nm_store :: "'s option"

record rule_update =
  ru_Name :: "string option"
  ru_WebhookURL :: "string option"
  ru_Secret :: "string option"
  ru_EventTypes :: "string list option"
  ru_Active :: "bool option"

definition ruleKeyPrefix :: string where "ruleKeyPrefix = ''notify_''"

definition notify_New :: "'s notify_manager" where
  "notify_New = \<lparr>nm_rules = Map.empty, nm_counter = 0, nm_store = None\<rparr>"

definition notify_NewWithStore :: "'s \<Rightarrow> 's notify_manager" where
  "notify_NewWithStore p = \<lparr>nm_rules = Map.empty, nm_counter = 0, nm_store = Some p\<rparr>"

definition rule_fields :: "rule \<Rightarrow> (string \<times> json) list" where
  "rule_fields r =
     [(''id'', JStr (nr_ID r)), (''tenant'', JStr (nr_Tenant r)), (''name'', JStr (nr_Name r)),
      (''event_types'', JArr (map JStr (nr_EventTypes r))), (''webhook_url'', JStr (nr_WebhookURL r))] @
     opt_str ''secret'' (nr_Secret r) @
     [(''created_at'', JTime (nr_CreatedAt r)), (''active'', JBool (nr_Active r)), (''fired_total'', JInt (uint (nr_FiredTotal r)))]"

definition marshal_rule :: "rule \<Rightarrow> json" where
  "marshal_rule r = JObj (rule_fields r)"

definition rule_of_fields :: "(string \<times> json) list \<Rightarrow> rule option" where
  "rule_of_fields fs =
     (case (as_str (field fs ''id''), as_str (field fs ''tenant''), as_str (field fs ''name''), as_strs (field fs ''event_types''),
            as_str (field fs ''webhook_url''), as_str (field fs ''secret''), as_time (field fs ''created_at''),
            as_bool (field fs ''active''), as_uint (field fs ''fired_total''))
      of (Some i, Some t, Some n, Some es, Some u, Some s, Some c, Some a, Some f) \<Rightarrow>
           Some \<lparr>nr_ID = i, nr_Tenant = t, nr_Name = n, nr_EventTypes = es, nr_WebhookURL = u, nr_Secret = s,
             nr_CreatedAt = c, nr_Active = a, nr_FiredTotal = f\<rparr>
       | _ \<Rightarrow> None)"

fun unmarshal_rule :: "blob \<Rightarrow> rule option" where
  "unmarshal_rule (Doc (JObj fs)) = rule_of_fields fs"
| "unmarshal_rule (Doc JNull) = rule_of_fields []"
| "unmarshal_rule _ = None"

section \<open>Operations\<close>

definition canonicalEventType :: "string \<Rightarrow> string" where
  "canonicalEventType v = map (\<lambda>c. if c = CHR ''.'' then CHR ''_'' else c) (trim_space (to_lower v))"

definition parseRuleNum :: "string \<Rightarrow> uint64" where
  "parseRuleNum i = parse_num ''rule-'' i"

definition notify_persist :: "'s persister \<Rightarrow> rule \<Rightarrow> 's option \<Rightarrow> 's option" where
  "notify_persist P r st = kv_write P st (nr_Tenant r) (ruleKeyPrefix @ nr_ID r) (Doc (marshal_rule r))"

definition notify_unpersist :: "'s persister \<Rightarrow> rule \<Rightarrow> 's option \<Rightarrow> 's option" where
  "notify_unpersist P r st = kv_remove P st (nr_Tenant r) (ruleKeyPrefix @ nr_ID r)"

definition put_rule :: "'s persister \<Rightarrow> rule \<Rightarrow> 's notify_manager \<Rightarrow> 's notify_manager" where
  "put_rule P r m = m\<lparr>nm_rules := (nm_rules m)(nr_ID r \<mapsto> r), nm_store := notify_persist P r (nm_store m)\<rparr>"

definition notify_Add ::
    "'s persister \<Rightarrow> 's notify_manager \<Rightarrow> string \<Rightarrow> string \<Rightarrow> string \<Rightarrow> string \<Rightarrow> string list \<Rightarrow> instant \<Rightarrow> rule \<times> 's notify_manager" where
  "notify_Add P m tenant name webhookURL secret eventTypes now =
     (let c = nm_counter m + 1;
          r = \<lparr>nr_ID = numbered ''rule-'' c, nr_Tenant = tenant, nr_Name = name, nr_EventTypes = eventTypes,
               nr_WebhookURL = webhookURL, nr_Secret = secret, nr_CreatedAt = now, nr_Active = True, nr_FiredTotal = 0\<rparr>
      in (r, put_rule P r (m\<lparr>nm_counter := c\<rparr>)))"

definition notify_Get :: "'s notify_manager \<Rightarrow> string \<Rightarrow> string \<Rightarrow> rule option" where
  "notify_Get m tenant i =
     (case nm_rules m i of None \<Rightarrow> None | Some r \<Rightarrow> if nr_Tenant r \<noteq> tenant then None else Some r)"

text \<open>The assignments of \<open>Update\<close>, in order; an error leaves those made before it in place. The
  result is the error, if any, and the rule as it is afterwards.\<close>

definition update_rule :: "rule_update \<Rightarrow> rule \<Rightarrow> string option \<times> rule" where
  "update_rule p r =
     (if ru_Name p = Some [] then (Some ''name is required'', r)
      else
        let r1 = (case ru_Name p of None \<Rightarrow> r | Some n \<Rightarrow> r\<lparr>nr_Name := n\<rparr>)
        in if ru_WebhookURL p = Some [] then (Some ''webhook_url is required'', r1)
           else (None, r1\<lparr>
             nr_WebhookURL := (case ru_WebhookURL p of None \<Rightarrow> nr_WebhookURL r1 | Some u \<Rightarrow> u),
             nr_Secret := (case ru_Secret p of None \<Rightarrow> nr_Secret r1 | Some s \<Rightarrow> s),
             nr_EventTypes := (case ru_EventTypes p of None \<Rightarrow> nr_EventTypes r1 | Some es \<Rightarrow> es),
             nr_Active := (case ru_Active p of None \<Rightarrow> nr_Active r1 | Some a \<Rightarrow> a)\<rparr>))"

definition notify_Update ::
    "'s persister \<Rightarrow> 's notify_manager \<Rightarrow> string \<Rightarrow> string \<Rightarrow> rule_update \<Rightarrow> (string + rule option) \<times> 's notify_manager" where
  "notify_Update P m tenant i p =
     (case notify_Get m tenant i of None \<Rightarrow> (Inr None, m)
      | Some r \<Rightarrow>
          (case update_rule p r of
             (Some e, r') \<Rightarrow> (Inl e, m\<lparr>nm_rules := (nm_rules m)(i \<mapsto> r')\<rparr>)
           | (None, r') \<Rightarrow> (Inr (Some r'), m\<lparr>nm_rules := (nm_rules m)(i \<mapsto> r'), nm_store := notify_persist P r' (nm_store m)\<rparr>)))"

definition notify_Delete :: "'s persister \<Rightarrow> 's notify_manager \<Rightarrow> string \<Rightarrow> string \<Rightarrow> bool \<times> 's notify_manager" where
  "notify_Delete P m tenant i =
     (case notify_Get m tenant i of None \<Rightarrow> (False, m)
      | Some r \<Rightarrow> (True, m\<lparr>nm_store := notify_unpersist P r (nm_store m), nm_rules := (nm_rules m)(i := None)\<rparr>))"

fun load_rules :: "rule list \<Rightarrow> 's notify_manager \<Rightarrow> 's notify_manager" where
  "load_rules [] m = m"
| "load_rules (r # rs) m = load_rules rs
     (m\<lparr>nm_counter := (let n = parseRuleNum (nr_ID r) in if n > nm_counter m then n else nm_counter m),
        nm_rules := (nm_rules m)(nr_ID r \<mapsto> r)\<rparr>)"

definition notify_LoadFromStore :: "'s persister \<Rightarrow> 's notify_manager \<Rightarrow> string \<Rightarrow> (string + nat) \<times> 's notify_manager" where
  "notify_LoadFromStore P m tenant =
     (case nm_store m of None \<Rightarrow> (Inr 0, m)
      | Some s \<Rightarrow>
        (case pScan P s tenant ruleKeyPrefix of Inl e \<Rightarrow> (Inl e, m)
         | Inr kvs \<Rightarrow> let loaded = List.map_filter (\<lambda>kv. unmarshal_rule (snd kv)) kvs
                     in (Inr (length loaded), load_rules loaded m)))"

definition notify_List :: "'s notify_manager \<Rightarrow> string \<Rightarrow> string list \<Rightarrow> rule list" where
  "notify_List m tenant ks = filter (\<lambda>r. \<not> (tenant \<noteq> [] \<and> nr_Tenant r \<noteq> tenant)) (range_vals (nm_rules m) ks)"

section \<open>Dispatch\<close>

definition notify_matches :: "rule \<Rightarrow> event \<Rightarrow> bool" where
  "notify_matches r ev =
     (if nr_Tenant r \<noteq> [] \<and> nr_Tenant r \<noteq> ev_TenantID ev then False
      else if nr_EventTypes r = [] then True
      else let evType = canonicalEventType (ev_Type ev)
           in list_ex (\<lambda>t. canonicalEventType t = evType) (nr_EventTypes r))"

text \<open>The rules a goroutine is started for.\<close>

definition notify_dispatch :: "'s notify_manager \<Rightarrow> event \<Rightarrow> string list \<Rightarrow> rule list" where
  "notify_dispatch m ev ks = filter (\<lambda>r. notify_matches r ev) (filter nr_Active (range_vals (nm_rules m) ks))"

record notify_request =
  nq_URL :: string
  nq_RuleHeader :: string
  nq_Signature :: "string option"
  nq_Body :: string

definition fire_request :: "(json \<Rightarrow> string) \<Rightarrow> rule \<Rightarrow> event \<Rightarrow> notify_request" where
  "fire_request render r ev =
     (let body = render (JObj [(''data'', ev_Data ev), (''event_type'', JStr (ev_Type ev)), (''rule_id'', JStr (nr_ID r)),
            (''rule_name'', JStr (nr_Name r)), (''tenant_id'', JStr (ev_TenantID ev)), (''timestamp'', JTime (ev_Timestamp ev))])
      in \<lparr>nq_URL = nr_WebhookURL r, nq_RuleHeader = nr_ID r,
          nq_Signature = (if nr_Secret r \<noteq> [] then Some (''sha256='' @ hex (hmac256 (nr_Secret r) body)) else None),
          nq_Body = body\<rparr>)"

definition notify_fired :: "'s persister \<Rightarrow> string \<Rightarrow> 's notify_manager \<Rightarrow> 's notify_manager" where
  "notify_fired P i m =
     (case nm_rules m i of None \<Rightarrow> m
      | Some live \<Rightarrow>
          let live' = live\<lparr>nr_FiredTotal := nr_FiredTotal live + 1\<rparr>
          in m\<lparr>nm_rules := (nm_rules m)(i \<mapsto> live'), nm_store := notify_persist P live' (nm_store m)\<rparr>)"

text \<open>A delivery: building the request fails for a web address that \<^verbatim>\<open>net/url\<close> does not parse
  (\<open>url_ok\<close>), and then nothing is sent or recorded. Otherwise the request is sent, and recorded
  whatever its outcome.\<close>

definition notify_fire ::
    "'s persister \<Rightarrow> (string \<Rightarrow> bool) \<Rightarrow> (json \<Rightarrow> string) \<Rightarrow> rule \<Rightarrow> event \<Rightarrow> 's notify_manager \<Rightarrow> notify_request option \<times> 's notify_manager" where
  "notify_fire P url_ok render r ev m =
     (if \<not> url_ok (nr_WebhookURL r) then (None, m) else (Some (fire_request render r ev), notify_fired P (nr_ID r) m))"

section \<open>Rules and the store\<close>

lemma rule_lookups:
  "as_str (field (rule_fields r) ''id'') = Some (nr_ID r)"
  "as_str (field (rule_fields r) ''tenant'') = Some (nr_Tenant r)"
  "as_str (field (rule_fields r) ''name'') = Some (nr_Name r)"
  "as_strs (field (rule_fields r) ''event_types'') = Some (nr_EventTypes r)"
  "as_str (field (rule_fields r) ''webhook_url'') = Some (nr_WebhookURL r)"
  "as_str (field (rule_fields r) ''secret'') = Some (nr_Secret r)"
  "as_time (field (rule_fields r) ''created_at'') = Some (nr_CreatedAt r)"
  "as_bool (field (rule_fields r) ''active'') = Some (nr_Active r)"
  "as_uint (field (rule_fields r) ''fired_total'') = Some (nr_FiredTotal r)"
  unfolding rule_fields_def by (simp_all add: json_field image_Un del: as_strs.simps as_uint.simps)

lemma unmarshal_marshal_rule [simp]: "unmarshal_rule (Doc (marshal_rule r)) = Some r"
  by (simp add: marshal_rule_def rule_of_fields_def rule_lookups)

interpretation rules: record_manager nr_ID nr_Tenant "\<lambda>r. Doc (marshal_rule r)" unmarshal_rule "\<lambda>r. r" "\<lambda>r. True"
  "numbered ''rule-''" parseRuleNum ruleKeyPrefix
  by unfold_locales (simp_all add: parseRuleNum_def parse_num_numbered)

definition notify_recs :: "'s notify_manager \<Rightarrow> (rule, 's) rec_state" where
  "notify_recs m = (nm_rules m, nm_counter m, nm_store m)"

definition notify_keys :: "'s notify_manager \<Rightarrow> bool" where
  "notify_keys m \<longleftrightarrow> (\<forall>i r. nm_rules m i = Some r \<longrightarrow> nr_ID r = i)"

text \<open>The changes of the rules. A rejected update is left out: it may change the rule in memory
  without writing it.\<close>

inductive notify_change :: "'s persister \<Rightarrow> 's notify_manager \<Rightarrow> 's notify_manager \<Rightarrow> bool" for P where
  add: "nm_counter m + 1 \<noteq> 0 \<Longrightarrow> notify_change P m (snd (notify_Add P m tenant name url secret types now))"
| update: "notify_Update P m tenant i p = (Inr res, m') \<Longrightarrow> notify_change P m m'"
| delete: "notify_change P m (snd (notify_Delete P m tenant i))"
| fired: "notify_change P m (notify_fired P i m)"

lemma update_rule_keeps: "update_rule p r = (e, r') \<Longrightarrow> nr_ID r' = nr_ID r \<and> nr_Tenant r' = nr_Tenant r"
  by (auto simp: update_rule_def Let_def split: if_splits option.splits)

lemma notify_step:
  assumes "notify_change P m m'" "notify_keys m"
  shows "rec_step P ruleKeyPrefix nr_ID nr_Tenant (\<lambda>r. Doc (marshal_rule r)) (\<lambda>r. True) (numbered ''rule-'') (notify_recs m) (notify_recs m') \<and>
    notify_keys m'"
  using assms(1)
proof cases
  case (add tenant name url secret types now)
  let ?r = "fst (notify_Add P m tenant name url secret types now)"
  have "nr_ID ?r = numbered ''rule-'' (nm_counter m + 1)"
    "m' = m\<lparr>nm_counter := nm_counter m + 1, nm_rules := (nm_rules m)(nr_ID ?r \<mapsto> ?r), nm_store := notify_persist P ?r (nm_store m)\<rparr>"
    using add by (simp_all add: notify_Add_def put_rule_def Let_def)
  with add(2) assms(2) rec_step.new [of "nm_counter m" nr_ID ?r "numbered ''rule-''" "\<lambda>r. True" P ruleKeyPrefix nr_Tenant
      "\<lambda>r. Doc (marshal_rule r)" "nm_rules m" "nm_store m"]
  show ?thesis by (auto simp: notify_recs_def notify_keys_def notify_persist_def)
next
  case (update tenant i p res)
  show ?thesis
  proof (cases "notify_Get m tenant i")
    case None
    with update assms(2) show ?thesis by (simp add: notify_Update_def rec_step.same)
  next
    case (Some r)
    then have r: "nm_rules m i = Some r" "nr_ID r = i"
      using assms(2) by (auto simp: notify_Get_def notify_keys_def split: option.splits if_splits)
    obtain r' where r': "update_rule p r = (None, r')"
      and m': "m' = m\<lparr>nm_rules := (nm_rules m)(i \<mapsto> r'), nm_store := notify_persist P r' (nm_store m)\<rparr>"
      using update Some by (auto simp: notify_Update_def split: prod.splits option.splits)
    from update_rule_keeps [OF r'] r m' assms(2)
      rec_step.put [of "nm_rules m" nr_ID r' r nr_Tenant "\<lambda>r. True" P ruleKeyPrefix "\<lambda>r. Doc (marshal_rule r)" "numbered ''rule-''" "nm_counter m" "nm_store m"]
    show ?thesis by (auto simp: notify_recs_def notify_keys_def notify_persist_def)
  qed
next
  case (delete tenant i)
  show ?thesis
  proof (cases "notify_Get m tenant i")
    case None
    with delete assms(2) show ?thesis by (simp add: notify_Delete_def rec_step.same)
  next
    case (Some r)
    then have r: "nm_rules m i = Some r" "nr_ID r = i"
      using assms(2) by (auto simp: notify_Get_def notify_keys_def split: option.splits if_splits)
    with rec_step.drop [of "nm_rules m" i r nr_ID P ruleKeyPrefix nr_Tenant "\<lambda>r. Doc (marshal_rule r)" "\<lambda>r. True" "numbered ''rule-''" "nm_counter m" "nm_store m"]
      delete Some assms(2) show ?thesis
      by (auto simp: notify_recs_def notify_keys_def notify_Delete_def notify_unpersist_def split: if_splits)
  qed
next
  case (fired i)
  show ?thesis
  proof (cases "nm_rules m i")
    case None
    with fired assms(2) show ?thesis by (simp add: notify_fired_def rec_step.same)
  next
    case (Some r)
    let ?r = "r\<lparr>nr_FiredTotal := nr_FiredTotal r + 1\<rparr>"
    have "nr_ID r = i" using Some assms(2) by (simp add: notify_keys_def)
    with rec_step.put [of "nm_rules m" nr_ID ?r r nr_Tenant "\<lambda>r. True" P ruleKeyPrefix "\<lambda>r. Doc (marshal_rule r)" "numbered ''rule-''" "nm_counter m" "nm_store m"]
      fired Some assms(2) show ?thesis
      by (auto simp: notify_recs_def notify_keys_def notify_fired_def notify_persist_def Let_def)
  qed
qed

lemma load_rules_eq:
  "nm_rules (load_rules rs m) = load_records nr_ID rs (nm_rules m) \<and>
   nm_counter (load_rules rs m) = load_counter (\<lambda>r. parseRuleNum (nr_ID r)) rs (nm_counter m)"
  by (induction rs arbitrary: m) (simp_all add: load_records_def load_counter_def Let_def)

text \<open>Notification rules survive a restart: after any run of accepted changes on a store whose
  writes succeed, loading a tenant into a fresh manager gives exactly that tenant's rules, with
  their counts, and a counter past every loaded identifier.\<close>

theorem rules_survive_restart:
  assumes "bolt_ok B" "bolt_writes B" "\<forall>db. view_error B db = None"
    and "has_bucket B db0 tenants_path" "\<forall>t i. tenant_view B db0 t (ruleKeyPrefix @ i) = None"
    and "(notify_change (bolt_persister B))\<^sup>*\<^sup>* (notify_NewWithStore db0) m"
  shows "\<exists>db n m'. nm_store m = Some db \<and>
    notify_LoadFromStore (bolt_persister B) (notify_NewWithStore db) tenant = (Inr n, m') \<and>
    (\<forall>i. nm_rules m' i = (case nm_rules m i of None \<Rightarrow> None
       | Some r \<Rightarrow> if nr_Tenant r = tenant then Some r else None)) \<and>
    (\<forall>i \<in> dom (nm_rules m'). parseRuleNum i \<le> nm_counter m')"
proof -
  have "notify_keys (notify_NewWithStore db0)" by (simp add: notify_keys_def notify_NewWithStore_def)
  from rules.run_synced [where recs = notify_recs and wf_state = notify_keys, OF assms(6) notify_step assms(1,2) this _ assms(4,5), of 0]
  have m: "\<forall>i r. nm_rules m i = Some r \<longrightarrow> nr_ID r = i \<and> True"
    "synced B ruleKeyPrefix nr_Tenant (\<lambda>r. Doc (marshal_rule r)) (nm_store m) (nm_rules m)"
    by (simp_all add: notify_recs_def notify_NewWithStore_def)
  obtain db kvs rs where db: "nm_store m = Some db" and scan: "pScan (bolt_persister B) db tenant ruleKeyPrefix = Inr kvs"
    "rs = List.map_filter (\<lambda>kv. unmarshal_rule (snd kv)) kvs"
    and rs: "load_records nr_ID rs Map.empty = tenant_records nr_Tenant (\<lambda>r. r) (nm_rules m) tenant"
    "\<forall>i \<in> dom (tenant_records nr_Tenant (\<lambda>r. r) (nm_rules m) tenant). parseRuleNum i \<le> load_counter (\<lambda>r. parseRuleNum (nr_ID r)) rs 0"
    by (rule rules.reload [OF assms(1,3) m(2,1)])
  have "notify_LoadFromStore (bolt_persister B) (notify_NewWithStore db) tenant =
      (Inr (length rs), load_rules rs (notify_NewWithStore db))"
    using scan by (simp add: notify_LoadFromStore_def notify_NewWithStore_def Let_def)
  with db rs show ?thesis
    by (auto simp: load_rules_eq notify_NewWithStore_def tenant_records_def)
qed

theorem rules_survive_restart_witness:
  "\<exists>db n m'. notify_LoadFromStore (bolt_persister membolt) (notify_NewWithStore db) ''acme'' = (Inr n, m') \<and>
     nm_rules m' ''rule-1'' \<noteq> None"
proof -
  let ?P = "bolt_persister membolt" and ?start = "notify_NewWithStore mem0"
  let ?fin = "snd (notify_Add ?P ?start ''acme'' ''n'' ''http://x'' [] [] 3)"
  have "notify_change ?P ?start ?fin" by (rule notify_change.add) (simp add: notify_NewWithStore_def)
  then have run: "(notify_change ?P)\<^sup>*\<^sup>* ?start ?fin" by (rule r_into_rtranclp)
  have "\<exists>r. nm_rules ?fin ''rule-1'' = Some r \<and> nr_Tenant r = ''acme''"
    by (simp add: notify_Add_def put_rule_def notify_NewWithStore_def Let_def numbered_def show_nat.simps)
  with rules_survive_restart [OF membolt_ok membolt_reliable _ _ _ run, of "''acme''"] show ?thesis
    by fastforce
qed

section \<open>Which rules fire\<close>

definition fire_all ::
    "'s persister \<Rightarrow> (string \<Rightarrow> bool) \<Rightarrow> (json \<Rightarrow> string) \<Rightarrow> event \<Rightarrow> rule list \<Rightarrow> 's notify_manager \<Rightarrow> 's notify_manager" where
  "fire_all P url_ok render ev rs m = fold (\<lambda>r m. snd (notify_fire P url_ok render r ev m)) rs m"

definition should_fire :: "event \<Rightarrow> rule \<Rightarrow> bool" where
  "should_fire ev r \<longleftrightarrow> nr_Active r \<and> (nr_Tenant r = [] \<or> nr_Tenant r = ev_TenantID ev) \<and>
     (nr_EventTypes r = [] \<or> canonicalEventType (ev_Type ev) \<in> canonicalEventType ` set (nr_EventTypes r))"

lemma should_fire_iff: "nr_Active r \<and> notify_matches r ev \<longleftrightarrow> should_fire ev r"
  by (auto simp: should_fire_def notify_matches_def Let_def list_ex_iff image_iff eq_commute)

lemma fire_all_rules:
  assumes "distinct (map nr_ID rs)"
  shows "nm_rules (fire_all P url_ok render ev rs m) i =
    (if i \<in> nr_ID ` {r \<in> set rs. url_ok (nr_WebhookURL r)}
     then map_option (\<lambda>r. r\<lparr>nr_FiredTotal := nr_FiredTotal r + 1\<rparr>) (nm_rules m i) else nm_rules m i)"
  using assms
proof (induction rs arbitrary: m)
  case (Cons r rs)
  have one: "nm_rules (snd (notify_fire P url_ok render r ev m)) i =
      (if i = nr_ID r \<and> url_ok (nr_WebhookURL r) then map_option (\<lambda>r. r\<lparr>nr_FiredTotal := nr_FiredTotal r + 1\<rparr>) (nm_rules m i) else nm_rules m i)" for i
    by (simp add: notify_fire_def notify_fired_def Let_def split: option.splits)
  have "fire_all P url_ok render ev (r # rs) m = fire_all P url_ok render ev rs (snd (notify_fire P url_ok render r ev m))"
    by (simp add: fire_all_def)
  moreover have "i = nr_ID r \<Longrightarrow> i \<notin> nr_ID ` {r \<in> set rs. url_ok (nr_WebhookURL r)}" using Cons.prems by auto
  moreover have "nr_ID ` {x \<in> set (r # rs). url_ok (nr_WebhookURL x)} =
      (if url_ok (nr_WebhookURL r) then {nr_ID r} else {}) \<union> nr_ID ` {x \<in> set rs. url_ok (nr_WebhookURL x)}" by auto
  ultimately show ?case using Cons.IH [of "snd (notify_fire P url_ok render r ev m)"] Cons.prems one
    by (cases "i = nr_ID r") simp_all
qed (simp add: fire_all_def)

lemma dispatch_ids:
  assumes "iter_order (nm_rules m) ks" "notify_keys m"
  shows "map nr_ID (notify_dispatch m ev ks) = filter (\<lambda>i. \<exists>r. nm_rules m i = Some r \<and> should_fire ev r) ks"
proof -
  have "map nr_ID (filter Q (map (\<lambda>k. the (nm_rules m k)) xs)) = filter (\<lambda>i. \<exists>r. nm_rules m i = Some r \<and> Q r) xs"
    if "set xs \<subseteq> dom (nm_rules m)" for Q xs
    using that assms(2) by (induction xs) (auto simp: notify_keys_def)
  with assms(1) show ?thesis
    unfolding notify_dispatch_def range_vals_order [OF assms(1)] filter_filter
    by (simp add: should_fire_iff iter_order_def conj_commute)
qed

text \<open>An event is delivered to exactly the active rules of its tenant, and the global ones, whose
  event types are empty or name the type up to case, outer white space and dots for underscores;
  each is delivered to once, and when all deliveries are done each of these rules with a web address
  that parses has fired once more and no other rule has changed, whatever the order.\<close>

theorem dispatch_exact:
  assumes "iter_order (nm_rules m) ks" "\<forall>i r. nm_rules m i = Some r \<longrightarrow> nr_ID r = i"
    and "rs = notify_dispatch m ev ks"
  shows "distinct (map nr_ID rs) \<and> set rs = {r \<in> ran (nm_rules m). should_fire ev r} \<and>
    (\<forall>i. nm_rules (fire_all P url_ok render ev rs m) i = (case nm_rules m i of None \<Rightarrow> None
       | Some r \<Rightarrow> if should_fire ev r \<and> url_ok (nr_WebhookURL r) then Some (r\<lparr>nr_FiredTotal := nr_FiredTotal r + 1\<rparr>) else Some r))"
proof -
  have k: "notify_keys m" using assms(2) by (simp add: notify_keys_def)
  note ids = dispatch_ids [OF assms(1) k, of ev]
  have d: "distinct (map nr_ID rs)" using assms(1,3) by (simp add: ids iter_order_def)
  have rs: "set rs = {r \<in> ran (nm_rules m). should_fire ev r}"
    unfolding assms(3) notify_dispatch_def using set_range_vals [OF assms(1)] should_fire_iff by auto
  have mem: "i \<in> nr_ID ` {r \<in> set rs. url_ok (nr_WebhookURL r)} \<longleftrightarrow> (\<exists>r. nm_rules m i = Some r \<and> should_fire ev r \<and> url_ok (nr_WebhookURL r))" for i
    unfolding rs using assms(2) by (force simp: ran_def image_iff)
  have "nm_rules (fire_all P url_ok render ev rs m) i = (case nm_rules m i of None \<Rightarrow> None
       | Some r \<Rightarrow> if should_fire ev r \<and> url_ok (nr_WebhookURL r) then Some (r\<lparr>nr_FiredTotal := nr_FiredTotal r + 1\<rparr>) else Some r)" for i
    unfolding fire_all_rules [OF d] mem by (auto split: option.splits)
  with d rs show ?thesis by blast
qed

theorem dispatch_exact_witness:
  "map nr_ID (notify_dispatch (snd (notify_Add (bolt_persister membolt) notify_New ''acme'' ''n'' ''http://x'' [] [''JOB.done''] 3))
     \<lparr>ev_ID = [], ev_Type = ''job_done'', ev_TenantID = ''acme'', ev_Timestamp = 5, ev_Data = JNull\<rparr> [''rule-1'']) = [''rule-1'']"
proof -
  let ?r = "\<lparr>nr_ID = ''rule-1'', nr_Tenant = ''acme'', nr_Name = ''n'', nr_EventTypes = [''JOB.done''], nr_WebhookURL = ''http://x'',
     nr_Secret = [], nr_CreatedAt = 3, nr_Active = True, nr_FiredTotal = 0\<rparr>"
  let ?m = "snd (notify_Add (bolt_persister membolt) notify_New ''acme'' ''n'' ''http://x'' [] [''JOB.done''] 3)"
  let ?ev = "\<lparr>ev_ID = [], ev_Type = ''job_done'', ev_TenantID = ''acme'', ev_Timestamp = 5, ev_Data = JNull\<rparr>"
  have m: "nm_rules ?m = [''rule-1'' \<mapsto> ?r]"
    by (simp add: notify_Add_def put_rule_def notify_New_def Let_def numbered_def show_nat.simps)
  have "canonicalEventType ''job_done'' = canonicalEventType ''JOB.done''" by code_simp
  then have f: "should_fire ?ev ?r" by (simp add: should_fire_def)
  have "iter_order (nm_rules ?m) [''rule-1'']" unfolding m by (simp add: iter_order_def)
  from dispatch_exact [OF this _ refl, of ?ev] f
  have d: "distinct (map nr_ID (notify_dispatch ?m ?ev [''rule-1'']))" and s: "set (notify_dispatch ?m ?ev [''rule-1'']) = {?r}"
    unfolding m by auto
  from d [THEN distinct_map [THEN iffD1], THEN conjunct1] s have "notify_dispatch ?m ?ev [''rule-1''] = [?r]" by (rule distinct_set_single)
  then show ?thesis by simp
qed

end
