(* ===== verification/Scheduler.thy ===== *)
theory Scheduler
  imports RecordManager Jobs
begin

text \<open>
  Recurring jobs, \<^verbatim>\<open>pkg/scheduler/scheduler.go\<close>.

  A schedule that is started has a goroutine of its own (\<open>runner\<close>) with a ticker; starting one appends
  a runner, and the schedule's entry remembers it by its number, as the code remembers the function
  that cancels it. Cancelling marks the runner. A runner handles a tick in two critical sections: it
  submits a job for the schedule as it is then (\<open>tick_submit\<close>), and later records the run
  (\<open>tick_count\<close>); operations of other callers may come between them. A select with both channels
  ready picks either, so a cancelled runner may still handle a tick before it leaves.

  The queue the jobs go to is passed along. Every operation holds the manager's lock and is one
  step.
\<close>

section \<open>Data\<close>

record schedule =
  sc_ID :: string
  sc_Name :: string
  sc_Tenant :: string
  sc_AgentID :: string
  sc_Capability :: string
  sc_Payload :: payload
  sc_Interval :: duration
  sc_Active :: bool
  sc_CreatedAt :: instant
  sc_LastRun :: "instant option"
  sc_RunCount :: uint64

datatype runner_phase = Waiting | Counting instant

record runner =
  rn_sched :: string
  rn_interval :: duration
  rn_cancelled :: bool
  rn_phase :: runner_phase

record 's sched_manager =
  sm_schedules :: "string \<rightharpoonup> schedule"
  sm_cancel :: "string \<rightharpoonup> nat"
  sm_runners :: "runner list"
  sm_counter :: uint64
  sm_store :: "'s option"

record sched_update =
  su_Name :: "string option"
  su_AgentID :: "string option"
  su_Capability :: "string option"
  su_Payload :: "payload option"
  su_Interval :: "duration option"
  su_Active :: "bool option"

definition schedKeyPrefix :: string where "schedKeyPrefix = ''sched_''"

definition sched_New :: "'s sched_manager" where
  "sched_New = \<lparr>sm_schedules = Map.empty, sm_cancel = Map.empty, sm_runners = [], sm_counter = 0, sm_store = None\<rparr>"

definition sched_NewWithStore :: "'s \<Rightarrow> 's sched_manager" where
  "sched_NewWithStore p = \<lparr>sm_schedules = Map.empty, sm_cancel = Map.empty, sm_runners = [], sm_counter = 0, sm_store = Some p\<rparr>"

definition sched_fields :: "schedule \<Rightarrow> (string \<times> json) list" where
  "sched_fields s =
     [(''id'', JStr (sc_ID s)), (''name'', JStr (sc_Name s)), (''tenant'', JStr (sc_Tenant s)),
      (''agent_id'', JStr (sc_AgentID s)), (''capability'', JStr (sc_Capability s))] @
     opt_payload ''payload'' (sc_Payload s) @
     [(''interval_ns'', JInt (sc_Interval s)), (''active'', JBool (sc_Active s)), (''created_at'', JTime (sc_CreatedAt s))] @
     opt_time ''last_run'' (sc_LastRun s) @ [(''run_count'', JInt (uint (sc_RunCount s)))]"

definition marshal_sched :: "schedule \<Rightarrow> json" where
  "marshal_sched s = JObj (sched_fields s)"

definition sched_of_fields :: "(string \<times> json) list \<Rightarrow> schedule option" where
  "sched_of_fields fs =
     (case (as_str (field fs ''id''), as_str (field fs ''name''), as_str (field fs ''tenant''), as_str (field fs ''agent_id''),
            as_str (field fs ''capability''), as_payload (field fs ''payload''), as_int (field fs ''interval_ns''),
            as_bool (field fs ''active''), as_time (field fs ''created_at''), as_time_ptr (field fs ''last_run''), as_uint (field fs ''run_count''))
      of (Some i, Some n, Some t, Some a, Some c, Some p, Some d, Some b, Some ca, Some lr, Some rc) \<Rightarrow>
           Some \<lparr>sc_ID = i, sc_Name = n, sc_Tenant = t, sc_AgentID = a, sc_Capability = c, sc_Payload = p, sc_Interval = d,
             sc_Active = b, sc_CreatedAt = ca, sc_LastRun = lr, sc_RunCount = rc\<rparr>
       | _ \<Rightarrow> None)"

fun unmarshal_sched :: "blob \<Rightarrow> schedule option" where
  "unmarshal_sched (Doc (JObj fs)) = sched_of_fields fs"
| "unmarshal_sched (Doc JNull) = sched_of_fields []"
| "unmarshal_sched _ = None"

section \<open>Operations\<close>

definition parseSchedNum :: "string \<Rightarrow> uint64" where
  "parseSchedNum i = parse_num ''sched-'' i"

definition sched_persist :: "'s persister \<Rightarrow> schedule \<Rightarrow> 's option \<Rightarrow> 's option" where
  "sched_persist P s st = kv_write P st (sc_Tenant s) (schedKeyPrefix @ sc_ID s) (Doc (marshal_sched s))"

definition sched_unpersist :: "'s persister \<Rightarrow> schedule \<Rightarrow> 's option \<Rightarrow> 's option" where
  "sched_unpersist P s st = kv_remove P st (sc_Tenant s) (schedKeyPrefix @ sc_ID s)"

text \<open>A copy of a payload is the payload: values are not shared in the model.\<close>

definition clonePayload :: "payload \<Rightarrow> payload" where
  "clonePayload p = (case p of None \<Rightarrow> None | Some kvs \<Rightarrow> Some kvs)"

definition startLocked :: "string \<Rightarrow> duration \<Rightarrow> 's sched_manager \<Rightarrow> 's sched_manager" where
  "startLocked i interval m =
     m\<lparr>sm_cancel := (sm_cancel m)(i \<mapsto> length (sm_runners m)),
       sm_runners := sm_runners m @ [\<lparr>rn_sched = i, rn_interval = interval, rn_cancelled = False, rn_phase = Waiting\<rparr>]\<rparr>"

definition stopLocked :: "string \<Rightarrow> 's sched_manager \<Rightarrow> 's sched_manager" where
  "stopLocked i m =
     (case sm_cancel m i of None \<Rightarrow> m
      | Some g \<Rightarrow> m\<lparr>sm_runners := (sm_runners m)[g := (sm_runners m ! g)\<lparr>rn_cancelled := True\<rparr>],
                    sm_cancel := (sm_cancel m)(i := None)\<rparr>)"

text \<open>A loaded entry is new: it has no cancel function until it is started.\<close>

fun load_scheds :: "schedule list \<Rightarrow> 's sched_manager \<Rightarrow> 's sched_manager" where
  "load_scheds [] m = m"
| "load_scheds (s # ss) m =
     (let m1 = m\<lparr>sm_counter := (let n = parseSchedNum (sc_ID s) in if n > sm_counter m then n else sm_counter m),
             sm_schedules := (sm_schedules m)(sc_ID s \<mapsto> s), sm_cancel := (sm_cancel m)(sc_ID s := None)\<rparr>
      in load_scheds ss (if sc_Active s then startLocked (sc_ID s) (sc_Interval s) m1 else m1))"

definition sched_LoadFromStore :: "'s persister \<Rightarrow> 's sched_manager \<Rightarrow> string \<Rightarrow> (string + nat) \<times> 's sched_manager" where
  "sched_LoadFromStore P m tenant =
     (case sm_store m of None \<Rightarrow> (Inr 0, m)
      | Some st \<Rightarrow>
        (case pScan P st tenant schedKeyPrefix of Inl e \<Rightarrow> (Inl e, m)
         | Inr kvs \<Rightarrow> let loaded = List.map_filter (\<lambda>kv. unmarshal_sched (snd kv)) kvs
                     in (Inr (length loaded), load_scheds loaded m)))"

definition min_interval :: duration where
  "min_interval = 50 * millisecond_ns"

definition sched_Add ::
    "'s persister \<Rightarrow> 's sched_manager \<Rightarrow> string \<Rightarrow> string \<Rightarrow> string \<Rightarrow> string \<Rightarrow> payload \<Rightarrow> duration \<Rightarrow> instant \<Rightarrow>
      (string + schedule) \<times> 's sched_manager" where
  "sched_Add P m name tenant agentID capability payload interval now =
     (if name = [] then (Inl ''name is required'', m)
      else if interval < min_interval then (Inl ''interval must be at least 50ms'', m)
      else
        let c = sm_counter m + 1;
            s = \<lparr>sc_ID = numbered ''sched-'' c, sc_Name = name, sc_Tenant = tenant, sc_AgentID = agentID, sc_Capability = capability,
                 sc_Payload = clonePayload payload, sc_Interval = interval, sc_Active = True, sc_CreatedAt = now,
                 sc_LastRun = None, sc_RunCount = 0\<rparr>
        in (Inr s, startLocked (sc_ID s) interval
              (m\<lparr>sm_counter := c, sm_schedules := (sm_schedules m)(sc_ID s \<mapsto> s), sm_cancel := (sm_cancel m)(sc_ID s := None),
                 sm_store := sched_persist P s (sm_store m)\<rparr>)))"

text \<open>The assignments of \<open>Update\<close>, in order; an error leaves those made before it in place.\<close>

definition update_fields :: "sched_update \<Rightarrow> schedule \<Rightarrow> schedule" where
  "update_fields p s = s\<lparr>
     sc_Name := (case su_Name p of None \<Rightarrow> sc_Name s | Some n \<Rightarrow> n),
     sc_AgentID := (case su_AgentID p of None \<Rightarrow> sc_AgentID s | Some a \<Rightarrow> a),
     sc_Capability := (case su_Capability p of None \<Rightarrow> sc_Capability s | Some c \<Rightarrow> c),
     sc_Payload := (case su_Payload p of None \<Rightarrow> sc_Payload s | Some x \<Rightarrow> clonePayload x)\<rparr>"

definition update_sched :: "sched_update \<Rightarrow> schedule \<Rightarrow> string option \<times> schedule" where
  "update_sched p s =
     (if su_Name p = Some [] then (Some ''name is required'', s)
      else
        let s1 = update_fields p s
        in case su_Interval p of
             Some d \<Rightarrow> if d < min_interval then (Some ''interval must be at least 50ms'', s1)
                      else (None, s1\<lparr>sc_Interval := d, sc_Active := (case su_Active p of None \<Rightarrow> sc_Active s1 | Some b \<Rightarrow> b)\<rparr>)
           | None \<Rightarrow> (None, s1\<lparr>sc_Active := (case su_Active p of None \<Rightarrow> sc_Active s1 | Some b \<Rightarrow> b)\<rparr>))"

definition rearm :: "schedule \<Rightarrow> schedule \<Rightarrow> 's sched_manager \<Rightarrow> 's sched_manager" where
  "rearm s s' m =
     (if sc_Active s \<and> \<not> sc_Active s' then stopLocked (sc_ID s) m
      else if \<not> sc_Active s \<and> sc_Active s' then startLocked (sc_ID s) (sc_Interval s') m
      else if sc_Active s \<and> sc_Active s' \<and> sc_Interval s' \<noteq> sc_Interval s
      then startLocked (sc_ID s) (sc_Interval s') (stopLocked (sc_ID s) m)
      else m)"

definition sched_Update ::
    "'s persister \<Rightarrow> 's sched_manager \<Rightarrow> string \<Rightarrow> string \<Rightarrow> sched_update \<Rightarrow> (string + schedule option) \<times> 's sched_manager" where
  "sched_Update P m tenant i p =
     (case sm_schedules m i of None \<Rightarrow> (Inr None, m)
      | Some s \<Rightarrow>
          if tenant \<noteq> [] \<and> sc_Tenant s \<noteq> tenant then (Inr None, m)
          else
            (case update_sched p s of
               (Some e, s') \<Rightarrow> (Inl e, m\<lparr>sm_schedules := (sm_schedules m)(i \<mapsto> s')\<rparr>)
             | (None, s') \<Rightarrow>
                 (Inr (Some s'), (rearm s s' m)\<lparr>sm_schedules := (sm_schedules m)(i \<mapsto> s'), sm_store := sched_persist P s' (sm_store m)\<rparr>)))"

definition snapshotSubmission :: "'s sched_manager \<Rightarrow> string \<Rightarrow> (string \<times> string \<times> string \<times> payload) option" where
  "snapshotSubmission m i =
     (case sm_schedules m i of None \<Rightarrow> None
      | Some s \<Rightarrow> if \<not> sc_Active s then None
                 else Some (sc_Tenant s, sc_AgentID s, sc_Capability s, clonePayload (sc_Payload s)))"

definition sched_Delete :: "'s persister \<Rightarrow> 's sched_manager \<Rightarrow> string \<Rightarrow> bool \<times> 's sched_manager" where
  "sched_Delete P m i =
     (case sm_schedules m i of None \<Rightarrow> (False, m)
      | Some s \<Rightarrow>
          let m1 = stopLocked i m
          in (True, m1\<lparr>sm_store := sched_unpersist P s (sm_store m1), sm_schedules := (sm_schedules m1)(i := None),
               sm_cancel := (sm_cancel m1)(i := None)\<rparr>))"

definition sched_Get :: "'s sched_manager \<Rightarrow> string \<Rightarrow> schedule option" where
  "sched_Get m i = sm_schedules m i"

definition sched_List :: "'s sched_manager \<Rightarrow> string list \<Rightarrow> schedule list" where
  "sched_List m ks = range_vals (sm_schedules m) ks"

definition sched_StopAll :: "'s sched_manager \<Rightarrow> string list \<Rightarrow> 's sched_manager" where
  "sched_StopAll m ks = fold stopLocked ks m"

section \<open>The runners\<close>

text \<open>The first half of a tick at instant \<open>t\<close> of runner \<open>g\<close>; the job queue is nil or given with its
  store. Submitting reads the clock again (\<open>now\<close>).\<close>

definition tick_begin :: "nat \<Rightarrow> instant \<Rightarrow> 's sched_manager \<Rightarrow> 's sched_manager" where
  "tick_begin g t m = m\<lparr>sm_runners := (sm_runners m)[g := (sm_runners m ! g)\<lparr>rn_phase := Counting t\<rparr>]\<rparr>"

definition tick_submit ::
    "'q persister \<Rightarrow> nat \<Rightarrow> instant \<Rightarrow> instant \<Rightarrow> 's sched_manager \<times> 'q queue option \<Rightarrow> 's sched_manager \<times> 'q queue option" where
  "tick_submit Q g t now mq =
     (case mq of (m, q) \<Rightarrow>
        let q' = (case (q, snapshotSubmission m (rn_sched (sm_runners m ! g))) of
                    (Some jq, Some (tenant, agentID, capability, payload)) \<Rightarrow>
                      Some (snd (jobs_Submit Q jq tenant agentID capability payload now))
                  | _ \<Rightarrow> q)
        in (tick_begin g t m, q'))"

definition tick_count :: "'s persister \<Rightarrow> nat \<Rightarrow> 's sched_manager \<Rightarrow> 's sched_manager" where
  "tick_count P g m =
     (let r = sm_runners m ! g; m1 = m\<lparr>sm_runners := (sm_runners m)[g := r\<lparr>rn_phase := Waiting\<rparr>]\<rparr>
      in case (rn_phase r, sm_schedules m (rn_sched r)) of
           (Counting t, Some s) \<Rightarrow>
             let s' = s\<lparr>sc_LastRun := Some t, sc_RunCount := sc_RunCount s + 1\<rparr>
             in m1\<lparr>sm_schedules := (sm_schedules m)(rn_sched r \<mapsto> s'), sm_store := sched_persist P s' (sm_store m)\<rparr>
         | _ \<Rightarrow> m1)"

section \<open>Schedules and the store\<close>

definition norm_sched :: "schedule \<Rightarrow> schedule" where
  "norm_sched s = s\<lparr>sc_Payload := norm_payload (sc_Payload s)\<rparr>"

definition good_sched :: "schedule \<Rightarrow> bool" where
  "good_sched s \<longleftrightarrow> is_i64 (sc_Interval s) \<and> min_interval \<le> sc_Interval s"

lemma norm_sched_simps [simp]:
  "sc_ID (norm_sched s) = sc_ID s" "sc_Tenant (norm_sched s) = sc_Tenant s" "sc_Active (norm_sched s) = sc_Active s"
  "sc_Interval (norm_sched s) = sc_Interval s"
  by (simp_all add: norm_sched_def)

lemma clonePayload_id [simp]: "clonePayload p = p"
  by (simp add: clonePayload_def split: option.splits)

lemma sched_lookups:
  "as_str (field (sched_fields s) ''id'') = Some (sc_ID s)"
  "as_str (field (sched_fields s) ''name'') = Some (sc_Name s)"
  "as_str (field (sched_fields s) ''tenant'') = Some (sc_Tenant s)"
  "as_str (field (sched_fields s) ''agent_id'') = Some (sc_AgentID s)"
  "as_str (field (sched_fields s) ''capability'') = Some (sc_Capability s)"
  "as_payload (field (sched_fields s) ''payload'') = Some (norm_payload (sc_Payload s))"
  "is_i64 (sc_Interval s) \<Longrightarrow> as_int (field (sched_fields s) ''interval_ns'') = Some (sc_Interval s)"
  "as_bool (field (sched_fields s) ''active'') = Some (sc_Active s)"
  "as_time (field (sched_fields s) ''created_at'') = Some (sc_CreatedAt s)"
  "as_time_ptr (field (sched_fields s) ''last_run'') = Some (sc_LastRun s)"
  "as_uint (field (sched_fields s) ''run_count'') = Some (sc_RunCount s)"
  unfolding sched_fields_def by (simp_all add: json_field image_Un del: as_uint.simps)

lemma unmarshal_marshal_sched: "good_sched s \<Longrightarrow> unmarshal_sched (Doc (marshal_sched s)) = Some (norm_sched s)"
  by (simp add: good_sched_def marshal_sched_def sched_of_fields_def sched_lookups norm_sched_def)

interpretation scheds: record_manager sc_ID sc_Tenant "\<lambda>s. Doc (marshal_sched s)" unmarshal_sched norm_sched good_sched
  "numbered ''sched-''" parseSchedNum schedKeyPrefix
  by unfold_locales (simp_all add: unmarshal_marshal_sched parseSchedNum_def parse_num_numbered)

section \<open>Arming\<close>

text \<open>The intervals of the schedules that should be running, and that the runners which are not
  cancelled are exactly one for each of them.\<close>

definition active_intervals :: "(string \<rightharpoonup> schedule) \<Rightarrow> string \<rightharpoonup> duration" where
  "active_intervals ss i = (case ss i of None \<Rightarrow> None | Some s \<Rightarrow> if sc_Active s then Some (sc_Interval s) else None)"

definition armed :: "(string \<rightharpoonup> duration) \<Rightarrow> (string \<rightharpoonup> nat) \<Rightarrow> runner list \<Rightarrow> bool" where
  "armed act cancel rs \<longleftrightarrow>
     dom cancel = dom act \<and>
     (\<forall>i g. cancel i = Some g \<longrightarrow> g < length rs \<and> \<not> rn_cancelled (rs ! g) \<and> rn_sched (rs ! g) = i \<and> act i = Some (rn_interval (rs ! g))) \<and>
     (\<forall>g < length rs. \<not> rn_cancelled (rs ! g) \<longrightarrow> cancel (rn_sched (rs ! g)) = Some g)"

definition sched_inv :: "'s sched_manager \<Rightarrow> bool" where
  "sched_inv m \<longleftrightarrow> (\<forall>i s. sm_schedules m i = Some s \<longrightarrow> sc_ID s = i \<and> good_sched s) \<and>
     (\<forall>i \<in> dom (sm_schedules m). parseSchedNum i \<le> sm_counter m) \<and>
     armed (active_intervals (sm_schedules m)) (sm_cancel m) (sm_runners m)"

lemma armed_start:
  assumes "armed act cancel rs" "act i = None" "rn_sched r = i" "rn_interval r = d" "\<not> rn_cancelled r"
  shows "armed (act(i \<mapsto> d)) (cancel(i \<mapsto> length rs)) (rs @ [r])"
proof -
  have "cancel i = None" using assms(1,2) by (auto simp: armed_def)
  then have "rn_sched (rs ! g) \<noteq> i" if "g < length rs" "\<not> rn_cancelled (rs ! g)" for g
    using assms(1) that by (auto simp: armed_def)
  with assms show ?thesis unfolding armed_def by (auto simp: nth_append less_Suc_eq)
qed

lemma armed_stop:
  assumes "armed act cancel rs" "cancel i = Some g"
  shows "armed (act(i := None)) (cancel(i := None)) (rs[g := (rs ! g)\<lparr>rn_cancelled := True\<rparr>])"
proof -
  let ?rs = "rs[g := (rs ! g)\<lparr>rn_cancelled := True\<rparr>]"
  have g: "g < length rs" "rn_sched (rs ! g) = i" using assms by (simp_all add: armed_def)
  have same: "?rs ! h = rs ! h" if "h \<noteq> g" for h using that by simp
  have other: "h \<noteq> g" if "cancel j = Some h" "j \<noteq> i" for j h
    using assms that g unfolding armed_def by blast
  have live: "h \<noteq> g" if "\<not> rn_cancelled (?rs ! h)" for h
    using that g by (auto simp: nth_list_update)
  have "cancel (rn_sched (rs ! h)) = Some h \<and> rn_sched (rs ! h) \<noteq> i" if "h < length rs" "h \<noteq> g" "\<not> rn_cancelled (rs ! h)" for h
    using assms that unfolding armed_def by force
  note rest = this
  have d: "dom cancel = dom act" using assms(1) by (simp add: armed_def)
  have c: "j \<noteq> i \<Longrightarrow> cancel j = Some h \<Longrightarrow> h < length rs \<and> \<not> rn_cancelled (rs ! h) \<and> rn_sched (rs ! h) = j \<and> act j = Some (rn_interval (rs ! h))" for j h
    using assms(1) by (simp add: armed_def)
  have "(cancel(i := None)) j = Some h \<Longrightarrow> h < length ?rs \<and> \<not> rn_cancelled (?rs ! h) \<and> rn_sched (?rs ! h) = j \<and>
      (act(i := None)) j = Some (rn_interval (?rs ! h))" for j h
    using c [of j h] other [of j h] same [of h] by (simp split: if_splits)
  moreover have "h < length ?rs \<Longrightarrow> \<not> rn_cancelled (?rs ! h) \<Longrightarrow> (cancel(i := None)) (rn_sched (?rs ! h)) = Some h" for h
    using live [of h] same [of h] rest [of h] by simp
  ultimately show ?thesis using d unfolding armed_def by simp
qed

lemma armed_phase:
  assumes "armed act cancel rs" "g < length rs"
  shows "armed act cancel (rs[g := (rs ! g)\<lparr>rn_phase := p\<rparr>])"
  using assms unfolding armed_def by (auto simp: nth_list_update)

lemma active_intervals_upd:
  "active_intervals (ss(i \<mapsto> s)) = (active_intervals ss)(i := (if sc_Active s then Some (sc_Interval s) else None))"
  "active_intervals (ss(i := None)) = (active_intervals ss)(i := None)"
  by (auto simp: active_intervals_def fun_eq_iff)

lemma active_intervals_keep:
  "ss i = Some s \<Longrightarrow> sc_Active s' = sc_Active s \<Longrightarrow> sc_Active s \<longrightarrow> sc_Interval s' = sc_Interval s \<Longrightarrow>
    active_intervals (ss(i \<mapsto> s')) = active_intervals ss"
  by (auto simp: active_intervals_def fun_eq_iff)

lemma stopLocked_armed:
  assumes "armed act (sm_cancel m) (sm_runners m)"
  shows "armed (act(i := None)) (sm_cancel (stopLocked i m)) (sm_runners (stopLocked i m))"
proof (cases "sm_cancel m i")
  case None
  then have "act i = None" using assms by (auto simp: armed_def)
  then have "act(i := None) = act" by auto
  with None assms show ?thesis by (simp add: stopLocked_def)
next
  case (Some g)
  with armed_stop [OF assms Some] show ?thesis by (simp add: stopLocked_def)
qed

lemma startLocked_armed:
  assumes "armed act (sm_cancel m) (sm_runners m)" "act i = None"
  shows "armed (act(i \<mapsto> d)) (sm_cancel (startLocked i d m)) (sm_runners (startLocked i d m))"
  using armed_start [OF assms] by (simp add: startLocked_def)

lemma stop_start_keep [simp]:
  "sm_schedules (stopLocked i m) = sm_schedules m" "sm_counter (stopLocked i m) = sm_counter m" "sm_store (stopLocked i m) = sm_store m"
  "sm_schedules (startLocked i d m) = sm_schedules m" "sm_counter (startLocked i d m) = sm_counter m" "sm_store (startLocked i d m) = sm_store m"
  by (simp_all add: stopLocked_def startLocked_def split: option.splits)

lemma rearm_keep [simp]:
  "sm_schedules (rearm s s' m) = sm_schedules m" "sm_counter (rearm s s' m) = sm_counter m" "sm_store (rearm s s' m) = sm_store m"
  by (simp_all add: rearm_def)

text \<open>Rearming leaves a runner for the new version of a schedule exactly if it is active.\<close>

lemma rearm_armed:
  assumes "armed (active_intervals (sm_schedules m)) (sm_cancel m) (sm_runners m)"
    and "sm_schedules m i = Some s" "sc_ID s = i"
  shows "armed (active_intervals ((sm_schedules m)(i \<mapsto> s'))) (sm_cancel (rearm s s' m)) (sm_runners (rearm s s' m))"
proof -
  let ?act = "active_intervals (sm_schedules m)"
  have a: "?act i = (if sc_Active s then Some (sc_Interval s) else None)" using assms(2) by (simp add: active_intervals_def)
  note stop = stopLocked_armed [OF assms(1), of i]
  consider "sc_Active s" "\<not> sc_Active s'" | "\<not> sc_Active s" "sc_Active s'"
    | "sc_Active s" "sc_Active s'" "sc_Interval s' \<noteq> sc_Interval s"
    | "sc_Active s' = sc_Active s" "sc_Active s \<longrightarrow> sc_Interval s' = sc_Interval s"
    by blast
  then show ?thesis
  proof cases
    case 1
    with stop assms(3) show ?thesis by (simp add: rearm_def active_intervals_upd)
  next
    case 2
    with startLocked_armed [OF assms(1), of i "sc_Interval s'"] a assms(3) show ?thesis by (simp add: rearm_def active_intervals_upd)
  next
    case 3
    with startLocked_armed [OF stop, of i "sc_Interval s'"] assms(3) show ?thesis by (simp add: rearm_def active_intervals_upd)
  next
    case 4
    with active_intervals_keep [of "sm_schedules m", OF assms(2) 4] assms(1) show ?thesis by (auto simp: rearm_def)
  qed
qed

section \<open>The steps of the manager\<close>

definition sched_recs :: "'s sched_manager \<Rightarrow> (schedule, 's) rec_state" where
  "sched_recs m = (sm_schedules m, sm_counter m, sm_store m)"

text \<open>Everything that changes the schedules and writes what it changed: the operations with
  intervals a \<^verbatim>\<open>time.Duration\<close> holds, and the two halves of a tick. What a tick does to the
  queue does not feed back, so the queue is left out here.\<close>

inductive sched_change :: "'s persister \<Rightarrow> 's sched_manager \<Rightarrow> 's sched_manager \<Rightarrow> bool" for P where
  add: "sm_counter m + 1 \<noteq> 0 \<Longrightarrow> is_i64 d \<Longrightarrow> sched_change P m (snd (sched_Add P m name tenant agent cap payload d now))"
| update: "sched_Update P m tenant i p = (Inr res, m') \<Longrightarrow> (\<forall>d. su_Interval p = Some d \<longrightarrow> is_i64 d) \<Longrightarrow> sched_change P m m'"
| delete: "sched_change P m (snd (sched_Delete P m i))"
| submit: "g < length (sm_runners m) \<Longrightarrow> rn_phase (sm_runners m ! g) = Waiting \<Longrightarrow>
    sched_change P m (tick_begin g t m)"
| count: "g < length (sm_runners m) \<Longrightarrow> sched_change P m (tick_count P g m)"

text \<open>A rejected update may change the schedule in memory, without writing it.\<close>

inductive sched_step :: "'s persister \<Rightarrow> 's sched_manager \<Rightarrow> 's sched_manager \<Rightarrow> bool" for P where
  change: "sched_change P m m' \<Longrightarrow> sched_step P m m'"
| rejected: "sched_Update P m tenant i p = (Inl e, m') \<Longrightarrow> sched_step P m m'"

lemma update_sched_keeps:
  assumes "update_sched p s = (e, s')"
  shows "sc_ID s' = sc_ID s" "sc_Tenant s' = sc_Tenant s"
    and "e \<noteq> None \<Longrightarrow> sc_Active s' = sc_Active s \<and> sc_Interval s' = sc_Interval s"
    and "good_sched s \<Longrightarrow> \<forall>d. su_Interval p = Some d \<longrightarrow> is_i64 d \<Longrightarrow> e = None \<Longrightarrow> good_sched s'"
  using assms by (auto simp: update_sched_def update_fields_def good_sched_def Let_def split: if_splits option.splits)

lemma sched_put:
  assumes "sched_inv m" "sm_schedules m i = Some s" "sc_ID s' = i" "sc_Tenant s' = sc_Tenant s" "good_sched s'"
    and m': "sm_schedules m' = (sm_schedules m)(i \<mapsto> s')" "sm_counter m' = sm_counter m" "sm_store m' = sched_persist P s' (sm_store m)"
    and "armed (active_intervals ((sm_schedules m)(i \<mapsto> s'))) (sm_cancel m') (sm_runners m')"
  shows "rec_step P schedKeyPrefix sc_ID sc_Tenant (\<lambda>s. Doc (marshal_sched s)) good_sched (numbered ''sched-'') (sched_recs m) (sched_recs m') \<and>
    sched_inv m'"
proof -
  have "rec_step P schedKeyPrefix sc_ID sc_Tenant (\<lambda>s. Doc (marshal_sched s)) good_sched (numbered ''sched-'')
      (sm_schedules m, sm_counter m, sm_store m)
      ((sm_schedules m)(sc_ID s' \<mapsto> s'), sm_counter m, kv_write P (sm_store m) (sc_Tenant s') (schedKeyPrefix @ sc_ID s') (Doc (marshal_sched s')))"
    using assms(2-5) by (intro rec_step.put [of _ _ _ s]) simp_all
  moreover have "sched_inv m'" using assms by (auto simp: sched_inv_def)
  ultimately show ?thesis using assms(3) m' by (simp add: sched_recs_def sched_persist_def)
qed

lemma sched_same:
  assumes "sched_inv m" "sched_recs m' = sched_recs m"
    and "armed (active_intervals (sm_schedules m)) (sm_cancel m') (sm_runners m')"
  shows "rec_step P schedKeyPrefix sc_ID sc_Tenant (\<lambda>s. Doc (marshal_sched s)) good_sched (numbered ''sched-'') (sched_recs m) (sched_recs m') \<and>
    sched_inv m'"
  using assms rec_step.same by (auto simp: sched_inv_def sched_recs_def)

lemma add_step:
  assumes "sched_inv m" "sm_counter m + 1 \<noteq> 0" "is_i64 d" "m' = snd (sched_Add P m name tenant agent cap payload d now)"
  shows "rec_step P schedKeyPrefix sc_ID sc_Tenant (\<lambda>s. Doc (marshal_sched s)) good_sched (numbered ''sched-'') (sched_recs m) (sched_recs m') \<and>
    sched_inv m'"
proof (cases "name = [] \<or> d < min_interval")
  case True
  with assms show ?thesis by (auto simp: sched_Add_def sched_inv_def rec_step.same)
next
  case False
  let ?c = "sm_counter m + 1"
  let ?s = "\<lparr>sc_ID = numbered ''sched-'' ?c, sc_Name = name, sc_Tenant = tenant, sc_AgentID = agent, sc_Capability = cap,
     sc_Payload = payload, sc_Interval = d, sc_Active = True, sc_CreatedAt = now, sc_LastRun = None, sc_RunCount = 0\<rparr>"
  let ?m = "m\<lparr>sm_counter := ?c, sm_schedules := (sm_schedules m)(sc_ID ?s \<mapsto> ?s), sm_cancel := (sm_cancel m)(sc_ID ?s := None),
     sm_store := sched_persist P ?s (sm_store m)\<rparr>"
  have m': "m' = startLocked (sc_ID ?s) d ?m" using assms(4) False by (simp add: sched_Add_def Let_def)
  have good: "good_sched ?s" using assms(3) False by (simp add: good_sched_def)
  have inv: "\<forall>i \<in> dom (sm_schedules m). parseSchedNum i \<le> sm_counter m"
    "armed (active_intervals (sm_schedules m)) (sm_cancel m) (sm_runners m)"
    "\<forall>i s. sm_schedules m i = Some s \<longrightarrow> sc_ID s = i \<and> good_sched s" using assms(1) by (auto simp: sched_inv_def)
  have "numbered ''sched-'' ?c \<notin> dom (sm_schedules m)" using scheds.fresh [OF inv(1)] assms(2) by simp
  then have none: "active_intervals (sm_schedules m) (sc_ID ?s) = None" by (auto simp: active_intervals_def split: option.splits)
  then have "sm_cancel m (sc_ID ?s) = None" using inv(2) by (auto simp: armed_def)
  then have "(sm_cancel m)(sc_ID ?s := None) = sm_cancel m" by auto
  with startLocked_armed [of "active_intervals (sm_schedules m)" ?m "sc_ID ?s" d] inv(2) none
  have arm: "armed (active_intervals (sm_schedules m') ) (sm_cancel m') (sm_runners m')"
    unfolding m' by (simp add: active_intervals_upd)
  have "rec_step P schedKeyPrefix sc_ID sc_Tenant (\<lambda>s. Doc (marshal_sched s)) good_sched (numbered ''sched-'') (sched_recs m) (sched_recs m')"
    using rec_step.new [of "sm_counter m" sc_ID ?s "numbered ''sched-''" good_sched P schedKeyPrefix sc_Tenant
      "\<lambda>s. Doc (marshal_sched s)" "sm_schedules m" "sm_store m"] assms(2) good
    unfolding m' by (simp add: sched_recs_def sched_persist_def)
  moreover have "sched_inv m'"
    using arm inv(3) good scheds.bounded_insert [OF inv(1)] assms(2) unfolding sched_inv_def m' by auto
  ultimately show ?thesis ..
qed

lemma sched_invD:
  assumes "sched_inv m"
  shows "sm_schedules m i = Some s \<Longrightarrow> sc_ID s = i \<and> good_sched s"
    and "armed (active_intervals (sm_schedules m)) (sm_cancel m) (sm_runners m)"
  using assms by (auto simp: sched_inv_def)

lemma update_step:
  assumes "sched_inv m" "sched_Update P m tenant i p = (Inr res, m')" "\<forall>d. su_Interval p = Some d \<longrightarrow> is_i64 d"
  shows "rec_step P schedKeyPrefix sc_ID sc_Tenant (\<lambda>s. Doc (marshal_sched s)) good_sched (numbered ''sched-'') (sched_recs m) (sched_recs m') \<and>
    sched_inv m'"
proof (cases "sm_schedules m i")
  case None
  with assms sched_same [OF assms(1) refl] show ?thesis by (simp add: sched_Update_def sched_invD(2))
next
  case (Some s)
  note s = sched_invD(1) [OF assms(1) Some]
  show ?thesis
  proof (cases "tenant \<noteq> [] \<and> sc_Tenant s \<noteq> tenant")
    case True
    with Some assms sched_same [OF assms(1) refl] show ?thesis by (simp add: sched_Update_def sched_invD(2))
  next
    case False
    then obtain s' where u: "update_sched p s = (None, s')"
      and m': "m' = (rearm s s' m)\<lparr>sm_schedules := (sm_schedules m)(i \<mapsto> s'), sm_store := sched_persist P s' (sm_store m)\<rparr>"
      using assms(2) Some by (auto simp: sched_Update_def split: prod.splits option.splits if_splits)
    note k = update_sched_keeps [OF u]
    show ?thesis
      by (rule sched_put [OF assms(1) Some]) (use s k assms(3) rearm_armed [OF sched_invD(2) [OF assms(1)] Some, of s'] in \<open>simp_all add: m'\<close>)
  qed
qed

lemma rejected_inv:
  assumes "sched_inv m" "sched_Update P m tenant i p = (Inl e, m')"
  shows "sched_inv m'"
proof -
  obtain s s' where s: "sm_schedules m i = Some s" and u: "update_sched p s = (Some e, s')"
    and m': "m' = m\<lparr>sm_schedules := (sm_schedules m)(i \<mapsto> s')\<rparr>"
    using assms(2) by (auto simp: sched_Update_def split: prod.splits option.splits if_splits)
  note k = update_sched_keeps [OF u]
  have "active_intervals ((sm_schedules m)(i \<mapsto> s')) = active_intervals (sm_schedules m)"
    using k(3) active_intervals_keep [of "sm_schedules m", OF s] by simp
  with assms(1) s k show ?thesis unfolding m' sched_inv_def by (auto simp: good_sched_def)
qed

lemma delete_step:
  assumes "sched_inv m" "m' = snd (sched_Delete P m i)"
  shows "rec_step P schedKeyPrefix sc_ID sc_Tenant (\<lambda>s. Doc (marshal_sched s)) good_sched (numbered ''sched-'') (sched_recs m) (sched_recs m') \<and>
    sched_inv m'"
proof (cases "sm_schedules m i")
  case None
  with assms sched_same [OF assms(1) refl] show ?thesis by (simp add: sched_Delete_def sched_invD(2))
next
  case (Some s)
  note s = sched_invD(1) [OF assms(1) Some]
  have stop: "armed ((active_intervals (sm_schedules m))(i := None)) (sm_cancel (stopLocked i m)) (sm_runners (stopLocked i m))"
    by (rule stopLocked_armed [OF sched_invD(2) [OF assms(1)]])
  then have "(sm_cancel (stopLocked i m))(i := None) = sm_cancel (stopLocked i m)" by (auto simp: armed_def dom_def)
  with stop Some assms have "sched_inv m'"
    by (auto simp: sched_Delete_def sched_inv_def active_intervals_upd Let_def split: if_splits)
  with rec_step.drop [of "sm_schedules m" i s sc_ID P schedKeyPrefix sc_Tenant "\<lambda>s. Doc (marshal_sched s)" good_sched "numbered ''sched-''" "sm_counter m" "sm_store m"]
    s Some assms(2) show ?thesis by (simp add: sched_Delete_def sched_recs_def sched_unpersist_def Let_def)
qed

lemma count_step:
  assumes "sched_inv m" "g < length (sm_runners m)" "m' = tick_count P g m"
  shows "rec_step P schedKeyPrefix sc_ID sc_Tenant (\<lambda>s. Doc (marshal_sched s)) good_sched (numbered ''sched-'') (sched_recs m) (sched_recs m') \<and>
    sched_inv m'"
proof -
  let ?r = "sm_runners m ! g"
  have arm: "armed (active_intervals (sm_schedules m)) (sm_cancel m) ((sm_runners m)[g := ?r\<lparr>rn_phase := Waiting\<rparr>])"
    by (rule armed_phase [OF sched_invD(2) [OF assms(1)] assms(2)])
  show ?thesis
  proof (cases "\<exists>t s. rn_phase ?r = Counting t \<and> sm_schedules m (rn_sched ?r) = Some s")
    case True
    then obtain t s where ts: "rn_phase ?r = Counting t" "sm_schedules m (rn_sched ?r) = Some s" by blast
    let ?s = "s\<lparr>sc_LastRun := Some t, sc_RunCount := sc_RunCount s + 1\<rparr>"
    have act: "active_intervals ((sm_schedules m)(rn_sched ?r \<mapsto> ?s)) = active_intervals (sm_schedules m)"
      by (rule active_intervals_keep [of "sm_schedules m", OF ts(2)]) simp_all
    show ?thesis
      by (rule sched_put [OF assms(1) ts(2), of ?s])
        (use sched_invD(1) [OF assms(1) ts(2)] ts arm act in \<open>simp_all add: assms(3) tick_count_def good_sched_def Let_def\<close>)
  next
    case False
    then have "m' = m\<lparr>sm_runners := (sm_runners m)[g := ?r\<lparr>rn_phase := Waiting\<rparr>]\<rparr>"
      using assms(3) by (auto simp: tick_count_def Let_def split: runner_phase.splits option.splits)
    with sched_same [OF assms(1), of m'] arm show ?thesis by (simp add: sched_recs_def)
  qed
qed

lemma change_step:
  assumes "sched_change P m m'" "sched_inv m"
  shows "rec_step P schedKeyPrefix sc_ID sc_Tenant (\<lambda>s. Doc (marshal_sched s)) good_sched (numbered ''sched-'') (sched_recs m) (sched_recs m') \<and>
    sched_inv m'"
  using assms(1)
proof cases
  case (submit g t)
  with sched_same [OF assms(2), of m'] armed_phase [OF sched_invD(2) [OF assms(2)]] show ?thesis
    by (simp add: sched_recs_def tick_begin_def)
next
  case (add d name tenant agent cap payload now)
  from add_step [OF assms(2) add(2,3,1)] show ?thesis .
next
  case (update tenant i p res)
  from update_step [OF assms(2) update] show ?thesis .
next
  case (delete i)
  from delete_step [OF assms(2) delete] show ?thesis .
next
  case (count g)
  from count_step [OF assms(2) count(2,1)] show ?thesis .
qed

lemma sched_reachable_inv:
  assumes "(sched_step P)\<^sup>*\<^sup>* m m'" "sched_inv m"
  shows "sched_inv m'"
  using assms
proof (induction rule: rtranclp_induct)
  case (step y z)
  from step.hyps(2) step.IH [OF step.prems] change_step rejected_inv show ?case by cases blast+
qed

lemma empty_inv: "sched_inv sched_New" "sched_inv (sched_NewWithStore db)"
  by (simp_all add: sched_inv_def sched_New_def sched_NewWithStore_def armed_def active_intervals_def dom_def)

section \<open>Loading\<close>

lemma load_scheds_recs:
  "sm_schedules (load_scheds ss m) = load_records sc_ID ss (sm_schedules m) \<and>
   sm_counter (load_scheds ss m) = load_counter (\<lambda>s. parseSchedNum (sc_ID s)) ss (sm_counter m)"
  by (induction ss arbitrary: m) (simp_all add: load_records_def load_counter_def Let_def)

lemma load_scheds_armed:
  assumes "armed (active_intervals (sm_schedules m)) (sm_cancel m) (sm_runners m)"
    and "distinct (map sc_ID ss)" "sc_ID ` set ss \<inter> dom (sm_schedules m) = {}"
  shows "armed (active_intervals (sm_schedules (load_scheds ss m))) (sm_cancel (load_scheds ss m)) (sm_runners (load_scheds ss m))"
  using assms
proof (induction ss arbitrary: m)
  case (Cons s ss)
  let ?m1 = "m\<lparr>sm_counter := (let n = parseSchedNum (sc_ID s) in if n > sm_counter m then n else sm_counter m),
     sm_schedules := (sm_schedules m)(sc_ID s \<mapsto> s), sm_cancel := (sm_cancel m)(sc_ID s := None)\<rparr>"
  let ?m2 = "if sc_Active s then startLocked (sc_ID s) (sc_Interval s) ?m1 else ?m1"
  have none: "sm_schedules m (sc_ID s) = None" using Cons.prems(3) by auto
  then have act: "active_intervals (sm_schedules m) (sc_ID s) = None" by (simp add: active_intervals_def)
  then have "sm_cancel m (sc_ID s) = None" using Cons.prems(1) by (auto simp: armed_def)
  then have c: "(sm_cancel m)(sc_ID s := None) = sm_cancel m" by auto
  have a: "(active_intervals (sm_schedules m))(sc_ID s := None) = active_intervals (sm_schedules m)" using act by auto
  have m2: "armed (active_intervals (sm_schedules ?m2)) (sm_cancel ?m2) (sm_runners ?m2)"
    using startLocked_armed [of "active_intervals (sm_schedules m)" ?m1 "sc_ID s" "sc_Interval s"] Cons.prems(1) act c a
    by (simp add: active_intervals_upd)
  have s2: "sm_schedules ?m2 = (sm_schedules m)(sc_ID s \<mapsto> s)" by simp
  have d: "distinct (map sc_ID ss)" "sc_ID ` set ss \<inter> dom (sm_schedules ?m2) = {}"
    unfolding s2 using Cons.prems(2,3) by auto
  from Cons.IH [OF m2 d] show ?case by (simp only: load_scheds.simps Let_def)
qed simp

text \<open>Schedules survive a restart: after any run of accepted changes and ticks on a store whose
  writes succeed, loading a tenant into a fresh manager gives exactly that tenant's schedules with
  their run counts, every active one again has exactly one uncancelled ticker, with its interval,
  and paused ones have none.\<close>

theorem schedules_survive_restart:
  assumes "bolt_ok B" "bolt_writes B" "\<forall>db. view_error B db = None"
    and "has_bucket B db0 tenants_path" "\<forall>t i. tenant_view B db0 t (schedKeyPrefix @ i) = None"
    and "(sched_change (bolt_persister B))\<^sup>*\<^sup>* (sched_NewWithStore db0) m"
  shows "\<exists>db n m'. sm_store m = Some db \<and>
    sched_LoadFromStore (bolt_persister B) (sched_NewWithStore db) tenant = (Inr n, m') \<and>
    (\<forall>i. sm_schedules m' i = (case sm_schedules m i of None \<Rightarrow> None
       | Some s \<Rightarrow> if sc_Tenant s = tenant then Some (norm_sched s) else None)) \<and>
    (\<forall>i \<in> dom (sm_schedules m'). parseSchedNum i \<le> sm_counter m') \<and>
    armed (active_intervals (sm_schedules m')) (sm_cancel m') (sm_runners m')"
proof -
  from scheds.run_synced [where recs = sched_recs and wf_state = sched_inv, OF assms(6) change_step assms(1,2) empty_inv(2) _ assms(4,5), of 0]
  have m: "\<forall>i s. sm_schedules m i = Some s \<longrightarrow> sc_ID s = i \<and> good_sched s"
    "synced B schedKeyPrefix sc_Tenant (\<lambda>s. Doc (marshal_sched s)) (sm_store m) (sm_schedules m)"
    by (simp_all add: sched_recs_def sched_NewWithStore_def)
  obtain db kvs ss where db: "sm_store m = Some db" and scan: "pScan (bolt_persister B) db tenant schedKeyPrefix = Inr kvs"
    and ss: "ss = List.map_filter (\<lambda>kv. unmarshal_sched (snd kv)) kvs"
    and l: "load_records sc_ID ss Map.empty = tenant_records sc_Tenant norm_sched (sm_schedules m) tenant"
    "\<forall>i \<in> dom (tenant_records sc_Tenant norm_sched (sm_schedules m) tenant). parseSchedNum i \<le> load_counter (\<lambda>s. parseSchedNum (sc_ID s)) ss 0"
    by (rule scheds.reload [OF assms(1,3) m(2,1)])
  let ?m' = "load_scheds ss (sched_NewWithStore db)"
  have "distinct (map sc_ID ss)"
    unfolding ss by (rule scheds.scan_distinct [OF assms(1) m(2) [unfolded db] m(1) scan])
  then have "armed (active_intervals (sm_schedules ?m')) (sm_cancel ?m') (sm_runners ?m')"
    by (intro load_scheds_armed sched_invD(2) [OF empty_inv(2)]) (simp_all add: sched_NewWithStore_def)
  moreover have "sched_LoadFromStore (bolt_persister B) (sched_NewWithStore db) tenant = (Inr (length ss), ?m')"
    using scan ss by (simp add: sched_LoadFromStore_def sched_NewWithStore_def Let_def)
  moreover have "sm_schedules ?m' = tenant_records sc_Tenant norm_sched (sm_schedules m) tenant"
    "\<forall>i \<in> dom (sm_schedules ?m'). parseSchedNum i \<le> sm_counter ?m'"
    using l by (simp_all add: load_scheds_recs sched_NewWithStore_def)
  ultimately show ?thesis using db by (intro exI [of _ db] exI [of _ "length ss"] exI [of _ ?m']) (simp add: tenant_records_def)
qed

theorem schedules_survive_restart_witness:
  "\<exists>db n m'. sched_LoadFromStore (bolt_persister membolt) (sched_NewWithStore db) ''acme'' = (Inr n, m') \<and>
     (\<exists>g. sm_cancel m' ''sched-1'' = Some g)"
proof -
  let ?P = "bolt_persister membolt" and ?start = "sched_NewWithStore mem0"
  let ?fin = "snd (sched_Add ?P ?start ''n'' ''acme'' [] ''gpu'' None 60000000000 3)"
  have "sched_change ?P ?start ?fin"
    by (rule sched_change.add) (simp_all add: sched_NewWithStore_def is_i64_def)
  then have run: "(sched_change ?P)\<^sup>*\<^sup>* ?start ?fin" by (rule r_into_rtranclp)
  have fin: "\<exists>s. sm_schedules ?fin ''sched-1'' = Some s \<and> sc_Tenant s = ''acme'' \<and> sc_Active s"
    by (simp add: sched_Add_def sched_NewWithStore_def min_interval_def Let_def numbered_def show_nat.simps)
  from schedules_survive_restart [OF membolt_ok membolt_reliable _ _ _ run, of "''acme''"]
  obtain db n m' where l: "sched_LoadFromStore ?P (sched_NewWithStore db) ''acme'' = (Inr n, m')"
    and s: "sm_schedules m' ''sched-1'' = (case sm_schedules ?fin ''sched-1'' of None \<Rightarrow> None
       | Some s \<Rightarrow> if sc_Tenant s = ''acme'' then Some (norm_sched s) else None)"
    and a: "armed (active_intervals (sm_schedules m')) (sm_cancel m') (sm_runners m')" by fastforce
  from s fin have "''sched-1'' \<in> dom (active_intervals (sm_schedules m'))" by (auto simp: active_intervals_def)
  then have "\<exists>g. sm_cancel m' ''sched-1'' = Some g" using a by (auto simp: armed_def dom_def)
  with l show ?thesis by blast
qed

section \<open>Ticks\<close>

lemma tick_submits:
  assumes "sm_schedules m i = Some s" "sc_Active s" "rn_sched (sm_runners m ! g) = i"
  shows "tick_submit Q g t now (m, Some q) =
    (tick_begin g t m, Some (snd (jobs_Submit Q q (sc_Tenant s) (sc_AgentID s) (sc_Capability s) (sc_Payload s) now)))"
  using assms by (simp add: tick_submit_def snapshotSubmission_def Let_def)

lemma tick_counts:
  assumes "g < length (sm_runners m)" "sm_schedules m i = Some s" "rn_sched (sm_runners m ! g) = i"
  shows "sm_schedules (tick_count P g (tick_begin g t m)) i = Some (s\<lparr>sc_LastRun := Some t, sc_RunCount := sc_RunCount s + 1\<rparr>)"
    and "j \<noteq> i \<Longrightarrow> sm_schedules (tick_count P g (tick_begin g t m)) j = sm_schedules m j"
  using assms by (simp_all add: tick_count_def tick_begin_def Let_def)



end
