(* ===== verification/MathEval.thy ===== *)
theory MathEval
  imports GoPrelude
begin

text \<open>
  The arithmetic evaluator of the agent's math capability, \<^verbatim>\<open>evalMath\<close> and
  \<^verbatim>\<open>mathParser\<close> of \<^verbatim>\<open>cmd/spectral-agent/main.go\<close>.

  The parser's state is the unread input; its position, which only messages show, is the length \<open>n\<close>
  of the whole expression less the length of that. Floating-point arithmetic, the functions of
  \<^verbatim>\<open>math\<close> and \<^verbatim>\<open>strconv.ParseFloat\<close> are the fields of an argument.

  Only parentheses recurse, so each procedure takes the parser of an expression as an argument and
  \<open>parseExpr\<close> ties the knot, to a nesting depth given by its fuel; the two loops get the length of
  the unread input as fuel, one more than the times they can go round. \<open>None\<close> is running out. The
  first lemmas show that this never happens in \<open>evalMath\<close>, which starts with the length of the
  expression and one.
\<close>

section \<open>The evaluator\<close>

record 'n float_ops =
  fAdd :: "'n \<Rightarrow> 'n \<Rightarrow> 'n"
  fSub :: "'n \<Rightarrow> 'n \<Rightarrow> 'n"
  fMul :: "'n \<Rightarrow> 'n \<Rightarrow> 'n"
  fDiv :: "'n \<Rightarrow> 'n \<Rightarrow> 'n"
  fNeg :: "'n \<Rightarrow> 'n"
  fIsZero :: "'n \<Rightarrow> bool"
  mMod :: "'n \<Rightarrow> 'n \<Rightarrow> 'n"
  mPow :: "'n \<Rightarrow> 'n \<Rightarrow> 'n"
  mSqrt :: "'n \<Rightarrow> 'n"
  mAbs :: "'n \<Rightarrow> 'n"
  mCeil :: "'n \<Rightarrow> 'n"
  mFloor :: "'n \<Rightarrow> 'n"
  mRound :: "'n \<Rightarrow> 'n"
  mLog :: "'n \<Rightarrow> 'n"
  mLog2 :: "'n \<Rightarrow> 'n"
  mLog10 :: "'n \<Rightarrow> 'n"
  mSin :: "'n \<Rightarrow> 'n"
  mCos :: "'n \<Rightarrow> 'n"
  mTan :: "'n \<Rightarrow> 'n"
  mExp :: "'n \<Rightarrow> 'n"
  mPi :: 'n
  mE :: 'n
  ParseFloat :: "string \<Rightarrow> string + 'n"

type_synonym 'n parse = "(string + 'n \<times> string) option"

definition pbind :: "'n parse \<Rightarrow> ('n \<Rightarrow> string \<Rightarrow> 'n parse) \<Rightarrow> 'n parse" where
  "pbind m f = (case m of None \<Rightarrow> None | Some (Inl e) \<Rightarrow> Some (Inl e) | Some (Inr (v, r)) \<Rightarrow> f v r)"

definition skipSpaces :: "string \<Rightarrow> string" where
  "skipSpaces inp = dropWhile (\<lambda>c. c = CHR '' '') inp"

definition is_letter :: "char \<Rightarrow> bool" where
  "is_letter c \<longleftrightarrow> CHR ''a'' \<le> c \<and> c \<le> CHR ''z''"

definition is_numchar :: "char \<Rightarrow> bool" where
  "is_numchar c \<longleftrightarrow> is_digit c \<or> c = CHR ''.''"

definition quoted :: "string \<Rightarrow> string" where
  "quoted name = [CHR 0x22] @ name @ [CHR 0x22]"

definition mathFuncs :: "'n float_ops \<Rightarrow> string \<Rightarrow> ('n \<Rightarrow> 'n) option" where
  "mathFuncs F = map_of
     [(''sqrt'', mSqrt F), (''abs'', mAbs F), (''ceil'', mCeil F), (''floor'', mFloor F),
      (''round'', mRound F), (''log'', mLog F), (''log2'', mLog2 F), (''log10'', mLog10 F),
      (''sin'', mSin F), (''cos'', mCos F), (''tan'', mTan F), (''exp'', mExp F)]"

definition closing :: "string \<Rightarrow> ('n \<Rightarrow> string + 'n) \<Rightarrow> 'n \<Rightarrow> string \<Rightarrow> 'n parse" where
  "closing missing g v r0 =
     (case skipSpaces r0 of
        c # r \<Rightarrow> if c = CHR '')'' then Some (case g v of Inl e \<Rightarrow> Inl e | Inr x \<Rightarrow> Inr (x, r)) else Some (Inl missing)
      | [] \<Rightarrow> Some (Inl missing))"

definition call_func :: "'n float_ops \<Rightarrow> string \<Rightarrow> 'n \<Rightarrow> string + 'n" where
  "call_func F name arg =
     (case mathFuncs F name of None \<Rightarrow> Inl (''unknown function '' @ quoted name) | Some fn \<Rightarrow> Inr (fn arg))"

definition named_constant :: "'n float_ops \<Rightarrow> string \<Rightarrow> string + 'n" where
  "named_constant F name =
     (if name = ''pi'' then Inr (mPi F) else if name = ''e'' then Inr (mE F)
      else Inl (''unknown identifier '' @ quoted name))"

definition parse_name :: "'n float_ops \<Rightarrow> (string \<Rightarrow> 'n parse) \<Rightarrow> string \<Rightarrow> 'n parse" where
  "parse_name F expr inp =
     (let name = takeWhile is_letter inp; r = skipSpaces (dropWhile is_letter inp)
      in if r \<noteq> [] \<and> hd r = CHR ''(''
         then pbind (expr (tl r)) (closing (''missing ) after '' @ name @ ''('') (call_func F name))
         else Some (case named_constant F name of Inl e \<Rightarrow> Inl e | Inr x \<Rightarrow> Inr (x, r)))"

definition parse_number :: "'n float_ops \<Rightarrow> nat \<Rightarrow> string \<Rightarrow> 'n parse" where
  "parse_number F n inp =
     (let sign = (if inp \<noteq> [] \<and> (hd inp = CHR ''-'' \<or> hd inp = CHR ''+'') then [hd inp] else []);
          rest = drop (length sign) inp;
          tok = sign @ takeWhile is_numchar rest
      in if tok = [] then Some (Inl (''expected number at position '' @ show_nat (n - length inp)))
         else Some (case ParseFloat F tok of Inl e \<Rightarrow> Inl e | Inr x \<Rightarrow> Inr (x, dropWhile is_numchar rest)))"

definition parseAtom :: "'n float_ops \<Rightarrow> nat \<Rightarrow> (string \<Rightarrow> 'n parse) \<Rightarrow> string \<Rightarrow> 'n parse" where
  "parseAtom F n expr inp =
     (case skipSpaces inp of
        [] \<Rightarrow> Some (Inl ''unexpected end of expression'')
      | c # r \<Rightarrow>
          if is_letter c then parse_name F expr (c # r)
          else if c = CHR ''('' then pbind (expr r) (closing ''missing closing parenthesis'' Inr)
          else parse_number F n (c # r))"

definition parseUnary :: "'n float_ops \<Rightarrow> nat \<Rightarrow> (string \<Rightarrow> 'n parse) \<Rightarrow> string \<Rightarrow> 'n parse" where
  "parseUnary F n expr inp =
     (case skipSpaces inp of
        [] \<Rightarrow> parseAtom F n expr []
      | c # r \<Rightarrow>
          if c = CHR ''-'' then pbind (parseAtom F n expr r) (\<lambda>v r'. Some (Inr (fNeg F v, r')))
          else if c = CHR ''+'' then parseAtom F n expr r
          else parseAtom F n expr (c # r))"

definition parsePow :: "'n float_ops \<Rightarrow> nat \<Rightarrow> (string \<Rightarrow> 'n parse) \<Rightarrow> string \<Rightarrow> 'n parse" where
  "parsePow F n expr inp =
     pbind (parseUnary F n expr inp) (\<lambda>base r0.
       let r = skipSpaces r0
       in if r \<noteq> [] \<and> hd r = CHR ''^''
          then pbind (parseUnary F n expr (tl r)) (\<lambda>x r'. Some (Inr (mPow F base x, r')))
          else Some (Inr (base, r)))"

definition mul_op :: "'n float_ops \<Rightarrow> char \<Rightarrow> 'n \<Rightarrow> 'n \<Rightarrow> string + 'n" where
  "mul_op F c left right =
     (if c = CHR ''*'' then Inr (fMul F left right)
      else if c = CHR ''/'' then (if fIsZero F right then Inl ''division by zero'' else Inr (fDiv F left right))
      else Inr (mMod F left right))"

fun mulLoop :: "'n float_ops \<Rightarrow> nat \<Rightarrow> (string \<Rightarrow> 'n parse) \<Rightarrow> nat \<Rightarrow> 'n \<Rightarrow> string \<Rightarrow> 'n parse" where
  "mulLoop F n expr 0 left inp = None"
| "mulLoop F n expr (Suc k) left inp =
     (case skipSpaces inp of
        [] \<Rightarrow> Some (Inr (left, []))
      | c # r \<Rightarrow>
          if c \<noteq> CHR ''*'' \<and> c \<noteq> CHR ''/'' \<and> c \<noteq> CHR ''%'' then Some (Inr (left, c # r))
          else pbind (parsePow F n expr r) (\<lambda>right r'.
            case mul_op F c left right of Inl e \<Rightarrow> Some (Inl e) | Inr v \<Rightarrow> mulLoop F n expr k v r'))"

definition parseMulDiv :: "'n float_ops \<Rightarrow> nat \<Rightarrow> (string \<Rightarrow> 'n parse) \<Rightarrow> string \<Rightarrow> 'n parse" where
  "parseMulDiv F n expr inp =
     pbind (parsePow F n expr inp) (\<lambda>left r. mulLoop F n expr (Suc (length r)) left r)"

definition add_op :: "'n float_ops \<Rightarrow> char \<Rightarrow> 'n \<Rightarrow> 'n \<Rightarrow> 'n" where
  "add_op F c left right = (if c = CHR ''+'' then fAdd F left right else fSub F left right)"

fun addLoop :: "'n float_ops \<Rightarrow> nat \<Rightarrow> (string \<Rightarrow> 'n parse) \<Rightarrow> nat \<Rightarrow> 'n \<Rightarrow> string \<Rightarrow> 'n parse" where
  "addLoop F n expr 0 left inp = None"
| "addLoop F n expr (Suc k) left inp =
     (case skipSpaces inp of
        [] \<Rightarrow> Some (Inr (left, []))
      | c # r \<Rightarrow>
          if c \<noteq> CHR ''+'' \<and> c \<noteq> CHR ''-'' then Some (Inr (left, c # r))
          else pbind (parseMulDiv F n expr r) (\<lambda>right r'. addLoop F n expr k (add_op F c left right) r'))"

definition parseAddSub :: "'n float_ops \<Rightarrow> nat \<Rightarrow> (string \<Rightarrow> 'n parse) \<Rightarrow> string \<Rightarrow> 'n parse" where
  "parseAddSub F n expr inp =
     pbind (parseMulDiv F n expr inp) (\<lambda>left r. addLoop F n expr (Suc (length r)) left r)"

fun parseExpr :: "'n float_ops \<Rightarrow> nat \<Rightarrow> nat \<Rightarrow> string \<Rightarrow> 'n parse" where
  "parseExpr F n 0 inp = None"
| "parseExpr F n (Suc k) inp = parseAddSub F n (parseExpr F n k) inp"

definition finish :: "string \<Rightarrow> 'n parse \<Rightarrow> (string + 'n) option" where
  "finish expr res =
     (case res of None \<Rightarrow> None
      | Some (Inl e) \<Rightarrow> Some (Inl e)
      | Some (Inr (v, r0)) \<Rightarrow>
          let r = skipSpaces r0
          in if r \<noteq> [] then Some (Inl (''unexpected characters at position '' @ show_nat (length expr - length r)))
             else Some (Inr v))"

definition evalMath :: "'n float_ops \<Rightarrow> string \<Rightarrow> (string + 'n) option" where
  "evalMath F expr = finish expr (parseExpr F (length expr) (Suc (length expr)) expr)"

section \<open>The parser ends\<close>

text \<open>A result that is not running out, and whose unread input is shorter than a bound.\<close>

definition shrinks :: "nat \<Rightarrow> 'n parse \<Rightarrow> bool" where
  "shrinks b res = (case res of None \<Rightarrow> False | Some (Inl e) \<Rightarrow> True | Some (Inr (v, r)) \<Rightarrow> length r < b)"

lemma shrinks_simps [simp]:
  "\<not> shrinks b None" "shrinks b (Some (Inl e))" "shrinks b (Some (Inr (v, r))) \<longleftrightarrow> length r < b"
  by (simp_all add: shrinks_def)

lemma pbind_simps [simp]:
  "pbind None f = None" "pbind (Some (Inl e)) f = Some (Inl e)" "pbind (Some (Inr (v, r))) f = f v r"
  by (simp_all add: pbind_def)

lemma shrinks_cases:
  assumes "shrinks b res"
  obtains (err) e where "res = Some (Inl e)" | (val) v r where "res = Some (Inr (v, r))" "length r < b"
  using assms by (auto simp: shrinks_def split: option.splits sum.splits prod.splits)

lemma shrinks_bind:
  assumes "shrinks b res" "\<And>v r. length r < b \<Longrightarrow> shrinks c (f v r)"
  shows "shrinks c (pbind res f)"
  using assms(1) by (cases rule: shrinks_cases) (simp_all add: assms(2))

lemma shrinks_mono: "shrinks b res \<Longrightarrow> b \<le> c \<Longrightarrow> shrinks c res"
  by (auto simp: shrinks_def split: option.splits sum.splits prod.splits)

lemma skip_le: "length (skipSpaces inp) \<le> length inp"
  by (simp add: skipSpaces_def length_dropWhile_le)

lemma skip_Cons: "skipSpaces inp = c # r \<Longrightarrow> length r < length inp"
  using skip_le [of inp] by simp

lemma closing_shrinks: "length r < b \<Longrightarrow> shrinks b (closing msg g v r)"
  using skip_le [of r] by (auto simp: closing_def split: list.splits sum.splits)

lemma skip_Nil [simp]: "skipSpaces [] = []"
  by (simp add: skipSpaces_def)

lemma paren_shrinks:
  assumes "shrinks (length r) (expr r)" "length r \<le> b"
  shows "shrinks b (pbind (expr r) (closing msg g))"
  using assms(1) by (rule shrinks_bind) (use assms(2) in \<open>auto intro: closing_shrinks\<close>)

lemma parse_name_shrinks:
  assumes "\<And>r. length r < length inp \<Longrightarrow> shrinks (length r) (expr r)" "inp \<noteq> []" "is_letter (hd inp)"
  shows "shrinks (length inp) (parse_name F expr inp)"
proof -
  let ?r = "skipSpaces (dropWhile is_letter inp)"
  have "length (dropWhile is_letter inp) < length inp"
    using assms(2,3) by (cases inp) (simp_all add: le_imp_less_Suc length_dropWhile_le)
  then have len: "length ?r < length inp" using skip_le [of "dropWhile is_letter inp"] by linarith
  then have "length (tl ?r) < length inp" by simp
  then have "shrinks (length inp) (pbind (expr (tl ?r)) (closing msg g))" for msg g
    by (intro paren_shrinks less_imp_le assms(1))
  with len assms(2) show ?thesis by (simp add: parse_name_def Let_def split: sum.splits)
qed

lemma parse_number_shrinks: "inp \<noteq> [] \<Longrightarrow> shrinks (length inp) (parse_number F n inp)"
  using length_dropWhile_le [of is_numchar "tl inp"] length_dropWhile_le [of is_numchar inp]
  by (cases inp) (auto simp: parse_number_def Let_def le_imp_less_Suc split: sum.splits)

lemma parseAtom_shrinks:
  assumes "\<And>r. length r < length inp \<Longrightarrow> shrinks (length r) (expr r)"
  shows "shrinks (length inp) (parseAtom F n expr inp)"
proof (cases "skipSpaces inp")
  case Nil
  then show ?thesis by (simp add: parseAtom_def)
next
  case (Cons c r)
  have len: "length (c # r) \<le> length inp" using skip_le [of inp] Cons by simp
  have name: "is_letter c \<Longrightarrow> shrinks (length inp) (parse_name F expr (c # r))"
    using parse_name_shrinks [of "c # r" expr F] assms len shrinks_mono by fastforce
  have "shrinks (length inp) (pbind (expr r) (closing msg g))" for msg g
    using assms len by (intro paren_shrinks) simp_all
  moreover have "shrinks (length inp) (parse_number F n (c # r))"
    using parse_number_shrinks [of "c # r"] len shrinks_mono by blast
  ultimately show ?thesis using Cons name by (simp add: parseAtom_def)
qed

lemma parseUnary_shrinks:
  assumes "\<And>r. length r < length inp \<Longrightarrow> shrinks (length r) (expr r)"
  shows "shrinks (length inp) (parseUnary F n expr inp)"
proof (cases "skipSpaces inp")
  case Nil
  then show ?thesis by (simp add: parseUnary_def parseAtom_def)
next
  case (Cons c r)
  have len: "length r < length inp" "length (c # r) \<le> length inp" using skip_le [of inp] Cons by simp_all
  have atom: "shrinks (length inp) (parseAtom F n expr x)" if "length x \<le> length inp" for x
    using parseAtom_shrinks [of x expr F n] assms that shrinks_mono by fastforce
  then have "shrinks (length inp) (pbind (parseAtom F n expr r) (\<lambda>v r'. Some (Inr (fNeg F v, r'))))"
    using len by (intro shrinks_bind [OF atom]) simp_all
  with Cons atom len show ?thesis by (simp add: parseUnary_def)
qed

lemma parsePow_shrinks:
  fixes F :: "'a float_ops"
  assumes "\<And>r. length r < length inp \<Longrightarrow> shrinks (length r) (expr r)"
  shows "shrinks (length inp) (parsePow F n expr inp)"
  unfolding parsePow_def
proof (rule shrinks_bind [OF parseUnary_shrinks [OF assms]])
  fix v :: 'a and r0 :: string assume r0: "length r0 < length inp"
  let ?r = "skipSpaces r0"
  have r: "length ?r < length inp" using r0 skip_le [of r0] by linarith
  then have "shrinks (length (tl ?r)) (parseUnary F n expr (tl ?r))"
    using assms by (intro parseUnary_shrinks) simp
  then have "shrinks (length inp) (pbind (parseUnary F n expr (tl ?r)) (\<lambda>x r'. Some (Inr (mPow F v x, r'))))"
    by (rule shrinks_bind) (use r in simp)
  with r show "shrinks (length inp) (let r = ?r in if r \<noteq> [] \<and> hd r = CHR ''^''
      then pbind (parseUnary F n expr (tl r)) (\<lambda>x r'. Some (Inr (mPow F v x, r'))) else Some (Inr (v, r)))"
    by (simp add: Let_def)
qed auto

lemma mulLoop_shrinks:
  assumes "\<And>r. length r < b \<Longrightarrow> shrinks (length r) (expr r)" "length inp < b" "length inp < k"
  shows "shrinks b (mulLoop F n expr k left inp)"
  using assms(2,3)
proof (induction k arbitrary: left inp)
  case (Suc k)
  show ?case
  proof (cases "skipSpaces inp")
    case (Cons c r)
    note r = skip_Cons [OF Cons]
    have pow: "shrinks (length r) (parsePow F n expr r)" using assms(1) r Suc.prems by (intro parsePow_shrinks) simp
    have "shrinks b (pbind (parsePow F n expr r) (\<lambda>right r'. case mul_op F c left right of Inl e \<Rightarrow> Some (Inl e) | Inr v \<Rightarrow> mulLoop F n expr k v r'))"
      using pow by (rule shrinks_bind) (use r Suc in \<open>simp split: sum.split\<close>)
    with Cons r Suc.prems show ?thesis by simp
  qed (use Suc.prems in simp)
qed simp

lemma parseMulDiv_shrinks:
  assumes "\<And>r. length r < length inp \<Longrightarrow> shrinks (length r) (expr r)"
  shows "shrinks (length inp) (parseMulDiv F n expr inp)"
proof -
  have "shrinks (length inp) (parsePow F n expr inp)" using assms by (rule parsePow_shrinks)
  then show ?thesis unfolding parseMulDiv_def
    by (rule shrinks_bind) (rule mulLoop_shrinks; simp add: assms del: mulLoop.simps)
qed

lemma addLoop_shrinks:
  assumes "\<And>r. length r < b \<Longrightarrow> shrinks (length r) (expr r)" "length inp < b" "length inp < k"
  shows "shrinks b (addLoop F n expr k left inp)"
  using assms(2,3)
proof (induction k arbitrary: left inp)
  case (Suc k)
  show ?case
  proof (cases "skipSpaces inp")
    case (Cons c r)
    note r = skip_Cons [OF Cons]
    have "shrinks (length r) (parseMulDiv F n expr r)" using assms(1) r Suc.prems by (intro parseMulDiv_shrinks) simp
    then have "shrinks b (pbind (parseMulDiv F n expr r) (\<lambda>right r'. addLoop F n expr k (add_op F c left right) r'))"
      by (rule shrinks_bind) (use r Suc in simp)
    with Cons r Suc.prems show ?thesis by simp
  qed (use Suc.prems in simp)
qed simp

lemma parseAddSub_shrinks:
  assumes "\<And>r. length r < length inp \<Longrightarrow> shrinks (length r) (expr r)"
  shows "shrinks (length inp) (parseAddSub F n expr inp)"
proof -
  have "shrinks (length inp) (parseMulDiv F n expr inp)" using assms by (rule parseMulDiv_shrinks)
  then show ?thesis unfolding parseAddSub_def
    by (rule shrinks_bind) (rule addLoop_shrinks; simp add: assms del: addLoop.simps)
qed

lemma parseExpr_shrinks: "length inp < k \<Longrightarrow> shrinks (length inp) (parseExpr F n k inp)"
  by (induction k arbitrary: inp) (auto intro: parseAddSub_shrinks)

section \<open>Fuel does not matter once it is enough\<close>

lemma pbind_cong:
  assumes "res = res'" "shrinks b res" "\<And>v r. length r < b \<Longrightarrow> f v r = g v r"
  shows "pbind res f = pbind res' g"
  unfolding assms(1) [symmetric] using assms(2) by (cases rule: shrinks_cases) (simp_all add: assms(3))

lemma parse_name_cong:
  assumes "\<And>r. length r < length inp \<Longrightarrow> f r = g r" "inp \<noteq> []" "is_letter (hd inp)"
  shows "parse_name F f inp = parse_name F g inp"
proof -
  let ?r = "skipSpaces (dropWhile is_letter inp)"
  have "length (dropWhile is_letter inp) < length inp"
    using assms(2,3) by (cases inp) (simp_all add: le_imp_less_Suc length_dropWhile_le)
  then have "length (tl ?r) < length inp" using skip_le [of "dropWhile is_letter inp"] by simp
  then have "f (tl ?r) = g (tl ?r)" by (rule assms(1))
  then show ?thesis by (simp add: parse_name_def Let_def)
qed

lemma parseAtom_cong:
  assumes "\<And>r. length r < length inp \<Longrightarrow> f r = g r"
  shows "parseAtom F n f inp = parseAtom F n g inp"
proof (cases "skipSpaces inp")
  case (Cons c r)
  have len: "length (c # r) \<le> length inp" using skip_le [of inp] Cons by simp
  have "is_letter c \<Longrightarrow> parse_name F f (c # r) = parse_name F g (c # r)"
    by (rule parse_name_cong) (use assms len in auto)
  moreover have "f r = g r" using assms len by simp
  ultimately show ?thesis using Cons by (simp add: parseAtom_def)
qed (simp add: parseAtom_def)

lemma parseUnary_cong:
  assumes "\<And>r. length r < length inp \<Longrightarrow> f r = g r"
  shows "parseUnary F n f inp = parseUnary F n g inp"
proof (cases "skipSpaces inp")
  case (Cons c r)
  have len: "length (c # r) \<le> length inp" using skip_le [of inp] Cons by simp
  have "parseAtom F n f x = parseAtom F n g x" if "length x \<le> length inp" for x
    by (rule parseAtom_cong) (use assms that in auto)
  with Cons len show ?thesis by (simp add: parseUnary_def)
qed (simp add: parseUnary_def parseAtom_def)

lemma parsePow_cong:
  assumes "\<And>r. length r < length inp \<Longrightarrow> f r = g r" "\<And>r. length r < length inp \<Longrightarrow> shrinks (length r) (f r)"
  shows "parsePow F n f inp = parsePow F n g inp"
proof -
  have "parseUnary F n f inp = parseUnary F n g inp" using assms(1) by (rule parseUnary_cong)
  moreover have "shrinks (length inp) (parseUnary F n f inp)" using assms(2) by (rule parseUnary_shrinks)
  moreover have "parseUnary F n f (tl (skipSpaces r)) = parseUnary F n g (tl (skipSpaces r))" if "length r < length inp" for r
    using that assms(1) skip_le [of r] by (intro parseUnary_cong) simp
  ultimately show ?thesis unfolding parsePow_def
    by (intro pbind_cong) (auto simp: Let_def)
qed

lemma mulLoop_cong:
  assumes "\<And>r. length r < b \<Longrightarrow> f r = g r" "\<And>r. length r < b \<Longrightarrow> shrinks (length r) (f r)"
    and "length inp < b" "length inp < k" "length inp < k'"
  shows "mulLoop F n f k left inp = mulLoop F n g k' left inp"
  using assms(3-5)
proof (induction k arbitrary: left inp k')
  case (Suc k)
  then obtain l where k': "k' = Suc l" by (cases k') auto
  show ?case
  proof (cases "skipSpaces inp")
    case (Cons c r)
    note r = skip_Cons [OF Cons]
    have "parsePow F n f r = parsePow F n g r"
      by (rule parsePow_cong) (use assms(1,2) r Suc.prems in auto)
    moreover have "shrinks (length r) (parsePow F n f r)"
      by (rule parsePow_shrinks) (use assms(2) r Suc.prems in auto)
    moreover have "mulLoop F n f k v x = mulLoop F n g l v x" if "length x < length r" for v x
      using Suc.IH [of x l v] Suc.prems r that k' by simp
    ultimately have "pbind (parsePow F n f r) (\<lambda>right r'. case mul_op F c left right of Inl e \<Rightarrow> Some (Inl e) | Inr v \<Rightarrow> mulLoop F n f k v r') =
        pbind (parsePow F n g r) (\<lambda>right r'. case mul_op F c left right of Inl e \<Rightarrow> Some (Inl e) | Inr v \<Rightarrow> mulLoop F n g l v r')"
      by (intro pbind_cong) (auto split: sum.split)
    then show ?thesis by (simp only: mulLoop.simps Cons k' list.case)
  qed (simp add: k')
qed simp

lemma parseMulDiv_cong:
  assumes "\<And>r. length r < length inp \<Longrightarrow> f r = g r" "\<And>r. length r < length inp \<Longrightarrow> shrinks (length r) (f r)"
  shows "parseMulDiv F n f inp = parseMulDiv F n g inp"
proof -
  have "parsePow F n f inp = parsePow F n g inp" using assms by (rule parsePow_cong)
  moreover have "shrinks (length inp) (parsePow F n f inp)" using assms(2) by (rule parsePow_shrinks)
  moreover have "mulLoop F n f (Suc (length r)) v r = mulLoop F n g (Suc (length r)) v r" if "length r < length inp" for v r
    using assms that by (intro mulLoop_cong [where b = "length inp"]) auto
  ultimately show ?thesis unfolding parseMulDiv_def
    by (intro pbind_cong) (simp_all del: mulLoop.simps)
qed

lemma addLoop_cong:
  assumes "\<And>r. length r < b \<Longrightarrow> f r = g r" "\<And>r. length r < b \<Longrightarrow> shrinks (length r) (f r)"
    and "length inp < b" "length inp < k" "length inp < k'"
  shows "addLoop F n f k left inp = addLoop F n g k' left inp"
  using assms(3-5)
proof (induction k arbitrary: left inp k')
  case (Suc k)
  then obtain l where k': "k' = Suc l" by (cases k') auto
  show ?case
  proof (cases "skipSpaces inp")
    case (Cons c r)
    note r = skip_Cons [OF Cons]
    have "parseMulDiv F n f r = parseMulDiv F n g r"
      by (rule parseMulDiv_cong) (use assms(1,2) r Suc.prems in auto)
    moreover have "shrinks (length r) (parseMulDiv F n f r)"
      by (rule parseMulDiv_shrinks) (use assms(2) r Suc.prems in auto)
    moreover have "addLoop F n f k v x = addLoop F n g l v x" if "length x < length r" for v x
      using Suc.IH [of x l v] Suc.prems r that k' by simp
    ultimately have "pbind (parseMulDiv F n f r) (\<lambda>right r'. addLoop F n f k (add_op F c left right) r') =
        pbind (parseMulDiv F n g r) (\<lambda>right r'. addLoop F n g l (add_op F c left right) r')"
      by (intro pbind_cong) simp_all
    then show ?thesis by (simp only: addLoop.simps Cons k' list.case)
  qed (simp add: k')
qed simp

lemma parseAddSub_cong:
  assumes "\<And>r. length r < length inp \<Longrightarrow> f r = g r" "\<And>r. length r < length inp \<Longrightarrow> shrinks (length r) (f r)"
  shows "parseAddSub F n f inp = parseAddSub F n g inp"
proof -
  have "parseMulDiv F n f inp = parseMulDiv F n g inp" using assms by (rule parseMulDiv_cong)
  moreover have "shrinks (length inp) (parseMulDiv F n f inp)" using assms(2) by (rule parseMulDiv_shrinks)
  moreover have "addLoop F n f (Suc (length r)) v r = addLoop F n g (Suc (length r)) v r" if "length r < length inp" for v r
    using assms that by (intro addLoop_cong [where b = "length inp"]) auto
  ultimately show ?thesis unfolding parseAddSub_def
    by (intro pbind_cong) (simp_all del: addLoop.simps)
qed

lemma parseExpr_fuel: "length inp < k \<Longrightarrow> length inp < k' \<Longrightarrow> parseExpr F n k inp = parseExpr F n k' inp"
proof (induction k arbitrary: inp k')
  case (Suc k)
  then obtain l where k': "k' = Suc l" by (cases k') auto
  have "parseAddSub F n (parseExpr F n k) inp = parseAddSub F n (parseExpr F n l) inp"
  proof (rule parseAddSub_cong)
    fix r :: string assume "length r < length inp"
    with Suc.prems k' have r: "length r < k" "length r < l" by simp_all
    from Suc.IH [OF r] show "parseExpr F n k r = parseExpr F n l r" .
    from r(1) show "shrinks (length r) (parseExpr F n k r)" by (rule parseExpr_shrinks)
  qed
  with k' show ?case by simp
qed simp

text \<open>C40. The evaluator always answers: on every expression, of any length and nesting, parsing
  comes to a value or an error, and from the fuel the model starts it with, more fuel changes
  nothing.\<close>

theorem evalMath_terminates:
  "\<exists>res. evalMath F expr = Some res \<and> (\<forall>d. finish expr (parseExpr F (length expr) (Suc (length expr + d)) expr) = Some res)"
proof -
  have "shrinks (length expr) (parseExpr F (length expr) (Suc (length expr)) expr)" by (rule parseExpr_shrinks) simp
  then have "evalMath F expr \<noteq> None"
    by (cases rule: shrinks_cases) (simp_all add: evalMath_def finish_def Let_def)
  then obtain res where "evalMath F expr = Some res" by blast
  moreover have "parseExpr F (length expr) (Suc (length expr + d)) expr = parseExpr F (length expr) (Suc (length expr)) expr" for d
    by (intro parseExpr_fuel) simp_all
  ultimately show ?thesis unfolding evalMath_def by metis
qed

section \<open>Expressions, their text and their value\<close>

datatype mulop = Times | Divide | Modulo
datatype addop = Plus | Minus

datatype mexp = Num string | Named string | Call string mexp | Neg mexp | Pow mexp mexp
  | MulE mulop mexp mexp | AddE addop mexp mexp

fun mul_char :: "mulop \<Rightarrow> char" where
  "mul_char Times = CHR ''*''" | "mul_char Divide = CHR ''/''" | "mul_char Modulo = CHR ''%''"

fun add_char :: "addop \<Rightarrow> char" where
  "add_char Plus = CHR ''+''" | "add_char Minus = CHR ''-''"

text \<open>The value: operands from left to right, the first error is the result.\<close>

definition ebind :: "string + 'n \<Rightarrow> ('n \<Rightarrow> string + 'n) \<Rightarrow> string + 'n" where
  "ebind x f = (case x of Inl e \<Rightarrow> Inl e | Inr v \<Rightarrow> f v)"

fun mul_value :: "'n float_ops \<Rightarrow> mulop \<Rightarrow> 'n \<Rightarrow> 'n \<Rightarrow> string + 'n" where
  "mul_value F Times x y = Inr (fMul F x y)"
| "mul_value F Divide x y = (if fIsZero F y then Inl ''division by zero'' else Inr (fDiv F x y))"
| "mul_value F Modulo x y = Inr (mMod F x y)"

fun add_value :: "'n float_ops \<Rightarrow> addop \<Rightarrow> 'n \<Rightarrow> 'n \<Rightarrow> 'n" where
  "add_value F Plus x y = fAdd F x y"
| "add_value F Minus x y = fSub F x y"

fun mvalue :: "'n float_ops \<Rightarrow> mexp \<Rightarrow> string + 'n" where
  "mvalue F (Num s) = ParseFloat F s"
| "mvalue F (Named x) = named_constant F x"
| "mvalue F (Call f a) = ebind (mvalue F a) (call_func F f)"
| "mvalue F (Neg a) = ebind (mvalue F a) (\<lambda>x. Inr (fNeg F x))"
| "mvalue F (Pow a b) = ebind (mvalue F a) (\<lambda>x. ebind (mvalue F b) (\<lambda>y. Inr (mPow F x y)))"
| "mvalue F (MulE c a b) = ebind (mvalue F a) (\<lambda>x. ebind (mvalue F b) (mul_value F c x))"
| "mvalue F (AddE c a b) = ebind (mvalue F a) (\<lambda>x. ebind (mvalue F b) (\<lambda>y. Inr (add_value F c x y)))"

text \<open>The text, with \<open>w\<close> blanks before every token and parentheses only where an operand binds less
  than its place needs: 0 is a sum, 1 a product, 2 a power, 3 a signed atom, 4 an atom. Sums and
  products associate to the left, powers not at all.\<close>

definition blanks :: "nat \<Rightarrow> string" where
  "blanks w = replicate w (CHR '' '')"

definition paren :: "nat \<Rightarrow> bool \<Rightarrow> string \<Rightarrow> string" where
  "paren w b s = (if b then blanks w @ ''('' @ s @ blanks w @ '')'' else s)"

fun mtext :: "nat \<Rightarrow> nat \<Rightarrow> mexp \<Rightarrow> string" where
  "mtext w l (Num s) = blanks w @ s"
| "mtext w l (Named x) = blanks w @ x"
| "mtext w l (Call f a) = blanks w @ f @ blanks w @ ''('' @ mtext w 0 a @ blanks w @ '')''"
| "mtext w l (Neg a) = paren w (l > 3) (blanks w @ ''-'' @ mtext w 4 a)"
| "mtext w l (Pow a b) = paren w (l > 2) (mtext w 3 a @ blanks w @ ''^'' @ mtext w 3 b)"
| "mtext w l (MulE c a b) = paren w (l > 1) (mtext w 1 a @ blanks w @ [mul_char c] @ mtext w 2 b)"
| "mtext w l (AddE c a b) = paren w (l > 0) (mtext w 0 a @ blanks w @ [add_char c] @ mtext w 1 b)"

fun wf_mexp :: "mexp \<Rightarrow> bool" where
  "wf_mexp (Num s) \<longleftrightarrow> s \<noteq> [] \<and> list_all is_numchar s"
| "wf_mexp (Named x) \<longleftrightarrow> x \<noteq> [] \<and> list_all is_letter x"
| "wf_mexp (Call f a) \<longleftrightarrow> f \<noteq> [] \<and> list_all is_letter f \<and> wf_mexp a"
| "wf_mexp (Neg a) \<longleftrightarrow> wf_mexp a"
| "wf_mexp (Pow a b) \<longleftrightarrow> wf_mexp a \<and> wf_mexp b"
| "wf_mexp (MulE c a b) \<longleftrightarrow> wf_mexp a \<and> wf_mexp b"
| "wf_mexp (AddE c a b) \<longleftrightarrow> wf_mexp a \<and> wf_mexp b"

section \<open>The parser without fuel\<close>

definition pexpr :: "'n float_ops \<Rightarrow> nat \<Rightarrow> string \<Rightarrow> 'n parse" where
  "pexpr F n inp = parseExpr F n (Suc (length inp)) inp"

definition mloop :: "'n float_ops \<Rightarrow> nat \<Rightarrow> 'n \<Rightarrow> string \<Rightarrow> 'n parse" where
  "mloop F n v r = mulLoop F n (pexpr F n) (Suc (length r)) v r"

definition aloop :: "'n float_ops \<Rightarrow> nat \<Rightarrow> 'n \<Rightarrow> string \<Rightarrow> 'n parse" where
  "aloop F n v r = addLoop F n (pexpr F n) (Suc (length r)) v r"

lemma pexpr_shrinks: "shrinks (length r) (pexpr F n r)"
  unfolding pexpr_def by (rule parseExpr_shrinks) simp

lemma pexpr_eq: "pexpr F n inp = parseAddSub F n (pexpr F n) inp"
proof -
  have "parseAddSub F n (parseExpr F n (length inp)) inp = parseAddSub F n (pexpr F n) inp"
    by (rule parseAddSub_cong) (auto simp: pexpr_def intro: parseExpr_fuel parseExpr_shrinks simp del: parseExpr.simps)
  then show ?thesis by (simp add: pexpr_def)
qed

definition ret :: "string + 'n \<Rightarrow> ('n \<Rightarrow> 'n parse) \<Rightarrow> 'n parse" where
  "ret x k = (case x of Inl e \<Rightarrow> Some (Inl e) | Inr v \<Rightarrow> k v)"

lemma ret_simps [simp]: "ret (Inl e) k = Some (Inl e)" "ret (Inr v) k = k v"
  by (simp_all add: ret_def)

lemma ebind_simps [simp]: "ebind (Inl e) f = Inl e" "ebind (Inr v) f = f v"
  by (simp_all add: ebind_def)

lemma pbind_ret: "pbind (ret x k) f = ret x (\<lambda>v. pbind (k v) f)"
  by (cases x) simp_all

lemma ret_ebind: "ret (ebind x f) k = ret x (\<lambda>v. ret (f v) k)"
  by (cases x) simp_all

lemma mloop_eq:
  "mloop F n v inp = (case skipSpaces inp of
      [] \<Rightarrow> Some (Inr (v, []))
    | c # r \<Rightarrow> if c \<noteq> CHR ''*'' \<and> c \<noteq> CHR ''/'' \<and> c \<noteq> CHR ''%'' then Some (Inr (v, c # r))
        else pbind (parsePow F n (pexpr F n) r) (\<lambda>right r'. ret (mul_op F c v right) (\<lambda>x. mloop F n x r')))"
proof (cases "skipSpaces inp")
  case (Cons c r)
  have "shrinks (length r) (parsePow F n (pexpr F n) r)" by (rule parsePow_shrinks) (rule pexpr_shrinks)
  moreover have "mulLoop F n (pexpr F n) (length inp) x r' = mloop F n x r'" if "length r' < length r" for x r'
    unfolding mloop_def using skip_Cons [OF Cons] that
    by (intro mulLoop_cong [where b = "length inp"]) (simp_all add: pexpr_shrinks)
  ultimately have "pbind (parsePow F n (pexpr F n) r) (\<lambda>right r'.
      case mul_op F c v right of Inl e \<Rightarrow> Some (Inl e) | Inr x \<Rightarrow> mulLoop F n (pexpr F n) (length inp) x r') =
    pbind (parsePow F n (pexpr F n) r) (\<lambda>right r'. ret (mul_op F c v right) (\<lambda>x. mloop F n x r'))"
    by (intro pbind_cong) (auto simp: ret_def split: sum.split)
  then show ?thesis by (simp only: mloop_def [of F n v inp] mulLoop.simps Cons list.case)
qed (simp add: mloop_def)

lemma aloop_eq:
  "aloop F n v inp = (case skipSpaces inp of
      [] \<Rightarrow> Some (Inr (v, []))
    | c # r \<Rightarrow> if c \<noteq> CHR ''+'' \<and> c \<noteq> CHR ''-'' then Some (Inr (v, c # r))
        else pbind (parseMulDiv F n (pexpr F n) r) (\<lambda>right r'. aloop F n (add_op F c v right) r'))"
proof (cases "skipSpaces inp")
  case (Cons c r)
  have "shrinks (length r) (parseMulDiv F n (pexpr F n) r)" by (rule parseMulDiv_shrinks) (rule pexpr_shrinks)
  moreover have "addLoop F n (pexpr F n) (length inp) x r' = aloop F n x r'" if "length r' < length r" for x r'
    unfolding aloop_def using skip_Cons [OF Cons] that
    by (intro addLoop_cong [where b = "length inp"]) (simp_all add: pexpr_shrinks)
  ultimately have "pbind (parseMulDiv F n (pexpr F n) r) (\<lambda>right r'. addLoop F n (pexpr F n) (length inp) (add_op F c v right) r') =
    pbind (parseMulDiv F n (pexpr F n) r) (\<lambda>right r'. aloop F n (add_op F c v right) r')"
    by (intro pbind_cong) auto
  then show ?thesis by (simp only: aloop_def [of F n v inp] addLoop.simps Cons list.case)
qed (simp add: aloop_def)

lemma loops_skip:
  "skipSpaces r = skipSpaces r' \<Longrightarrow> mloop F n v r = mloop F n v r'"
  "skipSpaces r = skipSpaces r' \<Longrightarrow> aloop F n v r = aloop F n v r'"
  by (simp_all only: mloop_eq [of F n v] aloop_eq [of F n v])

section \<open>What each procedure makes of a text\<close>

text \<open>\<open>starts cs R\<close>: after blanks, \<open>R\<close> is at its end or goes on with one of \<open>cs\<close>. Then, for a text
  \<open>T\<close> of value \<open>x\<close> before such an \<open>R\<close>, what the procedures return.\<close>

definition starts :: "string \<Rightarrow> string \<Rightarrow> bool" where
  "starts cs R \<longleftrightarrow> skipSpaces R = [] \<or> hd (skipSpaces R) \<in> set cs"

definition is_atom :: "'n float_ops \<Rightarrow> nat \<Rightarrow> string \<Rightarrow> string + 'n \<Rightarrow> bool" where
  "is_atom F n T x \<longleftrightarrow> (\<forall>R. starts ''+-*/%^)'' R \<longrightarrow>
     (\<exists>R'. skipSpaces R' = skipSpaces R \<and> parseAtom F n (pexpr F n) (T @ R) = ret x (\<lambda>v. Some (Inr (v, R')))))"

definition is_unary :: "'n float_ops \<Rightarrow> nat \<Rightarrow> string \<Rightarrow> string + 'n \<Rightarrow> bool" where
  "is_unary F n T x \<longleftrightarrow> (\<forall>R. starts ''+-*/%^)'' R \<longrightarrow>
     (\<exists>R'. skipSpaces R' = skipSpaces R \<and> parseUnary F n (pexpr F n) (T @ R) = ret x (\<lambda>v. Some (Inr (v, R')))))"

definition is_pow :: "'n float_ops \<Rightarrow> nat \<Rightarrow> string \<Rightarrow> string + 'n \<Rightarrow> bool" where
  "is_pow F n T x \<longleftrightarrow> (\<forall>R. starts ''+-*/%)'' R \<longrightarrow>
     (\<exists>R'. skipSpaces R' = skipSpaces R \<and> parsePow F n (pexpr F n) (T @ R) = ret x (\<lambda>v. Some (Inr (v, R')))))"

definition is_product :: "'n float_ops \<Rightarrow> nat \<Rightarrow> string \<Rightarrow> string + 'n \<Rightarrow> bool" where
  "is_product F n T x \<longleftrightarrow> (\<forall>R. starts ''+-*/%)'' R \<longrightarrow>
     parseMulDiv F n (pexpr F n) (T @ R) = ret x (\<lambda>v. mloop F n v R))"

definition is_sum :: "'n float_ops \<Rightarrow> nat \<Rightarrow> string \<Rightarrow> string + 'n \<Rightarrow> bool" where
  "is_sum F n T x \<longleftrightarrow> (\<forall>R. starts ''+-)'' R \<longrightarrow>
     parseAddSub F n (pexpr F n) (T @ R) = ret x (\<lambda>v. aloop F n v R))"

lemma skip_blanks [simp]: "skipSpaces (blanks w @ R) = skipSpaces R"
  by (induction w) (simp_all add: skipSpaces_def blanks_def)

lemma skip_char [simp]: "c \<noteq> CHR '' '' \<Longrightarrow> skipSpaces (c # R) = c # R"
  by (simp add: skipSpaces_def)

lemma skip_skip [simp]: "skipSpaces (skipSpaces R) = skipSpaces R"
  by (induction R) (simp_all add: skipSpaces_def)

lemma starts_mono: "starts cs R \<Longrightarrow> set cs \<subseteq> set ds \<Longrightarrow> starts ds R"
  by (auto simp: starts_def)

lemma starts_blanks [simp]: "starts cs (blanks w @ R) \<longleftrightarrow> starts cs R"
  by (simp add: starts_def)

lemma starts_char [simp]: "c \<noteq> CHR '' '' \<Longrightarrow> starts cs (c # R) \<longleftrightarrow> c \<in> set cs"
  by (simp add: starts_def)

text \<open>A follower ends a name and a number, and is not an opening parenthesis.\<close>

lemma starts_ends:
  assumes "starts ''+-*/%^)'' R" "R \<noteq> []"
  shows "\<not> is_letter (hd R)" "\<not> is_numchar (hd R)"
proof -
  obtain c r where R: "R = c # r" using assms(2) by (cases R) auto
  then have "c \<in> set '' +-*/%^)''" using assms(1) by (cases "c = CHR '' ''") simp_all
  then have "\<not> is_letter c \<and> \<not> is_numchar c"
    by (auto simp: is_letter_def is_numchar_def is_digit_def less_eq_char_def)
  with R show "\<not> is_letter (hd R)" "\<not> is_numchar (hd R)" by simp_all
qed

lemma takeWhile_run:
  assumes "list_all P s" "R \<noteq> [] \<Longrightarrow> \<not> P (hd R)"
  shows "takeWhile P (s @ R) = s" "dropWhile P (s @ R) = R"
proof -
  have "takeWhile P R = []" "dropWhile P R = R" using assms(2) by (cases R; simp)+
  moreover have "\<forall>c \<in> set s. P c" using assms(1) by (simp add: list_all_iff)
  ultimately show "takeWhile P (s @ R) = s" "dropWhile P (s @ R) = R" by (simp_all add: dropWhile_append2)
qed

lemma closing_paren: "closing msg g v (blanks w @ CHR '')'' # R) = ret (g v) (\<lambda>x. Some (Inr (x, R)))"
  by (simp add: closing_def split: sum.splits)

lemma letters_skip:
  assumes "s \<noteq> []" "list_all is_letter s"
  shows "skipSpaces (s @ R) = s @ R" "is_letter (hd (s @ R))"
  using assms by (cases s; auto simp: is_letter_def skipSpaces_def less_eq_char_def)+

lemma number_atom:
  assumes "s \<noteq> []" "list_all is_numchar s"
  shows "is_atom F n (blanks w @ s) (ParseFloat F s)"
  unfolding is_atom_def
proof (intro allI impI)
  fix R assume R: "starts ''+-*/%^)'' R"
  obtain c s' where s: "s = c # s'" using assms(1) by (cases s) auto
  with assms(2) have c: "is_numchar c" by simp
  then have nc: "c \<noteq> CHR '' ''" "\<not> is_letter c" "c \<noteq> CHR ''(''" "c \<noteq> CHR ''-''" "c \<noteq> CHR ''+''"
    by (auto simp: is_numchar_def is_digit_def is_letter_def less_eq_char_def)
  note run = takeWhile_run [OF assms(2) starts_ends(2) [OF R]]
  have "parse_number F n (s @ R) = ret (ParseFloat F s) (\<lambda>v. Some (Inr (v, R)))"
    using run nc assms(1) s by (simp add: parse_number_def Let_def ret_def split: sum.splits)
  then have "parseAtom F n (pexpr F n) ((blanks w @ s) @ R) = ret (ParseFloat F s) (\<lambda>v. Some (Inr (v, R)))"
    using nc s by (simp add: parseAtom_def)
  then show "\<exists>R'. skipSpaces R' = skipSpaces R \<and>
      parseAtom F n (pexpr F n) ((blanks w @ s) @ R) = ret (ParseFloat F s) (\<lambda>v. Some (Inr (v, R')))" by blast
qed

lemma parseAtom_name:
  assumes "x \<noteq> []" "list_all is_letter x"
  shows "parseAtom F n expr (blanks w @ x @ R) = parse_name F expr (x @ R)"
proof -
  obtain c r where c: "x @ R = c # r" "is_letter c"
    using letters_skip [OF assms, of R] assms(1) by (cases "x @ R") auto
  have "skipSpaces (blanks w @ x @ R) = c # r" using letters_skip(1) [OF assms, of R] c by simp
  with c show ?thesis by (simp add: parseAtom_def)
qed

lemma name_atom:
  assumes "x \<noteq> []" "list_all is_letter x"
  shows "is_atom F n (blanks w @ x) (named_constant F x)"
  unfolding is_atom_def
proof (intro allI impI)
  fix R assume R: "starts ''+-*/%^)'' R"
  note run = takeWhile_run [OF assms(2) starts_ends(1) [OF R]]
  have "skipSpaces R \<noteq> [] \<Longrightarrow> hd (skipSpaces R) \<noteq> CHR ''(''" using R by (auto simp: starts_def)
  then have "parse_name F (pexpr F n) (x @ R) = ret (named_constant F x) (\<lambda>v. Some (Inr (v, skipSpaces R)))"
    using run by (auto simp: parse_name_def Let_def ret_def split: sum.splits)
  then have "parseAtom F n (pexpr F n) ((blanks w @ x) @ R) = ret (named_constant F x) (\<lambda>v. Some (Inr (v, skipSpaces R)))"
    using parseAtom_name [OF assms, of F n "pexpr F n" w R] by simp
  then show "\<exists>R'. skipSpaces R' = skipSpaces R \<and>
      parseAtom F n (pexpr F n) ((blanks w @ x) @ R) = ret (named_constant F x) (\<lambda>v. Some (Inr (v, R')))"
    using skip_skip by blast
qed

text \<open>An expression in parentheses, alone or as an argument.\<close>

lemma sum_closed:
  assumes "is_sum F n T x"
  shows "pbind (pexpr F n (T @ blanks w @ CHR '')'' # R)) (closing msg g) = ret x (\<lambda>v. ret (g v) (\<lambda>y. Some (Inr (y, R))))"
proof -
  have "aloop F n v (blanks w @ CHR '')'' # R) = Some (Inr (v, CHR '')'' # R))" for v
    by (simp add: aloop_eq)
  moreover have "closing msg g v (CHR '')'' # R) = ret (g v) (\<lambda>y. Some (Inr (y, R)))" for v
    using closing_paren [of msg g v 0 R] by (simp add: blanks_def)
  ultimately show ?thesis using assms unfolding pexpr_eq [of F n "T @ _"] is_sum_def by (simp add: pbind_ret)
qed

lemma call_atom:
  assumes "f \<noteq> []" "list_all is_letter f" "is_sum F n T x"
  shows "is_atom F n (blanks w @ f @ blanks w @ ''('' @ T @ blanks w @ '')'') (ebind x (call_func F f))"
  unfolding is_atom_def
proof (intro allI impI)
  fix R
  let ?r = "blanks w @ CHR ''('' # T @ blanks w @ CHR '')'' # R"
  have "?r \<noteq> [] \<Longrightarrow> \<not> is_letter (hd ?r)" by (cases w) (simp_all add: blanks_def is_letter_def less_eq_char_def)
  note run = takeWhile_run [OF assms(2) this]
  have "parseAtom F n (pexpr F n) ((blanks w @ f @ blanks w @ ''('' @ T @ blanks w @ '')'') @ R) = parse_name F (pexpr F n) (f @ ?r)"
    using parseAtom_name [OF assms(1,2), of F n "pexpr F n" w ?r] by simp
  also have "\<dots> = ret (ebind x (call_func F f)) (\<lambda>v. Some (Inr (v, R)))"
    using run sum_closed [OF assms(3), of w R] by (simp add: parse_name_def Let_def ret_ebind)
  finally show "\<exists>R'. skipSpaces R' = skipSpaces R \<and> parseAtom F n (pexpr F n) ((blanks w @ f @ blanks w @ ''('' @ T @ blanks w @ '')'') @ R) =
      ret (ebind x (call_func F f)) (\<lambda>v. Some (Inr (v, R')))" by blast
qed

lemma paren_atom:
  assumes "is_sum F n T x"
  shows "is_atom F n (blanks w @ ''('' @ T @ blanks w @ '')'') x"
  unfolding is_atom_def
proof (intro allI impI)
  fix R
  have "parseAtom F n (pexpr F n) ((blanks w @ ''('' @ T @ blanks w @ '')'') @ R) = ret x (\<lambda>v. Some (Inr (v, R)))"
    using sum_closed [OF assms, of w R _ Inr] by (simp add: parseAtom_def is_letter_def less_eq_char_def)
  then show "\<exists>R'. skipSpaces R' = skipSpaces R \<and>
      parseAtom F n (pexpr F n) ((blanks w @ ''('' @ T @ blanks w @ '')'') @ R) = ret x (\<lambda>v. Some (Inr (v, R')))" by blast
qed

text \<open>Each place takes what the places below it take.\<close>

lemma unary_of_atom:
  assumes "is_atom F n T x" "\<And>R. \<exists>c r. skipSpaces (T @ R) = c # r \<and> c \<noteq> CHR ''-'' \<and> c \<noteq> CHR ''+''"
  shows "is_unary F n T x"
proof -
  have "parseUnary F n (pexpr F n) (T @ R) = parseAtom F n (pexpr F n) (T @ R)" for R
  proof -
    obtain c r where c: "skipSpaces (T @ R) = c # r" "c \<noteq> CHR ''-''" "c \<noteq> CHR ''+''" using assms(2) by blast
    moreover have "skipSpaces (c # r) = c # r" using skip_skip [of "T @ R"] c(1) by simp
    ultimately show ?thesis by (simp add: parseUnary_def parseAtom_def)
  qed
  with assms(1) show ?thesis by (simp add: is_unary_def is_atom_def)
qed

lemma pow_of_unary:
  assumes "is_unary F n T x"
  shows "is_pow F n T x"
  unfolding is_pow_def
proof (intro allI impI)
  fix R assume R: "starts ''+-*/%)'' R"
  then have "starts ''+-*/%^)'' R" by (rule starts_mono) auto
  then obtain R' where R': "skipSpaces R' = skipSpaces R" "parseUnary F n (pexpr F n) (T @ R) = ret x (\<lambda>v. Some (Inr (v, R')))"
    using assms by (auto simp: is_unary_def)
  have "\<not> (skipSpaces R \<noteq> [] \<and> hd (skipSpaces R) = CHR ''^'')" using R by (auto simp: starts_def)
  with R' have "parsePow F n (pexpr F n) (T @ R) = ret x (\<lambda>v. Some (Inr (v, skipSpaces R)))"
    by (simp only: parsePow_def pbind_ret pbind_simps Let_def if_False)
  then show "\<exists>R'. skipSpaces R' = skipSpaces R \<and> parsePow F n (pexpr F n) (T @ R) = ret x (\<lambda>v. Some (Inr (v, R')))"
    using skip_skip by blast
qed

lemma pow_eq:
  assumes "is_pow F n T x" "starts ''+-*/%)'' R"
    and "\<And>v R'. skipSpaces R' = skipSpaces R \<Longrightarrow> f v R' = g v"
  shows "pbind (parsePow F n (pexpr F n) (T @ R)) f = ret x g"
proof -
  obtain R' where R': "skipSpaces R' = skipSpaces R" "parsePow F n (pexpr F n) (T @ R) = ret x (\<lambda>v. Some (Inr (v, R')))"
    using assms(1,2) by (auto simp: is_pow_def)
  with assms(3) show ?thesis by (simp add: pbind_ret)
qed

lemma product_of_pow:
  assumes "is_pow F n T x"
  shows "is_product F n T x"
  unfolding is_product_def parseMulDiv_def mloop_def [symmetric]
  by (intro allI impI pow_eq [OF assms]) (auto intro: loops_skip)

lemma sum_of_product:
  assumes "is_product F n T x"
  shows "is_sum F n T x"
  unfolding is_sum_def
proof (intro allI impI)
  fix R assume R: "starts ''+-)'' R"
  have "mloop F n v R = Some (Inr (v, skipSpaces R))" for v
    using R by (cases "skipSpaces R") (auto simp: mloop_eq starts_def)
  moreover have "starts ''+-*/%)'' R" using R by (rule starts_mono) auto
  ultimately have "parseMulDiv F n (pexpr F n) (T @ R) = ret x (\<lambda>v. Some (Inr (v, skipSpaces R)))"
    using assms by (simp add: is_product_def)
  moreover have "aloop F n v (skipSpaces R) = aloop F n v R" for v by (rule loops_skip(2)) simp
  ultimately show "parseAddSub F n (pexpr F n) (T @ R) = ret x (\<lambda>v. aloop F n v R)"
    unfolding parseAddSub_def aloop_def [symmetric] by (simp only: pbind_ret pbind_simps)
qed

lemma neg_unary:
  assumes "is_atom F n T x"
  shows "is_unary F n (blanks w @ ''-'' @ T) (ebind x (\<lambda>v. Inr (fNeg F v)))"
  unfolding is_unary_def
proof (intro allI impI)
  fix R assume "starts ''+-*/%^)'' R"
  then obtain R' where "skipSpaces R' = skipSpaces R" "parseAtom F n (pexpr F n) (T @ R) = ret x (\<lambda>v. Some (Inr (v, R')))"
    using assms by (auto simp: is_atom_def)
  then show "\<exists>R'. skipSpaces R' = skipSpaces R \<and> parseUnary F n (pexpr F n) ((blanks w @ ''-'' @ T) @ R) =
      ret (ebind x (\<lambda>v. Inr (fNeg F v))) (\<lambda>v. Some (Inr (v, R')))"
    by (intro exI [of _ R']) (simp add: parseUnary_def pbind_ret ret_ebind)
qed

lemma pow_pow:
  assumes "is_unary F n T x" "is_unary F n U y"
  shows "is_pow F n (T @ blanks w @ ''^'' @ U) (ebind x (\<lambda>v. ebind y (\<lambda>u. Inr (mPow F v u))))"
  unfolding is_pow_def
proof (intro allI impI)
  fix R assume R: "starts ''+-*/%)'' R"
  then have "starts ''+-*/%^)'' R" by (rule starts_mono) auto
  then obtain R' where R': "skipSpaces R' = skipSpaces R" "parseUnary F n (pexpr F n) (U @ R) = ret y (\<lambda>v. Some (Inr (v, R')))"
    using assms(2) by (auto simp: is_unary_def)
  have "starts ''+-*/%^)'' (blanks w @ CHR ''^'' # U @ R)" by simp
  then obtain Q where Q: "skipSpaces Q = skipSpaces (blanks w @ CHR ''^'' # U @ R)"
    "parseUnary F n (pexpr F n) (T @ blanks w @ CHR ''^'' # U @ R) = ret x (\<lambda>v. Some (Inr (v, Q)))"
    using assms(1) unfolding is_unary_def by blast
  then have "skipSpaces Q = CHR ''^'' # U @ R" by simp
  with R' Q(2) show "\<exists>R'. skipSpaces R' = skipSpaces R \<and> parsePow F n (pexpr F n) ((T @ blanks w @ ''^'' @ U) @ R) =
      ret (ebind x (\<lambda>v. ebind y (\<lambda>u. Inr (mPow F v u)))) (\<lambda>v. Some (Inr (v, R')))"
    by (intro exI [of _ R']) (simp add: parsePow_def pbind_ret ret_ebind Let_def)
qed

lemma mul_op_char: "mul_op F (mul_char c) = mul_value F c"
  by (cases c) (simp_all add: mul_op_def fun_eq_iff)

lemma add_op_char: "add_op F (add_char c) = add_value F c"
  by (cases c) (simp_all add: add_op_def fun_eq_iff)

lemma mul_chars:
  "mul_char c \<in> set ''+-*/%)''" "mul_char c \<noteq> CHR '' ''"
  "(mul_char c \<noteq> CHR ''*'' \<and> mul_char c \<noteq> CHR ''/'' \<and> mul_char c \<noteq> CHR ''%'') = False"
  by (cases c; simp)+

lemma add_chars:
  "add_char c \<in> set ''+-)''" "add_char c \<noteq> CHR '' ''" "(add_char c \<noteq> CHR ''+'' \<and> add_char c \<noteq> CHR ''-'') = False"
  by (cases c; simp)+

lemma product_product:
  fixes F :: "'a float_ops"
  assumes "is_product F n T x" "is_pow F n U y"
  shows "is_product F n (T @ blanks w @ [mul_char c] @ U) (ebind x (\<lambda>v. ebind y (mul_value F c v)))"
  unfolding is_product_def
proof (intro allI impI)
  fix R assume R: "starts ''+-*/%)'' R"
  let ?r = "blanks w @ mul_char c # U @ R"
  have loop: "mloop F n v ?r = ret y (\<lambda>u. ret (mul_value F c v u) (\<lambda>z. mloop F n z R))" for v
  proof -
    have "mloop F n v ?r = pbind (parsePow F n (pexpr F n) (U @ R)) (\<lambda>u r'. ret (mul_value F c v u) (\<lambda>z. mloop F n z r'))"
      by (simp only: mloop_eq [of F n v] skip_blanks skip_char [OF mul_chars(2)] list.case mul_chars(3) if_False mul_op_char)
    also have "\<dots> = ret y (\<lambda>u. ret (mul_value F c v u) (\<lambda>z. mloop F n z R))"
    proof (rule pow_eq [OF assms(2) R])
      fix u :: 'a and R' assume "skipSpaces R' = skipSpaces R"
      then have "mloop F n z R' = mloop F n z R" for z by (rule loops_skip(1))
      then show "ret (mul_value F c v u) (\<lambda>z. mloop F n z R') = ret (mul_value F c v u) (\<lambda>z. mloop F n z R)" by simp
    qed
    finally show ?thesis .
  qed
  have "starts ''+-*/%)'' ?r" using mul_chars(1) by (simp only: starts_blanks starts_char [OF mul_chars(2)])
  then have "parseMulDiv F n (pexpr F n) (T @ ?r) = ret x (\<lambda>v. mloop F n v ?r)" using assms(1) by (simp add: is_product_def)
  then show "parseMulDiv F n (pexpr F n) ((T @ blanks w @ [mul_char c] @ U) @ R) =
      ret (ebind x (\<lambda>v. ebind y (mul_value F c v))) (\<lambda>v. mloop F n v R)"
    by (simp add: loop ret_ebind)
qed

lemma sum_sum:
  assumes "is_sum F n T x" "is_product F n U y"
  shows "is_sum F n (T @ blanks w @ [add_char c] @ U) (ebind x (\<lambda>v. ebind y (\<lambda>u. Inr (add_value F c v u))))"
  unfolding is_sum_def
proof (intro allI impI)
  fix R assume R: "starts ''+-)'' R"
  let ?r = "blanks w @ add_char c # U @ R"
  have stop: "mloop F n v R = Some (Inr (v, skipSpaces R))" for v
    using R by (cases "skipSpaces R") (auto simp: mloop_eq starts_def)
  have "starts ''+-*/%)'' R" using R by (rule starts_mono) auto
  then have U: "parseMulDiv F n (pexpr F n) (U @ R) = ret y (\<lambda>v. Some (Inr (v, skipSpaces R)))"
    using assms(2) by (simp add: is_product_def stop)
  have loop: "aloop F n v ?r = ret y (\<lambda>u. aloop F n (add_value F c v u) R)" for v
    by (simp only: aloop_eq [of F n v] skip_blanks skip_char [OF add_chars(2)] list.case add_chars(3) if_False add_op_char
        U pbind_ret pbind_simps loops_skip(2) [OF skip_skip])
  have "starts ''+-)'' ?r" using add_chars(1) by (simp only: starts_blanks starts_char [OF add_chars(2)])
  then have "parseAddSub F n (pexpr F n) (T @ ?r) = ret x (\<lambda>v. aloop F n v ?r)" using assms(1) by (simp add: is_sum_def)
  then show "parseAddSub F n (pexpr F n) ((T @ blanks w @ [add_char c] @ U) @ R) =
      ret (ebind x (\<lambda>v. ebind y (\<lambda>u. Inr (add_value F c v u)))) (\<lambda>v. aloop F n v R)"
    by (simp add: loop ret_ebind)
qed

text \<open>Only a signed atom and a sum can begin with a sign.\<close>

lemma atom_head:
  assumes "wf_mexp e"
  shows "\<exists>c r. skipSpaces (mtext w 4 e @ R) = c # r \<and> c \<noteq> CHR ''-'' \<and> c \<noteq> CHR ''+''"
proof -
  have name: "\<exists>c. (\<exists>r. skipSpaces (s @ Q) = c # r) \<and> c \<noteq> CHR ''-'' \<and> c \<noteq> CHR ''+''" if "s \<noteq> []" "list_all is_letter s" for s Q
    using that by (cases s) (auto simp: is_letter_def less_eq_char_def skipSpaces_def)
  have number: "\<exists>c. (\<exists>r. skipSpaces (s @ Q) = c # r) \<and> c \<noteq> CHR ''-'' \<and> c \<noteq> CHR ''+''" if "s \<noteq> []" "list_all is_numchar s" for s Q
    using that by (cases s) (auto simp: is_numchar_def is_digit_def less_eq_char_def skipSpaces_def)
  from assms show ?thesis by (cases e) (simp_all add: name number paren_def)
qed

lemma mtext_parsed:
  assumes "wf_mexp e"
  shows "is_sum F n (mtext w 0 e) (mvalue F e) \<and> is_product F n (mtext w 1 e) (mvalue F e) \<and>
    is_pow F n (mtext w 2 e) (mvalue F e) \<and> is_unary F n (mtext w 3 e) (mvalue F e) \<and> is_atom F n (mtext w 4 e) (mvalue F e)"
  using assms
proof (induction e)
  case (Num s)
  then have "is_atom F n (mtext w l (Num s)) (mvalue F (Num s))" for l by (simp add: number_atom)
  with unary_of_atom [OF this atom_head [OF Num]] show ?case
    by (simp add: pow_of_unary product_of_pow sum_of_product)
next
  case (Named x)
  then have "is_atom F n (mtext w l (Named x)) (mvalue F (Named x))" for l by (simp add: name_atom)
  with unary_of_atom [OF this atom_head [OF Named]] show ?case
    by (simp add: pow_of_unary product_of_pow sum_of_product)
next
  case (Call f a)
  then have "is_atom F n (mtext w l (Call f a)) (mvalue F (Call f a))" for l by (simp add: call_atom [simplified])
  with unary_of_atom [OF this atom_head [OF Call.prems]] show ?case
    by (simp add: pow_of_unary product_of_pow sum_of_product)
next
  case (Neg a)
  then have "is_unary F n (blanks w @ ''-'' @ mtext w 4 a) (mvalue F (Neg a))" by (simp add: neg_unary [simplified])
  moreover from this have s: "is_sum F n (blanks w @ ''-'' @ mtext w 4 a) (mvalue F (Neg a))"
    by (intro sum_of_product product_of_pow pow_of_unary)
  ultimately show ?case using paren_atom [OF s, of w]
    by (simp add: paren_def pow_of_unary product_of_pow sum_of_product del: mvalue.simps)
next
  case (Pow a b)
  then have p: "is_pow F n (mtext w 3 a @ blanks w @ ''^'' @ mtext w 3 b) (mvalue F (Pow a b))" by (simp add: pow_pow [simplified])
  then have s: "is_sum F n (mtext w 3 a @ blanks w @ ''^'' @ mtext w 3 b) (mvalue F (Pow a b))"
    by (intro sum_of_product product_of_pow)
  have t: "is_atom F n (mtext w 4 (Pow a b)) (mvalue F (Pow a b))" using paren_atom [OF s, of w] by (simp add: paren_def del: mvalue.simps)
  have "mtext w 4 (Pow a b) = mtext w 3 (Pow a b)" by (simp add: paren_def)
  with unary_of_atom [OF t atom_head [OF Pow.prems]] t p s show ?case
    by (simp add: paren_def product_of_pow del: mvalue.simps)
next
  case (MulE c a b)
  then have p: "is_product F n (mtext w 1 a @ blanks w @ [mul_char c] @ mtext w 2 b) (mvalue F (MulE c a b))"
    by (simp add: product_product [simplified])
  note s = sum_of_product [OF p]
  have t: "is_atom F n (mtext w 4 (MulE c a b)) (mvalue F (MulE c a b))" using paren_atom [OF s, of w] by (simp add: paren_def del: mvalue.simps)
  have "mtext w 4 (MulE c a b) = mtext w 3 (MulE c a b)" "mtext w 4 (MulE c a b) = mtext w 2 (MulE c a b)" by (simp_all add: paren_def)
  with unary_of_atom [OF t atom_head [OF MulE.prems]] t p s show ?case
    by (simp add: paren_def pow_of_unary del: mvalue.simps)
next
  case (AddE c a b)
  then have s: "is_sum F n (mtext w 0 a @ blanks w @ [add_char c] @ mtext w 1 b) (mvalue F (AddE c a b))"
    by (simp add: sum_sum [simplified])
  have t: "is_atom F n (mtext w 4 (AddE c a b)) (mvalue F (AddE c a b))" using paren_atom [OF s, of w] by (simp add: paren_def del: mvalue.simps)
  have "mtext w 4 (AddE c a b) = mtext w 3 (AddE c a b)" "mtext w 4 (AddE c a b) = mtext w 2 (AddE c a b)"
    "mtext w 4 (AddE c a b) = mtext w 1 (AddE c a b)" by (simp_all add: paren_def)
  with unary_of_atom [OF t atom_head [OF AddE.prems]] t s show ?case
    by (simp add: paren_def pow_of_unary product_of_pow del: mvalue.simps)
qed

text \<open>C32. The evaluator computes the value of an expression: for the text of any expression of
  numbers, names, calls, signs, powers, products and sums, written with the usual precedence and
  only the parentheses it needs, with any number of blanks before every token, it gives exactly the
  value, sums and products grouped to the left, or the first error from left to right.\<close>

theorem evalMath_value:
  assumes "wf_mexp e"
  shows "evalMath F (mtext w 0 e @ blanks u) = Some (mvalue F e)"
proof -
  let ?t = "mtext w 0 e @ blanks u"
  have b: "skipSpaces (blanks u) = []" using skip_blanks [of u "[]"] by simp
  have "evalMath F ?t = finish ?t (pexpr F (length ?t) ?t)" by (simp only: evalMath_def pexpr_def)
  also have "pexpr F (length ?t) ?t = ret (mvalue F e) (\<lambda>v. aloop F (length ?t) v (blanks u))"
    using mtext_parsed [OF assms, of F "length ?t" w] b by (simp only: pexpr_eq [of F "length ?t"] is_sum_def starts_def) blast
  also have "\<dots> = ret (mvalue F e) (\<lambda>v. Some (Inr (v, [])))" by (simp add: aloop_eq b)
  also have "finish ?t \<dots> = Some (mvalue F e)" by (cases "mvalue F e") (simp_all add: finish_def)
  finally show ?thesis .
qed

text \<open>The integers, with the functions of \<^verbatim>\<open>math\<close> that stay among them and the others fixed at 0,
  and numbers of decimal digits.\<close>

definition int_ops :: "int float_ops" where
  "int_ops = \<lparr>fAdd = (+), fSub = (-), fMul = (*), fDiv = (div), fNeg = uminus, fIsZero = (\<lambda>x. x = 0), mMod = (mod),
     mPow = (\<lambda>x y. x ^ nat y), mSqrt = (\<lambda>_. 0), mAbs = abs, mCeil = (\<lambda>x. x), mFloor = (\<lambda>x. x), mRound = (\<lambda>x. x),
     mLog = (\<lambda>_. 0), mLog2 = (\<lambda>_. 0), mLog10 = (\<lambda>_. 0), mSin = (\<lambda>_. 0), mCos = (\<lambda>_. 0), mTan = (\<lambda>_. 0), mExp = (\<lambda>_. 0),
     mPi = 3, mE = 3,
     ParseFloat = (\<lambda>s. if s = [] \<or> \<not> list_all is_digit s then Inl ''invalid syntax'' else Inr (int (digits_val s)))\<rparr>"

theorem evalMath_value_witness:
  "evalMath int_ops ''2*(3+4)^2-abs(-5)-1'' = Some (Inr 92)"
proof -
  let ?e = "AddE Minus (AddE Minus (MulE Times (Num ''2'') (Pow (AddE Plus (Num ''3'') (Num ''4'')) (Num ''2''))) (Call ''abs'' (Neg (Num ''5'')))) (Num ''1'')"
  have wf: "wf_mexp ?e" by (simp add: is_numchar_def is_digit_def is_letter_def less_eq_char_def)
  have "mtext 0 0 ?e @ blanks 0 = ''2*(3+4)^2-abs(-5)-1''" by (simp add: paren_def blanks_def)
  moreover have "mvalue int_ops ?e = Inr 92"
    by (simp add: int_ops_def ebind_def call_func_def mathFuncs_def digits_val_def digit_val_def is_digit_def less_eq_char_def)
  ultimately show ?thesis using evalMath_value [OF wf, of int_ops 0 0] by simp
qed

text \<open>The functions log2 and log10 cannot be called: a name is read as letters only, so whatever
  stands after them the result is the error for the identifier log, although the table of functions
  has both.\<close>

theorem log2_unreachable:
  "evalMath F (''log2('' @ arg) = Some (Inl (''unknown identifier '' @ quoted ''log'')) \<and>
   evalMath F (''log10('' @ arg) = Some (Inl (''unknown identifier '' @ quoted ''log'')) \<and>
   mathFuncs F ''log2'' = Some (mLog2 F) \<and> mathFuncs F ''log10'' = Some (mLog10 F)"
proof -
  have log: "list_all is_letter ''log''" by (simp add: is_letter_def less_eq_char_def)
  have "parse_name F expr (''log'' @ c # r) = Some (Inl (''unknown identifier '' @ quoted ''log''))" if "is_digit c" for expr c r
  proof -
    have c: "\<not> is_letter c" "c \<noteq> CHR '' ''" "c \<noteq> CHR ''(''" using that by (auto simp: is_digit_def is_letter_def less_eq_char_def)
    note run = takeWhile_run [OF log, of "c # r"]
    show ?thesis unfolding parse_name_def run [simplified list.sel, OF c(1)] using c(2,3)
      by (simp add: Let_def named_constant_def)
  qed
  then have "parseExpr F n (Suc k) (''log'' @ c # r) = Some (Inl (''unknown identifier '' @ quoted ''log''))" if "is_digit c" for n k c r
    using that parseAtom_name [of "''log''" F n _ 0 "c # r"]
    by (simp add: parseAddSub_def parseMulDiv_def parsePow_def parseUnary_def blanks_def is_letter_def less_eq_char_def)
  from this [of "CHR ''2''"] this [of "CHR ''1''"] show ?thesis
    by (simp add: evalMath_def finish_def is_digit_def less_eq_char_def mathFuncs_def del: parseExpr.simps)
qed

end
