(* ===== verification/RateLimit.thy ===== *)
theory RateLimit
  imports NetAddr
begin

text \<open>
  Rate limiting of requests by client address and by tenant, and the window of recent metrics, of
  \<^verbatim>\<open>cmd/spectral-cloud/main.go\<close>.

  \<^verbatim>\<open>golang.org/x/time/rate\<close> is not part of the repository: a limiter is a value of any type, and what
  creates one and what its \<^verbatim>\<open>Allow\<close> does are the fields of an argument. The two middlewares
  look a limiter up and ask it; the model takes each request as one step, in the order the lookups
  get the lock.

  The locale \<open>keyed_limiters\<close> states what both tables promise (an entry that was used within the
  time to live stays, and no other key's request touches it) and derives that every key is served by
  one limiter of its own.
\<close>

section \<open>Client addresses\<close>

record ('r, 'l) rate_lib =
  NewLimiter :: "'r \<Rightarrow> int \<Rightarrow> 'l"
  Allow :: "'l \<Rightarrow> instant \<Rightarrow> bool \<times> 'l"

record 'l client_limiter =
  cl_limiter :: 'l
  cl_lastSeen :: instant

record ('r, 'l) ip_limiter =
  il_limit :: 'r
  il_burst :: int
  il_ttl :: duration
  il_clients :: "string \<rightharpoonup> 'l client_limiter"
  il_lastGC :: instant

definition newIPLimiter :: "'r \<Rightarrow> int \<Rightarrow> duration \<Rightarrow> instant \<Rightarrow> ('r, 'l) ip_limiter" where
  "newIPLimiter limit burst ttl now =
     \<lparr>il_limit = limit, il_burst = burst, il_ttl = ttl, il_clients = Map.empty, il_lastGC = now\<rparr>"

definition ip_gc :: "string list \<Rightarrow> instant \<Rightarrow> ('r, 'l) ip_limiter \<Rightarrow> ('r, 'l) ip_limiter" where
  "ip_gc ks now l =
     (if now - il_lastGC l > il_ttl l
      then l\<lparr>il_clients := fst (prune_map (\<lambda>v. now - cl_lastSeen v > il_ttl l) (il_clients l) ks), il_lastGC := now\<rparr>
      else l)"

definition ip_get :: "('r, 'l) rate_lib \<Rightarrow> ('r, 'l) ip_limiter \<Rightarrow> string \<Rightarrow> string list \<Rightarrow> instant \<Rightarrow> 'l \<times> ('r, 'l) ip_limiter" where
  "ip_get L l ip ks now =
     (let l1 = ip_gc ks now l
      in case il_clients l1 ip of
           Some c \<Rightarrow> (cl_limiter c, l1\<lparr>il_clients := (il_clients l1)(ip \<mapsto> c\<lparr>cl_lastSeen := now\<rparr>)\<rparr>)
         | None \<Rightarrow>
             let lm = NewLimiter L (il_limit l1) (il_burst l1)
             in (lm, l1\<lparr>il_clients := (il_clients l1)(ip \<mapsto> \<lparr>cl_limiter = lm, cl_lastSeen = now\<rparr>)\<rparr>))"

definition client_key :: "string \<Rightarrow> string" where
  "client_key RemoteAddr = (case net_SplitHostPort RemoteAddr of Some host \<Rightarrow> host | None \<Rightarrow> RemoteAddr)"

text \<open>Whether the request goes on to the next handler; otherwise the answer is 429. Asking the
  limiter changes it in place.\<close>

definition withRateLimit ::
    "('r, 'l) rate_lib \<Rightarrow> ('r, 'l) ip_limiter option \<Rightarrow> string \<Rightarrow> string list \<Rightarrow> instant \<Rightarrow> bool \<times> ('r, 'l) ip_limiter option" where
  "withRateLimit L limiter RemoteAddr ks now =
     (case limiter of None \<Rightarrow> (True, None)
      | Some l \<Rightarrow>
          let ip = client_key RemoteAddr
          in case ip_get L l ip ks now of (lm, l1) \<Rightarrow>
             (case Allow L lm now of (ok, lm') \<Rightarrow>
                (ok, Some (l1\<lparr>il_clients := (il_clients l1)(ip := map_option (\<lambda>c. c\<lparr>cl_limiter := lm'\<rparr>) (il_clients l1 ip))\<rparr>))))"

section \<open>Tenants\<close>

record ('r, 'l) tenant_limiter =
  tl_limit :: 'r
  tl_burst :: int
  tl_entries :: "string \<rightharpoonup> 'l client_limiter"
  tl_ttl :: duration

definition newTenantLimiter :: "'r \<Rightarrow> int \<Rightarrow> duration \<Rightarrow> ('r, 'l) tenant_limiter" where
  "newTenantLimiter limit burst ttl = \<lparr>tl_limit = limit, tl_burst = burst, tl_entries = Map.empty, tl_ttl = ttl\<rparr>"

definition tenant_cleanup :: "string list \<Rightarrow> instant \<Rightarrow> ('r, 'l) tenant_limiter \<Rightarrow> ('r, 'l) tenant_limiter" where
  "tenant_cleanup ks now l =
     l\<lparr>tl_entries := fst (prune_map (\<lambda>v. now - cl_lastSeen v > tl_ttl l) (tl_entries l) ks)\<rparr>"

definition tenant_get ::
    "('r, 'l) rate_lib \<Rightarrow> ('r, 'l) tenant_limiter \<Rightarrow> string \<Rightarrow> string list \<Rightarrow> instant \<Rightarrow> 'l option \<times> ('r, 'l) tenant_limiter" where
  "tenant_get L l tenant ks now =
     (if trim_space tenant = [] then (None, l)
      else case tl_entries l tenant of
        Some e \<Rightarrow> (Some (cl_limiter e), l\<lparr>tl_entries := (tl_entries l)(tenant \<mapsto> e\<lparr>cl_lastSeen := now\<rparr>)\<rparr>)
      | None \<Rightarrow>
          let l1 = tenant_cleanup ks now l;
              lm = NewLimiter L (tl_limit l1) (tl_burst l1)
          in (Some lm, l1\<lparr>tl_entries := (tl_entries l1)(tenant \<mapsto> \<lparr>cl_limiter = lm, cl_lastSeen = now\<rparr>)\<rparr>))"

text \<open>The tenant of the request's context, if there is one.\<close>

definition tenant_key :: "string option \<Rightarrow> string \<Rightarrow> string" where
  "tenant_key ctx defaultTenant =
     (case ctx of None \<Rightarrow> defaultTenant | Some t \<Rightarrow> if trim_space t = [] then defaultTenant else t)"

definition withTenantRateLimit ::
    "('r, 'l) rate_lib \<Rightarrow> ('r, 'l) tenant_limiter option \<Rightarrow> string option \<Rightarrow> string \<Rightarrow> string list \<Rightarrow> instant \<Rightarrow>
      bool \<times> ('r, 'l) tenant_limiter option" where
  "withTenantRateLimit L limiter ctx defaultTenant ks now =
     (case limiter of None \<Rightarrow> (True, None)
      | Some l \<Rightarrow>
          let tenant = tenant_key ctx defaultTenant
          in case tenant_get L l tenant ks now of
               (None, l1) \<Rightarrow> (True, Some l1)
             | (Some lm, l1) \<Rightarrow>
                 (case Allow L lm now of (ok, lm') \<Rightarrow>
                    (ok, Some (l1\<lparr>tl_entries := (tl_entries l1)(tenant := map_option (\<lambda>c. c\<lparr>cl_limiter := lm'\<rparr>) (tl_entries l1 tenant))\<rparr>))))"

section \<open>The metrics window\<close>

record 'p metrics_buffer =
  mb_buf :: "'p list"
  mb_maxLen :: nat

definition newMetricsBuf :: "nat \<Rightarrow> 'p metrics_buffer" where
  "newMetricsBuf cap = \<lparr>mb_buf = [], mb_maxLen = cap\<rparr>"

definition metrics_push :: "'p metrics_buffer \<Rightarrow> 'p \<Rightarrow> 'p metrics_buffer" where
  "metrics_push b p =
     (let buf = mb_buf b @ [p]
      in b\<lparr>mb_buf := (if length buf > mb_maxLen b then drop (length buf - mb_maxLen b) buf else buf)\<rparr>)"

definition metrics_last :: "'p metrics_buffer \<Rightarrow> int \<Rightarrow> 'p list" where
  "metrics_last b n =
     (let l = length (mb_buf b); n' = (if n \<le> 0 \<or> n > int l then l else nat n)
      in drop (l - n') (mb_buf b))"

section \<open>One limiter for each key\<close>

text \<open>What one limiter answers to requests at the given instants.\<close>

fun decisions :: "('l \<Rightarrow> instant \<Rightarrow> bool \<times> 'l) \<Rightarrow> 'l \<Rightarrow> instant list \<Rightarrow> bool list" where
  "decisions allow l [] = []"
| "decisions allow l (t # ts) = (case allow l t of (ok, l') \<Rightarrow> ok # decisions allow l' ts)"

fun gaps_within :: "duration \<Rightarrow> instant list \<Rightarrow> bool" where
  "gaps_within d (t # u # ts) \<longleftrightarrow> u - t \<le> d \<and> gaps_within d (u # ts)"
| "gaps_within d _ \<longleftrightarrow> True"

locale keyed_limiters =
  fixes serve :: "'s \<Rightarrow> 'k \<Rightarrow> instant \<Rightarrow> bool \<Rightarrow> 's \<Rightarrow> bool" and entry :: "'s \<Rightarrow> 'k \<rightharpoonup> 'l \<times> instant"
    and fresh :: 'l and allow :: "'l \<Rightarrow> instant \<Rightarrow> bool \<times> 'l" and ttl :: duration and wf :: "'s \<Rightarrow> bool"
  assumes keeps_wf: "serve s k now ok s' \<Longrightarrow> wf s \<Longrightarrow> wf s'"
    and hit: "serve s k now ok s' \<Longrightarrow> wf s \<Longrightarrow> entry s k = Some (l, t) \<Longrightarrow> now - t \<le> ttl \<Longrightarrow>
      (\<exists>l'. allow l now = (ok, l') \<and> entry s' k = Some (l', now))"
    and miss: "serve s k now ok s' \<Longrightarrow> wf s \<Longrightarrow> entry s k = None \<Longrightarrow>
      (\<exists>l'. allow fresh now = (ok, l') \<and> entry s' k = Some (l', now))"
    and other: "serve s k now ok s' \<Longrightarrow> wf s \<Longrightarrow> k' \<noteq> k \<Longrightarrow> entry s k' = None \<Longrightarrow> entry s' k' = None"
    and other_keeps: "serve s k now ok s' \<Longrightarrow> wf s \<Longrightarrow> k' \<noteq> k \<Longrightarrow> entry s k' = Some (l, t) \<Longrightarrow> now - t \<le> ttl \<Longrightarrow>
      entry s' k' = Some (l, t)"
begin

inductive served :: "'s \<Rightarrow> ('k \<times> instant \<times> bool) list \<Rightarrow> 's \<Rightarrow> bool" where
  served_Nil: "served s [] s"
| served_Cons: "serve s k now ok s' \<Longrightarrow> served s' tr s'' \<Longrightarrow> served s ((k, now, ok) # tr) s''"

lemma served_entry:
  assumes "served s tr s'" "wf s" "sorted (map (\<lambda>x. fst (snd x)) tr)" "entry s k = Some (l, t)"
    and "gaps_within ttl (t # map (\<lambda>x. fst (snd x)) (filter (\<lambda>x. fst x = k) tr))"
  shows "map (\<lambda>x. snd (snd x)) (filter (\<lambda>x. fst x = k) tr) = decisions allow l (map (\<lambda>x. fst (snd x)) (filter (\<lambda>x. fst x = k) tr))"
  using assms
proof (induction arbitrary: l t rule: served.induct)
  case (served_Cons s k' now ok s' tr s'')
  note wf = keeps_wf [OF served_Cons.hyps(1) served_Cons.prems(1)]
  have sorted: "sorted (map (\<lambda>x. fst (snd x)) tr)" using served_Cons.prems(2) by simp
  show ?case
  proof (cases "k' = k")
    case True
    with served_Cons.prems have "now - t \<le> ttl" by simp
    from hit [OF served_Cons.hyps(1) served_Cons.prems(1) _ this, of l] served_Cons.prems(3) True
    obtain l' where l': "allow l now = (ok, l')" "entry s' k = Some (l', now)" by auto
    with served_Cons.IH [OF wf sorted l'(2)] served_Cons.prems(4) True show ?thesis by simp
  next
    case False
    show ?thesis
    proof (cases "filter (\<lambda>x. fst x = k) tr")
      case (Cons x xs)
      then have "x \<in> set tr" "fst x = k" by (auto simp: filter_eq_Cons_iff)
      then have "now \<le> fst (snd x)" using served_Cons.prems(2) by auto
      moreover have "fst (snd x) - t \<le> ttl" using served_Cons.prems(4) Cons False by simp
      ultimately have "now - t \<le> ttl" by linarith
      from other_keeps [OF served_Cons.hyps(1) served_Cons.prems(1) _ served_Cons.prems(3) this] False
      have "entry s' k = Some (l, t)" by simp
      with served_Cons.IH [OF wf sorted this] served_Cons.prems(4) False show ?thesis by simp
    qed (simp add: False)
  qed
qed simp

text \<open>From a table without the key: its requests are answered by one new limiter.\<close>

lemma served_fresh:
  assumes "served s tr s'" "wf s" "sorted (map (\<lambda>x. fst (snd x)) tr)" "entry s k = None"
    and "gaps_within ttl (map (\<lambda>x. fst (snd x)) (filter (\<lambda>x. fst x = k) tr))"
  shows "map (\<lambda>x. snd (snd x)) (filter (\<lambda>x. fst x = k) tr) = decisions allow fresh (map (\<lambda>x. fst (snd x)) (filter (\<lambda>x. fst x = k) tr))"
  using assms
proof (induction rule: served.induct)
  case (served_Cons s k' now ok s' tr s'')
  note wf = keeps_wf [OF served_Cons.hyps(1) served_Cons.prems(1)]
  have sorted: "sorted (map (\<lambda>x. fst (snd x)) tr)" using served_Cons.prems(2) by simp
  show ?case
  proof (cases "k' = k")
    case True
    from miss [OF served_Cons.hyps(1) served_Cons.prems(1)] served_Cons.prems(3) True
    obtain l' where l': "allow fresh now = (ok, l')" "entry s' k = Some (l', now)" by auto
    with served_entry [OF served_Cons.hyps(2) wf sorted l'(2)] served_Cons.prems(4) True show ?thesis by simp
  next
    case False
    with other [OF served_Cons.hyps(1) served_Cons.prems(1) _ served_Cons.prems(3)] served_Cons.IH [OF wf sorted] served_Cons.prems(4)
    show ?thesis by simp
  qed
qed simp

end

section \<open>The limiters of the two middlewares\<close>

definition seen :: "(string \<rightharpoonup> 'l client_limiter) \<Rightarrow> string \<rightharpoonup> 'l \<times> instant" where
  "seen m k = map_option (\<lambda>c. (cl_limiter c, cl_lastSeen c)) (m k)"

definition ip_serve :: "('r, 'l) rate_lib \<Rightarrow> ('r, 'l) ip_limiter \<Rightarrow> string \<Rightarrow> instant \<Rightarrow> bool \<Rightarrow> ('r, 'l) ip_limiter \<Rightarrow> bool" where
  "ip_serve L s k now ok s' \<longleftrightarrow> (\<exists>addr ks. iter_order (il_clients s) ks \<and> client_key addr = k \<and>
     withRateLimit L (Some s) addr ks now = (ok, Some s'))"

definition tenant_serve ::
    "('r, 'l) rate_lib \<Rightarrow> ('r, 'l) tenant_limiter \<Rightarrow> string \<Rightarrow> instant \<Rightarrow> bool \<Rightarrow> ('r, 'l) tenant_limiter \<Rightarrow> bool" where
  "tenant_serve L s k now ok s' \<longleftrightarrow> trim_space k \<noteq> [] \<and> (\<exists>ctx d ks. iter_order (tl_entries s) ks \<and> tenant_key ctx d = k \<and>
     withTenantRateLimit L (Some s) ctx d ks now = (ok, Some s'))"

lemma ip_gc_clients:
  assumes "iter_order (il_clients l) ks"
  shows "il_clients (ip_gc ks now l) k = (case il_clients l k of None \<Rightarrow> None
      | Some c \<Rightarrow> if now - il_lastGC l > il_ttl l \<and> now - cl_lastSeen c > il_ttl l then None else Some c)"
    and "il_limit (ip_gc ks now l) = il_limit l" "il_burst (ip_gc ks now l) = il_burst l" "il_ttl (ip_gc ks now l) = il_ttl l"
  by (simp_all add: ip_gc_def prune_map_spec(1) [OF assms] split: option.splits)

lemma ip_serve_effect:
  assumes "ip_serve L s k now ok s'"
  shows "\<exists>l. (l = NewLimiter L (il_limit s) (il_burst s) \<and> (\<forall>c. il_clients s k = Some c \<longrightarrow> now - cl_lastSeen c > il_ttl s) \<or>
        (\<exists>c. il_clients s k = Some c \<and> l = cl_limiter c)) \<and>
      (\<exists>l'. Allow L l now = (ok, l') \<and> seen (il_clients s') k = Some (l', now))"
    and "il_limit s' = il_limit s \<and> il_burst s' = il_burst s \<and> il_ttl s' = il_ttl s"
    and "k' \<noteq> k \<Longrightarrow> il_clients s' k' = (case il_clients s k' of None \<Rightarrow> None
      | Some c \<Rightarrow> if now - il_lastGC s > il_ttl s \<and> now - cl_lastSeen c > il_ttl s then None else Some c)"
proof -
  obtain addr ks where ks: "iter_order (il_clients s) ks" "client_key addr = k"
    and w: "withRateLimit L (Some s) addr ks now = (ok, Some s')" using assms by (auto simp: ip_serve_def)
  note gc = ip_gc_clients [OF ks(1), of now]
  from w ks(2) show "il_limit s' = il_limit s \<and> il_burst s' = il_burst s \<and> il_ttl s' = il_ttl s"
    by (auto simp: withRateLimit_def ip_get_def gc Let_def split: prod.splits option.splits)
  from w ks(2) show "k' \<noteq> k \<Longrightarrow> il_clients s' k' = (case il_clients s k' of None \<Rightarrow> None
      | Some c \<Rightarrow> if now - il_lastGC s > il_ttl s \<and> now - cl_lastSeen c > il_ttl s then None else Some c)"
    by (auto simp: withRateLimit_def ip_get_def gc(1) [symmetric] Let_def split: prod.splits option.splits)
  show "\<exists>l. (l = NewLimiter L (il_limit s) (il_burst s) \<and> (\<forall>c. il_clients s k = Some c \<longrightarrow> now - cl_lastSeen c > il_ttl s) \<or>
        (\<exists>c. il_clients s k = Some c \<and> l = cl_limiter c)) \<and>
      (\<exists>l'. Allow L l now = (ok, l') \<and> seen (il_clients s') k = Some (l', now))"
  proof (cases "il_clients (ip_gc ks now s) k")
    case None
    then have "\<forall>c. il_clients s k = Some c \<longrightarrow> now - cl_lastSeen c > il_ttl s" by (auto simp: gc split: if_splits)
    with None w ks(2) show ?thesis
      by (intro exI [of _ "NewLimiter L (il_limit s) (il_burst s)"]) (auto simp: withRateLimit_def ip_get_def gc(2-) seen_def Let_def split: prod.splits)
  next
    case (Some c)
    then have "il_clients s k = Some c" by (simp add: gc split: option.splits if_splits)
    with Some w ks(2) show ?thesis
      by (intro exI [of _ "cl_limiter c"]) (auto simp: withRateLimit_def ip_get_def seen_def Let_def split: prod.splits)
  qed
qed

interpretation ips: keyed_limiters "ip_serve L" "\<lambda>s. seen (il_clients s)" "NewLimiter L limit burst" "Allow L" ttl
  "\<lambda>s. il_limit s = limit \<and> il_burst s = burst \<and> il_ttl s = ttl" for L limit burst ttl
proof unfold_locales
  fix s s' :: "('a, 'b) ip_limiter" and k now ok l t k'
  assume serve: "ip_serve L s k now ok s'"
  note e = ip_serve_effect [OF serve]
  assume wf: "il_limit s = limit \<and> il_burst s = burst \<and> il_ttl s = ttl"
  show "il_limit s' = limit \<and> il_burst s' = burst \<and> il_ttl s' = ttl" using e(2) wf by simp
  show "seen (il_clients s) k = Some (l, t) \<Longrightarrow> now - t \<le> ttl \<Longrightarrow> \<exists>l'. Allow L l now = (ok, l') \<and> seen (il_clients s') k = Some (l', now)"
    using e(1) wf by (fastforce simp: seen_def)
  show "seen (il_clients s) k = None \<Longrightarrow> \<exists>l'. Allow L (NewLimiter L limit burst) now = (ok, l') \<and> seen (il_clients s') k = Some (l', now)"
    using e(1) wf by (auto simp: seen_def)
  show "k' \<noteq> k \<Longrightarrow> seen (il_clients s) k' = None \<Longrightarrow> seen (il_clients s') k' = None"
    using e(3) by (simp add: seen_def)
  show "k' \<noteq> k \<Longrightarrow> seen (il_clients s) k' = Some (l, t) \<Longrightarrow> now - t \<le> ttl \<Longrightarrow> seen (il_clients s') k' = Some (l, t)"
    using e(3) wf by (auto simp: seen_def)
qed

lemma tenant_cleanup_entries:
  assumes "iter_order (tl_entries l) ks"
  shows "tl_entries (tenant_cleanup ks now l) k = (case tl_entries l k of None \<Rightarrow> None
      | Some c \<Rightarrow> if now - cl_lastSeen c > tl_ttl l then None else Some c)"
    and "tl_limit (tenant_cleanup ks now l) = tl_limit l" "tl_burst (tenant_cleanup ks now l) = tl_burst l" "tl_ttl (tenant_cleanup ks now l) = tl_ttl l"
  by (simp_all add: tenant_cleanup_def prune_map_spec(1) [OF assms])

lemma tenant_serve_effect:
  assumes "tenant_serve L s k now ok s'"
  shows "\<exists>l l'. (case tl_entries s k of None \<Rightarrow> l = NewLimiter L (tl_limit s) (tl_burst s) | Some c \<Rightarrow> l = cl_limiter c) \<and>
      Allow L l now = (ok, l') \<and> seen (tl_entries s') k = Some (l', now)"
    and "tl_limit s' = tl_limit s \<and> tl_burst s' = tl_burst s \<and> tl_ttl s' = tl_ttl s"
    and "k' \<noteq> k \<Longrightarrow> tl_entries s' k' = tl_entries s k' \<or>
      (\<exists>c. tl_entries s k' = Some c \<and> now - cl_lastSeen c > tl_ttl s \<and> tl_entries s' k' = None)"
proof -
  obtain ctx d ks where ks: "iter_order (tl_entries s) ks" "tenant_key ctx d = k" "trim_space k \<noteq> []"
    and w: "withTenantRateLimit L (Some s) ctx d ks now = (ok, Some s')" using assms by (auto simp: tenant_serve_def)
  note c = tenant_cleanup_entries [OF ks(1), of now]
  from w ks(2,3) show "tl_limit s' = tl_limit s \<and> tl_burst s' = tl_burst s \<and> tl_ttl s' = tl_ttl s"
    by (auto simp: withTenantRateLimit_def tenant_get_def c Let_def split: prod.splits option.splits)
  from w ks(2,3) show "k' \<noteq> k \<Longrightarrow> tl_entries s' k' = tl_entries s k' \<or>
      (\<exists>c. tl_entries s k' = Some c \<and> now - cl_lastSeen c > tl_ttl s \<and> tl_entries s' k' = None)"
    by (auto simp: withTenantRateLimit_def tenant_get_def c Let_def split: prod.splits option.splits)
  from w ks(2,3) show "\<exists>l l'. (case tl_entries s k of None \<Rightarrow> l = NewLimiter L (tl_limit s) (tl_burst s) | Some c \<Rightarrow> l = cl_limiter c) \<and>
      Allow L l now = (ok, l') \<and> seen (tl_entries s') k = Some (l', now)"
    by (auto simp: withTenantRateLimit_def tenant_get_def c(2-) seen_def Let_def split: prod.splits option.splits)
qed

interpretation tenants: keyed_limiters "tenant_serve L" "\<lambda>s. seen (tl_entries s)" "NewLimiter L limit burst" "Allow L" ttl
  "\<lambda>s. tl_limit s = limit \<and> tl_burst s = burst \<and> tl_ttl s = ttl" for L limit burst ttl
proof unfold_locales
  fix s s' :: "('a, 'b) tenant_limiter" and k now ok l t k'
  assume serve: "tenant_serve L s k now ok s'"
  note e = tenant_serve_effect [OF serve]
  assume wf: "tl_limit s = limit \<and> tl_burst s = burst \<and> tl_ttl s = ttl"
  show "tl_limit s' = limit \<and> tl_burst s' = burst \<and> tl_ttl s' = ttl" using e(2) wf by simp
  show "seen (tl_entries s) k = Some (l, t) \<Longrightarrow> now - t \<le> ttl \<Longrightarrow> \<exists>l'. Allow L l now = (ok, l') \<and> seen (tl_entries s') k = Some (l', now)"
    using e(1) by (auto simp: seen_def)
  show "seen (tl_entries s) k = None \<Longrightarrow> \<exists>l'. Allow L (NewLimiter L limit burst) now = (ok, l') \<and> seen (tl_entries s') k = Some (l', now)"
    using e(1) wf by (auto simp: seen_def)
  show "k' \<noteq> k \<Longrightarrow> seen (tl_entries s) k' = None \<Longrightarrow> seen (tl_entries s') k' = None"
    using e(3) [of k'] by (auto simp: seen_def)
  show "k' \<noteq> k \<Longrightarrow> seen (tl_entries s) k' = Some (l, t) \<Longrightarrow> now - t \<le> ttl \<Longrightarrow> seen (tl_entries s') k' = Some (l, t)"
    using e(3) wf by (force simp: seen_def)
qed

text \<open>A sequence of requests: remote address, instant and whether it was let through.\<close>

inductive ip_requests :: "('r, 'l) rate_lib \<Rightarrow> ('r, 'l) ip_limiter \<Rightarrow> (string \<times> instant \<times> bool) list \<Rightarrow> ('r, 'l) ip_limiter \<Rightarrow> bool"
  for L where
  none: "ip_requests L l [] l"
| one: "iter_order (il_clients l) ks \<Longrightarrow> withRateLimit L (Some l) addr ks now = (ok, Some l') \<Longrightarrow>
    ip_requests L l' tr l'' \<Longrightarrow> ip_requests L l ((addr, now, ok) # tr) l''"

lemma ip_requests_served:
  assumes "ip_requests L l tr l'"
  shows "ips.served L l (map (\<lambda>(a, x). (client_key a, x)) tr) l'"
  using assms
proof (induction rule: ip_requests.induct)
  case (one l ks addr now ok l' tr l'')
  then have "ip_serve L l (client_key addr) now ok l'" by (auto simp: ip_serve_def)
  with one.IH show ?case by (auto intro: ips.served_Cons)
qed (auto intro: ips.served_Nil)

text \<open>C29. Requests are limited per client host: whatever other clients do, the requests of one host,
  as long as no two consecutive ones are further apart than the time to live, are let through or
  refused exactly as one rate limiter of the configured rate and burst would decide on their
  instants.\<close>

theorem one_limiter_per_client:
  assumes "ip_requests L (newIPLimiter limit burst ttl t0) tr l"
    and "sorted (map (\<lambda>x. fst (snd x)) tr)"
    and "mine = filter (\<lambda>x. client_key (fst x) = host) tr"
    and "gaps_within ttl (map (\<lambda>x. fst (snd x)) mine)"
  shows "map (\<lambda>x. snd (snd x)) mine = decisions (Allow L) (NewLimiter L limit burst) (map (\<lambda>x. fst (snd x)) mine)"
proof -
  let ?l0 = "newIPLimiter limit burst ttl t0" and ?tr = "map (\<lambda>(a, x). (client_key a, x)) tr"
  have wf: "il_limit ?l0 = limit \<and> il_burst ?l0 = burst \<and> il_ttl ?l0 = ttl" and e: "seen (il_clients ?l0) host = None"
    by (simp_all add: newIPLimiter_def seen_def)
  have mine: "filter (\<lambda>x. fst x = host) ?tr = map (\<lambda>(a, x). (client_key a, x)) mine"
    unfolding assms(3) by (simp add: filter_map o_def case_prod_beta)
  from ips.served_fresh [OF ip_requests_served [OF assms(1)] wf _ e] assms(2,4)
  show ?thesis unfolding mine by (simp add: o_def case_prod_beta)
qed

text \<open>A limiter of two requests, for any two clients.\<close>

definition two_lib :: "(int, int) rate_lib" where
  "two_lib = \<lparr>NewLimiter = (\<lambda>r b. b), Allow = (\<lambda>l t. if l > 0 then (True, l - 1) else (False, l))\<rparr>"

theorem one_limiter_per_client_witness:
  "\<exists>l b1 b2 b3. ip_requests two_lib (newIPLimiter 1 1 60 0) [(''10.0.0.1:5'', 1, b1), (''10.0.0.2:7'', 2, b2), (''10.0.0.1:6'', 3, b3)] l \<and>
     [b1, b3] = [True, False]"
proof -
  let ?l0 = "newIPLimiter 1 1 60 0 :: (int, int) ip_limiter"
  have k: "client_key ''10.0.0.1:5'' = ''10.0.0.1''" "client_key ''10.0.0.2:7'' = ''10.0.0.2''" "client_key ''10.0.0.1:6'' = ''10.0.0.1''"
    by code_simp+
  have step: "\<exists>ks b l'. iter_order (il_clients l) ks \<and> withRateLimit two_lib (Some l) a ks t = (b, Some l') \<and> finite (dom (il_clients l'))"
    if fin: "finite (dom (il_clients l))" for l :: "(int, int) ip_limiter" and a t
  proof -
    obtain ks where ks: "iter_order (il_clients l) ks" using finite_distinct_list [OF fin] by (auto simp: iter_order_def)
    obtain b r where w: "withRateLimit two_lib (Some l) a ks t = (b, r)" by fastforce
    then obtain l' where r: "r = Some l'" by (auto simp: withRateLimit_def Let_def split: prod.splits)
    have "ip_serve two_lib l (client_key a) t b l'" using ks w r by (auto simp: ip_serve_def)
    from ip_serve_effect(3) [OF this] have "dom (il_clients l') \<subseteq> insert (client_key a) (dom (il_clients l))"
      by (force split: option.splits if_splits)
    then have "finite (dom (il_clients l'))" using fin by (simp add: finite_subset)
    with ks w r show ?thesis by blast
  qed
  have "finite (dom (il_clients ?l0))" by (simp add: newIPLimiter_def)
  from step [OF this, of "''10.0.0.1:5''" 1] obtain ks1 b1 l1 where 1: "iter_order (il_clients ?l0) ks1"
    "withRateLimit two_lib (Some ?l0) ''10.0.0.1:5'' ks1 1 = (b1, Some l1)" "finite (dom (il_clients l1))" by blast
  from step [OF this(3), of "''10.0.0.2:7''" 2] obtain ks2 b2 l2 where 2: "iter_order (il_clients l1) ks2"
    "withRateLimit two_lib (Some l1) ''10.0.0.2:7'' ks2 2 = (b2, Some l2)" "finite (dom (il_clients l2))" by blast
  from step [OF this(3), of "''10.0.0.1:6''" 3] obtain ks3 b3 l3 where 3: "iter_order (il_clients l2) ks3"
    "withRateLimit two_lib (Some l2) ''10.0.0.1:6'' ks3 3 = (b3, Some l3)" by blast
  have run: "ip_requests two_lib ?l0 [(''10.0.0.1:5'', 1, b1), (''10.0.0.2:7'', 2, b2), (''10.0.0.1:6'', 3, b3)] l3"
    using 1(1,2) 2(1,2) 3 by (blast intro: ip_requests.intros)
  from one_limiter_per_client [OF run _ refl, of "''10.0.0.1''"] have "[b1, b3] = [True, False]"
    by (simp add: k two_lib_def)
  with run show ?thesis by blast
qed

section \<open>The window of metrics\<close>

text \<open>The buffer holds the latest points, up to its size, and \<open>metrics_last\<close> the latest of these.\<close>

lemma metrics_window:
  "mb_buf (foldl metrics_push (newMetricsBuf cap) ps) = drop (length ps - cap) ps \<and>
   mb_maxLen (foldl metrics_push (newMetricsBuf cap) ps) = cap"
proof (induction ps rule: rev_induct)
  case (snoc p ps)
  then show ?case by (cases "cap \<le> length ps") (simp_all add: metrics_push_def Suc_diff_le)
qed (simp add: newMetricsBuf_def)

lemma metrics_last_latest:
  "metrics_last (foldl metrics_push (newMetricsBuf cap) ps) n =
     drop (length ps - min cap (if n \<le> 0 then length ps else nat n)) ps"
proof -
  let ?l = "length ps - (length ps - cap)"
  have "?l - (if n \<le> 0 \<or> n > int ?l then ?l else nat n) + (length ps - cap) = length ps - min cap (if n \<le> 0 then length ps else nat n)"
    by (cases "cap \<le> length ps") auto
  then show ?thesis using metrics_window [of cap ps] by (simp add: metrics_last_def Let_def)
qed

end
