(* ===== verification/AuditLog.thy ===== *)
theory AuditLog
  imports MemBolt Crypto
begin

text \<open>
  The audit log, \<^verbatim>\<open>pkg/store/audit.go\<close>: entries in a bucket of their own under the
  big-endian bytes of a sequence number, listed from the newest.
\<close>

section \<open>The log\<close>

record audit_entry =
  ae_ID :: uint64
  ae_Timestamp :: instant
  ae_Tenant :: string
  ae_Method :: string
  ae_Path :: string
  ae_Status :: int
  ae_Detail :: string

definition audit_path :: "string list" where
  "audit_path = [''audit'']"

definition audit_fields :: "audit_entry \<Rightarrow> (string \<times> json) list" where
  "audit_fields e =
     [(''id'', JInt (uint (ae_ID e))), (''timestamp'', JTime (ae_Timestamp e)), (''tenant'', JStr (ae_Tenant e)),
      (''method'', JStr (ae_Method e)), (''path'', JStr (ae_Path e)), (''status'', JInt (ae_Status e))] @
     opt_str ''detail'' (ae_Detail e)"

definition marshal_audit :: "audit_entry \<Rightarrow> json" where
  "marshal_audit e = JObj (audit_fields e)"

definition audit_of_fields :: "(string \<times> json) list \<Rightarrow> audit_entry option" where
  "audit_of_fields fs =
     (case (as_uint (field fs ''id''), as_time (field fs ''timestamp''), as_str (field fs ''tenant''), as_str (field fs ''method''),
            as_str (field fs ''path''), as_int (field fs ''status''), as_str (field fs ''detail''))
      of (Some i, Some t, Some n, Some m, Some p, Some s, Some d) \<Rightarrow>
           Some \<lparr>ae_ID = i, ae_Timestamp = t, ae_Tenant = n, ae_Method = m, ae_Path = p, ae_Status = s, ae_Detail = d\<rparr>
       | _ \<Rightarrow> None)"

fun unmarshal_audit :: "blob \<Rightarrow> audit_entry option" where
  "unmarshal_audit (Doc (JObj fs)) = audit_of_fields fs"
| "unmarshal_audit (Doc JNull) = audit_of_fields []"
| "unmarshal_audit _ = None"

text \<open>A failing \<^verbatim>\<open>NextSequence\<close> is ignored and its number is then 0.\<close>

definition audit_seq :: "'db bolt \<Rightarrow> 'db \<Rightarrow> uint64 \<times> 'db" where
  "audit_seq B tx = (case next_sequence B tx audit_path of Inl e \<Rightarrow> (0, tx) | Inr tx' \<Rightarrow> (sequence B tx' audit_path, tx'))"

definition store_AuditRecord :: "'db bolt \<Rightarrow> 'db \<Rightarrow> audit_entry \<Rightarrow> instant \<Rightarrow> string option \<times> 'db" where
  "store_AuditRecord B db e now = db_update B (\<lambda>tx.
     case create_bucket B tx audit_path of Inl err \<Rightarrow> Inl err
     | Inr tx1 \<Rightarrow>
         (case audit_seq B tx1 of (i, tx2) \<Rightarrow>
            let e' = e\<lparr>ae_ID := i, ae_Timestamp := (if ae_Timestamp e = zero_time then now else ae_Timestamp e)\<rparr>
            in bput B tx2 audit_path (be_bytes 8 (unat i)) (Doc (marshal_audit e')))) db"

text \<open>The loop over the cursor from the last key down; \<open>kvs\<close> is what the cursor has yet to visit.\<close>

fun audit_loop :: "string \<Rightarrow> int \<Rightarrow> blob list \<Rightarrow> audit_entry list \<Rightarrow> audit_entry list" where
  "audit_loop tenant limit [] entries = entries"
| "audit_loop tenant limit (v # vs) entries =
     (if int (length entries) < limit then
        (case unmarshal_audit v of None \<Rightarrow> audit_loop tenant limit vs entries
         | Some e \<Rightarrow> if tenant \<noteq> [] \<and> ae_Tenant e \<noteq> tenant then audit_loop tenant limit vs entries
                    else audit_loop tenant limit vs (entries @ [e]))
      else entries)"

definition store_AuditList :: "'db bolt \<Rightarrow> 'db \<Rightarrow> string \<Rightarrow> int \<Rightarrow> string + audit_entry list" where
  "store_AuditList B db tenant limit =
     (let limit' = (if limit \<le> 0 then 100 else limit)
      in store_view B db (\<lambda>tx.
           if \<not> has_bucket B tx audit_path then Inr []
           else Inr (audit_loop tenant limit' (map (\<lambda>k. the (bget B tx audit_path k)) (rev (bkeys B tx audit_path))) [])))"

section \<open>Big-endian keys sort by number\<close>

lemma be_bytes_Suc: "be_bytes (Suc k) n = char_of (n div 256 ^ k) # be_bytes k n"
proof -
  have "map (\<lambda>i. char_of (n div 256 ^ (k - i)) :: char) [1..<Suc k] = map (\<lambda>i. char_of (n div 256 ^ (k - 1 - i))) [0..<k]"
    by (intro nth_equalityI) (simp_all add: nth_append del: upt_Suc)
  moreover have "[0..<Suc k] = 0 # [1..<Suc k]" by (simp add: upt_conv_Cons del: upt_Suc)
  ultimately show ?thesis by (simp add: be_bytes_def del: upt_Suc)
qed

lemma char_of_mod: "(char_of (n mod 256) :: char) = char_of n"
  by (simp add: char_of_mod_256)

lemma be_bytes_mod: "be_bytes k (n mod 256 ^ k) = be_bytes k n"
proof -
  have "(char_of (n mod 256 ^ k div 256 ^ (k - 1 - i)) :: char) = char_of (n div 256 ^ (k - 1 - i))" if "i < k" for i
  proof -
    have k: "(256 :: nat) ^ k = 256 ^ (k - 1 - i) * 256 ^ Suc i" using that by (simp flip: power_add power_Suc)
    have "n mod 256 ^ k div 256 ^ (k - 1 - i) = n div 256 ^ (k - 1 - i) mod 256 ^ Suc i"
      unfolding k by (metis div_mult2_eq mod_mult2_eq nonzero_mult_div_cancel_left power_not_zero div_add mod_div_trivial add.commute
        dvd_triv_left add_0 div_mult_self2 zero_neq_numeral)
    then have "n mod 256 ^ k div 256 ^ (k - 1 - i) mod 256 = n div 256 ^ (k - 1 - i) mod 256"
      by (simp add: mod_mod_cancel)
    then show ?thesis by (metis char_of_mod)
  qed
  then show ?thesis by (simp add: be_bytes_def)
qed

lemma be_bytes_less: "m < n \<Longrightarrow> n < 256 ^ k \<Longrightarrow> be_bytes k m < be_bytes k n"
proof (induction k arbitrary: m n)
  case (Suc k)
  let ?a = "m div 256 ^ k" and ?b = "n div 256 ^ k"
  have b: "?b < 256" using Suc.prems(2) by (simp add: less_mult_imp_div_less)
  have le: "?a \<le> ?b" using Suc.prems(1) by (simp add: div_le_mono)
  show ?case
  proof (cases "?a = ?b")
    case True
    then have "m mod 256 ^ k < n mod 256 ^ k" using Suc.prems(1) by (metis div_mult_mod_eq nat_add_left_cancel_less)
    then have "be_bytes k (m mod 256 ^ k) < be_bytes k (n mod 256 ^ k)" by (rule Suc.IH) simp
    with True show ?thesis by (simp add: be_bytes_Suc be_bytes_mod)
  next
    case False
    with le b have "(char_of ?a :: char) < char_of ?b" by (simp add: less_char_def)
    then show ?thesis by (simp add: be_bytes_Suc)
  qed
qed simp

lemma be_bytes_inj: "inj_on (be_bytes k) {..< 256 ^ k}"
  by (rule inj_onI) (metis be_bytes_less lessThan_iff less_irrefl linorder_neqE_nat)

lemma sorted_keys:
  assumes "n < 256 ^ k" "sorted ks" "distinct ks" "set ks = be_bytes k ` {1..n}"
  shows "ks = map (be_bytes k) [1..<Suc n]"
proof (rule sorted_distinct_set_unique [OF assms(2,3)])
  show "sorted (map (be_bytes k) [1..<Suc n])"
    using assms(1) be_bytes_less [of _ _ k] by (auto simp: sorted_iff_nth_mono le_less simp del: upt_Suc)
  show "distinct (map (be_bytes k) [1..<Suc n])"
    using assms(1) by (auto simp: distinct_map simp del: upt_Suc intro!: inj_on_subset [OF be_bytes_inj])
  show "set ks = set (map (be_bytes k) [1..<Suc n])"
    unfolding assms(4) by (simp add: atLeastLessThanSuc_atLeastAtMost del: upt_Suc)
qed

section \<open>The log as a list\<close>

lemma audit_lookups:
  "as_uint (field (audit_fields e) ''id'') = Some (ae_ID e)"
  "as_time (field (audit_fields e) ''timestamp'') = Some (ae_Timestamp e)"
  "as_str (field (audit_fields e) ''tenant'') = Some (ae_Tenant e)"
  "as_str (field (audit_fields e) ''method'') = Some (ae_Method e)"
  "as_str (field (audit_fields e) ''path'') = Some (ae_Path e)"
  "is_i64 (ae_Status e) \<Longrightarrow> as_int (field (audit_fields e) ''status'') = Some (ae_Status e)"
  "as_str (field (audit_fields e) ''detail'') = Some (ae_Detail e)"
  unfolding audit_fields_def by (simp_all add: json_field image_Un del: as_uint.simps)

lemma unmarshal_marshal_audit: "is_i64 (ae_Status e) \<Longrightarrow> unmarshal_audit (Doc (marshal_audit e)) = Some e"
  by (simp add: marshal_audit_def audit_of_fields_def audit_lookups)

lemma audit_loop_take:
  assumes "\<forall>e \<in> set es. is_i64 (ae_Status e)" "limit > 0"
  shows "audit_loop tenant limit (map (\<lambda>e. Doc (marshal_audit e)) es) acc =
    acc @ take (nat limit - length acc) (filter (\<lambda>e. tenant = [] \<or> ae_Tenant e = tenant) es)"
  using assms(1)
proof (induction es arbitrary: acc)
  case (Cons e es)
  have "unmarshal_audit (Doc (marshal_audit e)) = Some e" using Cons.prems by (simp add: unmarshal_marshal_audit)
  with Cons assms(2) show ?case
    by (cases "int (length acc) < limit") (auto simp: take_Cons' Suc_diff_le)
qed simp

text \<open>The state of the log: the entries, oldest first, under their numbers.\<close>

definition log_holds :: "'db bolt \<Rightarrow> 'db \<Rightarrow> audit_entry list \<Rightarrow> bool" where
  "log_holds B db es \<longleftrightarrow> sequence B db audit_path = word_of_nat (length es) \<and>
     dom (bget B db audit_path) = be_bytes 8 ` {1..length es} \<and>
     (\<forall>i < length es. bget B db audit_path (be_bytes 8 (Suc i)) = Some (Doc (marshal_audit (es ! i))) \<and> is_i64 (ae_Status (es ! i)))"

definition numbered_entry :: "nat \<Rightarrow> audit_entry \<Rightarrow> instant \<Rightarrow> audit_entry" where
  "numbered_entry n e now = e\<lparr>ae_ID := word_of_nat (Suc n), ae_Timestamp := (if ae_Timestamp e = zero_time then now else ae_Timestamp e)\<rparr>"

lemma AuditRecord_log:
  assumes "bolt_ok B" "\<And>db p. \<exists>db'. next_sequence B db p = Inr db'" "log_holds B db es" "Suc (length es) < 2 ^ 64"
    and "is_i64 (ae_Status e)" "store_AuditRecord B db e now = (r, db')"
  shows "log_holds B db' (if r = None then es @ [numbered_entry (length es) e now] else es)"
proof (cases r)
  case (Some err)
  with assms(3,6) db_update_Some [OF assms(1)] show ?thesis by (auto simp: store_AuditRecord_def)
next
  case None
  let ?e = "numbered_entry (length es) e now" and ?n = "Suc (length es)"
  from assms(6) None db_update_None [OF assms(1)] obtain tx1 tx2 where tx: "create_bucket B db audit_path = Inr tx1"
    "next_sequence B tx1 audit_path = Inr tx2"
    "bput B tx2 audit_path (be_bytes 8 (unat (sequence B tx2 audit_path)))
       (Doc (marshal_audit (e\<lparr>ae_ID := sequence B tx2 audit_path, ae_Timestamp := (if ae_Timestamp e = zero_time then now else ae_Timestamp e)\<rparr>))) = Inr db'"
    using assms(2) [of _ audit_path] by (fastforce simp: store_AuditRecord_def audit_seq_def Let_def split: sum.splits)
  have seq: "sequence B tx2 audit_path = word_of_nat ?n" "sequence B db' = sequence B tx2" and get2: "bget B tx2 = bget B db"
    using tx assms(1,3) create_bucketD(2) [OF assms(1) tx(1)]
    by (auto simp: bolt_ok_def sequence_law_def log_holds_def add.commute)
  have n: "unat (word_of_nat ?n :: uint64) = ?n" using assms(4) by (simp add: unat_of_nat take_bit_nat_eq_self del: of_nat_Suc)
  have get: "bget B db' audit_path = (bget B db audit_path)(be_bytes 8 ?n \<mapsto> Doc (marshal_audit ?e))"
    using bputD(2) [OF assms(1) tx(3)] unfolding get2 seq(1) n numbered_entry_def by (simp only: fun_upd_same)
  have inj: "be_bytes 8 (Suc i) \<noteq> be_bytes 8 ?n" if "i < length es" for i
    using be_bytes_less [of "Suc i" ?n 8] that assms(4) by (auto simp: less_imp_neq)
  have "dom (bget B db' audit_path) = be_bytes 8 ` {1..?n}"
    using assms(3) get by (auto simp: log_holds_def atLeastAtMostSuc_conv)
  moreover have "bget B db' audit_path (be_bytes 8 (Suc i)) = Some (Doc (marshal_audit ((es @ [?e]) ! i))) \<and> is_i64 (ae_Status ((es @ [?e]) ! i))"
    if "i < ?n" for i
    using assms(3,5) get inj that by (auto simp: log_holds_def nth_append less_Suc_eq numbered_entry_def)
  ultimately show ?thesis using None seq by (simp add: log_holds_def)
qed

lemma AuditList_log:
  assumes "bolt_ok B" "view_error B db = None" "log_holds B db es" "length es < 2 ^ 64"
  shows "store_AuditList B db tenant limit =
    Inr (take (if limit \<le> 0 then 100 else nat limit) (filter (\<lambda>e. tenant = [] \<or> ae_Tenant e = tenant) (rev es)))"
proof -
  let ?ks = "bkeys B db audit_path"
  have "?ks = map (be_bytes 8) [1..<Suc (length es)]"
    by (rule sorted_keys) (use bkeysD [OF assms(1), of db audit_path] assms(3,4) in \<open>simp_all add: log_holds_def\<close>)
  moreover have "map (\<lambda>k. the (bget B db audit_path k)) (map (be_bytes 8) [1..<Suc (length es)]) = map (\<lambda>e. Doc (marshal_audit e)) es"
    using assms(3) by (intro nth_equalityI) (simp_all add: log_holds_def del: upt_Suc)
  ultimately have vals: "map (\<lambda>k. the (bget B db audit_path k)) (rev ?ks) = map (\<lambda>e. Doc (marshal_audit e)) (rev es)"
    by (metis rev_map)
  have i64: "\<forall>e \<in> set (rev es). is_i64 (ae_Status e)" using assms(3) by (auto simp: log_holds_def in_set_conv_nth)
  show ?thesis
  proof (cases "has_bucket B db audit_path")
    case True
    with audit_loop_take [OF i64, of "if limit \<le> 0 then 100 else limit" tenant "[]"] vals assms(2) show ?thesis
      by (simp add: store_AuditList_def store_view_def Let_def)
  next
    case False
    then have "dom (bget B db audit_path) = {}" using bget_no_bucket [OF assms(1)] by auto
    then have "es = []" using assms(3) by (auto simp: log_holds_def)
    with False assms(2) show ?thesis by (simp add: store_AuditList_def store_view_def Let_def)
  qed
qed

text \<open>A sequence of calls, each at an instant, and the entries of those that succeeded.\<close>

fun audit_calls :: "'db bolt \<Rightarrow> 'db \<Rightarrow> (audit_entry \<times> instant) list \<Rightarrow> string option list \<times> 'db" where
  "audit_calls B db [] = ([], db)"
| "audit_calls B db ((e, now) # calls) =
     (case store_AuditRecord B db e now of (r, db1) \<Rightarrow> (case audit_calls B db1 calls of (rs, db2) \<Rightarrow> (r # rs, db2)))"

fun recorded :: "nat \<Rightarrow> (audit_entry \<times> instant) list \<Rightarrow> string option list \<Rightarrow> audit_entry list" where
  "recorded n ((e, now) # calls) (r # rs) =
     (if r = None then numbered_entry n e now # recorded (Suc n) calls rs else recorded n calls rs)"
| "recorded n _ _ = []"

lemma audit_calls_log:
  assumes "bolt_ok B" "\<And>db p. \<exists>db'. next_sequence B db p = Inr db'" "log_holds B db es" "length es + length calls < 2 ^ 64"
    and "\<forall>(e, now) \<in> set calls. is_i64 (ae_Status e)" "audit_calls B db calls = (rs, db')"
  shows "log_holds B db' (es @ recorded (length es) calls rs) \<and> length (recorded (length es) calls rs) \<le> length calls"
  using assms(3-)
proof (induction calls arbitrary: db es rs)
  case (Cons c calls)
  obtain e now where c: "c = (e, now)" by fastforce
  obtain r db1 where r: "store_AuditRecord B db e now = (r, db1)" by fastforce
  obtain rs1 where rs: "audit_calls B db1 calls = (rs1, db')" "rs = r # rs1"
    using Cons.prems(4) c r by (auto split: prod.splits)
  let ?es = "if r = None then es @ [numbered_entry (length es) e now] else es"
  have "log_holds B db1 ?es"
    by (rule AuditRecord_log [OF assms(1,2) Cons.prems(1) _ _ r]) (use Cons.prems(2,3) c in auto)
  moreover have "length ?es + length calls < 2 ^ 64" using Cons.prems(2) by auto
  ultimately have "log_holds B db' (?es @ recorded (length ?es) calls rs1) \<and> length (recorded (length ?es) calls rs1) \<le> length calls"
    using Cons.prems(3) rs(1) by (intro Cons.IH) auto
  then show ?case using c rs(2) by (auto split: if_splits)
qed simp



end
