(* ===== verification/Middleware.thy ===== *)
theory Middleware
  imports Auth RateLimit AuditLog
begin

text \<open>
  The chain of middlewares around the server's routes, \<^verbatim>\<open>newHandler\<close>'s last lines and the
  functions they call (\<^verbatim>\<open>cmd/spectral-cloud/main.go\<close>, \<^verbatim>\<open>middleware.go\<close>,
  \<^verbatim>\<open>tenant.go\<close>).

  A handler takes a request, the request's context and the state of the server and either writes a
  status or panics. A context is immutable: \<^verbatim>\<open>r.WithContext\<close> makes a new request, so what a
  middleware puts into the context is seen by the handlers inside it only, never by those around it.
  The clock is read once for each request; the random bytes and the orders of the map iterations
  are part of \<open>request_env\<close>. Log lines and the latency histogram have no effect in the model.
\<close>

section \<open>Handlers\<close>

datatype outcome = Status int | Panic

record req_context =
  cx_tenant :: "string option"
  cx_auth :: "request_auth option"

record web_request =
  wq_http :: http_request
  wq_Origin :: string
  wq_RequestID :: string

record request_env =
  en_now :: instant
  en_clientOrder :: "string list"
  en_tenantOrder :: "string list"
  en_random :: "string option"

record ('db, 'r, 'l, 'a) server =
  sv_db :: 'db
  sv_meter :: meter
  sv_clients :: "('r, 'l) ip_limiter option"
  sv_tenants :: "('r, 'l) tenant_limiter option"
  sv_requests :: "string \<times> string \<times> int \<Rightarrow> nat"
  sv_touched :: "(string \<times> string) list"
  sv_header :: "string \<rightharpoonup> string list"
  sv_app :: 'a

type_synonym ('db, 'r, 'l, 'a) handler =
  "web_request \<Rightarrow> req_context \<Rightarrow> ('db, 'r, 'l, 'a) server \<Rightarrow> outcome \<times> ('db, 'r, 'l, 'a) server"

text \<open>A request as it comes from the network: its context has neither a tenant nor a principal.\<close>

definition background :: req_context where
  "background = \<lparr>cx_tenant = None, cx_auth = None\<rparr>"

definition withTenant :: "req_context \<Rightarrow> string \<Rightarrow> req_context" where
  "withTenant ctx tenant = ctx\<lparr>cx_tenant := Some tenant\<rparr>"

definition withRequestAuth :: "req_context \<Rightarrow> request_auth \<Rightarrow> req_context" where
  "withRequestAuth ctx info = ctx\<lparr>cx_auth := Some info\<rparr>"

definition tenantFromContext :: "req_context \<Rightarrow> string option" where
  "tenantFromContext ctx = cx_tenant ctx"

definition requestAuthFromContext :: "req_context \<Rightarrow> request_auth option" where
  "requestAuthFromContext ctx = cx_auth ctx"

definition header_set :: "string \<Rightarrow> string \<Rightarrow> ('db, 'r, 'l, 'a) server \<Rightarrow> ('db, 'r, 'l, 'a) server" where
  "header_set k v w = w\<lparr>sv_header := (sv_header w)(k \<mapsto> [v])\<rparr>"

definition header_add :: "string \<Rightarrow> string \<Rightarrow> ('db, 'r, 'l, 'a) server \<Rightarrow> ('db, 'r, 'l, 'a) server" where
  "header_add k v w = w\<lparr>sv_header := (sv_header w)(k \<mapsto> (case sv_header w k of None \<Rightarrow> [] | Some vs \<Rightarrow> vs) @ [v])\<rparr>"

definition writeError :: "int \<Rightarrow> ('db, 'r, 'l, 'a) server \<Rightarrow> outcome \<times> ('db, 'r, 'l, 'a) server" where
  "writeError code w = (Status code, header_set ''Content-Type'' ''application/json'' w)"

section \<open>The middlewares\<close>

text \<open>The principal \<open>withAuth\<close> or a sub-key gives goes into the context of the routes; recording the
  use of a sub-key is a goroutine, noted in \<open>sv_touched\<close>.\<close>

definition handle_DynAuth ::
    "'db bolt \<Rightarrow> auth_config \<Rightarrow> ('db, 'r, 'l, 'a) handler \<Rightarrow> ('db, 'r, 'l, 'a) handler" where
  "handle_DynAuth B cfg next_handler rq ctx w =
     (case withDynAuth B (sv_db w) cfg (wq_http rq) of (res, touch) \<Rightarrow>
        let w1 = w\<lparr>sv_touched := sv_touched w @ (case touch of None \<Rightarrow> [] | Some t \<Rightarrow> [t])\<rparr>
        in case res of
             Rejected code msg \<Rightarrow> writeError (int code) w1
           | Served tenant info \<Rightarrow>
               let c1 = (case tenant of None \<Rightarrow> ctx | Some t \<Rightarrow> withTenant ctx t);
                   c2 = (case info of None \<Rightarrow> c1 | Some i \<Rightarrow> withRequestAuth c1 i)
               in next_handler rq c2 w1)"

definition handle_Audit ::
    "'db bolt \<Rightarrow> string \<Rightarrow> request_env \<Rightarrow> ('db, 'r, 'l, 'a) handler \<Rightarrow> ('db, 'r, 'l, 'a) handler" where
  "handle_Audit B dflt env next_handler rq ctx w =
     (if hr_Method (wq_http rq) \<in> set [''GET'', ''HEAD'', ''OPTIONS''] then next_handler rq ctx w
      else case next_handler rq ctx w of
        (Panic, w1) \<Rightarrow> (Panic, w1)
      | (Status s, w1) \<Rightarrow>
          let entry = \<lparr>ae_ID = 0, ae_Timestamp = zero_time, ae_Tenant = tenant_key (tenantFromContext ctx) dflt,
                ae_Method = hr_Method (wq_http rq), ae_Path = hr_Path (wq_http rq), ae_Status = s, ae_Detail = []\<rparr>
          in (Status s, w1\<lparr>sv_db := snd (store_AuditRecord B (sv_db w1) entry (en_now env))\<rparr>))"

definition handle_TenantRateLimit ::
    "('r, 'l) rate_lib \<Rightarrow> string \<Rightarrow> request_env \<Rightarrow> ('db, 'r, 'l, 'a) handler \<Rightarrow> ('db, 'r, 'l, 'a) handler" where
  "handle_TenantRateLimit L dflt env next_handler rq ctx w =
     (case withTenantRateLimit L (sv_tenants w) (tenantFromContext ctx) dflt (en_tenantOrder env) (en_now env) of (ok, l) \<Rightarrow>
        if ok then next_handler rq ctx (w\<lparr>sv_tenants := l\<rparr>) else writeError 429 (w\<lparr>sv_tenants := l\<rparr>))"

definition handle_RateLimit ::
    "('r, 'l) rate_lib \<Rightarrow> request_env \<Rightarrow> ('db, 'r, 'l, 'a) handler \<Rightarrow> ('db, 'r, 'l, 'a) handler" where
  "handle_RateLimit L env next_handler rq ctx w =
     (case withRateLimit L (sv_clients w) (hr_RemoteAddr (wq_http rq)) (en_clientOrder env) (en_now env) of (ok, l) \<Rightarrow>
        if ok then next_handler rq ctx (w\<lparr>sv_clients := l\<rparr>) else writeError 429 (w\<lparr>sv_clients := l\<rparr>))"

definition handle_Metrics :: "('db, 'r, 'l, 'a) handler \<Rightarrow> ('db, 'r, 'l, 'a) handler" where
  "handle_Metrics next_handler rq ctx w =
     (case next_handler rq ctx w of
        (Panic, w1) \<Rightarrow> (Panic, w1)
      | (Status s, w1) \<Rightarrow>
          let label = (hr_Path (wq_http rq), hr_Method (wq_http rq), s)
          in (Status s, w1\<lparr>sv_requests := (sv_requests w1)(label := sv_requests w1 label + 1)\<rparr>))"

definition handle_BillingMetrics ::
    "string \<Rightarrow> request_env \<Rightarrow> ('db, 'r, 'l, 'a) handler \<Rightarrow> ('db, 'r, 'l, 'a) handler" where
  "handle_BillingMetrics dflt env next_handler rq ctx w =
     (case next_handler rq ctx w of
        (Panic, w1) \<Rightarrow> (Panic, w1)
      | (Status s, w1) \<Rightarrow>
          let tenant = (case tenantFromContext ctx of None \<Rightarrow> dflt | Some t \<Rightarrow> if t = [] then dflt else t)
          in (Status s, if tenant \<noteq> [] then w1\<lparr>sv_meter := billing_Record (sv_meter w1) tenant MetricAPICalls 1 (en_now env)\<rparr> else w1))"

record cors_config =
  co_allowedOrigins :: "string list"
  co_allowedMethods :: string
  co_allowedHeaders :: string
  co_maxAge :: string
  co_allowAll :: bool

definition parseCORSConfig :: "string \<Rightarrow> string \<Rightarrow> string \<Rightarrow> string \<Rightarrow> cors_config" where
  "parseCORSConfig originsRaw methodsRaw headersRaw maxAgeRaw =
     (let origins = trim_space originsRaw
      in if origins = [] then \<lparr>co_allowedOrigins = [], co_allowedMethods = [], co_allowedHeaders = [], co_maxAge = [], co_allowAll = False\<rparr>
         else \<lparr>co_allowedOrigins = (if origins = ''*'' then [] else filter (\<lambda>s. s \<noteq> []) (map trim_space (split_on (CHR '','') origins))),
               co_allowedMethods = (if trim_space methodsRaw \<noteq> [] then trim_space methodsRaw else ''GET,POST,DELETE,OPTIONS''),
               co_allowedHeaders = (if trim_space headersRaw \<noteq> [] then trim_space headersRaw else ''Authorization,Content-Type,X-API-Key,X-Request-ID''),
               co_maxAge = (if trim_space maxAgeRaw \<noteq> [] then trim_space maxAgeRaw else ''86400''),
               co_allowAll = (origins = ''*'')\<rparr>)"

definition cors_origin_allowed :: "cors_config \<Rightarrow> string \<Rightarrow> bool" where
  "cors_origin_allowed cfg origin \<longleftrightarrow> co_allowAll cfg \<or> list_ex (\<lambda>x. x = origin) (co_allowedOrigins cfg)"

definition cors_headers :: "cors_config \<Rightarrow> string \<Rightarrow> ('db, 'r, 'l, 'a) server \<Rightarrow> ('db, 'r, 'l, 'a) server" where
  "cors_headers cfg origin w =
     (if \<not> cors_origin_allowed cfg origin then w
      else
        let w1 = (if co_allowAll cfg then header_set ''Access-Control-Allow-Origin'' ''*'' w
                  else header_add ''Vary'' ''Origin'' (header_set ''Access-Control-Allow-Origin'' origin w))
        in header_set ''Access-Control-Max-Age'' (co_maxAge cfg)
             (header_set ''Access-Control-Allow-Headers'' (co_allowedHeaders cfg)
               (header_set ''Access-Control-Allow-Methods'' (co_allowedMethods cfg) w1)))"

definition handle_CORS :: "cors_config \<Rightarrow> ('db, 'r, 'l, 'a) handler \<Rightarrow> ('db, 'r, 'l, 'a) handler" where
  "handle_CORS cfg next_handler rq ctx w =
     (if \<not> co_allowAll cfg \<and> co_allowedOrigins cfg = [] then next_handler rq ctx w
      else
        let w1 = cors_headers cfg (wq_Origin rq) w
        in if hr_Method (wq_http rq) = ''OPTIONS'' then (Status 204, w1) else next_handler rq ctx w1)"

definition request_id :: "request_env \<Rightarrow> web_request \<Rightarrow> string" where
  "request_id env rq =
     (let i = trim_space (wq_RequestID rq)
      in if i = [] then (case en_random env of None \<Rightarrow> [] | Some b \<Rightarrow> hex b) else i)"

definition handle_RequestID :: "request_env \<Rightarrow> ('db, 'r, 'l, 'a) handler \<Rightarrow> ('db, 'r, 'l, 'a) handler" where
  "handle_RequestID env next_handler rq ctx w =
     (let i = request_id env rq
      in next_handler (rq\<lparr>wq_RequestID := i\<rparr>) ctx (header_set ''X-Request-ID'' i w))"

definition handle_Recover :: "('db, 'r, 'l, 'a) handler \<Rightarrow> ('db, 'r, 'l, 'a) handler" where
  "handle_Recover next_handler rq ctx w =
     (case next_handler rq ctx w of (Panic, w1) \<Rightarrow> writeError 500 w1 | (Status s, w1) \<Rightarrow> (Status s, w1))"

text \<open>The chain, from the routes outwards.\<close>

definition server_handler ::
    "'db bolt \<Rightarrow> ('r, 'l) rate_lib \<Rightarrow> auth_config \<Rightarrow> cors_config \<Rightarrow> request_env \<Rightarrow>
      ('db, 'r, 'l, 'a) handler \<Rightarrow> ('db, 'r, 'l, 'a) handler" where
  "server_handler B L cfg cors env mux =
     (let h = handle_DynAuth B cfg mux;
          h = handle_Audit B (ac_defaultTenant cfg) env h;
          h = handle_TenantRateLimit L (ac_defaultTenant cfg) env h;
          h = handle_RateLimit L env h;
          h = handle_Metrics h;
          h = handle_BillingMetrics (ac_defaultTenant cfg) env h;
          h = handle_CORS cors h;
          h = handle_RequestID env h
      in handle_Recover h)"

section \<open>What the chain does\<close>

lemma header_simps [simp]:
  "sv_db (header_set k v w) = sv_db w" "sv_meter (header_set k v w) = sv_meter w" "sv_app (header_set k v w) = sv_app w"
  "sv_clients (header_set k v w) = sv_clients w" "sv_tenants (header_set k v w) = sv_tenants w"
  "sv_requests (header_set k v w) = sv_requests w" "sv_touched (header_set k v w) = sv_touched w"
  "sv_db (header_add k v w) = sv_db w" "sv_meter (header_add k v w) = sv_meter w" "sv_app (header_add k v w) = sv_app w"
  "sv_clients (header_add k v w) = sv_clients w" "sv_tenants (header_add k v w) = sv_tenants w"
  "sv_requests (header_add k v w) = sv_requests w" "sv_touched (header_add k v w) = sv_touched w"
  by (simp_all add: header_set_def header_add_def)

lemma cors_simps [simp]:
  "sv_db (cors_headers c i w) = sv_db w" "sv_meter (cors_headers c i w) = sv_meter w" "sv_app (cors_headers c i w) = sv_app w"
  "sv_clients (cors_headers c i w) = sv_clients w" "sv_tenants (cors_headers c i w) = sv_tenants w"
  by (simp_all add: cors_headers_def Let_def)

text \<open>A handler that, run on a state with the given database, neither reaches the routes' state nor
  panics.\<close>

definition keeps_app :: "(('db, 'r, 'l, 'a) server \<Rightarrow> outcome \<times> ('db, 'r, 'l, 'a) server) \<Rightarrow> 'db \<Rightarrow> int set \<Rightarrow> bool" where
  "keeps_app f db codes \<longleftrightarrow> (\<forall>w. sv_db w = db \<longrightarrow> (\<exists>s w'. f w = (Status s, w') \<and> s \<in> codes \<and> sv_app w' = sv_app w))"

lemma keeps_appE:
  assumes "keeps_app f db A" "sv_db w = db"
  obtains s w' where "f w = (Status s, w')" "s \<in> A" "sv_app w' = sv_app w"
  using assms by (auto simp: keeps_app_def)

lemma keeps_appI:
  assumes "\<And>w. sv_db w = db \<Longrightarrow> \<exists>s w'. f w = (Status s, w') \<and> s \<in> A \<and> sv_app w' = sv_app w"
  shows "keeps_app f db A"
  using assms by (simp add: keeps_app_def)

lemma rejected_keeps:
  assumes "withDynAuth B db cfg (wq_http rq) = (Rejected code msg, touch)"
  shows "keeps_app (handle_DynAuth B cfg mux rq ctx) db {int code}"
  using assms by (simp add: keeps_app_def handle_DynAuth_def writeError_def)

lemma audit_keeps:
  fixes h :: "('db, 'r, 'l, 'a) handler"
  assumes "keeps_app (h rq ctx) db A"
  shows "keeps_app (handle_Audit B dflt env h rq ctx) db A"
proof (rule keeps_appI)
  fix w :: "('db, 'r, 'l, 'a) server" assume "sv_db w = db"
  with assms obtain s w' where "h rq ctx w = (Status s, w')" "s \<in> A" "sv_app w' = sv_app w" by (rule keeps_appE)
  then show "\<exists>s w'. handle_Audit B dflt env h rq ctx w = (Status s, w') \<and> s \<in> A \<and> sv_app w' = sv_app w"
    by (simp add: handle_Audit_def Let_def)
qed

lemma limited_keeps:
  assumes "keeps_app g db A" "sv_db (upd w l) = sv_db w" "sv_app (upd w l) = sv_app w" "sv_db w = db"
  shows "\<exists>s w'. (if ok then g (upd w l) else writeError 429 (upd w l)) = (Status s, w') \<and> s \<in> insert 429 A \<and> sv_app w' = sv_app w"
proof -
  have "sv_db (upd w l) = db" using assms(2,4) by simp
  with assms(1) obtain s w' where "g (upd w l) = (Status s, w')" "s \<in> A" "sv_app w' = sv_app (upd w l)" by (rule keeps_appE)
  with assms(3) show ?thesis by (simp add: writeError_def)
qed

lemma limits_keep:
  assumes "keeps_app (h rq ctx) db A"
  shows "keeps_app (handle_TenantRateLimit L dflt env h rq ctx) db (insert 429 A)"
    and "keeps_app (handle_RateLimit L env h rq ctx) db (insert 429 A)"
  using limited_keeps [OF assms, of "\<lambda>w l. w\<lparr>sv_tenants := l\<rparr>"] limited_keeps [OF assms, of "\<lambda>w l. w\<lparr>sv_clients := l\<rparr>"]
  by (auto intro!: keeps_appI simp: handle_TenantRateLimit_def handle_RateLimit_def split: prod.split simp del: insert_iff)

lemma metrics_keep:
  assumes "keeps_app (h rq ctx) db A"
  shows "keeps_app (handle_Metrics h rq ctx) db A" "keeps_app (handle_BillingMetrics dflt env h rq ctx) db A"
proof -
  have "\<exists>s w'. handle_Metrics h rq ctx w = (Status s, w') \<and> s \<in> A \<and> sv_app w' = sv_app w"
    "\<exists>s w'. handle_BillingMetrics dflt env h rq ctx w = (Status s, w') \<and> s \<in> A \<and> sv_app w' = sv_app w" if w: "sv_db w = db" for w
  proof -
    from assms w obtain s w' where "h rq ctx w = (Status s, w')" "s \<in> A" "sv_app w' = sv_app w" by (rule keeps_appE)
    then show "\<exists>s w'. handle_Metrics h rq ctx w = (Status s, w') \<and> s \<in> A \<and> sv_app w' = sv_app w"
      "\<exists>s w'. handle_BillingMetrics dflt env h rq ctx w = (Status s, w') \<and> s \<in> A \<and> sv_app w' = sv_app w"
      by (simp_all add: handle_Metrics_def handle_BillingMetrics_def Let_def)
  qed
  then show "keeps_app (handle_Metrics h rq ctx) db A" "keeps_app (handle_BillingMetrics dflt env h rq ctx) db A"
    by (simp_all add: keeps_app_def)
qed

lemma cors_keeps:
  fixes h :: "('db, 'r, 'l, 'a) handler"
  assumes "keeps_app (h rq ctx) db A"
  shows "keeps_app (handle_CORS cors h rq ctx) db (insert 204 A)"
proof (rule keeps_appI)
  fix w :: "('db, 'r, 'l, 'a) server" assume w: "sv_db w = db"
  have "sv_db (cors_headers cors (wq_Origin rq) w) = db" using w by simp
  with assms obtain s w' where 1: "h rq ctx (cors_headers cors (wq_Origin rq) w) = (Status s, w')" "s \<in> A"
    "sv_app w' = sv_app (cors_headers cors (wq_Origin rq) w)" by (rule keeps_appE)
  from assms w obtain s2 w2 where 2: "h rq ctx w = (Status s2, w2)" "s2 \<in> A" "sv_app w2 = sv_app w" by (rule keeps_appE)
  from 1 2 show "\<exists>s w'. handle_CORS cors h rq ctx w = (Status s, w') \<and> s \<in> insert 204 A \<and> sv_app w' = sv_app w"
    by (simp add: handle_CORS_def Let_def)
qed

text \<open>C11. A request that authentication refuses never reaches the routes: whatever the routes would do
  and whatever the limiters and the cross-origin settings are, the state behind the routes stays as
  it was, and the answer is the refusal's status, 429 from a limiter or 204 to a preflight.\<close>

theorem refused_requests_stop:
  assumes "withDynAuth B (sv_db w) cfg (wq_http rq) = (Rejected code msg, touch)"
  shows "\<exists>s w'. server_handler B L cfg cors env mux rq ctx w = (Status s, w') \<and> s \<in> {int code, 429, 204} \<and> sv_app w' = sv_app w"
proof -
  let ?d = "ac_defaultTenant cfg"
  let ?h = "handle_CORS cors (handle_BillingMetrics ?d env (handle_Metrics (handle_RateLimit L env
     (handle_TenantRateLimit L ?d env (handle_Audit B ?d env (handle_DynAuth B cfg mux))))))"
  have "keeps_app (?h (rq\<lparr>wq_RequestID := i\<rparr>) ctx) (sv_db w) {204, 429, int code}" for i
  proof -
    have "keeps_app (?h (rq\<lparr>wq_RequestID := i\<rparr>) ctx) (sv_db w) (insert 204 (insert 429 (insert 429 {int code})))"
      by (intro cors_keeps metrics_keep limits_keep audit_keeps rejected_keeps) (use assms in simp)
    then show ?thesis by (simp only: insert_absorb2)
  qed
  then have "\<exists>s w'. ?h (rq\<lparr>wq_RequestID := i\<rparr>) ctx (header_set k i w) = (Status s, w') \<and> s \<in> {204, 429, int code} \<and> sv_app w' = sv_app w" for i k
    by (metis header_simps(1,3) keeps_appE)
  then have "\<exists>s w'. handle_RequestID env ?h rq ctx w = (Status s, w') \<and> s \<in> {204, 429, int code} \<and> sv_app w' = sv_app w"
    unfolding handle_RequestID_def Let_def by blast
  then show ?thesis by (auto simp: server_handler_def handle_Recover_def)
qed

theorem refused_requests_stop_witness:
  "\<exists>s w'. server_handler membolt two_lib ex_config (parseCORSConfig [] [] [] []) \<lparr>en_now = 5, en_clientOrder = [], en_tenantOrder = [], en_random = None\<rparr>
     (\<lambda>rq ctx w. (Status 200, w\<lparr>sv_app := 1\<rparr>)) \<lparr>wq_http = ex_http ''/jobs'' ''wrong'' ''10.0.0.1:5'', wq_Origin = [], wq_RequestID = []\<rparr> background
     \<lparr>sv_db = mem0, sv_meter = billing_New 0, sv_clients = None, sv_tenants = None, sv_requests = (\<lambda>_. 0), sv_touched = [], sv_header = Map.empty, sv_app = 0 :: nat\<rparr>
     = (Status s, w') \<and> s \<in> {401, 429, 204} \<and> sv_app w' = 0"
proof -
  let ?rq = "\<lparr>wq_http = ex_http ''/jobs'' ''wrong'' ''10.0.0.1:5'', wq_Origin = [], wq_RequestID = []\<rparr>"
  let ?w = "\<lparr>sv_db = mem0, sv_meter = billing_New 0, sv_clients = None, sv_tenants = None, sv_requests = (\<lambda>_. 0), sv_touched = [], sv_header = Map.empty,
     sv_app = 0 :: nat\<rparr> :: (memdb, int, int, nat) server"
  have "withAuth ex_config (ex_http ''/jobs'' ''wrong'' ''10.0.0.1:5'') = Rejected 401 ''unauthorized''" by code_simp
  moreover have "presented_key (ex_http ''/jobs'' ''wrong'' ''10.0.0.1:5'') = ''wrong''" by code_simp
  ultimately have "withDynAuth membolt (sv_db ?w) ex_config (wq_http ?rq) = (Rejected 401 ''unauthorized'', None)"
    by (simp add: withDynAuth_def Let_def)
  from refused_requests_stop [OF this] show ?thesis by simp
qed

section \<open>Which tenant is charged\<close>

lemma tenant_key_background [simp]: "tenant_key None dflt = dflt" "tenantFromContext background = None"
  by (simp_all add: tenantFromContext_def background_def tenant_key_def)

text \<open>C12. The middlewares around authentication never learn the tenant: when a writing request
  authenticates as a tenant and passes the limits, the routes run for that tenant, but the tenant
  rate limiter asked was the default tenant's, the audit entry names the default tenant and the API
  call is metered for the default tenant.\<close>

theorem tenant_work_charged_to_default:
  assumes "withDynAuth B (sv_db w) cfg (wq_http rq) = (Served (Some t) (Some info), touch)"
    and "hr_Method (wq_http rq) \<notin> {''GET'', ''HEAD'', ''OPTIONS''}" "ac_defaultTenant cfg \<noteq> []"
    and "withRateLimit L (sv_clients w) (hr_RemoteAddr (wq_http rq)) (en_clientOrder env) (en_now env) = (True, cl)"
    and "withTenantRateLimit L (sv_tenants w) None (ac_defaultTenant cfg) (en_tenantOrder env) (en_now env) = (True, tnl)"
  shows "\<exists>rq1 w0. wq_http rq1 = wq_http rq \<and> sv_tenants w0 = tnl \<and> sv_db w0 = sv_db w \<and> sv_meter w0 = sv_meter w \<and> sv_app w0 = sv_app w \<and>
    (\<forall>s w1. mux rq1 \<lparr>cx_tenant = Some t, cx_auth = Some info\<rparr> w0 = (Status s, w1) \<longrightarrow>
      (\<exists>w'. server_handler B L cfg cors env mux rq background w = (Status s, w') \<and>
         sv_meter w' = billing_Record (sv_meter w1) (ac_defaultTenant cfg) MetricAPICalls 1 (en_now env) \<and>
         sv_db w' = snd (store_AuditRecord B (sv_db w1) \<lparr>ae_ID = 0, ae_Timestamp = zero_time, ae_Tenant = ac_defaultTenant cfg,
           ae_Method = hr_Method (wq_http rq), ae_Path = hr_Path (wq_http rq), ae_Status = s, ae_Detail = []\<rparr> (en_now env))))"
proof -
  let ?d = "ac_defaultTenant cfg"
  let ?rq = "rq\<lparr>wq_RequestID := request_id env rq\<rparr>" and ?wh = "header_set ''X-Request-ID'' (request_id env rq) w"
  let ?wc = "if \<not> co_allowAll cors \<and> co_allowedOrigins cors = [] then ?wh else cors_headers cors (wq_Origin rq) ?wh"
  let ?w0 = "?wc\<lparr>sv_clients := cl, sv_tenants := tnl, sv_touched := sv_touched ?wc @ (case touch of None \<Rightarrow> [] | Some x \<Rightarrow> [x])\<rparr>"
  have wc: "sv_db ?wc = sv_db w" "sv_clients ?wc = sv_clients w" "sv_tenants ?wc = sv_tenants w" "sv_meter ?wc = sv_meter w" "sv_app ?wc = sv_app w" by simp_all
  have served: "\<exists>w'. server_handler B L cfg cors env mux rq background w = (Status s, w') \<and>
         sv_meter w' = billing_Record (sv_meter w1) ?d MetricAPICalls 1 (en_now env) \<and>
         sv_db w' = snd (store_AuditRecord B (sv_db w1) \<lparr>ae_ID = 0, ae_Timestamp = zero_time, ae_Tenant = ?d,
           ae_Method = hr_Method (wq_http rq), ae_Path = hr_Path (wq_http rq), ae_Status = s, ae_Detail = []\<rparr> (en_now env))"
    if m: "mux ?rq \<lparr>cx_tenant = Some t, cx_auth = Some info\<rparr> ?w0 = (Status s, w1)" for s w1
  proof -
    have auth: "handle_DynAuth B cfg mux ?rq background (?wc\<lparr>sv_clients := cl, sv_tenants := tnl\<rparr>) = (Status s, w1)"
      using assms(1) wc m by (simp add: handle_DynAuth_def withTenant_def withRequestAuth_def background_def)
    let ?e = "\<lparr>ae_ID = 0, ae_Timestamp = zero_time, ae_Tenant = ?d, ae_Method = hr_Method (wq_http rq), ae_Path = hr_Path (wq_http rq),
      ae_Status = s, ae_Detail = []\<rparr>"
    let ?w2 = "w1\<lparr>sv_db := snd (store_AuditRecord B (sv_db w1) ?e (en_now env))\<rparr>"
    have "handle_Audit B ?d env (handle_DynAuth B cfg mux) ?rq background (?wc\<lparr>sv_clients := cl, sv_tenants := tnl\<rparr>) = (Status s, ?w2)"
      using auth assms(2) by (simp add: handle_Audit_def Let_def)
    then have "handle_RateLimit L env (handle_TenantRateLimit L ?d env (handle_Audit B ?d env (handle_DynAuth B cfg mux))) ?rq background ?wc = (Status s, ?w2)"
      using assms(4,5) wc by (simp add: handle_RateLimit_def handle_TenantRateLimit_def)
    then obtain w3 where "handle_BillingMetrics ?d env (handle_Metrics (handle_RateLimit L env (handle_TenantRateLimit L ?d env
        (handle_Audit B ?d env (handle_DynAuth B cfg mux))))) ?rq background ?wc = (Status s, w3)"
      and w3: "sv_db w3 = sv_db ?w2" "sv_meter w3 = billing_Record (sv_meter w1) ?d MetricAPICalls 1 (en_now env)"
      using assms(3) by (simp add: handle_BillingMetrics_def handle_Metrics_def Let_def)
    then have "handle_CORS cors (handle_BillingMetrics ?d env (handle_Metrics (handle_RateLimit L env (handle_TenantRateLimit L ?d env
        (handle_Audit B ?d env (handle_DynAuth B cfg mux)))))) ?rq background ?wh = (Status s, w3)"
      using assms(2) unfolding handle_CORS_def Let_def by (auto split: if_splits)
    then have "server_handler B L cfg cors env mux rq background w = (Status s, w3)"
      by (simp add: server_handler_def handle_Recover_def handle_RequestID_def Let_def)
    with w3 show ?thesis by simp
  qed
  show ?thesis by (rule exI [of _ ?rq], rule exI [of _ ?w0]) (use served wc in simp)
qed

text \<open>A job posted with the key of tenant \<^verbatim>\<open>acme\<close>: the routes run for \<^verbatim>\<open>acme\<close>, whose usage stays 0.\<close>

theorem tenant_work_charged_to_default_witness:
  "\<exists>w'. server_handler membolt two_lib ex_config (parseCORSConfig [] [] [] []) \<lparr>en_now = 5, en_clientOrder = [], en_tenantOrder = [], en_random = None\<rparr>
     (\<lambda>rq ctx w. (Status 201, w\<lparr>sv_app := cx_tenant ctx\<rparr>))
     \<lparr>wq_http = (ex_http ''/jobs'' ''k1'' ''10.0.0.1:5'')\<lparr>hr_Method := ''POST''\<rparr>, wq_Origin = [], wq_RequestID = []\<rparr> background
     \<lparr>sv_db = mem0, sv_meter = billing_New 0, sv_clients = None, sv_tenants = None, sv_requests = (\<lambda>_. 0), sv_touched = [], sv_header = Map.empty, sv_app = None\<rparr>
     = (Status 201, w') \<and> counted (sv_meter w') ''acme'' MetricAPICalls = 0 \<and> counted (sv_meter w') ''default'' MetricAPICalls = 1"
proof -
  let ?http = "(ex_http ''/jobs'' ''k1'' ''10.0.0.1:5'')\<lparr>hr_Method := ''POST''\<rparr>"
  let ?rq = "\<lparr>wq_http = ?http, wq_Origin = [], wq_RequestID = []\<rparr>"
  let ?env = "\<lparr>en_now = 5, en_clientOrder = [], en_tenantOrder = [], en_random = None\<rparr>"
  let ?w = "\<lparr>sv_db = mem0, sv_meter = billing_New 0, sv_clients = None, sv_tenants = None, sv_requests = (\<lambda>_. 0), sv_touched = [], sv_header = Map.empty,
     sv_app = None\<rparr> :: (memdb, int, int, string option) server"
  let ?mux = "\<lambda>rq ctx (w :: (memdb, int, int, string option) server). (Status 201, w\<lparr>sv_app := cx_tenant ctx\<rparr>)"
  have "withAuth ex_config ?http = Served (Some ''acme'') (Some \<lparr>ra_access = ''tenant'', ra_tenant = ''acme''\<rparr>)" by code_simp
  moreover have "presented_key ?http = ''k1''" by code_simp
  ultimately have auth: "withDynAuth membolt (sv_db ?w) ex_config (wq_http ?rq) =
      (Served (Some ''acme'') (Some \<lparr>ra_access = ''tenant'', ra_tenant = ''acme''\<rparr>), None)"
    by (simp add: withDynAuth_def Let_def)
  have m: "hr_Method (wq_http ?rq) \<notin> {''GET'', ''HEAD'', ''OPTIONS''}" "ac_defaultTenant ex_config = ''default''" "ac_defaultTenant ex_config \<noteq> []"
    by (simp_all add: ex_http_def ex_config_def)
  have l: "withRateLimit two_lib (sv_clients ?w) (hr_RemoteAddr (wq_http ?rq)) (en_clientOrder ?env) (en_now ?env) = (True, None)"
    "withTenantRateLimit two_lib (sv_tenants ?w) None (ac_defaultTenant ex_config) (en_tenantOrder ?env) (en_now ?env) = (True, None)"
    by (simp_all add: withRateLimit_def withTenantRateLimit_def)
  from tenant_work_charged_to_default [OF auth m(1,3) l, of ?mux "parseCORSConfig [] [] [] []"]
  obtain rq1 w0 where w0: "sv_meter w0 = billing_New 0"
    and all: "\<forall>s w1. ?mux rq1 \<lparr>cx_tenant = Some ''acme'', cx_auth = Some \<lparr>ra_access = ''tenant'', ra_tenant = ''acme''\<rparr>\<rparr> w0 = (Status s, w1) \<longrightarrow>
      (\<exists>w'. server_handler membolt two_lib ex_config (parseCORSConfig [] [] [] []) ?env ?mux ?rq background ?w = (Status s, w') \<and>
         sv_meter w' = billing_Record (sv_meter w1) (ac_defaultTenant ex_config) MetricAPICalls 1 (en_now ?env))"
    by (auto simp del: split_paired_All)
  from all [rule_format, OF refl] m(2) w0 obtain w'
    where h: "server_handler membolt two_lib ex_config (parseCORSConfig [] [] [] []) ?env ?mux ?rq background ?w = (Status 201, w')"
      and "sv_meter w' = billing_Record (billing_New 0) ''default'' MetricAPICalls 1 5" by auto
  moreover have "trim_space ''default'' \<noteq> []" by code_simp
  ultimately have "counted (sv_meter w') ''acme'' MetricAPICalls = 0 \<and> counted (sv_meter w') ''default'' MetricAPICalls = 1"
    by (simp add: counted_def billing_Record_def billing_New_def rotateDayIfNeededLocked_def day_of_def i64_id is_i64_def Let_def)
  with h show ?thesis by blast
qed

end
