(* ===== verification/Health.thy ===== *)
theory Health
  imports Agents Events JsonText
begin

text \<open>
  Health checks of the registered agents, \<^verbatim>\<open>pkg/healthcheck/healthcheck.go\<close>: a round pings every
  agent with an address, keeps the result, sets the agent's status and publishes an event.

  What the network answers is an argument, \<open>probe\<close>, for each agent of the round by its key: the
  instant the ping started, how long it took, the answer or the error, the instant of the status
  update and what publishing the event reads.
\<close>

section \<open>The checker\<close>

record health_result =
  hc_AgentID :: string
  hc_Tenant :: string
  hc_Addr :: string
  hc_Healthy :: bool
  hc_HTTPCode :: int
  hc_Error :: string
  hc_LatencyMs :: int
  hc_CheckedAt :: instant

record checker =
  hk_interval :: duration
  hk_timeout :: duration
  hk_results :: "string \<rightharpoonup> health_result"

definition health_New :: "duration \<Rightarrow> duration \<Rightarrow> checker" where
  "health_New interval timeout =
     \<lparr>hk_interval = (if interval \<le> 0 then 30 * second_ns else interval),
      hk_timeout = (if timeout \<le> 0 then 5 * second_ns else timeout), hk_results = Map.empty\<rparr>"

record probe =
  pb_start :: instant
  pb_ms :: int
  pb_answer :: "string \<Rightarrow> string + int"
  pb_update :: instant
  pb_order :: "string list"
  pb_publish :: instant
  pb_random :: string

definition ping_url :: "string \<Rightarrow> string" where
  "ping_url addr =
     (if \<not> prefix ''http://'' addr \<and> \<not> prefix ''https://'' addr then ''http://'' @ addr @ ''/health'' else addr)"

definition health_ping :: "agent \<Rightarrow> probe \<Rightarrow> health_result" where
  "health_ping ag p =
     (let addr = trim_space (a_Addr ag);
          res = \<lparr>hc_AgentID = a_ID ag, hc_Tenant = [], hc_Addr = addr, hc_Healthy = False, hc_HTTPCode = 0, hc_Error = [],
                 hc_LatencyMs = pb_ms p, hc_CheckedAt = pb_start p\<rparr>
      in case pb_answer p (ping_url addr) of
           Inl err \<Rightarrow> res\<lparr>hc_Error := ''connection failed: '' @ err\<rparr>
         | Inr code \<Rightarrow>
             let ok = (200 \<le> code \<and> code < 300)
             in res\<lparr>hc_HTTPCode := code, hc_Healthy := ok, hc_Error := (if ok then [] else ''HTTP '' @ show_int code)\<rparr>)"

definition health_event :: "agent \<Rightarrow> health_result \<Rightarrow> event" where
  "health_event ag res =
     \<lparr>ev_ID = [], ev_Type = (if hc_Healthy res then ''agent_health_ok'' else ''agent_health_fail''), ev_TenantID = a_TenantID ag,
      ev_Timestamp = hc_CheckedAt res,
      ev_Data = JObj [(''addr'', JStr (a_Addr ag)), (''error'', JStr (hc_Error res)), (''healthy'', JBool (hc_Healthy res)),
        (''id'', JStr (a_ID ag)), (''latency_ms'', JInt (hc_LatencyMs res))]\<rparr>"

definition check_agent :: "agent \<Rightarrow> probe \<Rightarrow> checker \<times> registry \<times> broker option \<Rightarrow> checker \<times> registry \<times> broker option" where
  "check_agent ag p s =
     (case s of (c, r, b) \<Rightarrow>
        let res = (health_ping ag p)\<lparr>hc_Tenant := a_TenantID ag\<rparr>;
            c' = c\<lparr>hk_results := (hk_results c)(a_TenantID ag @ ''/'' @ a_ID ag \<mapsto> res)\<rparr>;
            r' = snd (agents_UpdateStatus r (a_TenantID ag) (a_ID ag) (if hc_Healthy res then StatusHealthy else StatusDegraded) (pb_update p));
            b' = map_option (\<lambda>x. events_Publish x (health_event ag res) (pb_order p) (pb_publish p) (pb_random p)) b
        in (c', r', b'))"

definition runChecks ::
    "(string \<Rightarrow> probe) \<Rightarrow> string list \<Rightarrow> instant \<Rightarrow> checker \<times> registry \<times> broker option \<Rightarrow> checker \<times> registry \<times> broker option" where
  "runChecks probes ks now s =
     (case s of (c, r, b) \<Rightarrow>
        (case agents_List r [] ks now of (alls, r1) \<Rightarrow>
           fold (\<lambda>ag. check_agent ag (probes (agentKey (a_TenantID ag) (a_ID ag)))) (filter (\<lambda>ag. trim_space (a_Addr ag) \<noteq> []) alls) (c, r1, b)))"

definition health_Results :: "checker \<Rightarrow> string list \<Rightarrow> health_result list" where
  "health_Results c ks = range_vals (hk_results c) ks"

definition health_ResultFor :: "checker \<Rightarrow> string \<Rightarrow> string \<Rightarrow> health_result option" where
  "health_ResultFor c tenantID agentID = hk_results c (tenantID @ ''/'' @ agentID)"

section \<open>A round\<close>

definition key_of :: "agent \<Rightarrow> string" where
  "key_of a = agentKey (a_TenantID a) (a_ID a)"

lemma list_keys_distinct:
  assumes "iter_order r ks" "agents_inv r" "agents_List r t ks now = (out, r')"
  shows "distinct (map key_of out)"
proof -
  have d: "distinct ks" "set ks = dom r" using assms(1) by (auto simp: iter_order_def)
  have "key_of (the (r k)) = k" if "k \<in> set ks" for k using assms(2) d(2) that by (auto simp: agents_inv_def key_of_def)
  then have "map key_of (range_vals r ks) = ks"
    unfolding range_vals_order [OF assms(1)] by (simp add: map_idI)
  then have "distinct (map key_of (filter P (range_vals r ks)))" for P using d(1) by (metis distinct_map_filter)
  then show ?thesis using assms(3) list_loop_spec [OF d(1), of t now r "[]"]
    by (auto simp: agents_List_def distinct_map)
qed

text \<open>The result of an agent in a round and the agent after it.\<close>

definition round_result :: "(string \<Rightarrow> probe) \<Rightarrow> agent \<Rightarrow> health_result" where
  "round_result probes a = (health_ping a (probes (key_of a)))\<lparr>hc_Tenant := a_TenantID a\<rparr>"

definition round_agent :: "(string \<Rightarrow> probe) \<Rightarrow> agent \<Rightarrow> agent" where
  "round_agent probes a = a\<lparr>a_Status := (if hc_Healthy (round_result probes a) then StatusHealthy else StatusDegraded),
     a_LastSeen := pb_update (probes (key_of a))\<rparr>"

definition round_event :: "(string \<Rightarrow> probe) \<Rightarrow> agent \<Rightarrow> event \<times> string list \<times> instant \<times> string" where
  "round_event probes a = (let p = probes (key_of a) in (health_event a (round_result probes a), pb_order p, pb_publish p, pb_random p))"

lemma fold_checks:
  assumes "distinct (map key_of as)" "\<forall>a \<in> set as. r (key_of a) = Some a \<and> \<not> agent_dead (pb_update (probes (key_of a))) a"
    and "fold (\<lambda>ag. check_agent ag (probes (agentKey (a_TenantID ag) (a_ID ag)))) as (c, r, b) = (c', r', b')"
  shows "(\<forall>k. r' k = (case r k of None \<Rightarrow> None | Some a \<Rightarrow> if k \<in> key_of ` set as then Some (round_agent probes a) else Some a)) \<and>
    (\<forall>a \<in> set as. hk_results c' (key_of a) = Some (round_result probes a)) \<and>
    (\<forall>k. k \<notin> key_of ` set as \<longrightarrow> hk_results c' k = hk_results c k) \<and>
    b' = map_option (publish_all (map (round_event probes) as)) b"
  using assms
proof (induction as arbitrary: c r b)
  case Nil
  then show ?case by (simp add: option.case_eq_if option.map_id0 [unfolded id_def] publish_all_def)
next
  case (Cons a as)
  let ?p = "probes (key_of a)"
  let ?c = "c\<lparr>hk_results := (hk_results c)(key_of a \<mapsto> round_result probes a)\<rparr>"
  let ?r = "r(key_of a \<mapsto> round_agent probes a)"
  let ?b = "map_option (\<lambda>x. events_Publish x (health_event a (round_result probes a)) (pb_order ?p) (pb_publish ?p) (pb_random ?p)) b"
  have a: "r (key_of a) = Some a" "\<not> agent_dead (pb_update ?p) a" using Cons.prems(2) by simp_all
  have "check_agent a (probes (agentKey (a_TenantID a) (a_ID a))) (c, r, b) = (?c, ?r, ?b)"
    using a by (simp add: check_agent_def key_of_def agentKey_def round_result_def round_agent_def
        agents_UpdateStatus_def agents_live_def Let_def)
  with Cons.prems(3) have fold: "fold (\<lambda>ag. check_agent ag (probes (agentKey (a_TenantID ag) (a_ID ag)))) as (?c, ?r, ?b) = (c', r', b')"
    by simp
  have d: "key_of a \<notin> key_of ` set as" "distinct (map key_of as)" using Cons.prems(1) by auto
  have "?r (key_of x) = Some x \<and> \<not> agent_dead (pb_update (probes (key_of x))) x" if x: "x \<in> set as" for x
  proof -
    have "key_of x \<noteq> key_of a" using d(1) x by (metis imageI)
    with Cons.prems(2) x show ?thesis by simp
  qed
  then have "\<forall>x \<in> set as. ?r (key_of x) = Some x \<and> \<not> agent_dead (pb_update (probes (key_of x))) x" by blast
  from Cons.IH [OF d(2) this fold] have IH:
    "\<forall>k. r' k = (case ?r k of None \<Rightarrow> None | Some a \<Rightarrow> if k \<in> key_of ` set as then Some (round_agent probes a) else Some a)"
    "\<forall>a \<in> set as. hk_results c' (key_of a) = Some (round_result probes a)"
    "\<forall>k. k \<notin> key_of ` set as \<longrightarrow> hk_results c' k = hk_results ?c k"
    "b' = map_option (publish_all (map (round_event probes) as)) ?b" by blast+
  have "b' = map_option (publish_all (map (round_event probes) (a # as))) b"
    using IH(4) by (cases b) (simp_all add: round_event_def Let_def)
  moreover have "\<forall>k. r' k = (case r k of None \<Rightarrow> None | Some x \<Rightarrow> if k \<in> key_of ` set (a # as) then Some (round_agent probes x) else Some x)"
    using IH(1) a(1) d(1) by (auto split: option.splits)
  ultimately show ?case using IH(2,3) d(1) by auto
qed

text \<open>A round of health checks sets every agent's status to what its ping showed: each agent that
  is registered and has an address is healthy exactly if its address answered with a status of the
  200s and degraded otherwise, its result is kept under its key, and one event for it is published;
  agents without an address stay as they are and expired ones are gone.\<close>

theorem health_round_exact:
  assumes "iter_order r ks" "agents_inv r"
    and "\<forall>a \<in> ran r. \<not> agent_dead now a \<longrightarrow> \<not> agent_dead (pb_update (probes (key_of a))) a"
    and "runChecks probes ks now (c, r, b) = (c', r', b')"
  shows "\<exists>as. distinct as \<and> set as = {a \<in> ran r. \<not> agent_dead now a \<and> \<not> blank (a_Addr a)} \<and> sorted (map a_RegisteredAt as) \<and>
    (\<forall>k. r' k = (case r k of None \<Rightarrow> None | Some a \<Rightarrow>
       if agent_dead now a then None else if a \<in> set as then Some (round_agent probes a) else Some a)) \<and>
    (\<forall>a \<in> set as. hk_results c' (key_of a) = Some (round_result probes a) \<and>
       (hc_Healthy (round_result probes a) \<longleftrightarrow> (\<exists>code. pb_answer (probes (key_of a)) (ping_url (trim_space (a_Addr a))) = Inr code \<and> 200 \<le> code \<and> code < 300))) \<and>
    b' = map_option (publish_all (map (round_event probes) as)) b"
proof -
  obtain alls r1 where l: "agents_List r [] ks now = (alls, r1)" by fastforce
  note spec = agents_List_spec [OF assms(1) l]
  let ?as = "filter (\<lambda>ag. trim_space (a_Addr ag) \<noteq> []) alls"
  have d: "distinct (map key_of ?as)" using list_keys_distinct [OF assms(1,2) l] by (simp add: distinct_map_filter)
  have inv: "r k = Some a \<Longrightarrow> key_of a = k" for k a using assms(2) by (auto simp: agents_inv_def key_of_def)
  have set: "set ?as = {a \<in> ran r. \<not> agent_dead now a \<and> \<not> blank (a_Addr a)}" using spec(1) by auto
  have live: "\<forall>a \<in> set ?as. r1 (key_of a) = Some a \<and> \<not> agent_dead (pb_update (probes (key_of a))) a"
    using set spec(3) inv assms(3) by (auto simp: ran_def)
  have "fold (\<lambda>ag. check_agent ag (probes (agentKey (a_TenantID ag) (a_ID ag)))) ?as (c, r1, b) = (c', r', b')"
    using assms(4) l by (simp add: runChecks_def)
  note f = fold_checks [OF d live this]
  have keys: "r k = Some a \<Longrightarrow> k \<in> key_of ` set ?as \<longleftrightarrow> a \<in> set ?as" for k a
    using inv set by (auto simp: ran_def image_iff)
  have "r' k = (case r k of None \<Rightarrow> None | Some a \<Rightarrow>
       if agent_dead now a then None else if a \<in> set ?as then Some (round_agent probes a) else Some a)" for k
    using f spec(3) keys [of k] by (auto split: option.splits)
  moreover have "hc_Healthy (round_result probes a) \<longleftrightarrow>
      (\<exists>code. pb_answer (probes (key_of a)) (ping_url (trim_space (a_Addr a))) = Inr code \<and> 200 \<le> code \<and> code < 300)" for a
    by (auto simp: round_result_def health_ping_def Let_def split: sum.splits)
  moreover have "distinct ?as" using d by (simp only: distinct_map)
  moreover have "sorted (map a_RegisteredAt ?as)" using spec(2) by (rule sorted_filter)
  ultimately show ?thesis using f set by (intro exI [of _ ?as]) auto
qed

theorem health_round_exact_witness:
  "\<exists>c' r' b' a'. runChecks (\<lambda>k. \<lparr>pb_start = 5, pb_ms = 2, pb_answer = (\<lambda>u. if u = ''http://10.0.0.1:80/health'' then Inr 503 else Inl ''down''),
       pb_update = 6, pb_order = [], pb_publish = 7, pb_random = ''x''\<rparr>) [''acme/w1''] 5
     (health_New 0 0, [''acme/w1'' \<mapsto> \<lparr>a_ID = ''w1'', a_TenantID = ''acme'', a_Addr = ''10.0.0.1:80'', a_Status = ''healthy'', a_Tags = Map.empty,
        a_Capabilities = [], a_RegisteredAt = 1, a_LastSeen = 1, a_ExpiresAt = None\<rparr>], None) = (c', r', b') \<and>
     r' ''acme/w1'' = Some a' \<and> a_Status a' = ''degraded''"
proof -
  let ?a = "\<lparr>a_ID = ''w1'', a_TenantID = ''acme'', a_Addr = ''10.0.0.1:80'', a_Status = ''healthy'', a_Tags = Map.empty,
     a_Capabilities = [], a_RegisteredAt = 1, a_LastSeen = 1, a_ExpiresAt = None\<rparr>"
  let ?p = "\<lambda>k. \<lparr>pb_start = 5, pb_ms = 2, pb_answer = (\<lambda>u. if u = ''http://10.0.0.1:80/health'' then Inr 503 else Inl ''down''),
     pb_update = 6, pb_order = [], pb_publish = 7, pb_random = ''x''\<rparr>"
  let ?r = "[''acme/w1'' \<mapsto> ?a]"
  obtain c' r' b' where run: "runChecks ?p [''acme/w1''] 5 (health_New 0 0, ?r, None) = (c', r', b')" by (cases "runChecks ?p [''acme/w1''] 5 (health_New 0 0, ?r, None)")
  have live: "\<not> agent_dead t ?a" for t by (simp add: agent_dead_def)
  have t: "trim_space ''10.0.0.1:80'' = ''10.0.0.1:80''" by code_simp
  have o: "iter_order ?r [''acme/w1'']" "agents_inv ?r" by (simp_all add: iter_order_def agents_inv_def agentKey_def)
  from health_round_exact [OF o _ run] live obtain as where as: "set as = {a \<in> ran ?r. \<not> agent_dead 5 a \<and> \<not> blank (a_Addr a)}"
    and r': "\<forall>k. r' k = (case ?r k of None \<Rightarrow> None | Some a \<Rightarrow> if agent_dead 5 a then None else if a \<in> set as then Some (round_agent ?p a) else Some a)"
    by auto
  from as live t have "?a \<in> set as" by simp
  with r' live have "r' ''acme/w1'' = Some (round_agent ?p ?a)" by simp
  moreover have "a_Status (round_agent ?p ?a) = ''degraded''"
    by (simp add: round_agent_def round_result_def health_ping_def ping_url_def t Let_def)
  ultimately show ?thesis using run by blast
qed

end
