(* ===== verification/TenantStore.thy ===== *)
theory TenantStore
  imports MemBolt Blockchain Routing
begin

text \<open>
  The chain and the routes of a tenant in the store (\<^verbatim>\<open>pkg/store/store.go\<close>): their JSON
  form, reading and writing them in the bucket of the tenant, the fall-back of the default tenant to
  the legacy \<^verbatim>\<open>data\<close> bucket, and the check of a database file.

  How \<^verbatim>\<open>strconv\<close> writes a float64 as a JSON number and reads it back are the parameters
  \<open>fj\<close> and \<open>fr\<close>; \<open>float_codec\<close> is the documented law that a finite
  value is read back as it was written. Infinities and NaNs make \<^verbatim>\<open>Marshal\<close> fail. A nil
  and an empty slice are both the empty list, which is written as the empty array and reads back as
  the empty list, as JSON null does.
\<close>

section \<open>JSON forms\<close>

fun as_obj :: "json \<Rightarrow> (string \<times> json) list option" where
  "as_obj JNull = Some []"
| "as_obj (JObj fs) = Some fs"
| "as_obj _ = None"

fun as_arr :: "json \<Rightarrow> json list option" where
  "as_arr JNull = Some []"
| "as_arr (JArr xs) = Some xs"
| "as_arr _ = None"

definition f64_finite :: "float64 \<Rightarrow> bool" where
  "f64_finite a \<longleftrightarrow> take_bit 11 (drop_bit 52 a) \<noteq> 0x7FF"

definition float_codec :: "(float64 \<Rightarrow> json) \<Rightarrow> (json \<Rightarrow> float64 option) \<Rightarrow> bool" where
  "float_codec fj fr \<longleftrightarrow> (\<forall>a. f64_finite a \<longrightarrow> fj a \<noteq> JNull \<and> fr (fj a) = Some a)"

definition as_float :: "(json \<Rightarrow> float64 option) \<Rightarrow> json \<Rightarrow> float64 option" where
  "as_float fr j = (if j = JNull then Some 0 else fr j)"

definition marshal_tx :: "(float64 \<Rightarrow> json) \<Rightarrow> transaction \<Rightarrow> json" where
  "marshal_tx fj t = JObj [(''sender'', JStr (tx_Sender t)), (''recipient'', JStr (tx_Recipient t)), (''amount'', fj (tx_Amount t))]"

definition tx_of_json :: "(json \<Rightarrow> float64 option) \<Rightarrow> json \<Rightarrow> transaction option" where
  "tx_of_json fr j =
     (case as_obj j of None \<Rightarrow> None | Some fs \<Rightarrow>
       (case (as_str (field fs ''sender''), as_str (field fs ''recipient''), as_float fr (field fs ''amount''))
        of (Some s, Some r, Some a) \<Rightarrow> Some \<lparr>tx_Sender = s, tx_Recipient = r, tx_Amount = a\<rparr>
         | _ \<Rightarrow> None))"

definition block_fields :: "(float64 \<Rightarrow> json) \<Rightarrow> block \<Rightarrow> (string \<times> json) list" where
  "block_fields fj b =
     [(''index'', JInt (bk_Index b)), (''timestamp'', JStr (bk_Timestamp b)),
      (''transactions'', JArr (map (marshal_tx fj) (bk_Transactions b))),
      (''previous_hash'', JStr (bk_PreviousHash b)), (''hash'', JStr (bk_Hash b))] @
     opt_str ''signature'' (bk_Signature b)"

definition as_txs :: "(json \<Rightarrow> float64 option) \<Rightarrow> json \<Rightarrow> transaction list option" where
  "as_txs fr j = (case as_arr j of None \<Rightarrow> None | Some xs \<Rightarrow> sequence_opt (map (tx_of_json fr) xs))"

definition block_of_json :: "(json \<Rightarrow> float64 option) \<Rightarrow> json \<Rightarrow> block option" where
  "block_of_json fr j =
     (case as_obj j of None \<Rightarrow> None | Some fs \<Rightarrow>
       (case (as_int (field fs ''index''), as_str (field fs ''timestamp''), as_txs fr (field fs ''transactions''),
              as_str (field fs ''previous_hash''), as_str (field fs ''hash''), as_str (field fs ''signature''))
        of (Some i, Some ts, Some txs, Some p, Some h, Some s) \<Rightarrow>
             Some \<lparr>bk_Index = i, bk_Timestamp = ts, bk_Transactions = txs, bk_PreviousHash = p, bk_Hash = h, bk_Signature = s\<rparr>
         | _ \<Rightarrow> None))"

definition block_finite :: "block \<Rightarrow> bool" where
  "block_finite b = list_all (\<lambda>t. f64_finite (tx_Amount t)) (bk_Transactions b)"

definition marshal_blocks :: "(float64 \<Rightarrow> json) \<Rightarrow> block list \<Rightarrow> string + blob" where
  "marshal_blocks fj bs =
     (if list_all block_finite bs then Inr (Doc (JArr (map (\<lambda>b. JObj (block_fields fj b)) bs)))
      else Inl ''json: unsupported value'')"

definition unmarshal_array :: "(json \<Rightarrow> 'a option) \<Rightarrow> blob \<Rightarrow> string + 'a list" where
  "unmarshal_array dec raw =
     (case raw of Raw _ \<Rightarrow> Inl ''json: invalid text''
      | Doc j \<Rightarrow>
          (case as_arr j of None \<Rightarrow> Inl ''json: cannot unmarshal''
           | Some xs \<Rightarrow> (case sequence_opt (map dec xs) of None \<Rightarrow> Inl ''json: cannot unmarshal'' | Some ys \<Rightarrow> Inr ys)))"

definition unmarshal_blocks :: "(json \<Rightarrow> float64 option) \<Rightarrow> blob \<Rightarrow> string + block list" where
  "unmarshal_blocks fr raw = unmarshal_array (block_of_json fr) raw"

text \<open>A map is written with its keys in byte order.\<close>

definition tag_entries :: "(string \<rightharpoonup> string) \<Rightarrow> (string \<times> json) list" where
  "tag_entries m = map (\<lambda>k. (k, JStr (the (m k)))) (sorted_list_of_set (dom m))"

definition route_fields :: "route \<Rightarrow> (string \<times> json) list" where
  "route_fields r =
     [(''destination'', JStr (rt_Destination r)),
      (''metric'', JObj [(''latency'', JInt (rm_Latency (rt_Metric r))), (''throughput'', JInt (rm_Throughput (rt_Metric r)))]),
      (''added_at'', JTime (rt_AddedAt r))] @
     opt_time ''expires_at'' (rt_ExpiresAt r) @
     (if rt_Satellite r then [(''satellite'', JBool True)] else []) @
     (if tag_entries (rt_Tags r) = [] then [] else [(''tags'', JObj (tag_entries (rt_Tags r)))])"

definition as_metric :: "json \<Rightarrow> route_metric option" where
  "as_metric j =
     (case as_obj j of None \<Rightarrow> None | Some fs \<Rightarrow>
       (case (as_int (field fs ''latency''), as_int (field fs ''throughput''))
        of (Some l, Some t) \<Rightarrow> Some \<lparr>rm_Latency = l, rm_Throughput = t\<rparr> | _ \<Rightarrow> None))"

definition as_tags :: "json \<Rightarrow> (string \<rightharpoonup> string) option" where
  "as_tags j =
     (case as_obj j of None \<Rightarrow> None | Some fs \<Rightarrow>
       (case sequence_opt (map (\<lambda>(k, v). map_option (Pair k) (as_str v)) fs) of None \<Rightarrow> None
        | Some kvs \<Rightarrow> Some (map_of (rev kvs))))"

definition route_of_json :: "json \<Rightarrow> route option" where
  "route_of_json j =
     (case as_obj j of None \<Rightarrow> None | Some fs \<Rightarrow>
       (case (as_str (field fs ''destination''), as_metric (field fs ''metric''), as_time (field fs ''added_at''),
              as_time_ptr (field fs ''expires_at''), as_bool (field fs ''satellite''), as_tags (field fs ''tags''))
        of (Some d, Some m, Some a, Some e, Some s, Some t) \<Rightarrow>
             Some \<lparr>rt_Destination = d, rt_Metric = m, rt_AddedAt = a, rt_ExpiresAt = e, rt_Satellite = s, rt_Tags = t\<rparr>
         | _ \<Rightarrow> None))"

definition marshal_routes :: "route list \<Rightarrow> string + blob" where
  "marshal_routes rs = Inr (Doc (JArr (map (\<lambda>r. JObj (route_fields r)) rs)))"

definition unmarshal_routes :: "blob \<Rightarrow> string + route list" where
  "unmarshal_routes raw = unmarshal_array route_of_json raw"

section \<open>The keys of a tenant\<close>

definition cleanupLegacyDefault :: "'db bolt \<Rightarrow> 'db \<Rightarrow> string \<Rightarrow> string \<Rightarrow> string + 'db" where
  "cleanupLegacyDefault B tx tenant key =
     (if tenant \<noteq> defaultTenant then Inr tx
      else if \<not> has_bucket B tx [''data''] then Inr tx
      else bdelete B tx [''data''] key)"

definition readTenantKey :: "'db bolt \<Rightarrow> 'db \<Rightarrow> string \<Rightarrow> string \<Rightarrow> blob option" where
  "readTenantKey B tx tenant key =
     (if blank tenant then None
      else
        case (case store_tenantBucket B tx tenant False of
                Inr (_, Some b) \<Rightarrow> bget B tx b key | _ \<Rightarrow> None) of
          Some raw \<Rightarrow> Some raw
        | None \<Rightarrow>
            if tenant = defaultTenant then
              (if \<not> has_bucket B tx [''data''] then None else bget B tx [''data''] key)
            else None)"

text \<open>The transaction the four writing methods share.\<close>

definition put_tenant_key :: "'db bolt \<Rightarrow> 'db \<Rightarrow> string \<Rightarrow> string \<Rightarrow> blob \<Rightarrow> string option \<times> 'db" where
  "put_tenant_key B db tenant key data = db_update B (\<lambda>tx.
     case store_tenantBucket B tx tenant True of
       Inl e \<Rightarrow> Inl e
     | Inr (tx', None) \<Rightarrow> Inl ''nil bucket''
     | Inr (tx', Some b) \<Rightarrow>
         (case bput B tx' b key data of Inl e \<Rightarrow> Inl e
          | Inr tx'' \<Rightarrow> cleanupLegacyDefault B tx'' tenant key)) db"

definition write_tenant ::
    "'db bolt \<Rightarrow> 'db \<Rightarrow> string \<Rightarrow> string \<Rightarrow> string + blob \<Rightarrow> string option \<times> 'db" where
  "write_tenant B db tenant key marshalled =
     (case marshalled of Inl e \<Rightarrow> (Some e, db) | Inr data \<Rightarrow> put_tenant_key B db tenant key data)"

definition read_tenant ::
    "'db bolt \<Rightarrow> 'db \<Rightarrow> string \<Rightarrow> string \<Rightarrow> (blob \<Rightarrow> string + 'a list) \<Rightarrow> string + 'a list" where
  "read_tenant B db tenant key dec = store_view B db (\<lambda>tx.
     case readTenantKey B tx tenant key of None \<Rightarrow> Inr [] | Some raw \<Rightarrow> dec raw)"

section \<open>The methods of the store\<close>

definition store_ReadBlocksTenant :: "(json \<Rightarrow> float64 option) \<Rightarrow> 'db bolt \<Rightarrow> 'db \<Rightarrow> string \<Rightarrow> string + block list" where
  "store_ReadBlocksTenant fr B db tenant = read_tenant B db tenant ''blocks'' (unmarshal_blocks fr)"

definition store_ReadRoutesTenant :: "'db bolt \<Rightarrow> 'db \<Rightarrow> string \<Rightarrow> string + route list" where
  "store_ReadRoutesTenant B db tenant = read_tenant B db tenant ''routes'' unmarshal_routes"

definition store_WriteBlocksTenant ::
    "(float64 \<Rightarrow> json) \<Rightarrow> 'db bolt \<Rightarrow> 'db \<Rightarrow> string \<Rightarrow> block list \<Rightarrow> string option \<times> 'db" where
  "store_WriteBlocksTenant fj B db tenant blocks = write_tenant B db tenant ''blocks'' (marshal_blocks fj blocks)"

definition store_WriteRoutesTenant :: "'db bolt \<Rightarrow> 'db \<Rightarrow> string \<Rightarrow> route list \<Rightarrow> string option \<times> 'db" where
  "store_WriteRoutesTenant B db tenant routes = write_tenant B db tenant ''routes'' (marshal_routes routes)"

definition store_SaveChainTenant ::
    "(float64 \<Rightarrow> json) \<Rightarrow> 'db bolt \<Rightarrow> 'db \<Rightarrow> string \<Rightarrow> chain \<Rightarrow> string option \<times> 'db" where
  "store_SaveChainTenant fj B db tenant bc =
     write_tenant B db tenant ''blocks'' (marshal_blocks fj (bc_Snapshot bc))"

text \<open>Listing the routes also drops the expired ones from the table.\<close>

definition store_SaveRoutesTenant ::
    "'db bolt \<Rightarrow> instant \<Rightarrow> 'db \<Rightarrow> string \<Rightarrow> routes \<Rightarrow> string option \<times> 'db \<times> routes" where
  "store_SaveRoutesTenant B now db tenant router =
     (case re_ListRoutes router now of (rs, router') \<Rightarrow>
        (case write_tenant B db tenant ''routes'' (marshal_routes rs) of (e, db') \<Rightarrow> (e, db', router')))"

text \<open>The chain is replaced before the routes are read, and stays replaced when they are unreadable.\<close>

definition store_LoadTenant ::
    "(float64 \<Rightarrow> string) \<Rightarrow> (json \<Rightarrow> float64 option) \<Rightarrow> 'db bolt \<Rightarrow> string \<Rightarrow> 'db \<Rightarrow> string \<Rightarrow> chain \<Rightarrow> routes \<Rightarrow>
     string option \<times> chain \<times> routes" where
  "store_LoadTenant ff fr B ts db tenant bc router =
     (if blank tenant then (Some ''tenant is empty'', bc, router)
      else
        case view_error B db of Some e \<Rightarrow> (Some e, bc, router)
        | None \<Rightarrow>
            (case (case readTenantKey B db tenant ''blocks'' of None \<Rightarrow> Inr bc
                   | Some raw \<Rightarrow> (case unmarshal_blocks fr raw of Inl e \<Rightarrow> Inl e | Inr blocks \<Rightarrow> Inr (bc_Load ff ts blocks)))
             of Inl e \<Rightarrow> (Some e, bc, router)
              | Inr bc' \<Rightarrow>
                  (case readTenantKey B db tenant ''routes'' of None \<Rightarrow> (None, bc', router)
                   | Some raw \<Rightarrow>
                       (case unmarshal_routes raw of Inl e \<Rightarrow> (Some e, bc', router)
                        | Inr rs \<Rightarrow> (None, bc', re_Load router rs)))))"

definition store_Load ::
    "(float64 \<Rightarrow> string) \<Rightarrow> (json \<Rightarrow> float64 option) \<Rightarrow> 'db bolt \<Rightarrow> string \<Rightarrow> 'db \<Rightarrow> chain \<Rightarrow> routes \<Rightarrow>
     string option \<times> chain \<times> routes" where
  "store_Load ff fr B ts db bc router = store_LoadTenant ff fr B ts db defaultTenant bc router"

definition store_ReadBlocks :: "(json \<Rightarrow> float64 option) \<Rightarrow> 'db bolt \<Rightarrow> 'db \<Rightarrow> string + block list" where
  "store_ReadBlocks fr B db = store_ReadBlocksTenant fr B db defaultTenant"

definition store_ReadRoutes :: "'db bolt \<Rightarrow> 'db \<Rightarrow> string + route list" where
  "store_ReadRoutes B db = store_ReadRoutesTenant B db defaultTenant"

definition store_WriteBlocks :: "(float64 \<Rightarrow> json) \<Rightarrow> 'db bolt \<Rightarrow> 'db \<Rightarrow> block list \<Rightarrow> string option \<times> 'db" where
  "store_WriteBlocks fj B db blocks = store_WriteBlocksTenant fj B db defaultTenant blocks"

definition store_WriteRoutes :: "'db bolt \<Rightarrow> 'db \<Rightarrow> route list \<Rightarrow> string option \<times> 'db" where
  "store_WriteRoutes B db routes = store_WriteRoutesTenant B db defaultTenant routes"

definition store_SaveChain :: "(float64 \<Rightarrow> json) \<Rightarrow> 'db bolt \<Rightarrow> 'db \<Rightarrow> chain \<Rightarrow> string option \<times> 'db" where
  "store_SaveChain fj B db bc = store_SaveChainTenant fj B db defaultTenant bc"

definition store_SaveRoutes :: "'db bolt \<Rightarrow> instant \<Rightarrow> 'db \<Rightarrow> routes \<Rightarrow> string option \<times> 'db \<times> routes" where
  "store_SaveRoutes B now db router = store_SaveRoutesTenant B now db defaultTenant router"

text \<open>\<open>Verify\<close> on a database that could be opened.\<close>

definition store_Verify :: "'db bolt \<Rightarrow> 'db \<Rightarrow> string option" where
  "store_Verify B db =
     (case view_error B db of Some e \<Rightarrow> Some e
      | None \<Rightarrow>
          if \<not> has_bucket B db [''meta''] then Some ''missing meta bucket''
          else if \<not> has_bucket B db [''data''] then Some ''missing data bucket''
          else
            (case bget B db [''meta''] ''version'' of None \<Rightarrow> Some ''missing db version''
             | Some v \<Rightarrow>
                 (case byte_gt1 v of None \<Rightarrow> Some ''missing db version''
                  | Some newer \<Rightarrow> if newer then Some ''unsupported db version'' else None)))"

section \<open>What is written reads back\<close>

lemma as_float_fj: "float_codec fj fr \<Longrightarrow> f64_finite a \<Longrightarrow> as_float fr (fj a) = Some a"
  by (simp add: float_codec_def as_float_def)

lemma tx_json_roundtrip:
  "float_codec fj fr \<Longrightarrow> f64_finite (tx_Amount t) \<Longrightarrow> tx_of_json fr (marshal_tx fj t) = Some t"
  by (simp add: tx_of_json_def marshal_tx_def json_field as_float_fj)

lemma as_txs_roundtrip:
  "float_codec fj fr \<Longrightarrow> list_all (\<lambda>t. f64_finite (tx_Amount t)) ts \<Longrightarrow>
   as_txs fr (JArr (map (marshal_tx fj) ts)) = Some ts"
  using sequence_opt_map [of ts "tx_of_json fr" "marshal_tx fj" "\<lambda>x. x"]
  by (simp add: as_txs_def list_all_iff tx_json_roundtrip)

lemma block_lookups:
  "field (block_fields fj b) ''index'' = JInt (bk_Index b)"
  "field (block_fields fj b) ''timestamp'' = JStr (bk_Timestamp b)"
  "field (block_fields fj b) ''transactions'' = JArr (map (marshal_tx fj) (bk_Transactions b))"
  "field (block_fields fj b) ''previous_hash'' = JStr (bk_PreviousHash b)"
  "field (block_fields fj b) ''hash'' = JStr (bk_Hash b)"
  "as_str (field (block_fields fj b) ''signature'') = Some (bk_Signature b)"
  unfolding block_fields_def by (simp_all add: json_field image_Un)

lemma block_json_roundtrip:
  "float_codec fj fr \<Longrightarrow> block_finite b \<Longrightarrow> is_i64 (bk_Index b) \<Longrightarrow>
   block_of_json fr (JObj (block_fields fj b)) = Some b"
  by (simp add: block_of_json_def block_lookups as_txs_roundtrip block_finite_def)

lemma unmarshal_array_map:
  "\<forall>x \<in> set xs. dec (enc x) = Some x \<Longrightarrow> unmarshal_array dec (Doc (JArr (map enc xs))) = Inr xs"
  using sequence_opt_map [of xs dec enc "\<lambda>x. x"] by (simp add: unmarshal_array_def)

lemma tag_entries_keys: "finite (dom m) \<Longrightarrow> tag_entries m = [] \<longleftrightarrow> m = Map.empty"
  by (auto simp: tag_entries_def)

lemma as_tags_roundtrip: "finite (dom m) \<Longrightarrow> as_tags (JObj (tag_entries m)) = Some m"
proof -
  assume fin: "finite (dom m)"
  let ?ks = "sorted_list_of_set (dom m)"
  let ?kvs = "map (\<lambda>k. (k, the (m k))) ?ks"
  have "sequence_opt (map ((\<lambda>(k, v). map_option (Pair k) (as_str v)) \<circ> (\<lambda>k. (k, JStr (the (m k))))) ?ks) = Some ?kvs"
    by (rule sequence_opt_map) simp
  moreover have "map_of (rev ?kvs) = m"
  proof (rule ext)
    fix k
    have "map_of (rev ?kvs) = map_of ?kvs" by (subst map_of_inject_set) (simp_all add: comp_def rev_map [symmetric])
    moreover have "map_of ?kvs k = m k" using fin by (cases "m k") (auto simp: map_of_map_restrict restrict_map_def)
    ultimately show "map_of (rev ?kvs) k = m k" by simp
  qed
  ultimately show ?thesis by (simp add: as_tags_def tag_entries_def)
qed

lemma route_lookups:
  "field (route_fields r) ''destination'' = JStr (rt_Destination r)"
  "field (route_fields r) ''added_at'' = JTime (rt_AddedAt r)"
  "as_time_ptr (field (route_fields r) ''expires_at'') = Some (rt_ExpiresAt r)"
  "as_bool (field (route_fields r) ''satellite'') = Some (rt_Satellite r)"
  "is_i64 (rm_Latency (rt_Metric r)) \<Longrightarrow> is_i64 (rm_Throughput (rt_Metric r)) \<Longrightarrow>
    as_metric (field (route_fields r) ''metric'') = Some (rt_Metric r)"
  unfolding route_fields_def by (simp_all add: json_field image_Un as_metric_def)

lemma route_lookup_tags: "finite (dom (rt_Tags r)) \<Longrightarrow> as_tags (field (route_fields r) ''tags'') = Some (rt_Tags r)"
  unfolding route_fields_def
  by (simp add: json_field image_Un as_tags_roundtrip) (simp add: tag_entries_keys as_tags_def)

definition route_good :: "route \<Rightarrow> bool" where
  "route_good r \<longleftrightarrow> is_i64 (rm_Latency (rt_Metric r)) \<and> is_i64 (rm_Throughput (rt_Metric r)) \<and> finite (dom (rt_Tags r))"

lemma route_json_roundtrip: "route_good r \<Longrightarrow> route_of_json (JObj (route_fields r)) = Some r"
  by (simp add: route_good_def route_of_json_def route_lookups route_lookup_tags)

section \<open>Laws of the store\<close>

lemma default_not_blank: "\<not> blank defaultTenant"
  by (simp add: defaultTenant_def trim_space_def is_space_def)

text \<open>What a tenant reads: its own entry, or for the default tenant the legacy one.\<close>

definition tenant_entry :: "'db bolt \<Rightarrow> 'db \<Rightarrow> string \<Rightarrow> string \<Rightarrow> blob option" where
  "tenant_entry B db t k =
     (case tenant_view B db t k of Some v \<Rightarrow> Some v
      | None \<Rightarrow> if t = defaultTenant then bget B db [''data''] k else None)"

lemma tenant_entry_Some: "tenant_view B db t k = Some v \<Longrightarrow> tenant_entry B db t k = Some v"
  by (simp add: tenant_entry_def)

lemma tenant_entry_same:
  assumes "tenant_view B db' t k = tenant_view B db t k"
    and "t = defaultTenant \<Longrightarrow> bget B db' [''data''] k = bget B db [''data''] k"
  shows "tenant_entry B db' t k = tenant_entry B db t k"
  using assms by (cases "tenant_view B db t k") (simp_all add: tenant_entry_def)

lemma readTenantKey_entry:
  assumes "bolt_ok B" "has_bucket B db tenants_path"
  shows "readTenantKey B db t k = (if blank t then None else tenant_entry B db t k)"
  using assms
  by (auto simp: readTenantKey_def tenant_entry_def store_tenantBucket_def tenant_view_def bget_no_bucket
      split: option.splits)

lemma put_tenant_key_ok:
  assumes ok: "bolt_ok B" and put: "put_tenant_key B db t k v = (None, db')"
  shows "has_bucket B db' tenants_path"
    and "tenant_entry B db' t' k' = (if t' = t \<and> k' = k then Some v else tenant_entry B db t' k')"
proof -
  from db_update_None [OF ok put [unfolded put_tenant_key_def]]
  obtain tx tx' where tb: "has_bucket B db tenants_path"
    and c: "create_bucket B db (tenant_path t) = Inr tx"
    and p: "bput B tx (tenant_path t) k v = Inr tx'"
    and l: "cleanupLegacyDefault B tx' t k = Inr db'"
    by (auto simp: store_tenantBucket_def split: sum.splits if_splits)
  note cs = create_bucketD [OF ok c] and ps = bputD [OF ok p]
  have "db' = tx' \<or> t = defaultTenant \<and> bdelete B tx' [''data''] k = Inr db'"
    using l by (auto simp: cleanupLegacyDefault_def split: if_splits)
  then have hb: "has_bucket B db' = has_bucket B tx'"
    and get: "bget B db' = bget B tx' \<or>
      t = defaultTenant \<and> bget B db' = (bget B tx')([''data''] := (bget B tx' [''data''])(k := None))"
    using bdeleteD [OF ok] by blast+
  show "has_bucket B db' tenants_path" using tb by (simp add: hb ps cs)
  show "tenant_entry B db' t' k' = (if t' = t \<and> k' = k then Some v else tenant_entry B db t' k')"
  proof (cases "t' = t \<and> k' = k")
    case True
    with get show ?thesis by (auto simp: tenant_view_def ps tenant_path_def intro!: tenant_entry_Some)
  next
    case False
    then have "tenant_entry B db' t' k' = tenant_entry B db t' k'"
      using get by (intro tenant_entry_same) (auto simp: tenant_view_def ps cs tenant_path_def)
    with False show ?thesis by auto
  qed
qed

lemma put_tenant_key_err: "bolt_ok B \<Longrightarrow> put_tenant_key B db t k v = (Some e, db') \<Longrightarrow> db' = db"
  by (simp add: put_tenant_key_def db_update_Some)

lemma write_tenant_ok:
  assumes "bolt_ok B" "write_tenant B db t k m = (None, db')"
  obtains v where "m = Inr v" "has_bucket B db' tenants_path"
    "\<And>t' k'. tenant_entry B db' t' k' = (if t' = t \<and> k' = k then Some v else tenant_entry B db t' k')"
  using assms put_tenant_key_ok [OF assms(1)] by (auto simp: write_tenant_def split: sum.splits)

lemma write_tenant_err: "bolt_ok B \<Longrightarrow> write_tenant B db t k m = (Some e, db') \<Longrightarrow> db' = db"
  by (auto simp: write_tenant_def put_tenant_key_err split: sum.splits)

lemma EnsureTenant_ok:
  assumes ok: "bolt_ok B" and e: "store_EnsureTenant B db t = (None, db')"
  shows "\<not> blank t" "has_bucket B db' tenants_path" "tenant_entry B db' = tenant_entry B db"
proof -
  from e show nb: "\<not> blank t" by (auto simp: store_EnsureTenant_def)
  with e have "db_update B (\<lambda>tx. if \<not> has_bucket B tx tenants_path then Inl ''tenants bucket missing''
        else create_bucket B tx (tenant_path t)) db = (None, db')" by (simp add: store_EnsureTenant_def)
  from db_update_None [OF ok this]
  have tb: "has_bucket B db tenants_path" and c: "create_bucket B db (tenant_path t) = Inr db'"
    by (auto split: if_splits)
  note cs = create_bucketD [OF ok c]
  show "has_bucket B db' tenants_path" using tb cs(1) by blast
  show "tenant_entry B db' = tenant_entry B db"
    by (intro ext tenant_entry_same) (simp_all add: tenant_view_def cs(2))
qed

lemma EnsureTenant_err: "bolt_ok B \<Longrightarrow> store_EnsureTenant B db t = (Some e, db') \<Longrightarrow> db' = db"
  by (auto simp: store_EnsureTenant_def db_update_Some split: if_splits)

lemma DeleteTenant_ok:
  assumes ok: "bolt_ok B" and e: "store_DeleteTenant B db t = (None, db')"
  shows "t \<noteq> defaultTenant" "has_bucket B db' tenants_path"
    and "tenant_entry B db' t' k = (if t' = t then None else tenant_entry B db t' k)"
proof -
  from e show nd: "t \<noteq> defaultTenant" by (auto simp: store_DeleteTenant_def split: if_splits)
  from e have "db_update B (\<lambda>tx. if \<not> has_bucket B tx tenants_path then Inl ''tenants bucket missing''
        else if \<not> has_bucket B tx (tenant_path t) then Inl ''tenant not found''
        else delete_bucket B tx (tenant_path t)) db = (None, db')"
    by (simp add: store_DeleteTenant_def split: if_splits)
  from db_update_None [OF ok this]
  have tb: "has_bucket B db tenants_path" and d: "delete_bucket B db (tenant_path t) = Inr db'"
    by (auto split: if_splits)
  from ok d have hb: "has_bucket B db' q \<longleftrightarrow> \<not> prefix (tenant_path t) q \<and> has_bucket B db q"
    and g: "bget B db' q = (if prefix (tenant_path t) q then Map.empty else bget B db q)" for q
    by (auto simp: bolt_ok_def bucket_law_def)
  show "has_bucket B db' tenants_path" using tb by (simp add: hb tenant_path_def tenants_path_def)
  show "tenant_entry B db' t' k = (if t' = t then None else tenant_entry B db t' k)"
    using nd by (cases "t' = t")
      (auto simp: tenant_entry_def [of B db' t] tenant_view_def g tenant_path_def intro!: tenant_entry_same)
qed

lemma DeleteTenant_err: "bolt_ok B \<Longrightarrow> store_DeleteTenant B db t = (Some e, db') \<Longrightarrow> db' = db"
  by (auto simp: store_DeleteTenant_def db_update_Some split: if_splits)

text \<open>The records the other components keep in a tenant's bucket leave its chain and routes alone.\<close>

lemma PutKV_entry:
  assumes ok: "bolt_ok B" and p: "store_PutKV B db t k v = (None, db')"
  shows "has_bucket B db' tenants_path"
    and "tenant_entry B db' t' k' = (if t' = t \<and> k' = k then Some v else tenant_entry B db t' k')"
proof -
  show "has_bucket B db' tenants_path" by (rule PutKV_ok [OF ok p])
  from db_update_None [OF ok p [unfolded store_PutKV_def]]
  obtain tx where c: "create_bucket B db (tenant_path t) = Inr tx"
    and b: "bput B tx (tenant_path t) k v = Inr db'"
    by (auto simp: store_tenantBucket_def split: sum.splits if_splits)
  show "tenant_entry B db' t' k' = (if t' = t \<and> k' = k then Some v else tenant_entry B db t' k')"
    by (cases "t' = t \<and> k' = k")
      (auto simp: tenant_view_def tenant_path_def bputD [OF ok b] create_bucketD [OF ok c]
        intro!: tenant_entry_Some tenant_entry_same)
qed

lemma DeleteKV_entry:
  assumes ok: "bolt_ok B" and d: "store_DeleteKV B db t k = (None, db')" and tb: "has_bucket B db tenants_path"
  shows "has_bucket B db' tenants_path" and "k' \<noteq> k \<Longrightarrow> tenant_entry B db' t' k' = tenant_entry B db t' k'"
proof -
  show "has_bucket B db' tenants_path" by (rule DeleteKV_ok [OF ok d tb])
  from db_update_None [OF ok d [unfolded store_DeleteKV_def]]
  have "db' = db \<or> bdelete B db (tenant_path t) k = Inr db'"
    by (auto simp: store_tenantBucket_def split: if_splits)
  then show "k' \<noteq> k \<Longrightarrow> tenant_entry B db' t' k' = tenant_entry B db t' k'"
    using bdeleteD(2) [OF ok, of db "tenant_path t" k db']
    by (intro tenant_entry_same) (auto simp: tenant_view_def tenant_path_def)
qed

section \<open>Stored lists\<close>

text \<open>The contract under which a list is kept under a key of the tenant: what is encoded can be decoded.\<close>

locale stored_list =
  fixes key :: string and enc :: "'a list \<Rightarrow> string + blob" and dec :: "blob \<Rightarrow> string + 'a list"
    and good :: "'a list \<Rightarrow> bool"
  assumes dec_enc: "good xs \<Longrightarrow> enc xs = Inr v \<Longrightarrow> dec v = Inr xs"
begin

lemma read_entry:
  assumes "bolt_ok B" "has_bucket B db tenants_path" "view_error B db = None" "\<not> blank t"
  shows "read_tenant B db t key dec = (case tenant_entry B db t key of None \<Rightarrow> Inr [] | Some raw \<Rightarrow> dec raw)"
  using assms by (simp add: read_tenant_def store_view_def readTenantKey_entry)

lemma write_read:
  assumes "bolt_ok B" "write_tenant B db t key (enc xs) = (None, db')" "good xs"
    and "view_error B db' = None" "\<not> blank t"
  shows "read_tenant B db' t key dec = Inr xs"
  using assms(1,2)
proof (rule write_tenant_ok)
  fix v assume "enc xs = Inr v" "has_bucket B db' tenants_path"
    "\<And>t' k'. tenant_entry B db' t' k' = (if t' = t \<and> k' = key then Some v else tenant_entry B db t' k')"
  with assms dec_enc show ?thesis by (simp add: read_entry)
qed

lemma write_keeps_others:
  assumes "bolt_ok B" "write_tenant B db t key (enc xs) = (e, db')" "t' \<noteq> t \<or> k' \<noteq> key"
  shows "tenant_entry B db' t' k' = tenant_entry B db t' k'"
proof (cases e)
  case None
  with assms show ?thesis by (auto elim: write_tenant_ok)
next
  case (Some x)
  with assms write_tenant_err show ?thesis by metis
qed

end

definition blocks_good :: "(float64 \<Rightarrow> json) \<Rightarrow> (json \<Rightarrow> float64 option) \<Rightarrow> block list \<Rightarrow> bool" where
  "blocks_good fj fr bs \<longleftrightarrow> float_codec fj fr \<and> (\<forall>b \<in> set bs. is_i64 (bk_Index b))"

interpretation stored_blocks: stored_list "''blocks''" "marshal_blocks fj" "unmarshal_blocks fr" "blocks_good fj fr" for fj fr
  by unfold_locales
    (auto simp: marshal_blocks_def unmarshal_blocks_def blocks_good_def list_all_iff block_json_roundtrip
      intro!: unmarshal_array_map split: if_splits)

interpretation stored_routes: stored_list "''routes''" marshal_routes unmarshal_routes "\<lambda>rs. \<forall>r \<in> set rs. route_good r"
  by unfold_locales
    (auto simp: marshal_routes_def unmarshal_routes_def route_json_roundtrip intro!: unmarshal_array_map)

end
