(* ===== verification/TenantManager.thy ===== *)
theory TenantManager
  imports TenantStore
begin

text \<open>
  The tenants in memory (\<^verbatim>\<open>cmd/spectral-cloud/tenant.go\<close>): the chain and the routing table of a
  tenant are loaded from the store when the tenant is first used. \<open>tm_getTenant\<close> runs under the
  manager's lock; the second look-up under the lock repeats the first. The database is a field of the
  manager's record, since the code keeps it behind the pointer \<^verbatim>\<open>tm.store\<close>. \<open>ts\<close> and
  \<open>ts'\<close> are the times at which a genesis block is made, \<open>now\<close> the time at which
  expired routes are dropped.
\<close>

record tenantState =
  st_chain :: chain
  st_router :: routes

record 'db tenantManager =
  tm_store :: 'db
  tm_tenants :: "string \<rightharpoonup> tenantState"

definition newTenantManager :: "'db \<Rightarrow> 'db tenantManager" where
  "newTenantManager db = \<lparr>tm_store = db, tm_tenants = Map.empty\<rparr>"

definition pruneExpiredRoutes :: "instant \<Rightarrow> route list \<Rightarrow> route list" where
  "pruneExpiredRoutes now rs = filter (\<lambda>r. \<not> expired now (rt_ExpiresAt r)) rs"

text \<open>Loading the chain: the database after it, and the chain or the error.\<close>

definition load_chain ::
    "(float64 \<Rightarrow> string) \<Rightarrow> (float64 \<Rightarrow> json) \<Rightarrow> 'db bolt \<Rightarrow> string \<Rightarrow> string \<Rightarrow> 'db \<Rightarrow> string \<Rightarrow> block list \<Rightarrow> (string + chain) \<times> 'db" where
  "load_chain ff fj B ts ts' db tenant blocks =
     (if blocks \<noteq> [] then
        let valid = filterValidBlocks ff blocks;
            bc = bc_Load ff ts' valid
        in if length valid \<noteq> length blocks then
             (case store_WriteBlocksTenant fj B db tenant valid of
                (Some e, db') \<Rightarrow> (Inl e, db') | (None, db') \<Rightarrow> (Inr bc, db'))
           else (Inr bc, db)
      else
        let bc = NewBlockchain ff ts
        in (case store_SaveChainTenant fj B db tenant bc of
              (Some e, db') \<Rightarrow> (Inl (''persist genesis: '' @ e), db') | (None, db') \<Rightarrow> (Inr bc, db')))"

definition load_routes :: "'db bolt \<Rightarrow> instant \<Rightarrow> 'db \<Rightarrow> string \<Rightarrow> route list \<Rightarrow> (string + routes) \<times> 'db" where
  "load_routes B now db tenant rs =
     (if rs \<noteq> [] then
        let pruned = pruneExpiredRoutes now rs;
            router = re_Load NewRoutingEngine pruned
        in if length pruned \<noteq> length rs then
             (case store_WriteRoutesTenant B db tenant pruned of
                (Some e, db') \<Rightarrow> (Inl e, db') | (None, db') \<Rightarrow> (Inr router, db'))
           else (Inr router, db)
      else (Inr NewRoutingEngine, db))"

definition tm_getTenant ::
    "(float64 \<Rightarrow> string) \<Rightarrow> (float64 \<Rightarrow> json) \<Rightarrow> (json \<Rightarrow> float64 option) \<Rightarrow> 'db bolt \<Rightarrow> string \<Rightarrow> string \<Rightarrow> instant \<Rightarrow>
     'db tenantManager \<Rightarrow> string \<Rightarrow> (string + tenantState) \<times> 'db tenantManager" where
  "tm_getTenant ff fj fr B ts ts' now tm tenant =
     (case tm_tenants tm tenant of Some state \<Rightarrow> (Inr state, tm)
      | None \<Rightarrow>
        (case store_EnsureTenant B (tm_store tm) tenant of
           (Some e, db1) \<Rightarrow> (Inl e, tm\<lparr>tm_store := db1\<rparr>)
         | (None, db1) \<Rightarrow>
        (case store_ReadBlocksTenant fr B db1 tenant of
           Inl e \<Rightarrow> (Inl e, tm\<lparr>tm_store := db1\<rparr>)
         | Inr blocks \<Rightarrow>
        (case load_chain ff fj B ts ts' db1 tenant blocks of
           (Inl e, db2) \<Rightarrow> (Inl e, tm\<lparr>tm_store := db2\<rparr>)
         | (Inr bc, db2) \<Rightarrow>
        (case store_ReadRoutesTenant B db2 tenant of
           Inl e \<Rightarrow> (Inl e, tm\<lparr>tm_store := db2\<rparr>)
         | Inr rs \<Rightarrow>
        (case load_routes B now db2 tenant rs of
           (Inl e, db3) \<Rightarrow> (Inl e, tm\<lparr>tm_store := db3\<rparr>)
         | (Inr router, db3) \<Rightarrow>
             let state = \<lparr>st_chain = bc, st_router = router\<rparr>
             in (Inr state, tm\<lparr>tm_store := db3, tm_tenants := (tm_tenants tm)(tenant \<mapsto> state)\<rparr>)))))))"

definition tm_evict :: "'db tenantManager \<Rightarrow> string \<Rightarrow> 'db tenantManager" where
  "tm_evict tm tenant = tm\<lparr>tm_tenants := (tm_tenants tm)(tenant := None)\<rparr>"

definition loadFromStore ::
    "(float64 \<Rightarrow> string) \<Rightarrow> (float64 \<Rightarrow> json) \<Rightarrow> (json \<Rightarrow> float64 option) \<Rightarrow> 'db bolt \<Rightarrow> string \<Rightarrow> instant \<Rightarrow> 'db \<Rightarrow> string \<Rightarrow>
     chain \<Rightarrow> routes \<Rightarrow> string option \<times> chain \<times> routes \<times> 'db" where
  "loadFromStore ff fj fr B ts now db tenant bc router =
     (case store_ReadBlocksTenant fr B db tenant of Inl e \<Rightarrow> (Some e, bc, router, db)
      | Inr blocks \<Rightarrow>
          (let valid = filterValidBlocks ff blocks;
               bc' = (if blocks = [] then bc else bc_Load ff ts valid);
               db1 = (if blocks \<noteq> [] \<and> length valid \<noteq> length blocks
                      then snd (store_WriteBlocksTenant fj B db tenant valid) else db)
           in (case store_ReadRoutesTenant B db1 tenant of Inl e \<Rightarrow> (Some e, bc', router, db1)
               | Inr rs \<Rightarrow>
                   (let pruned = pruneExpiredRoutes now rs;
                        router' = (if rs = [] then router else re_Load router pruned);
                        db2 = (if rs \<noteq> [] \<and> length pruned \<noteq> length rs
                               then snd (store_WriteRoutesTenant B db1 tenant pruned) else db1)
                    in (None, bc', router', db2)))))"

section \<open>Sound chains\<close>

text \<open>A chain that verifies, starts without a predecessor and has machine-size indices: what the
  operations build and what the store can hold.\<close>

definition sound_chain :: "(float64 \<Rightarrow> string) \<Rightarrow> chain \<Rightarrow> bool" where
  "sound_chain ff bc \<longleftrightarrow> chain_ok ff bc \<and> (bc \<noteq> [] \<longrightarrow> bk_PreviousHash (hd bc) = []) \<and> (\<forall>b \<in> set bc. is_i64 (bk_Index b))"

lemma sound_chain_Nil [simp]: "sound_chain ff []"
  by (simp add: sound_chain_def chain_ok_def)

lemma sound_genesis [simp]: "sound_chain ff (NewBlockchain ff ts)"
  by (simp add: sound_chain_def NewBlockchain_def chain_ok_def block_ok_def createGenesisBlock_def bc_Verify_def is_i64_def)

lemma NewBlockchain_nonempty: "NewBlockchain ff ts \<noteq> []"
  by (simp add: NewBlockchain_def)

lemma sound_chain_snoc:
  "sound_chain ff bc \<Longrightarrow> bc \<noteq> [] \<Longrightarrow> bc_Verify ff b \<Longrightarrow> bk_PreviousHash b = bk_Hash (last bc) \<Longrightarrow> is_i64 (bk_Index b) \<Longrightarrow>
   sound_chain ff (bc @ [b])"
  by (auto simp: sound_chain_def chain_ok_snoc)

text \<open>Loading keeps all of a sound chain.\<close>

lemma filter_valid_keeps:
  "\<forall>i < length bs. bc_Verify ff (bs ! i) \<and> bk_PreviousHash (bs ! i) = (if i = 0 then h else bk_Hash (bs ! (i - 1))) \<Longrightarrow>
   filter_valid ff h bs = bs"
proof (induction bs arbitrary: h)
  case (Cons b bs)
  have "bc_Verify ff b" "bk_PreviousHash b = h" using Cons.prems by (force dest: spec [of _ 0])+
  moreover have "filter_valid ff (bk_Hash b) bs = bs"
  proof (rule Cons.IH, intro allI impI)
    fix i assume "i < length bs"
    with Cons.prems [rule_format, of "Suc i"]
    show "bc_Verify ff (bs ! i) \<and> bk_PreviousHash (bs ! i) = (if i = 0 then bk_Hash b else bk_Hash (bs ! (i - 1)))"
      by (cases i) simp_all
  qed
  ultimately show ?case by simp
qed simp

lemma sound_chain_kept: "sound_chain ff bs \<Longrightarrow> filterValidBlocks ff bs = bs"
  unfolding filterValidBlocks_def
  by (rule filter_valid_keeps) (auto simp: sound_chain_def chain_ok_def block_ok_def hd_conv_nth)

lemma AddBlock_sound:
  assumes "bc_AddBlock ff bc txs ts = Some (b, bc')" "sound_chain ff bc"
  shows "bc' = bc @ [b] \<and> sound_chain ff bc'"
proof -
  from assms(1) have ne: "bc \<noteq> []" and i: "is_i64 (bk_Index b)" and
      bc': "bc' = bc @ [b]" "bc_Verify ff b" "bk_PreviousHash b = bk_Hash (last bc)"
    by (auto simp: bc_AddBlock_def Let_def bc_Verify_def i64_range split: if_splits)
  with sound_chain_snoc [OF assms(2) ne] show ?thesis by simp
qed

lemma AddSignedBlock_sound:
  assumes "bc_AddSignedBlock ff bc txs key ts = Some (b, bc')" "sound_chain ff bc"
  shows "bc' = bc @ [b] \<and> sound_chain ff bc'"
proof -
  from assms(1) obtain b0 bc0 where a: "bc_AddBlock ff bc txs ts = Some (b0, bc0)"
    by (auto simp: bc_AddSignedBlock_def split: option.splits)
  note s0 = AddBlock_sound [OF a assms(2)]
  from a have ne: "bc \<noteq> []" by (auto simp: bc_AddBlock_def)
  show ?thesis
  proof (cases "key = []")
    case True
    with assms(1) a s0 show ?thesis by (auto simp: bc_AddSignedBlock_def)
  next
    case False
    with assms(1) a s0 have r: "b = snd (SignBlock b0 key)" "bc' = bc @ [b]"
      by (auto simp: bc_AddSignedBlock_def Let_def)
    from s0 have "bc_Verify ff b0" "bk_PreviousHash b0 = bk_Hash (last bc)" "is_i64 (bk_Index b0)"
      using ne by (auto simp: sound_chain_def chain_ok_snoc)
    with r sound_chain_snoc [OF assms(2) ne, of b] show ?thesis
      by (simp add: chain_ok_sign) (simp add: SignBlock_def Let_def)
  qed
qed

section \<open>Memory and store\<close>

definition stored_chain :: "(json \<Rightarrow> float64 option) \<Rightarrow> 'db bolt \<Rightarrow> 'db \<Rightarrow> string \<Rightarrow> string + block list" where
  "stored_chain fr B db t = (case tenant_entry B db t ''blocks'' of None \<Rightarrow> Inr [] | Some raw \<Rightarrow> unmarshal_blocks fr raw)"

lemma stored_chain_cong: "tenant_entry B db' t ''blocks'' = tenant_entry B db t ''blocks'' \<Longrightarrow> stored_chain fr B db' t = stored_chain fr B db t"
  by (simp add: stored_chain_def)

lemma ReadBlocks_stored:
  assumes "bolt_ok B" "has_bucket B db tenants_path" "\<not> blank t" "store_ReadBlocksTenant fr B db t = Inr bs"
  shows "stored_chain fr B db t = Inr bs"
  using assms
  by (auto simp: store_ReadBlocksTenant_def read_tenant_def store_view_def stored_chain_def readTenantKey_entry
      split: option.splits)

lemma SaveChain_stored:
  assumes "bolt_ok B" "float_codec fj fr" "sound_chain ff bc" "store_SaveChainTenant fj B db t bc = (None, db')"
  shows "has_bucket B db' tenants_path" "stored_chain fr B db' t = Inr bc"
proof -
  have good: "blocks_good fj fr bc" using assms(2,3) by (simp add: blocks_good_def sound_chain_def)
  from assms(4) have w: "write_tenant B db t ''blocks'' (marshal_blocks fj bc) = (None, db')"
    by (simp add: store_SaveChainTenant_def bc_Snapshot_def)
  then obtain v where v: "marshal_blocks fj bc = Inr v" "has_bucket B db' tenants_path"
      "tenant_entry B db' t ''blocks'' = Some v"
    using write_tenant_ok [OF assms(1) w] by metis
  then show "has_bucket B db' tenants_path" by blast
  from v stored_blocks.dec_enc [OF good] show "stored_chain fr B db' t = Inr bc" by (simp add: stored_chain_def)
qed

lemma SaveChain_others:
  assumes "bolt_ok B" "store_SaveChainTenant fj B db t bc = (e, db')" "t' \<noteq> t \<or> k \<noteq> ''blocks''"
  shows "tenant_entry B db' t' k = tenant_entry B db t' k"
  using stored_blocks.write_keeps_others [OF assms(1) assms(2) [unfolded store_SaveChainTenant_def] assms(3)] .

lemma SaveChain_err: "bolt_ok B \<Longrightarrow> store_SaveChainTenant fj B db t bc = (Some e, db') \<Longrightarrow> db' = db"
  by (auto simp: store_SaveChainTenant_def dest: write_tenant_err)

lemma WriteRoutes_keeps:
  assumes "bolt_ok B" "store_WriteRoutesTenant B db t rs = (e, db')" "has_bucket B db tenants_path"
  shows "has_bucket B db' tenants_path" "tenant_entry B db' t' ''blocks'' = tenant_entry B db t' ''blocks''"
proof -
  from assms(2) have w: "write_tenant B db t ''routes'' (marshal_routes rs) = (e, db')"
    by (simp add: store_WriteRoutesTenant_def)
  from stored_routes.write_keeps_others [OF assms(1) this, of t' "''blocks''"]
  show "tenant_entry B db' t' ''blocks'' = tenant_entry B db t' ''blocks''" by simp
  show "has_bucket B db' tenants_path"
  proof (cases e)
    case None
    with w show ?thesis by (auto elim: write_tenant_ok [OF assms(1)])
  next
    case (Some x)
    with w write_tenant_err [OF assms(1)] assms(3) show ?thesis by blast
  qed
qed

lemma load_chain_sound:
  assumes ok: "bolt_ok B" "float_codec fj fr" and tb: "has_bucket B db tenants_path"
    and st: "stored_chain fr B db t = Inr bs" "sound_chain ff bs"
    and l: "load_chain ff fj B ts ts' db t bs = (r, db')"
  shows "has_bucket B db' tenants_path" "t' \<noteq> t \<Longrightarrow> stored_chain fr B db' t' = stored_chain fr B db t'"
    and "case r of Inl e \<Rightarrow> db' = db | Inr bc \<Rightarrow> bc = (if bs = [] then NewBlockchain ff ts else bs) \<and> stored_chain fr B db' t = Inr bc"
proof -
  have "has_bucket B db' tenants_path \<and> (t' \<noteq> t \<longrightarrow> stored_chain fr B db' t' = stored_chain fr B db t') \<and>
    (case r of Inl e \<Rightarrow> db' = db | Inr bc \<Rightarrow> bc = (if bs = [] then NewBlockchain ff ts else bs) \<and> stored_chain fr B db' t = Inr bc)"
  proof (cases "bs = []")
    case False
    with l st(2) have "r = Inr bs" "db' = db"
      by (auto simp: load_chain_def sound_chain_kept bc_Load_def)
    with False tb st(1) show ?thesis by simp
  next
    case True
    obtain e db1 where s: "store_SaveChainTenant fj B db t (NewBlockchain ff ts) = (e, db1)" by fastforce
    have same: "t' \<noteq> t \<longrightarrow> stored_chain fr B db1 t' = stored_chain fr B db t'"
      by (intro impI stored_chain_cong SaveChain_others [OF ok(1) s] disjI1)
    show ?thesis
    proof (cases e)
      case None
      with s have "store_SaveChainTenant fj B db t (NewBlockchain ff ts) = (None, db1)" by simp
      note saved = SaveChain_stored [OF ok sound_genesis this]
      from None True l s have "r = Inr (NewBlockchain ff ts)" "db' = db1" by (auto simp: load_chain_def)
      with saved True same show ?thesis by simp
    next
      case (Some x)
      with SaveChain_err [OF ok(1)] s have "db1 = db" by blast
      with Some True l s tb same show ?thesis by (auto simp: load_chain_def)
    qed
  qed
  then show "has_bucket B db' tenants_path" "t' \<noteq> t \<Longrightarrow> stored_chain fr B db' t' = stored_chain fr B db t'"
    and "case r of Inl e \<Rightarrow> db' = db | Inr bc \<Rightarrow> bc = (if bs = [] then NewBlockchain ff ts else bs) \<and> stored_chain fr B db' t = Inr bc"
    by blast+
qed

lemma load_routes_keeps:
  assumes "bolt_ok B" "has_bucket B db tenants_path" "load_routes B now db t rs = (r, db')"
  shows "has_bucket B db' tenants_path" "stored_chain fr B db' t' = stored_chain fr B db t'"
proof -
  have "db' = db \<or> (\<exists>e. store_WriteRoutesTenant B db t (pruneExpiredRoutes now rs) = (e, db'))"
    using assms(3) by (auto simp: load_routes_def Let_def split: if_splits prod.splits option.splits)
  with assms(1,2) WriteRoutes_keeps show "has_bucket B db' tenants_path" "stored_chain fr B db' t' = stored_chain fr B db t'"
    by (metis stored_chain_cong)+
qed

text \<open>The invariant of the manager: every stored chain is sound, and is a prefix of the chain in
  memory, which is sound too.\<close>

definition tenants_sound :: "(float64 \<Rightarrow> string) \<Rightarrow> (json \<Rightarrow> float64 option) \<Rightarrow> 'db bolt \<Rightarrow> 'db tenantManager \<Rightarrow> bool" where
  "tenants_sound ff fr B tm \<longleftrightarrow> has_bucket B (tm_store tm) tenants_path \<and>
     (\<forall>t. \<exists>bs. stored_chain fr B (tm_store tm) t = Inr bs \<and> sound_chain ff bs \<and>
       (\<forall>st. tm_tenants tm t = Some st \<longrightarrow> prefix bs (st_chain st) \<and> st_chain st \<noteq> [] \<and> sound_chain ff (st_chain st)))"

lemma tenants_soundD:
  assumes "tenants_sound ff fr B tm"
  shows "has_bucket B (tm_store tm) tenants_path"
    and "tm_tenants tm t = Some st \<Longrightarrow> st_chain st \<noteq> [] \<and> sound_chain ff (st_chain st)"
  using assms unfolding tenants_sound_def by blast+

lemma tenants_sound_cong:
  assumes "tenants_sound ff fr B tm" "has_bucket B (tm_store tm') tenants_path"
    and "\<And>t. stored_chain fr B (tm_store tm') t = stored_chain fr B (tm_store tm) t"
    and "\<And>t st. tm_tenants tm' t = Some st \<Longrightarrow> \<exists>st0. tm_tenants tm t = Some st0 \<and> st_chain st = st_chain st0"
  shows "tenants_sound ff fr B tm'"
proof -
  have "\<exists>bs. stored_chain fr B (tm_store tm') t = Inr bs \<and> sound_chain ff bs \<and>
       (\<forall>st. tm_tenants tm' t = Some st \<longrightarrow> prefix bs (st_chain st) \<and> st_chain st \<noteq> [] \<and> sound_chain ff (st_chain st))" for t
    using assms(1) assms(3) [of t] assms(4) [of t] unfolding tenants_sound_def by metis
  with assms(2) show ?thesis by (simp add: tenants_sound_def)
qed

text \<open>Setting the chain of one tenant, in memory and in the store.\<close>

lemma tenants_sound_upd:
  assumes "tenants_sound ff fr B tm" "has_bucket B (tm_store tm') tenants_path"
    and "\<And>t'. t' \<noteq> t \<Longrightarrow> stored_chain fr B (tm_store tm') t' = stored_chain fr B (tm_store tm) t'"
    and "tm_tenants tm' = (tm_tenants tm)(t \<mapsto> st)" "st_chain st \<noteq> []" "sound_chain ff (st_chain st)"
    and "stored_chain fr B (tm_store tm') t = Inr bs" "prefix bs (st_chain st)" "sound_chain ff bs"
  shows "tenants_sound ff fr B tm'"
proof -
  have "\<exists>bs. stored_chain fr B (tm_store tm') t' = Inr bs \<and> sound_chain ff bs \<and>
       (\<forall>st. tm_tenants tm' t' = Some st \<longrightarrow> prefix bs (st_chain st) \<and> st_chain st \<noteq> [] \<and> sound_chain ff (st_chain st))" for t'
  proof (cases "t' = t")
    case True
    with assms show ?thesis by auto
  next
    case False
    with assms(1) assms(3) [OF False] assms(4) show ?thesis by (simp add: tenants_sound_def)
  qed
  with assms(2) show ?thesis by (simp add: tenants_sound_def)
qed

text \<open>Every way through \<open>tm_getTenant\<close>.\<close>

lemma getTenant_cases:
  assumes "tm_getTenant ff fj fr B ts ts' now tm t = (r, tm')"
  obtains (cached) st where "tm_tenants tm t = Some st" "r = Inr st" "tm' = tm"
  | (ensure) e db1 where "tm_tenants tm t = None" "store_EnsureTenant B (tm_store tm) t = (Some e, db1)"
      "r = Inl e" "tm' = tm\<lparr>tm_store := db1\<rparr>"
  | (unread) e db1 where "tm_tenants tm t = None" "store_EnsureTenant B (tm_store tm) t = (None, db1)"
      "r = Inl e" "tm' = tm\<lparr>tm_store := db1\<rparr>"
  | (chain) e db1 db2 bs where "tm_tenants tm t = None" "store_EnsureTenant B (tm_store tm) t = (None, db1)"
      "store_ReadBlocksTenant fr B db1 t = Inr bs" "load_chain ff fj B ts ts' db1 t bs = (Inl e, db2)"
      "r = Inl e" "tm' = tm\<lparr>tm_store := db2\<rparr>"
  | (routes) e db1 db2 bs bc q db3 rs where "tm_tenants tm t = None" "store_EnsureTenant B (tm_store tm) t = (None, db1)"
      "store_ReadBlocksTenant fr B db1 t = Inr bs" "load_chain ff fj B ts ts' db1 t bs = (Inr bc, db2)"
      "db3 = db2 \<or> load_routes B now db2 t rs = (q, db3)" "r = Inl e" "tm' = tm\<lparr>tm_store := db3\<rparr>"
  | (loaded) db1 db2 bs bc db3 rs router where "tm_tenants tm t = None" "store_EnsureTenant B (tm_store tm) t = (None, db1)"
      "store_ReadBlocksTenant fr B db1 t = Inr bs" "load_chain ff fj B ts ts' db1 t bs = (Inr bc, db2)"
      "store_ReadRoutesTenant B db2 t = Inr rs" "load_routes B now db2 t rs = (Inr router, db3)"
      "r = Inr \<lparr>st_chain = bc, st_router = router\<rparr>"
      "tm' = tm\<lparr>tm_store := db3, tm_tenants := (tm_tenants tm)(t \<mapsto> \<lparr>st_chain = bc, st_router = router\<rparr>)\<rparr>"
proof (cases "tm_tenants tm t")
  case (Some st)
  with assms show ?thesis by (intro cached [of st]) (auto simp: tm_getTenant_def)
next
  case miss: None
  obtain e db1 where en: "store_EnsureTenant B (tm_store tm) t = (e, db1)" by fastforce
  show ?thesis
  proof (cases e)
    case (Some x)
    with assms miss en show ?thesis by (intro ensure [of x db1]) (auto simp: tm_getTenant_def)
  next
    case None
    note run = miss en [unfolded None]
    show ?thesis
    proof (cases "store_ReadBlocksTenant fr B db1 t")
      case (Inl x)
      with assms run show ?thesis by (intro unread [of db1 x]) (auto simp: tm_getTenant_def)
    next
      case (Inr bs)
      obtain c db2 where lc: "load_chain ff fj B ts ts' db1 t bs = (c, db2)" by fastforce
      show ?thesis
      proof (cases c)
        case (Inl x)
        with assms run Inr lc show ?thesis
          by (intro chain [of db1 bs x db2]) (auto simp: tm_getTenant_def)
      next
        case bc: (Inr bc)
        note loaded_chain = run Inr lc [unfolded bc]
        show ?thesis
        proof (cases "store_ReadRoutesTenant B db2 t")
          case (Inl x)
          with assms loaded_chain show ?thesis
            by (intro routes [of db1 bs bc db2 db2 undefined undefined x]) (auto simp: tm_getTenant_def)
        next
          case rs: (Inr rs)
          obtain q db3 where lr: "load_routes B now db2 t rs = (q, db3)" by fastforce
          show ?thesis
          proof (cases q)
            case (Inl x)
            with assms loaded_chain rs lr show ?thesis
              by (intro routes [of db1 bs bc db2 db3 rs q x]) (auto simp: tm_getTenant_def)
          next
            case (Inr router)
            with assms loaded_chain rs lr show ?thesis
              by (intro loaded [of db1 bs bc db2 rs router db3]) (auto simp: tm_getTenant_def Let_def)
          qed
        qed
      qed
    qed
  qed
qed

text \<open>Together: a cached tenant changes nothing; otherwise the store changes at most by saving a
  genesis block for a tenant that had none, and a tenant that is loaded has the stored chain.\<close>

lemma getTenant_result:
  assumes ok: "bolt_ok B" "float_codec fj fr" and inv: "tenants_sound ff fr B tm"
    and g: "tm_getTenant ff fj fr B ts ts' now tm t = (r, tm')" and miss: "tm_tenants tm t = None"
    and st: "stored_chain fr B (tm_store tm) t = Inr bs"
  shows "has_bucket B (tm_store tm') tenants_path \<and>
    (\<forall>t'. t' \<noteq> t \<longrightarrow> stored_chain fr B (tm_store tm') t' = stored_chain fr B (tm_store tm) t') \<and>
    (case r of
       Inl e \<Rightarrow> tm_tenants tm' = tm_tenants tm \<and> stored_chain fr B (tm_store tm') t \<in> {Inr bs, Inr (if bs = [] then NewBlockchain ff ts else bs)}
     | Inr s \<Rightarrow> tm_tenants tm' = (tm_tenants tm)(t \<mapsto> s) \<and> st_chain s = (if bs = [] then NewBlockchain ff ts else bs) \<and>
         stored_chain fr B (tm_store tm') t = Inr (st_chain s))"
proof -
  have sb: "sound_chain ff bs" using inv st unfolding tenants_sound_def by (metis sum.inject(2))
  note tb = tenants_soundD(1) [OF inv]
  have ensured: "has_bucket B db1 tenants_path \<and> \<not> blank t \<and> (\<forall>t'. stored_chain fr B db1 t' = stored_chain fr B (tm_store tm) t')"
    if "store_EnsureTenant B (tm_store tm) t = (None, db1)" for db1
    using EnsureTenant_ok [OF ok(1) that] by (simp add: stored_chain_def)
  have read: "xs = bs" if "store_EnsureTenant B (tm_store tm) t = (None, db1)" "store_ReadBlocksTenant fr B db1 t = Inr xs" for db1 xs
    using ReadBlocks_stored [OF ok(1) _ _ that(2)] ensured [OF that(1)] st by simp
  have lc: "has_bucket B db2 tenants_path \<and> (\<forall>t'. t' \<noteq> t \<longrightarrow> stored_chain fr B db2 t' = stored_chain fr B (tm_store tm) t') \<and>
      (case c of Inl e \<Rightarrow> db2 = db1 | Inr bc \<Rightarrow> bc = (if bs = [] then NewBlockchain ff ts else bs) \<and> stored_chain fr B db2 t = Inr bc)"
    if "store_EnsureTenant B (tm_store tm) t = (None, db1)" "load_chain ff fj B ts ts' db1 t bs = (c, db2)" for db1 c db2
    using load_chain_sound [OF ok _ _ sb that(2)] ensured [OF that(1)] st by simp
  from g show ?thesis
  proof (cases rule: getTenant_cases)
    case (cached st)
    with miss show ?thesis by simp
  next
    case (ensure e db1)
    with EnsureTenant_err [OF ok(1)] tb st show ?thesis by fastforce
  next
    case (unread e db1)
    with ensured st show ?thesis by simp
  next
    case (chain e db1 db2 xs)
    with read ensured lc st show ?thesis by fastforce
  next
    case (routes e db1 db2 xs bc q db3 rs)
    with read have "xs = bs" by blast
    with routes lc have "has_bucket B db2 tenants_path" "\<forall>t'. t' \<noteq> t \<longrightarrow> stored_chain fr B db2 t' = stored_chain fr B (tm_store tm) t'"
      "stored_chain fr B db2 t = Inr (if bs = [] then NewBlockchain ff ts else bs)" by fastforce+
    moreover from routes(5) this(1) have "has_bucket B db3 tenants_path \<and> (\<forall>t'. stored_chain fr B db3 t' = stored_chain fr B db2 t')"
      using load_routes_keeps [OF ok(1)] by blast
    ultimately show ?thesis using routes by simp
  next
    case (loaded db1 db2 xs bc db3 rs router)
    with read have "xs = bs" by blast
    with loaded lc have "has_bucket B db2 tenants_path" "\<forall>t'. t' \<noteq> t \<longrightarrow> stored_chain fr B db2 t' = stored_chain fr B (tm_store tm) t'"
      "bc = (if bs = [] then NewBlockchain ff ts else bs)" "stored_chain fr B db2 t = Inr bc" by fastforce+
    moreover from loaded(6) this(1) have "has_bucket B db3 tenants_path \<and> (\<forall>t'. stored_chain fr B db3 t' = stored_chain fr B db2 t')"
      using load_routes_keeps [OF ok(1)] by blast
    ultimately show ?thesis using loaded by simp
  qed
qed

lemma getTenant_cached: "tm_tenants tm t = Some st \<Longrightarrow> tm_getTenant ff fj fr B ts ts' now tm t = (Inr st, tm)"
  by (simp add: tm_getTenant_def)

lemma getTenant_sound:
  assumes ok: "bolt_ok B" "float_codec fj fr" and inv: "tenants_sound ff fr B tm"
    and g: "tm_getTenant ff fj fr B ts ts' now tm t = (r, tm')"
  shows "tenants_sound ff fr B tm'"
    and "r = Inr st \<Longrightarrow> tm_tenants tm' t = Some st"
    and "stored_chain fr B (tm_store tm) t' = Inr bs \<Longrightarrow> bs \<noteq> [] \<Longrightarrow> stored_chain fr B (tm_store tm') t' = Inr bs"
proof -
  obtain cs where cs: "stored_chain fr B (tm_store tm) t = Inr cs" "sound_chain ff cs"
    using inv unfolding tenants_sound_def by blast
  have "tenants_sound ff fr B tm' \<and> (r = Inr st \<longrightarrow> tm_tenants tm' t = Some st) \<and>
      (stored_chain fr B (tm_store tm) t' = Inr bs \<longrightarrow> bs \<noteq> [] \<longrightarrow> stored_chain fr B (tm_store tm') t' = Inr bs)"
  proof (cases "tm_tenants tm t")
    case (Some s)
    with g getTenant_cached inv show ?thesis by fastforce
  next
    case None
    note res = getTenant_result [OF ok inv g None cs(1)]
    show ?thesis
    proof (cases r)
      case (Inl e)
      have "\<exists>xs. stored_chain fr B (tm_store tm') u = Inr xs \<and> sound_chain ff xs \<and>
         (\<forall>s. tm_tenants tm' u = Some s \<longrightarrow> prefix xs (st_chain s) \<and> st_chain s \<noteq> [] \<and> sound_chain ff (st_chain s))" for u
      proof (cases "u = t")
        case True
        with res Inl None cs sound_genesis show ?thesis by (auto split: if_splits)
      next
        case False
        with res Inl inv show ?thesis by (simp add: tenants_sound_def)
      qed
      with res Inl cs show ?thesis by (cases "t' = t") (auto simp: tenants_sound_def split: if_splits)
    next
      case (Inr s)
      have ch: "st_chain s \<noteq> []" "sound_chain ff (st_chain s)"
        using res Inr cs NewBlockchain_nonempty [of ff ts] by (auto split: if_splits)
      have "tenants_sound ff fr B tm'"
        by (rule tenants_sound_upd [OF inv, of _ t s "st_chain s"]) (use res Inr ch in auto)
      with res Inr cs show ?thesis by (cases "t' = t") auto
    qed
  qed
  then show "tenants_sound ff fr B tm'" "r = Inr st \<Longrightarrow> tm_tenants tm' t = Some st"
    "stored_chain fr B (tm_store tm) t' = Inr bs \<Longrightarrow> bs \<noteq> [] \<Longrightarrow> stored_chain fr B (tm_store tm') t' = Inr bs" by blast+
qed

end
