(* ===== verification/QueryParse.thy ===== *)
theory QueryParse
  imports GoPrelude
begin

text \<open>
  The readers of query parameters in \<^verbatim>\<open>cmd/spectral-cloud/main.go\<close>: integers, tags and tag
  selectors. A query is the list of its decoded parameters in the order in which they occur.
\<close>

type_synonym query = "(string \<times> string) list"

definition query_get :: "query \<Rightarrow> string \<Rightarrow> string" where
  "query_get q key = (case map_of q key of None \<Rightarrow> [] | Some v \<Rightarrow> v)"

definition query_all :: "query \<Rightarrow> string \<Rightarrow> string list" where
  "query_all q key = map snd (filter (\<lambda>kv. fst kv = key) q)"

section \<open>Integers\<close>

text \<open>\<^verbatim>\<open>strconv.Atoi\<close>: an optional sign and decimal digits, within 64 bits.\<close>

definition atoi_digits :: "string \<Rightarrow> nat option" where
  "atoi_digits s = (if s \<noteq> [] \<and> list_all is_digit s then Some (digits_val s) else None)"

definition atoi :: "string \<Rightarrow> int option" where
  "atoi s =
     (case (case s of
              [] \<Rightarrow> None
            | c # cs \<Rightarrow>
                if c = CHR ''-'' then map_option (\<lambda>n. - int n) (atoi_digits cs)
                else if c = CHR ''+'' then map_option int (atoi_digits cs)
                else map_option int (atoi_digits s)) of
        None \<Rightarrow> None | Some n \<Rightarrow> if is_i64 n then Some n else None)"

datatype query_int = Absent | Present int | Invalid string

definition parseIntQuery :: "query \<Rightarrow> string \<Rightarrow> query_int" where
  "parseIntQuery q key =
     (let val = trim_space (query_get q key)
      in if val = [] then Absent
         else case atoi val of None \<Rightarrow> Invalid (''invalid '' @ key) | Some n \<Rightarrow> Present n)"

fun parseIntQueryMulti :: "query \<Rightarrow> string list \<Rightarrow> query_int" where
  "parseIntQueryMulti q [] = Absent"
| "parseIntQueryMulti q (key # keys) =
     (case parseIntQuery q key of Absent \<Rightarrow> parseIntQueryMulti q keys | r \<Rightarrow> r)"

section \<open>Tags\<close>

definition add_tag :: "(string \<rightharpoonup> string) \<Rightarrow> string \<Rightarrow> (string \<rightharpoonup> string)" where
  "add_tag m kv =
     (case split2 (CHR '':'') kv of
        [k, v] \<Rightarrow> if trim_space k \<noteq> [] then m(trim_space k \<mapsto> trim_space v) else m
      | _ \<Rightarrow> m)"

definition parseTags :: "string list \<Rightarrow> (string \<rightharpoonup> string)" where
  "parseTags raw = fold (\<lambda>kv m. add_tag m kv) raw Map.empty"

fun parse_tags_strict :: "(string \<rightharpoonup> string) \<Rightarrow> string list \<Rightarrow> string + (string \<rightharpoonup> string)" where
  "parse_tags_strict m [] = Inr m"
| "parse_tags_strict m (kv # raw) =
     (case split2 (CHR '':'') kv of
        [k, v] \<Rightarrow>
          if blank k \<or> blank v then Inl ''tag must be in key:value format''
          else parse_tags_strict (m(trim_space k \<mapsto> trim_space v)) raw
      | _ \<Rightarrow> Inl ''tag must be in key:value format'')"

definition parseTagsStrict :: "string list \<Rightarrow> string + (string \<rightharpoonup> string)" where
  "parseTagsStrict raw = parse_tags_strict Map.empty raw"

definition add_selector :: "(string \<rightharpoonup> string) \<Rightarrow> string \<Rightarrow> (string \<rightharpoonup> string)" where
  "add_selector sel p =
     (let pair = trim_space p
      in if pair = [] then sel
         else case split2 (CHR ''='') pair of
                [k, v] \<Rightarrow> sel(trim_space k \<mapsto> trim_space v)
              | _ \<Rightarrow> sel)"

definition parseTagSelector :: "string \<Rightarrow> (string \<rightharpoonup> string)" where
  "parseTagSelector s = fold (\<lambda>p sel. add_selector sel p) (split_on (CHR '','') s) Map.empty"

section \<open>Properties\<close>

lemma is_digit_not_sign: "is_digit c \<Longrightarrow> c \<noteq> CHR ''-'' \<and> c \<noteq> CHR ''+''"
  by (auto simp: is_digit_def)

lemma atoi_digits_show_nat [simp]: "atoi_digits (show_nat n) = Some n"
  using show_nat_digits [of n] by (simp add: atoi_digits_def show_nat_nonempty list_all_iff digits_val_show_nat)

text \<open>A number printed in decimal is read back, when it fits in 64 bits, and refused otherwise.\<close>

lemma atoi_show_nat: "atoi (show_nat n) = (if is_i64 (int n) then Some (int n) else None)"
proof -
  obtain c cs where s: "show_nat n = c # cs" using show_nat_nonempty [of n] by (cases "show_nat n") auto
  then have "c \<noteq> CHR ''-'' \<and> c \<noteq> CHR ''+''" using show_nat_digits [of n] is_digit_not_sign by auto
  with s have "atoi (show_nat n) = (case map_option int (atoi_digits (show_nat n)) of
      None \<Rightarrow> None | Some n \<Rightarrow> if is_i64 n then Some n else None)"
    by (simp add: atoi_def)
  then show ?thesis by simp
qed

lemma atoi_show_minus: "atoi (CHR ''-'' # show_nat n) = (if is_i64 (- int n) then Some (- int n) else None)"
  by (simp add: atoi_def)

lemma atoi_range: "atoi s = Some n \<Longrightarrow> is_i64 n"
  by (auto simp: atoi_def split: option.splits if_splits)

lemma add_tag_finite: "finite (dom m) \<Longrightarrow> finite (dom (add_tag m kv))"
  by (auto simp: add_tag_def split: list.splits)

lemma fold_add_tag_finite: "finite (dom m) \<Longrightarrow> finite (dom (fold (\<lambda>kv m. add_tag m kv) raw m))"
  by (induction raw arbitrary: m) (simp_all add: add_tag_finite)

lemma parseTags_finite [simp]: "finite (dom (parseTags raw))"
  by (simp add: parseTags_def fold_add_tag_finite)

text \<open>The strict reader agrees with the lenient one on what it accepts.\<close>

lemma parse_tags_strict_fold: "parse_tags_strict m raw = Inr m' \<Longrightarrow> fold (\<lambda>kv m. add_tag m kv) raw m = m'"
  by (induction m raw rule: parse_tags_strict.induct) (auto simp: add_tag_def split: list.splits if_splits)

lemma parseTagsStrict_lenient: "parseTagsStrict raw = Inr m \<Longrightarrow> parseTags raw = m"
  unfolding parseTagsStrict_def parseTags_def by (rule parse_tags_strict_fold)

end
