(* ===== verification/TenantApi.thy ===== *)
theory TenantApi
  imports TenantManager QueryParse Events
begin

text \<open>
  The HTTP handlers of \<^verbatim>\<open>cmd/spectral-cloud/main.go\<close> that change a tenant's chain and routes, and
  the administration of tenants. A handler takes the method and the decoded parts of the request and
  returns the answer, the events it publishes and sends to the webhook, and the manager afterwards. A
  body is \<open>None\<close> when \<^verbatim>\<open>json.Decoder\<close> refuses it. The state of a tenant is behind a
  pointer the manager's map shares, so a handler's changes to it are changes of the map
  (\<open>set_state\<close>). One handler runs at a time; overlapping requests are the subject of
  \<open>overlapping_saves_lose_block\<close>.
\<close>

section \<open>Requests, answers and configuration\<close>

datatype response = Reply nat | Fail nat string | Panicked

record 'db outcome =
  ao_resp :: response
  ao_events :: "event list"
  ao_hooks :: "event list"
  ao_tm :: "'db tenantManager"

record api_env =
  ae_ff :: "float64 \<Rightarrow> string"
  ae_fj :: "float64 \<Rightarrow> json"
  ae_fr :: "json \<Rightarrow> float64 option"
  ae_defaultTenant :: string
  ae_maxBlocks :: int
  ae_maxRoutes :: int
  ae_signingKey :: string
  ae_broker :: bool
  ae_dispatcher :: bool

text \<open>The times the code reads during a request: two for genesis blocks and one for dropping routes
  when the tenant is loaded, one for each block or route that is added, one when routes are counted,
  one when they are saved.\<close>

record clock =
  ck_genesis :: string
  ck_reload :: string
  ck_load :: instant
  ck_block :: "nat \<Rightarrow> string"
  ck_route :: "nat \<Rightarrow> instant"
  ck_count :: instant
  ck_save :: instant

definition fail_with :: "nat \<Rightarrow> string \<Rightarrow> 'db tenantManager \<Rightarrow> 'db outcome" where
  "fail_with code msg tm = \<lparr>ao_resp = Fail code msg, ao_events = [], ao_hooks = [], ao_tm = tm\<rparr>"

definition reply_with :: "api_env \<Rightarrow> nat \<Rightarrow> event list \<Rightarrow> event list \<Rightarrow> 'db tenantManager \<Rightarrow> 'db outcome" where
  "reply_with E code evs hooks tm = \<lparr>ao_resp = Reply code, ao_events = (if ae_broker E then evs else []),
     ao_hooks = (if ae_dispatcher E then hooks else []), ao_tm = tm\<rparr>"

definition tenant_event :: "string \<Rightarrow> string \<Rightarrow> json \<Rightarrow> event" where
  "tenant_event ty tenant d = zero_event\<lparr>ev_Type := ty, ev_TenantID := tenant, ev_Data := d\<rparr>"

definition set_state :: "'db tenantManager \<Rightarrow> string \<Rightarrow> tenantState \<Rightarrow> 'db tenantManager" where
  "set_state tm tenant st = tm\<lparr>tm_tenants := (tm_tenants tm)(tenant \<mapsto> st)\<rparr>"

definition request_tenant :: "api_env \<Rightarrow> string option \<Rightarrow> string" where
  "request_tenant E ctx = (case ctx of None \<Rightarrow> ae_defaultTenant E | Some t \<Rightarrow> if blank t then ae_defaultTenant E else t)"

definition getState ::
    "api_env \<Rightarrow> 'db bolt \<Rightarrow> clock \<Rightarrow> string option \<Rightarrow> 'db tenantManager \<Rightarrow> (tenantState \<times> string) option \<times> 'db tenantManager" where
  "getState E B ck ctx tm =
     (let tenant = request_tenant E ctx
      in case tm_getTenant (ae_ff E) (ae_fj E) (ae_fr E) B (ck_genesis ck) (ck_reload ck) (ck_load ck) tm tenant of
           (Inl e, tm') \<Rightarrow> (None, tm')
         | (Inr st, tm') \<Rightarrow> (Some (st, tenant), tm'))"

definition save_routes ::
    "'db bolt \<Rightarrow> instant \<Rightarrow> string \<Rightarrow> tenantState \<Rightarrow> 'db tenantManager \<Rightarrow> string option \<times> 'db tenantManager" where
  "save_routes B now tenant st tm =
     (case store_SaveRoutesTenant B now (tm_store tm) tenant (st_router st) of
        (e, db, router') \<Rightarrow> (e, (set_state tm tenant (st\<lparr>st_router := router'\<rparr>))\<lparr>tm_store := db\<rparr>))"

definition finish_saved :: "api_env \<Rightarrow> string option \<times> 'db tenantManager \<Rightarrow> nat \<Rightarrow> event list \<Rightarrow> 'db outcome" where
  "finish_saved E saved code evs =
     (case saved of (Some e, tm) \<Rightarrow> fail_with 500 ''failed to persist routes'' tm
      | (None, tm) \<Rightarrow> reply_with E code evs [] tm)"

section \<open>The chain\<close>

definition handle_blockchain_add ::
    "api_env \<Rightarrow> 'db bolt \<Rightarrow> clock \<Rightarrow> string option \<Rightarrow> string \<Rightarrow> transaction list option \<Rightarrow> 'db tenantManager \<Rightarrow> 'db outcome" where
  "handle_blockchain_add E B ck ctx m body tm =
     (if m \<noteq> ''POST'' then fail_with 405 ''method not allowed'' tm
      else case getState E B ck ctx tm of
        (None, tm1) \<Rightarrow> fail_with 500 ''failed to load tenant'' tm1
      | (Some (st, tenant), tm1) \<Rightarrow>
          if ae_maxBlocks E > 0 \<and> int (bc_Height (st_chain st)) \<ge> ae_maxBlocks E
          then fail_with 429 ''tenant block limit reached'' tm1
          else case body of None \<Rightarrow> fail_with 400 ''invalid JSON body'' tm1
          | Some txs \<Rightarrow>
            (case validateTransactions txs of Some e \<Rightarrow> fail_with 400 e tm1
             | None \<Rightarrow>
               (case bc_AddSignedBlock (ae_ff E) (st_chain st) txs (ae_signingKey E) (ck_block ck 0) of
                  None \<Rightarrow> \<lparr>ao_resp = Panicked, ao_events = [], ao_hooks = [], ao_tm = tm1\<rparr>
                | Some (b, bc) \<Rightarrow>
                    let tm2 = set_state tm1 tenant (st\<lparr>st_chain := bc\<rparr>);
                        ev = tenant_event ''block_added'' tenant (JObj (block_fields (ae_fj E) b))
                    in (case store_SaveChainTenant (ae_fj E) B (tm_store tm2) tenant bc of
                          (Some e, db) \<Rightarrow> fail_with 500 ''failed to persist blockchain'' (tm2\<lparr>tm_store := db\<rparr>)
                        | (None, db) \<Rightarrow> reply_with E 201 [ev] [ev] (tm2\<lparr>tm_store := db\<rparr>)))))"

text \<open>The loop of the import: blocks below the height at the start are skipped, the transactions of
  the others are appended as new blocks. \<open>n\<close> counts the blocks added.\<close>

fun import_blocks :: "api_env \<Rightarrow> clock \<Rightarrow> int \<Rightarrow> nat \<Rightarrow> chain \<Rightarrow> block list \<Rightarrow> (nat \<times> chain) option" where
  "import_blocks E ck height n bc [] = Some (n, bc)"
| "import_blocks E ck height n bc (b # bs) =
     (if bk_Index b < height then import_blocks E ck height n bc bs
      else case bc_AddBlock (ae_ff E) bc (bk_Transactions b) (ck_block ck n) of
             None \<Rightarrow> None
           | Some (_, bc') \<Rightarrow> import_blocks E ck height (n + 1) bc' bs)"

definition handle_blockchain_import ::
    "api_env \<Rightarrow> 'db bolt \<Rightarrow> clock \<Rightarrow> string option \<Rightarrow> string \<Rightarrow> block list option \<Rightarrow> 'db tenantManager \<Rightarrow> 'db outcome" where
  "handle_blockchain_import E B ck ctx m body tm =
     (if m \<noteq> ''POST'' then fail_with 405 ''method not allowed'' tm
      else case getState E B ck ctx tm of
        (None, tm1) \<Rightarrow> fail_with 500 ''failed to load tenant'' tm1
      | (Some (st, tenant), tm1) \<Rightarrow>
        (case body of None \<Rightarrow> fail_with 400 ''invalid import file'' tm1
         | Some blocks \<Rightarrow>
             if blocks = [] then fail_with 400 ''no blocks in import'' tm1
             else if \<not> snd (bc_VerifyChain (ae_ff E) (bc_Load (ae_ff E) (ck_reload ck) blocks))
             then fail_with 400 ''import chain is invalid'' tm1
             else
               (case import_blocks E ck (int (bc_Height (st_chain st))) 0 (st_chain st) blocks of
                  None \<Rightarrow> \<lparr>ao_resp = Panicked, ao_events = [], ao_hooks = [], ao_tm = tm1\<rparr>
                | Some (added, bc) \<Rightarrow>
                    let tm2 = set_state tm1 tenant (st\<lparr>st_chain := bc\<rparr>)
                    in if added > 0
                       then reply_with E 200 [] [] (tm2\<lparr>tm_store := snd (store_SaveChainTenant (ae_fj E) B (tm_store tm2) tenant bc)\<rparr>)
                       else reply_with E 200 [] [] tm2)))"

section \<open>The routes\<close>

fun int_or_zero :: "query_int \<Rightarrow> string + int" where
  "int_or_zero Absent = Inr 0"
| "int_or_zero (Present n) = Inr n"
| "int_or_zero (Invalid e) = Inl e"

definition handle_routes_post ::
    "api_env \<Rightarrow> 'db bolt \<Rightarrow> clock \<Rightarrow> query \<Rightarrow> tenantState \<Rightarrow> string \<Rightarrow> 'db tenantManager \<Rightarrow> 'db outcome" where
  "handle_routes_post E B ck q st tenant tm =
     (let counted = re_RouteCount (st_router st) (ck_count ck);
          st1 = (if ae_maxRoutes E > 0 then st\<lparr>st_router := snd counted\<rparr> else st);
          tm1 = set_state tm tenant st1
      in if ae_maxRoutes E > 0 \<and> int (fst counted) \<ge> ae_maxRoutes E
         then fail_with 429 ''tenant route limit reached'' tm1
         else
           case int_or_zero (parseIntQuery q ''latency'') of Inl e \<Rightarrow> fail_with 400 e tm1
           | Inr lat \<Rightarrow>
           (case int_or_zero (parseIntQuery q ''throughput'') of Inl e \<Rightarrow> fail_with 400 e tm1
            | Inr thr \<Rightarrow>
            (case int_or_zero (parseIntQueryMulti q [''ttlSeconds'', ''ttl_seconds'']) of Inl e \<Rightarrow> fail_with 400 e tm1
             | Inr ttl \<Rightarrow>
               let dest = query_get q ''destination'';
                   satellite = (to_lower (trim_space (query_get q ''satellite'')) = ''true'')
               in if ttl < 0 then fail_with 400 ''ttlSeconds must be non-negative'' tm1
                  else
                    (case re_AddRouteWithOptions (st_router st1) dest
                            \<lparr>rm_Latency = lat, rm_Throughput = thr\<rparr>
                            \<lparr>ro_TTL = (if ttl > 0 then seconds ttl else 0), ro_Satellite = satellite,
                              ro_Tags = parseTags (query_all q ''tag'')\<rparr> (ck_route ck 0) of
                       (Some e, _) \<Rightarrow> fail_with 400 e tm1
                     | (None, router) \<Rightarrow>
                         finish_saved E (save_routes B (ck_save ck) tenant (st1\<lparr>st_router := router\<rparr>) tm1) 201
                           [tenant_event ''route_added'' tenant
                              (JObj [(''destination'', JStr dest), (''satellite'', JBool satellite)])]))))"

definition delete_route ::
    "api_env \<Rightarrow> 'db bolt \<Rightarrow> clock \<Rightarrow> string \<Rightarrow> tenantState \<Rightarrow> string \<Rightarrow> 'db tenantManager \<Rightarrow> 'db outcome" where
  "delete_route E B ck dest st tenant tm =
     (case re_DeleteRoute (st_router st) dest of
        (Some e, _) \<Rightarrow> fail_with 404 ''route not found'' tm
      | (None, router) \<Rightarrow>
          finish_saved E (save_routes B (ck_save ck) tenant (st\<lparr>st_router := router\<rparr>) tm) 204
                    [tenant_event ''route_deleted'' tenant (JObj [(''destination'', JStr dest)])])"

text \<open>A read answers with the routes and drops the expired ones from the table.\<close>

definition handle_routes ::
    "api_env \<Rightarrow> 'db bolt \<Rightarrow> clock \<Rightarrow> string option \<Rightarrow> string \<Rightarrow> query \<Rightarrow> 'db tenantManager \<Rightarrow> 'db outcome" where
  "handle_routes E B ck ctx m q tm =
     (case getState E B ck ctx tm of
        (None, tm1) \<Rightarrow> fail_with 500 ''failed to load tenant'' tm1
      | (Some (st, tenant), tm1) \<Rightarrow>
          if m = ''POST'' then handle_routes_post E B ck q st tenant tm1
          else if m = ''DELETE'' then
            (let dest = trim_space (query_get q ''destination'')
             in if dest = [] then fail_with 400 ''destination is required'' tm1
                else delete_route E B ck dest st tenant tm1)
          else if m = ''GET'' then
            reply_with E 200 [] [] (set_state tm1 tenant (st\<lparr>st_router := snd (re_ListRoutes (st_router st) (ck_count ck))\<rparr>))
          else fail_with 405 ''method not allowed'' tm1)"

record route_patch =
  rp_Latency :: "int option"
  rp_Throughput :: "int option"
  rp_TTLSeconds :: "int option"
  rp_Satellite :: "bool option"
  rp_Tags :: "(string \<rightharpoonup> string) option"

text \<open>\<open>patch_options\<close>: the options of the update, or the answer that refuses it.\<close>

definition patch_options :: "route_patch \<Rightarrow> routes \<Rightarrow> string \<Rightarrow> instant \<Rightarrow> (nat \<times> string) + update_route_options" where
  "patch_options p router dest now =
     (case (if rp_Latency p \<noteq> None \<or> rp_Throughput p \<noteq> None then
              (case re_GetRoute router dest now of Inl e \<Rightarrow> Inl (404, ''route not found'')
               | Inr cur \<Rightarrow>
                   Inr (Some \<lparr>rm_Latency = (case rp_Latency p of None \<Rightarrow> rm_Latency (rt_Metric cur) | Some l \<Rightarrow> l),
                              rm_Throughput = (case rp_Throughput p of None \<Rightarrow> rm_Throughput (rt_Metric cur) | Some t \<Rightarrow> t)\<rparr>))
            else Inr None) of
        Inl e \<Rightarrow> Inl e
      | Inr metric \<Rightarrow>
          if (case rp_TTLSeconds p of None \<Rightarrow> False | Some t \<Rightarrow> t < 0) then Inl (400, ''ttl_seconds must be non-negative'')
          else Inr \<lparr>uo_Metric = metric, uo_TTL = map_option seconds (rp_TTLSeconds p),
                    uo_Satellite = rp_Satellite p, uo_Tags = rp_Tags p\<rparr>)"

definition handle_route ::
    "api_env \<Rightarrow> 'db bolt \<Rightarrow> clock \<Rightarrow> string option \<Rightarrow> string \<Rightarrow> string option \<Rightarrow> route_patch option \<Rightarrow> 'db tenantManager \<Rightarrow> 'db outcome" where
  "handle_route E B ck ctx m path body tm =
     (case getState E B ck ctx tm of
        (None, tm1) \<Rightarrow> fail_with 500 ''failed to load tenant'' tm1
      | (Some (st, tenant), tm1) \<Rightarrow>
        (case path of None \<Rightarrow> fail_with 400 ''invalid route destination'' tm1
         | Some dest \<Rightarrow>
             if dest = [] then fail_with 400 ''missing route destination'' tm1
             else if m = ''GET'' then
               (case re_GetRoute (st_router st) dest (ck_count ck) of
                  Inl e \<Rightarrow> fail_with 404 ''route not found'' tm1 | Inr r \<Rightarrow> reply_with E 200 [] [] tm1)
             else if m = ''PATCH'' then
               (case body of None \<Rightarrow> fail_with 400 ''invalid body'' tm1
                | Some p \<Rightarrow>
                  (case patch_options p (st_router st) dest (ck_count ck) of
                     Inl (code, e) \<Rightarrow> fail_with code e tm1
                   | Inr opts \<Rightarrow>
                     (case re_UpdateRoute (st_router st) dest opts (ck_route ck 0) of
                        (Inl e, router) \<Rightarrow>
                          (let tm2 = set_state tm1 tenant (st\<lparr>st_router := router\<rparr>)
                           in if e = ''route not found'' then fail_with 404 e tm2 else fail_with 400 e tm2)
                      | (Inr r, router) \<Rightarrow>
                          finish_saved E (save_routes B (ck_save ck) tenant (st\<lparr>st_router := router\<rparr>) tm1) 200
                    [tenant_event ''route.updated'' tenant (JObj [(''destination'', JStr dest)])])))
             else if m = ''DELETE'' then delete_route E B ck dest st tenant tm1
             else fail_with 405 ''method not allowed'' tm1))"

record batch_entry =
  be_Destination :: string
  be_Latency :: int
  be_Throughput :: int
  be_TTLSeconds :: int
  be_Satellite :: bool
  be_Tags :: "string \<rightharpoonup> string"

text \<open>The loop of a batch: entries the engine refuses are left out; \<open>n\<close> numbers the entries.\<close>

fun batch_add :: "clock \<Rightarrow> nat \<Rightarrow> nat \<Rightarrow> routes \<Rightarrow> batch_entry list \<Rightarrow> nat \<times> routes" where
  "batch_add ck n added rs [] = (added, rs)"
| "batch_add ck n added rs (e # es) =
     (case re_AddRouteWithOptions rs (be_Destination e)
             \<lparr>rm_Latency = be_Latency e, rm_Throughput = be_Throughput e\<rparr>
             \<lparr>ro_TTL = (if be_TTLSeconds e > 0 then seconds (be_TTLSeconds e) else 0),
               ro_Satellite = be_Satellite e, ro_Tags = be_Tags e\<rparr> (ck_route ck n) of
        (None, rs') \<Rightarrow> batch_add ck (n + 1) (added + 1) rs' es
      | (Some _, rs') \<Rightarrow> batch_add ck (n + 1) added rs' es)"

fun batch_delete :: "nat \<Rightarrow> nat \<Rightarrow> routes \<Rightarrow> string list \<Rightarrow> nat \<times> nat \<times> routes" where
  "batch_delete deleted notFound rs [] = (deleted, notFound, rs)"
| "batch_delete deleted notFound rs (d # ds) =
     (let dst = trim_space d
      in if dst = [] then batch_delete deleted notFound rs ds
         else case re_DeleteRoute rs dst of
                (Some _, _) \<Rightarrow> batch_delete deleted (notFound + 1) rs ds
              | (None, rs') \<Rightarrow> batch_delete (deleted + 1) notFound rs' ds)"

definition handle_routes_batch ::
    "api_env \<Rightarrow> 'db bolt \<Rightarrow> clock \<Rightarrow> string option \<Rightarrow> string \<Rightarrow> batch_entry list option \<Rightarrow> string list option \<Rightarrow> 'db tenantManager \<Rightarrow> 'db outcome" where
  "handle_routes_batch E B ck ctx m entries_body dests_body tm =
     (case getState E B ck ctx tm of
        (None, tm1) \<Rightarrow> fail_with 500 ''failed to load tenant'' tm1
      | (Some (st, tenant), tm1) \<Rightarrow>
          if m = ''POST'' then
            (case entries_body of None \<Rightarrow> fail_with 400 ''invalid JSON body'' tm1
             | Some entries \<Rightarrow>
                 if entries = [] then fail_with 400 ''at least one route is required'' tm1
                 else
                   let counted = re_RouteCount (st_router st) (ck_count ck);
                       st1 = (if ae_maxRoutes E > 0 then st\<lparr>st_router := snd counted\<rparr> else st)
                   in if ae_maxRoutes E > 0 \<and> int (fst counted + length entries) > ae_maxRoutes E
                      then fail_with 429 ''tenant route limit would be exceeded'' (set_state tm1 tenant st1)
                      else
                        (case batch_add ck 0 0 (st_router st1) entries of (added, router) \<Rightarrow>
                          finish_saved E (save_routes B (ck_save ck) tenant (st1\<lparr>st_router := router\<rparr>) tm1) 201
                    []))
          else if m = ''DELETE'' then
            (case dests_body of None \<Rightarrow> fail_with 400 ''invalid JSON body'' tm1
             | Some dests \<Rightarrow>
                 if dests = [] then fail_with 400 ''at least one destination is required'' tm1
                 else
                   (case batch_delete 0 0 (st_router st) dests of (deleted, notFound, router) \<Rightarrow>
                      if deleted > 0 then
                        finish_saved E (save_routes B (ck_save ck) tenant (st\<lparr>st_router := router\<rparr>) tm1) 200
                    []
                      else reply_with E 200 [] [] tm1))
          else fail_with 405 ''method not allowed'' tm1)"

text \<open>The loop of the import of routes: the lease of an imported route is what is left of it, and a
  route whose lease has run out is added without one.\<close>

fun import_routes :: "clock \<Rightarrow> nat \<Rightarrow> nat \<Rightarrow> nat \<Rightarrow> routes \<Rightarrow> route list \<Rightarrow> nat \<times> nat \<times> routes" where
  "import_routes ck n added skipped rs [] = (added, skipped, rs)"
| "import_routes ck n added skipped rs (r # imp) =
     (let ttl = (case rt_ExpiresAt r of None \<Rightarrow> 0
                 | Some e \<Rightarrow> let d = time_sub e (ck_route ck (2 * n)) in if d > 0 then d else 0)
      in case re_AddRouteWithOptions rs (rt_Destination r) (rt_Metric r)
                \<lparr>ro_TTL = ttl, ro_Satellite = rt_Satellite r, ro_Tags = rt_Tags r\<rparr> (ck_route ck (2 * n + 1)) of
           (Some _, _) \<Rightarrow> import_routes ck (n + 1) added (skipped + 1) rs imp
         | (None, rs') \<Rightarrow> import_routes ck (n + 1) (added + 1) skipped rs' imp)"

definition handle_routes_import ::
    "api_env \<Rightarrow> 'db bolt \<Rightarrow> clock \<Rightarrow> string option \<Rightarrow> string \<Rightarrow> route list option \<Rightarrow> 'db tenantManager \<Rightarrow> 'db outcome" where
  "handle_routes_import E B ck ctx m body tm =
     (if m \<noteq> ''POST'' then fail_with 405 ''method not allowed'' tm
      else case getState E B ck ctx tm of
        (None, tm1) \<Rightarrow> fail_with 500 ''failed to load tenant'' tm1
      | (Some (st, tenant), tm1) \<Rightarrow>
        (case body of None \<Rightarrow> fail_with 400 ''invalid import file'' tm1
         | Some imp \<Rightarrow>
             (case import_routes ck 0 0 0 (st_router st) imp of (added, skipped, router) \<Rightarrow>
                let tm2 = (if added > 0 then snd (save_routes B (ck_save ck) tenant (st\<lparr>st_router := router\<rparr>) tm1)
                           else set_state tm1 tenant (st\<lparr>st_router := router\<rparr>));
                    st2 = the (tm_tenants tm2 tenant)
                in reply_with E 200 [] []
                     (set_state tm2 tenant (st2\<lparr>st_router := snd (re_RouteCount (st_router st2) (ck_count ck))\<rparr>)))))"

section \<open>The tenants\<close>

text \<open>Listing loads every tenant, in the order of their names, and counts its routes.\<close>

fun list_tenants ::
    "api_env \<Rightarrow> 'db bolt \<Rightarrow> clock \<Rightarrow> 'db tenantManager \<Rightarrow> string list \<Rightarrow> (string \<times> nat \<times> nat) list option \<times> 'db tenantManager" where
  "list_tenants E B ck tm [] = (Some [], tm)"
| "list_tenants E B ck tm (name # names) =
     (case tm_getTenant (ae_ff E) (ae_fj E) (ae_fr E) B (ck_genesis ck) (ck_reload ck) (ck_load ck) tm name of
        (Inl e, tm1) \<Rightarrow> (None, tm1)
      | (Inr st, tm1) \<Rightarrow>
          let counted = re_RouteCount (st_router st) (ck_count ck);
              tm2 = set_state tm1 name (st\<lparr>st_router := snd counted\<rparr>)
          in (case list_tenants E B ck tm2 names of
                (None, tm3) \<Rightarrow> (None, tm3)
              | (Some out, tm3) \<Rightarrow> (Some ((name, bc_Height (st_chain st), fst counted) # out), tm3)))"

definition contains_sub :: "string \<Rightarrow> string \<Rightarrow> bool" where
  "contains_sub s sub = sublist sub s"

definition handle_admin_tenants ::
    "api_env \<Rightarrow> 'db bolt \<Rightarrow> clock \<Rightarrow> string \<Rightarrow> string option \<Rightarrow> query \<Rightarrow> 'db tenantManager \<Rightarrow> 'db outcome" where
  "handle_admin_tenants E B ck m body q tm =
     (if m = ''GET'' then
        (case store_TenantNames B (tm_store tm) of
           Inl e \<Rightarrow> fail_with 500 ''failed to list tenants'' tm
         | Inr names \<Rightarrow>
             let names' = (if ae_defaultTenant E \<noteq> [] \<and> ae_defaultTenant E \<notin> set names
                           then names @ [ae_defaultTenant E] else names)
             in (case list_tenants E B ck tm (sort names') of
                   (None, tm1) \<Rightarrow> fail_with 500 ''failed to load tenant'' tm1
                 | (Some out, tm1) \<Rightarrow> reply_with E 200 [] [] tm1))
      else if m = ''POST'' then
        (case body of None \<Rightarrow> fail_with 400 ''invalid JSON body'' tm
         | Some raw \<Rightarrow>
             let name = trim_space raw
             in if name = [] then fail_with 400 ''name is required'' tm
                else (case store_EnsureTenant B (tm_store tm) name of
                        (Some e, db) \<Rightarrow> fail_with 500 ''failed to create tenant'' (tm\<lparr>tm_store := db\<rparr>)
                      | (None, db) \<Rightarrow> reply_with E 201 [] [] (tm\<lparr>tm_store := db\<rparr>)))
      else if m = ''DELETE'' then
        (let name = trim_space (query_get q ''name'')
         in if name = [] then fail_with 400 ''name is required'' tm
            else (case store_DeleteTenant B (tm_store tm) name of
                    (Some e, db) \<Rightarrow>
                      (if contains_sub e ''not found'' then fail_with 404 ''tenant not found'' (tm\<lparr>tm_store := db\<rparr>)
                       else fail_with 400 e (tm\<lparr>tm_store := db\<rparr>))
                  | (None, db) \<Rightarrow> reply_with E 204 [] [] (tm_evict (tm\<lparr>tm_store := db\<rparr>) name)))
      else fail_with 405 ''method not allowed'' tm)"

section \<open>Sequences of requests\<close>

text \<open>
  What can happen to the tenants of a server: the requests above, a restart, which forgets the memory
  and keeps the database, and the writes of the other components into a tenant's bucket.
\<close>

datatype api_req =
    ReqAdd clock "string option" string "transaction list option"
  | ReqImport clock "string option" string "block list option"
  | ReqRoutes clock "string option" string query
  | ReqRoute clock "string option" string "string option" "route_patch option"
  | ReqBatch clock "string option" string "batch_entry list option" "string list option"
  | ReqRouteImport clock "string option" string "route list option"
  | ReqTenants clock string "string option" query
  | ReqRestart
  | ReqPut string string blob
  | ReqDelete string string

fun api_exec :: "api_env \<Rightarrow> 'db bolt \<Rightarrow> api_req \<Rightarrow> 'db tenantManager \<Rightarrow> 'db tenantManager" where
  "api_exec E B (ReqAdd ck ctx m body) tm = ao_tm (handle_blockchain_add E B ck ctx m body tm)"
| "api_exec E B (ReqImport ck ctx m body) tm = ao_tm (handle_blockchain_import E B ck ctx m body tm)"
| "api_exec E B (ReqRoutes ck ctx m q) tm = ao_tm (handle_routes E B ck ctx m q tm)"
| "api_exec E B (ReqRoute ck ctx m path body) tm = ao_tm (handle_route E B ck ctx m path body tm)"
| "api_exec E B (ReqBatch ck ctx m es ds) tm = ao_tm (handle_routes_batch E B ck ctx m es ds tm)"
| "api_exec E B (ReqRouteImport ck ctx m body) tm = ao_tm (handle_routes_import E B ck ctx m body tm)"
| "api_exec E B (ReqTenants ck m body q) tm = ao_tm (handle_admin_tenants E B ck m body q tm)"
| "api_exec E B ReqRestart tm = newTenantManager (tm_store tm)"
| "api_exec E B (ReqPut t k v) tm = tm\<lparr>tm_store := snd (store_PutKV B (tm_store tm) t k v)\<rparr>"
| "api_exec E B (ReqDelete t k) tm = tm\<lparr>tm_store := snd (store_DeleteKV B (tm_store tm) t k)\<rparr>"

definition api_run :: "api_env \<Rightarrow> 'db bolt \<Rightarrow> api_req list \<Rightarrow> 'db tenantManager \<Rightarrow> 'db tenantManager" where
  "api_run E B reqs tm = fold (api_exec E B) reqs tm"

text \<open>The other components do not write the keys of the chain and the routes.\<close>

fun own_keys :: "api_req \<Rightarrow> bool" where
  "own_keys (ReqPut t k v) \<longleftrightarrow> k \<noteq> ''blocks'' \<and> k \<noteq> ''routes''"
| "own_keys (ReqDelete t k) \<longleftrightarrow> k \<noteq> ''blocks'' \<and> k \<noteq> ''routes''"
| "own_keys _ \<longleftrightarrow> True"

text \<open>The tenants a request asks to delete.\<close>

fun req_deletes :: "api_req \<Rightarrow> string set" where
  "req_deletes (ReqTenants ck m body q) = (if m = ''DELETE'' then {trim_space (query_get q ''name'')} else {})"
| "req_deletes _ = {}"

section \<open>Stored chains only grow\<close>

definition chains_kept ::
    "(float64 \<Rightarrow> string) \<Rightarrow> (json \<Rightarrow> float64 option) \<Rightarrow> 'db bolt \<Rightarrow> string set \<Rightarrow> 'db tenantManager \<Rightarrow> 'db tenantManager \<Rightarrow> bool" where
  "chains_kept ff fr B D tm tm' \<longleftrightarrow> tenants_sound ff fr B tm' \<and>
     (\<forall>t bs. t \<notin> D \<longrightarrow> stored_chain fr B (tm_store tm) t = Inr bs \<longrightarrow>
        (\<exists>bs'. stored_chain fr B (tm_store tm') t = Inr bs' \<and> prefix bs bs'))"

lemma chains_kept_refl: "tenants_sound ff fr B tm \<Longrightarrow> chains_kept ff fr B D tm tm"
  by (simp add: chains_kept_def)

lemma chains_kept_trans:
  "chains_kept ff fr B D tm tm' \<Longrightarrow> chains_kept ff fr B D tm' tm'' \<Longrightarrow> chains_kept ff fr B D tm tm''"
  unfolding chains_kept_def by (meson prefix_order.trans)

lemma chains_kept_same:
  assumes "tenants_sound ff fr B tm'" "\<And>t. t \<notin> D \<Longrightarrow> stored_chain fr B (tm_store tm') t = stored_chain fr B (tm_store tm) t"
  shows "chains_kept ff fr B D tm tm'"
  using assms by (simp add: chains_kept_def)

lemma chains_kept_sound: "chains_kept ff fr B D tm tm' \<Longrightarrow> tenants_sound ff fr B tm'"
  by (simp add: chains_kept_def)

lemma tenants_sound_stored: "tenants_sound ff fr B tm \<Longrightarrow> \<exists>bs. stored_chain fr B (tm_store tm) t = Inr bs"
  unfolding tenants_sound_def by blast

text \<open>The interface the lemmas below rely on: a database that behaves, a codec that reads back.\<close>

lemma getTenant_kept:
  assumes "bolt_ok B" "float_codec fj fr" "tenants_sound ff fr B tm"
    and g: "tm_getTenant ff fj fr B ts ts' now tm t = (r, tm')"
  shows "chains_kept ff fr B D tm tm'"
proof -
  note s = getTenant_sound [OF assms]
  have "\<exists>bs'. stored_chain fr B (tm_store tm') u = Inr bs' \<and> prefix bs bs'"
    if "stored_chain fr B (tm_store tm) u = Inr bs" for u bs
    using s(3) [OF that] tenants_sound_stored [OF s(1), of u] by (cases "bs = []") auto
  with s(1) show ?thesis by (simp add: chains_kept_def)
qed

lemma set_router_kept:
  assumes "tenants_sound ff fr B tm" "tm_tenants tm t = Some st0" "st_chain st = st_chain st0"
  shows "chains_kept ff fr B D tm (set_state tm t st)"
proof (rule chains_kept_same)
  show "tenants_sound ff fr B (set_state tm t st)"
    using assms by (intro tenants_sound_cong [OF assms(1)]) (auto simp: set_state_def tenants_soundD split: if_splits)
qed (simp add: set_state_def)

lemma SaveRoutes_keeps:
  assumes "bolt_ok B" "store_SaveRoutesTenant B now db t router = (e, db', router')" "has_bucket B db tenants_path"
  shows "has_bucket B db' tenants_path" "stored_chain fr B db' t' = stored_chain fr B db t'"
proof -
  from assms(2) have "store_WriteRoutesTenant B db t (fst (re_ListRoutes router now)) = (e, db')"
    by (auto simp: store_SaveRoutesTenant_def store_WriteRoutesTenant_def split: prod.splits)
  from WriteRoutes_keeps [OF assms(1) this assms(3)]
  show "has_bucket B db' tenants_path" "stored_chain fr B db' t' = stored_chain fr B db t'"
    by (simp_all add: stored_chain_def)
qed

lemma save_routes_kept:
  assumes "bolt_ok B" "tenants_sound ff fr B tm" "tm_tenants tm t = Some st0" "st_chain st = st_chain st0"
    and s: "save_routes B now t st tm = (e, tm')"
  shows "chains_kept ff fr B D tm tm'"
proof -
  obtain db' router' where w: "store_SaveRoutesTenant B now (tm_store tm) t (st_router st) = (e, db', router')"
    and tm': "tm' = (set_state tm t (st\<lparr>st_router := router'\<rparr>))\<lparr>tm_store := db'\<rparr>"
    using s by (auto simp: save_routes_def split: prod.splits)
  note k = SaveRoutes_keeps [OF assms(1) w tenants_soundD(1) [OF assms(2)]]
  show ?thesis
  proof (rule chains_kept_same)
    show "tenants_sound ff fr B tm'"
      using assms(3,4) k by (intro tenants_sound_cong [OF assms(2)]) (auto simp: tm' set_state_def split: if_splits)
  qed (simp add: tm' k)
qed

lemma save_routes_tenant:
  "save_routes B now t st tm = (e, tm') \<Longrightarrow> \<exists>st'. tm_tenants tm' t = Some st' \<and> st_chain st' = st_chain st"
  by (auto simp: save_routes_def set_state_def split: prod.splits)

text \<open>A longer chain in memory, saved or not.\<close>

lemma chain_grown_kept:
  assumes ok: "bolt_ok B" "float_codec fj fr" and inv: "tenants_sound ff fr B tm" "tm_tenants tm t = Some st"
    and bc: "prefix (st_chain st) bc" "sound_chain ff bc"
  shows "chains_kept ff fr B D tm (set_state tm t (st\<lparr>st_chain := bc\<rparr>))"
    and "store_SaveChainTenant fj B (tm_store tm) t bc = (e, db) \<Longrightarrow>
      chains_kept ff fr B D tm ((set_state tm t (st\<lparr>st_chain := bc\<rparr>))\<lparr>tm_store := db\<rparr>)"
proof -
  obtain bs where bs: "stored_chain fr B (tm_store tm) t = Inr bs" "sound_chain ff bs" "prefix bs (st_chain st)" "st_chain st \<noteq> []"
    using inv unfolding tenants_sound_def by metis
  have ne: "bc \<noteq> []" and pre: "prefix bs bc" using bs bc(1) by auto
  have mem: "tenants_sound ff fr B (set_state tm t (st\<lparr>st_chain := bc\<rparr>))"
    by (rule tenants_sound_upd [OF inv(1), where t = t and st = "st\<lparr>st_chain := bc\<rparr>" and bs = bs])
      (use bs bc ne pre tenants_soundD(1) [OF inv(1)] in \<open>simp_all add: set_state_def\<close>)
  then show "chains_kept ff fr B D tm (set_state tm t (st\<lparr>st_chain := bc\<rparr>))"
    by (intro chains_kept_same) (simp_all add: set_state_def)
  assume s: "store_SaveChainTenant fj B (tm_store tm) t bc = (e, db)"
  show "chains_kept ff fr B D tm ((set_state tm t (st\<lparr>st_chain := bc\<rparr>))\<lparr>tm_store := db\<rparr>)"
  proof (cases e)
    case (Some x)
    with s SaveChain_err [OF ok(1)] have "db = tm_store tm" by blast
    then have "(set_state tm t (st\<lparr>st_chain := bc\<rparr>))\<lparr>tm_store := db\<rparr> = set_state tm t (st\<lparr>st_chain := bc\<rparr>)"
      by (simp add: set_state_def)
    with mem show ?thesis by (intro chains_kept_same) (simp_all add: set_state_def)
  next
    case None
    note sv = SaveChain_stored [OF ok bc(2) s [unfolded None]]
    have oth: "u \<noteq> t \<Longrightarrow> stored_chain fr B db u = stored_chain fr B (tm_store tm) u" for u
      by (intro stored_chain_cong SaveChain_others [OF ok(1) s] disjI1)
    have "tenants_sound ff fr B ((set_state tm t (st\<lparr>st_chain := bc\<rparr>))\<lparr>tm_store := db\<rparr>)"
      by (rule tenants_sound_upd [OF inv(1), where t = t and st = "st\<lparr>st_chain := bc\<rparr>" and bs = bc])
        (use sv oth bc ne in \<open>simp_all add: set_state_def\<close>)
    with sv oth bs pre show ?thesis unfolding chains_kept_def
      by (metis prefix_order.refl sum.inject(2) tenantManager.select_convs(1) tenantManager.surjective tenantManager.update_convs(1))
  qed
qed

section \<open>Every request keeps the stored chains\<close>

definition api_ok :: "api_env \<Rightarrow> 'db bolt \<Rightarrow> bool" where
  "api_ok E B \<longleftrightarrow> bolt_ok B \<and> float_codec (ae_fj E) (ae_fr E)"

abbreviation sound :: "api_env \<Rightarrow> 'db bolt \<Rightarrow> 'db tenantManager \<Rightarrow> bool" where
  "sound E B tm \<equiv> tenants_sound (ae_ff E) (ae_fr E) B tm"

abbreviation kept :: "api_env \<Rightarrow> 'db bolt \<Rightarrow> string set \<Rightarrow> 'db tenantManager \<Rightarrow> 'db tenantManager \<Rightarrow> bool" where
  "kept E B D tm tm' \<equiv> chains_kept (ae_ff E) (ae_fr E) B D tm tm'"

lemma outcome_simps [simp]:
  "ao_tm (fail_with c e tm) = tm" "ao_tm (reply_with E c evs hs tm) = tm"
  "ao_resp (fail_with c e tm) = Fail c e" "ao_resp (reply_with E c evs hs tm) = Reply c"
  by (simp_all add: fail_with_def reply_with_def)

lemma set_state_simps [simp]: "tm_store (set_state tm t st) = tm_store tm" "tm_tenants (set_state tm t st) t = Some st"
  by (simp_all add: set_state_def)

lemma api_okD: "api_ok E B \<Longrightarrow> bolt_ok B" "api_ok E B \<Longrightarrow> float_codec (ae_fj E) (ae_fr E)"
  by (simp_all add: api_ok_def)

text \<open>A handler starts by loading its tenant; what it does then is judged from there.\<close>

lemma getState_kept:
  assumes "api_ok E B" "sound E B tm" "getState E B ck ctx tm = (r, tm1)"
  shows "kept E B D tm tm1" and "sound E B tm1"
    and "r = Some (st, tenant) \<Longrightarrow> tm_tenants tm1 tenant = Some st"
proof -
  let ?t = "request_tenant E ctx"
  obtain q where g: "tm_getTenant (ae_ff E) (ae_fj E) (ae_fr E) B (ck_genesis ck) (ck_reload ck) (ck_load ck) tm ?t = (q, tm1)"
    and r: "r = (case q of Inl e \<Rightarrow> None | Inr st \<Rightarrow> Some (st, ?t))"
    using assms(3) by (auto simp: getState_def Let_def split: prod.splits sum.splits)
  have ok: "bolt_ok B" "float_codec (ae_fj E) (ae_fr E)" using assms(1) by (simp_all add: api_ok_def)
  from getTenant_kept [OF ok assms(2) g] show "kept E B D tm tm1" .
  then show "sound E B tm1" by (rule chains_kept_sound)
  assume "r = Some (st, tenant)"
  with r have "q = Inr st" "tenant = ?t" by (auto split: sum.splits)
  with getTenant_sound(2) [OF ok assms(2) g] show "tm_tenants tm1 tenant = Some st" by blast
qed

lemma after_getState:
  assumes ok: "api_ok E B" "sound E B tm" and g: "getState E B ck ctx tm = (r, tm1)"
    and r: "\<And>st tenant. r = Some (st, tenant) \<Longrightarrow> sound E B tm1 \<Longrightarrow> tm_tenants tm1 tenant = Some st \<Longrightarrow> kept E B D tm1 tm'"
    and none: "r = None \<Longrightarrow> tm' = tm1"
  shows "kept E B D tm tm'"
proof (rule chains_kept_trans)
  show "kept E B D tm tm1" by (rule getState_kept(1) [OF ok g])
  show "kept E B D tm1 tm'"
  proof (cases r)
    case None
    with none show ?thesis using chains_kept_refl getState_kept(2) [OF ok g] by blast
  next
    case (Some p)
    obtain st tenant where p: "p = (st, tenant)" by (cases p)
    show ?thesis
      by (rule r [of st tenant]) (use Some p getState_kept(2,3) [OF ok g] in auto)
  qed
qed

lemma import_blocks_grow:
  "import_blocks E ck h n bc bs = Some (k, bc') \<Longrightarrow> sound_chain (ae_ff E) bc \<Longrightarrow> prefix bc bc' \<and> sound_chain (ae_ff E) bc'"
proof (induction E ck h n bc bs rule: import_blocks.induct)
  case (2 E ck height n bc b bs)
  show ?case
  proof (cases "bk_Index b < height")
    case True
    with 2 show ?thesis by simp
  next
    case False
    with 2(3) obtain x bc1 where a: "bc_AddBlock (ae_ff E) bc (bk_Transactions b) (ck_block ck n) = Some (x, bc1)"
      and i: "import_blocks E ck height (n + 1) bc1 bs = Some (k, bc')"
      by (auto split: option.splits)
    from AddBlock_sound [OF a 2(4)] have "bc1 = bc @ [x]" "sound_chain (ae_ff E) bc1" by blast+
    with 2(2) [OF False a _ i] show ?thesis by (auto simp: append_prefixD)
  qed
qed simp

lemma add_kept:
  assumes ok: "api_ok E B" "sound E B tm"
  shows "kept E B D tm (ao_tm (handle_blockchain_add E B ck ctx m body tm))"
proof (cases "m = ''POST''")
  case True
  obtain r tm1 where g: "getState E B ck ctx tm = (r, tm1)" by fastforce
  show ?thesis
  proof (rule after_getState [OF ok g])
    fix st tenant
    assume r: "r = Some (st, tenant)" and inv: "sound E B tm1" "tm_tenants tm1 tenant = Some st"
    note same = chains_kept_refl [OF inv(1)]
    have "kept E B D tm1 (ao_tm (case store_SaveChainTenant (ae_fj E) B (tm_store tm1) tenant bc of
        (Some e, db) \<Rightarrow> fail_with 500 msg (set_state tm1 tenant (st\<lparr>st_chain := bc\<rparr>)\<lparr>tm_store := db\<rparr>)
      | (None, db) \<Rightarrow> reply_with E 201 evs hs (set_state tm1 tenant (st\<lparr>st_chain := bc\<rparr>)\<lparr>tm_store := db\<rparr>)))"
      if "bc_AddSignedBlock (ae_ff E) (st_chain st) txs (ae_signingKey E) ts = Some (b, bc)" for txs ts b bc msg evs hs
    proof -
      have "prefix (st_chain st) bc" "sound_chain (ae_ff E) bc"
        using AddSignedBlock_sound [OF that] tenants_soundD(2) [OF inv] by auto
      from chain_grown_kept(2) [OF api_okD [OF ok(1)] inv this] show ?thesis
        by (auto split: prod.splits option.splits)
    qed
    with same True g r show "kept E B D tm1 (ao_tm (handle_blockchain_add E B ck ctx m body tm))"
      by (auto simp: handle_blockchain_add_def Let_def split: option.splits)
  qed (use True g in \<open>simp add: handle_blockchain_add_def\<close>)
qed (simp add: handle_blockchain_add_def chains_kept_refl [OF ok(2)])

lemma import_kept:
  assumes ok: "api_ok E B" "sound E B tm"
  shows "kept E B D tm (ao_tm (handle_blockchain_import E B ck ctx m body tm))"
proof (cases "m = ''POST''")
  case True
  obtain r tm1 where g: "getState E B ck ctx tm = (r, tm1)" by fastforce
  show ?thesis
  proof (rule after_getState [OF ok g])
    fix st tenant
    assume r: "r = Some (st, tenant)" and inv: "sound E B tm1" "tm_tenants tm1 tenant = Some st"
    note same = chains_kept_refl [OF inv(1)]
    have "kept E B D tm1 (set_state tm1 tenant (st\<lparr>st_chain := bc\<rparr>)\<lparr>tm_store := snd (store_SaveChainTenant (ae_fj E) B (tm_store tm1) tenant bc)\<rparr>)"
      "kept E B D tm1 (set_state tm1 tenant (st\<lparr>st_chain := bc\<rparr>))"
      if "import_blocks E ck h 0 (st_chain st) blocks = Some (k, bc)" for h blocks k bc
    proof -
      have "prefix (st_chain st) bc" "sound_chain (ae_ff E) bc"
        using import_blocks_grow [OF that] tenants_soundD(2) [OF inv] by auto
      note kg = chain_grown_kept [OF api_okD [OF ok(1)] inv this]
      from kg(1) show "kept E B D tm1 (set_state tm1 tenant (st\<lparr>st_chain := bc\<rparr>))" .
      from kg(2) show "kept E B D tm1 (set_state tm1 tenant (st\<lparr>st_chain := bc\<rparr>)\<lparr>tm_store := snd (store_SaveChainTenant (ae_fj E) B (tm_store tm1) tenant bc)\<rparr>)"
        by (metis prod.collapse)
    qed
    with same True g r show "kept E B D tm1 (ao_tm (handle_blockchain_import E B ck ctx m body tm))"
      by (auto simp: handle_blockchain_import_def Let_def split: option.splits)
  qed (use True g in \<open>simp add: handle_blockchain_import_def\<close>)
qed (simp add: handle_blockchain_import_def chains_kept_refl [OF ok(2)])

text \<open>The handlers of routes end in one of three ways: nothing changed, a table changed, a table
  changed and saved.\<close>

lemma saved_outcome [simp]:
  "ao_tm (finish_saved E p c evs) = snd p"
  by (simp add: finish_saved_def split: prod.splits option.splits)

lemma route_outcomes:
  assumes ok: "api_ok E B" and inv: "sound E B tm1" "tm_tenants tm1 tenant = Some st"
  shows "kept E B D tm1 tm1"
    and "st_chain st' = st_chain st \<Longrightarrow> kept E B D tm1 (set_state tm1 tenant st')"
    and "st_chain st' = st_chain st \<Longrightarrow> kept E B D tm1 (snd (save_routes B now tenant st' tm1))"
    and "st_chain st1 = st_chain st \<Longrightarrow> st_chain st' = st_chain st \<Longrightarrow>
      kept E B D tm1 (snd (save_routes B now tenant st' (set_state tm1 tenant st1)))"
proof -
  show "kept E B D tm1 tm1" by (rule chains_kept_refl [OF inv(1)])
  show set: "kept E B D tm1 (set_state tm1 tenant st')" if "st_chain st' = st_chain st" for st'
    by (rule set_router_kept [OF inv that])
  show "st_chain st' = st_chain st \<Longrightarrow> kept E B D tm1 (snd (save_routes B now tenant st' tm1))"
    using save_routes_kept [OF api_okD(1) [OF ok] inv] by (metis prod.collapse)
  assume c: "st_chain st1 = st_chain st" "st_chain st' = st_chain st"
  let ?tm = "set_state tm1 tenant st1"
  have "kept E B D ?tm (snd (save_routes B now tenant st' ?tm))"
    using save_routes_kept [OF api_okD(1) [OF ok] chains_kept_sound [OF set [OF c(1)]] set_state_simps(2)] c
    by (metis prod.collapse)
  with set [OF c(1)] show "kept E B D tm1 (snd (save_routes B now tenant st' ?tm))" by (rule chains_kept_trans)
qed

lemma delete_route_kept:
  assumes "api_ok E B" "sound E B tm1" "tm_tenants tm1 tenant = Some st"
  shows "kept E B D tm1 (ao_tm (delete_route E B ck dest st tenant tm1))"
  by (simp add: delete_route_def route_outcomes [OF assms] split: prod.split option.split)

lemma routes_post_kept:
  assumes "api_ok E B" "sound E B tm1" "tm_tenants tm1 tenant = Some st"
  shows "kept E B D tm1 (ao_tm (handle_routes_post E B ck q st tenant tm1))"
  by (simp add: handle_routes_post_def Let_def route_outcomes [OF assms] split: sum.split prod.split option.split)

lemma routes_kept:
  assumes ok: "api_ok E B" "sound E B tm"
  shows "kept E B D tm (ao_tm (handle_routes E B ck ctx m q tm))"
proof -
  obtain r tm1 where g: "getState E B ck ctx tm = (r, tm1)" by fastforce
  show ?thesis
    by (rule after_getState [OF ok g])
      (auto simp: handle_routes_def g Let_def routes_post_kept delete_route_kept route_outcomes ok(1))
qed

lemma route_kept:
  assumes ok: "api_ok E B" "sound E B tm"
  shows "kept E B D tm (ao_tm (handle_route E B ck ctx m path body tm))"
proof -
  obtain r tm1 where g: "getState E B ck ctx tm = (r, tm1)" by fastforce
  show ?thesis
  proof (rule after_getState [OF ok g])
    fix st tenant
    assume r: "r = Some (st, tenant)" and inv: "sound E B tm1" "tm_tenants tm1 tenant = Some st"
    show "kept E B D tm1 (ao_tm (handle_route E B ck ctx m path body tm))"
      by (simp add: handle_route_def g r Let_def delete_route_kept [OF ok(1) inv] route_outcomes [OF ok(1) inv]
          split: prod.split option.split sum.split)
  qed (simp add: handle_route_def g)
qed

lemma batch_kept:
  assumes ok: "api_ok E B" "sound E B tm"
  shows "kept E B D tm (ao_tm (handle_routes_batch E B ck ctx m es ds tm))"
proof -
  obtain r tm1 where g: "getState E B ck ctx tm = (r, tm1)" by fastforce
  show ?thesis
  proof (rule after_getState [OF ok g])
    fix st tenant
    assume r: "r = Some (st, tenant)" and inv: "sound E B tm1" "tm_tenants tm1 tenant = Some st"
    show "kept E B D tm1 (ao_tm (handle_routes_batch E B ck ctx m es ds tm))"
      by (simp add: handle_routes_batch_def g r Let_def route_outcomes [OF ok(1) inv] split: prod.split option.split)
  qed (simp add: handle_routes_batch_def g)
qed

lemma route_import_kept:
  assumes ok: "api_ok E B" "sound E B tm"
  shows "kept E B D tm (ao_tm (handle_routes_import E B ck ctx m body tm))"
proof (cases "m = ''POST''")
  case True
  obtain r tm1 where g: "getState E B ck ctx tm = (r, tm1)" by fastforce
  show ?thesis
  proof (rule after_getState [OF ok g])
    fix st tenant
    assume r: "r = Some (st, tenant)" and inv: "sound E B tm1" "tm_tenants tm1 tenant = Some st"
    have counted: "kept E B D tm1 (set_state tm2 tenant (the (tm_tenants tm2 tenant)\<lparr>st_router := x\<rparr>))"
      if tm2: "tm2 = (if c then snd (save_routes B now tenant (st\<lparr>st_router := y\<rparr>) tm1) else set_state tm1 tenant (st\<lparr>st_router := y\<rparr>))"
      for c now x y tm2
    proof -
      have k: "kept E B D tm1 tm2" using tm2 by (simp add: route_outcomes [OF ok(1) inv])
      obtain st2 where "tm_tenants tm2 tenant = Some st2"
        using tm2 save_routes_tenant [OF surjective_pairing, of B now tenant "st\<lparr>st_router := y\<rparr>" tm1] by (cases c) auto
      with set_router_kept [OF chains_kept_sound [OF k]] have "kept E B D tm2 (set_state tm2 tenant (the (tm_tenants tm2 tenant)\<lparr>st_router := x\<rparr>))"
        by simp
      with k show ?thesis by (rule chains_kept_trans)
    qed
    show "kept E B D tm1 (ao_tm (handle_routes_import E B ck ctx m body tm))"
      by (simp add: handle_routes_import_def True g r Let_def route_outcomes(1) [OF ok(1) inv] counted split: option.split prod.split)
  qed (use True g in \<open>simp add: handle_routes_import_def\<close>)
qed (simp add: handle_routes_import_def chains_kept_refl [OF ok(2)])

lemma snd_list_tenants:
  assumes "tm_getTenant (ae_ff E) (ae_fj E) (ae_fr E) B (ck_genesis ck) (ck_reload ck) (ck_load ck) tm name = (Inr st, tm1)"
  shows "snd (list_tenants E B ck tm (name # names)) =
    snd (list_tenants E B ck (set_state tm1 name (st\<lparr>st_router := snd (re_RouteCount (st_router st) (ck_count ck))\<rparr>)) names)"
  using assms by (simp add: Let_def split: prod.splits option.splits)

lemma list_tenants_kept:
  "api_ok E B \<Longrightarrow> sound E B tm \<Longrightarrow> kept E B D tm (snd (list_tenants E B ck tm names))"
proof (induction names arbitrary: tm)
  case Nil
  then show ?case by (simp add: chains_kept_refl)
next
  case (Cons name names)
  obtain r tm1 where g: "tm_getTenant (ae_ff E) (ae_fj E) (ae_fr E) B (ck_genesis ck) (ck_reload ck) (ck_load ck) tm name = (r, tm1)"
    by fastforce
  note k1 = getTenant_kept [OF api_okD [OF Cons.prems(1)] Cons.prems(2) g]
  show ?case
  proof (cases r)
    case (Inl e)
    with g k1 show ?thesis by simp
  next
    case (Inr st)
    let ?tm2 = "set_state tm1 name (st\<lparr>st_router := snd (re_RouteCount (st_router st) (ck_count ck))\<rparr>)"
    have k2: "kept E B D tm1 ?tm2"
      using getTenant_sound(2) [OF api_okD [OF Cons.prems(1)] Cons.prems(2) g Inr]
      by (intro set_router_kept [OF chains_kept_sound [OF k1]]) simp_all
    have "kept E B D tm (snd (list_tenants E B ck ?tm2 names))"
      by (rule chains_kept_trans [OF k1 chains_kept_trans [OF k2 Cons.IH [OF Cons.prems(1) chains_kept_sound [OF k2]]]])
    with snd_list_tenants g Inr show ?thesis by metis
  qed
qed

lemma store_kept:
  assumes "tenants_sound ff fr B tm" "has_bucket B db tenants_path"
    and "\<And>t. tenant_entry B db t ''blocks'' = tenant_entry B (tm_store tm) t ''blocks''"
  shows "chains_kept ff fr B D tm (tm\<lparr>tm_store := db\<rparr>)"
proof (rule chains_kept_same)
  show "tenants_sound ff fr B (tm\<lparr>tm_store := db\<rparr>)"
    using assms by (intro tenants_sound_cong [OF assms(1)]) (simp_all add: stored_chain_def)
qed (simp add: stored_chain_def assms(3))

lemma delete_tenant_kept:
  assumes "bolt_ok B" "tenants_sound ff fr B tm" "store_DeleteTenant B (tm_store tm) t = (None, db)" "t \<in> D"
  shows "chains_kept ff fr B D tm (tm_evict (tm\<lparr>tm_store := db\<rparr>) t)"
proof (rule chains_kept_same)
  note d = DeleteTenant_ok [OF assms(1,3)]
  have st: "stored_chain fr B db u = (if u = t then Inr [] else stored_chain fr B (tm_store tm) u)" for u
    by (simp add: stored_chain_def d(3))
  show "tenants_sound ff fr B (tm_evict (tm\<lparr>tm_store := db\<rparr>) t)"
    using assms(2) d(2) unfolding tenants_sound_def by (auto simp: tm_evict_def st)
  show "stored_chain fr B (tm_store (tm_evict (tm\<lparr>tm_store := db\<rparr>) t)) u = stored_chain fr B (tm_store tm) u" if "u \<notin> D" for u
    using that assms(4) by (auto simp: tm_evict_def st)
qed

lemma tenants_kept:
  assumes ok: "api_ok E B" "sound E B tm" and d: "req_deletes (ReqTenants ck m body q) \<subseteq> D"
  shows "kept E B D tm (ao_tm (handle_admin_tenants E B ck m body q tm))"
proof -
  note same = chains_kept_refl [OF ok(2)]
  have l: "list_tenants E B ck tm names = (x, tm1) \<Longrightarrow> kept E B D tm tm1" for names x tm1
    using list_tenants_kept [OF ok] by (metis snd_conv)
  have e: "kept E B D tm (tm\<lparr>tm_store := db\<rparr>)" if en: "store_EnsureTenant B (tm_store tm) t = (x, db)" for t x db
  proof (cases x)
    case None
    note o = EnsureTenant_ok [OF api_okD(1) [OF ok(1)] en [unfolded None]]
    show ?thesis by (rule store_kept [OF ok(2) o(2)]) (simp add: o(3))
  next
    case (Some y)
    with EnsureTenant_err [OF api_okD(1) [OF ok(1)]] en same show ?thesis by fastforce
  qed
  have x: "store_DeleteTenant B (tm_store tm) t = (Some y, db) \<Longrightarrow> kept E B D tm (tm\<lparr>tm_store := db\<rparr>)" for t y db
    using DeleteTenant_err [OF api_okD(1) [OF ok(1)]] same by fastforce
  note dl = delete_tenant_kept [OF api_okD(1) [OF ok(1)] ok(2)]
  consider (get) "m = ''GET''" | (post) "m = ''POST''" | (delete) "m = ''DELETE''" | (other) "m \<notin> {''GET'', ''POST'', ''DELETE''}" by blast
  then show ?thesis
  proof cases
    case get
    then show ?thesis by (auto simp: handle_admin_tenants_def Let_def same dest: l split: sum.split prod.split option.split)
  next
    case post
    then show ?thesis by (auto simp: handle_admin_tenants_def Let_def same dest: e split: prod.split option.split)
  next
    case delete
    with d have "trim_space (query_get q ''name'') \<in> D" by simp
    with delete show ?thesis
      by (simp add: handle_admin_tenants_def Let_def same x dl split: prod.split option.split)
  next
    case other
    then show ?thesis by (simp add: handle_admin_tenants_def same)
  qed
qed

lemma kv_kept:
  assumes ok: "bolt_ok B" and inv: "tenants_sound ff fr B tm" and k: "k \<noteq> ''blocks''"
  shows "chains_kept ff fr B D tm (tm\<lparr>tm_store := snd (store_PutKV B (tm_store tm) t k v)\<rparr>)"
    and "chains_kept ff fr B D tm (tm\<lparr>tm_store := snd (store_DeleteKV B (tm_store tm) t k)\<rparr>)"
proof -
  note tb = tenants_soundD(1) [OF inv]
  obtain e db where p: "store_PutKV B (tm_store tm) t k v = (e, db)" by fastforce
  show "chains_kept ff fr B D tm (tm\<lparr>tm_store := snd (store_PutKV B (tm_store tm) t k v)\<rparr>)"
  proof (cases e)
    case None
    note q = PutKV_entry [OF ok p [unfolded None]]
    show ?thesis unfolding p snd_conv by (rule store_kept [OF inv q(1)]) (use k in \<open>simp add: q(2)\<close>)
  next
    case (Some x)
    with p PutKV_err [OF ok] have "db = tm_store tm" by blast
    with p chains_kept_refl [OF inv] show ?thesis by simp
  qed
  obtain e db where p: "store_DeleteKV B (tm_store tm) t k = (e, db)" by fastforce
  show "chains_kept ff fr B D tm (tm\<lparr>tm_store := snd (store_DeleteKV B (tm_store tm) t k)\<rparr>)"
  proof (cases e)
    case None
    note q = DeleteKV_entry [OF ok p [unfolded None] tb]
    show ?thesis unfolding p snd_conv by (rule store_kept [OF inv q(1)]) (use k in \<open>simp add: q(2)\<close>)
  next
    case (Some x)
    with p DeleteKV_err [OF ok] have "db = tm_store tm" by blast
    with p chains_kept_refl [OF inv] show ?thesis by simp
  qed
qed

lemma restart_kept: "tenants_sound ff fr B tm \<Longrightarrow> chains_kept ff fr B D tm (newTenantManager (tm_store tm))"
  by (rule chains_kept_same) (auto simp: tenants_sound_def newTenantManager_def)

lemma exec_kept:
  assumes "api_ok E B" "sound E B tm" "own_keys r" "req_deletes r \<subseteq> D"
  shows "kept E B D tm (api_exec E B r tm)"
proof (cases r)
  case (ReqTenants ck m body q)
  show ?thesis using assms(4) unfolding ReqTenants api_exec.simps by (rule tenants_kept [OF assms(1,2)])
qed (use assms in \<open>simp_all add: add_kept import_kept routes_kept route_kept batch_kept route_import_kept
    restart_kept kv_kept [OF api_okD(1) [OF assms(1)]]\<close>)

text \<open>Iterated: after any requests every chain verifies, and the chain of a tenant that was not deleted
  extends the chain it had.\<close>

lemma run_kept:
  "api_ok E B \<Longrightarrow> sound E B tm \<Longrightarrow> \<forall>r \<in> set reqs. own_keys r \<and> req_deletes r \<subseteq> D \<Longrightarrow> kept E B D tm (api_run E B reqs tm)"
proof (induction reqs arbitrary: tm)
  case Nil
  then show ?case by (simp add: api_run_def chains_kept_refl)
next
  case (Cons r reqs)
  have k: "kept E B D tm (api_exec E B r tm)" using Cons.prems by (intro exec_kept) simp_all
  have "kept E B D (api_exec E B r tm) (api_run E B reqs (api_exec E B r tm))"
    using Cons.prems chains_kept_sound [OF k] by (intro Cons.IH) simp_all
  with k have "kept E B D tm (api_run E B reqs (api_exec E B r tm))" by (rule chains_kept_trans)
  then show ?case by (simp add: api_run_def)
qed

definition fresh_db :: "'db bolt \<Rightarrow> 'db \<Rightarrow> bool" where
  "fresh_db B db \<longleftrightarrow> has_bucket B db tenants_path \<and> (\<forall>t k. tenant_entry B db t k = None)"

lemma fresh_sound: "fresh_db B db \<Longrightarrow> tenants_sound ff fr B (newTenantManager db)"
  by (simp add: tenants_sound_def newTenantManager_def stored_chain_def fresh_db_def)

section \<open>Durability of blocks\<close>

text \<open>Every way the add handler answers, once the tenant is loaded.\<close>

definition add_spec :: "api_env \<Rightarrow> 'db bolt \<Rightarrow> string \<Rightarrow> transaction list \<Rightarrow> tenantState \<Rightarrow> 'db tenantManager \<Rightarrow> 'db outcome \<Rightarrow> bool" where
  "add_spec E B tenant txs st tm1 out \<longleftrightarrow>
     (case ao_resp out of
        Reply c \<Rightarrow> c = 201 \<and> (\<exists>b. bk_Transactions b = txs \<and> bc_Verify (ae_ff E) b \<and>
          tm_tenants (ao_tm out) tenant = Some (st\<lparr>st_chain := st_chain st @ [b]\<rparr>) \<and>
          stored_chain (ae_fr E) B (tm_store (ao_tm out)) tenant = Inr (st_chain st @ [b]))
      | Fail c e \<Rightarrow>
          if c = 500 then tm_store (ao_tm out) = tm_store tm1 \<and> (\<exists>b. bk_Transactions b = txs \<and>
            tm_tenants (ao_tm out) tenant = Some (st\<lparr>st_chain := st_chain st @ [b]\<rparr>))
          else ao_tm out = tm1 \<and> ao_events out = [] \<and> ao_hooks out = []
      | Panicked \<Rightarrow> False)"

lemma AddSignedBlock_txs: "bc_AddSignedBlock ff bc txs key ts = Some (b, bc') \<Longrightarrow> bk_Transactions b = txs"
  by (auto simp: bc_AddSignedBlock_def bc_AddBlock_def SignBlock_def Let_def split: if_splits)

lemma AddSignedBlock_total: "bc \<noteq> [] \<Longrightarrow> \<exists>b bc'. bc_AddSignedBlock ff bc txs key ts = Some (b, bc')"
  by (auto simp: bc_AddSignedBlock_def bc_AddBlock_def Let_def)

lemma add_block_spec:
  assumes ok: "api_ok E B" "sound E B tm" and g: "getState E B ck ctx tm = (Some (st, tenant), tm1)"
  shows "add_spec E B tenant txs st tm1 (handle_blockchain_add E B ck ctx ''POST'' (Some txs) tm)"
proof -
  let ?out = "handle_blockchain_add E B ck ctx ''POST'' (Some txs) tm"
  note inv = getState_kept(2) [OF ok g] getState_kept(3) [OF ok g refl]
  note chain = tenants_soundD(2) [OF inv]
  consider (limit) "ae_maxBlocks E > 0 \<and> int (bc_Height (st_chain st)) \<ge> ae_maxBlocks E"
    | (refused) e where "\<not> (ae_maxBlocks E > 0 \<and> int (bc_Height (st_chain st)) \<ge> ae_maxBlocks E)" "validateTransactions txs = Some e"
    | (added) "\<not> (ae_maxBlocks E > 0 \<and> int (bc_Height (st_chain st)) \<ge> ae_maxBlocks E)" "validateTransactions txs = None"
    by (cases "validateTransactions txs") auto
  then show ?thesis
  proof cases
    case limit
    then have "?out = fail_with 429 ''tenant block limit reached'' tm1" by (simp add: handle_blockchain_add_def g)
    then show ?thesis by (simp add: add_spec_def fail_with_def)
  next
    case (refused e)
    then have "?out = fail_with 400 e tm1" by (auto simp: handle_blockchain_add_def g)
    then show ?thesis by (simp add: add_spec_def fail_with_def)
  next
    case added
    obtain b bc where a: "bc_AddSignedBlock (ae_ff E) (st_chain st) txs (ae_signingKey E) (ck_block ck 0) = Some (b, bc)"
      using AddSignedBlock_total chain by blast
    note s = AddSignedBlock_sound [OF a conjunct2 [OF chain]]
    let ?tm2 = "set_state tm1 tenant (st\<lparr>st_chain := bc\<rparr>)"
    obtain e db where sv: "store_SaveChainTenant (ae_fj E) B (tm_store tm1) tenant bc = (e, db)" by fastforce
    have out: "ao_resp ?out = (case e of None \<Rightarrow> Reply 201 | Some x \<Rightarrow> Fail 500 ''failed to persist blockchain'') \<and> ao_tm ?out = ?tm2\<lparr>tm_store := db\<rparr>"
      using added by (auto simp: handle_blockchain_add_def g a Let_def sv split: option.split)
    show ?thesis
    proof (cases e)
      case (Some x)
      with sv SaveChain_err [OF api_okD(1) [OF ok(1)]] have "db = tm_store tm1" by blast
      with out Some s AddSignedBlock_txs [OF a] show ?thesis by (auto simp: add_spec_def set_state_def)
    next
      case None
      from SaveChain_stored(2) [OF api_okD [OF ok(1)] conjunct2 [OF s] sv [unfolded None]]
      have "stored_chain (ae_fr E) B db tenant = Inr (st_chain st @ [b])" using s by simp
      moreover have "bc_Verify (ae_ff E) b" using s by (auto simp: sound_chain_def chain_ok_snoc)
      ultimately show ?thesis
        using out None s AddSignedBlock_txs [OF a] by (auto simp: add_spec_def set_state_def)
    qed
  qed
qed

end
