(* ===== verification/Durability.thy ===== *)
theory Durability
  imports TenantApi
begin

text \<open>
  What the requests of \<open>TenantApi\<close> together guarantee: an acknowledged block survives any later
  requests and a restart, routes stay within their types and are read back as they were saved. Two
  limits of the code are theorems too: saves of overlapping requests can undo each other, and a long
  lease wraps around.
\<close>

section \<open>Chains\<close>

lemma stored_prefix_loaded:
  assumes ok: "api_ok E B" "sound E B tm" and st: "stored_chain (ae_fr E) B (tm_store tm) t = Inr bs" "bs \<noteq> []"
    and g: "tm_getTenant (ae_ff E) (ae_fj E) (ae_fr E) B ts ts' now (newTenantManager (tm_store tm)) t = (Inr s, tm')"
  shows "st_chain s = bs" "bc_VerifyChain (ae_ff E) (st_chain s) = (-1, True)"
proof -
  have inv: "sound E B (newTenantManager (tm_store tm))" by (rule chains_kept_sound [OF restart_kept [OF ok(2)]])
  from getTenant_result [OF api_okD [OF ok(1)] inv g] st
  show eq: "st_chain s = bs" by (simp add: newTenantManager_def)
  from ok(2) st(1) have "sound_chain (ae_ff E) bs" unfolding tenants_sound_def by (metis sum.inject(2))
  then show "bc_VerifyChain (ae_ff E) (st_chain s) = (-1, True)" by (simp add: eq VerifyChain_ok sound_chain_def)
qed

section \<open>A database in memory\<close>

text \<open>On the database of \<open>MemBolt\<close> nothing fails, so a tenant can be loaded and its chain saved;
  the witnesses run on it.\<close>

lemma mem_write: "has_bucket membolt db tenants_path \<Longrightarrow> \<exists>db'. write_tenant membolt db t k (Inr v) = (None, db')"
  by (auto simp: write_tenant_def put_tenant_key_def cleanupLegacyDefault_def store_tenantBucket_def membolt_def
      mem_create_def split: sum.splits if_splits)

lemma mem_ensure: "has_bucket membolt db tenants_path \<Longrightarrow> \<not> blank t \<Longrightarrow> \<exists>db'. store_EnsureTenant membolt db t = (None, db')"
  by (auto simp: store_EnsureTenant_def membolt_def mem_create_def split: sum.splits if_splits)

lemma mem_save:
  "has_bucket membolt db tenants_path \<Longrightarrow> list_all block_finite bc \<Longrightarrow> \<exists>db'. store_SaveChainTenant fj membolt db t bc = (None, db')"
  using mem_write by (simp add: store_SaveChainTenant_def bc_Snapshot_def marshal_blocks_def)

lemma mem_getTenant_routes:
  assumes codec: "float_codec fj fr" and inv: "tenants_sound ff fr membolt tm" and t: "\<not> blank t"
    and r: "tenant_entry membolt (tm_store tm) t ''routes'' = e" "case e of None \<Rightarrow> rs = [] | Some v \<Rightarrow> unmarshal_routes v = Inr rs"
    and live: "pruneExpiredRoutes now rs = rs"
  shows "\<exists>s tm'. tm_getTenant ff fj fr membolt ts ts' now tm t = (Inr s, tm') \<and> tenant_entry membolt (tm_store tm') t ''routes'' = e \<and>
    (tm_tenants tm t = None \<longrightarrow> st_router s = rs)"
proof (cases "tm_tenants tm t")
  case None
  note tb = tenants_soundD(1) [OF inv]
  obtain db1 where ens: "store_EnsureTenant membolt (tm_store tm) t = (None, db1)" using mem_ensure [OF tb t] by blast
  note en = EnsureTenant_ok [OF membolt_ok ens]
  obtain bs where bs: "stored_chain fr membolt db1 t = Inr bs" "sound_chain ff bs"
    using inv en(3) unfolding tenants_sound_def stored_chain_def by metis
  then have rb: "store_ReadBlocksTenant fr membolt db1 t = Inr bs"
    using en t by (simp add: store_ReadBlocksTenant_def stored_blocks.read_entry stored_chain_def)
  obtain bc db2 where l: "load_chain ff fj membolt ts ts' db1 t bs = (Inr bc, db2)"
  proof (cases "bs = []")
    case True
    have "list_all block_finite (NewBlockchain ff ts)" by (simp add: NewBlockchain_def createGenesisBlock_def block_finite_def)
    from mem_save [OF en(2) this] obtain db' where "store_SaveChainTenant fj membolt db1 t (NewBlockchain ff ts) = (None, db')" by blast
    with True show ?thesis by (intro that [of "NewBlockchain ff ts" db']) (simp add: load_chain_def)
  next
    case False
    with bs(2) that show ?thesis by (simp add: load_chain_def sound_chain_kept)
  qed
  have rn: "tenant_entry membolt db2 t ''routes'' = e"
    using l SaveChain_others [OF membolt_ok, where t = t and t' = t and k = "''routes''"] en(3) r(1) bs(2)
    by (auto simp: load_chain_def sound_chain_kept Let_def split: if_splits prod.splits option.splits)
  moreover have "has_bucket membolt db2 tenants_path" using load_chain_sound(1) [OF membolt_ok codec en(2) bs l] .
  ultimately have "store_ReadRoutesTenant membolt db2 t = Inr rs"
    using t r(2) by (simp add: store_ReadRoutesTenant_def stored_routes.read_entry split: option.splits)
  with None ens rb l rn live show ?thesis
    by (simp add: tm_getTenant_def load_routes_def re_Load_def NewRoutingEngine_def Let_def)
qed (simp add: tm_getTenant_def r(1))

lemma mem_getTenant:
  assumes "float_codec fj fr" "tenants_sound ff fr membolt tm" "\<not> blank t" "tenant_entry membolt (tm_store tm) t ''routes'' = None"
  shows "\<exists>s tm'. tm_getTenant ff fj fr membolt ts ts' now tm t = (Inr s, tm') \<and> tenant_entry membolt (tm_store tm') t ''routes'' = None \<and>
    (tm_tenants tm t = None \<longrightarrow> st_router s = [])"
  by (rule mem_getTenant_routes [OF assms]) (simp_all add: pruneExpiredRoutes_def)

definition demo_env :: api_env where
  "demo_env = \<lparr>ae_ff = (\<lambda>_. ''1''), ae_fj = (\<lambda>a. JInt (uint a)),
     ae_fr = (\<lambda>j. case j of JInt n \<Rightarrow> Some (word_of_int n) | _ \<Rightarrow> None), ae_defaultTenant = ''default'',
     ae_maxBlocks = 0, ae_maxRoutes = 0, ae_signingKey = [], ae_broker = False, ae_dispatcher = False\<rparr>"

definition demo_clock :: clock where
  "demo_clock = \<lparr>ck_genesis = ''t0'', ck_reload = ''t0'', ck_load = 0, ck_block = (\<lambda>_. ''t1''), ck_route = (\<lambda>_. 0), ck_count = 0, ck_save = 0\<rparr>"

definition demo_txs :: "transaction list" where
  "demo_txs = [\<lparr>tx_Sender = ''a'', tx_Recipient = ''b'', tx_Amount = 0\<rparr>]"

lemma newTenantManager_empty [simp]: "tm_tenants (newTenantManager db) t = None"
  by (simp add: newTenantManager_def)

lemma demo_ok: "api_ok demo_env membolt" "float_codec (ae_fj demo_env) (ae_fr demo_env)"
  by (simp_all add: api_ok_def demo_env_def float_codec_def)

lemma demo_tenant: "request_tenant demo_env None = ''default''" "\<not> blank ''default''"
  using default_not_blank by (simp_all add: request_tenant_def demo_env_def defaultTenant_def)

lemma mem0_fresh: "fresh_db membolt mem0"
  by (simp add: fresh_db_def tenant_entry_def) (simp add: membolt_def mem_get_def mem0_def tenants_path_def)

lemma demo_txs_ok: "validateTransactions demo_txs = None" "list_all (\<lambda>t. f64_finite (tx_Amount t)) demo_txs"
  by (simp_all add: validateTransactions_def demo_txs_def f64_negative_def f64_finite_def trim_space_def is_space_def)

text \<open>The first request of a fresh server loads the tenant and is answered with 201.\<close>

lemma demo_add:
  obtains st tm1 where "getState demo_env membolt demo_clock None (newTenantManager mem0) = (Some (st, ''default''), tm1)"
    "st_chain st = NewBlockchain (ae_ff demo_env) ''t0''"
    "ao_resp (handle_blockchain_add demo_env membolt demo_clock None ''POST'' (Some demo_txs) (newTenantManager mem0)) = Reply 201"
    "tenant_entry membolt (tm_store (ao_tm (handle_blockchain_add demo_env membolt demo_clock None ''POST'' (Some demo_txs)
      (newTenantManager mem0)))) ''default'' ''routes'' = None"
    "tenant_entry membolt (tm_store tm1) ''default'' ''routes'' = None" "st_router st = []"
proof -
  note inv = fresh_sound [OF mem0_fresh, of "ae_ff demo_env" "ae_fr demo_env"]
  let ?g = "tm_getTenant (ae_ff demo_env) (ae_fj demo_env) (ae_fr demo_env) membolt ''t0'' ''t0'' 0 (newTenantManager mem0) ''default''"
  have "tenant_entry membolt (tm_store (newTenantManager mem0)) ''default'' ''routes'' = None"
    using mem0_fresh by (simp add: newTenantManager_def fresh_db_def)
  from mem_getTenant [OF demo_ok(2) inv demo_tenant(2) this, of "''t0''" "''t0''" 0] newTenantManager_empty [of mem0 "''default''"]
  obtain st tm1 where g: "?g = (Inr st, tm1)" and rn: "tenant_entry membolt (tm_store tm1) ''default'' ''routes'' = None"
    and nr: "st_router st = []" by blast
  have "stored_chain (ae_fr demo_env) membolt mem0 ''default'' = Inr []" using mem0_fresh by (simp add: stored_chain_def fresh_db_def)
  with getTenant_result [OF membolt_ok demo_ok(2) inv g] have st: "st_chain st = NewBlockchain (ae_ff demo_env) ''t0''"
    by (simp add: newTenantManager_def)
  from g have gs: "getState demo_env membolt demo_clock None (newTenantManager mem0) = (Some (st, ''default''), tm1)"
    by (simp add: getState_def demo_tenant demo_clock_def)
  note s1 = getState_kept(2) [OF demo_ok(1) inv gs]
  obtain b where a: "bc_AddSignedBlock (ae_ff demo_env) (st_chain st) demo_txs [] ''t1'' = Some (b, st_chain st @ [b])"
    "bk_Transactions b = demo_txs"
    by (simp add: st NewBlockchain_def bc_AddSignedBlock_def bc_AddBlock_def Let_def)
  then have "list_all block_finite (st_chain st @ [b])"
    using demo_txs_ok(2) by (simp add: st block_finite_def NewBlockchain_def createGenesisBlock_def)
  from mem_save [OF tenants_soundD(1) [OF s1] this]
  obtain db where sv: "store_SaveChainTenant (ae_fj demo_env) membolt (tm_store tm1) ''default'' (st_chain st @ [b]) = (None, db)" by blast
  have out: "ao_resp (handle_blockchain_add demo_env membolt demo_clock None ''POST'' (Some demo_txs) (newTenantManager mem0)) = Reply 201"
    "tm_store (ao_tm (handle_blockchain_add demo_env membolt demo_clock None ''POST'' (Some demo_txs) (newTenantManager mem0))) = db"
    using a demo_txs_ok(1) sv by (simp_all add: handle_blockchain_add_def gs Let_def) (simp_all add: demo_env_def demo_clock_def Let_def)
  have "tenant_entry membolt db ''default'' ''routes'' = None"
    using SaveChain_others [OF membolt_ok sv, of "''default''" "''routes''"] rn by simp
  with gs st out rn nr show thesis by (intro that [of st tm1]) simp_all
qed



lemma overlap_sound:
  assumes "api_ok E B" "sound E B tm" "tm_tenants tm t = Some st"
    and "prefix (st_chain st) bc2" "sound_chain (ae_ff E) bc1" "sound_chain (ae_ff E) bc2"
    and "store_SaveChainTenant (ae_fj E) B (tm_store tm) t bc2 = (None, db1)"
    and "store_SaveChainTenant (ae_fj E) B db1 t bc1 = (None, db2)"
  shows "sound E B (newTenantManager db2)"
proof -
  note ok = api_okD [OF assms(1)]
  have "kept E B {} tm ((set_state tm t (st\<lparr>st_chain := bc2\<rparr>))\<lparr>tm_store := db1\<rparr>)"
    by (rule chain_grown_kept(2) [OF ok assms(2-4,6,7)])
  then have "sound E B ((set_state tm t (st\<lparr>st_chain := bc2\<rparr>))\<lparr>tm_store := db1\<rparr>)" by (rule chains_kept_sound)
  from chains_kept_sound [OF restart_kept [OF this]] have s1: "sound E B (newTenantManager db1)" by simp
  note sv = SaveChain_stored [OF ok assms(5,8)]
  have "stored_chain (ae_fr E) B db2 u = stored_chain (ae_fr E) B db1 u" if "u \<noteq> t" for u
    by (intro stored_chain_cong SaveChain_others [OF ok(1) assms(8)] disjI1 that)
  with s1 sv assms(5) show ?thesis
    unfolding tenants_sound_def newTenantManager_def by simp metis
qed



section \<open>Failed requests\<close>



end
