(* ===== verification/RouteTables.thy ===== *)
theory RouteTables
  imports Durability
begin

text \<open>
  The routing tables of the tenants: every route in memory stays within the types of the code (metrics
  are machine integers, tags finite maps), so a saved table is read back as it was. The leases of
  routes added or imported over HTTP.
\<close>

section \<open>What is read is typed\<close>

definition metric_i64 :: "route_metric \<Rightarrow> bool" where
  "metric_i64 m \<longleftrightarrow> is_i64 (rm_Latency m) \<and> is_i64 (rm_Throughput m)"

lemma route_good_iff: "route_good r \<longleftrightarrow> metric_i64 (rt_Metric r) \<and> finite (dom (rt_Tags r))"
  by (auto simp: route_good_def metric_i64_def)

lemma as_int_i64: "as_int j = Some n \<Longrightarrow> is_i64 n"
  by (cases j) (auto simp: is_i64_def split: if_splits)

lemma as_metric_i64: "as_metric j = Some m \<Longrightarrow> metric_i64 m"
  by (auto simp: as_metric_def metric_i64_def dest: as_int_i64 split: option.splits)

lemma as_tags_finite: "as_tags j = Some m \<Longrightarrow> finite (dom m)"
  by (auto simp: as_tags_def finite_dom_map_of split: option.splits)

lemma route_of_json_good: "route_of_json j = Some r \<Longrightarrow> route_good r"
  by (auto simp: route_of_json_def route_good_iff dest: as_metric_i64 as_tags_finite split: option.splits)

lemma sequence_opt_elem: "sequence_opt (map f xs) = Some ys \<Longrightarrow> y \<in> set ys \<Longrightarrow> \<exists>x. f x = Some y"
proof (induction xs arbitrary: ys)
  case (Cons x xs)
  then show ?case by (cases "f x") auto
qed simp

lemma unmarshal_routes_good: "unmarshal_routes raw = Inr rs \<Longrightarrow> \<forall>r \<in> set rs. route_good r"
  by (auto simp: unmarshal_routes_def unmarshal_array_def dest!: sequence_opt_elem route_of_json_good
      split: blob.splits option.splits)

lemma ReadRoutes_good: "store_ReadRoutesTenant B db t = Inr rs \<Longrightarrow> \<forall>r \<in> set rs. route_good r"
  by (auto simp: store_ReadRoutesTenant_def read_tenant_def store_view_def dest: unmarshal_routes_good split: option.splits)

section \<open>The engine keeps routes typed\<close>

definition all_good :: "routes \<Rightarrow> bool" where
  "all_good rs \<longleftrightarrow> (\<forall>r \<in> set rs. route_good r)"

lemma all_good_simps [simp]: "all_good []" "all_good (r # rs) \<longleftrightarrow> route_good r \<and> all_good rs"
  by (simp_all add: all_good_def)

lemma all_good_prune [simp]: "all_good rs \<Longrightarrow> all_good (pruneExpiredLocked rs now)" "all_good rs \<Longrightarrow> all_good (pruneExpiredRoutes now rs)"
  by (auto simp: all_good_def pruneExpiredLocked_def pruneExpiredRoutes_def)

lemma all_good_count [simp]:
  "all_good rs \<Longrightarrow> all_good (snd (re_RouteCount rs now))" "all_good rs \<Longrightarrow> all_good (snd (re_ListRoutes rs now))"
  by (simp_all add: re_RouteCount_def re_ListRoutes_def Let_def)

lemma all_good_add:
  "re_AddRouteWithOptions rs d m opts now = (e, rs') \<Longrightarrow> all_good rs \<Longrightarrow> metric_i64 m \<Longrightarrow> finite (dom (ro_Tags opts)) \<Longrightarrow> all_good rs'"
  by (auto simp: re_AddRouteWithOptions_def all_good_def route_good_iff split: if_splits)

lemma all_good_delete: "re_DeleteRoute rs d = (e, rs') \<Longrightarrow> all_good rs \<Longrightarrow> all_good rs'"
  by (induction rs d arbitrary: rs' rule: re_DeleteRoute.induct) (auto split: if_splits prod.splits)

definition options_good :: "update_route_options \<Rightarrow> bool" where
  "options_good opts \<longleftrightarrow> (\<forall>m. uo_Metric opts = Some m \<longrightarrow> metric_i64 m) \<and> (\<forall>ts. uo_Tags opts = Some ts \<longrightarrow> finite (dom ts))"

lemma all_good_update_one: "update_one r opts now = (e, r') \<Longrightarrow> route_good r \<Longrightarrow> options_good opts \<Longrightarrow> route_good r'"
  by (auto simp: update_one_def Let_def options_good_def route_good_iff split: if_splits option.splits)

lemma all_good_update: "re_UpdateRoute rs d opts now = (e, rs') \<Longrightarrow> all_good rs \<Longrightarrow> options_good opts \<Longrightarrow> all_good rs'"
  by (induction rs d opts now arbitrary: rs' rule: re_UpdateRoute.induct)
    (auto dest: all_good_update_one split: if_splits prod.splits)

lemma GetRoute_mem: "re_GetRoute rs d now = Inr r \<Longrightarrow> r \<in> set rs"
  by (induction rs d now rule: re_GetRoute.induct) (auto split: if_splits)

section \<open>Typed requests\<close>

text \<open>Numbers a JSON decoder puts into an \<^verbatim>\<open>int\<close> fit in 64 bits, maps it builds are finite.\<close>

definition patch_typed :: "route_patch \<Rightarrow> bool" where
  "patch_typed p \<longleftrightarrow> (\<forall>n. rp_Latency p = Some n \<longrightarrow> is_i64 n) \<and> (\<forall>n. rp_Throughput p = Some n \<longrightarrow> is_i64 n) \<and>
     (\<forall>ts. rp_Tags p = Some ts \<longrightarrow> finite (dom ts))"

definition entry_typed :: "batch_entry \<Rightarrow> bool" where
  "entry_typed e \<longleftrightarrow> is_i64 (be_Latency e) \<and> is_i64 (be_Throughput e) \<and> finite (dom (be_Tags e))"

fun req_typed :: "api_req \<Rightarrow> bool" where
  "req_typed (ReqRoute ck ctx m path (Some p)) \<longleftrightarrow> patch_typed p"
| "req_typed (ReqBatch ck ctx m (Some es) ds) \<longleftrightarrow> (\<forall>e \<in> set es. entry_typed e)"
| "req_typed (ReqRouteImport ck ctx m (Some rs)) \<longleftrightarrow> (\<forall>r \<in> set rs. route_good r)"
| "req_typed _ \<longleftrightarrow> True"

lemma patch_options_good:
  assumes "patch_options p rs d now = Inr opts" "patch_typed p" "all_good rs"
  shows "options_good opts"
proof -
  have "metric_i64 (rt_Metric r)" if "re_GetRoute rs d now = Inr r" for r
    using GetRoute_mem [OF that] assms(3) by (auto simp: all_good_def route_good_iff)
  with assms(1,2) show ?thesis
    by (auto simp: patch_options_def patch_typed_def options_good_def metric_i64_def split: if_splits option.splits sum.splits)
qed

lemma batch_add_good: "batch_add ck n k rs es = (a, rs') \<Longrightarrow> \<forall>e \<in> set es. entry_typed e \<Longrightarrow> all_good rs \<Longrightarrow> all_good rs'"
proof (induction ck n k rs es rule: batch_add.induct)
  case (2 ck n added rs e es)
  obtain x rs1 where a: "re_AddRouteWithOptions rs (be_Destination e) \<lparr>rm_Latency = be_Latency e, rm_Throughput = be_Throughput e\<rparr>
      \<lparr>ro_TTL = (if be_TTLSeconds e > 0 then seconds (be_TTLSeconds e) else 0), ro_Satellite = be_Satellite e, ro_Tags = be_Tags e\<rparr>
      (ck_route ck n) = (x, rs1)" by fastforce
  have "all_good rs1" using 2(4,5) by (intro all_good_add [OF a]) (auto simp: entry_typed_def metric_i64_def)
  with 2 a show ?case by (cases x) auto
qed simp

lemma batch_delete_good: "batch_delete d n rs ds = (a, b, rs') \<Longrightarrow> all_good rs \<Longrightarrow> all_good rs'"
proof (induction d n rs ds rule: batch_delete.induct)
  case (2 d n rs x ds)
  then show ?case
    by (auto simp: Let_def dest: all_good_delete split: if_splits prod.splits option.splits)
qed simp

lemma import_routes_good: "import_routes ck n a b rs imp = (a', b', rs') \<Longrightarrow> \<forall>r \<in> set imp. route_good r \<Longrightarrow> all_good rs \<Longrightarrow> all_good rs'"
proof (induction ck n a b rs imp rule: import_routes.induct)
  case (2 ck n added skipped rs r imp)
  let ?ttl = "case rt_ExpiresAt r of None \<Rightarrow> 0 | Some e \<Rightarrow> let d = time_sub e (ck_route ck (2 * n)) in if d > 0 then d else 0"
  obtain x rs1 where a: "re_AddRouteWithOptions rs (rt_Destination r) (rt_Metric r)
      \<lparr>ro_TTL = ?ttl, ro_Satellite = rt_Satellite r, ro_Tags = rt_Tags r\<rparr> (ck_route ck (2 * n + 1)) = (x, rs1)" by fastforce
  have "all_good rs1" using 2(4,5) by (intro all_good_add [OF a]) (auto simp: route_good_iff)
  with 2 a show ?case by (cases x) (auto simp: Let_def)
qed simp

section \<open>Every request keeps the tables typed\<close>

definition tables_typed :: "'db tenantManager \<Rightarrow> bool" where
  "tables_typed tm \<longleftrightarrow> (\<forall>t st. tm_tenants tm t = Some st \<longrightarrow> all_good (st_router st))"

lemma typed_set_state [simp]: "tables_typed tm \<Longrightarrow> all_good (st_router st) \<Longrightarrow> tables_typed (set_state tm t st)"
  by (auto simp: tables_typed_def set_state_def)

lemma typed_store [simp]: "tables_typed (tm\<lparr>tm_store := db\<rparr>) \<longleftrightarrow> tables_typed tm"
  by (simp add: tables_typed_def)

lemma typed_save [simp]: "tables_typed tm \<Longrightarrow> all_good (st_router st) \<Longrightarrow> tables_typed (snd (save_routes B now t st tm))"
  by (auto simp: save_routes_def store_SaveRoutesTenant_def re_ListRoutes_def Let_def split: prod.splits)

lemma typed_getTenant:
  assumes "tables_typed tm" "tm_getTenant ff fj fr B ts ts' now tm t = (r, tm')"
  shows "tables_typed tm'" and "r = Inr st \<Longrightarrow> all_good (st_router st)"
proof -
  have "tables_typed tm' \<and> (\<forall>st. r = Inr st \<longrightarrow> all_good (st_router st))"
    using assms(2)
  proof (cases rule: getTenant_cases)
    case (cached st)
    with assms(1) show ?thesis by (auto simp: tables_typed_def)
  next
    case (loaded db1 db2 bs bc db3 rs router)
    from loaded(5) have "all_good rs" using ReadRoutes_good by (simp add: all_good_def)
    then have "all_good router"
      using loaded(6) by (auto simp: load_routes_def re_Load_def NewRoutingEngine_def Let_def split: if_splits prod.splits option.splits)
    with loaded assms(1) show ?thesis by (auto simp: tables_typed_def)
  qed (use assms(1) in simp_all)
  then show "tables_typed tm'" "r = Inr st \<Longrightarrow> all_good (st_router st)" by blast+
qed

lemma typed_getState:
  assumes "tables_typed tm" "getState E B ck ctx tm = (r, tm1)"
  shows "tables_typed tm1" and "r = Some (st, t) \<Longrightarrow> all_good (st_router st)"
  using assms typed_getTenant(1) typed_getTenant(2) [OF _ _ refl] by (auto simp: getState_def Let_def split: prod.splits sum.splits)

lemma typed_after:
  assumes "tables_typed tm" "getState E B ck ctx tm = (r, tm1)"
    and "\<And>st t. r = Some (st, t) \<Longrightarrow> tables_typed tm1 \<Longrightarrow> all_good (st_router st) \<Longrightarrow> tables_typed tm'"
    and "r = None \<Longrightarrow> tm' = tm1"
  shows "tables_typed tm'"
  using typed_getState [OF assms(1,2)] assms(3,4) by (cases r) auto

lemma typed_add: "tables_typed tm \<Longrightarrow> tables_typed (ao_tm (handle_blockchain_add E B ck ctx m body tm))"
proof (cases "getState E B ck ctx tm")
  case (Pair r tm1)
  assume t: "tables_typed tm"
  show ?thesis
  proof (cases "m = ''POST''")
    case True
    show ?thesis
      by (rule typed_after [OF t Pair]) (use True Pair in \<open>auto simp: handle_blockchain_add_def Let_def split: option.split prod.split\<close>)
  qed (simp add: handle_blockchain_add_def t)
qed

lemma typed_import: "tables_typed tm \<Longrightarrow> tables_typed (ao_tm (handle_blockchain_import E B ck ctx m body tm))"
proof (cases "getState E B ck ctx tm")
  case (Pair r tm1)
  assume t: "tables_typed tm"
  show ?thesis
  proof (cases "m = ''POST''")
    case True
    show ?thesis
      by (rule typed_after [OF t Pair]) (use True Pair in \<open>auto simp: handle_blockchain_import_def Let_def split: option.split prod.split\<close>)
  qed (simp add: handle_blockchain_import_def t)
qed

lemma int_or_zero_i64: "int_or_zero (parseIntQuery q k) = Inr n \<Longrightarrow> is_i64 n"
  by (auto simp: parseIntQuery_def Let_def is_i64_def [of 0] dest: atoi_range split: if_splits option.splits)

lemma typed_delete: "tables_typed tm \<Longrightarrow> all_good (st_router st) \<Longrightarrow> tables_typed (ao_tm (delete_route E B ck d st t tm))"
  by (auto simp: delete_route_def dest: all_good_delete split: prod.split option.split)

lemma typed_post:
  assumes "tables_typed tm" "all_good (st_router st)"
  shows "tables_typed (ao_tm (handle_routes_post E B ck q st t tm))"
  using assms
  by (auto simp: handle_routes_post_def Let_def metric_i64_def dest!: int_or_zero_i64 intro!: typed_save
      elim!: all_good_add split: sum.split prod.split option.split)

lemma typed_routes: "tables_typed tm \<Longrightarrow> tables_typed (ao_tm (handle_routes E B ck ctx m q tm))"
proof (cases "getState E B ck ctx tm")
  case (Pair r tm1)
  assume t: "tables_typed tm"
  show ?thesis
    by (rule typed_after [OF t Pair]) (use Pair in \<open>auto simp: handle_routes_def Let_def typed_delete typed_post\<close>)
qed

lemma typed_route:
  assumes "tables_typed tm" "req_typed (ReqRoute ck ctx m path body)"
  shows "tables_typed (ao_tm (handle_route E B ck ctx m path body tm))"
proof (cases "getState E B ck ctx tm")
  case (Pair r tm1)
  show ?thesis
  proof (rule typed_after [OF assms(1) Pair])
    fix st t
    assume r: "r = Some (st, t)" and t1: "tables_typed tm1" "all_good (st_router st)"
    have good: "all_good rs'" if "body = Some p" "patch_options p (st_router st) d now = Inr opts"
      "re_UpdateRoute (st_router st) d opts now' = (x, rs')" for p d now opts now' x rs'
      using all_good_update [OF that(3) t1(2) patch_options_good [OF that(2) _ t1(2)]] assms(2) that(1) by simp
    from t1 show "tables_typed (ao_tm (handle_route E B ck ctx m path body tm))"
      by (auto simp: handle_route_def Pair r Let_def typed_delete dest: good split: prod.split option.split sum.split)
  qed (simp add: handle_route_def Pair)
qed

lemma typed_batch:
  assumes "tables_typed tm" "req_typed (ReqBatch ck ctx m es ds)"
  shows "tables_typed (ao_tm (handle_routes_batch E B ck ctx m es ds tm))"
proof (cases "getState E B ck ctx tm")
  case (Pair r tm1)
  show ?thesis
    by (rule typed_after [OF assms(1) Pair])
      (use assms(2) Pair in \<open>auto simp: handle_routes_batch_def Let_def dest!: batch_add_good batch_delete_good split: prod.split option.split\<close>)
qed

lemma typed_route_import:
  assumes "tables_typed tm" "req_typed (ReqRouteImport ck ctx m body)"
  shows "tables_typed (ao_tm (handle_routes_import E B ck ctx m body tm))"
proof (cases "getState E B ck ctx tm")
  case (Pair r tm1)
  show ?thesis
  proof (cases "m = ''POST''")
    case True
    show ?thesis
    proof (rule typed_after [OF assms(1) Pair])
      fix st t
      assume r: "r = Some (st, t)" and t1: "tables_typed tm1" "all_good (st_router st)"
      have good: "tables_typed (set_state tm2 t (the (tm_tenants tm2 t)\<lparr>st_router := snd (re_RouteCount (st_router (the (tm_tenants tm2 t))) now)\<rparr>))"
        if tm2: "tm2 = (if c then snd (save_routes B now' t (st\<lparr>st_router := rs\<rparr>) tm1) else set_state tm1 t (st\<lparr>st_router := rs\<rparr>))" and rs: "all_good rs"
        for tm2 c now now' rs
      proof -
        have t2: "tables_typed tm2" using t1 tm2 rs by simp
        moreover obtain st2 where "tm_tenants tm2 t = Some st2"
          using tm2 save_routes_tenant [OF surjective_pairing, of B now' t "st\<lparr>st_router := rs\<rparr>" tm1] by (cases c) auto
        ultimately show ?thesis by (auto simp: tables_typed_def set_state_def split: if_splits)
      qed
      have imp: "all_good rs" if "body = Some imp" "import_routes ck 0 0 0 (st_router st) imp = (a, b, rs)" for imp a b rs
        using import_routes_good [OF that(2)] assms(2) t1(2) that(1) by simp
      show "tables_typed (ao_tm (handle_routes_import E B ck ctx m body tm))"
        using t1(1) True Pair r imp good by (simp add: handle_routes_import_def Let_def split: option.split prod.split)
    qed (use True Pair in \<open>simp add: handle_routes_import_def\<close>)
  qed (simp add: handle_routes_import_def assms(1))
qed

lemma typed_list: "tables_typed tm \<Longrightarrow> tables_typed (snd (list_tenants E B ck tm names))"
proof (induction names arbitrary: tm)
  case (Cons name names)
  obtain r tm1 where g: "tm_getTenant (ae_ff E) (ae_fj E) (ae_fr E) B (ck_genesis ck) (ck_reload ck) (ck_load ck) tm name = (r, tm1)"
    by fastforce
  note t1 = typed_getTenant [OF Cons.prems g]
  show ?case
  proof (cases r)
    case (Inr st)
    let ?tm2 = "set_state tm1 name (st\<lparr>st_router := snd (re_RouteCount (st_router st) (ck_count ck))\<rparr>)"
    have "tables_typed (snd (list_tenants E B ck ?tm2 names))" using t1 Inr by (intro Cons.IH) simp
    with snd_list_tenants g Inr show ?thesis by metis
  qed (use g t1 in simp)
qed simp

lemma typed_tenants: "tables_typed tm \<Longrightarrow> tables_typed (ao_tm (handle_admin_tenants E B ck m body q tm))"
proof -
  assume t: "tables_typed tm"
  have l: "list_tenants E B ck tm names = (x, tm1) \<Longrightarrow> tables_typed tm1" for names x tm1
    using typed_list [OF t] by (metis snd_conv)
  have ev: "tables_typed (tm_evict (tm\<lparr>tm_store := db\<rparr>) t')" for db t'
    using t by (auto simp: tables_typed_def tm_evict_def)
  consider (get) "m = ''GET''" | (other) "m \<noteq> ''GET''" by blast
  then show ?thesis
  proof cases
    case get
    with t show ?thesis by (auto simp: handle_admin_tenants_def Let_def dest: l split: sum.split prod.split option.split)
  next
    case other
    with t show ?thesis by (simp add: handle_admin_tenants_def Let_def ev split: prod.split option.split)
  qed
qed

lemma typed_exec:
  assumes "tables_typed tm" "req_typed r"
  shows "tables_typed (api_exec E B r tm)"
proof (cases r)
  case (ReqRoute ck ctx m path body)
  with assms typed_route show ?thesis by simp
next
  case (ReqBatch ck ctx m es ds)
  with assms typed_batch show ?thesis by simp
next
  case (ReqRouteImport ck ctx m body)
  with assms typed_route_import show ?thesis by simp
next
  case ReqRestart
  then show ?thesis by (simp add: tables_typed_def newTenantManager_def)
qed (simp_all add: assms(1) typed_add typed_import typed_routes typed_tenants)

lemma tables_typed_run:
  assumes "\<forall>r \<in> set reqs. req_typed r"
  shows "tables_typed (api_run E B reqs (newTenantManager db))"
proof -
  have "tables_typed tm \<Longrightarrow> \<forall>r \<in> set reqs. req_typed r \<Longrightarrow> tables_typed (api_run E B reqs tm)" for tm
  proof (induction reqs arbitrary: tm)
    case (Cons r reqs)
    from Cons.IH [OF typed_exec] Cons.prems show ?case by (simp add: api_run_def)
  qed (simp add: api_run_def)
  moreover have "tables_typed (newTenantManager db)" by (simp add: tables_typed_def newTenantManager_def)
  ultimately show ?thesis using assms by blast
qed

section \<open>Routes added over HTTP\<close>

lemma seconds_wraps: "9223372037 \<le> n \<Longrightarrow> n \<le> 18446744073 \<Longrightarrow> seconds n < 0"
proof -
  assume n: "9223372037 \<le> n" "n \<le> 18446744073"
  have "(n * second_ns + 2 ^ 63) mod 2 ^ 64 = n * second_ns + 2 ^ 63 - 2 ^ 64"
    using n by (intro int_mod_pos_eq [of _ _ 1]) simp_all
  with n show ?thesis by (simp add: seconds_def i64_def)
qed

lemma save_routes_None:
  "save_routes B now t st tm = (None, tm') \<Longrightarrow> tm_tenants tm' t = Some (st\<lparr>st_router := pruneExpiredLocked (st_router st) now\<rparr>)"
  by (auto simp: save_routes_def store_SaveRoutesTenant_def re_ListRoutes_def Let_def set_state_def split: prod.splits)

lemma finish_saved_Reply: "ao_resp (finish_saved E p c evs) = Reply k \<Longrightarrow> \<exists>tm. p = (None, tm) \<and> ao_tm (finish_saved E p c evs) = tm"
  by (auto simp: finish_saved_def split: prod.splits option.splits)

text \<open>A request for a route with a lease of 9223372037 seconds, on the database in memory.\<close>

definition demo_query :: query where
  "demo_query = [(''destination'', ''d''), (''ttlSeconds'', ''9223372037'')]"

lemma demo_query_ttl: "parseIntQueryMulti demo_query [''ttlSeconds'', ''ttl_seconds''] = Present 9223372037"
  by (simp add: parseIntQuery_def query_get_def demo_query_def trim_space_def is_space_def atoi_def atoi_digits_def
      digits_val_def is_digit_def digit_val_def is_i64_def)

lemma demo_query_ints: "parseIntQuery demo_query ''latency'' = Absent" "parseIntQuery demo_query ''throughput'' = Absent"
  by (simp_all add: parseIntQuery_def query_get_def demo_query_def)

lemma demo_query_dest: "query_get demo_query ''destination'' = ''d''"
  by (simp add: query_get_def demo_query_def)

lemma mem_save_routes: "has_bucket membolt (tm_store tm) tenants_path \<Longrightarrow> \<exists>tm'. save_routes membolt now t st tm = (None, tm')"
  using mem_write [of "tm_store tm" t "''routes''" "Doc (JArr (map (\<lambda>r. JObj (route_fields r)) (pruneExpiredLocked (st_router st) now)))"]
  by (auto simp: save_routes_def store_SaveRoutesTenant_def re_ListRoutes_def marshal_routes_def Let_def)

lemma demo_post:
  obtains st tm1 where "getState demo_env membolt demo_clock None (newTenantManager mem0) = (Some (st, ''default''), tm1)"
    "ao_resp (handle_routes demo_env membolt demo_clock None ''POST'' demo_query (newTenantManager mem0)) = Reply 201"
    "sound demo_env membolt (ao_tm (handle_routes demo_env membolt demo_clock None ''POST'' demo_query (newTenantManager mem0)))"
    "\<exists>rt. tm_tenants (ao_tm (handle_routes demo_env membolt demo_clock None ''POST'' demo_query (newTenantManager mem0))) ''default'' =
      Some (st\<lparr>st_router := [rt]\<rparr>) \<and> rt_ExpiresAt rt = None"
proof -
  obtain st tm1 where gs: "getState demo_env membolt demo_clock None (newTenantManager mem0) = (Some (st, ''default''), tm1)"
    and nr: "st_router st = []" by (rule demo_add)
  note inv = fresh_sound [OF mem0_fresh, of "ae_ff demo_env" "ae_fr demo_env"]
  note s1 = getState_kept(2) [OF demo_ok(1) inv gs]
  have mx: "ae_maxRoutes demo_env = 0" by (simp add: demo_env_def)
  let ?m = "\<lparr>rm_Latency = 0, rm_Throughput = 0\<rparr>"
  let ?o = "\<lparr>ro_TTL = seconds 9223372037, ro_Satellite = to_lower (trim_space (query_get demo_query ''satellite'')) = ''true'',
    ro_Tags = parseTags (query_all demo_query ''tag'')\<rparr>"
  obtain rt where a: "re_AddRouteWithOptions [] ''d'' ?m ?o (ck_route demo_clock 0) = (None, [rt])" and ex: "rt_ExpiresAt rt = None"
    using seconds_wraps [of 9223372037] by (simp add: re_AddRouteWithOptions_def)
  have "has_bucket membolt (tm_store (set_state tm1 ''default'' st)) tenants_path" using tenants_soundD(1) [OF s1] by simp
  from mem_save_routes [OF this] obtain tm2 where
    sv: "save_routes membolt (ck_save demo_clock) ''default'' (st\<lparr>st_router := [rt]\<rparr>) (set_state tm1 ''default'' st) = (None, tm2)" by blast
  have "handle_routes demo_env membolt demo_clock None ''POST'' demo_query (newTenantManager mem0) =
      finish_saved demo_env (None, tm2) 201 [tenant_event ''route_added'' ''default''
        (JObj [(''destination'', JStr ''d''), (''satellite'', JBool (to_lower (trim_space (query_get demo_query ''satellite'')) = ''true''))])]"
    using a sv by (simp add: handle_routes_def handle_routes_post_def gs mx nr demo_query_ttl demo_query_ints demo_query_dest Let_def
      del: parseIntQueryMulti.simps)
  then have out: "ao_resp (handle_routes demo_env membolt demo_clock None ''POST'' demo_query (newTenantManager mem0)) = Reply 201"
    "ao_tm (handle_routes demo_env membolt demo_clock None ''POST'' demo_query (newTenantManager mem0)) = tm2"
    by (simp_all add: finish_saved_def)
  have "tm_tenants tm2 ''default'' = Some (st\<lparr>st_router := [rt]\<rparr>)"
    using save_routes_None [OF sv] ex by (simp add: pruneExpiredLocked_def route_dead_def)
  moreover have "sound demo_env membolt tm2"
    using chains_kept_sound [OF routes_kept [OF demo_ok(1) inv, of _ demo_clock None "''POST''" demo_query]] out(2) by simp
  ultimately show thesis using gs out ex by (intro that [of st tm1]) auto
qed



section \<open>Saved tables are read back\<close>

lemma write_frame:
  assumes "bolt_ok B" "has_bucket B db tenants_path" "write_tenant B db t k m = (e, db')"
  shows "has_bucket B db' tenants_path" "t' \<noteq> t \<or> k' \<noteq> k \<Longrightarrow> tenant_entry B db' t' k' = tenant_entry B db t' k'"
proof -
  have "has_bucket B db' tenants_path \<and> (t' \<noteq> t \<or> k' \<noteq> k \<longrightarrow> tenant_entry B db' t' k' = tenant_entry B db t' k')"
  proof (cases e)
    case None
    with assms(3) obtain v where "has_bucket B db' tenants_path"
      "\<And>t' k'. tenant_entry B db' t' k' = (if t' = t \<and> k' = k then Some v else tenant_entry B db t' k')"
      using write_tenant_ok [OF assms(1)] by metis
    then show ?thesis by auto
  next
    case (Some x)
    with assms write_tenant_err show ?thesis by metis
  qed
  then show "has_bucket B db' tenants_path" "t' \<noteq> t \<or> k' \<noteq> k \<Longrightarrow> tenant_entry B db' t' k' = tenant_entry B db t' k'" by blast+
qed

lemma load_chain_frame:
  assumes "bolt_ok B" "has_bucket B db tenants_path" "load_chain ff fj B ts ts' db t bs = (r, db')"
  shows "has_bucket B db' tenants_path" "tenant_entry B db' t' ''routes'' = tenant_entry B db t' ''routes''"
proof -
  have "db' = db \<or> (\<exists>e m. write_tenant B db t ''blocks'' m = (e, db'))"
    using assms(3) by (auto simp: load_chain_def store_WriteBlocksTenant_def store_SaveChainTenant_def Let_def
        split: if_splits prod.splits option.splits)
  then have "has_bucket B db' tenants_path \<and> tenant_entry B db' t' ''routes'' = tenant_entry B db t' ''routes''"
  proof (elim disjE exE)
    fix e m assume w: "write_tenant B db t ''blocks'' m = (e, db')"
    note f = write_frame [OF assms(1,2) w]
    have "tenant_entry B db' t' ''routes'' = tenant_entry B db t' ''routes''" by (rule f(2)) simp
    with f(1) show ?thesis by blast
  qed (simp add: assms(2))
  then show "has_bucket B db' tenants_path" "tenant_entry B db' t' ''routes'' = tenant_entry B db t' ''routes''" by blast+
qed

lemma ReadRoutes_entry:
  assumes "bolt_ok B" "has_bucket B db tenants_path" "\<not> blank t" "store_ReadRoutesTenant B db t = Inr rs"
    and "tenant_entry B db t ''routes'' = Some v"
  shows "unmarshal_routes v = Inr rs"
  using assms
  by (auto simp: store_ReadRoutesTenant_def read_tenant_def store_view_def readTenantKey_entry split: option.splits)



section \<open>Leases\<close>

text \<open>C39. The lease of a route is multiplied into nanoseconds in 64 bits: a request for a lease of
  9223372037 to 18446744073 seconds (292 to 584 years) that is answered with 201 has added a route that
  never expires.\<close>

theorem wrapped_lease_never_expires:
  assumes g: "getState E B ck ctx tm = (Some (st, tenant), tm1)"
    and ttl: "parseIntQueryMulti q [''ttlSeconds'', ''ttl_seconds''] = Present n" "9223372037 \<le> n" "n \<le> 18446744073"
    and r: "ao_resp (handle_routes E B ck ctx ''POST'' q tm) = Reply 201"
  shows "\<exists>st'. tm_tenants (ao_tm (handle_routes E B ck ctx ''POST'' q tm)) tenant = Some st' \<and> st_router st' \<noteq> [] \<and>
    rt_Destination (last (st_router st')) = query_get q ''destination'' \<and> rt_ExpiresAt (last (st_router st')) = None"
proof -
  let ?st1 = "if ae_maxRoutes E > 0 then st\<lparr>st_router := snd (re_RouteCount (st_router st) (ck_count ck))\<rparr> else st"
  let ?out = "handle_routes_post E B ck q st tenant tm1"
  have h: "handle_routes E B ck ctx ''POST'' q tm = ?out" by (simp add: handle_routes_def g)
  from r h obtain lat thr router tm2 where
      a: "re_AddRouteWithOptions (st_router ?st1) (query_get q ''destination'') \<lparr>rm_Latency = lat, rm_Throughput = thr\<rparr>
        \<lparr>ro_TTL = seconds n, ro_Satellite = to_lower (trim_space (query_get q ''satellite'')) = ''true'',
          ro_Tags = parseTags (query_all q ''tag'')\<rparr> (ck_route ck 0) = (None, router)"
    and s: "save_routes B (ck_save ck) tenant (?st1\<lparr>st_router := router\<rparr>) (set_state tm1 tenant ?st1) = (None, tm2)" "ao_tm ?out = tm2"
    using ttl by (auto simp: handle_routes_post_def Let_def dest!: finish_saved_Reply split: if_splits sum.splits prod.splits option.splits)
  from a seconds_wraps [OF ttl(2,3)] obtain rt where router: "router = st_router ?st1 @ [rt]"
      "rt_Destination rt = query_get q ''destination''" "rt_ExpiresAt rt = None"
    by (auto simp: re_AddRouteWithOptions_def split: if_splits)
  have "pruneExpiredLocked router (ck_save ck) = pruneExpiredLocked (st_router ?st1) (ck_save ck) @ [rt]"
    by (simp add: pruneExpiredLocked_def route_dead_def router)
  with save_routes_None [OF s(1)] s(2) router(2,3) show ?thesis by (simp add: h)
qed

theorem wrapped_lease_never_expires_witness:
  "\<exists>st :: tenantState. tm_tenants (ao_tm (handle_routes demo_env membolt demo_clock None ''POST'' demo_query (newTenantManager mem0))) ''default'' = Some st \<and>
     rt_Destination (last (st_router st)) = ''d'' \<and> rt_ExpiresAt (last (st_router st)) = None"
proof (rule demo_post)
  fix st tm1
  assume "getState demo_env membolt demo_clock None (newTenantManager mem0) = (Some (st, ''default''), tm1)"
    "ao_resp (handle_routes demo_env membolt demo_clock None ''POST'' demo_query (newTenantManager mem0)) = Reply 201"
  from wrapped_lease_never_expires [OF this(1) demo_query_ttl _ _ this(2)] show ?thesis by (auto simp: demo_query_dest)
qed

end
