(* ===== verification/AccountApi.thy ===== *)
theory AccountApi
  imports Auth Agents Durability
begin

text \<open>
  The handlers of \<^verbatim>\<open>cmd/spectral-cloud/main.go\<close> by which tenants sign up, look after their profile
  and their API keys, and by which an administrator reads usage and changes plans. They share the
  billing meter (\<open>Billing\<close>), whose store is the one of the tenant manager. A handler returns the
  status and what it encodes in the answer, or the status and message of \<^verbatim>\<open>writeError\<close>. Random bytes
  and clock readings are arguments; \<open>None\<close> for random bytes is a failing reader.
\<close>

section \<open>Signing up\<close>

type_synonym 'a answer = "(nat \<times> string) + (nat \<times> 'a)"

record signup_request =
  sg_TenantID :: string
  sg_Name :: string
  sg_Email :: string
  sg_Plan :: string

record signup_reply =
  sp_TenantID :: string
  sp_APIKey :: string
  sp_Plan :: string
  sp_Quota :: quota

definition PlanFree :: string where "PlanFree = ''free''"

definition known_plan :: "string \<Rightarrow> bool" where
  "known_plan p \<longleftrightarrow> p = PlanFree \<or> p = ''pro'' \<or> p = ''enterprise''"

definition meter_db :: "'db \<Rightarrow> 'db option \<Rightarrow> 'db" where
  "meter_db db st = (case st of None \<Rightarrow> db | Some db' \<Rightarrow> db')"

text \<open>The part of the handler after the checks of the body: the tenant must not have a profile yet,
  then its bucket, its profile and its first key are written.\<close>

definition register_tenant ::
    "'db bolt \<Rightarrow> signup_request \<Rightarrow> string option \<Rightarrow> string option \<Rightarrow> (nat \<Rightarrow> instant) \<Rightarrow> 'db \<Rightarrow> signup_reply answer \<times> 'db" where
  "register_tenant B req rnd8 rnd24 now db =
     (if billing_GetProfile B (Some db) (sg_TenantID req) \<noteq> None then (Inl (409, ''tenant already registered''), db)
      else case store_EnsureTenant B db (sg_TenantID req) of
        (Some e, db1) \<Rightarrow> (Inl (500, ''failed to provision tenant''), db1)
      | (None, db1) \<Rightarrow>
          let quota = QuotaFor (sg_Plan req);
              profile = \<lparr>pf_TenantID = sg_TenantID req, pf_Name = sg_Name req, pf_Email = sg_Email req, pf_Plan = sg_Plan req,
                pf_Quota = quota, pf_CreatedAt = now 0, pf_UpdatedAt = zero_time\<rparr>
          in case billing_SaveProfile B (Some db1) profile (now 1) of
               (Some e, st) \<Rightarrow> (Inl (500, ''failed to save profile''), meter_db db1 st)
             | (None, st) \<Rightarrow>
                 (case billing_GenerateKey B st (sg_TenantID req) ''default'' rnd8 rnd24 (now 2) of
                    (Inl e, st') \<Rightarrow> (Inl (500, ''failed to generate api key''), meter_db (meter_db db1 st) st')
                  | (Inr sk, st') \<Rightarrow>
                      (Inr (201, \<lparr>sp_TenantID = sg_TenantID req, sp_APIKey = sk_Key sk, sp_Plan = sg_Plan req, sp_Quota = quota\<rparr>),
                       meter_db (meter_db db1 st) st')))"

definition signup_defaults :: "signup_request \<Rightarrow> signup_request" where
  "signup_defaults req = req\<lparr>sg_TenantID := to_lower (trim_space (sg_TenantID req)),
     sg_Plan := (if sg_Plan req = [] then PlanFree else sg_Plan req)\<rparr>"

definition handle_signup ::
    "'db bolt \<Rightarrow> string \<Rightarrow> signup_request option \<Rightarrow> string option \<Rightarrow> string option \<Rightarrow> (nat \<Rightarrow> instant) \<Rightarrow> 'db \<Rightarrow> signup_reply answer \<times> 'db" where
  "handle_signup B m body rnd8 rnd24 now db =
     (if m \<noteq> ''POST'' then (Inl (405, ''method not allowed''), db)
      else case body of None \<Rightarrow> (Inl (400, ''invalid request body''), db)
      | Some req0 \<Rightarrow>
          let req = signup_defaults req0
          in if sg_TenantID req = [] then (Inl (400, ''tenant_id is required''), db)
             else if blank (sg_Email req) then (Inl (400, ''email is required''), db)
             else if \<not> known_plan (sg_Plan req) then (Inl (400, ''plan must be free, pro, or enterprise''), db)
             else register_tenant B req rnd8 rnd24 now db)"

section \<open>The tenant's own account\<close>

record me_reply =
  me_profile :: tenant_profile
  me_usage :: "string \<rightharpoonup> int"
  me_agents :: nat

text \<open>The profile shown for a tenant that never signed up.\<close>

definition zero_quota :: quota where
  "zero_quota = \<lparr>qt_Agents = 0, qt_JobsDay = 0, qt_APIDay = 0, qt_TokensDay = 0\<rparr>"

definition zero_profile :: tenant_profile where
  "zero_profile = \<lparr>pf_TenantID = [], pf_Name = [], pf_Email = [], pf_Plan = [], pf_Quota = zero_quota,
     pf_CreatedAt = zero_time, pf_UpdatedAt = zero_time\<rparr>"

definition profile_or :: "'db bolt \<Rightarrow> 'db \<Rightarrow> string \<Rightarrow> tenant_profile \<Rightarrow> tenant_profile" where
  "profile_or B db tenant dflt =
     (case billing_GetProfile B (Some db) tenant of None \<Rightarrow> dflt
      | Some p \<Rightarrow> if pf_TenantID p = [] then dflt else p)"

definition free_profile :: "string \<Rightarrow> instant \<Rightarrow> tenant_profile" where
  "free_profile tenant created = zero_profile\<lparr>pf_TenantID := tenant, pf_Plan := PlanFree, pf_Quota := QuotaFor PlanFree,
     pf_CreatedAt := created\<rparr>"

text \<open>What the handlers change: the tenants with their store, and the meter.\<close>

record 'db account =
  aa_tm :: "'db tenantManager"
  aa_meter :: meter

definition set_db :: "'db option \<Rightarrow> 'db account \<Rightarrow> 'db account" where
  "set_db st s = s\<lparr>aa_tm := (aa_tm s)\<lparr>tm_store := meter_db (tm_store (aa_tm s)) st\<rparr>\<rparr>"

abbreviation acct_db :: "'db account \<Rightarrow> 'db" where
  "acct_db s \<equiv> tm_store (aa_tm s)"

text \<open>A handler that asks for the tenant of the request first.\<close>

definition with_account ::
    "api_env \<Rightarrow> 'db bolt \<Rightarrow> clock \<Rightarrow> string option \<Rightarrow> 'db account \<Rightarrow>
     (string \<Rightarrow> 'db account \<Rightarrow> 'a answer \<times> 'db account) \<Rightarrow> 'a answer \<times> 'db account" where
  "with_account E B ck ctx s k =
     (case getState E B ck ctx (aa_tm s) of
        (None, tm) \<Rightarrow> (Inl (401, ''authenticated tenant required''), s\<lparr>aa_tm := tm\<rparr>)
      | (Some (st, tenant), tm) \<Rightarrow>
          if tenant = [] then (Inl (401, ''authenticated tenant required''), s\<lparr>aa_tm := tm\<rparr>)
          else k tenant (s\<lparr>aa_tm := tm\<rparr>))"

definition save_profile ::
    "'db bolt \<Rightarrow> tenant_profile \<Rightarrow> instant \<Rightarrow> string \<Rightarrow> 'db account \<Rightarrow> tenant_profile answer \<times> 'db account" where
  "save_profile B p now msg s =
     (case billing_SaveProfile B (Some (acct_db s)) p now of
        (Some e, st) \<Rightarrow> (Inl (500, msg), set_db st s)
      | (None, st) \<Rightarrow> (Inr (200, p), set_db st s))"

definition get_tenant_me ::
    "'db bolt \<Rightarrow> string \<Rightarrow> registry \<Rightarrow> string list \<Rightarrow> (nat \<Rightarrow> instant) \<Rightarrow> 'db account \<Rightarrow> me_reply \<times> 'db account" where
  "get_tenant_me B tenant reg ks now s =
     (case billing_Usage (aa_meter s) tenant (now 0) of (usage, mt) \<Rightarrow>
        (\<lparr>me_profile = profile_or B (acct_db s) tenant (free_profile tenant zero_time), me_usage = usage,
          me_agents = agents_CountByTenant reg tenant ks (now 1)\<rparr>, s\<lparr>aa_meter := mt\<rparr>))"

definition patch_tenant_me ::
    "'db bolt \<Rightarrow> string \<Rightarrow> (string \<times> string) option \<Rightarrow> (nat \<Rightarrow> instant) \<Rightarrow> 'db account \<Rightarrow> tenant_profile answer \<times> 'db account" where
  "patch_tenant_me B tenant body now s =
     (case body of None \<Rightarrow> (Inl (400, ''invalid request body''), s)
      | Some (name, email) \<Rightarrow>
          let p = profile_or B (acct_db s) tenant (free_profile tenant (now 0));
              p1 = (if name \<noteq> [] then p\<lparr>pf_Name := name\<rparr> else p);
              p2 = (if email \<noteq> [] then p1\<lparr>pf_Email := email\<rparr> else p1)
          in save_profile B p2 (now 1) ''failed to save profile'' s)"

text \<open>A read answers with the profile and today's usage, a change with the new profile.\<close>

datatype me_answer = Me me_reply | Profile tenant_profile

definition handle_tenant_me ::
    "api_env \<Rightarrow> 'db bolt \<Rightarrow> clock \<Rightarrow> string option \<Rightarrow> string \<Rightarrow> (string \<times> string) option \<Rightarrow> registry \<Rightarrow> string list \<Rightarrow> (nat \<Rightarrow> instant) \<Rightarrow>
     'db account \<Rightarrow> me_answer answer \<times> 'db account" where
  "handle_tenant_me E B ck ctx m body reg ks now s0 = with_account E B ck ctx s0 (\<lambda>tenant s.
     if m = ''GET'' then (case get_tenant_me B tenant reg ks now s of (me, s') \<Rightarrow> (Inr (200, Me me), s'))
     else if m = ''PATCH'' then
       (case patch_tenant_me B tenant body now s of (r, s') \<Rightarrow> (map_sum id (map_prod id Profile) r, s'))
     else (Inl (405, ''method not allowed''), s))"

section \<open>API keys of the tenant\<close>

text \<open>\<^verbatim>\<open>strconv.FormatInt\<close> in base 36, for the name of a key that was not given one.\<close>

definition digit36 :: "nat \<Rightarrow> char" where
  "digit36 d = (if d < 10 then digit_char d else char_of (87 + d))"

fun show_nat36 :: "nat \<Rightarrow> string" where
  "show_nat36 n = (if n < 36 then [digit36 n] else show_nat36 (n div 36) @ [digit36 (n mod 36)])"

definition format_int36 :: "int \<Rightarrow> string" where
  "format_int36 i = (if i < 0 then ''-'' @ show_nat36 (nat (- i)) else show_nat36 (nat i))"

datatype keys_answer = Keys "sub_key list" | NewKey sub_key

definition post_tenant_keys ::
    "'db bolt \<Rightarrow> string \<Rightarrow> string option \<Rightarrow> string option \<Rightarrow> string option \<Rightarrow> (nat \<Rightarrow> instant) \<Rightarrow> 'db account \<Rightarrow> keys_answer answer \<times> 'db account" where
  "post_tenant_keys B tenant body rnd8 rnd24 now s =
     (case body of None \<Rightarrow> (Inl (400, ''invalid request body''), s)
      | Some name0 \<Rightarrow>
          let name = (if blank name0 then ''key-'' @ format_int36 (now 0) else name0)
          in case billing_GenerateKey B (Some (acct_db s)) tenant name rnd8 rnd24 (now 1) of
               (Inl e, st) \<Rightarrow> (Inl (500, ''failed to generate key''), set_db st s)
             | (Inr sk, st) \<Rightarrow> (Inr (201, NewKey sk), set_db st s))"

definition handle_tenant_keys ::
    "api_env \<Rightarrow> 'db bolt \<Rightarrow> clock \<Rightarrow> string option \<Rightarrow> string \<Rightarrow> string option \<Rightarrow> string option \<Rightarrow> string option \<Rightarrow> (nat \<Rightarrow> instant) \<Rightarrow>
     'db account \<Rightarrow> keys_answer answer \<times> 'db account" where
  "handle_tenant_keys E B ck ctx m body rnd8 rnd24 now s0 = with_account E B ck ctx s0 (\<lambda>tenant s.
     if m = ''GET'' then
       (case billing_ListKeys B (Some (acct_db s)) tenant of
          (ks, Some e) \<Rightarrow> (Inl (500, ''failed to list keys''), s)
        | (ks, None) \<Rightarrow> (Inr (200, Keys ks), s))
     else if m = ''POST'' then post_tenant_keys B tenant body rnd8 rnd24 now s
     else (Inl (405, ''method not allowed''), s))"

text \<open>\<^verbatim>\<open>keyID\<close> is what follows \<^verbatim>\<open>/tenant/keys/\<close> in the path.\<close>

definition handle_tenant_key ::
    "api_env \<Rightarrow> 'db bolt \<Rightarrow> clock \<Rightarrow> string option \<Rightarrow> string \<Rightarrow> string \<Rightarrow> 'db account \<Rightarrow> unit answer \<times> 'db account" where
  "handle_tenant_key E B ck ctx m keyID s0 =
     (if m \<noteq> ''DELETE'' then (Inl (405, ''method not allowed''), s0)
      else with_account E B ck ctx s0 (\<lambda>tenant s.
        if keyID = [] then (Inl (400, ''key id is required''), s)
        else case billing_DeleteKey B (Some (acct_db s)) tenant keyID of
               (Some e, st) \<Rightarrow> (Inl (500, ''failed to delete key''), set_db st s)
             | (None, st) \<Rightarrow> (Inr (204, ()), set_db st s)))"

section \<open>Administration\<close>

record tenant_report =
  tr_TenantID :: string
  tr_Plan :: string
  tr_Quota :: quota
  tr_Usage :: "string \<rightharpoonup> int"
  tr_Agents :: nat

fun usage_reports ::
    "'db bolt \<Rightarrow> 'db \<Rightarrow> registry \<Rightarrow> string list \<Rightarrow> (nat \<Rightarrow> instant) \<Rightarrow> nat \<Rightarrow> string list \<Rightarrow> meter \<Rightarrow> tenant_report list \<times> meter" where
  "usage_reports B db reg ks now n [] mt = ([], mt)"
| "usage_reports B db reg ks now n (t # ts) mt =
     (let p = profile_or B db t (free_profile t zero_time)
      in case billing_Usage mt t (now n) of (usage, mt1) \<Rightarrow>
         (case usage_reports B db reg ks now (Suc (Suc n)) ts mt1 of (rs, mt2) \<Rightarrow>
            (\<lparr>tr_TenantID = t, tr_Plan = pf_Plan p, tr_Quota = pf_Quota p, tr_Usage = usage,
              tr_Agents = agents_CountByTenant reg t ks (now (Suc n))\<rparr> # rs, mt2)))"

definition handle_admin_usage ::
    "'db bolt \<Rightarrow> string \<Rightarrow> string \<Rightarrow> registry \<Rightarrow> string list \<Rightarrow> (nat \<Rightarrow> instant) \<Rightarrow> 'db account \<Rightarrow> tenant_report list answer \<times> 'db account" where
  "handle_admin_usage B m tenantFilter reg ks now s =
     (if m \<noteq> ''GET'' then (Inl (405, ''method not allowed''), s)
      else case (if tenantFilter \<noteq> [] then Inr [tenantFilter] else store_TenantNames B (acct_db s)) of
             Inl e \<Rightarrow> (Inl (500, ''failed to list tenants''), s)
           | Inr tenants \<Rightarrow>
               (case usage_reports B (acct_db s) reg ks now 0 tenants (aa_meter s) of (rs, mt) \<Rightarrow>
                  (Inr (200, rs), s\<lparr>aa_meter := mt\<rparr>)))"

text \<open>\<^verbatim>\<open>rest\<close> is what follows \<^verbatim>\<open>/admin/tenants/\<close> in the path.\<close>

definition handle_tenant_plan ::
    "'db bolt \<Rightarrow> string \<Rightarrow> string \<Rightarrow> string option \<Rightarrow> (nat \<Rightarrow> instant) \<Rightarrow> 'db account \<Rightarrow> tenant_profile answer \<times> 'db account" where
  "handle_tenant_plan B m rest body now s =
     (case split2 (CHR ''/'') rest of
        [target, action] \<Rightarrow>
          if action \<noteq> ''plan'' then (Inl (404, ''not found''), s)
          else if m \<noteq> ''PATCH'' then (Inl (405, ''method not allowed''), s)
          else (case body of None \<Rightarrow> (Inl (400, ''invalid request body''), s)
                | Some plan \<Rightarrow>
                    if \<not> known_plan plan then (Inl (400, ''plan must be free, pro, or enterprise''), s)
                    else
                      let p = profile_or B (acct_db s) target (zero_profile\<lparr>pf_TenantID := target, pf_CreatedAt := now 0\<rparr>)
                      in save_profile B (p\<lparr>pf_Plan := plan, pf_Quota := QuotaFor plan\<rparr>) (now 1) ''failed to update plan'' s)
      | _ \<Rightarrow> (Inl (404, ''not found''), s))"

section \<open>What a sign-up gives\<close>

lemma is_space_lower: "is_space (to_lower_char c) = is_space c"
proof (cases "CHR ''A'' \<le> c \<and> c \<le> CHR ''Z''")
  case True
  have space: "is_space x \<longleftrightarrow> of_char x \<in> {32 :: nat, 9, 10, 11, 12, 13}" for x
    unfolding is_space_def insert_iff empty_iff by (subst of_char_eq_iff [symmetric, where 'a = nat])+ simp
  from True have r: "65 \<le> (of_char c :: nat)" "of_char c \<le> (90 :: nat)" by (simp_all add: less_eq_char_def)
  then have "of_char (to_lower_char c) = (of_char c + 32 :: nat)" using True by (simp add: to_lower_char_def)
  with r show ?thesis by (simp add: space)
qed (auto simp: to_lower_char_def)

lemma trim_space_cases: "trim_space s = [] \<or> trimmed (trim_space s)"
proof -
  let ?d = "dropWhile is_space (rev (dropWhile is_space s))"
  have "\<not> is_space (last (rev ?d))" if "?d \<noteq> []" using that hd_dropWhile [of is_space] by (simp add: last_rev)
  moreover have "\<not> is_space (hd (rev ?d))" if ne: "?d \<noteq> []"
  proof -
    from ne have e: "dropWhile is_space s \<noteq> []" by (cases "dropWhile is_space s") auto
    have "suffix ?d (rev (dropWhile is_space s))" by (rule suffix_dropWhile)
    then have "prefix (rev ?d) (dropWhile is_space s)" by (simp add: suffix_to_prefix)
    then obtain zs where "dropWhile is_space s = rev ?d @ zs" by (rule prefixE)
    then have "hd (rev ?d) = hd (dropWhile is_space s)" using ne by (metis hd_append2 rev_is_Nil_conv)
    with hd_dropWhile [OF e] show ?thesis by simp
  qed
  ultimately show ?thesis unfolding trim_space_def trimmed_def by blast
qed

lemma trim_lower: "trim_space (to_lower (trim_space s)) = to_lower (trim_space s)"
proof (cases "trim_space s = []")
  case False
  then have "trimmed (to_lower (trim_space s))"
    using trim_space_cases [of s] by (auto simp: trimmed_def to_lower_def hd_map last_map is_space_lower)
  then show ?thesis by (rule trim_space_trimmed)
qed (simp add: to_lower_def)

lemma EnsureTenant_view:
  assumes "bolt_ok B" "store_EnsureTenant B db t = (None, db')"
  shows "tenant_view B db' = tenant_view B db"
proof -
  from assms(2) have "db_update B (\<lambda>tx. if \<not> has_bucket B tx tenants_path then Inl ''tenants bucket missing''
        else create_bucket B tx (tenant_path t)) db = (None, db')" by (auto simp: store_EnsureTenant_def split: if_splits)
  from db_update_None [OF assms(1) this] have "create_bucket B db (tenant_path t) = Inr db'" by (auto split: if_splits)
  from create_bucketD [OF assms(1) this] show ?thesis by (simp add: tenant_view_def fun_eq_iff)
qed

lemma SaveProfile_put:
  assumes "billing_SaveProfile B (Some db) p now = (None, st)"
  shows "\<exists>db'. st = Some db' \<and> store_PutKV B db (trim_space (pf_TenantID p)) profileKey (Doc (marshal_profile (p\<lparr>
      pf_TenantID := trim_space (pf_TenantID p), pf_CreatedAt := (if pf_CreatedAt p = zero_time then now else pf_CreatedAt p),
      pf_UpdatedAt := now\<rparr>))) = (None, db')"
  using assms by (auto simp: billing_SaveProfile_def Let_def map_prod_def split: if_splits prod.splits)

lemma QuotaFor_typed [simp]: "unmarshal_quota (marshal_quota (QuotaFor p)) = Some (QuotaFor p)"
  by (simp add: QuotaFor_def is_i64_def)

text \<open>The profile a sign-up leaves behind.\<close>

definition signed_profile :: "signup_request \<Rightarrow> (nat \<Rightarrow> instant) \<Rightarrow> tenant_profile" where
  "signed_profile req now = \<lparr>pf_TenantID = sg_TenantID req, pf_Name = sg_Name req, pf_Email = sg_Email req, pf_Plan = sg_Plan req,
     pf_Quota = QuotaFor (sg_Plan req), pf_CreatedAt = (if now 0 = zero_time then now 1 else now 0), pf_UpdatedAt = now 1\<rparr>"

lemma register_tenant_ok:
  assumes "register_tenant B req (Some r8) (Some r24) now db = (Inr (c, r), db')"
    and t: "trim_space (sg_TenantID req) = sg_TenantID req"
  obtains db1 db2 sk where "store_EnsureTenant B db (sg_TenantID req) = (None, db1)"
    "store_PutKV B db1 (sg_TenantID req) profileKey (Doc (marshal_profile (signed_profile req now))) = (None, db2)"
    "billing_GenerateKey B (Some db2) (sg_TenantID req) ''default'' (Some r8) (Some r24) (now 2) = (Inr sk, Some db')"
    "c = 201" "r = \<lparr>sp_TenantID = sg_TenantID req, sp_APIKey = sk_Key sk, sp_Plan = sg_Plan req, sp_Quota = QuotaFor (sg_Plan req)\<rparr>"
    "sk_ID sk = hex r8" "billing_GetProfile B (Some db) (sg_TenantID req) = None"
proof -
  let ?p = "\<lparr>pf_TenantID = sg_TenantID req, pf_Name = sg_Name req, pf_Email = sg_Email req, pf_Plan = sg_Plan req,
     pf_Quota = QuotaFor (sg_Plan req), pf_CreatedAt = now 0, pf_UpdatedAt = zero_time\<rparr>"
  from assms(1) obtain db1 st sk st' where g: "billing_GetProfile B (Some db) (sg_TenantID req) = None"
    and e: "store_EnsureTenant B db (sg_TenantID req) = (None, db1)"
    and s: "billing_SaveProfile B (Some db1) ?p (now 1) = (None, st)"
    and k: "billing_GenerateKey B st (sg_TenantID req) ''default'' (Some r8) (Some r24) (now 2) = (Inr sk, st')"
    and r: "c = 201" "r = \<lparr>sp_TenantID = sg_TenantID req, sp_APIKey = sk_Key sk, sp_Plan = sg_Plan req, sp_Quota = QuotaFor (sg_Plan req)\<rparr>"
    and db': "db' = meter_db (meter_db db1 st) st'"
    by (auto simp: register_tenant_def Let_def split: if_splits prod.splits option.splits sum.splits)
  have "?p\<lparr>pf_TenantID := trim_space (pf_TenantID ?p), pf_CreatedAt := (if pf_CreatedAt ?p = zero_time then now 1 else pf_CreatedAt ?p),
      pf_UpdatedAt := now 1\<rparr> = signed_profile req now" using t by (simp add: signed_profile_def)
  with SaveProfile_put [OF s] t obtain db2 where st: "st = Some db2"
    and put: "store_PutKV B db1 (sg_TenantID req) profileKey (Doc (marshal_profile (signed_profile req now))) = (None, db2)"
    by auto
  from k have "\<exists>d. st' = Some d" "sk_ID sk = hex r8"
    by (auto simp: billing_GenerateKey_def newID_def Let_def st split: if_splits prod.splits option.splits)
  with k st db' that [OF e put _ r _ g] show thesis by (auto simp: meter_db_def)
qed

lemma signup_to_register:
  assumes "handle_signup B m (Some req) rnd8 rnd24 now db = (Inr (c, r), db')"
  shows "register_tenant B (signup_defaults req) rnd8 rnd24 now db = (Inr (c, r), db')"
  using assms by (auto simp: handle_signup_def Let_def split: if_splits)

lemma profile_not_key: "profileKey \<noteq> keyPrefix @ i"
  by (simp add: profileKey_def keyPrefix_def)

text \<open>A key of the tenant, presented in the header, is served as the tenant.\<close>

lemma served_by_key:
  assumes "bolt_ok B" "view_error B db' = None"
    and "\<forall>t i sk'. stored_key B db t i sk' \<longrightarrow> sk_Key sk' \<noteq> ''sk-'' @ hex r24"
    and gen: "billing_GenerateKey B (Some db) tenant name (Some r8) (Some r24) now = (Inr sk, Some db')"
    and "hr_XAPIKey h = sk_Key sk"
  shows "fst (withDynAuth B db' cfg h) =
    Served (Some (trim_space tenant)) (Some \<lparr>ra_access = ''tenant'', ra_tenant = trim_space tenant\<rparr>)"
proof -
  note g = GenerateKey_put [OF gen]
  obtain ns where ns: "store_TenantNames B db' = Inr ns" "sk_TenantID sk \<in> set ns"
    using put_names [OF assms(1) g(1) assms(2)] by blast
  have found: "billing_GetKeyBySecret B (Some db') ns (sk_Key sk) = Some sk"
    by (rule generated_key_found [OF assms(1-3) gen ns(2)])
  have "presented_key h = sk_Key sk" "sk_Key sk \<noteq> []" "prefix ''sk-'' (sk_Key sk)"
    using assms(5) g(3) trim_space_trimmed [OF secret_trimmed, of r24] by (simp_all add: presented_key_def)
  with found g(2) show ?thesis by (simp add: withDynAuth_def ns(1))
qed

text \<open>C13. Whoever may call the sign-up endpoint gets into any tenant that has no billing profile, however
  much data it holds: the answer 201 carries a key with which every request is served as that tenant,
  the profile has the plan the caller chose, every other entry of the database is as it was, and from
  then on the real owner's sign-up is answered with 409.\<close>

theorem signup_grants_tenant:
  fixes req :: signup_request
  defines "t \<equiv> to_lower (trim_space (sg_TenantID req))"
  assumes ok: "bolt_ok B" "\<forall>db. view_error B db = None"
    and fresh: "\<forall>u i sk. stored_key B db u i sk \<longrightarrow> sk_Key sk \<noteq> ''sk-'' @ hex r24"
    and up: "handle_signup B m (Some req) (Some r8) (Some r24) now db = (Inr (c, r), db')"
  shows "c = 201 \<and>
    (\<forall>cfg h. hr_XAPIKey h = sp_APIKey r \<longrightarrow>
      fst (withDynAuth B db' cfg h) = Served (Some t) (Some \<lparr>ra_access = ''tenant'', ra_tenant = t\<rparr>)) \<and>
    billing_GetProfile B (Some db') t = Some (signed_profile (signup_defaults req) now) \<and>
    (\<forall>u k. (u, k) \<notin> {(t, profileKey), (t, keyPrefix @ hex r8)} \<longrightarrow> tenant_view B db' u k = tenant_view B db u k) \<and>
    (\<forall>req' x y now'. to_lower (trim_space (sg_TenantID req')) = t \<and> \<not> blank (sg_Email req') \<and> known_plan (sg_Plan req') \<longrightarrow>
      handle_signup B ''POST'' (Some req') x y now' db' = (Inl (409, ''tenant already registered''), db'))"
proof -
  let ?q = "signup_defaults req"
  have q: "sg_TenantID ?q = t" "trim_space t = t" by (simp_all add: signup_defaults_def t_def trim_lower)
  then have q': "trim_space (sg_TenantID ?q) = sg_TenantID ?q" by simp
  obtain db1 db2 sk where e: "store_EnsureTenant B db t = (None, db1)"
    and p: "store_PutKV B db1 t profileKey (Doc (marshal_profile (signed_profile ?q now))) = (None, db2)"
    and k: "billing_GenerateKey B (Some db2) t ''default'' (Some r8) (Some r24) (now 2) = (Inr sk, Some db')"
    and r: "c = 201" "r = \<lparr>sp_TenantID = t, sp_APIKey = sk_Key sk, sp_Plan = sg_Plan ?q, sp_Quota = QuotaFor (sg_Plan ?q)\<rparr>"
    and i: "sk_ID sk = hex r8"
    using register_tenant_ok [OF signup_to_register [OF up] q'] unfolding q(1) by metis
  note v1 = EnsureTenant_view [OF ok(1) e] and v2 = PutKV_ok [OF ok(1) p] and g = GenerateKey_put [OF k]
  note v3 = PutKV_ok [OF ok(1) g(1)]
  have sk: "sk_TenantID sk = t" using g(2) q(2) by simp
  have "\<forall>u i sk'. stored_key B db2 u i sk' \<longrightarrow> sk_Key sk' \<noteq> ''sk-'' @ hex r24"
    using fresh by (auto simp: stored_key_def v1 v2(1) profile_not_key [symmetric] split: if_splits)
  from served_by_key [OF ok(1) _ this k] ok(2) have served: "fst (withDynAuth B db' cfg h) =
      Served (Some t) (Some \<lparr>ra_access = ''tenant'', ra_tenant = t\<rparr>)" if "hr_XAPIKey h = sp_APIKey r" for cfg h
    using that q(2) r(2) by simp
  have view: "tenant_view B db' u k = (if u = t \<and> k = keyPrefix @ hex r8 then Some (Doc (marshal_key sk))
      else if u = t \<and> k = profileKey then Some (Doc (marshal_profile (signed_profile ?q now))) else tenant_view B db u k)" for u k
    by (simp add: v1 v2(1) v3(1) sk i)
  have prof: "billing_GetProfile B (Some db') t = Some (signed_profile ?q now)"
    using GetKV_view [OF ok(1) _ v3(2)] ok(2) profile_not_key
    by (simp add: billing_GetProfile_def view unmarshal_marshal_profile signed_profile_def)
  have again: "handle_signup B ''POST'' (Some req') x y now' db' = (Inl (409, ''tenant already registered''), db')"
    if "to_lower (trim_space (sg_TenantID req')) = t \<and> \<not> blank (sg_Email req') \<and> known_plan (sg_Plan req')" for req' x y now'
  proof -
    from that have d: "sg_TenantID (signup_defaults req') = t" "sg_Email (signup_defaults req') = sg_Email req'"
      "known_plan (sg_Plan (signup_defaults req'))" by (auto simp: signup_defaults_def known_plan_def)
    have "t \<noteq> []" using EnsureTenant_ok(1) [OF ok(1) e] by auto
    with d that prof show ?thesis by (simp add: handle_signup_def register_tenant_def)
  qed
  show ?thesis using r(1) served prof view again by auto
qed

definition ex_signup :: signup_request where
  "ex_signup = \<lparr>sg_TenantID = '' Acme'', sg_Name = ''Eve'', sg_Email = ''eve@example.com'', sg_Plan = ''enterprise''\<rparr>"

theorem signup_grants_tenant_witness:
  "\<exists>db db' r. tenant_view membolt db ''acme'' ''blocks'' = Some (Raw ''data'') \<and>
     handle_signup membolt ''POST'' (Some ex_signup) (Some ''a'') (Some ''b'') int db = (Inr (201, r), db') \<and>
     fst (withDynAuth membolt db' ex_config (ex_http ''/routes'' (sp_APIKey r) ''9.9.9.9:1'')) =
       Served (Some ''acme'') (Some \<lparr>ra_access = ''tenant'', ra_tenant = ''acme''\<rparr>) \<and>
     tenant_view membolt db' ''acme'' ''blocks'' = Some (Raw ''data'')"
proof -
  have t: "to_lower (trim_space '' Acme'') = ''acme''" "trim_space ''acme'' = ''acme''" by code_simp+
  have email: "\<not> blank ''eve@example.com''" by code_simp
  let ?q = "signup_defaults ex_signup"
  have q: "sg_TenantID ?q = ''acme''" "sg_Email ?q = ''eve@example.com''" "sg_Plan ?q = ''enterprise''" "sg_Name ?q = ''Eve''"
    by (simp_all add: signup_defaults_def ex_signup_def t)
  obtain db where d: "store_PutKV membolt mem0 ''acme'' ''blocks'' (Raw ''data'') = (None, db)"
    and b: "has_bucket membolt db tenants_path" by (rule membolt_put [OF mem0_simps(1)])
  note v = PutKV_ok(1) [OF membolt_ok d]
  have prof: "billing_GetProfile membolt (Some db) ''acme'' = None"
    using GetKV_view [OF membolt_ok _ b] v by (simp add: billing_GetProfile_def profileKey_def)
  obtain db1 where e: "store_EnsureTenant membolt db ''acme'' = (None, db1)" using mem_ensure [OF b] t(2) by force
  obtain db2 where p: "store_PutKV membolt db1 ''acme'' profileKey (Doc (marshal_profile (signed_profile ?q int))) = (None, db2)"
    and b2: "has_bucket membolt db2 tenants_path" by (rule membolt_put [OF EnsureTenant_ok(2) [OF membolt_ok e]])
  let ?sk = "ex_key\<lparr>sk_CreatedAt := 2\<rparr>"
  obtain db' where k: "store_PutKV membolt db2 ''acme'' (keyPrefix @ hex ''a'') (Doc (marshal_key ?sk)) = (None, db')"
    by (rule membolt_put [OF b2])
  let ?r = "\<lparr>sp_TenantID = ''acme'', sp_APIKey = sk_Key ?sk, sp_Plan = ''enterprise'', sp_Quota = QuotaFor ''enterprise''\<rparr>"
  have reg: "register_tenant membolt ?q (Some ''a'') (Some ''b'') int db = (Inr (201, ?r), db')"
    using prof e p k by (simp add: register_tenant_def q t Let_def billing_SaveProfile_def signed_profile_def zero_time_def
        billing_GenerateKey_def newID_def ex_key_def meter_db_def)
  then have up: "handle_signup membolt ''POST'' (Some ex_signup) (Some ''a'') (Some ''b'') int db = (Inr (201, ?r), db')"
    by (simp add: handle_signup_def q known_plan_def email Let_def)
  have "\<forall>u i sk. stored_key membolt db u i sk \<longrightarrow> sk_Key sk \<noteq> ''sk-'' @ hex ''b''"
    by (auto simp: stored_key_def v keyPrefix_def split: if_splits)
  from signup_grants_tenant [OF membolt_ok _ this up]
  have "fst (withDynAuth membolt db' ex_config (ex_http ''/routes'' (sp_APIKey ?r) ''9.9.9.9:1'')) =
       Served (Some ''acme'') (Some \<lparr>ra_access = ''tenant'', ra_tenant = ''acme''\<rparr>)"
    and "tenant_view membolt db' ''acme'' ''blocks'' = tenant_view membolt db ''acme'' ''blocks''"
    by (simp_all add: ex_signup_def t ex_http_def profileKey_def keyPrefix_def)
  moreover have "tenant_view membolt db ''acme'' ''blocks'' = Some (Raw ''data'')" by (simp add: v)
  ultimately show ?thesis using up by metis
qed

end
