(* ===== verification/Hub.thy ===== *)
theory Hub
  imports TenantApi Jobs Agents Circuit AgentGroup Pipeline KvStore Scheduler Notify Billing
begin

text \<open>
  What the handlers of \<^verbatim>\<open>newHandler\<close> in \<^verbatim>\<open>cmd/spectral-cloud/main.go\<close> work on: the
  managers of the server, which all write to one database. A manager's operation is run with the
  current database in its store field, and the database it leaves behind becomes the current one. A
  handler returns the answer, the events it publishes and sends to the webhook, and the hub
  afterwards. \<^verbatim>\<open>main\<close> creates every manager, so the nil tests of the handlers are left out.
\<close>

section \<open>State\<close>

record 'db hub =
  hs_tm :: "'db tenantManager"
  hs_agents :: registry
  hs_jobs :: "'db queue"
  hs_pipes :: "'db pipe_manager"
  hs_groups :: "'db group_manager"
  hs_scheds :: "'db sched_manager"
  hs_rules :: "'db notify_manager"
  hs_kv :: kv_store
  hs_circuit :: cb_manager
  hs_meter :: meter

abbreviation hub_db :: "'db hub \<Rightarrow> 'db" where
  "hub_db h \<equiv> tm_store (hs_tm h)"

definition put_db :: "'db option \<Rightarrow> 'db hub \<Rightarrow> 'db hub" where
  "put_db st h = (case st of None \<Rightarrow> h | Some db \<Rightarrow> h\<lparr>hs_tm := (hs_tm h)\<lparr>tm_store := db\<rparr>\<rparr>)"

definition on_jobs :: "('db queue \<Rightarrow> 'a \<times> 'db queue) \<Rightarrow> 'db hub \<Rightarrow> 'a \<times> 'db hub" where
  "on_jobs f h = (case f ((hs_jobs h)\<lparr>q_store := Some (hub_db h)\<rparr>) of (x, q) \<Rightarrow> (x, put_db (q_store q) (h\<lparr>hs_jobs := q\<rparr>)))"

definition on_pipes :: "('db pipe_manager \<Rightarrow> 'a \<times> 'db pipe_manager) \<Rightarrow> 'db hub \<Rightarrow> 'a \<times> 'db hub" where
  "on_pipes f h = (case f ((hs_pipes h)\<lparr>pm_store := Some (hub_db h)\<rparr>) of (x, m) \<Rightarrow> (x, put_db (pm_store m) (h\<lparr>hs_pipes := m\<rparr>)))"

definition on_groups :: "('db group_manager \<Rightarrow> 'a \<times> 'db group_manager) \<Rightarrow> 'db hub \<Rightarrow> 'a \<times> 'db hub" where
  "on_groups f h = (case f ((hs_groups h)\<lparr>gs_store := Some (hub_db h)\<rparr>) of (x, m) \<Rightarrow> (x, put_db (gs_store m) (h\<lparr>hs_groups := m\<rparr>)))"

definition on_scheds :: "('db sched_manager \<Rightarrow> 'a \<times> 'db sched_manager) \<Rightarrow> 'db hub \<Rightarrow> 'a \<times> 'db hub" where
  "on_scheds f h = (case f ((hs_scheds h)\<lparr>sm_store := Some (hub_db h)\<rparr>) of (x, m) \<Rightarrow> (x, put_db (sm_store m) (h\<lparr>hs_scheds := m\<rparr>)))"

definition on_rules :: "('db notify_manager \<Rightarrow> 'a \<times> 'db notify_manager) \<Rightarrow> 'db hub \<Rightarrow> 'a \<times> 'db hub" where
  "on_rules f h = (case f ((hs_rules h)\<lparr>nm_store := Some (hub_db h)\<rparr>) of (x, m) \<Rightarrow> (x, put_db (nm_store m) (h\<lparr>hs_rules := m\<rparr>)))"

definition on_agents :: "(registry \<Rightarrow> 'a \<times> registry) \<Rightarrow> 'db hub \<Rightarrow> 'a \<times> 'db hub" where
  "on_agents f h = (case f (hs_agents h) of (x, r) \<Rightarrow> (x, h\<lparr>hs_agents := r\<rparr>))"

section \<open>Requests and answers\<close>

text \<open>What a handler reads besides the request: the clock when the tenant is loaded, the later clock
  readings in order, and the orders in which Go visits the maps.\<close>

record tape =
  tp_clock :: clock
  tp_now :: "nat \<Rightarrow> instant"
  tp_agents :: "string list"
  tp_jobs :: "string list"
  tp_recs :: "string list"

datatype content =
    Empty
  | AgentC "agent option" | AgentsC "agent list"
  | JobC job | JobsC "job list"
  | EntryC "kv_entry option" | EntriesC "kv_entry list"
  | RuleC rule | RulesC "rule list"
  | BreakerC breaker | BreakersC "breaker list"
  | GroupC agent_group | GroupsC "agent_group list" | MemberC string
  | PipelineC pipeline | PipelinesC "pipeline list"
  | RunC run | RunsC "run list" | RunJobC run "job option"
  | ScheduleC schedule | SchedulesC "schedule list"

datatype result = Answer nat content | Refused nat string | Crashed

record 'db reply =
  rp_result :: result
  rp_events :: "event list"
  rp_hooks :: "event list"
  rp_hub :: "'db hub"

definition refuse :: "nat \<Rightarrow> string \<Rightarrow> 'db hub \<Rightarrow> 'db reply" where
  "refuse code msg h = \<lparr>rp_result = Refused code msg, rp_events = [], rp_hooks = [], rp_hub = h\<rparr>"

definition crash :: "'db hub \<Rightarrow> 'db reply" where
  "crash h = \<lparr>rp_result = Crashed, rp_events = [], rp_hooks = [], rp_hub = h\<rparr>"

definition answer :: "api_env \<Rightarrow> nat \<Rightarrow> content \<Rightarrow> event list \<Rightarrow> 'db hub \<Rightarrow> 'db reply" where
  "answer E code c evs h = \<lparr>rp_result = Answer code c, rp_events = (if ae_broker E then evs else []), rp_hooks = [], rp_hub = h\<rparr>"

definition with_tenant ::
    "api_env \<Rightarrow> 'db bolt \<Rightarrow> tape \<Rightarrow> string option \<Rightarrow> 'db hub \<Rightarrow> (string \<Rightarrow> 'db hub \<Rightarrow> 'db reply) \<Rightarrow> 'db reply" where
  "with_tenant E B tp ctx h k =
     (case getState E B (tp_clock tp) ctx (hs_tm h) of
        (None, tm) \<Rightarrow> refuse 500 ''failed to load tenant'' (h\<lparr>hs_tm := tm\<rparr>)
      | (Some (st, tenant), tm) \<Rightarrow> k tenant (h\<lparr>hs_tm := tm\<rparr>))"

text \<open>\<^verbatim>\<open>strings.SplitN\<close> for a one-byte separator.\<close>

fun splitn :: "nat \<Rightarrow> char \<Rightarrow> string \<Rightarrow> string list" where
  "splitn 0 d s = []"
| "splitn (Suc 0) d s = [s]"
| "splitn (Suc (Suc n)) d s =
     (if d \<in> set s then takeWhile (\<lambda>c. c \<noteq> d) s # splitn (Suc n) d (tl (dropWhile (\<lambda>c. c \<noteq> d) s)) else [s])"

text \<open>Entering a pair into a map, and copying two maps into a new one, the second over the first; the
  entries are kept in the order of their keys.\<close>

definition put_entry :: "string \<Rightarrow> json \<Rightarrow> (string \<times> json) list \<Rightarrow> (string \<times> json) list" where
  "put_entry k v kvs = insort_key fst (k, v) (filter (\<lambda>e. fst e \<noteq> k) kvs)"

definition payload_entries :: "payload \<Rightarrow> (string \<times> json) list" where
  "payload_entries p = (case p of None \<Rightarrow> [] | Some kvs \<Rightarrow> kvs)"

definition copy_into :: "payload \<Rightarrow> (string \<times> json) list \<Rightarrow> (string \<times> json) list" where
  "copy_into p kvs = fold (\<lambda>(k, v). put_entry k v) (payload_entries p) kvs"

section \<open>Lemmas\<close>

lemma hub_ops [simp]:
  "put_db None h = h" "hs_agents (put_db st h) = hs_agents h" "hs_jobs (put_db st h) = hs_jobs h" "hs_pipes (put_db st h) = hs_pipes h"
  "hs_groups (put_db st h) = hs_groups h" "hs_scheds (put_db st h) = hs_scheds h" "hs_rules (put_db st h) = hs_rules h"
  "hs_kv (put_db st h) = hs_kv h" "hs_circuit (put_db st h) = hs_circuit h" "hs_meter (put_db st h) = hs_meter h"
  by (simp_all add: put_db_def split: option.splits)

lemma reply_simps [simp]:
  "rp_hub (refuse code msg h) = h" "rp_hub (crash h) = h" "rp_hub (answer E code c evs h) = h"
  "rp_result (refuse code msg h) = Refused code msg" "rp_result (crash h) = Crashed" "rp_result (answer E code c evs h) = Answer code c"
  by (simp_all add: refuse_def crash_def answer_def)

lemma map_of_insort_key: "distinct (map fst kvs) \<Longrightarrow> k \<notin> fst ` set kvs \<Longrightarrow> map_of (insort_key fst (k, v) kvs) = (map_of kvs)(k \<mapsto> v)"
  by (induction kvs) (auto simp: fun_eq_iff)

lemma put_entry_distinct: "distinct (map fst kvs) \<Longrightarrow> distinct (map fst (put_entry k v kvs))"
proof -
  assume d: "distinct (map fst kvs)"
  have "distinct (map fst (insort_key fst (k, v) xs))" if "distinct (map fst xs)" "k \<notin> fst ` set xs" for xs
    using that by (induction xs) (auto simp: set_insort_key)
  from this [OF distinct_map_filter [OF d], of "\<lambda>e. fst e \<noteq> k"] show ?thesis by (auto simp: put_entry_def)
qed

lemma map_of_put_entry: "distinct (map fst kvs) \<Longrightarrow> map_of (put_entry k v kvs) = (map_of kvs)(k \<mapsto> v)"
proof -
  assume d: "distinct (map fst kvs)"
  have "map_of (filter (\<lambda>e. fst e \<noteq> k) kvs) = (map_of kvs)(k := None)"
    by (induction kvs) (auto simp: fun_eq_iff)
  moreover have "k \<notin> fst ` set (filter (\<lambda>e. fst e \<noteq> k) kvs)" by auto
  ultimately show ?thesis using map_of_insort_key [OF distinct_map_filter [OF d]] by (simp add: put_entry_def)
qed

lemma copy_into_map:
  "distinct (map fst kvs) \<Longrightarrow> distinct (map fst (payload_entries p)) \<Longrightarrow>
    map_of (copy_into p kvs) = map_of kvs ++ map_of (payload_entries p) \<and> distinct (map fst (copy_into p kvs))"
proof -
  assume "distinct (map fst kvs)" "distinct (map fst (payload_entries p))"
  moreover have "distinct (map fst kvs) \<Longrightarrow> distinct (map fst xs) \<Longrightarrow>
      map_of (fold (\<lambda>(k, v). put_entry k v) xs kvs) = map_of kvs ++ map_of xs \<and> distinct (map fst (fold (\<lambda>(k, v). put_entry k v) xs kvs))"
    for xs :: "(string \<times> json) list"
  proof (induction xs arbitrary: kvs)
    case (Cons x xs)
    obtain k v where x: "x = (k, v)" by force
    have "map_of xs k = None" using Cons.prems(2) x by (auto simp: map_of_eq_None_iff)
    then have "(map_of kvs)(k \<mapsto> v) ++ map_of xs = map_of kvs ++ (map_of xs)(k \<mapsto> v)"
      by (auto simp: map_add_def fun_eq_iff split: option.splits)
    moreover have "distinct (map fst xs)" using Cons.prems(2) by simp
    ultimately show ?case using Cons.IH [OF put_entry_distinct [OF Cons.prems(1), of k v]]
      unfolding x by (simp only: fold_simps split map_of.simps fst_conv snd_conv map_of_put_entry [OF Cons.prems(1)])
  qed simp
  ultimately show ?thesis by (simp add: copy_into_def)
qed

end
