(* ===== verification/ResourceApi.thy ===== *)
theory ResourceApi
  imports Hub
begin

text \<open>
  The handlers of \<^verbatim>\<open>cmd/spectral-cloud/main.go\<close> for agents, jobs, key-value entries, notification
  rules and circuit breakers. The tenant of a request is the one of its context; a body is \<open>None\<close> when
  it cannot be decoded. Where a handler takes what follows its path prefix, the argument is named as
  in the code.
\<close>

section \<open>Agents\<close>

definition marshal_agent :: "agent \<Rightarrow> json" where
  "marshal_agent a = JObj ([(''id'', JStr (a_ID a)), (''tenant_id'', JStr (a_TenantID a))] @ opt_str ''addr'' (a_Addr a) @
     [(''status'', JStr (a_Status a))] @
     (if tag_entries (a_Tags a) = [] then [] else [(''tags'', JObj (tag_entries (a_Tags a)))]) @
     (if a_Capabilities a = [] then [] else [(''capabilities'', JArr (map JStr (a_Capabilities a)))]) @
     [(''registered_at'', JTime (a_RegisteredAt a)), (''last_seen'', JTime (a_LastSeen a))] @ opt_time ''expires_at'' (a_ExpiresAt a))"

definition zero_agent :: agent where
  "zero_agent = \<lparr>a_ID = [], a_TenantID = [], a_Addr = [], a_Status = [], a_Tags = Map.empty, a_Capabilities = [],
     a_RegisteredAt = zero_time, a_LastSeen = zero_time, a_ExpiresAt = None\<rparr>"

text \<open>A selector as the list of its entries.\<close>

definition selector_entries :: "(string \<rightharpoonup> string) \<Rightarrow> (string \<times> string) list" where
  "selector_entries m = map (\<lambda>k. (k, the (m k))) (sorted_list_of_set (dom m))"

definition get_agents :: "tape \<Rightarrow> string \<Rightarrow> query \<Rightarrow> registry \<Rightarrow> agent list \<times> registry" where
  "get_agents tp tenant q r =
     (let capability = trim_space (query_get q ''capability''); selectorStr = trim_space (query_get q ''selector'');
          ks = tp_agents tp; now = tp_now tp 0
      in if capability \<noteq> [] then agents_ListByCapability r tenant capability ks now
         else if selectorStr \<noteq> [] then agents_ListBySelector r tenant (selector_entries (parseTagSelector selectorStr)) ks now
         else agents_List r tenant ks now)"

definition patch_agent :: "api_env \<Rightarrow> tape \<Rightarrow> string \<Rightarrow> string \<Rightarrow> update_request option \<Rightarrow> 'db hub \<Rightarrow> 'db reply" where
  "patch_agent E tp tenant i body h =
     (case body of None \<Rightarrow> refuse 400 ''invalid JSON body'' h
      | Some req \<Rightarrow>
          if u_Status req \<noteq> [] \<and> \<not> agents_IsValidStatus (u_Status req)
          then refuse 400 ''invalid status: must be healthy, degraded, or unknown'' h
          else case on_agents (\<lambda>r. agents_Update r tenant i req (tp_now tp 0)) h of
                 (Some e, h1) \<Rightarrow> refuse 404 ''agent not found'' h1
               | (None, h1) \<Rightarrow> (case on_agents (\<lambda>r. agents_Get r tenant i (tp_now tp 1)) h1 of (a, h2) \<Rightarrow>
                    answer E 200 (AgentC a) [] h2))"

definition handle_agents ::
    "api_env \<Rightarrow> 'db bolt \<Rightarrow> tape \<Rightarrow> string option \<Rightarrow> string \<Rightarrow> query \<Rightarrow> update_request option \<Rightarrow> 'db hub \<Rightarrow> 'db reply" where
  "handle_agents E B tp ctx m q body h0 = with_tenant E B tp ctx h0 (\<lambda>tenant h.
     let i = trim_space (query_get q ''id'')
     in if m = ''GET'' then
          (if i \<noteq> [] then
             (case on_agents (\<lambda>r. agents_Get r tenant i (tp_now tp 0)) h of
                (None, h1) \<Rightarrow> refuse 404 ''agent not found'' h1
              | (Some a, h1) \<Rightarrow> answer E 200 (AgentC (Some a)) [] h1)
           else (case on_agents (get_agents tp tenant q) h of (as, h1) \<Rightarrow> answer E 200 (AgentsC as) [] h1))
        else if m = ''DELETE'' then
          (if i = [] then refuse 400 ''id is required'' h
           else case on_agents (\<lambda>r. agents_Deregister r tenant i) h of
                  (Some e, h1) \<Rightarrow> refuse 404 ''agent not found'' h1
                | (None, h1) \<Rightarrow> answer E 204 Empty [] h1)
        else if m = ''PATCH'' then
          (if i = [] then refuse 400 ''id is required'' h else patch_agent E tp tenant i body h)
        else refuse 405 ''method not allowed'' h)"

text \<open>\<open>defaultAgentTTL\<close> is the setting \<^verbatim>\<open>AGENT_TTL_SECONDS\<close>.\<close>

definition handle_agents_register ::
    "api_env \<Rightarrow> 'db bolt \<Rightarrow> int \<Rightarrow> tape \<Rightarrow> string option \<Rightarrow> string \<Rightarrow> register_request option \<Rightarrow> 'db hub \<Rightarrow> 'db reply" where
  "handle_agents_register E B defaultAgentTTL tp ctx m body h0 =
     (if m \<noteq> ''POST'' then refuse 405 ''method not allowed'' h0
      else with_tenant E B tp ctx h0 (\<lambda>tenant h.
        case body of None \<Rightarrow> refuse 400 ''invalid JSON body'' h
        | Some req0 \<Rightarrow>
            let req = req0\<lparr>r_TenantID := tenant, r_TTLSeconds := (if r_TTLSeconds req0 = 0 then defaultAgentTTL else r_TTLSeconds req0)\<rparr>
            in case on_agents (\<lambda>r. agents_Register r req (tp_now tp 0)) h of
                 (Some e, h1) \<Rightarrow> refuse 400 e h1
               | (None, h1) \<Rightarrow>
                   (case on_agents (\<lambda>r. agents_Get r tenant (r_ID req) (tp_now tp 1)) h1 of (a, h2) \<Rightarrow>
                      let ev = tenant_event ''agent_registered'' tenant (marshal_agent (case a of None \<Rightarrow> zero_agent | Some x \<Rightarrow> x))
                      in (answer E 201 (AgentC a) [ev] h2)\<lparr>rp_hooks := (if ae_dispatcher E then [ev] else [])\<rparr>)))"

definition handle_agents_heartbeat ::
    "api_env \<Rightarrow> 'db bolt \<Rightarrow> int \<Rightarrow> tape \<Rightarrow> string option \<Rightarrow> string \<Rightarrow> query \<Rightarrow> 'db hub \<Rightarrow> 'db reply" where
  "handle_agents_heartbeat E B defaultAgentTTL tp ctx m q h0 =
     (if m \<noteq> ''POST'' then refuse 405 ''method not allowed'' h0
      else with_tenant E B tp ctx h0 (\<lambda>tenant h.
        let i = trim_space (query_get q ''id'');
            ttl0 = (case parseIntQueryMulti q [''ttl_seconds''] of Present n \<Rightarrow> n | _ \<Rightarrow> 0);
            ttl = (if ttl0 \<le> 0 then defaultAgentTTL else ttl0)
        in if i = [] then refuse 400 ''id is required'' h
           else case on_agents (\<lambda>r. agents_Heartbeat r tenant i ttl (tp_now tp 0)) h of
                  (Some e, h1) \<Rightarrow> refuse 404 ''agent not found'' h1
                | (None, h1) \<Rightarrow> answer E 204 Empty [] h1))"

definition handle_agents_status ::
    "api_env \<Rightarrow> 'db bolt \<Rightarrow> tape \<Rightarrow> string option \<Rightarrow> string \<Rightarrow> query \<Rightarrow> 'db hub \<Rightarrow> 'db reply" where
  "handle_agents_status E B tp ctx m q h0 =
     (if m \<noteq> ''POST'' then refuse 405 ''method not allowed'' h0
      else with_tenant E B tp ctx h0 (\<lambda>tenant h.
        let i = trim_space (query_get q ''id''); statusStr = trim_space (query_get q ''status'')
        in if i = [] then refuse 400 ''id is required'' h
           else if statusStr = [] then refuse 400 ''status is required'' h
           else if \<not> agents_IsValidStatus statusStr then refuse 400 ''invalid status: must be healthy, degraded, or unknown'' h
           else case on_agents (\<lambda>r. agents_UpdateStatus r tenant i statusStr (tp_now tp 0)) h of
                  (Some e, h1) \<Rightarrow> refuse 404 ''agent not found'' h1
                | (None, h1) \<Rightarrow> answer E 204 Empty [] h1))"

definition handle_agents_route ::
    "api_env \<Rightarrow> 'db bolt \<Rightarrow> tape \<Rightarrow> string option \<Rightarrow> string \<Rightarrow> query \<Rightarrow> 'db hub \<Rightarrow> 'db reply" where
  "handle_agents_route E B tp ctx m q h0 =
     (if m \<noteq> ''GET'' then refuse 405 ''method not allowed'' h0
      else with_tenant E B tp ctx h0 (\<lambda>tenant h.
        let capability = trim_space (query_get q ''capability'');
            count = (case atoi (query_get q ''count'') of Some c \<Rightarrow> if c > 0 then c else 5 | None \<Rightarrow> 5)
        in if capability = [] then refuse 400 ''capability is required'' h
           else case on_agents (\<lambda>r. agents_ListByCapability r tenant capability (tp_agents tp) (tp_now tp 0)) h of (cs, h1) \<Rightarrow>
                  answer E 200 (AgentsC (take (nat count) cs)) [] h1))"

section \<open>Jobs\<close>

record job_request =
  jr_AgentID :: string
  jr_Capability :: string
  jr_Payload :: payload
  jr_Priority :: int
  jr_TTLSeconds :: int

text \<open>An agent for a capability when none is named, as the jobs and the pipelines handler choose it.\<close>

definition choose_agent :: "tape \<Rightarrow> instant \<Rightarrow> string \<Rightarrow> string \<Rightarrow> string \<Rightarrow> 'db hub \<Rightarrow> string option \<times> 'db hub" where
  "choose_agent tp now tenant agentID capability h =
     (if agentID \<noteq> [] then (Some agentID, h)
      else case on_agents (\<lambda>r. agents_FindBest r tenant capability (tp_agents tp) now) h of (best, h1) \<Rightarrow> (map_option a_ID best, h1))"

definition no_agent_msg :: "string \<Rightarrow> string" where
  "no_agent_msg capability = ''no healthy agent available for capability: '' @ capability"

definition submit_job :: "api_env \<Rightarrow> 'db bolt \<Rightarrow> tape \<Rightarrow> string \<Rightarrow> job_request \<Rightarrow> 'db hub \<Rightarrow> 'db reply" where
  "submit_job E B tp tenant req h =
     (case choose_agent tp (tp_now tp 0) tenant (jr_AgentID req) (jr_Capability req) h of
        (None, h1) \<Rightarrow> refuse 503 (no_agent_msg (jr_Capability req)) h1
      | (Some agentID, h1) \<Rightarrow>
          (case on_jobs (\<lambda>q. jobs_SubmitWithOpts (bolt_persister B) q tenant agentID (jr_Capability req) (jr_Payload req)
              (jr_Priority req) (jr_TTLSeconds req) (tp_now tp 1)) h1 of (j, h2) \<Rightarrow>
             answer E 201 (JobC j) [tenant_event ''job.created'' tenant (marshal_job j)]
               (h2\<lparr>hs_meter := billing_Record (hs_meter h2) tenant MetricJobs 1 (tp_now tp 2)\<rparr>)))"

definition handle_jobs ::
    "api_env \<Rightarrow> 'db bolt \<Rightarrow> tape \<Rightarrow> string option \<Rightarrow> string \<Rightarrow> job_request option \<Rightarrow> 'db hub \<Rightarrow> 'db reply" where
  "handle_jobs E B tp ctx m body h0 = with_tenant E B tp ctx h0 (\<lambda>tenant h.
     if m = ''GET'' then answer E 200 (JobsC (jobs_List (hs_jobs h) tenant (tp_jobs tp))) [] h
     else if m = ''POST'' then
       (case body of None \<Rightarrow> refuse 400 ''invalid request body'' h
        | Some req \<Rightarrow>
            if jr_AgentID req = [] \<and> jr_Capability req = [] then refuse 400 ''agent_id or capability is required'' h
            else submit_job E B tp tenant req h)
     else refuse 405 ''method not allowed'' h)"

definition claim_job :: "api_env \<Rightarrow> 'db bolt \<Rightarrow> tape \<Rightarrow> string \<Rightarrow> query \<Rightarrow> 'db hub \<Rightarrow> 'db reply" where
  "claim_job E B tp tenant q h =
     (let agentID = trim_space (query_get q ''agent_id''); capability = trim_space (query_get q ''capability'')
      in if agentID = [] \<and> capability = [] then refuse 400 ''agent_id or capability is required'' h
         else case on_jobs (\<lambda>jq. jobs_ClaimForTenant (bolt_persister B) jq tenant agentID capability (tp_jobs tp) (tp_now tp 0)) h of
                (None, h1) \<Rightarrow> refuse 204 ''no pending job available'' h1
              | (Some j, h1) \<Rightarrow> answer E 200 (JobC j) [tenant_event ''job.claimed'' tenant (marshal_job j)] h1)"

definition zero_job :: job where
  "zero_job = \<lparr>j_ID = [], j_Tenant = [], j_AgentID = [], j_Capability = [], j_Payload = None, j_Priority = 0, j_TTLSeconds = 0,
     j_Status = [], j_Result = [], j_Error = [], j_CreatedAt = zero_time, j_UpdatedAt = zero_time, j_ExpiresAt = None\<rparr>"

definition own_job :: "string \<Rightarrow> string \<Rightarrow> 'db hub \<Rightarrow> job option" where
  "own_job tenant i h = (case jobs_Get (hs_jobs h) i of None \<Rightarrow> None | Some j \<Rightarrow> if j_Tenant j \<noteq> tenant then None else Some j)"

definition job_event_type :: "string \<Rightarrow> string" where
  "job_event_type status =
     (if status = StatusDone then ''job.completed'' else if status = StatusFailed then ''job.failed''
      else if status = StatusCancelled then ''job.cancelled'' else if status = StatusRunning then ''job.claimed''
      else ''job.updated'')"

text \<open>The body of an update: status, result and error.\<close>

definition patch_job ::
    "api_env \<Rightarrow> 'db bolt \<Rightarrow> tape \<Rightarrow> string \<Rightarrow> string \<Rightarrow> (string \<times> string \<times> string) option \<Rightarrow> 'db hub \<Rightarrow> 'db reply" where
  "patch_job E B tp tenant i body h =
     (case own_job tenant i h of None \<Rightarrow> refuse 404 ''job not found'' h
      | Some existing \<Rightarrow>
        (case body of None \<Rightarrow> refuse 400 ''invalid request body'' h
         | Some (status, res, err) \<Rightarrow>
             if status = [] then refuse 400 ''status is required'' h
             else case on_jobs (\<lambda>q. jobs_Update (bolt_persister B) q i status res err (tp_now tp 0)) h of
                    (False, h1) \<Rightarrow> refuse 404 ''job not found'' h1
                  | (True, h1) \<Rightarrow>
                      let j = (case jobs_Get (hs_jobs h1) i of None \<Rightarrow> zero_job | Some j \<Rightarrow> j)
                      in answer E 200 (JobC j) [tenant_event (job_event_type status) tenant
                           (JObj [(''job'', marshal_job j), (''previous_status'', JStr (j_Status existing))])] h1))"

definition delete_job :: "api_env \<Rightarrow> 'db bolt \<Rightarrow> tape \<Rightarrow> string \<Rightarrow> string \<Rightarrow> 'db hub \<Rightarrow> 'db reply" where
  "delete_job E B tp tenant i h =
     (case own_job tenant i h of None \<Rightarrow> refuse 404 ''job not found or already in terminal state'' h
      | Some existing \<Rightarrow>
          (case on_jobs (\<lambda>q. jobs_Cancel (bolt_persister B) q i (tp_now tp 0)) h of
             (False, h1) \<Rightarrow> refuse 404 ''job not found or already in terminal state'' h1
           | (True, h1) \<Rightarrow> answer E 204 Empty [tenant_event ''job.cancelled'' tenant (marshal_job existing)] h1))"

definition handle_job ::
    "api_env \<Rightarrow> 'db bolt \<Rightarrow> tape \<Rightarrow> string option \<Rightarrow> string \<Rightarrow> string \<Rightarrow> query \<Rightarrow> (string \<times> string \<times> string) option \<Rightarrow> 'db hub \<Rightarrow> 'db reply" where
  "handle_job E B tp ctx m path q body h0 = with_tenant E B tp ctx h0 (\<lambda>tenant h.
     if path = ''claim'' then
       (if m \<noteq> ''GET'' then refuse 405 ''method not allowed'' h else claim_job E B tp tenant q h)
     else if path = [] then refuse 400 ''job id is required'' h
     else if m = ''GET'' then
       (case own_job tenant path h of None \<Rightarrow> refuse 404 ''job not found'' h | Some j \<Rightarrow> answer E 200 (JobC j) [] h)
     else if m = ''PATCH'' then patch_job E B tp tenant path body h
     else if m = ''DELETE'' then delete_job E B tp tenant path h
     else refuse 405 ''method not allowed'' h)"

section \<open>Key-value entries\<close>

definition handle_kv_list :: "api_env \<Rightarrow> 'db bolt \<Rightarrow> tape \<Rightarrow> string option \<Rightarrow> string \<Rightarrow> query \<Rightarrow> 'db hub \<Rightarrow> 'db reply" where
  "handle_kv_list E B tp ctx m q h0 = with_tenant E B tp ctx h0 (\<lambda>tenant h.
     if m = ''GET'' then answer E 200 (EntriesC (kv_List (hs_kv h) tenant (query_get q ''prefix'') (tp_recs tp) (tp_now tp 0))) [] h
     else refuse 405 ''method not allowed'' h)"

text \<open>Events that carry their own time.\<close>

definition timed_event :: "string \<Rightarrow> string \<Rightarrow> instant \<Rightarrow> json \<Rightarrow> event" where
  "timed_event ty tenant now d = (tenant_event ty tenant d)\<lparr>ev_Timestamp := now\<rparr>"

definition handle_kv ::
    "api_env \<Rightarrow> 'db bolt \<Rightarrow> tape \<Rightarrow> string option \<Rightarrow> string \<Rightarrow> string \<Rightarrow> (string \<times> duration) option \<Rightarrow> 'db hub \<Rightarrow> 'db reply" where
  "handle_kv E B tp ctx m key body h0 = with_tenant E B tp ctx h0 (\<lambda>tenant h.
     if key = [] then refuse 400 ''missing key'' h
     else if m = ''GET'' then
       (case kv_Get (hs_kv h) tenant key (tp_now tp 0) of None \<Rightarrow> refuse 404 ''key not found'' h
        | Some e \<Rightarrow> answer E 200 (EntryC (Some e)) [] h)
     else if m = ''PUT'' then
       (case body of None \<Rightarrow> refuse 400 ''invalid body'' h
        | Some (val, ttl) \<Rightarrow>
            let h1 = h\<lparr>hs_kv := kv_Set (hs_kv h) tenant key val ttl (tp_now tp 0) (tp_now tp 1)\<rparr>
            in answer E 200 (EntryC (kv_Get (hs_kv h1) tenant key (tp_now tp 3)))
                 [timed_event ''kv.set'' tenant (tp_now tp 2) (JObj [(''key'', JStr key)])] h1)
     else if m = ''DELETE'' then
       (case kv_Delete (hs_kv h) tenant key of
          (False, s) \<Rightarrow> refuse 404 ''key not found'' (h\<lparr>hs_kv := s\<rparr>)
        | (True, s) \<Rightarrow> answer E 204 Empty [timed_event ''kv.delete'' tenant (tp_now tp 0) (JObj [(''key'', JStr key)])] (h\<lparr>hs_kv := s\<rparr>))
     else refuse 405 ''method not allowed'' h)"

section \<open>Notification rules\<close>

record rule_request =
  rq_Name :: string
  rq_WebhookURL :: string
  rq_Secret :: string
  rq_EventTypes :: "string list"

definition handle_notifications ::
    "api_env \<Rightarrow> 'db bolt \<Rightarrow> tape \<Rightarrow> string option \<Rightarrow> string \<Rightarrow> rule_request option \<Rightarrow> 'db hub \<Rightarrow> 'db reply" where
  "handle_notifications E B tp ctx m body h0 = with_tenant E B tp ctx h0 (\<lambda>tenant h.
     if m = ''GET'' then answer E 200 (RulesC (notify_List (hs_rules h) tenant (tp_recs tp))) [] h
     else if m = ''POST'' then
       (case body of None \<Rightarrow> refuse 400 ''invalid body'' h
        | Some r \<Rightarrow>
            if blank (rq_Name r) then refuse 400 ''name is required'' h
            else if blank (rq_WebhookURL r) then refuse 400 ''webhook_url is required'' h
            else case on_rules (\<lambda>n. notify_Add (bolt_persister B) n tenant (rq_Name r) (rq_WebhookURL r) (rq_Secret r)
                    (rq_EventTypes r) (tp_now tp 0)) h of (rule, h1) \<Rightarrow> answer E 201 (RuleC rule) [] h1)
     else refuse 405 ''method not allowed'' h)"

definition handle_notification ::
    "api_env \<Rightarrow> 'db bolt \<Rightarrow> tape \<Rightarrow> string option \<Rightarrow> string \<Rightarrow> string \<Rightarrow> rule_update option \<Rightarrow> 'db hub \<Rightarrow> 'db reply" where
  "handle_notification E B tp ctx m i body h0 = with_tenant E B tp ctx h0 (\<lambda>tenant h.
     if i = [] then refuse 400 ''missing rule id'' h
     else if m = ''GET'' then
       (case notify_Get (hs_rules h) tenant i of None \<Rightarrow> refuse 404 ''rule not found'' h | Some r \<Rightarrow> answer E 200 (RuleC r) [] h)
     else if m = ''PATCH'' then
       (case body of None \<Rightarrow> refuse 400 ''invalid body'' h
        | Some p \<Rightarrow>
            (case on_rules (\<lambda>n. notify_Update (bolt_persister B) n tenant i p) h of
               (Inl e, h1) \<Rightarrow> refuse 400 e h1
             | (Inr None, h1) \<Rightarrow> refuse 404 ''rule not found'' h1
             | (Inr (Some r), h1) \<Rightarrow> answer E 200 (RuleC r) [] h1))
     else if m = ''DELETE'' then
       (case on_rules (\<lambda>n. notify_Delete (bolt_persister B) n tenant i) h of
          (False, h1) \<Rightarrow> refuse 404 ''rule not found'' h1
        | (True, h1) \<Rightarrow> answer E 204 Empty [] h1)
     else refuse 405 ''method not allowed'' h)"

section \<open>Circuit breakers\<close>

text \<open>These handlers never ask for the tenant.\<close>

definition on_circuit :: "(cb_manager \<Rightarrow> 'a \<times> cb_manager) \<Rightarrow> 'db hub \<Rightarrow> 'a \<times> 'db hub" where
  "on_circuit f h = (case f (hs_circuit h) of (x, c) \<Rightarrow> (x, h\<lparr>hs_circuit := c\<rparr>))"

definition handle_circuit :: "api_env \<Rightarrow> tape \<Rightarrow> string \<Rightarrow> query \<Rightarrow> 'db hub \<Rightarrow> 'db reply" where
  "handle_circuit E tp m q h =
     (if m \<noteq> ''GET'' then refuse 405 ''method not allowed'' h
      else let i = query_get q ''agent_id''
           in if i \<noteq> [] then (case on_circuit (\<lambda>c. circuit_Get c i) h of (b, h1) \<Rightarrow> answer E 200 (BreakerC b) [] h1)
              else (case on_circuit (\<lambda>c. circuit_List c (tp_recs tp)) h of (bs, h1) \<Rightarrow> answer E 200 (BreakersC bs) [] h1))"

definition handle_circuit_record :: "api_env \<Rightarrow> tape \<Rightarrow> string \<Rightarrow> (string \<times> bool) option \<Rightarrow> 'db hub \<Rightarrow> 'db reply" where
  "handle_circuit_record E tp m body h =
     (if m \<noteq> ''POST'' then refuse 405 ''method not allowed'' h
      else case body of None \<Rightarrow> refuse 400 ''invalid body'' h
      | Some (agentID, success) \<Rightarrow>
          if agentID = [] then refuse 400 ''agent_id required'' h
          else let c1 = (if success then circuit_RecordSuccess (hs_circuit h) agentID
                         else snd (circuit_RecordFailure (hs_circuit h) agentID (tp_now tp 0)))
               in case on_circuit (\<lambda>c. circuit_Get c agentID) (h\<lparr>hs_circuit := c1\<rparr>) of (b, h1) \<Rightarrow> answer E 200 (BreakerC b) [] h1)"

definition handle_circuit_reset :: "api_env \<Rightarrow> string \<Rightarrow> query \<Rightarrow> 'db hub \<Rightarrow> 'db reply" where
  "handle_circuit_reset E m q h =
     (if m \<noteq> ''POST'' then refuse 405 ''method not allowed'' h
      else let i = trim_space (query_get q ''agent_id'')
           in if i = [] then refuse 400 ''agent_id required'' h
              else case on_circuit (\<lambda>c. circuit_Get (circuit_Reset c i) i) h of (b, h1) \<Rightarrow> answer E 200 (BreakerC b) [] h1)"

end
