(* ===== verification/WorkflowApi.thy ===== *)
theory WorkflowApi
  imports ResourceApi
begin

text \<open>
  The handlers of \<^verbatim>\<open>cmd/spectral-cloud/main.go\<close> for agent groups, pipelines with their runs,
  and schedules. Starting or advancing a run goes through three managers: the pipelines, the agent
  registry, which may have to name an agent, and the job queue.
\<close>

section \<open>Agent groups\<close>

definition handle_groups ::
    "api_env \<Rightarrow> 'db bolt \<Rightarrow> tape \<Rightarrow> string option \<Rightarrow> string \<Rightarrow> string option \<Rightarrow> 'db hub \<Rightarrow> 'db reply" where
  "handle_groups E B tp ctx m body h0 = with_tenant E B tp ctx h0 (\<lambda>tenant h.
     if m = ''GET'' then answer E 200 (GroupsC (groups_List (hs_groups h) tenant (tp_recs tp))) [] h
     else if m = ''POST'' then
       (case body of None \<Rightarrow> refuse 400 ''invalid body'' h
        | Some name \<Rightarrow>
            (case on_groups (\<lambda>g. groups_Create (bolt_persister B) g tenant name (tp_now tp 0)) h of
               (Inl e, h1) \<Rightarrow> refuse 400 e h1
             | (Inr g, h1) \<Rightarrow> answer E 201 (GroupC g) [tenant_event ''group.created'' tenant (marshal_group g)] h1))
     else refuse 405 ''method not allowed'' h)"

text \<open>The bodies of the requests below \<^verbatim>\<open>/agent-groups/{id}\<close>: a new name, a new member with
  an optional weight, a new weight.\<close>

record group_body =
  gb_Name :: "string option"
  gb_AgentID :: string
  gb_Weight :: "int option"

definition group_itself :: "api_env \<Rightarrow> 'db bolt \<Rightarrow> string \<Rightarrow> string \<Rightarrow> string \<Rightarrow> group_body option \<Rightarrow> 'db hub \<Rightarrow> 'db reply" where
  "group_itself E B tenant m groupID body h =
     (if m = ''GET'' then
        (case groups_Get (hs_groups h) tenant groupID of None \<Rightarrow> refuse 404 ''group not found'' h
         | Some g \<Rightarrow> answer E 200 (GroupC g) [] h)
      else if m = ''PATCH'' then
        (case body of None \<Rightarrow> refuse 400 ''invalid body'' h
         | Some b \<Rightarrow>
             (case on_groups (\<lambda>g. groups_Update (bolt_persister B) g tenant groupID (gb_Name b)) h of
                (Inl e, h1) \<Rightarrow> refuse 400 e h1
              | (Inr None, h1) \<Rightarrow> refuse 404 ''group not found'' h1
              | (Inr (Some g), h1) \<Rightarrow> answer E 200 (GroupC g) [tenant_event ''group.updated'' tenant (marshal_group g)] h1))
      else if m = ''DELETE'' then
        (case groups_Get (hs_groups h) tenant groupID of None \<Rightarrow> refuse 404 ''group not found'' h
         | Some g \<Rightarrow>
             (case on_groups (\<lambda>m. groups_Delete (bolt_persister B) m tenant groupID) h of
                (False, h1) \<Rightarrow> refuse 404 ''group not found'' h1
              | (True, h1) \<Rightarrow> answer E 204 Empty [tenant_event ''group.deleted'' tenant (marshal_group g)] h1))
      else refuse 405 ''method not allowed'' h)"

definition zero_group :: agent_group where
  "zero_group = \<lparr>g_ID = [], g_Tenant = [], g_Name = [], g_Members = [], g_CreatedAt = zero_time\<rparr>"

definition add_member :: "api_env \<Rightarrow> 'db bolt \<Rightarrow> string \<Rightarrow> string \<Rightarrow> string \<Rightarrow> group_body option \<Rightarrow> 'db hub \<Rightarrow> 'db reply" where
  "add_member E B tenant m groupID body h =
     (if m \<noteq> ''POST'' then refuse 405 ''method not allowed'' h
      else case body of None \<Rightarrow> refuse 400 ''invalid body'' h
      | Some b \<Rightarrow>
          let weight = (case gb_Weight b of None \<Rightarrow> 1 | Some w \<Rightarrow> w)
          in case groups_Get (hs_groups h) tenant groupID of None \<Rightarrow> refuse 404 ''group not found'' h
             | Some old \<Rightarrow>
                 (case on_groups (\<lambda>g. groups_AddMemberWithWeight (bolt_persister B) g tenant groupID (gb_AgentID b) weight) h of
                    (Some e, h1) \<Rightarrow> refuse (if contains_sub e ''not found'' then 404 else 400) e h1
                  | (None, h1) \<Rightarrow>
                      let g = (case groups_Get (hs_groups h1) tenant groupID of None \<Rightarrow> zero_group | Some g \<Rightarrow> g);
                          ev = tenant_event ''group.member_added'' tenant (JObj [(''agent_id'', JStr (gb_AgentID b)),
                            (''group_id'', JStr groupID), (''group_name'', JStr (g_Name g)),
                            (''members'', JArr (map marshal_member (g_Members g))), (''weight'', JInt weight)])
                      in answer E 200 (GroupC g) (if length (g_Members g) > length (g_Members old) then [ev] else []) h1))"

definition change_member :: "api_env \<Rightarrow> 'db bolt \<Rightarrow> string \<Rightarrow> string \<Rightarrow> string \<Rightarrow> string \<Rightarrow> group_body option \<Rightarrow> 'db hub \<Rightarrow> 'db reply" where
  "change_member E B tenant m groupID agentID body h =
     (if m = ''PATCH'' then
        (case body of None \<Rightarrow> refuse 400 ''invalid body'' h
         | Some b \<Rightarrow>
             let weight = (case gb_Weight b of None \<Rightarrow> 0 | Some w \<Rightarrow> w)
             in case on_groups (\<lambda>g. groups_UpdateMemberWeight (bolt_persister B) g tenant groupID agentID weight) h of
                  (Inl e, h1) \<Rightarrow> refuse 400 e h1
                | (Inr None, h1) \<Rightarrow> refuse 404 ''group member not found'' h1
                | (Inr (Some g), h1) \<Rightarrow> answer E 200 (GroupC g) [tenant_event ''group.member_updated'' tenant
                     (JObj [(''agent_id'', JStr agentID), (''group_id'', JStr groupID), (''weight'', JInt weight)])] h1)
      else if m = ''DELETE'' then
        (case on_groups (\<lambda>g. groups_RemoveMember (bolt_persister B) g tenant groupID agentID) h of
           (Some e, h1) \<Rightarrow> refuse 404 e h1
         | (None, h1) \<Rightarrow> answer E 204 Empty [tenant_event ''group.member_removed'' tenant
              (JObj [(''agent_id'', JStr agentID), (''group_id'', JStr groupID)])] h1)
      else refuse 405 ''method not allowed'' h)"

text \<open>The filter of the round robin asks the breaker of each candidate and reads the clock each
  time.\<close>

definition allow_at :: "(nat \<Rightarrow> instant) \<Rightarrow> nat \<times> cb_manager \<Rightarrow> string \<Rightarrow> bool \<times> (nat \<times> cb_manager)" where
  "allow_at now s i = (case s of (n, c) \<Rightarrow> (case circuit_Allow c i (now n) of (b, c') \<Rightarrow> (b, (Suc n, c'))))"

definition next_member :: "api_env \<Rightarrow> tape \<Rightarrow> string \<Rightarrow> string \<Rightarrow> 'db hub \<Rightarrow> 'db reply" where
  "next_member E tp tenant groupID h =
     (case groups_Next (hs_groups h) tenant groupID (Some (allow_at (tp_now tp))) (0, hs_circuit h) of
        (r, (n, c), g) \<Rightarrow>
          let h1 = h\<lparr>hs_groups := g, hs_circuit := c\<rparr>
          in case r of None \<Rightarrow> refuse 503 ''no available members'' h1 | Some a \<Rightarrow> answer E 200 (MemberC a) [] h1)"

definition handle_group ::
    "api_env \<Rightarrow> 'db bolt \<Rightarrow> tape \<Rightarrow> string option \<Rightarrow> string \<Rightarrow> string \<Rightarrow> group_body option \<Rightarrow> 'db hub \<Rightarrow> 'db reply" where
  "handle_group E B tp ctx m path body h0 = with_tenant E B tp ctx h0 (\<lambda>tenant h.
     case splitn 3 (CHR ''/'') path of
       [groupID] \<Rightarrow> if groupID = [] then refuse 400 ''missing group id'' h else group_itself E B tenant m groupID body h
     | groupID # sub # rest \<Rightarrow>
         if groupID = [] then refuse 400 ''missing group id'' h
         else if sub = ''members'' \<and> rest = [] then add_member E B tenant m groupID body h
         else if sub = ''members'' then change_member E B tenant m groupID (hd rest) body h
         else if sub = ''next'' \<and> m = ''GET'' then next_member E tp tenant groupID h
         else refuse 404 ''unknown sub-path'' h
     | [] \<Rightarrow> crash h)"

section \<open>Pipelines\<close>

text \<open>The texts of the errors of the pipelines; \<open>quote\<close> is the verb \<^verbatim>\<open>%q\<close> of \<^verbatim>\<open>fmt\<close>.\<close>

fun pipe_error_text :: "(string \<Rightarrow> string) \<Rightarrow> pipe_error \<Rightarrow> string" where
  "pipe_error_text quote NameRequired = ''name is required''"
| "pipe_error_text quote StagesRequired = ''at least one stage is required''"
| "pipe_error_text quote (StageInvalid i n) = ''stage '' @ show_nat i @ '' ('' @ quote n @ ''): agent_id or capability is required''"
| "pipe_error_text quote PipelineNotFound = ''pipeline not found''"
| "pipe_error_text quote RunNotFound = ''run not found''"
| "pipe_error_text quote (RunNotRunning st) = ''run is not running (status: '' @ st @ '')''"
| "pipe_error_text quote PipelineGone = ''pipeline no longer exists''"
| "pipe_error_text quote PipePanic = []"

definition refuse_pipe :: "(string \<Rightarrow> string) \<Rightarrow> pipe_error \<Rightarrow> 'db hub \<Rightarrow> 'db reply" where
  "refuse_pipe quote e h =
     (if e = PipePanic then crash h
      else let msg = pipe_error_text quote e in refuse (if contains_sub msg ''not found'' then 404 else 400) msg h)"

definition handle_pipelines ::
    "api_env \<Rightarrow> 'db bolt \<Rightarrow> (string \<Rightarrow> string) \<Rightarrow> tape \<Rightarrow> string option \<Rightarrow> string \<Rightarrow> (string \<times> stage list) option \<Rightarrow> 'db hub \<Rightarrow> 'db reply" where
  "handle_pipelines E B quote tp ctx m body h0 = with_tenant E B tp ctx h0 (\<lambda>tenant h.
     if m = ''GET'' then answer E 200 (PipelinesC (pipelines_ListPipelines (hs_pipes h) tenant (tp_recs tp))) [] h
     else if m = ''POST'' then
       (case body of None \<Rightarrow> refuse 400 ''invalid body'' h
        | Some (name, stages) \<Rightarrow>
            (case on_pipes (\<lambda>p. pipelines_CreatePipeline (bolt_persister B) p tenant name stages (tp_now tp 0)) h of
               (Inl e, h1) \<Rightarrow> refuse 400 (pipe_error_text quote e) h1
             | (Inr p, h1) \<Rightarrow> answer E 201 (PipelineC p) [tenant_event ''pipeline.created'' tenant (marshal_pipeline p)] h1))
     else refuse 405 ''method not allowed'' h)"

text \<open>The bodies of the requests below \<^verbatim>\<open>/agent-pipelines/{id}\<close>.\<close>

record pipe_body =
  pb_Name :: "string option"
  pb_Stages :: "stage list option"
  pb_Input :: payload
  pb_Result :: string
  pb_Failed :: bool

definition pipeline_itself ::
    "api_env \<Rightarrow> 'db bolt \<Rightarrow> (string \<Rightarrow> string) \<Rightarrow> string \<Rightarrow> string \<Rightarrow> string \<Rightarrow> pipe_body option \<Rightarrow> 'db hub \<Rightarrow> 'db reply" where
  "pipeline_itself E B quote tenant m pipelineID body h =
     (if m = ''GET'' then
        (case pipelines_GetPipeline (hs_pipes h) tenant pipelineID of None \<Rightarrow> refuse 404 ''pipeline not found'' h
         | Some p \<Rightarrow> answer E 200 (PipelineC p) [] h)
      else if m = ''PATCH'' then
        (case body of None \<Rightarrow> refuse 400 ''invalid body'' h
         | Some b \<Rightarrow>
             (case on_pipes (\<lambda>p. pipelines_UpdatePipeline (bolt_persister B) p tenant pipelineID (pb_Name b) (pb_Stages b)) h of
                (Inl e, h1) \<Rightarrow> refuse 400 (pipe_error_text quote e) h1
              | (Inr None, h1) \<Rightarrow> refuse 404 ''pipeline not found'' h1
              | (Inr (Some p), h1) \<Rightarrow> answer E 200 (PipelineC p) [] h1))
      else if m = ''DELETE'' then
        (case on_pipes (\<lambda>p. pipelines_DeletePipeline (bolt_persister B) p tenant pipelineID) h of
           (False, h1) \<Rightarrow> refuse 404 ''pipeline not found'' h1
         | (True, h1) \<Rightarrow> answer E 204 Empty [tenant_event ''pipeline.deleted'' tenant (JObj [(''pipeline_id'', JStr pipelineID)])] h1)
      else refuse 405 ''method not allowed'' h)"

definition zero_run :: run where
  "zero_run = \<lparr>rn_ID = [], rn_PipelineID = [], rn_Tenant = [], rn_Status = [], rn_CurrentStage = 0, rn_JobIDs = [], rn_Input = None,
     rn_CreatedAt = zero_time, rn_UpdatedAt = zero_time\<rparr>"

text \<open>What starting and advancing a run share: find an agent for the stage, submit its job and
  record the job with the run. The clock is read for the agent, the job and the record, from the
  second reading on.\<close>

definition submit_stage ::
    "'db bolt \<Rightarrow> tape \<Rightarrow> string \<Rightarrow> run \<Rightarrow> stage \<Rightarrow> (string \<times> json) list \<Rightarrow> 'db hub \<Rightarrow> (string + run \<times> job) \<times> 'db hub" where
  "submit_stage B tp tenant r s stagePayload h =
     (case choose_agent tp (tp_now tp 1) tenant (s_AgentID s) (s_Capability s) h of
        (None, h1) \<Rightarrow> (Inl (no_agent_msg (s_Capability s)), h1)
      | (Some agentID, h1) \<Rightarrow>
          (case on_jobs (\<lambda>q. jobs_SubmitWithOpts (bolt_persister B) q tenant agentID (s_Capability s) (Some stagePayload) 0 0 (tp_now tp 2)) h1 of
             (j, h2) \<Rightarrow>
               (case on_pipes (\<lambda>p. pipelines_RecordStageJob (bolt_persister B) p tenant (rn_ID r) (j_ID j) (tp_now tp 3)) h2 of
                  (Inl e, h3) \<Rightarrow> (Inr (zero_run, j), h3)
                | (Inr r', h3) \<Rightarrow> (Inr (r', j), h3))))"

definition run_event :: "string \<Rightarrow> string \<Rightarrow> run \<Rightarrow> string \<Rightarrow> int \<Rightarrow> job \<Rightarrow> event" where
  "run_event ty tenant r pipelineID stage j = tenant_event ty tenant (JObj [(''job_id'', JStr (j_ID j)),
     (''pipeline_id'', JStr pipelineID), (''run_id'', JStr (rn_ID r)), (''stage'', JInt stage)])"

definition start_run ::
    "api_env \<Rightarrow> 'db bolt \<Rightarrow> (string \<Rightarrow> string) \<Rightarrow> tape \<Rightarrow> string \<Rightarrow> string \<Rightarrow> pipe_body option \<Rightarrow> 'db hub \<Rightarrow> 'db reply" where
  "start_run E B quote tp tenant pipelineID body h =
     (case body of None \<Rightarrow> refuse 400 ''invalid body'' h
      | Some b \<Rightarrow>
          (case on_pipes (\<lambda>p. pipelines_StartRun (bolt_persister B) p tenant pipelineID (pb_Input b) (tp_now tp 0)) h of
             (Inl e, h1) \<Rightarrow> refuse_pipe quote e h1
           | (Inr (r, s), h1) \<Rightarrow>
               (case submit_stage B tp tenant r s (copy_into (pb_Input b) (copy_into (s_Payload s) [])) h1 of
                  (Inl e, h2) \<Rightarrow> refuse 503 e h2
                | (Inr (r', j), h2) \<Rightarrow>
                    answer E 201 (RunJobC r' (Some j)) [run_event ''pipeline.run_started'' tenant r' pipelineID 0 j] h2)))"

definition advance_run ::
    "api_env \<Rightarrow> 'db bolt \<Rightarrow> (string \<Rightarrow> string) \<Rightarrow> tape \<Rightarrow> string \<Rightarrow> string \<Rightarrow> string \<Rightarrow> pipe_body option \<Rightarrow> 'db hub \<Rightarrow> 'db reply" where
  "advance_run E B quote tp tenant pipelineID runID body h =
     (case body of None \<Rightarrow> refuse 400 ''invalid body'' h
      | Some b \<Rightarrow>
          (case on_pipes (\<lambda>p. pipelines_AdvanceRun (bolt_persister B) p tenant runID (pb_Failed b) (tp_now tp 0)) h of
             (Inl e, h1) \<Rightarrow> refuse_pipe quote e h1
           | (Inr (r, None), h1) \<Rightarrow>
               answer E 200 (RunJobC r None) [tenant_event
                 (if rn_Status r = RunStatusFailed then ''pipeline.run_failed'' else ''pipeline.run_done'') tenant
                 (JObj [(''pipeline_id'', JStr pipelineID), (''run_id'', JStr (rn_ID r))])] h1
           | (Inr (r, Some s), h1) \<Rightarrow>
               let p0 = copy_into (s_Payload s) [];
                   stagePayload = (if pb_Result b \<noteq> [] then put_entry ''_prev_result'' (JStr (pb_Result b)) p0 else p0)
               in case submit_stage B tp tenant r s stagePayload h1 of
                    (Inl e, h2) \<Rightarrow> refuse 503 e h2
                  | (Inr (r', j), h2) \<Rightarrow>
                      answer E 200 (RunJobC r' (Some j)) [run_event ''pipeline.run_advanced'' tenant r' pipelineID (rn_CurrentStage r') j] h2))"

definition handle_pipeline ::
    "api_env \<Rightarrow> 'db bolt \<Rightarrow> (string \<Rightarrow> string) \<Rightarrow> tape \<Rightarrow> string option \<Rightarrow> string \<Rightarrow> string \<Rightarrow> pipe_body option \<Rightarrow> 'db hub \<Rightarrow> 'db reply" where
  "handle_pipeline E B quote tp ctx m path body h0 = with_tenant E B tp ctx h0 (\<lambda>tenant h.
     case splitn 4 (CHR ''/'') path of
       [] \<Rightarrow> crash h
     | pipelineID # rest \<Rightarrow>
         if pipelineID = [] then refuse 400 ''missing pipeline id'' h
         else (case rest of
           [] \<Rightarrow> pipeline_itself E B quote tenant m pipelineID body h
         | sub # rest1 \<Rightarrow>
             if sub \<noteq> ''runs'' then refuse 404 ''unknown sub-path'' h
             else (case rest1 of
               [] \<Rightarrow>
                 if m = ''GET'' then answer E 200 (RunsC (pipelines_ListRuns (hs_pipes h) tenant pipelineID (tp_recs tp))) [] h
                 else if m = ''POST'' then start_run E B quote tp tenant pipelineID body h
                 else refuse 405 ''method not allowed'' h
             | [runID] \<Rightarrow>
                 if m \<noteq> ''GET'' then refuse 405 ''method not allowed'' h
                 else (case pipelines_GetRun (hs_pipes h) tenant runID of None \<Rightarrow> refuse 404 ''run not found'' h
                       | Some r \<Rightarrow> answer E 200 (RunC r) [] h)
             | runID # action # _ \<Rightarrow>
                 if action = ''advance'' \<and> m = ''POST'' then advance_run E B quote tp tenant pipelineID runID body h
                 else refuse 404 ''unknown sub-path'' h)))"

section \<open>Schedules\<close>

record sched_request =
  sr_Name :: string
  sr_AgentID :: string
  sr_Capability :: string
  sr_Payload :: payload
  sr_IntervalSec :: int

definition handle_schedules ::
    "api_env \<Rightarrow> 'db bolt \<Rightarrow> tape \<Rightarrow> string option \<Rightarrow> string \<Rightarrow> sched_request option \<Rightarrow> 'db hub \<Rightarrow> 'db reply" where
  "handle_schedules E B tp ctx m body h0 = with_tenant E B tp ctx h0 (\<lambda>tenant h.
     if m = ''GET'' then
       answer E 200 (SchedulesC (filter (\<lambda>s. sc_Tenant s = tenant \<or> tenant = []) (sched_List (hs_scheds h) (tp_recs tp)))) [] h
     else if m = ''POST'' then
       (case body of None \<Rightarrow> refuse 400 ''invalid body'' h
        | Some b \<Rightarrow>
            if sr_IntervalSec b \<le> 0 then refuse 400 ''interval_seconds must be > 0'' h
            else case on_scheds (\<lambda>s. sched_Add (bolt_persister B) s (sr_Name b) tenant (sr_AgentID b) (sr_Capability b) (sr_Payload b)
                   (seconds (sr_IntervalSec b)) (tp_now tp 0)) h of
              (Inl e, h1) \<Rightarrow> refuse 400 e h1
            | (Inr s, h1) \<Rightarrow> answer E 201 (ScheduleC s)
                [timed_event ''schedule.created'' tenant (tp_now tp 1) (JObj [(''id'', JStr (sc_ID s)), (''name'', JStr (sc_Name s))])] h1)
     else refuse 405 ''method not allowed'' h)"

text \<open>A change of a schedule; the interval is given in seconds.\<close>

definition patch_schedule ::
    "api_env \<Rightarrow> 'db bolt \<Rightarrow> tape \<Rightarrow> string \<Rightarrow> string \<Rightarrow> (sched_update \<times> int option) option \<Rightarrow> 'db hub \<Rightarrow> 'db reply" where
  "patch_schedule E B tp tenant i body h =
     (case body of None \<Rightarrow> refuse 400 ''invalid body'' h
      | Some (p, intervalSec) \<Rightarrow>
          if (case intervalSec of None \<Rightarrow> False | Some n \<Rightarrow> n \<le> 0) then refuse 400 ''interval_seconds must be > 0'' h
          else
            let params = p\<lparr>su_Interval := map_option seconds intervalSec\<rparr>
            in case on_scheds (\<lambda>s. sched_Update (bolt_persister B) s tenant i params) h of
                 (Inl e, h1) \<Rightarrow> refuse 400 e h1
               | (Inr None, h1) \<Rightarrow> refuse 404 ''schedule not found'' h1
               | (Inr (Some s), h1) \<Rightarrow> answer E 200 (ScheduleC s) [timed_event ''schedule.updated'' tenant (tp_now tp 0)
                    (JObj [(''active'', JBool (sc_Active s)), (''id'', JStr (sc_ID s)), (''interval'', JInt (sc_Interval s)),
                      (''name'', JStr (sc_Name s))])] h1)"

definition schedule_itself ::
    "api_env \<Rightarrow> 'db bolt \<Rightarrow> tape \<Rightarrow> string \<Rightarrow> string \<Rightarrow> string \<Rightarrow> (sched_update \<times> int option) option \<Rightarrow> schedule \<Rightarrow> 'db hub \<Rightarrow> 'db reply" where
  "schedule_itself E B tp tenant m i body s h =
     (if m = ''GET'' then answer E 200 (ScheduleC s) [] h
      else if m = ''PATCH'' then patch_schedule E B tp tenant i body h
      else if m = ''DELETE'' then
        (case on_scheds (\<lambda>sm. sched_Delete (bolt_persister B) sm i) h of
           (False, h1) \<Rightarrow> refuse 404 ''schedule not found'' h1
         | (True, h1) \<Rightarrow> answer E 204 Empty [timed_event ''schedule.deleted'' tenant (tp_now tp 0)
              (JObj [(''id'', JStr (sc_ID s)), (''name'', JStr (sc_Name s))])] h1)
      else refuse 405 ''method not allowed'' h)"

definition handle_schedule ::
    "api_env \<Rightarrow> 'db bolt \<Rightarrow> tape \<Rightarrow> string option \<Rightarrow> string \<Rightarrow> string \<Rightarrow> (sched_update \<times> int option) option \<Rightarrow> 'db hub \<Rightarrow> 'db reply" where
  "handle_schedule E B tp ctx m i body h0 = with_tenant E B tp ctx h0 (\<lambda>tenant h.
     if i = [] then refuse 400 ''missing schedule id'' h
     else case sched_Get (hs_scheds h) i of
       None \<Rightarrow> refuse 404 ''schedule not found'' h
     | Some s \<Rightarrow>
         if tenant \<noteq> [] \<and> sc_Tenant s \<noteq> tenant then refuse 404 ''schedule not found'' h
         else schedule_itself E B tp tenant m i body s h)"

end
