(* ===== verification/Isolation.thy ===== *)
theory Isolation
  imports WorkflowApi Durability
begin

text \<open>
  Tenants do not reach each other's data: whatever requests one tenant sends to the handlers of
  \<open>ResourceApi\<close> and \<open>WorkflowApi\<close>, the jobs, rules, groups, pipelines, runs, schedules, entries, agents,
  chain, routes and stored data of another tenant stay as they are. The managers keep numbered
  records; the locale \<open>tenant_records\<close> states once what an operation on behalf of a tenant may do to
  such a collection and is interpreted for the six kinds of records.
\<close>

section \<open>Changes on behalf of one tenant\<close>

text \<open>Only records of tenant \<open>t\<close> are entered, changed or removed; new numbers are within the new
  counter; new records are filed under their own identifier.\<close>

definition rec_own ::
    "string \<Rightarrow> ('a \<Rightarrow> string) \<Rightarrow> ('a \<Rightarrow> string) \<Rightarrow> (string \<Rightarrow> uint64) \<Rightarrow> (string \<rightharpoonup> 'a) \<Rightarrow> uint64 \<Rightarrow> (string \<rightharpoonup> 'a) \<Rightarrow> uint64 \<Rightarrow> bool" where
  "rec_own t idf ten num m c m' c' \<longleftrightarrow>
     (\<forall>i. m' i \<noteq> m i \<longrightarrow> (\<forall>x. m i = Some x \<longrightarrow> ten x = t) \<and> (\<forall>x. m' i = Some x \<longrightarrow> ten x = t \<and> idf x = i)) \<and>
     c \<le> c' \<and> (\<forall>i. m' i \<noteq> None \<and> m i = None \<longrightarrow> num i \<le> c')"

definition rec_inv :: "('a \<Rightarrow> string) \<Rightarrow> (string \<Rightarrow> uint64) \<Rightarrow> (string \<rightharpoonup> 'a) \<Rightarrow> uint64 \<Rightarrow> bool" where
  "rec_inv idf num m c \<longleftrightarrow> (\<forall>i x. m i = Some x \<longrightarrow> idf x = i) \<and> (\<forall>i \<in> dom m. num i \<le> c)"

definition recs_of :: "('a \<Rightarrow> string) \<Rightarrow> string \<Rightarrow> (string \<rightharpoonup> 'a) \<Rightarrow> string \<rightharpoonup> 'a" where
  "recs_of ten u m = (\<lambda>i. case m i of None \<Rightarrow> None | Some x \<Rightarrow> if ten x = u then Some x else None)"

lemma own_refl [simp]: "rec_own t idf ten num m c m c"
  by (auto simp: rec_own_def)

lemma ownD:
  assumes "rec_own t idf ten num m c m' c'"
  shows "m' i \<noteq> m i \<Longrightarrow> m i = Some x \<Longrightarrow> ten x = t" "m' i \<noteq> m i \<Longrightarrow> m' i = Some x \<Longrightarrow> ten x = t \<and> idf x = i"
    and "c \<le> c'" "m' i = Some x \<Longrightarrow> m i = None \<Longrightarrow> num i \<le> c'"
  using assms unfolding rec_own_def by blast+

lemma own_trans:
  assumes "rec_own t idf ten num m c m' c'" "rec_own t idf ten num m' c' m'' c''"
  shows "rec_own t idf ten num m c m'' c''"
proof -
  note a = ownD [OF assms(1)] and b = ownD [OF assms(2)]
  have "ten x = t" if "m'' i \<noteq> m i" "m i = Some x" for i x using that a(1) b(1) by (cases "m' i = m i") auto
  moreover have "ten x = t \<and> idf x = i" if "m'' i \<noteq> m i" "m'' i = Some x" for i x using that a(2) b(2) by (cases "m'' i = m' i") auto
  moreover have "num i \<le> c''" if "m'' i = Some x" "m i = None" for i x
    using that a(4) b(3) b(4) by (cases "m' i") (auto intro: order.trans)
  ultimately show ?thesis using a(3) b(3) unfolding rec_own_def by (auto intro: order.trans)
qed

lemma own_put: "m i = Some y \<Longrightarrow> ten y = t \<Longrightarrow> ten x = t \<Longrightarrow> idf x = i \<Longrightarrow> rec_own t idf ten num m c (m(i \<mapsto> x)) c"
  by (auto simp: rec_own_def)

lemma own_drop: "m i = Some y \<Longrightarrow> ten y = t \<Longrightarrow> rec_own t idf ten num m c (m(i := None)) c"
  by (auto simp: rec_own_def)

lemma own_foreign: "rec_own t idf ten num m c m' c' \<Longrightarrow> u \<noteq> t \<Longrightarrow> recs_of ten u m' = recs_of ten u m"
proof
  fix i
  assume a: "rec_own t idf ten num m c m' c'" "u \<noteq> t"
  show "recs_of ten u m' i = recs_of ten u m i"
  proof (cases "m' i = m i")
    case False
    with ownD(1,2) [OF a(1) False] a(2) show ?thesis by (cases "m' i"; cases "m i") (auto simp: recs_of_def)
  qed (simp add: recs_of_def)
qed

locale tenant_records = id_scheme mk num for mk :: "uint64 \<Rightarrow> string" and num :: "string \<Rightarrow> uint64" +
  fixes idf :: "'a \<Rightarrow> string" and ten :: "'a \<Rightarrow> string"
begin

lemma own_inv: "rec_own t idf ten num m c m' c' \<Longrightarrow> rec_inv idf num m c \<Longrightarrow> rec_inv idf num m' c'"
proof -
  assume a: "rec_own t idf ten num m c m' c'" and i: "rec_inv idf num m c"
  have "idf x = i" if "m' i = Some x" for i x using that i ownD(2) [OF a] by (cases "m' i = m i") (auto simp: rec_inv_def)
  moreover have "num i \<le> c'" if "m' i = Some x" for i x
    using that i ownD(3,4) [OF a] by (cases "m i") (auto simp: rec_inv_def intro: order.trans)
  ultimately show ?thesis by (auto simp: rec_inv_def)
qed

lemma own_new:
  assumes "rec_inv idf num m c" "c + 1 \<noteq> 0" "idf x = mk (c + 1)" "ten x = t"
  shows "rec_own t idf ten num m c (m(mk (c + 1) \<mapsto> x)) (c + 1)"
proof -
  have "mk (c + 1) \<notin> dom m" using assms(1,2) fresh by (simp add: rec_inv_def)
  moreover have "c \<le> c + 1" using word_succ_gt [OF assms(2)] by simp
  ultimately show ?thesis using assms(3,4) num_mk by (auto simp: rec_own_def)
qed

end

interpretation job_recs: tenant_records "numbered ''job-''" jobs_parseJobNum j_ID j_Tenant
  by unfold_locales

interpretation rule_recs: tenant_records "numbered ''rule-''" parseRuleNum nr_ID nr_Tenant
  by unfold_locales

interpretation group_recs: tenant_records "numbered ''grp-''" parseGroupNum g_ID g_Tenant
  by unfold_locales

interpretation pipeline_recs: tenant_records "numbered ''pipe-''" parsePipelineNum p_ID p_Tenant
  by unfold_locales

interpretation run_recs: tenant_records "numbered ''prun-''" parseRunNum rn_ID rn_Tenant
  by unfold_locales

interpretation sched_recs: tenant_records "numbered ''sched-''" parseSchedNum sc_ID sc_Tenant
  by unfold_locales

section \<open>The database of other tenants\<close>

definition foreign_kept :: "'db bolt \<Rightarrow> string \<Rightarrow> 'db \<Rightarrow> 'db \<Rightarrow> bool" where
  "foreign_kept B t db db' \<longleftrightarrow> (\<forall>u. u \<noteq> t \<longrightarrow> tenant_view B db' u = tenant_view B db u)"

lemma foreign_refl [simp]: "foreign_kept B t db db"
  by (simp add: foreign_kept_def)

lemma foreign_trans: "foreign_kept B t db db1 \<Longrightarrow> foreign_kept B t db1 db2 \<Longrightarrow> foreign_kept B t db db2"
  by (simp add: foreign_kept_def)

lemma foreign_put: "bolt_ok B \<Longrightarrow> foreign_kept B t db (snd (store_PutKV B db t k v))"
proof -
  assume ok: "bolt_ok B"
  obtain e db' where p: "store_PutKV B db t k v = (e, db')" by fastforce
  show ?thesis
  proof (cases e)
    case None
    with PutKV_ok(1) [OF ok] p show ?thesis by (auto simp: foreign_kept_def)
  next
    case (Some x)
    with PutKV_err [OF ok] p show ?thesis by fastforce
  qed
qed

lemma foreign_del: "bolt_ok B \<Longrightarrow> foreign_kept B t db (snd (store_DeleteKV B db t k))"
proof -
  assume ok: "bolt_ok B"
  obtain e db' where p: "store_DeleteKV B db t k = (e, db')" by fastforce
  show ?thesis
  proof (cases e)
    case None
    note u = db_update_None [OF ok p [unfolded None store_DeleteKV_def]]
    show ?thesis
    proof (cases "has_bucket B db tenants_path")
      case True
      with DeleteKV_ok(1) [OF ok] p None show ?thesis by (auto simp: foreign_kept_def)
    next
      case False
      with u have "db' = db" by (auto simp: store_tenantBucket_def)
      with p show ?thesis by simp
    qed
  next
    case (Some x)
    with DeleteKV_err [OF ok] p show ?thesis by fastforce
  qed
qed

lemma foreign_put_key: "bolt_ok B \<Longrightarrow> put_tenant_key B db t k v = (e, db') \<Longrightarrow> foreign_kept B t db db'"
proof (cases e)
  case None
  assume ok: "bolt_ok B" and put: "put_tenant_key B db t k v = (e, db')"
  from db_update_None [OF ok put [unfolded None put_tenant_key_def]]
  obtain tx tx' where c: "create_bucket B db (tenant_path t) = Inr tx"
    and p: "bput B tx (tenant_path t) k v = Inr tx'" and l: "cleanupLegacyDefault B tx' t k = Inr db'"
    by (auto simp: store_tenantBucket_def split: sum.splits if_splits)
  note cs = create_bucketD [OF ok c] and ps = bputD [OF ok p]
  have "db' = tx' \<or> bdelete B tx' [''data''] k = Inr db'" using l by (auto simp: cleanupLegacyDefault_def split: if_splits)
  then have "bget B db' p = bget B tx' p" if "p \<noteq> [''data'']" for p using bdeleteD [OF ok] that by (metis fun_upd_other)
  moreover have "tenant_path u \<noteq> [''data'']" for u by (simp add: tenant_path_def)
  ultimately show ?thesis by (auto simp: foreign_kept_def tenant_view_def ps cs tenant_path_def)
next
  case (Some x)
  assume "bolt_ok B" "put_tenant_key B db t k v = (e, db')"
  with Some put_tenant_key_err show ?thesis by fastforce
qed

lemma foreign_write: "bolt_ok B \<Longrightarrow> write_tenant B db t k m = (e, db') \<Longrightarrow> foreign_kept B t db db'"
  by (auto simp: write_tenant_def foreign_put_key split: sum.splits)

lemma foreign_ensure: "bolt_ok B \<Longrightarrow> store_EnsureTenant B db t = (e, db') \<Longrightarrow> foreign_kept B t db db'"
proof -
  assume ok: "bolt_ok B" and en: "store_EnsureTenant B db t = (e, db')"
  show ?thesis
  proof (cases e)
    case None
    with en have u: "db_update B (\<lambda>tx. if \<not> has_bucket B tx tenants_path then Inl ''tenants bucket missing''
          else create_bucket B tx (tenant_path t)) db = (None, db')" by (auto simp: store_EnsureTenant_def split: if_splits)
    from db_update_None [OF ok u] have "create_bucket B db (tenant_path t) = Inr db'" by (auto split: if_splits)
    from create_bucketD [OF ok this] show ?thesis by (simp add: foreign_kept_def tenant_view_def)
  next
    case (Some x)
    with EnsureTenant_err [OF ok] en show ?thesis by fastforce
  qed
qed

lemma foreign_load_chain: "bolt_ok B \<Longrightarrow> load_chain ff fj B ts ts' db t bs = (r, db') \<Longrightarrow> foreign_kept B t db db'"
proof -
  assume ok: "bolt_ok B" and l: "load_chain ff fj B ts ts' db t bs = (r, db')"
  have "db' = db \<or> (\<exists>e m. write_tenant B db t ''blocks'' m = (e, db'))"
    using l by (auto simp: load_chain_def store_WriteBlocksTenant_def store_SaveChainTenant_def Let_def
        split: if_splits prod.splits option.splits)
  with foreign_write [OF ok] show ?thesis by (elim disjE exE) auto
qed

lemma foreign_load_routes: "bolt_ok B \<Longrightarrow> load_routes B now db t rs = (r, db') \<Longrightarrow> foreign_kept B t db db'"
proof -
  assume ok: "bolt_ok B" and l: "load_routes B now db t rs = (r, db')"
  have "db' = db \<or> (\<exists>e m. write_tenant B db t ''routes'' m = (e, db'))"
    using l by (auto simp: load_routes_def store_WriteRoutesTenant_def Let_def split: if_splits prod.splits option.splits)
  with foreign_write [OF ok] show ?thesis by (elim disjE exE) auto
qed

lemma foreign_getTenant:
  assumes ok: "bolt_ok B" and g: "tm_getTenant ff fj fr B ts ts' now tm t = (r, tm')"
  shows "foreign_kept B t (tm_store tm) (tm_store tm')" "u \<noteq> t \<Longrightarrow> tm_tenants tm' u = tm_tenants tm u"
proof -
  note en = foreign_ensure [OF ok] and lc = foreign_load_chain [OF ok] and lr = foreign_load_routes [OF ok]
  have "foreign_kept B t (tm_store tm) (tm_store tm') \<and> (u \<noteq> t \<longrightarrow> tm_tenants tm' u = tm_tenants tm u)"
    using g
  proof (cases rule: getTenant_cases)
    case (ensure e db1) with en show ?thesis by simp
  next
    case (unread e db1) with en show ?thesis by simp
  next
    case (chain e db1 db2 bs) with foreign_trans [OF en lc] show ?thesis by simp
  next
    case (routes e db1 db2 bs bc q db3 rs)
    then have "foreign_kept B t db2 db3" using lr by auto
    with routes foreign_trans [OF foreign_trans [OF en lc]] show ?thesis by simp
  next
    case (loaded db1 db2 bs bc db3 rs router)
    with foreign_trans [OF foreign_trans [OF en lc] lr] show ?thesis by simp
  qed simp
  then show "foreign_kept B t (tm_store tm) (tm_store tm')" "u \<noteq> t \<Longrightarrow> tm_tenants tm' u = tm_tenants tm u" by blast+
qed

section \<open>The managers\<close>

definition store_own :: "'db bolt \<Rightarrow> string \<Rightarrow> 'db option \<Rightarrow> 'db option \<Rightarrow> bool" where
  "store_own B t st st' \<longleftrightarrow> (\<forall>db. st = Some db \<longrightarrow> (\<exists>db'. st' = Some db' \<and> foreign_kept B t db db'))"

lemma store_own_refl [simp]: "store_own B t st st"
  by (simp add: store_own_def)

lemma store_own_write [simp]: "bolt_ok B \<Longrightarrow> store_own B t st (kv_write (bolt_persister B) st t k v)"
  by (auto simp: store_own_def kv_write_def bolt_persister_def foreign_put)

lemma store_own_remove [simp]: "bolt_ok B \<Longrightarrow> store_own B t st (kv_remove (bolt_persister B) st t k)"
  by (auto simp: store_own_def kv_remove_def bolt_persister_def foreign_del)

abbreviation jobs_own :: "'db bolt \<Rightarrow> string \<Rightarrow> 'db queue \<Rightarrow> 'db queue \<Rightarrow> bool" where
  "jobs_own B t q q' \<equiv> rec_own t j_ID j_Tenant jobs_parseJobNum (q_jobs q) (q_counter q) (q_jobs q') (q_counter q') \<and>
     store_own B t (q_store q) (q_store q')"

abbreviation jobs_wf :: "'db queue \<Rightarrow> bool" where
  "jobs_wf q \<equiv> rec_inv j_ID jobs_parseJobNum (q_jobs q) (q_counter q)"

lemma put_job_own:
  "bolt_ok B \<Longrightarrow> jobs_wf q \<Longrightarrow> q_jobs q i = Some j \<Longrightarrow> j_Tenant j = t \<Longrightarrow> j_Tenant j' = t \<Longrightarrow> j_ID j' = j_ID j \<Longrightarrow>
    jobs_own B t q (put_job (bolt_persister B) i j' q)"
  by (auto simp: put_job_def jobs_persist_def rec_inv_def intro!: own_put)

lemma Submit_own:
  assumes "bolt_ok B" "jobs_wf q" "q_counter q + 1 \<noteq> 0"
  shows "jobs_own B t q (snd (jobs_SubmitWithOpts (bolt_persister B) q t a c p pr ttl now))"
  using assms by (simp add: jobs_SubmitWithOpts_def Let_def jobs_persist_def job_recs.own_new)

lemma Claim_own:
  assumes "bolt_ok B" "jobs_wf q"
  shows "jobs_own B t q (snd (jobs_ClaimForTenant (bolt_persister B) q t a c ks now))"
proof -
  let ?best = "select_best (\<lambda>x. claim_tenant_match t a c (snd x)) job_better None (entries (q_jobs q) ks)"
  show ?thesis
  proof (cases ?best)
    case None
    then show ?thesis by (simp add: jobs_ClaimForTenant_def take_job_def)
  next
    case (Some kj)
    obtain k j where kj: "kj = (k, j)" by force
    from select_best_mem [OF Some] kj have "q_jobs q k = Some j" "j_Tenant j = t"
      by (auto simp: entries_def claim_tenant_match_def)
    with put_job_own [OF assms, of k j t] Some kj show ?thesis
      by (simp add: jobs_ClaimForTenant_def take_job_def Let_def)
  qed
qed

lemma Update_own:
  assumes "bolt_ok B" "jobs_wf q" "\<And>j. q_jobs q i = Some j \<Longrightarrow> j_Tenant j = t"
  shows "jobs_own B t q (snd (jobs_Update (bolt_persister B) q i st res err now))"
proof (cases "q_jobs q i")
  case (Some j)
  with put_job_own [OF assms(1,2) Some assms(3)] assms(3) [OF Some] show ?thesis by (simp add: jobs_Update_def)
qed (simp add: jobs_Update_def)

lemma Cancel_own:
  assumes "bolt_ok B" "jobs_wf q" "\<And>j. q_jobs q i = Some j \<Longrightarrow> j_Tenant j = t"
  shows "jobs_own B t q (snd (jobs_Cancel (bolt_persister B) q i now))"
proof (cases "q_jobs q i")
  case (Some j)
  with put_job_own [OF assms(1,2) Some assms(3)] assms(3) [OF Some] show ?thesis by (simp add: jobs_Cancel_def)
qed (simp add: jobs_Cancel_def)

abbreviation rules_own :: "'db bolt \<Rightarrow> string \<Rightarrow> 'db notify_manager \<Rightarrow> 'db notify_manager \<Rightarrow> bool" where
  "rules_own B t m m' \<equiv> rec_own t nr_ID nr_Tenant parseRuleNum (nm_rules m) (nm_counter m) (nm_rules m') (nm_counter m') \<and>
     store_own B t (nm_store m) (nm_store m')"

abbreviation rules_wf :: "'db notify_manager \<Rightarrow> bool" where
  "rules_wf m \<equiv> rec_inv nr_ID parseRuleNum (nm_rules m) (nm_counter m)"

lemma rule_Add_own:
  "bolt_ok B \<Longrightarrow> rules_wf m \<Longrightarrow> nm_counter m + 1 \<noteq> 0 \<Longrightarrow> rules_own B t m (snd (notify_Add (bolt_persister B) m t n url s es now))"
  by (simp add: notify_Add_def Let_def put_rule_def notify_persist_def rule_recs.own_new)

lemma notify_GetD: "rules_wf m \<Longrightarrow> notify_Get m t i = Some r \<Longrightarrow> nm_rules m i = Some r \<and> nr_Tenant r = t \<and> nr_ID r = i"
  by (auto simp: notify_Get_def rec_inv_def split: option.splits if_splits)

lemma rule_Update_own:
  assumes "bolt_ok B" "rules_wf m"
  shows "rules_own B t m (snd (notify_Update (bolt_persister B) m t i p))"
proof (cases "notify_Get m t i")
  case (Some r)
  note r = notify_GetD [OF assms(2) Some]
  obtain e r' where u: "update_rule p r = (e, r')" by fastforce
  from own_put [of "nm_rules m" i r nr_Tenant t r' nr_ID] r update_rule_keeps [OF u]
  have "rec_own t nr_ID nr_Tenant parseRuleNum (nm_rules m) (nm_counter m) ((nm_rules m)(i \<mapsto> r')) (nm_counter m)" by simp
  with Some u update_rule_keeps [OF u] r assms show ?thesis
    by (simp add: notify_Update_def notify_persist_def split: option.splits)
qed (simp add: notify_Update_def)

lemma rule_Delete_own:
  assumes "bolt_ok B" "rules_wf m"
  shows "rules_own B t m (snd (notify_Delete (bolt_persister B) m t i))"
proof (cases "notify_Get m t i")
  case (Some r)
  with notify_GetD [OF assms(2) Some] own_drop [of "nm_rules m" i r nr_Tenant t] assms show ?thesis
    by (simp add: notify_Delete_def notify_unpersist_def)
qed (simp add: notify_Delete_def)

abbreviation groups_own :: "'db bolt \<Rightarrow> string \<Rightarrow> 'db group_manager \<Rightarrow> 'db group_manager \<Rightarrow> bool" where
  "groups_own B t m m' \<equiv> rec_own t g_ID g_Tenant parseGroupNum (gs_groups m) (gs_counter m) (gs_groups m') (gs_counter m') \<and>
     store_own B t (gs_store m) (gs_store m')"

abbreviation groups_wf :: "'db group_manager \<Rightarrow> bool" where
  "groups_wf m \<equiv> rec_inv g_ID parseGroupNum (gs_groups m) (gs_counter m)"

lemma find_group_own: "groups_wf m \<Longrightarrow> find_group m t i = Some g \<Longrightarrow> gs_groups m i = Some g \<and> g_Tenant g = t \<and> g_ID g = i"
  by (auto simp: find_group_def rec_inv_def split: option.splits if_splits)

lemma put_group_own:
  "bolt_ok B \<Longrightarrow> groups_wf m \<Longrightarrow> find_group m t i = Some g \<Longrightarrow> g_Tenant g' = g_Tenant g \<Longrightarrow> g_ID g' = g_ID g \<Longrightarrow>
    groups_own B t m (put_group (bolt_persister B) g' m)"
  using find_group_own [of m t i g] own_put [of "gs_groups m" i g g_Tenant t g' g_ID] by (simp add: groups_persist_def)

lemma group_Create_own:
  "bolt_ok B \<Longrightarrow> groups_wf m \<Longrightarrow> gs_counter m + 1 \<noteq> 0 \<Longrightarrow> groups_own B t m (snd (groups_Create (bolt_persister B) m t n now))"
  by (simp add: groups_Create_def Let_def groups_persist_def group_recs.own_new)

lemma group_Update_own:
  assumes "bolt_ok B" "groups_wf m"
  shows "groups_own B t m (snd (groups_Update (bolt_persister B) m t i n))"
proof (cases "find_group m t i")
  case (Some g)
  with put_group_own [OF assms Some, of "case n of None \<Rightarrow> g | Some x \<Rightarrow> g\<lparr>g_Name := x\<rparr>"] show ?thesis
    by (simp add: groups_Update_def Let_def split: option.splits del: put_group_simps)
qed (simp add: groups_Update_def)

lemma group_Delete_own:
  assumes "bolt_ok B" "groups_wf m"
  shows "groups_own B t m (snd (groups_Delete (bolt_persister B) m t i))"
proof (cases "find_group m t i")
  case (Some g)
  with find_group_own [OF assms(2) Some] own_drop [of "gs_groups m" i g g_Tenant t] assms show ?thesis
    by (simp add: groups_Delete_def groups_unpersist_def)
qed (simp add: groups_Delete_def)

lemma group_AddMember_own:
  assumes "bolt_ok B" "groups_wf m"
  shows "groups_own B t m (snd (groups_AddMemberWithWeight (bolt_persister B) m t i a w))"
  using put_group_own [OF assms, of t i]
  by (cases "find_group m t i") (simp_all add: groups_AddMemberWithWeight_def split: sum.splits del: put_group_simps)

lemma group_Weight_own:
  assumes "bolt_ok B" "groups_wf m"
  shows "groups_own B t m (snd (groups_UpdateMemberWeight (bolt_persister B) m t i a w))"
  using put_group_own [OF assms, of t i]
  by (cases "find_group m t i") (simp_all add: groups_UpdateMemberWeight_def split: sum.splits option.splits del: put_group_simps)

lemma group_RemoveMember_own:
  assumes "bolt_ok B" "groups_wf m"
  shows "groups_own B t m (snd (groups_RemoveMember (bolt_persister B) m t i a))"
  using put_group_own [OF assms, of t i]
  by (cases "find_group m t i") (simp_all add: groups_RemoveMember_def Let_def del: put_group_simps)

lemma group_Next_same:
  assumes "groups_Next m t i f st = (r, st', m')"
  shows "gs_groups m' = gs_groups m" "gs_counter m' = gs_counter m" "gs_store m' = gs_store m"
  using assms by (auto simp: groups_Next_def Let_def split: option.splits if_splits prod.splits)

abbreviation pipes_own :: "'db bolt \<Rightarrow> string \<Rightarrow> 'db pipe_manager \<Rightarrow> 'db pipe_manager \<Rightarrow> bool" where
  "pipes_own B t m m' \<equiv>
     rec_own t p_ID p_Tenant parsePipelineNum (pm_pipelines m) (pm_pipelineCounter m) (pm_pipelines m') (pm_pipelineCounter m') \<and>
     rec_own t rn_ID rn_Tenant parseRunNum (pm_runs m) (pm_runCounter m) (pm_runs m') (pm_runCounter m') \<and>
     store_own B t (pm_store m) (pm_store m')"

abbreviation pipes_wf :: "'db pipe_manager \<Rightarrow> bool" where
  "pipes_wf m \<equiv> rec_inv p_ID parsePipelineNum (pm_pipelines m) (pm_pipelineCounter m) \<and> rec_inv rn_ID parseRunNum (pm_runs m) (pm_runCounter m)"

lemma pipe_GetD: "pipes_wf m \<Longrightarrow> pipelines_GetPipeline m t i = Some p \<Longrightarrow> pm_pipelines m i = Some p \<and> p_Tenant p = t \<and> p_ID p = i"
  by (auto simp: pipelines_GetPipeline_def rec_inv_def split: option.splits if_splits)

lemma run_GetD: "pipes_wf m \<Longrightarrow> pipelines_GetRun m t i = Some r \<Longrightarrow> pm_runs m i = Some r \<and> rn_Tenant r = t \<and> rn_ID r = i"
  by (auto simp: pipelines_GetRun_def rec_inv_def split: option.splits if_splits)

lemma put_run_own:
  assumes "bolt_ok B" "pipes_wf m" "pipelines_GetRun m t i = Some r" "rn_Tenant r' = rn_Tenant r" "rn_ID r' = rn_ID r"
  shows "pipes_own B t m (put_run (bolt_persister B) r' m)"
  using run_GetD [OF assms(2,3)] own_put [of "pm_runs m" i r rn_Tenant t r' rn_ID] assms by (simp add: put_run_def persistRun_def)

lemma pipe_Create_own:
  assumes "bolt_ok B" "pipes_wf m" "pm_pipelineCounter m + 1 \<noteq> 0"
  shows "pipes_own B t m (snd (pipelines_CreatePipeline (bolt_persister B) m t n ss now))"
  using assms by (simp add: pipelines_CreatePipeline_def Let_def put_pipeline_def persistPipeline_def pipeline_recs.own_new split: option.splits)

lemma pipe_Update_own:
  assumes "bolt_ok B" "pipes_wf m"
  shows "pipes_own B t m (snd (pipelines_UpdatePipeline (bolt_persister B) m t i n ss))"
proof (cases "pipelines_GetPipeline m t i")
  case (Some p)
  note p = pipe_GetD [OF assms(2) Some]
  have own: "rec_own t p_ID p_Tenant parsePipelineNum (pm_pipelines m) (pm_pipelineCounter m) ((pm_pipelines m)(i \<mapsto> p')) (pm_pipelineCounter m)"
    if "p_Tenant p' = t" "p_ID p' = i" for p'
    using p that own_put [of "pm_pipelines m" i p p_Tenant t p' p_ID] by simp
  show ?thesis using Some p assms(1) own
    by (auto simp: pipelines_UpdatePipeline_def Let_def put_pipeline_def persistPipeline_def split: option.splits)
qed (simp add: pipelines_UpdatePipeline_def)

lemma pipe_Delete_own:
  assumes "bolt_ok B" "pipes_wf m"
  shows "pipes_own B t m (snd (pipelines_DeletePipeline (bolt_persister B) m t i))"
proof (cases "pipelines_GetPipeline m t i")
  case (Some p)
  with pipe_GetD [OF assms(2) Some] own_drop [of "pm_pipelines m" i p p_Tenant t] assms show ?thesis
    by (simp add: pipelines_DeletePipeline_def unpersistPipeline_def)
qed (simp add: pipelines_DeletePipeline_def)

lemma run_Start_own:
  assumes "bolt_ok B" "pipes_wf m" "pm_runCounter m + 1 \<noteq> 0"
  shows "pipes_own B t m (snd (pipelines_StartRun (bolt_persister B) m t i input now))"
  using assms by (simp add: pipelines_StartRun_def Let_def put_run_def persistRun_def run_recs.own_new split: option.splits list.splits)

lemma run_Record_own:
  assumes "bolt_ok B" "pipes_wf m"
  shows "pipes_own B t m (snd (pipelines_RecordStageJob (bolt_persister B) m t i j now))"
  using put_run_own [OF assms, of t i] by (simp add: pipelines_RecordStageJob_def Let_def split: option.splits)

lemma run_Advance_own:
  assumes "bolt_ok B" "pipes_wf m"
  shows "pipes_own B t m (snd (pipelines_AdvanceRun (bolt_persister B) m t i failed now))"
  using put_run_own [OF assms, of t i] by (simp add: pipelines_AdvanceRun_def Let_def split: option.splits)

abbreviation scheds_own :: "'db bolt \<Rightarrow> string \<Rightarrow> 'db sched_manager \<Rightarrow> 'db sched_manager \<Rightarrow> bool" where
  "scheds_own B t m m' \<equiv> rec_own t sc_ID sc_Tenant parseSchedNum (sm_schedules m) (sm_counter m) (sm_schedules m') (sm_counter m') \<and>
     store_own B t (sm_store m) (sm_store m')"

abbreviation scheds_wf :: "'db sched_manager \<Rightarrow> bool" where
  "scheds_wf m \<equiv> rec_inv sc_ID parseSchedNum (sm_schedules m) (sm_counter m)"

lemma start_stop_same [simp]:
  "sm_schedules (startLocked i d m) = sm_schedules m" "sm_counter (startLocked i d m) = sm_counter m" "sm_store (startLocked i d m) = sm_store m"
  "sm_schedules (stopLocked i m) = sm_schedules m" "sm_counter (stopLocked i m) = sm_counter m" "sm_store (stopLocked i m) = sm_store m"
  by (simp_all add: startLocked_def stopLocked_def split: option.splits)

lemma sched_Add_own:
  "bolt_ok B \<Longrightarrow> scheds_wf m \<Longrightarrow> sm_counter m + 1 \<noteq> 0 \<Longrightarrow> scheds_own B t m (snd (sched_Add (bolt_persister B) m n t a c p d now))"
  by (simp add: sched_Add_def Let_def sched_persist_def sched_recs.own_new)

lemma sched_Update_own:
  assumes "bolt_ok B" "scheds_wf m" "t \<noteq> []"
  shows "scheds_own B t m (snd (sched_Update (bolt_persister B) m t i p))"
proof (cases "\<exists>s. sm_schedules m i = Some s \<and> sc_Tenant s = t")
  case True
  then obtain s where s: "sm_schedules m i = Some s" "sc_Tenant s = t" by blast
  obtain e s' where u: "update_sched p s = (e, s')" by fastforce
  have "sc_ID s = i" using s(1) assms(2) by (simp add: rec_inv_def)
  with own_put [of "sm_schedules m" i s sc_Tenant t s' sc_ID] s update_sched_keeps(1,2) [OF u]
  have "rec_own t sc_ID sc_Tenant parseSchedNum (sm_schedules m) (sm_counter m) ((sm_schedules m)(i \<mapsto> s')) (sm_counter m)" by simp
  moreover have "sm_counter (rearm s s' m) = sm_counter m" by (simp add: rearm_def)
  ultimately show ?thesis using s u update_sched_keeps(2) [OF u] assms(1)
    by (simp add: sched_Update_def sched_persist_def split: option.splits)
next
  case False
  with assms(3) show ?thesis by (auto simp: sched_Update_def split: option.splits)
qed

lemma sched_Delete_own:
  assumes "bolt_ok B" "scheds_wf m" "sm_schedules m i = Some s" "sc_Tenant s = t"
  shows "scheds_own B t m (snd (sched_Delete (bolt_persister B) m i))"
  using assms own_drop [of "sm_schedules m" i s sc_Tenant t] by (simp add: sched_Delete_def sched_unpersist_def Let_def)

section \<open>Agents\<close>

text \<open>No operation on behalf of \<open>t\<close> before instant \<open>T\<close> changes the agents of another tenant that are
  alive at \<open>T\<close>; agents whose lease has run out may be swept.\<close>

definition agents_own :: "instant \<Rightarrow> string \<Rightarrow> registry \<Rightarrow> registry \<Rightarrow> bool" where
  "agents_own T t r r' \<longleftrightarrow> (\<forall>u i. u \<noteq> t \<and> no_slash u \<and> no_slash t \<longrightarrow> visible r' (agentKey u i) T = visible r (agentKey u i) T)"

lemma agents_own_refl [simp]: "agents_own T t r r"
  by (simp add: agents_own_def)

lemma agents_own_trans: "agents_own T t r r1 \<Longrightarrow> agents_own T t r1 r2 \<Longrightarrow> agents_own T t r r2"
  by (simp add: agents_own_def)

lemma dead_later: "agent_dead now a \<Longrightarrow> now \<le> T \<Longrightarrow> agent_dead T a"
  by (auto simp: agent_dead_def expired_def split: option.splits)

lemma agents_own_key: "agents_own T t r (r(agentKey t i := x))"
  by (auto simp: agents_own_def agentKey_inject intro!: visible_other)

lemma agents_own_sweep: "r k = Some a \<Longrightarrow> agent_dead now a \<Longrightarrow> now \<le> T \<Longrightarrow> agents_own T t r (r(k := None))"
  using dead_later [of now a T] by (auto simp: agents_own_def visible_def split: option.splits)

lemma agents_own_live: "agents_live r (agentKey t i) now = (x, r') \<Longrightarrow> agents_own T t r r'"
  by (auto simp: agents_live_def intro: agents_own_key split: option.splits if_splits)

lemma agents_own_live_put: "agents_live r (agentKey t i) now = (x, r') \<Longrightarrow> agents_own T t r (r'(agentKey t i := y))"
  by (rule agents_own_trans [OF agents_own_live agents_own_key])

lemma list_loop_own: "now \<le> T \<Longrightarrow> agents_own T t r (snd (list_loop v now ks r out))"
proof (induction ks arbitrary: r out)
  case (Cons k ks)
  then show ?case by (cases "r k") (auto intro: agents_own_trans [OF agents_own_sweep])
qed simp

lemma agents_ops_own:
  "r_TenantID req = t \<Longrightarrow> agents_own T t r (snd (agents_Register r req now))"
  "agents_own T t r (snd (agents_Heartbeat r t i ttl now))"
  "agents_own T t r (snd (agents_UpdateStatus r t i st now))"
  "agents_own T t r (snd (agents_Update r t i u now))"
  "agents_own T t r (snd (agents_Deregister r t i))"
  "agents_own T t r (snd (agents_Get r t i now))"
  using agents_own_live [of r t i now _ _ T, OF surjective_pairing]
  by (auto simp: agents_Register_def agents_Heartbeat_def agents_UpdateStatus_def agents_Update_def agents_Deregister_def agents_Get_def
      Let_def agents_own_key intro: agents_own_live agents_own_live_put split: prod.splits option.splits)

lemma agents_lists_own:
  assumes "now \<le> T"
  shows "agents_own T t r (snd (agents_List r v ks now))"
    and "agents_own T t r (snd (agents_ListByCapability r v c ks now))"
    and "agents_own T t r (snd (agents_ListBySelector r v sel ks now))"
    and "agents_own T t r (snd (agents_FindBest r v c ks now))"
proof -
  show l: "agents_own T t r (snd (agents_List r v ks now))"
    using list_loop_own [OF assms, of t r v ks "[]"] by (simp add: agents_List_def case_prod_beta)
  show c: "agents_own T t r (snd (agents_ListByCapability r v c ks now))"
    using l by (simp add: agents_ListByCapability_def case_prod_beta)
  show "agents_own T t r (snd (agents_ListBySelector r v sel ks now))"
    using l by (simp add: agents_ListBySelector_def case_prod_beta)
  show "agents_own T t r (snd (agents_FindBest r v c ks now))"
    using c by (simp add: agents_FindBest_def case_prod_beta)
qed

section \<open>The hub\<close>

definition hub_own :: "'db bolt \<Rightarrow> instant \<Rightarrow> string \<Rightarrow> 'db hub \<Rightarrow> 'db hub \<Rightarrow> bool" where
  "hub_own B T t h h' \<longleftrightarrow>
     rec_own t j_ID j_Tenant jobs_parseJobNum (q_jobs (hs_jobs h)) (q_counter (hs_jobs h)) (q_jobs (hs_jobs h')) (q_counter (hs_jobs h')) \<and>
     rec_own t nr_ID nr_Tenant parseRuleNum (nm_rules (hs_rules h)) (nm_counter (hs_rules h)) (nm_rules (hs_rules h')) (nm_counter (hs_rules h')) \<and>
     rec_own t g_ID g_Tenant parseGroupNum (gs_groups (hs_groups h)) (gs_counter (hs_groups h)) (gs_groups (hs_groups h')) (gs_counter (hs_groups h')) \<and>
     rec_own t p_ID p_Tenant parsePipelineNum (pm_pipelines (hs_pipes h)) (pm_pipelineCounter (hs_pipes h)) (pm_pipelines (hs_pipes h')) (pm_pipelineCounter (hs_pipes h')) \<and>
     rec_own t rn_ID rn_Tenant parseRunNum (pm_runs (hs_pipes h)) (pm_runCounter (hs_pipes h)) (pm_runs (hs_pipes h')) (pm_runCounter (hs_pipes h')) \<and>
     rec_own t sc_ID sc_Tenant parseSchedNum (sm_schedules (hs_scheds h)) (sm_counter (hs_scheds h)) (sm_schedules (hs_scheds h')) (sm_counter (hs_scheds h')) \<and>
     agents_own T t (hs_agents h) (hs_agents h') \<and> foreign_kept B t (hub_db h) (hub_db h') \<and>
     (\<forall>u. u \<noteq> t \<longrightarrow> hs_kv h' u = hs_kv h u \<and> tm_tenants (hs_tm h') u = tm_tenants (hs_tm h) u)"

definition hub_inv :: "'db hub \<Rightarrow> bool" where
  "hub_inv h \<longleftrightarrow> jobs_wf (hs_jobs h) \<and> rules_wf (hs_rules h) \<and> groups_wf (hs_groups h) \<and> pipes_wf (hs_pipes h) \<and> scheds_wf (hs_scheds h)"

text \<open>The counters of the managers have not reached the largest 64-bit number.\<close>

definition hub_room :: "'db hub \<Rightarrow> bool" where
  "hub_room h \<longleftrightarrow> q_counter (hs_jobs h) + 1 \<noteq> 0 \<and> nm_counter (hs_rules h) + 1 \<noteq> 0 \<and> gs_counter (hs_groups h) + 1 \<noteq> 0 \<and>
     pm_pipelineCounter (hs_pipes h) + 1 \<noteq> 0 \<and> pm_runCounter (hs_pipes h) + 1 \<noteq> 0 \<and> sm_counter (hs_scheds h) + 1 \<noteq> 0"

lemma hub_own_refl [simp]: "hub_own B T t h h"
  by (simp add: hub_own_def)

lemma hub_own_trans:
  assumes "hub_own B T t h h1" "hub_own B T t h1 h2"
  shows "hub_own B T t h h2"
  using assms unfolding hub_own_def
  by (elim conjE, intro conjI) (erule own_trans agents_own_trans foreign_trans, assumption | simp)+

lemma hub_own_inv: "hub_own B T t h h' \<Longrightarrow> hub_inv h \<Longrightarrow> hub_inv h'"
  unfolding hub_own_def hub_inv_def
  by (auto intro: job_recs.own_inv rule_recs.own_inv group_recs.own_inv pipeline_recs.own_inv run_recs.own_inv sched_recs.own_inv)

lemma put_db_kept:
  "store_own B t (Some (hub_db h)) st \<Longrightarrow> foreign_kept B t (hub_db h) (hub_db (put_db st h'))" if "hub_db h' = hub_db h"
  using that by (auto simp: store_own_def put_db_def)

lemma put_db_tenants [simp]: "tm_tenants (hs_tm (put_db st h)) = tm_tenants (hs_tm h)"
  by (simp add: put_db_def split: option.splits)

lemma on_jobs_own:
  assumes "on_jobs f h = (x, h1)" "jobs_own B t ((hs_jobs h)\<lparr>q_store := Some (hub_db h)\<rparr>) (snd (f ((hs_jobs h)\<lparr>q_store := Some (hub_db h)\<rparr>)))"
  shows "hub_own B T t h h1" "hs_pipes h1 = hs_pipes h"
  using assms put_db_kept [of "h\<lparr>hs_jobs := snd (f ((hs_jobs h)\<lparr>q_store := Some (hub_db h)\<rparr>))\<rparr>" h]
  by (auto simp: on_jobs_def hub_own_def split: prod.splits)

lemma on_rules_own:
  assumes "on_rules f h = (x, h1)" "rules_own B t ((hs_rules h)\<lparr>nm_store := Some (hub_db h)\<rparr>) (snd (f ((hs_rules h)\<lparr>nm_store := Some (hub_db h)\<rparr>)))"
  shows "hub_own B T t h h1"
  using assms put_db_kept [of "h\<lparr>hs_rules := snd (f ((hs_rules h)\<lparr>nm_store := Some (hub_db h)\<rparr>))\<rparr>" h]
  by (auto simp: on_rules_def hub_own_def split: prod.splits)

lemma on_groups_own:
  assumes "on_groups f h = (x, h1)" "groups_own B t ((hs_groups h)\<lparr>gs_store := Some (hub_db h)\<rparr>) (snd (f ((hs_groups h)\<lparr>gs_store := Some (hub_db h)\<rparr>)))"
  shows "hub_own B T t h h1"
  using assms put_db_kept [of "h\<lparr>hs_groups := snd (f ((hs_groups h)\<lparr>gs_store := Some (hub_db h)\<rparr>))\<rparr>" h]
  by (auto simp: on_groups_def hub_own_def split: prod.splits)

lemma on_pipes_own:
  assumes "on_pipes f h = (x, h1)" "pipes_own B t ((hs_pipes h)\<lparr>pm_store := Some (hub_db h)\<rparr>) (snd (f ((hs_pipes h)\<lparr>pm_store := Some (hub_db h)\<rparr>)))"
  shows "hub_own B T t h h1" "hs_jobs h1 = hs_jobs h"
  using assms put_db_kept [of "h\<lparr>hs_pipes := snd (f ((hs_pipes h)\<lparr>pm_store := Some (hub_db h)\<rparr>))\<rparr>" h]
  by (auto simp: on_pipes_def hub_own_def split: prod.splits)

lemma on_scheds_own:
  assumes "on_scheds f h = (x, h1)" "scheds_own B t ((hs_scheds h)\<lparr>sm_store := Some (hub_db h)\<rparr>) (snd (f ((hs_scheds h)\<lparr>sm_store := Some (hub_db h)\<rparr>)))"
  shows "hub_own B T t h h1"
  using assms put_db_kept [of "h\<lparr>hs_scheds := snd (f ((hs_scheds h)\<lparr>sm_store := Some (hub_db h)\<rparr>))\<rparr>" h]
  by (auto simp: on_scheds_def hub_own_def split: prod.splits)

lemma on_agents_own:
  assumes "on_agents f h = (x, h1)" "agents_own T t (hs_agents h) (snd (f (hs_agents h)))"
  shows "hub_own B T t h h1" "hs_jobs h1 = hs_jobs h" "hs_pipes h1 = hs_pipes h"
  using assms by (auto simp: on_agents_def hub_own_def split: prod.splits)

lemma on_agents_ops:
  "on_agents (\<lambda>r. agents_Register r req now) h = (x, h1) \<Longrightarrow> r_TenantID req = t \<Longrightarrow> hub_own B T t h h1"
  "on_agents (\<lambda>r. agents_Heartbeat r t i ttl now) h = (x, h1) \<Longrightarrow> hub_own B T t h h1"
  "on_agents (\<lambda>r. agents_UpdateStatus r t i st now) h = (x, h1) \<Longrightarrow> hub_own B T t h h1"
  "on_agents (\<lambda>r. agents_Update r t i u now) h = (x, h1) \<Longrightarrow> hub_own B T t h h1"
  "on_agents (\<lambda>r. agents_Deregister r t i) h = (x, h1) \<Longrightarrow> hub_own B T t h h1"
  "on_agents (\<lambda>r. agents_Get r t i now) h = (y, h1) \<Longrightarrow> hub_own B T t h h1"
  by (erule on_agents_own(1), simp add: agents_ops_own)+

lemma with_tenant_own:
  assumes "bolt_ok B" "hub_inv h" "hub_room h"
    and k: "\<And>h1. hub_inv h1 \<Longrightarrow> hub_room h1 \<Longrightarrow> hub_own B T t h h1 \<Longrightarrow> hub_own B T t h1 (rp_hub (k t h1))"
    and t: "request_tenant E ctx = t"
  shows "hub_own B T t h (rp_hub (with_tenant E B tp ctx h k))"
proof -
  obtain r tm where g: "tm_getTenant (ae_ff E) (ae_fj E) (ae_fr E) B (ck_genesis (tp_clock tp)) (ck_reload (tp_clock tp)) (ck_load (tp_clock tp))
      (hs_tm h) t = (r, tm)" by fastforce
  let ?h1 = "h\<lparr>hs_tm := tm\<rparr>"
  have own: "hub_own B T t h ?h1" using foreign_getTenant [OF assms(1) g] by (simp add: hub_own_def)
  then have inv: "hub_inv ?h1" "hub_room ?h1" using hub_own_inv assms(2,3) by (auto simp: hub_room_def)
  show ?thesis
  proof (cases r)
    case (Inl e)
    with g t own show ?thesis by (simp add: with_tenant_def getState_def Let_def)
  next
    case (Inr st)
    with g t hub_own_trans [OF own k [OF inv own]] show ?thesis by (simp add: with_tenant_def getState_def Let_def)
  qed
qed

text \<open>A request of \<open>t\<close> served at or before \<open>T\<close> on a well-formed hub.\<close>

definition served_ok :: "'db bolt \<Rightarrow> instant \<Rightarrow> tape \<Rightarrow> string \<Rightarrow> 'db hub \<Rightarrow> bool" where
  "served_ok B T tp t h \<longleftrightarrow> bolt_ok B \<and> hub_inv h \<and> hub_room h \<and> t \<noteq> [] \<and> (\<forall>n. tp_now tp n \<le> T)"

lemma served_tenant:
  assumes "served_ok B T tp t h" "request_tenant E ctx = t"
    and "\<And>h1. served_ok B T tp t h1 \<Longrightarrow> hub_own B T t h1 (rp_hub (k t h1))"
  shows "hub_own B T t h (rp_hub (with_tenant E B tp ctx h k))"
  using assms by (intro with_tenant_own) (auto simp: served_ok_def)

section \<open>The handlers\<close>

lemma agents_own_handlers:
  assumes "served_ok B T tp t h" "request_tenant E ctx = t"
  shows "hub_own B T t h (rp_hub (handle_agents E B tp ctx m q body h))"
    and "hub_own B T t h (rp_hub (handle_agents_register E B ttl tp ctx m reg h))"
    and "hub_own B T t h (rp_hub (handle_agents_heartbeat E B ttl tp ctx m q h))"
    and "hub_own B T t h (rp_hub (handle_agents_status E B tp ctx m q h))"
    and "hub_own B T t h (rp_hub (handle_agents_route E B tp ctx m q h))"
proof -
  have now: "tp_now tp n \<le> T" for n using assms(1) by (simp add: served_ok_def)
  have patch: "hub_own B T t h1 (rp_hub (patch_agent E tp t i body h1))" for h1 :: "'a hub" and i
    by (auto simp: patch_agent_def split: option.splits prod.splits dest!: on_agents_ops(4,6) intro: hub_own_trans)
  have gets: "hub_own B T t h1 h2" if "on_agents (get_agents tp t q) h1 = (x, h2)" for h1 h2 :: "'a hub" and x
    using that by (rule on_agents_own(1)) (simp add: get_agents_def Let_def agents_lists_own now)
  have route: "hub_own B T t h1 h2" if "on_agents (\<lambda>r. agents_ListByCapability r t c ks (tp_now tp n)) h1 = (x, h2)"
    for h1 h2 :: "'a hub" and x c ks n
    using that by (rule on_agents_own(1)) (simp add: agents_lists_own now)
  show "hub_own B T t h (rp_hub (handle_agents E B tp ctx m q body h))"
    unfolding handle_agents_def
    by (rule served_tenant [OF assms]) (auto simp: patch Let_def split: option.splits prod.splits dest!: on_agents_ops(5,6) gets)
  show "hub_own B T t h (rp_hub (handle_agents_heartbeat E B ttl tp ctx m q h))"
    unfolding handle_agents_heartbeat_def
    by (auto intro!: served_tenant [OF assms] simp: Let_def split: option.splits prod.splits dest!: on_agents_ops(2))
  show "hub_own B T t h (rp_hub (handle_agents_status E B tp ctx m q h))"
    unfolding handle_agents_status_def
    by (auto intro!: served_tenant [OF assms] simp: Let_def split: option.splits prod.splits dest!: on_agents_ops(3))
  show "hub_own B T t h (rp_hub (handle_agents_route E B tp ctx m q h))"
    unfolding handle_agents_route_def
    by (auto intro!: served_tenant [OF assms] simp: Let_def split: option.splits prod.splits dest!: route)
  show "hub_own B T t h (rp_hub (handle_agents_register E B ttl tp ctx m reg h))"
    unfolding handle_agents_register_def
    by (auto intro!: served_tenant [OF assms] simp: Let_def split: option.splits prod.splits
        dest!: on_agents_ops(1) [where t = t] on_agents_ops(6) intro: hub_own_trans)
qed

lemma on_jobs_ops:
  assumes "bolt_ok B" "hub_inv h"
  shows "on_jobs (\<lambda>q. jobs_SubmitWithOpts (bolt_persister B) q t a c p pr ttl now) h = (j, h1) \<Longrightarrow> q_counter (hs_jobs h) + 1 \<noteq> 0 \<Longrightarrow>
      hub_own B T t h h1 \<and> hs_pipes h1 = hs_pipes h"
    and "on_jobs (\<lambda>q. jobs_ClaimForTenant (bolt_persister B) q t a c ks now) h = (x, h1) \<Longrightarrow> hub_own B T t h h1"
    and "on_jobs (\<lambda>q. jobs_Update (bolt_persister B) q i st res err now) h = (b, h1) \<Longrightarrow> own_job t i h = Some y \<Longrightarrow> hub_own B T t h h1"
    and "on_jobs (\<lambda>q. jobs_Cancel (bolt_persister B) q i now) h = (b, h1) \<Longrightarrow> own_job t i h = Some y \<Longrightarrow> hub_own B T t h h1"
proof -
  let ?q = "(hs_jobs h)\<lparr>q_store := Some (hub_db h)\<rparr>"
  have wf: "jobs_wf ?q" using assms(2) by (simp add: hub_inv_def)
  have own: "\<And>j. q_jobs ?q i = Some j \<Longrightarrow> j_Tenant j = t" if "own_job t i h = Some y" for y
    using that by (auto simp: own_job_def jobs_Get_def split: option.splits if_splits)
  show "on_jobs (\<lambda>q. jobs_SubmitWithOpts (bolt_persister B) q t a c p pr ttl now) h = (j, h1) \<Longrightarrow> q_counter (hs_jobs h) + 1 \<noteq> 0 \<Longrightarrow>
      hub_own B T t h h1 \<and> hs_pipes h1 = hs_pipes h"
    using Submit_own [OF assms(1) wf, of t a c p pr ttl now] by (auto dest: on_jobs_own(1) on_jobs_own(2) [where B = B and t = t])
  show "on_jobs (\<lambda>q. jobs_ClaimForTenant (bolt_persister B) q t a c ks now) h = (x, h1) \<Longrightarrow> hub_own B T t h h1"
    by (erule on_jobs_own(1)) (rule Claim_own [OF assms(1) wf])
  show "on_jobs (\<lambda>q. jobs_Update (bolt_persister B) q i st res err now) h = (b, h1) \<Longrightarrow> own_job t i h = Some y \<Longrightarrow> hub_own B T t h h1"
    by (erule on_jobs_own(1)) (rule Update_own [OF assms(1) wf own])
  show "on_jobs (\<lambda>q. jobs_Cancel (bolt_persister B) q i now) h = (b, h1) \<Longrightarrow> own_job t i h = Some y \<Longrightarrow> hub_own B T t h h1"
    by (erule on_jobs_own(1)) (rule Cancel_own [OF assms(1) wf own])
qed

lemma choose_agent_own:
  assumes "now \<le> T" "choose_agent tp now t a c h = (x, h1)"
  shows "hub_own B T t h h1" "hs_jobs h1 = hs_jobs h" "hs_pipes h1 = hs_pipes h"
proof -
  have "h1 = h \<or> (\<exists>y. on_agents (\<lambda>r. agents_FindBest r t c (tp_agents tp) now) h = (y, h1))"
    using assms(2) by (auto simp: choose_agent_def split: if_splits prod.splits)
  then have "hub_own B T t h h1 \<and> hs_jobs h1 = hs_jobs h \<and> hs_pipes h1 = hs_pipes h"
    using on_agents_own [of "\<lambda>r. agents_FindBest r t c (tp_agents tp) now" h _ h1 T t] agents_lists_own(4) [OF assms(1)] by auto
  then show "hub_own B T t h h1" "hs_jobs h1 = hs_jobs h" "hs_pipes h1 = hs_pipes h" by blast+
qed

lemma served_okD:
  "served_ok B T tp t h \<Longrightarrow> bolt_ok B" "served_ok B T tp t h \<Longrightarrow> hub_inv h" "served_ok B T tp t h \<Longrightarrow> tp_now tp n \<le> T"
  "served_ok B T tp t h \<Longrightarrow> t \<noteq> []"
  "served_ok B T tp t h \<Longrightarrow> q_counter (hs_jobs h) + 1 \<noteq> 0" "served_ok B T tp t h \<Longrightarrow> nm_counter (hs_rules h) + 1 \<noteq> 0"
  "served_ok B T tp t h \<Longrightarrow> gs_counter (hs_groups h) + 1 \<noteq> 0" "served_ok B T tp t h \<Longrightarrow> pm_pipelineCounter (hs_pipes h) + 1 \<noteq> 0"
  "served_ok B T tp t h \<Longrightarrow> pm_runCounter (hs_pipes h) + 1 \<noteq> 0" "served_ok B T tp t h \<Longrightarrow> sm_counter (hs_scheds h) + 1 \<noteq> 0"
  by (simp_all add: served_ok_def hub_room_def)

lemma hub_own_meter: "hub_own B T t h h1 \<Longrightarrow> hub_own B T t h (h1\<lparr>hs_meter := mt\<rparr>)"
  by (simp add: hub_own_def)

lemma submit_job_own: "served_ok B T tp t h \<Longrightarrow> hub_own B T t h (rp_hub (submit_job E B tp t req h))"
proof -
  assume ok: "served_ok B T tp t h"
  obtain x h1 where c: "choose_agent tp (tp_now tp 0) t (jr_AgentID req) (jr_Capability req) h = (x, h1)" by fastforce
  note own = choose_agent_own [OF served_okD(3) [OF ok] c]
  have inv: "hub_inv h1" "q_counter (hs_jobs h1) + 1 \<noteq> 0" using hub_own_inv [OF own(1)] own(2) served_okD(2,5) [OF ok] by auto
  show ?thesis
  proof (cases x)
    case (Some a)
    obtain j h2 where s: "on_jobs (\<lambda>q. jobs_SubmitWithOpts (bolt_persister B) q t a (jr_Capability req) (jr_Payload req)
        (jr_Priority req) (jr_TTLSeconds req) (tp_now tp 1)) h1 = (j, h2)" by fastforce
    from on_jobs_ops(1) [OF served_okD(1) [OF ok] inv(1) s inv(2)] have "hub_own B T t h1 h2" by blast
    with c Some s own(1) show ?thesis by (simp add: submit_job_def) (blast intro: hub_own_meter hub_own_trans)
  qed (use c own(1) in \<open>simp add: submit_job_def\<close>)
qed

lemma jobs_own_handlers:
  assumes "served_ok B T tp t h" "request_tenant E ctx = t"
  shows "hub_own B T t h (rp_hub (handle_jobs E B tp ctx m req h))"
    and "hub_own B T t h (rp_hub (handle_job E B tp ctx m path q body h))"
proof -
  show "hub_own B T t h (rp_hub (handle_jobs E B tp ctx m req h))"
    unfolding handle_jobs_def by (rule served_tenant [OF assms]) (simp add: submit_job_own split: option.splits)
  have "hub_own B T t h1 (rp_hub (claim_job E B tp t q h1))" if "served_ok B T tp t h1" for h1
    by (auto simp: claim_job_def Let_def split: prod.splits option.splits dest!: on_jobs_ops(2) [OF served_okD(1,2) [OF that]])
  moreover have "hub_own B T t h1 (rp_hub (patch_job E B tp t path body h1))" if "served_ok B T tp t h1" for h1
    using on_jobs_ops(3) [OF served_okD(1,2) [OF that]]
    by (auto simp: patch_job_def Let_def split: prod.splits option.splits bool.splits)
  moreover have "hub_own B T t h1 (rp_hub (delete_job E B tp t path h1))" if "served_ok B T tp t h1" for h1
    using on_jobs_ops(4) [OF served_okD(1,2) [OF that]]
    by (auto simp: delete_job_def split: prod.splits option.splits bool.splits)
  ultimately show "hub_own B T t h (rp_hub (handle_job E B tp ctx m path q body h))"
    unfolding handle_job_def by (intro served_tenant [OF assms]) (simp split: option.splits)
qed

lemma kv_own_handlers:
  assumes "served_ok B T tp t h" "request_tenant E ctx = t"
  shows "hub_own B T t h (rp_hub (handle_kv_list E B tp ctx m q h))"
    and "hub_own B T t h (rp_hub (handle_kv E B tp ctx m key body h))"
proof -
  show "hub_own B T t h (rp_hub (handle_kv_list E B tp ctx m q h))"
    unfolding handle_kv_list_def by (rule served_tenant [OF assms]) simp
  have kv: "hub_own B T t h1 (h1\<lparr>hs_kv := s\<rparr>)" if "\<forall>u. u \<noteq> t \<longrightarrow> s u = hs_kv h1 u" for h1 s using that by (simp add: hub_own_def)
  have "\<forall>u. u \<noteq> t \<longrightarrow> snd (kv_Delete s t key) u = s u" for s by (simp add: kv_Delete_def)
  then have del: "hub_own B T t h1 (h1\<lparr>hs_kv := s'\<rparr>)" if "kv_Delete (hs_kv h1) t key = (b, s')" for h1 b s'
    using that by (intro kv) (metis snd_conv)
  moreover have "hub_own B T t h1 (h1\<lparr>hs_kv := kv_Set (hs_kv h1) t key v ttl a b\<rparr>)" for h1 v ttl a b
    by (rule kv) (simp add: kv_Set_def)
  ultimately show "hub_own B T t h (rp_hub (handle_kv E B tp ctx m key body h))"
    unfolding handle_kv_def
    by (intro served_tenant [OF assms]) (simp add: Let_def split: option.splits prod.splits bool.splits)
qed

lemma rules_own_handlers:
  assumes "served_ok B T tp t h" "request_tenant E ctx = t"
  shows "hub_own B T t h (rp_hub (handle_notifications E B tp ctx m req h))"
    and "hub_own B T t h (rp_hub (handle_notification E B tp ctx m i body h))"
proof -
  have wf: "rules_wf ((hs_rules h1)\<lparr>nm_store := Some (hub_db h1)\<rparr>)" "bolt_ok B" if "served_ok B T tp t h1" for h1
    using that by (simp_all add: served_ok_def hub_inv_def)
  have "hub_own B T t h1 h2" if ok: "served_ok B T tp t h1" and s: "on_rules (\<lambda>n. notify_Add (bolt_persister B) n t a b c d e) h1 = (x, h2)"
    for h1 h2 a b c d e x
    using wf [OF ok] served_okD(6) [OF ok] by (intro on_rules_own [OF s] rule_Add_own) auto
  then show "hub_own B T t h (rp_hub (handle_notifications E B tp ctx m req h))"
    unfolding handle_notifications_def by (intro served_tenant [OF assms]) (auto split: option.splits prod.splits)
  have "hub_own B T t h1 h2" if ok: "served_ok B T tp t h1" and s: "on_rules (\<lambda>n. notify_Update (bolt_persister B) n t i p) h1 = (x, h2)" for h1 h2 p x
    using wf [OF ok] by (intro on_rules_own [OF s] rule_Update_own) auto
  moreover have "hub_own B T t h1 h2" if ok: "served_ok B T tp t h1" and s: "on_rules (\<lambda>n. notify_Delete (bolt_persister B) n t i) h1 = (x, h2)" for h1 h2 x
    using wf [OF ok] by (intro on_rules_own [OF s] rule_Delete_own) auto
  ultimately show "hub_own B T t h (rp_hub (handle_notification E B tp ctx m i body h))"
    unfolding handle_notification_def by (intro served_tenant [OF assms]) (auto split: option.splits prod.splits sum.splits bool.splits)
qed

lemma on_groups_ops:
  assumes "served_ok B T tp t h"
  shows "on_groups (\<lambda>g. groups_Create (bolt_persister B) g t n now) h = (x, h1) \<Longrightarrow> hub_own B T t h h1"
    and "on_groups (\<lambda>g. groups_Update (bolt_persister B) g t i nm) h = (y, h1) \<Longrightarrow> hub_own B T t h h1"
    and "on_groups (\<lambda>g. groups_Delete (bolt_persister B) g t i) h = (b, h1) \<Longrightarrow> hub_own B T t h h1"
    and "on_groups (\<lambda>g. groups_AddMemberWithWeight (bolt_persister B) g t i a w) h = (e, h1) \<Longrightarrow> hub_own B T t h h1"
    and "on_groups (\<lambda>g. groups_UpdateMemberWeight (bolt_persister B) g t i a w) h = (y, h1) \<Longrightarrow> hub_own B T t h h1"
    and "on_groups (\<lambda>g. groups_RemoveMember (bolt_persister B) g t i a) h = (e, h1) \<Longrightarrow> hub_own B T t h h1"
proof -
  have ok: "bolt_ok B" "groups_wf ((hs_groups h)\<lparr>gs_store := Some (hub_db h)\<rparr>)" "gs_counter ((hs_groups h)\<lparr>gs_store := Some (hub_db h)\<rparr>) + 1 \<noteq> 0"
    using assms served_okD(7) [OF assms] by (simp_all add: served_ok_def hub_inv_def)
  note own = group_Create_own [OF ok] group_Update_own [OF ok(1,2)] group_Delete_own [OF ok(1,2)] group_AddMember_own [OF ok(1,2)]
    group_Weight_own [OF ok(1,2)] group_RemoveMember_own [OF ok(1,2)]
  show "on_groups (\<lambda>g. groups_Create (bolt_persister B) g t n now) h = (x, h1) \<Longrightarrow> hub_own B T t h h1"
    by (erule on_groups_own) (rule own)
  show "on_groups (\<lambda>g. groups_Update (bolt_persister B) g t i nm) h = (y, h1) \<Longrightarrow> hub_own B T t h h1"
    by (erule on_groups_own) (rule own)
  show "on_groups (\<lambda>g. groups_Delete (bolt_persister B) g t i) h = (b, h1) \<Longrightarrow> hub_own B T t h h1"
    by (erule on_groups_own) (rule own)
  show "on_groups (\<lambda>g. groups_AddMemberWithWeight (bolt_persister B) g t i a w) h = (e, h1) \<Longrightarrow> hub_own B T t h h1"
    by (erule on_groups_own) (rule own)
  show "on_groups (\<lambda>g. groups_UpdateMemberWeight (bolt_persister B) g t i a w) h = (y, h1) \<Longrightarrow> hub_own B T t h h1"
    by (erule on_groups_own) (rule own)
  show "on_groups (\<lambda>g. groups_RemoveMember (bolt_persister B) g t i a) h = (e, h1) \<Longrightarrow> hub_own B T t h h1"
    by (erule on_groups_own) (rule own)
qed

lemma next_member_own: "hub_own B T t h (rp_hub (next_member E tp t i h))"
  by (auto simp: next_member_def Let_def hub_own_def group_Next_same split: prod.splits option.splits dest!: group_Next_same(1,2))

lemma groups_own_handlers:
  assumes "served_ok B T tp t h" "request_tenant E ctx = t"
  shows "hub_own B T t h (rp_hub (handle_groups E B tp ctx m n h))"
    and "hub_own B T t h (rp_hub (handle_group E B tp ctx m path body h))"
proof -
  show "hub_own B T t h (rp_hub (handle_groups E B tp ctx m n h))"
    unfolding handle_groups_def
    by (rule served_tenant [OF assms]) (simp split: option.splits prod.splits sum.splits add: on_groups_ops(1))
  have "hub_own B T t h1 (rp_hub (group_itself E B t m i body h1))" if "served_ok B T tp t h1" for h1 i
    by (simp add: group_itself_def on_groups_ops(2,3) [OF that] split: option.splits prod.splits sum.splits bool.splits)
  moreover have "hub_own B T t h1 (rp_hub (add_member E B t m i body h1))" if "served_ok B T tp t h1" for h1 i
    by (simp add: add_member_def Let_def on_groups_ops(4) [OF that] split: option.splits prod.splits)
  moreover have "hub_own B T t h1 (rp_hub (change_member E B t m i a body h1))" if "served_ok B T tp t h1" for h1 i a
    by (simp add: change_member_def Let_def on_groups_ops(5,6) [OF that] split: option.splits prod.splits sum.splits)
  ultimately show "hub_own B T t h (rp_hub (handle_group E B tp ctx m path body h))"
    unfolding handle_group_def by (intro served_tenant [OF assms]) (simp add: next_member_own split: list.splits)
qed

lemma on_pipes_ops:
  assumes "bolt_ok B" "hub_inv h"
  shows "on_pipes (\<lambda>p. pipelines_CreatePipeline (bolt_persister B) p t n ss now) h = (x, h1) \<Longrightarrow> pm_pipelineCounter (hs_pipes h) + 1 \<noteq> 0 \<Longrightarrow> hub_own B T t h h1"
    and "on_pipes (\<lambda>p. pipelines_UpdatePipeline (bolt_persister B) p t i nm so) h = (y, h1) \<Longrightarrow> hub_own B T t h h1"
    and "on_pipes (\<lambda>p. pipelines_DeletePipeline (bolt_persister B) p t i) h = (b, h1) \<Longrightarrow> hub_own B T t h h1"
    and "on_pipes (\<lambda>p. pipelines_StartRun (bolt_persister B) p t i input now) h = (z, h1) \<Longrightarrow> pm_runCounter (hs_pipes h) + 1 \<noteq> 0 \<Longrightarrow>
      hub_own B T t h h1 \<and> hs_jobs h1 = hs_jobs h"
    and "on_pipes (\<lambda>p. pipelines_RecordStageJob (bolt_persister B) p t i j now) h = (w, h1) \<Longrightarrow> hub_own B T t h h1"
    and "on_pipes (\<lambda>p. pipelines_AdvanceRun (bolt_persister B) p t i failed now) h = (v, h1) \<Longrightarrow> hub_own B T t h h1 \<and> hs_jobs h1 = hs_jobs h"
proof -
  let ?p = "(hs_pipes h)\<lparr>pm_store := Some (hub_db h)\<rparr>"
  have wf: "pipes_wf ?p" using assms(2) by (simp add: hub_inv_def)
  show "on_pipes (\<lambda>p. pipelines_CreatePipeline (bolt_persister B) p t n ss now) h = (x, h1) \<Longrightarrow> pm_pipelineCounter (hs_pipes h) + 1 \<noteq> 0 \<Longrightarrow> hub_own B T t h h1"
    by (erule on_pipes_own(1)) (rule pipe_Create_own [OF assms(1) wf], simp)
  show "on_pipes (\<lambda>p. pipelines_UpdatePipeline (bolt_persister B) p t i nm so) h = (y, h1) \<Longrightarrow> hub_own B T t h h1"
    by (erule on_pipes_own(1)) (rule pipe_Update_own [OF assms(1) wf])
  show "on_pipes (\<lambda>p. pipelines_DeletePipeline (bolt_persister B) p t i) h = (b, h1) \<Longrightarrow> hub_own B T t h h1"
    by (erule on_pipes_own(1)) (rule pipe_Delete_own [OF assms(1) wf])
  show "on_pipes (\<lambda>p. pipelines_StartRun (bolt_persister B) p t i input now) h = (z, h1) \<Longrightarrow> pm_runCounter (hs_pipes h) + 1 \<noteq> 0 \<Longrightarrow>
      hub_own B T t h h1 \<and> hs_jobs h1 = hs_jobs h"
    using run_Start_own [OF assms(1) wf, of t i input now] by (auto dest: on_pipes_own(1) on_pipes_own(2) [where B = B and t = t])
  show "on_pipes (\<lambda>p. pipelines_RecordStageJob (bolt_persister B) p t i j now) h = (w, h1) \<Longrightarrow> hub_own B T t h h1"
    by (erule on_pipes_own(1)) (rule run_Record_own [OF assms(1) wf])
  show "on_pipes (\<lambda>p. pipelines_AdvanceRun (bolt_persister B) p t i failed now) h = (v, h1) \<Longrightarrow> hub_own B T t h h1 \<and> hs_jobs h1 = hs_jobs h"
    using run_Advance_own [OF assms(1) wf, of t i failed now] by (auto dest: on_pipes_own(1) on_pipes_own(2) [where B = B and t = t])
qed

lemma submit_stage_own:
  assumes "bolt_ok B" "hub_inv h" "q_counter (hs_jobs h) + 1 \<noteq> 0" "tp_now tp 1 \<le> T"
  shows "hub_own B T t h (snd (submit_stage B tp t r s p h))"
proof -
  obtain x h1 where c: "choose_agent tp (tp_now tp 1) t (s_AgentID s) (s_Capability s) h = (x, h1)" by fastforce
  note own = choose_agent_own [OF assms(4) c]
  have inv: "hub_inv h1" "q_counter (hs_jobs h1) + 1 \<noteq> 0" using hub_own_inv [OF own(1)] own(2) assms(2,3) by auto
  show ?thesis
  proof (cases x)
    case (Some a)
    obtain j h2 where sb: "on_jobs (\<lambda>q. jobs_SubmitWithOpts (bolt_persister B) q t a (s_Capability s) (Some p) 0 0 (tp_now tp 2)) h1 = (j, h2)" by fastforce
    note o2 = on_jobs_ops(1) [OF assms(1) inv(1) sb inv(2), THEN conjunct1, of T]
    obtain y h3 where rc: "on_pipes (\<lambda>q. pipelines_RecordStageJob (bolt_persister B) q t (rn_ID r) (j_ID j) (tp_now tp 3)) h2 = (y, h3)" by fastforce
    note o3 = on_pipes_ops(5) [OF assms(1) hub_own_inv [OF o2 inv(1)] rc, of T]
    have "snd (submit_stage B tp t r s p h) = h3" using c Some sb rc by (simp add: submit_stage_def split: sum.splits)
    then show ?thesis using hub_own_trans [OF own(1) hub_own_trans [OF o2 o3]] by simp
  qed (use c own(1) in \<open>simp add: submit_stage_def\<close>)
qed

lemma stage_after:
  assumes "served_ok B T tp t h" "hub_own B T t h h1 \<and> hs_jobs h1 = hs_jobs h" "submit_stage B tp t r s p h1 = (x, h2)"
  shows "hub_own B T t h h2"
proof -
  note ok = served_okD [OF assms(1)] and own = conjunct1 [OF assms(2)]
  have "hub_own B T t h1 (snd (submit_stage B tp t r s p h1))"
    using ok(1,3,5) hub_own_inv [OF own ok(2)] assms(2) by (intro submit_stage_own) auto
  with hub_own_trans [OF own] assms(3) show ?thesis by simp
qed

lemma refuse_pipe_hub [simp]: "rp_hub (refuse_pipe quote e h) = h"
  by (simp add: refuse_pipe_def Let_def)

lemma pipes_own_handlers:
  assumes "served_ok B T tp t h" "request_tenant E ctx = t"
  shows "hub_own B T t h (rp_hub (handle_pipelines E B quote tp ctx m new h))"
    and "hub_own B T t h (rp_hub (handle_pipeline E B quote tp ctx m path body h))"
proof -
  note ops = on_pipes_ops [OF served_okD(1,2)]
  have "hub_own B T t h1 h2" if ok: "served_ok B T tp t h1"
      and s: "on_pipes (\<lambda>p. pipelines_CreatePipeline (bolt_persister B) p t a b c) h1 = (x, h2)" for h1 h2 a b c x
    by (rule ops(1) [OF ok ok s served_okD(8) [OF ok]])
  then show "hub_own B T t h (rp_hub (handle_pipelines E B quote tp ctx m new h))"
    unfolding handle_pipelines_def
    by (intro served_tenant [OF assms]) (simp split: option.splits prod.splits sum.splits)
  have it: "hub_own B T t h1 (rp_hub (pipeline_itself E B quote t m' i body h1))" if "served_ok B T tp t h1" for h1 i m'
    by (auto simp: pipeline_itself_def split: option.splits prod.splits sum.splits bool.splits dest: ops(2,3) [OF that that])
  have st: "hub_own B T t h1 (rp_hub (start_run E B quote tp t i body h1))" if ok: "served_ok B T tp t h1" for h1 i
  proof (cases body)
    case (Some b)
    obtain x h2 where s: "on_pipes (\<lambda>p. pipelines_StartRun (bolt_persister B) p t i (pb_Input b) (tp_now tp 0)) h1 = (x, h2)" by fastforce
    note o = ops(4) [OF ok ok s served_okD(9) [OF ok], of T]
    show ?thesis using Some s conjunct1 [OF o] stage_after [OF ok o]
      by (auto simp: start_run_def split: sum.splits prod.splits)
  qed (simp add: start_run_def)
  have ad: "hub_own B T t h1 (rp_hub (advance_run E B quote tp t i r body h1))" if ok: "served_ok B T tp t h1" for h1 i r
  proof (cases body)
    case (Some b)
    obtain x h2 where s: "on_pipes (\<lambda>p. pipelines_AdvanceRun (bolt_persister B) p t r (pb_Failed b) (tp_now tp 0)) h1 = (x, h2)" by fastforce
    note o = ops(6) [OF ok ok s, of T]
    show ?thesis using Some s conjunct1 [OF o] stage_after [OF ok o]
      by (auto simp: advance_run_def Let_def split: sum.splits prod.splits option.splits)
  qed (simp add: advance_run_def)
  show "hub_own B T t h (rp_hub (handle_pipeline E B quote tp ctx m path body h))"
    unfolding handle_pipeline_def by (rule served_tenant [OF assms]) (simp add: it st ad split: list.splits option.splits)
qed

lemma scheds_own_handlers:
  assumes "served_ok B T tp t h" "request_tenant E ctx = t"
  shows "hub_own B T t h (rp_hub (handle_schedules E B tp ctx m new h))"
    and "hub_own B T t h (rp_hub (handle_schedule E B tp ctx m i body h))"
proof -
  have wf: "bolt_ok B" "scheds_wf ((hs_scheds h1)\<lparr>sm_store := Some (hub_db h1)\<rparr>)" if "served_ok B T tp t h1" for h1
    using that by (simp_all add: served_ok_def hub_inv_def)
  have "hub_own B T t h1 h2" if ok: "served_ok B T tp t h1"
      and s: "on_scheds (\<lambda>s. sched_Add (bolt_persister B) s n t a c p d now) h1 = (x, h2)" for h1 h2 n a c p d now x
    using wf [OF ok] served_okD(10) [OF ok] by (intro on_scheds_own [OF s] sched_Add_own) auto
  then show "hub_own B T t h (rp_hub (handle_schedules E B tp ctx m new h))"
    unfolding handle_schedules_def by (intro served_tenant [OF assms]) (simp split: option.splits prod.splits sum.splits)
  have "hub_own B T t h1 h2" if ok: "served_ok B T tp t h1"
      and s: "on_scheds (\<lambda>s. sched_Update (bolt_persister B) s t i p) h1 = (x, h2)" for h1 h2 p x
    using wf [OF ok] served_okD(4) [OF ok] by (intro on_scheds_own [OF s] sched_Update_own) auto
  then have up: "hub_own B T t h1 (rp_hub (patch_schedule E B tp t i body h1))" if "served_ok B T tp t h1" for h1
    using that by (simp add: patch_schedule_def Let_def split: option.splits prod.splits sum.splits)
  have it: "hub_own B T t h1 (rp_hub (schedule_itself E B tp t m i body y h1))"
    if ok: "served_ok B T tp t h1" and own: "sm_schedules (hs_scheds h1) i = Some y" "sc_Tenant y = t" for h1 y
  proof -
    obtain b h2 where d: "on_scheds (\<lambda>sm. sched_Delete (bolt_persister B) sm i) h1 = (b, h2)" by fastforce
    have "hub_own B T t h1 h2" using wf [OF ok] own by (intro on_scheds_own [OF d] sched_Delete_own [where s = y]) auto
    with d up [OF ok] show ?thesis by (cases b) (simp_all add: schedule_itself_def)
  qed
  show "hub_own B T t h (rp_hub (handle_schedule E B tp ctx m i body h))"
    unfolding handle_schedule_def
    by (rule served_tenant [OF assms]) (simp add: it served_okD(4) [OF assms(1)] sched_Get_def split: option.splits)
qed

section \<open>Runs of requests\<close>

text \<open>A request to one of the handlers, with everything the handler reads.\<close>

datatype hub_req =
    Agents string query "update_request option"
  | RegisterAgent int string "register_request option"
  | HeartbeatAgent int string query
  | AgentStatus string query
  | AgentRoute string query
  | Jobs string "job_request option"
  | Job string string query "(string \<times> string \<times> string) option"
  | KvList string query
  | Kv string string "(string \<times> duration) option"
  | Notifications string "rule_request option"
  | Notification string string "rule_update option"
  | CircuitList string query
  | CircuitRecord string "(string \<times> bool) option"
  | CircuitReset string query
  | Groups string "string option"
  | Group string string "group_body option"
  | Pipelines string "(string \<times> stage list) option"
  | Pipeline string string "pipe_body option"
  | Schedules string "sched_request option"
  | Schedule string string "(sched_update \<times> int option) option"

fun hub_serve :: "api_env \<Rightarrow> 'db bolt \<Rightarrow> (string \<Rightarrow> string) \<Rightarrow> tape \<Rightarrow> string option \<Rightarrow> hub_req \<Rightarrow> 'db hub \<Rightarrow> 'db reply" where
  "hub_serve E B quote tp ctx (Agents m q b) = handle_agents E B tp ctx m q b"
| "hub_serve E B quote tp ctx (RegisterAgent ttl m b) = handle_agents_register E B ttl tp ctx m b"
| "hub_serve E B quote tp ctx (HeartbeatAgent ttl m q) = handle_agents_heartbeat E B ttl tp ctx m q"
| "hub_serve E B quote tp ctx (AgentStatus m q) = handle_agents_status E B tp ctx m q"
| "hub_serve E B quote tp ctx (AgentRoute m q) = handle_agents_route E B tp ctx m q"
| "hub_serve E B quote tp ctx (Jobs m b) = handle_jobs E B tp ctx m b"
| "hub_serve E B quote tp ctx (Job m path q b) = handle_job E B tp ctx m path q b"
| "hub_serve E B quote tp ctx (KvList m q) = handle_kv_list E B tp ctx m q"
| "hub_serve E B quote tp ctx (Kv m key b) = handle_kv E B tp ctx m key b"
| "hub_serve E B quote tp ctx (Notifications m b) = handle_notifications E B tp ctx m b"
| "hub_serve E B quote tp ctx (Notification m i b) = handle_notification E B tp ctx m i b"
| "hub_serve E B quote tp ctx (CircuitList m q) = handle_circuit E tp m q"
| "hub_serve E B quote tp ctx (CircuitRecord m b) = handle_circuit_record E tp m b"
| "hub_serve E B quote tp ctx (CircuitReset m q) = handle_circuit_reset E m q"
| "hub_serve E B quote tp ctx (Groups m b) = handle_groups E B tp ctx m b"
| "hub_serve E B quote tp ctx (Group m path b) = handle_group E B tp ctx m path b"
| "hub_serve E B quote tp ctx (Pipelines m b) = handle_pipelines E B quote tp ctx m b"
| "hub_serve E B quote tp ctx (Pipeline m path b) = handle_pipeline E B quote tp ctx m path b"
| "hub_serve E B quote tp ctx (Schedules m b) = handle_schedules E B tp ctx m b"
| "hub_serve E B quote tp ctx (Schedule m i b) = handle_schedule E B tp ctx m i b"

lemma circuit_own_handlers:
  "hub_own B T t h (rp_hub (handle_circuit E tp m q h))"
  "hub_own B T t h (rp_hub (handle_circuit_record E tp m b h))"
  "hub_own B T t h (rp_hub (handle_circuit_reset E m q h))"
  by (simp_all add: handle_circuit_def handle_circuit_record_def handle_circuit_reset_def on_circuit_def Let_def hub_own_def
      split: prod.splits option.splits)

lemma serve_own:
  assumes "served_ok B T tp t h" "request_tenant E ctx = t"
  shows "hub_own B T t h (rp_hub (hub_serve E B quote tp ctx r h))"
  by (cases r) (simp_all add: agents_own_handlers [OF assms] jobs_own_handlers [OF assms] kv_own_handlers [OF assms]
      rules_own_handlers [OF assms] groups_own_handlers [OF assms] pipes_own_handlers [OF assms] scheds_own_handlers [OF assms]
      circuit_own_handlers)

text \<open>A server that answers requests one after the other, up to instant \<open>T\<close>, none of which is on behalf
  of tenant \<open>u\<close>; the counters of the managers do not run out.\<close>

inductive hub_step :: "api_env \<Rightarrow> 'db bolt \<Rightarrow> (string \<Rightarrow> string) \<Rightarrow> instant \<Rightarrow> string \<Rightarrow> 'db hub \<Rightarrow> 'db hub \<Rightarrow> bool"
  for E B quote T u where
  serve: "request_tenant E ctx \<noteq> u \<Longrightarrow> request_tenant E ctx \<noteq> [] \<Longrightarrow> no_slash (request_tenant E ctx) \<Longrightarrow>
    \<forall>n. tp_now tp n \<le> T \<Longrightarrow> hub_room h \<Longrightarrow> hub_step E B quote T u h (rp_hub (hub_serve E B quote tp ctx r h))"

text \<open>Everything the server holds for tenant \<open>u\<close>, in memory and in the database.\<close>

definition same_for :: "'db bolt \<Rightarrow> instant \<Rightarrow> string \<Rightarrow> 'db hub \<Rightarrow> 'db hub \<Rightarrow> bool" where
  "same_for B T u h h' \<longleftrightarrow>
     recs_of j_Tenant u (q_jobs (hs_jobs h')) = recs_of j_Tenant u (q_jobs (hs_jobs h)) \<and>
     recs_of nr_Tenant u (nm_rules (hs_rules h')) = recs_of nr_Tenant u (nm_rules (hs_rules h)) \<and>
     recs_of g_Tenant u (gs_groups (hs_groups h')) = recs_of g_Tenant u (gs_groups (hs_groups h)) \<and>
     recs_of p_Tenant u (pm_pipelines (hs_pipes h')) = recs_of p_Tenant u (pm_pipelines (hs_pipes h)) \<and>
     recs_of rn_Tenant u (pm_runs (hs_pipes h')) = recs_of rn_Tenant u (pm_runs (hs_pipes h)) \<and>
     recs_of sc_Tenant u (sm_schedules (hs_scheds h')) = recs_of sc_Tenant u (sm_schedules (hs_scheds h)) \<and>
     hs_kv h' u = hs_kv h u \<and> tm_tenants (hs_tm h') u = tm_tenants (hs_tm h) u \<and>
     (\<forall>i. visible (hs_agents h') (agentKey u i) T = visible (hs_agents h) (agentKey u i) T) \<and>
     tenant_view B (hub_db h') u = tenant_view B (hub_db h) u"

lemma own_same_for: "hub_own B T t h h' \<Longrightarrow> u \<noteq> t \<Longrightarrow> no_slash u \<Longrightarrow> no_slash t \<Longrightarrow> same_for B T u h h'"
  unfolding hub_own_def same_for_def agents_own_def foreign_kept_def
  by (elim conjE, intro conjI) (erule (1) own_foreign | simp)+

lemma step_same_for:
  assumes "hub_step E B quote T u h h'" "bolt_ok B" "hub_inv h" "no_slash u"
  shows "same_for B T u h h' \<and> hub_inv h'"
  using assms(1)
proof cases
  case (serve ctx tp r)
  have "served_ok B T tp (request_tenant E ctx) h" using serve assms(2,3) by (simp add: served_ok_def)
  note own = serve_own [OF this refl, of quote r]
  from own_same_for [OF own] hub_own_inv [OF own assms(3)] serve assms(4) show ?thesis by auto
qed


definition ex_tape :: tape where
  "ex_tape = \<lparr>tp_clock = demo_clock, tp_now = (\<lambda>_. 5), tp_agents = [], tp_jobs = [], tp_recs = []\<rparr>"

definition ex_hub :: "memdb hub" where
  "ex_hub = \<lparr>hs_tm = \<lparr>tm_store = mem0, tm_tenants = [''acme'' \<mapsto> \<lparr>st_chain = [], st_router = []\<rparr>]\<rparr>, hs_agents = Map.empty,
     hs_jobs = jobs_NewQueue, hs_pipes = pipelines_New, hs_groups = groups_New, hs_scheds = sched_New, hs_rules = notify_New,
     hs_kv = [''beta'' \<mapsto> [''k'' \<mapsto> \<lparr>e_Key = ''k'', e_Value = ''secret'', e_Tenant = ''beta'', e_ExpiresAt = None, e_UpdatedAt = 1\<rparr>]],
     hs_circuit = circuit_New 3 0, hs_meter = billing_New 0\<rparr>"

lemma ex_tenant: "request_tenant demo_env (Some ''acme'') = ''acme''"
  by (simp add: request_tenant_def trim_space_def is_space_def)

lemma ex_with_tenant: "with_tenant demo_env membolt tp (Some ''acme'') ex_hub k = k ''acme'' ex_hub"
  by (simp add: with_tenant_def getState_def ex_tenant getTenant_cached ex_hub_def Let_def)

lemma ex_hub_ok: "hub_inv ex_hub" "hub_room ex_hub"
  by (simp_all add: hub_inv_def hub_room_def ex_hub_def rec_inv_def jobs_NewQueue_def pipelines_New_def groups_New_def sched_New_def notify_New_def)


end
