(* ===== verification/Workflows.thy ===== *)
theory Workflows
  imports Isolation
begin

text \<open>
  The pipelines, the agent registry and the job queue working together: a run that is started has
  the job of its first stage in the queue; a stage for which no agent is alive is given up silently
  when the caller repeats the request.
\<close>

section \<open>Starting a run\<close>

lemma on_pipes_eq: "on_pipes f h = (x, h1) \<longleftrightarrow>
    (\<exists>m. f ((hs_pipes h)\<lparr>pm_store := Some (hub_db h)\<rparr>) = (x, m) \<and> h1 = put_db (pm_store m) (h\<lparr>hs_pipes := m\<rparr>))"
  by (auto simp: on_pipes_def split: prod.splits)

lemma on_jobs_eq: "on_jobs f h = (x, h1) \<longleftrightarrow>
    (\<exists>q. f ((hs_jobs h)\<lparr>q_store := Some (hub_db h)\<rparr>) = (x, q) \<and> h1 = put_db (q_store q) (h\<lparr>hs_jobs := q\<rparr>))"
  by (auto simp: on_jobs_def split: prod.splits)

lemma get_store [simp]:
  "pipelines_GetRun (m\<lparr>pm_store := st\<rparr>) t i = pipelines_GetRun m t i"
  "pipelines_GetPipeline (m\<lparr>pm_store := st\<rparr>) t i = pipelines_GetPipeline m t i"
  by (simp_all add: pipelines_GetRun_def pipelines_GetPipeline_def)

text \<open>An agent that may be given the job of a stage.\<close>

definition able :: "registry \<Rightarrow> instant \<Rightarrow> string \<Rightarrow> string \<Rightarrow> agent \<Rightarrow> bool" where
  "able r now t c a \<longleftrightarrow> a \<in> ran r \<and> \<not> agent_dead now a \<and> (t = [] \<or> a_TenantID a = t) \<and> (c = [] \<or> c \<in> set (a_Capabilities a))"

lemma FindBest_able:
  assumes "iter_order r ks" "agents_FindBest r t c ks now = (x, r')"
  shows "case x of None \<Rightarrow> \<not> (\<exists>a. able r now t c a) | Some a \<Rightarrow> able r now t c a"
proof -
  obtain cs r1 where l: "agents_ListByCapability r t c ks now = (cs, r1)" by fastforce
  have x: "x = select_best (\<lambda>_. True) agent_better None cs" using assms(2) l by (cases cs) (auto simp: agents_FindBest_def)
  have mem: "a \<in> set cs \<longleftrightarrow> able r now t c a" for a using ListByCapability_spec [OF assms(1) l] by (simp add: able_def)
  show ?thesis
  proof (cases x)
    case None
    with x have "select_best (\<lambda>_. True) agent_better None cs = None" by simp
    then have "cs = []" by (simp add: select_best_None)
    with None mem show ?thesis by auto
  next
    case (Some a)
    with x have "select_best (\<lambda>_. True) agent_better None cs = Some a" by simp
    from select_best_mem [OF this] mem have "able r now t c a" by simp
    then show ?thesis by (simp add: Some)
  qed
qed

lemma choose_agent_cases:
  assumes "choose_agent tp now t a c h = (x, h1)" "iter_order (hs_agents h) (tp_agents tp)"
  obtains (named) "a \<noteq> []" "x = Some a" "h1 = h"
  | (found) b r where "a = []" "x = Some (a_ID b)" "able (hs_agents h) now t c b" "h1 = h\<lparr>hs_agents := r\<rparr>"
  | (none) r where "a = []" "x = None" "\<not> (\<exists>b. able (hs_agents h) now t c b)" "h1 = h\<lparr>hs_agents := r\<rparr>"
proof (cases "a = []")
  case True
  obtain y r where f: "agents_FindBest (hs_agents h) t c (tp_agents tp) now = (y, r)" by fastforce
  with assms(1) True have "x = map_option a_ID y" "h1 = h\<lparr>hs_agents := r\<rparr>" by (simp_all add: choose_agent_def on_agents_def)
  with FindBest_able [OF assms(2) f] found none True show thesis by (cases y) auto
next
  case False
  with assms(1) named show thesis by (simp add: choose_agent_def)
qed

lemma submit_stage_ok:
  assumes "submit_stage B tp t r s p h = (Inr (r', j), h')" "iter_order (hs_agents h) (tp_agents tp)"
    and "pipelines_GetRun (hs_pipes h) t (rn_ID r) = Some r"
  shows "r' = r\<lparr>rn_JobIDs := rn_JobIDs r @ [j_ID j], rn_UpdatedAt := tp_now tp 3\<rparr>" "pm_runs (hs_pipes h') (rn_ID r) = Some r'"
    and "q_jobs (hs_jobs h') (j_ID j) = Some j" "j_Tenant j = t" "j_Status j = StatusPending" "j_Capability j = s_Capability s"
    "j_Payload j = Some p"
    and "if s_AgentID s \<noteq> [] then j_AgentID j = s_AgentID s
      else \<exists>b. able (hs_agents h) (tp_now tp 1) t (s_Capability s) b \<and> j_AgentID j = a_ID b"
proof -
  obtain x h1 where c: "choose_agent tp (tp_now tp 1) t (s_AgentID s) (s_Capability s) h = (x, h1)" by fastforce
  with assms(1) obtain a where x: "x = Some a" by (cases x) (auto simp: submit_stage_def)
  from c assms(2) have hp: "hs_pipes h1 = hs_pipes h" by (cases rule: choose_agent_cases) auto
  let ?q = "(hs_jobs h1)\<lparr>q_store := Some (hub_db h1)\<rparr>"
  obtain j0 q' where s: "jobs_SubmitWithOpts (bolt_persister B) ?q t a (s_Capability s) (Some p) 0 0 (tp_now tp 2) = (j0, q')" by fastforce
  let ?h2 = "put_db (q_store q') (h1\<lparr>hs_jobs := q'\<rparr>)"
  let ?r = "r\<lparr>rn_JobIDs := rn_JobIDs r @ [j_ID j0], rn_UpdatedAt := tp_now tp 3\<rparr>"
  have "pipelines_RecordStageJob (bolt_persister B) ((hs_pipes ?h2)\<lparr>pm_store := Some (hub_db ?h2)\<rparr>) t (rn_ID r) (j_ID j0) (tp_now tp 3) =
      (Inr ?r, put_run (bolt_persister B) ?r ((hs_pipes ?h2)\<lparr>pm_store := Some (hub_db ?h2)\<rparr>))"
    using assms(3) hp by (simp add: pipelines_RecordStageJob_def Let_def)
  with assms(1) c x s have res: "r' = ?r" "j = j0"
      "\<exists>st. h' = put_db st (?h2\<lparr>hs_pipes := put_run (bolt_persister B) ?r ((hs_pipes ?h2)\<lparr>pm_store := Some (hub_db ?h2)\<rparr>)\<rparr>)"
    by (auto simp: submit_stage_def on_jobs_def on_pipes_def)
  have j: "j0 = \<lparr>j_ID = numbered ''job-'' (q_counter ?q + 1), j_Tenant = t, j_AgentID = a, j_Capability = s_Capability s, j_Payload = Some p,
      j_Priority = 0, j_TTLSeconds = 0, j_Status = StatusPending, j_Result = [], j_Error = [], j_CreatedAt = tp_now tp 2, j_UpdatedAt = tp_now tp 2,
      j_ExpiresAt = None\<rparr>" and q: "q_jobs q' (j_ID j0) = Some j0"
    using s by (auto simp: jobs_SubmitWithOpts_def Let_def)
  show "r' = r\<lparr>rn_JobIDs := rn_JobIDs r @ [j_ID j], rn_UpdatedAt := tp_now tp 3\<rparr>" using res by simp
  show "pm_runs (hs_pipes h') (rn_ID r) = Some r'" using res by (auto simp: put_run_def)
  show "q_jobs (hs_jobs h') (j_ID j) = Some j" using res q by auto
  show "j_Tenant j = t" "j_Status j = StatusPending" "j_Capability j = s_Capability s" "j_Payload j = Some p" using res(2) j by simp_all
  show "if s_AgentID s \<noteq> [] then j_AgentID j = s_AgentID s
      else \<exists>b. able (hs_agents h) (tp_now tp 1) t (s_Capability s) b \<and> j_AgentID j = a_ID b"
    using c assms(2) x res(2) j by (cases rule: choose_agent_cases) auto
qed

text \<open>C20. A run that is answered with 201 has its first stage under way: the run is stored as running at
  stage 0 with one job, and that job is pending in the queue for the tenant, with the capability of the
  stage, its payload overridden by the input of the request, and an agent that the stage names or that is
  alive, belongs to the tenant and has the capability.\<close>

theorem started_run_has_job:
  assumes rep_def: "rep = start_run E B quote tp t pid (Some b) h"
    and "rp_result rep = Answer code (RunJobC r (Some j))"
    and "iter_order (hs_agents h) (tp_agents tp)" "distinct (map fst (payload_entries (pb_Input b)))"
    and "\<forall>p s. pm_pipelines (hs_pipes h) pid = Some p \<and> s \<in> set (p_Stages p) \<longrightarrow> distinct (map fst (payload_entries (s_Payload s)))"
  shows "\<exists>p s ss. pm_pipelines (hs_pipes h) pid = Some p \<and> p_Tenant p = t \<and> p_Stages p = s # ss \<and> code = 201 \<and>
    rn_PipelineID r = pid \<and> rn_Tenant r = t \<and> rn_Status r = RunStatusRunning \<and> rn_CurrentStage r = 0 \<and> rn_JobIDs r = [j_ID j] \<and>
    pm_runs (hs_pipes (rp_hub rep)) (rn_ID r) = Some r \<and> q_jobs (hs_jobs (rp_hub rep)) (j_ID j) = Some j \<and>
    j_Tenant j = t \<and> j_Status j = StatusPending \<and> j_Capability j = s_Capability s \<and>
    map_of (payload_entries (j_Payload j)) = map_of (payload_entries (s_Payload s)) ++ map_of (payload_entries (pb_Input b)) \<and>
    (if s_AgentID s \<noteq> [] then j_AgentID j = s_AgentID s
     else \<exists>a. able (hs_agents h) (tp_now tp 1) t (s_Capability s) a \<and> j_AgentID j = a_ID a)"
proof -
  let ?m = "(hs_pipes h)\<lparr>pm_store := Some (hub_db h)\<rparr>"
  obtain x m where st: "pipelines_StartRun (bolt_persister B) ?m t pid (pb_Input b) (tp_now tp 0) = (x, m)" by fastforce
  let ?h1 = "put_db (pm_store m) (h\<lparr>hs_pipes := m\<rparr>)"
  from assms(2) st obtain r0 s where x: "x = Inr (r0, s)"
    by (cases x) (auto simp: rep_def start_run_def on_pipes_def refuse_pipe_def Let_def split: if_splits)
  let ?p = "copy_into (pb_Input b) (copy_into (s_Payload s) [])"
  obtain y h2 where sub: "submit_stage B tp t r0 s ?p ?h1 = (y, h2)" by fastforce
  with assms(2) st x have y: "y = Inr (r, j)" and code: "code = 201" and hub: "rp_hub rep = h2"
    by (auto simp: rep_def start_run_def on_pipes_def split: sum.splits)
  from st x obtain p ss where p: "pm_pipelines (hs_pipes h) pid = Some p" "p_Tenant p = t" "p_Stages p = s # ss"
    by (auto simp: pipelines_StartRun_def pipelines_GetPipeline_def Let_def split: option.splits if_splits list.splits)
  from st x have r0: "rn_PipelineID r0 = pid" "rn_Tenant r0 = t" "rn_Status r0 = RunStatusRunning" "rn_CurrentStage r0 = 0" "rn_JobIDs r0 = []"
      "pm_runs m (rn_ID r0) = Some r0"
    by (auto simp: pipelines_StartRun_def Let_def put_run_def split: option.splits list.splits)
  then have get: "pipelines_GetRun (hs_pipes ?h1) t (rn_ID r0) = Some r0" by (simp add: pipelines_GetRun_def)
  have it: "iter_order (hs_agents ?h1) (tp_agents tp)" using assms(3) by simp
  note ok = submit_stage_ok [OF sub [unfolded y] it get]
  have "distinct (map fst (payload_entries (s_Payload s)))" using assms(5) p by auto
  from copy_into_map [OF _ this, of "[]"] copy_into_map [OF _ assms(4)]
  have pay: "map_of ?p = map_of (payload_entries (s_Payload s)) ++ map_of (payload_entries (pb_Input b))" by simp
  have ag: "if s_AgentID s \<noteq> [] then j_AgentID j = s_AgentID s
      else \<exists>a. able (hs_agents h) (tp_now tp 1) t (s_Capability s) a \<and> j_AgentID j = a_ID a" 
  proof -
    have "hs_agents ?h1 = hs_agents h" by simp
    then show ?thesis using ok(8) by (simp only:)
  qed
  have "payload_entries (j_Payload j) = ?p" using ok(7) by (simp add: payload_entries_def)
  with p r0 code ok(1-6) pay ag show ?thesis unfolding hub by (intro exI [of _ p] exI [of _ s] exI [of _ ss]) simp
qed

lemma submit_stage_named:
  assumes "s_AgentID s \<noteq> []"
  shows "\<exists>r' j h'. submit_stage B tp t r s p h = (Inr (r', j), h')"
  using assms by (auto simp: submit_stage_def choose_agent_def split: prod.splits sum.splits)

definition ex_run_hub :: "stage list \<Rightarrow> (string \<Rightarrow> run option) \<Rightarrow> memdb hub" where
  "ex_run_hub ss rs = ex_hub\<lparr>hs_pipes := pipelines_New\<lparr>pm_pipelines :=
     [''p1'' \<mapsto> \<lparr>p_ID = ''p1'', p_Tenant = ''acme'', p_Name = ''etl'', p_Stages = ss, p_CreatedAt = 1\<rparr>], pm_runs := rs\<rparr>\<rparr>"

definition ex_body :: pipe_body where
  "ex_body = \<lparr>pb_Name = None, pb_Stages = None, pb_Input = Some [(''x'', JInt 2)], pb_Result = [], pb_Failed = False\<rparr>"

lemma ex_start_answered:
  assumes "s_AgentID s \<noteq> []"
  shows "\<exists>r j. rp_result (start_run demo_env membolt id ex_tape ''acme'' ''p1'' (Some ex_body) (ex_run_hub [s] Map.empty)) = Answer 201 (RunJobC r (Some j))"
proof -
  let ?h = "ex_run_hub [s] Map.empty"
  obtain x h1 where o: "on_pipes (\<lambda>p. pipelines_StartRun (bolt_persister membolt) p ''acme'' ''p1'' (pb_Input ex_body) (tp_now ex_tape 0)) ?h = (x, h1)" by fastforce
  then obtain r where x: "x = Inr (r, s)"
    by (auto simp: on_pipes_def ex_run_hub_def pipelines_StartRun_def pipelines_GetPipeline_def Let_def)
  obtain r' j h' where "submit_stage membolt ex_tape ''acme'' r s (copy_into (pb_Input ex_body) (copy_into (s_Payload s) [])) h1 = (Inr (r', j), h')"
    using submit_stage_named [OF assms] by blast
  with o x show ?thesis by (simp add: start_run_def)
qed

theorem started_run_has_job_witness:
  "\<exists>r j. rp_result (start_run demo_env membolt id ex_tape ''acme'' ''p1'' (Some ex_body)
        (ex_run_hub [\<lparr>s_Name = ''a'', s_AgentID = ''w'', s_Capability = ''c'', s_Payload = Some [(''x'', JInt 1), (''y'', JInt 3)]\<rparr>] Map.empty)) =
      Answer 201 (RunJobC r (Some j)) \<and> j_AgentID j = ''w'' \<and> rn_JobIDs r = [j_ID j] \<and>
      map_of (payload_entries (j_Payload j)) = [''x'' \<mapsto> JInt 2, ''y'' \<mapsto> JInt 3]"
proof -
  let ?s = "\<lparr>s_Name = ''a'', s_AgentID = ''w'', s_Capability = ''c'', s_Payload = Some [(''x'', JInt 1), (''y'', JInt 3)]\<rparr>"
  let ?h = "ex_run_hub [?s] Map.empty"
  let ?rep = "start_run demo_env membolt id ex_tape ''acme'' ''p1'' (Some ex_body) ?h"
  obtain r j where a: "rp_result ?rep = Answer 201 (RunJobC r (Some j))" using ex_start_answered [of ?s] by auto
  from started_run_has_job [OF refl a] have "j_AgentID j = ''w''" "rn_JobIDs r = [j_ID j]"
      "map_of (payload_entries (j_Payload j)) = [''x'' \<mapsto> JInt 1, ''y'' \<mapsto> JInt 3] ++ [''x'' \<mapsto> JInt 2]"
    by (auto simp: ex_run_hub_def ex_hub_def ex_tape_def ex_body_def payload_entries_def iter_order_def)
  with a show ?thesis by (auto simp: fun_eq_iff map_add_def)
qed

section \<open>A stage without an agent\<close>

lemma submit_stage_none:
  assumes "s_AgentID s = []" "\<not> (\<exists>a. able (hs_agents h) (tp_now tp 1) t (s_Capability s) a)" "iter_order (hs_agents h) (tp_agents tp)"
  shows "\<exists>rg. submit_stage B tp t r s p h = (Inl (no_agent_msg (s_Capability s)), h\<lparr>hs_agents := rg\<rparr>)"
proof -
  obtain x h1 where c: "choose_agent tp (tp_now tp 1) t (s_AgentID s) (s_Capability s) h = (x, h1)" by fastforce
  from c assms(3) show ?thesis using assms(1,2) c by (cases rule: choose_agent_cases) (auto simp: submit_stage_def)
qed

lemma advance_refused:
  assumes "pipelines_AdvanceRun (bolt_persister B) ((hs_pipes h)\<lparr>pm_store := Some (hub_db h)\<rparr>) t rid (pb_Failed b) (tp_now tp 0) = (Inr (r1, Some s), m)"
    and "s_AgentID s = []" "\<not> (\<exists>a. able (hs_agents h) (tp_now tp 1) t (s_Capability s) a)" "iter_order (hs_agents h) (tp_agents tp)"
  shows "\<exists>rg. advance_run E B quote tp t pid rid (Some b) h =
    refuse 503 (no_agent_msg (s_Capability s)) ((put_db (pm_store m) (h\<lparr>hs_pipes := m\<rparr>))\<lparr>hs_agents := rg\<rparr>)"
proof -
  let ?h1 = "put_db (pm_store m) (h\<lparr>hs_pipes := m\<rparr>)"
  define q where "q = (let p0 = copy_into (s_Payload s) [] in if pb_Result b \<noteq> [] then put_entry ''_prev_result'' (JStr (pb_Result b)) p0 else p0)"
  have "\<not> (\<exists>a. able (hs_agents ?h1) (tp_now tp 1) t (s_Capability s) a)" "iter_order (hs_agents ?h1) (tp_agents tp)" using assms(3,4) by simp_all
  from submit_stage_none [OF assms(2) this, of B r1 q] obtain rg
    where "submit_stage B tp t r1 s q ?h1 = (Inl (no_agent_msg (s_Capability s)), ?h1\<lparr>hs_agents := rg\<rparr>)" by blast
  then show ?thesis using assms(1) unfolding q_def by (intro exI [of _ rg]) (simp add: advance_run_def on_pipes_def Let_def)
qed

text \<open>C24. A stage is skipped when no agent is alive for it: the request to advance a run to its last stage
  is answered with 503, but the run has already moved to that stage, without a job; when the caller
  repeats the request, the run is answered with 200 and is done, and no job was ever submitted for the
  stage.\<close>

theorem unserved_stage_skipped:
  assumes wf: "pipes_wf (hs_pipes h)" and run: "pipelines_GetRun (hs_pipes h) t rid = Some r" "rn_Status r = RunStatusRunning"
    and p: "pm_pipelines (hs_pipes h) (rn_PipelineID r) = Some p" "length (p_Stages p) = i + 2" "int (i + 2) < 2 ^ 63" "rn_CurrentStage r = int i"
    and s: "s_AgentID (p_Stages p ! (i + 1)) = []" "iter_order (hs_agents h) (tp_agents tp)"
      "\<not> (\<exists>a. able (hs_agents h) (tp_now tp 1) t (s_Capability (p_Stages p ! (i + 1))) a)"
    and b: "\<not> pb_Failed b" "\<not> pb_Failed b'"
    and rep: "rep = advance_run E B quote tp t pid rid (Some b) h" "rep' = advance_run E B quote tp' t pid' rid (Some b') (rp_hub rep)"
  shows "rp_result rep = Refused 503 (no_agent_msg (s_Capability (p_Stages p ! (i + 1)))) \<and>
    (\<exists>r'. rp_result rep' = Answer 200 (RunJobC r' None) \<and> rn_Status r' = RunStatusDone \<and> rn_JobIDs r' = rn_JobIDs r \<and>
      pm_runs (hs_pipes (rp_hub rep')) rid = Some r' \<and> q_jobs (hs_jobs (rp_hub rep')) = q_jobs (hs_jobs h))"
proof -
  note r = run_GetD [OF wf run(1)]
  let ?s = "p_Stages p ! (i + 1)" and ?P = "bolt_persister B"
  let ?m = "(hs_pipes h)\<lparr>pm_store := Some (hub_db h)\<rparr>" and ?r1 = "r\<lparr>rn_UpdatedAt := tp_now tp 0, rn_CurrentStage := int (i + 1)\<rparr>"
  have n1: "i64 (rn_CurrentStage r + 1) = int (i + 1)" and n2: "i64 (int (i + 1) + 1) = int (i + 2)"
    using p(3,4) by (simp_all add: i64_id is_i64_def)
  have adv1: "pipelines_AdvanceRun ?P ?m t rid False (tp_now tp 0) = (Inr (?r1, Some ?s), put_run ?P ?r1 ?m)"
    using run p n1 by (simp add: pipelines_AdvanceRun_def Let_def nat_add_distrib)
  from advance_refused [of B h t rid b tp, unfolded iffD2 [OF eq_False b(1)], OF adv1 s(1,3,2), of E quote pid]
  have one: "rp_result rep = Refused 503 (no_agent_msg (s_Capability ?s))" "hs_jobs (rp_hub rep) = hs_jobs h"
      "hs_pipes (rp_hub rep) = put_run ?P ?r1 ?m"
    unfolding rep(1) by auto
  let ?m' = "(hs_pipes (rp_hub rep))\<lparr>pm_store := Some (hub_db (rp_hub rep))\<rparr>" and ?r2 = "?r1\<lparr>rn_UpdatedAt := tp_now tp' 0, rn_Status := RunStatusDone\<rparr>"
  have "pipelines_GetRun ?m' t rid = Some ?r1" using r by (simp add: one(3) put_run_def pipelines_GetRun_def)
  then have adv2: "pipelines_AdvanceRun ?P ?m' t rid False (tp_now tp' 0) = (Inr (?r2, None), put_run ?P ?r2 ?m')"
    using run(2) p n2 by (simp add: pipelines_AdvanceRun_def Let_def one(3) put_run_def)
  have "rp_result rep' = Answer 200 (RunJobC ?r2 None)" "pm_runs (hs_pipes (rp_hub rep')) rid = Some ?r2" "hs_jobs (rp_hub rep') = hs_jobs h"
    using adv2 b(2) r one(2) unfolding rep(2) advance_run_def on_pipes_def by (simp_all add: put_run_def)
  with one(1) show ?thesis by (intro conjI exI [of _ ?r2]) simp_all
qed

theorem unserved_stage_skipped_witness:
  "\<exists>h r' rep'. rp_result (advance_run demo_env membolt id ex_tape ''acme'' ''p1'' ''r1'' (Some ex_body) h) = Refused 503 (no_agent_msg ''gpu'') \<and>
     rep' = advance_run demo_env membolt id ex_tape ''acme'' ''p1'' ''r1'' (Some ex_body)
       (rp_hub (advance_run demo_env membolt id ex_tape ''acme'' ''p1'' ''r1'' (Some ex_body) h)) \<and>
     rp_result rep' = Answer 200 (RunJobC r' None) \<and> rn_Status r' = RunStatusDone \<and> rn_JobIDs r' = [''job-1'']"
proof -
  let ?st = "\<lambda>a c. \<lparr>s_Name = ''s'', s_AgentID = a, s_Capability = c, s_Payload = None\<rparr>"
  let ?r = "\<lparr>rn_ID = ''r1'', rn_PipelineID = ''p1'', rn_Tenant = ''acme'', rn_Status = RunStatusRunning, rn_CurrentStage = 0,
    rn_JobIDs = [''job-1''], rn_Input = None, rn_CreatedAt = 1, rn_UpdatedAt = 1\<rparr>"
  let ?p = "\<lparr>p_ID = ''p1'', p_Tenant = ''acme'', p_Name = ''etl'', p_Stages = [?st ''w'' ''c'', ?st [] ''gpu''], p_CreatedAt = 1\<rparr>"
  let ?h = "ex_run_hub (p_Stages ?p) [''r1'' \<mapsto> ?r]"
  let ?rep = "advance_run demo_env membolt id ex_tape ''acme'' ''p1'' ''r1'' (Some ex_body) ?h"
  have "parsePipelineNum ''p1'' = 0" "parseRunNum ''r1'' = 0" by (code_simp)+
  then have wf: "pipes_wf (hs_pipes ?h)" by (simp add: ex_run_hub_def rec_inv_def pipelines_New_def)
  have run: "pipelines_GetRun (hs_pipes ?h) ''acme'' ''r1'' = Some ?r" by (simp add: ex_run_hub_def pipelines_GetRun_def)
  have p: "pm_pipelines (hs_pipes ?h) (rn_PipelineID ?r) = Some ?p" by (simp add: ex_run_hub_def)
  have ag: "iter_order (hs_agents ?h) (tp_agents ex_tape)" "\<not> (\<exists>a. able (hs_agents ?h) (tp_now ex_tape 1) ''acme'' ''gpu'' a)"
    by (simp_all add: ex_run_hub_def ex_hub_def able_def iter_order_def ex_tape_def)
  have b: "\<not> pb_Failed ex_body" by (simp add: ex_body_def)
  from unserved_stage_skipped [OF wf run _ p, of 0 ex_tape, OF _ _ _ _ _ ag(1) _ b b refl refl, of demo_env membolt id "''p1''" ex_tape "''p1''"] ag(2)
  show ?thesis by (intro exI [of _ ?h]) auto
qed

end
