(* ===== verification/FetchGuard.thy ===== *)
theory FetchGuard
  imports NetAddr JsonText
begin

text \<open>
  The capability \<^verbatim>\<open>http-fetch\<close> of the agent (\<^verbatim>\<open>cmd/spectral-agent/main.go\<close>)
  fetches a URL a job names, and must not be used to reach the network the agent lives in. The URL, every
  redirect and every host that is dialled are checked: \<open>validateFetchURL\<close>, \<open>validateFetchHost\<close>,
  \<open>blockedFetchIP\<close>. The resolver is an argument, a function from the number of the lookup to what this lookup
  answers for a name, because two lookups of one name may answer differently; so is the peer, a function
  from the number of the request and its URL to the response. A proxy is not configured.
\<close>

unbundle bit_operations_syntax

section \<open>Classes of addresses\<close>

text \<open>The methods of \<^verbatim>\<open>net.IP\<close>.\<close>

definition ip_IsPrivate :: "ip \<Rightarrow> bool" where
  "ip_IsPrivate a = (case ip_To4 a of
     Some b \<Rightarrow> b ! 0 = 10 \<or> (b ! 0 = 172 \<and> b ! 1 AND 0xf0 = 16) \<or> (b ! 0 = 192 \<and> b ! 1 = 168)
   | None \<Rightarrow> length a = 16 \<and> a ! 0 AND 0xfe = 0xfc)"

definition ip_IsUnspecified :: "ip \<Rightarrow> bool" where
  "ip_IsUnspecified a \<longleftrightarrow> ip_To4 a = Some [0, 0, 0, 0] \<or> a = replicate 16 0"

definition ip_IsLinkLocalUnicast :: "ip \<Rightarrow> bool" where
  "ip_IsLinkLocalUnicast a = (case ip_To4 a of
     Some b \<Rightarrow> b ! 0 = 169 \<and> b ! 1 = 254
   | None \<Rightarrow> length a = 16 \<and> a ! 0 = 0xfe \<and> a ! 1 AND 0xc0 = 0x80)"

definition ip_IsLinkLocalMulticast :: "ip \<Rightarrow> bool" where
  "ip_IsLinkLocalMulticast a = (case ip_To4 a of
     Some b \<Rightarrow> b ! 0 = 224 \<and> b ! 1 = 0 \<and> b ! 2 = 0
   | None \<Rightarrow> length a = 16 \<and> a ! 0 = 0xff \<and> a ! 1 AND 0x0f = 2)"

definition ip_IsInterfaceLocalMulticast :: "ip \<Rightarrow> bool" where
  "ip_IsInterfaceLocalMulticast a \<longleftrightarrow> length a = 16 \<and> a ! 0 = 0xff \<and> a ! 1 AND 0x0f = 1"

definition ip_IsMulticast :: "ip \<Rightarrow> bool" where
  "ip_IsMulticast a = (case ip_To4 a of
     Some b \<Rightarrow> b ! 0 AND 0xf0 = 0xe0
   | None \<Rightarrow> length a = 16 \<and> a ! 0 = 0xff)"

definition blockedFetchIP :: "ip \<Rightarrow> bool" where
  "blockedFetchIP a \<longleftrightarrow> ip_IsLoopback a \<or> ip_IsPrivate a \<or> ip_IsUnspecified a \<or> ip_IsLinkLocalUnicast a \<or>
     ip_IsLinkLocalMulticast a \<or> ip_IsInterfaceLocalMulticast a \<or> ip_IsMulticast a"

section \<open>The checks of a host and of a URL\<close>

text \<open>\<^verbatim>\<open>strings.EqualFold\<close> with a word of plain letters: letter case is ignored, and the long s and
  the Kelvin sign count as s and k.\<close>

fun fold_letters :: "string \<Rightarrow> string" where
  "fold_letters (c # d # e # cs) =
     (if c = CHR 0xC5 \<and> d = CHR 0xBF then CHR ''s'' # fold_letters (e # cs)
      else if c = CHR 0xE2 \<and> d = CHR 0x84 \<and> e = CHR 0xAA then CHR ''k'' # fold_letters cs
      else to_lower_char c # fold_letters (d # e # cs))"
| "fold_letters [c, d] = (if c = CHR 0xC5 \<and> d = CHR 0xBF then ''s'' else [to_lower_char c, to_lower_char d])"
| "fold_letters [c] = [to_lower_char c]"
| "fold_letters [] = []"

definition equal_fold :: "string \<Rightarrow> string \<Rightarrow> bool" where
  "equal_fold s t \<longleftrightarrow> fold_letters s = fold_letters t"

type_synonym resolver = "string \<Rightarrow> string + ip list"

definition refusal :: string where
  "refusal = ''refusing to fetch from local or private network address''"

definition validateFetchHost :: "(string \<Rightarrow> string) \<Rightarrow> resolver \<Rightarrow> string \<Rightarrow> string option" where
  "validateFetchHost quote look host0 =
     (let host = trim_space host0
      in if host = [] then Some ''url host is required''
         else if equal_fold host ''localhost'' then Some refusal
         else (case net_ParseIP host of
             Some a \<Rightarrow> if blockedFetchIP a then Some refusal else None
           | None \<Rightarrow> (case look host of
               Inl e \<Rightarrow> Some (''resolve host '' @ quote host @ '': '' @ e)
             | Inr addrs \<Rightarrow>
                 if addrs = [] then Some (''host '' @ quote host @ '' did not resolve'')
                 else if list_ex blockedFetchIP addrs then Some refusal else None)))"

record fetch_url =
  fu_Scheme :: string
  fu_Hostname :: string
  fu_Port :: string

definition validateFetchURL :: "(string \<Rightarrow> string) \<Rightarrow> resolver \<Rightarrow> fetch_url option \<Rightarrow> string option" where
  "validateFetchURL quote look ou =
     (case ou of None \<Rightarrow> Some ''url is required''
      | Some u \<Rightarrow>
          if fu_Scheme u \<noteq> ''http'' \<and> fu_Scheme u \<noteq> ''https'' then Some ''only http/https URLs allowed''
          else if fu_Hostname u = [] then Some ''url host is required''
          else validateFetchHost quote look (fu_Hostname u))"

section \<open>The client\<close>

text \<open>The address the transport dials for a URL, \<^verbatim>\<open>net.JoinHostPort\<close> of host and port.\<close>

definition join_host_port :: "string \<Rightarrow> string \<Rightarrow> string" where
  "join_host_port h p = (if CHR '':'' \<in> set h \<or> CHR ''%'' \<in> set h then ''['' @ h @ '']:'' @ p else h @ '':'' @ p)"

definition dial_addr :: "fetch_url \<Rightarrow> string" where
  "dial_addr u = join_host_port (fu_Hostname u)
     (if fu_Port u \<noteq> [] then fu_Port u else if fu_Scheme u = ''https'' then ''443'' else ''80'')"

text \<open>The addresses the dialer may connect to: a literal address is dialled as it is, a name is resolved again.\<close>

definition dialled :: "resolver \<Rightarrow> string \<Rightarrow> ip list" where
  "dialled look host = (case net_ParseIP host of Some a \<Rightarrow> [a]
     | None \<Rightarrow> (case look host of Inl e \<Rightarrow> [] | Inr addrs \<Rightarrow> addrs))"

text \<open>The \<^verbatim>\<open>DialContext\<close> of the client; lookup \<open>n\<close> is the one of the check.\<close>

definition dial_context :: "(string \<Rightarrow> string) \<Rightarrow> (nat \<Rightarrow> resolver) \<Rightarrow> nat \<Rightarrow> string \<Rightarrow> string + ip list" where
  "dial_context quote look n addr =
     (case net_SplitHostPort addr of None \<Rightarrow> Inl ''missing port in address''
      | Some host \<Rightarrow>
          (case validateFetchHost quote (look n) host of
             Some e \<Rightarrow> Inl e
           | None \<Rightarrow> Inr (dialled (look (Suc n)) host)))"

datatype peer_reply = Response int string | Redirect fetch_url | Failed string

text \<open>The client sends the request, and follows redirects as \<^verbatim>\<open>CheckRedirect\<close> allows; \<open>left\<close> counts the redirects
  it may still follow. The result is what was contacted, and the response or the error.\<close>

fun follow :: "(string \<Rightarrow> string) \<Rightarrow> (nat \<Rightarrow> resolver) \<Rightarrow> (nat \<Rightarrow> fetch_url \<Rightarrow> peer_reply) \<Rightarrow> nat \<Rightarrow> nat \<Rightarrow> fetch_url \<Rightarrow>
    ip list \<times> (string + int \<times> string)" where
  "follow quote look peer n left u =
     (case dial_context quote look n (dial_addr u) of
        Inl e \<Rightarrow> ([], Inl e)
      | Inr addrs \<Rightarrow>
          (case peer n u of
             Response code body \<Rightarrow> (addrs, Inr (code, body))
           | Failed e \<Rightarrow> (addrs, Inl e)
           | Redirect u' \<Rightarrow>
               (case left of 0 \<Rightarrow> (addrs, Inl ''stopped after 10 redirects'')
                | Suc m \<Rightarrow>
                    (case validateFetchURL quote (look (n + 2)) (Some u') of
                       Some e \<Rightarrow> (addrs, Inl e)
                     | None \<Rightarrow> (case follow quote look peer (n + 3) m u' of (bs, r) \<Rightarrow> (addrs @ bs, r))))))"

declare follow.simps [simp del]

text \<open>The capability: the job's URL, parsed by \<^verbatim>\<open>url.Parse\<close>, is checked and fetched; \<open>body\<close> is what the first
  read of at most 512 bytes delivers. An error of the client is given by its cause, without the method and URL in front.\<close>

definition http_fetch ::
    "(string \<Rightarrow> string) \<Rightarrow> (string \<Rightarrow> string + fetch_url) \<Rightarrow> (nat \<Rightarrow> resolver) \<Rightarrow> (nat \<Rightarrow> fetch_url \<Rightarrow> peer_reply) \<Rightarrow> string \<Rightarrow>
     ip list \<times> (string \<times> string)" where
  "http_fetch quote parse look peer rawURL =
     (if rawURL = [] then ([], ([], ''payload.url is required''))
      else case parse rawURL of
             Inl e \<Rightarrow> ([], ([], ''invalid url: '' @ e))
           | Inr u \<Rightarrow>
               (case validateFetchURL quote (look 0) (Some u) of
                  Some e \<Rightarrow> ([], ([], e))
                | None \<Rightarrow>
                    (case follow quote look peer 1 9 u of
                       (addrs, Inl e) \<Rightarrow> (addrs, ([], ''fetch error: '' @ e))
                     | (addrs, Inr (code, body)) \<Rightarrow>
                         (addrs, (''{'' @ json_quote ''status'' @ '':'' @ show_int code @ '','' @ json_quote ''body_preview'' @ '':'' @
                            quote (trim_space body) @ ''}'', [])))))"

section \<open>The blocked networks\<close>

definition net :: "byte list \<Rightarrow> nat \<Rightarrow> ipnet" where
  "net a bits = \<lparr>in_IP = a, in_Mask = cidr_mask bits (length a)\<rparr>"

definition blocked_nets :: "ipnet list" where
  "blocked_nets = [net [127, 0, 0, 0] 8, net [10, 0, 0, 0] 8, net [172, 16, 0, 0] 12, net [192, 168, 0, 0] 16, net [0, 0, 0, 0] 32,
     net [169, 254, 0, 0] 16, net [224, 0, 0, 0] 4,
     net (replicate 15 0 @ [1]) 128, net (0xfc # replicate 15 0) 7, net (replicate 16 0) 128, net ([0xfe, 0x80] @ replicate 14 0) 10,
     net (0xff # replicate 15 0) 8]"

lemma cidr_mask_numeral: "cidr_mask n (numeral k) =
    (if 8 \<le> n then 255 # cidr_mask (n - 8) (pred_numeral k) else NOT (drop_bit n 255) # cidr_mask 0 (pred_numeral k))"
  by (simp add: numeral_eq_Suc)

lemma byte_255 [simp]: "x AND 255 = (x :: byte)"
proof -
  have "(255 :: byte) = - 1" by simp
  then show ?thesis by (metis and.right_neutral)
qed

lemma masks4: "cidr_mask 8 4 = [255, 0, 0, 0]" "cidr_mask 12 4 = [255, 240, 0, 0]" "cidr_mask 16 4 = [255, 255, 0, 0]"
    "cidr_mask 32 4 = [255, 255, 255, 255]" "cidr_mask 4 4 = [240, 0, 0, 0]"
  by (simp_all add: cidr_mask_numeral)

lemma replicate_numeral: "replicate (numeral k) x = x # replicate (pred_numeral k) x"
  by (simp add: numeral_eq_Suc)

lemma masks6: "cidr_mask 128 16 = replicate 16 255" "cidr_mask 7 16 = 254 # replicate 15 0" "cidr_mask 10 16 = 255 # 192 # replicate 14 0"
    "cidr_mask 8 16 = 255 # replicate 15 0"
  by (simp_all add: cidr_mask_numeral replicate_numeral)

lemma contains4:
  assumes "ip_To4 a = Some [w, x, y, z]"
  shows "ipnet_Contains \<lparr>in_IP = [p, q, r, s], in_Mask = [k, l, m, n]\<rparr> a \<longleftrightarrow>
    p AND k = w AND k \<and> q AND l = x AND l \<and> r AND m = y AND m \<and> s AND n = z AND n"
proof -
  have "[0..<4] = [0, 1, 2, 3 :: nat]" by (simp add: upt_rec)
  moreover have "ip_To4 [p, q, r, s] = Some [p, q, r, s]" by (simp add: ip_To4_def)
  ultimately show ?thesis using assms by (simp add: ipnet_Contains_def network_number_and_mask_def atLeast0_lessThan_Suc conj_ac)
qed

lemma contains46:
  assumes "ip_To4 a = Some b" "length p = 16" "ip_To4 p = None" "length m = 16"
  shows "\<not> ipnet_Contains \<lparr>in_IP = p, in_Mask = m\<rparr> a"
proof -
  have "length b = 4" using assms(1) by (auto simp: ip_To4_def split: if_splits)
  with assms show ?thesis by (simp add: ipnet_Contains_def network_number_and_mask_def)
qed

lemma contains64:
  assumes "ip_To4 a = None" "length a = 16"
  shows "\<not> ipnet_Contains \<lparr>in_IP = [p, q, r, s], in_Mask = [k, l, m, n]\<rparr> a"
  using assms by (simp add: ipnet_Contains_def network_number_and_mask_def ip_To4_def [of "[p, q, r, s]"])

lemma contains6:
  assumes "ip_To4 a = None" "length a = 16" "length p = 16" "ip_To4 p = None" "length m = 16"
  shows "ipnet_Contains \<lparr>in_IP = p, in_Mask = m\<rparr> a \<longleftrightarrow> (\<forall>i<16. p ! i AND m ! i = a ! i AND m ! i)"
  using assms by (auto simp: ipnet_Contains_def network_number_and_mask_def)


lemma contains6_all:
  assumes "ip_To4 a = None" "length a = 16" "length p = 16" "ip_To4 p = None"
  shows "ipnet_Contains \<lparr>in_IP = p, in_Mask = replicate 16 255\<rparr> a \<longleftrightarrow> a = p"
  using assms by (auto simp: contains6 list_eq_iff_nth_eq)

lemma contains6_two:
  assumes "ip_To4 a = None" "length a = 16"
  shows "ipnet_Contains \<lparr>in_IP = c # d # replicate 14 0, in_Mask = k # l # replicate 14 0\<rparr> a \<longleftrightarrow>
    c AND k = a ! 0 AND k \<and> d AND l = a ! 1 AND l"
proof -
  have p: "ip_To4 (c # d # replicate 14 0) = None" by (simp add: ip_To4_def v4_prefix_def replicate_numeral)
  have "(\<forall>i<16. P i) \<longleftrightarrow> P 0 \<and> P 1 \<and> (\<forall>i<14. P (Suc (Suc i)))" for P :: "nat \<Rightarrow> bool"
    by (simp add: numeral_eq_Suc All_less_Suc2)
  from this [of "\<lambda>i. (c # d # replicate 14 0) ! i AND (k # l # replicate 14 0) ! i = a ! i AND (k # l # replicate 14 0) ! i"]
  show ?thesis using assms p by (subst contains6) auto
qed

lemma cons_replicate: "x # replicate 15 y = x # y # replicate 14 y"
  by (simp add: numeral_eq_Suc)

lemma blocked_v4:
  assumes "ip_To4 a = Some [w, x, y, z]"
  shows "blockedFetchIP a \<longleftrightarrow> w = 127 \<or> w = 10 \<or> w = 172 \<and> x AND 240 = 16 \<or> w = 192 \<and> x = 168 \<or>
    [w, x, y, z] = [0, 0, 0, 0] \<or> w = 169 \<and> x = 254 \<or> w AND 240 = 224"
proof -
  have "\<not> ip_IsInterfaceLocalMulticast a"
  proof
    assume i: "ip_IsInterfaceLocalMulticast a"
    with assms have "take 12 a = v4_prefix" by (auto simp: ip_To4_def ip_IsInterfaceLocalMulticast_def split: if_splits)
    moreover have "v4_prefix ! 0 = 0" by (simp add: v4_prefix_def replicate_numeral)
    ultimately have "take 12 a ! 0 = 0" by simp
    with i show False by (simp add: ip_IsInterfaceLocalMulticast_def)
  qed
  moreover have "ip_IsUnspecified a \<longleftrightarrow> [w, x, y, z] = [0, 0, 0, 0]"
  proof -
    have "ip_To4 (replicate 16 0) = None" by (simp add: ip_To4_def v4_prefix_def replicate_numeral)
    with assms show ?thesis by (auto simp: ip_IsUnspecified_def)
  qed
  moreover have "ip_IsLoopback a \<longleftrightarrow> w = 127" "ip_IsPrivate a \<longleftrightarrow> w = 10 \<or> w = 172 \<and> x AND 240 = 16 \<or> w = 192 \<and> x = 168"
    "ip_IsLinkLocalUnicast a \<longleftrightarrow> w = 169 \<and> x = 254" "ip_IsMulticast a \<longleftrightarrow> w AND 240 = 224"
    "ip_IsLinkLocalMulticast a \<longleftrightarrow> w = 224 \<and> x = 0 \<and> y = 0"
    using assms by (simp_all add: ip_IsLoopback_def ip_IsPrivate_def ip_IsLinkLocalUnicast_def ip_IsMulticast_def ip_IsLinkLocalMulticast_def
        nth_Cons' numeral_2_eq_2)
  ultimately show ?thesis unfolding blockedFetchIP_def by (cases "w = 224") simp_all
qed

lemma in_nets_v4:
  assumes "ip_To4 a = Some [w, x, y, z]"
  shows "(\<exists>n \<in> set blocked_nets. ipnet_Contains n a) \<longleftrightarrow> w = 127 \<or> w = 10 \<or> w = 172 \<and> x AND 240 = 16 \<or> w = 192 \<and> x = 168 \<or>
    [w, x, y, z] = [0, 0, 0, 0] \<or> w = 169 \<and> x = 254 \<or> w AND 240 = 224"
proof -
  have six: "\<not> ipnet_Contains (net p b) a" if "length p = 16" "ip_To4 p = None" "length (cidr_mask b 16) = 16" for p b
    using contains46 [OF assms that] that(1) by (simp add: net_def)
  have neg: "(- 256 :: byte) = 0" "(- 16 :: byte) = 240" by simp_all
  have "ipnet_Contains (net [127, 0, 0, 0] 8) a \<longleftrightarrow> w = 127" "ipnet_Contains (net [10, 0, 0, 0] 8) a \<longleftrightarrow> w = 10"
    "ipnet_Contains (net [172, 16, 0, 0] 12) a \<longleftrightarrow> w = 172 \<and> x AND 240 = 16"
    "ipnet_Contains (net [192, 168, 0, 0] 16) a \<longleftrightarrow> w = 192 \<and> x = 168"
    "ipnet_Contains (net [0, 0, 0, 0] 32) a \<longleftrightarrow> [w, x, y, z] = [0, 0, 0, 0]"
    "ipnet_Contains (net [169, 254, 0, 0] 16) a \<longleftrightarrow> w = 169 \<and> x = 254"
    "ipnet_Contains (net [224, 0, 0, 0] 4) a \<longleftrightarrow> w AND 240 = 224"
    by (auto simp: net_def neg contains4 [OF assms])
  moreover have "\<not> ipnet_Contains (net (replicate 15 0 @ [1]) 128) a" "\<not> ipnet_Contains (net (0xfc # replicate 15 0) 7) a"
    "\<not> ipnet_Contains (net (replicate 16 0) 128) a" "\<not> ipnet_Contains (net ([0xfe, 0x80] @ replicate 14 0) 10) a"
    "\<not> ipnet_Contains (net (0xff # replicate 15 0) 8) a"
    by (rule six; simp add: ip_To4_def v4_prefix_def replicate_numeral cidr_mask_numeral)+
  ultimately show ?thesis unfolding blocked_nets_def by simp
qed

theorem blocked_exact:
  assumes "length a = 4 \<or> length a = 16"
  shows "blockedFetchIP a \<longleftrightarrow> (\<exists>n \<in> set blocked_nets. ipnet_Contains n a)"
proof (cases "ip_To4 a")
  case (Some b)
  then have "length b = 4" by (auto simp: ip_To4_def split: if_splits)
  then obtain w x y z where "b = [w, x, y, z]" by (auto simp: numeral_eq_Suc length_Suc_conv)
  with blocked_v4 in_nets_v4 Some show ?thesis by blast
next
  case None
  with assms have len: "length a = 16" by (auto simp: ip_To4_def)
  have "ip_To4 (replicate 15 0 @ [1]) = None" "ip_To4 (replicate 16 0) = None" by (simp_all add: ip_To4_def v4_prefix_def replicate_numeral)
  with None len show ?thesis
    by (simp add: blockedFetchIP_def ip_IsLoopback_def ip_IsPrivate_def ip_IsUnspecified_def ip_IsLinkLocalUnicast_def ip_IsInterfaceLocalMulticast_def
       ip_IsLinkLocalMulticast_def ip_IsMulticast_def blocked_nets_def net_def masks4 masks6 contains64 contains6_all cons_replicate contains6_two) blast
qed

section \<open>What a fetch can reach\<close>

text \<open>The host that is dialled for a URL has no white space around it, as for every URL that
  \<^verbatim>\<open>url.Parse\<close> accepts.\<close>

definition clean_url :: "fetch_url \<Rightarrow> bool" where
  "clean_url u \<longleftrightarrow> (\<forall>h. net_SplitHostPort (dial_addr u) = Some h \<longrightarrow> trim_space h = h)"

lemma checked_host_unblocked:
  assumes "validateFetchHost quote look host = None" "trim_space host = host" "a \<in> set (dialled look host)"
  shows "\<not> blockedFetchIP a"
  using assms by (auto simp: validateFetchHost_def dialled_def Let_def list_ex_iff split: option.splits sum.splits if_splits)

lemma dial_unblocked:
  assumes "dial_context quote look n (dial_addr u) = Inr as" "\<forall>n m. look n = look m" "clean_url u" "a \<in> set as"
  shows "\<not> blockedFetchIP a"
proof -
  from assms(1) obtain h where h: "net_SplitHostPort (dial_addr u) = Some h" "validateFetchHost quote (look n) h = None" "as = dialled (look (Suc n)) h"
    by (auto simp: dial_context_def split: option.splits)
  have "look (Suc n) = look n" using assms(2) by blast
  with h assms(3,4) show ?thesis by (metis checked_host_unblocked clean_url_def)
qed

lemma follow_unblocked:
  assumes "\<forall>n m. look n = look m" "\<forall>n u u'. peer n u = Redirect u' \<longrightarrow> clean_url u'" "clean_url u"
    "a \<in> set (fst (follow quote look peer n left u))"
  shows "\<not> blockedFetchIP a"
  using assms(3,4)
proof (induction left arbitrary: n u)
  case 0
  with dial_unblocked [OF _ assms(1)] show ?case
    by (auto simp: follow.simps split: sum.splits peer_reply.splits)
next
  case (Suc m)
  show ?case
  proof (cases "dial_context quote look n (dial_addr u)")
    case (Inl e)
    with Suc.prems show ?thesis by (simp add: follow.simps)
  next
    case (Inr as)
    have here: "\<not> blockedFetchIP a" if "a \<in> set as" using dial_unblocked [OF Inr assms(1) Suc.prems(1) that] .
    have later: "\<not> blockedFetchIP a" if "peer n u = Redirect u'" "a \<in> set (fst (follow quote look peer (n + 3) m u'))" for u'
      using Suc.IH that assms(2) by blast
    from Suc.prems(2) Inr here later show ?thesis
      by (auto simp: follow.simps [of _ _ _ _ "Suc m"] case_prod_beta split: peer_reply.splits option.splits)
  qed
qed


text \<open>A host that is a name: no literal address, not \<^verbatim>\<open>localhost\<close>, and without the characters that have a
  meaning in an address with port.\<close>

definition plain_name :: "string \<Rightarrow> bool" where
  "plain_name h \<longleftrightarrow> h \<noteq> [] \<and> trim_space h = h \<and> set h \<inter> {CHR '':'', CHR ''['', CHR '']'', CHR ''%''} = {} \<and>
     \<not> equal_fold h ''localhost'' \<and> net_ParseIP h = None"

lemma split_join_host_port:
  assumes "h \<noteq> []" "set h \<inter> {CHR '':'', CHR ''['', CHR '']'', CHR ''%''} = {}" "set p \<inter> {CHR '':'', CHR ''['', CHR '']''} = {}"
  shows "net_SplitHostPort (join_host_port h p) = Some h"
proof -
  have "takeWhile (\<lambda>d. d \<noteq> c) (q @ c # r) = q" if "c \<notin> set q" for c :: char and q r using that by (induction q) auto
  then have "takeWhile (\<lambda>d. d \<noteq> CHR '':'') (rev (h @ '':'' @ p)) = rev p" using assms(3) by simp
  then have "last_index (CHR '':'') (h @ '':'' @ p) = Some (length h)" by (simp add: last_index_def)
  moreover have "hd (h @ '':'' @ p) \<noteq> CHR ''[''" using assms(1,2) by (cases h) auto
  ultimately show ?thesis using assms by (auto simp: net_SplitHostPort_def join_host_port_def)
qed

lemma plain_name_dial:
  assumes "plain_name (fu_Hostname u)" "set (fu_Port u) \<inter> {CHR '':'', CHR ''['', CHR '']''} = {}"
  shows "net_SplitHostPort (dial_addr u) = Some (fu_Hostname u)"
  using assms by (auto simp: dial_addr_def plain_name_def intro!: split_join_host_port)

text \<open>C36. The check of a host and the connection to it resolve its name separately: a name whose lookups
  answer differently gets the client to any address, also of the agent's own networks, although every
  address of the lookups that are checked is an outside one; the response is handed back.\<close>

theorem rebound_name_reaches_inside:
  assumes "parse raw = Inr u" "raw \<noteq> []" "fu_Scheme u = ''http'' \<or> fu_Scheme u = ''https''" "plain_name (fu_Hostname u)"
    "set (fu_Port u) \<inter> {CHR '':'', CHR ''['', CHR '']''} = {}" "outside \<noteq> []" "\<forall>a \<in> set outside. \<not> blockedFetchIP a"
    "\<forall>n name. look n name = Inr (if n = 2 then inside else outside)" "peer 1 u = Response code body"
  shows "fst (http_fetch quote parse look peer raw) = inside \<and> snd (snd (http_fetch quote parse look peer raw)) = []"
proof -
  let ?h = "fu_Hostname u"
  have checked: "validateFetchHost quote (look n) ?h = None" if "n \<noteq> 2" for n
    using assms(4,6,7,8) that by (auto simp: validateFetchHost_def plain_name_def Let_def list_ex_iff)
  have "dialled (look 2) ?h = inside" using assms(4,8) by (simp add: dialled_def plain_name_def)
  then have "dial_context quote look 1 (dial_addr u) = Inr inside"
    using plain_name_dial [OF assms(4,5)] checked [of 1] by (simp add: dial_context_def numeral_2_eq_2)
  then have "follow quote look peer 1 9 u = (inside, Inr (code, body))" using assms(9) by (simp add: follow.simps)
  moreover have "validateFetchURL quote (look 0) (Some u) = None"
    using assms(3,4) checked [of 0] by (auto simp: validateFetchURL_def plain_name_def)
  ultimately show ?thesis using assms(1,2) by (simp add: http_fetch_def)
qed

section \<open>Examples\<close>

definition ex_url :: fetch_url where
  "ex_url = \<lparr>fu_Scheme = ''http'', fu_Hostname = ''a.example'', fu_Port = []\<rparr>"

lemma ex_url_plain: "plain_name ''a.example''" "fu_Hostname ex_url = ''a.example''" "fu_Port ex_url = []" "fu_Scheme ex_url = ''http''"
  by (simp_all add: ex_url_def plain_name_def trim_space_def is_space_def equal_fold_def to_lower_char_def net_ParseIP_def parse_addr_def parse_v4_def)

lemma ex_addrs: "blockedFetchIP [127, 0, 0, 1]" "\<not> blockedFetchIP [93, 184, 216, 34]"
  by (simp_all add: blocked_v4 ip_To4_def)

theorem rebound_name_reaches_inside_witness:
  "\<exists>look peer. fst (http_fetch id (\<lambda>_. Inr ex_url) look peer ''http://a.example'') = [[127, 0, 0, 1]] \<and> blockedFetchIP [127, 0, 0, 1]"
proof -
  let ?look = "\<lambda>n name. Inr (if n = (2 :: nat) then [[127, 0, 0, 1]] else [[93, 184, 216, 34]])"
  let ?peer = "\<lambda>(n :: nat) u. Response 200 ''secret''"
  have "fst (http_fetch id (\<lambda>_. Inr ex_url) ?look ?peer ''http://a.example'') = [[127, 0, 0, 1]]"
    by (rule conjunct1 [OF rebound_name_reaches_inside [where u = ex_url and outside = "[[93, 184, 216, 34]]" and code = 200 and body = "''secret''"]])
       (simp_all add: ex_url_plain ex_addrs)
  with ex_addrs show ?thesis by blast
qed


theorem blocked_exact_witness: "\<exists>n \<in> set blocked_nets. ipnet_Contains n [127, 0, 0, 1]"
  using blocked_exact [of "[127, 0, 0, 1]"] ex_addrs(1) by simp

end
