(* ===== verification/TextTasks.thy ===== *)
theory TextTasks
  imports JsonText "HOL-Library.Multiset"
begin

text \<open>
  The text capabilities of the agent (\<^verbatim>\<open>cmd/spectral-agent/main.go\<close>): reversing, counting words,
  and the summary made of the best sentences. A Go string is its bytes; a rune is given by the
  bytes of its UTF-8 encoding. What Unicode counts as space or punctuation beyond ASCII is an argument where
  the code asks for it.
\<close>

section \<open>Runes\<close>

text \<open>The runes of a string; a byte that is not part of a valid sequence becomes the replacement character.\<close>

definition replacement :: string where
  "replacement = [CHR 0xEF, CHR 0xBF, CHR 0xBD]"

function runes :: "string \<Rightarrow> string list" where
  "runes [] = []"
| "runes (c # cs) =
     (if (of_char c :: nat) < 128 then [c] # runes cs
      else let n = utf8_len (c # cs)
           in if n = 0 then replacement # runes cs else take n (c # cs) # runes (drop (n - 1) cs))"
  by pat_completeness auto
termination by (relation "measure length") auto

definition valid_utf8 :: "string \<Rightarrow> bool" where
  "valid_utf8 s \<longleftrightarrow> concat (runes s) = s"

text \<open>One well-formed rune.\<close>

definition rune :: "string \<Rightarrow> bool" where
  "rune r \<longleftrightarrow> r \<noteq> [] \<and> (if (of_char (hd r) :: nat) < 128 then length r = 1 else utf8_len r = length r)"

text \<open>The length found at the front depends on that many bytes only.\<close>

lemma utf8_len_local:
  assumes "hd t = hd s" "\<And>lo hi i. i < utf8_len s \<Longrightarrow> byte_in lo hi s i \<Longrightarrow> byte_in lo hi t i" "utf8_len s \<noteq> 0"
  shows "utf8_len t = utf8_len s"
proof -
  let ?b = "of_char (hd s) :: nat"
  consider "194 \<le> ?b \<and> ?b \<le> 223" | "224 \<le> ?b \<and> ?b \<le> 239" | "240 \<le> ?b \<and> ?b \<le> 244"
    using assms(3) by (fastforce simp: utf8_len_def Let_def split: if_splits)
  then show ?thesis
  proof cases
    case 1
    with assms(3) have n: "utf8_len s = 2" "byte_in 128 191 s 1" by (simp_all add: utf8_len_def Let_def split: if_splits)
    with assms(2) have "byte_in 128 191 t 1" by simp
    with 1 n assms(1) show ?thesis by (simp add: utf8_len_def Let_def)
  next
    case 2
    let ?lo = "if ?b = 224 then 160 else 128" and ?hi = "if ?b = 237 then 159 else 191"
    from 2 assms(3) have n: "utf8_len s = 3" "byte_in ?lo ?hi s 1" "byte_in 128 191 s 2"
      by (simp_all add: utf8_len_def Let_def split: if_split_asm)
    with assms(2) have "byte_in ?lo ?hi t 1" "byte_in 128 191 t 2" by simp_all
    with 2 n assms(1) show ?thesis by (simp add: utf8_len_def Let_def)
  next
    case 3
    let ?lo = "if ?b = 240 then 144 else 128" and ?hi = "if ?b = 244 then 143 else 191"
    from 3 assms(3) have n: "utf8_len s = 4" "byte_in ?lo ?hi s 1" "byte_in 128 191 s 2" "byte_in 128 191 s 3"
      by (simp_all add: utf8_len_def Let_def split: if_split_asm)
    with assms(2) have "byte_in ?lo ?hi t 1" "byte_in 128 191 t 2" "byte_in 128 191 t 3" by simp_all
    with 3 n assms(1) show ?thesis by (simp add: utf8_len_def Let_def)
  qed
qed

lemma utf8_len_le: "utf8_len s \<noteq> 0 \<Longrightarrow> utf8_len s \<le> length s"
  by (auto simp: utf8_len_def Let_def byte_in_def split: if_split_asm)

lemma utf8_len_append: "utf8_len r = length r \<Longrightarrow> r \<noteq> [] \<Longrightarrow> utf8_len (r @ t) = length r"
  using utf8_len_local [of "r @ t" r] by (simp add: byte_in_def nth_append)

lemma runes_rune_append: "rune r \<Longrightarrow> runes (r @ t) = r # runes t"
proof (cases r)
  case (Cons c cs)
  assume r: "rune r"
  show ?thesis
  proof (cases "(of_char c :: nat) < 128")
    case False
    then have "utf8_len (r @ t) = length r" using r Cons utf8_len_append [of r t] by (simp add: rune_def)
    with False Cons show ?thesis by (simp add: Let_def)
  qed (use r Cons in \<open>auto simp: rune_def\<close>)
qed (simp add: rune_def)

lemma runes_concat: "list_all rune rs \<Longrightarrow> runes (concat rs) = rs"
  by (induction rs) (auto simp: runes_rune_append)

lemma utf8_len_ascii: "(of_char (hd s) :: nat) < 128 \<Longrightarrow> utf8_len s = 0"
  by (simp add: utf8_len_def Let_def)

lemma utf8_len_take:
  assumes "utf8_len s \<noteq> 0"
  shows "utf8_len (take (utf8_len s) s) = utf8_len s"
proof (rule utf8_len_local)
  show "hd (take (utf8_len s) s) = hd s" using assms by (cases s; cases "utf8_len s") simp_all
qed (use assms utf8_len_le [OF assms] in \<open>auto simp: byte_in_def\<close>)

lemma rune_take:
  assumes "utf8_len s \<noteq> 0"
  shows "rune (take (utf8_len s) s)"
proof -
  note n = utf8_len_le [OF assms] utf8_len_take [OF assms]
  have "take (utf8_len s) s \<noteq> []" using n(1) assms by (cases s) auto
  moreover have "hd (take (utf8_len s) s) = hd s" using assms by (cases s; cases "utf8_len s") simp_all
  moreover have "\<not> (of_char (hd s) :: nat) < 128" using assms by (rule contrapos_nn) (rule utf8_len_ascii)
  ultimately show ?thesis using n by (simp add: rune_def)
qed

lemma rune_replacement: "rune replacement"
  by (simp add: rune_def replacement_def utf8_len_def byte_in_def)

lemma runes_rune: "list_all rune (runes s)"
proof (induction s rule: runes.induct)
  case (2 c cs)
  then show ?case using rune_take [of "c # cs"] by (auto simp: Let_def rune_replacement) (auto simp: rune_def)
qed simp

text \<open>\<^verbatim>\<open>reverse\<close>: the text with its runes in the opposite order.\<close>

definition cap_reverse :: "string \<Rightarrow> string \<times> string" where
  "cap_reverse s = (if s = [] then ([], ''payload.text is required'') else (concat (rev (runes s)), []))"

lemma reverse_reverse:
  assumes "valid_utf8 s" "s \<noteq> []"
  shows "cap_reverse (fst (cap_reverse s)) = (s, [])"
proof -
  have "runes (concat (rev (runes s))) = rev (runes s)" using runes_rune [of s] by (intro runes_concat) (simp add: list_all_iff)
  moreover have "concat (rev (runes s)) \<noteq> []"
  proof
    assume "concat (rev (runes s)) = []"
    then have "concat (runes s) = []" by simp
    with assms show False by (simp add: valid_utf8_def)
  qed
  ultimately show ?thesis using assms by (simp add: cap_reverse_def valid_utf8_def)
qed

text \<open>\<^verbatim>\<open>count-words\<close>; \<open>sep\<close> tells the runes that Unicode counts as space or punctuation.\<close>

fun fields_by :: "('a \<Rightarrow> bool) \<Rightarrow> 'a list \<Rightarrow> 'a list \<Rightarrow> 'a list list" where
  "fields_by sep [] cur = (if cur = [] then [] else [cur])"
| "fields_by sep (r # rs) cur =
     (if sep r then (if cur = [] then fields_by sep rs [] else cur # fields_by sep rs []) else fields_by sep rs (cur @ [r]))"

definition cap_count_words :: "(string \<Rightarrow> bool) \<Rightarrow> string \<Rightarrow> string \<times> string" where
  "cap_count_words sep s =
     (if s = [] then (''0'', [])
      else (json_object [json_member ''words'' (show_nat (length (fields_by sep (runes s) []))),
              json_member ''chars'' (show_nat (length (runes s))),
              json_member ''lines'' (show_nat (count_list s (CHR 0x0A) + 1))], []))"

section \<open>The summary\<close>

text \<open>The runes are collected until a full stop, an exclamation or a question mark.\<close>

fun collect_sentences :: "string list \<Rightarrow> string \<Rightarrow> string list" where
  "collect_sentences [] buf = (if blank buf then [] else [trim_space buf])"
| "collect_sentences (r # rs) buf =
     (if r = ''.'' \<or> r = ''!'' \<or> r = ''?''
      then (if blank (buf @ r) then [] else [trim_space (buf @ r)]) @ collect_sentences rs []
      else collect_sentences rs (buf @ r))"

definition splitSentences :: "string \<Rightarrow> string list" where
  "splitSentences s = collect_sentences (runes s) []"

definition strings_Fields :: "string \<Rightarrow> string list" where
  "strings_Fields s = fields_by is_space s []"

definition trim_marks :: "string \<Rightarrow> string" where
  "trim_marks w = (let mark = (\<lambda>c. c \<in> set ''.,!?;:'' \<or> c = CHR 0x22 \<or> c = CHR 0x27 \<or> c \<in> set ''()[]'')
     in rev (dropWhile mark (rev (dropWhile mark w))))"

definition sentence_words :: "string \<Rightarrow> string list" where
  "sentence_words s = map (\<lambda>w. to_lower (trim_marks w)) (strings_Fields s)"

definition word_freq :: "string list \<Rightarrow> string \<Rightarrow> nat" where
  "word_freq sentences = fold (\<lambda>w freq. if 3 < length w then freq(w := freq w + 1) else freq)
     (concat (map sentence_words sentences)) (\<lambda>_. 0)"

record scored =
  sc_text :: string
  sc_score :: nat
  sc_idx :: nat

definition score_sentences :: "string list \<Rightarrow> scored list" where
  "score_sentences sentences = (let freq = word_freq sentences
     in map (\<lambda>(i, s). \<lparr>sc_text = s, sc_score = sum_list (map freq (sentence_words s)), sc_idx = i\<rparr>) (enumerate 0 sentences))"

text \<open>The sorting loops: the element at a position is compared with every later one and swapped with it when that one
  is better.\<close>

fun exchange_pass :: "('a \<Rightarrow> 'a \<Rightarrow> bool) \<Rightarrow> 'a \<Rightarrow> 'a list \<Rightarrow> 'a \<times> 'a list" where
  "exchange_pass better x [] = (x, [])"
| "exchange_pass better x (y # ys) =
     (if better y x then (case exchange_pass better y ys of (m, zs) \<Rightarrow> (m, x # zs))
      else (case exchange_pass better x ys of (m, zs) \<Rightarrow> (m, y # zs)))"

lemma exchange_pass_length: "exchange_pass better x ys = (m, zs) \<Longrightarrow> length zs = length ys"
  by (induction ys arbitrary: x m zs) (auto split: if_splits prod.splits)

function exchange_sort :: "('a \<Rightarrow> 'a \<Rightarrow> bool) \<Rightarrow> 'a list \<Rightarrow> 'a list" where
  "exchange_sort better [] = []"
| "exchange_sort better (x # xs) = (case exchange_pass better x xs of (m, ys) \<Rightarrow> m # exchange_sort better ys)"
  by pat_completeness auto
termination by (relation "measure (\<lambda>(_, xs). length xs)") (auto dest: exchange_pass_length [OF sym])

definition extractiveSummarize :: "string \<Rightarrow> nat \<Rightarrow> string" where
  "extractiveSummarize s n =
     (let sentences = splitSentences s
      in if length sentences \<le> n then s
         else let scores = exchange_sort (\<lambda>a b. sc_score b < sc_score a) (score_sentences sentences);
                  top = exchange_sort (\<lambda>a b. sc_idx a < sc_idx b) (take n scores)
              in join '' '' (map (\<lambda>a. trim_space (sc_text a)) top))"

text \<open>\<^verbatim>\<open>summarize\<close>; the number asked for, as an integer, is 0 when it is missing.\<close>

definition cap_summarize :: "string \<Rightarrow> int \<Rightarrow> string \<times> string" where
  "cap_summarize s n = (if s = [] then ([], ''payload.text is required'')
     else (extractiveSummarize s (if n \<le> 0 then 3 else nat n), []))"

section \<open>What the summary is\<close>

lemma exchange_pass_mset: "exchange_pass better x ys = (m, zs) \<Longrightarrow> mset (m # zs) = mset (x # ys)"
  by (induction ys arbitrary: x m zs) (fastforce split: if_splits prod.splits)+

lemma exchange_sort_mset: "mset (exchange_sort better xs) = mset xs"
proof (induction better xs rule: exchange_sort.induct)
  case (2 better x xs)
  obtain m ys where p: "exchange_pass better x xs = (m, ys)" by fastforce
  with 2 exchange_pass_mset [OF p] show ?case by simp
qed simp

lemma exchange_sort_perm [simp]:
  "set (exchange_sort better xs) = set xs" "length (exchange_sort better xs) = length xs"
  by (metis exchange_sort_mset set_mset_mset, metis exchange_sort_mset size_mset)

context strict_pref begin

lemma exchange_pass_best:
  "exchange_pass better x ys = (m, zs) \<Longrightarrow> (m = x \<or> better m x) \<and> (\<forall>y \<in> set ys. \<not> better y m)"
proof (induction ys arbitrary: x m zs)
  case (Cons y ys)
  show ?case
  proof (cases "better y x")
    case True
    with Cons.prems obtain us where "exchange_pass better y ys = (m, us)" by (auto split: prod.splits)
    from Cons.IH [OF this] True show ?thesis using better_irrefl better_trans by auto
  next
    case False
    with Cons.prems obtain us where "exchange_pass better x ys = (m, us)" by (auto split: prod.splits)
    from Cons.IH [OF this] False show ?thesis using better_trans by auto
  qed
qed simp

lemma exchange_sort_sorted: "sorted_wrt (\<lambda>a b. \<not> better b a) (exchange_sort better xs)"
proof (induction "length xs" arbitrary: xs)
  case (Suc n)
  then obtain x us where xs: "xs = x # us" "length us = n" by (cases xs) auto
  obtain m ys where p: "exchange_pass better x us = (m, ys)" by fastforce
  note best = exchange_pass_best [OF p]
  then have "\<not> better x m" using better_irrefl better_trans [of x m x] by (cases "m = x") auto
  moreover have "set (m # ys) = set (x # us)" using exchange_pass_mset [OF p] by (metis set_mset_mset)
  ultimately have "\<forall>b \<in> set ys. \<not> better b m" using best by (metis list.set_intros(2) set_ConsD)
  with Suc.hyps(1) [of ys] exchange_pass_length [OF p] xs p show ?case by auto
qed simp

end

interpretation score_pref: strict_pref "\<lambda>a b. sc_score b < sc_score a"
  by unfold_locales auto

interpretation idx_pref: strict_pref "\<lambda>a b. sc_idx a < sc_idx b"
  by unfold_locales auto

lemma word_freq_exact:
  "word_freq sentences w = (if 3 < length w then count_list (concat (map sentence_words sentences)) w else 0)"
proof -
  have "fold (\<lambda>w freq. if 3 < length w then freq(w := freq w + 1) else freq) ws f w =
      f w + (if 3 < length w then count_list ws w else 0)" for ws :: "string list" and f :: "string \<Rightarrow> nat"
  proof (induction ws arbitrary: f)
    case (Cons v ws)
    have "fold (\<lambda>w freq. if 3 < length w then freq(w := freq w + 1) else freq) (v # ws) f w =
        (if 3 < length v then f(v := f v + 1) else f) w + (if 3 < length w then count_list ws w else 0)"
      unfolding fold_simps comp_def by (rule Cons)
    then show ?case by (cases "v = w") simp_all
  qed simp
  then show ?thesis by (simp add: word_freq_def)
qed

text \<open>The score of a sentence: how often its words of more than three letters occur in the text.\<close>

definition sentence_score :: "string list \<Rightarrow> nat \<Rightarrow> nat" where
  "sentence_score sentences i = sum_list (map (word_freq sentences) (sentence_words (sentences ! i)))"

lemma scored_nth: "i < length ss \<Longrightarrow> score_sentences ss ! i = \<lparr>sc_text = ss ! i, sc_score = sentence_score ss i, sc_idx = i\<rparr>"
  by (simp add: score_sentences_def sentence_score_def Let_def nth_enumerate_eq)

lemma scored_length [simp]: "length (score_sentences ss) = length ss"
  by (simp add: score_sentences_def Let_def)

lemma scored_mem: "a \<in> set (score_sentences ss) \<Longrightarrow> sc_idx a < length ss \<and> a = score_sentences ss ! sc_idx a"
  by (auto simp: in_set_conv_nth scored_nth)

lemma scored_idx: "map sc_idx (score_sentences ss) = [0..<length ss]"
  by (rule nth_equalityI) (simp_all add: scored_nth)

text \<open>The summary of a text with more than the wanted number of sentences consists of that many of its
  sentences in the order of the text, and no sentence left out has a higher score than one taken.\<close>

theorem summary_takes_best:
  assumes "ss = splitSentences s" "n < length ss"
  shows "\<exists>is. sorted_wrt (<) is \<and> length is = n \<and> set is \<subseteq> {..<length ss} \<and>
    extractiveSummarize s n = join '' '' (map (\<lambda>i. trim_space (ss ! i)) is) \<and>
    (\<forall>i \<in> set is. \<forall>j < length ss. j \<notin> set is \<longrightarrow> sentence_score ss j \<le> sentence_score ss i)"
proof -
  let ?sc = "exchange_sort (\<lambda>a b. sc_score b < sc_score a) (score_sentences ss)"
  let ?top = "exchange_sort (\<lambda>a b. sc_idx a < sc_idx b) (take n ?sc)"
  let ?is = "map sc_idx ?top"
  have mem: "a \<in> set ?sc \<Longrightarrow> sc_idx a < length ss \<and> a = score_sentences ss ! sc_idx a" for a using scored_mem by simp
  have top: "a \<in> set ?top \<longleftrightarrow> a \<in> set (take n ?sc)" for a by simp
  have "mset (map sc_idx ?sc) = mset [0..<length ss]" by (simp add: exchange_sort_mset flip: scored_idx)
  then have dist: "distinct (map sc_idx ?sc)" by (metis distinct_upt mset_eq_imp_distinct_iff)
  then have "distinct (map sc_idx (take n ?sc))" by (simp flip: take_map)
  then have "distinct ?is" by (metis exchange_sort_mset mset_eq_imp_distinct_iff mset_map)
  moreover have "sorted ?is" using idx_pref.exchange_sort_sorted [of "take n ?sc"] by (simp add: sorted_wrt_map not_less)
  ultimately have "sorted_wrt (<) ?is" by (simp add: strict_sorted_iff)
  moreover have "length ?is = n" using assms(2) by simp
  moreover have "set ?is \<subseteq> {..<length ss}" using mem by (auto dest: in_set_takeD)
  moreover have "extractiveSummarize s n = join '' '' (map (\<lambda>i. trim_space (ss ! i)) ?is)"
  proof -
    have "map (\<lambda>a. trim_space (sc_text a)) ?top = map (\<lambda>i. trim_space (ss ! i)) ?is"
    proof (simp, intro ballI)
      fix a assume "a \<in> set (take n ?sc)"
      then have "a \<in> set ?sc" by (rule in_set_takeD)
      from mem [OF this] show "trim_space (sc_text a) = trim_space (ss ! sc_idx a)" by (metis scored.select_convs(1) scored_nth)
    qed
    moreover have "extractiveSummarize s n = join '' '' (map (\<lambda>a. trim_space (sc_text a)) ?top)"
      using assms(2) by (simp add: extractiveSummarize_def Let_def flip: assms(1))
    ultimately show ?thesis by (simp only:)
  qed
  moreover have "sentence_score ss j \<le> sentence_score ss i" if ij: "i \<in> set ?is" "j < length ss" "j \<notin> set ?is" for i j
  proof -
    from ij(1) obtain a where a: "a \<in> set (take n ?sc)" "i = sc_idx a" by auto
    let ?b = "score_sentences ss ! j"
    have b: "sc_idx ?b = j" "sc_score ?b = sentence_score ss j" using ij(2) by (simp_all add: scored_nth)
    have "?b \<in> set ?sc" using ij(2) by simp
    moreover have "?b \<notin> set (take n ?sc)" using ij(3) b(1) by force
    ultimately have "?b \<in> set (drop n ?sc)" by (metis Un_iff append_take_drop_id set_append)
    with a(1) score_pref.exchange_sort_sorted [of "score_sentences ss"] have "\<not> sc_score a < sc_score ?b"
      by (metis append_take_drop_id sorted_wrt_append)
    moreover have "sc_score a = sentence_score ss i" using mem [OF in_set_takeD [OF a(1)]] a(2) by (metis scored.select_convs(2) scored_nth)
    ultimately show ?thesis using b(2) by simp
  qed
  ultimately show ?thesis by blast
qed

theorem summary_takes_best_witness:
  "\<exists>is. length is = 1 \<and> extractiveSummarize ''short one. gadgets beat gadgets. end.'' 1 = join '' '' (map (\<lambda>i. trim_space
     ([''short one.'', ''gadgets beat gadgets.'', ''end.''] ! i)) is)"
proof -
  have "splitSentences ''short one. gadgets beat gadgets. end.'' = [''short one.'', ''gadgets beat gadgets.'', ''end.'']"
    by (simp add: splitSentences_def trim_space_def is_space_def)
  from summary_takes_best [OF refl, of 1 "''short one. gadgets beat gadgets. end.''", unfolded this] show ?thesis by auto
qed

end
