(* ===== verification/AgentTasks.thy ===== *)
theory AgentTasks
  imports TextTasks MathEval
begin

text \<open>
  The capabilities of the agent (\<^verbatim>\<open>init\<close> in \<^verbatim>\<open>cmd/spectral-agent/main.go\<close>): a table from names to handlers that
  take the payload of a job and return a result and an error message, one of them empty. The payload is the
  decoded JSON object, whose numbers are float64. A capability that only calls the outside (name lookups, compression,
  regular expressions, processes, language models) is an entry of the table \<open>ce_other\<close>.
\<close>

section \<open>Payloads\<close>

type_synonym args = "(string \<times> json) list"

text \<open>What the capabilities use of the libraries and the machine: \<^verbatim>\<open>%q\<close>, the number formats, the JSON decoder and
  its indented form, the floating-point operations, what Unicode counts as space or punctuation, the working directory,
  \<^verbatim>\<open>os.Stat\<close>, the text of a base64 error, and random bytes.\<close>

record file_info =
  fi_name :: string
  fi_size :: int
  fi_mode :: string
  fi_modified :: string
  fi_is_dir :: bool

record 'n cap_env =
  ce_quote :: "string \<Rightarrow> string"
  ce_num :: "rat \<Rightarrow> string"
  ce_num0 :: "rat \<Rightarrow> string"
  ce_time :: "instant \<Rightarrow> string"
  ce_parse :: "string \<Rightarrow> string + json"
  ce_indent :: "json \<Rightarrow> string"
  ce_ops :: "'n float_ops"
  ce_fmt :: "'n \<Rightarrow> string"
  ce_sep :: "string \<Rightarrow> bool"
  ce_cwd :: "string option"
  ce_stat :: "string \<Rightarrow> string + file_info"
  ce_b64err :: "string \<Rightarrow> string"
  ce_rand :: "nat \<Rightarrow> string"
  ce_other :: "string \<Rightarrow> (args \<Rightarrow> string \<times> string) option"

definition str_arg :: "args \<Rightarrow> string \<Rightarrow> string" where
  "str_arg p k = (case map_of p k of Some (JStr s) \<Rightarrow> s | _ \<Rightarrow> [])"

fun as_float :: "json \<Rightarrow> rat option" where
  "as_float (JInt i) = Some (of_int i)"
| "as_float (JNum r) = Some r"
| "as_float _ = None"

definition num_arg :: "args \<Rightarrow> string \<Rightarrow> rat" where
  "num_arg p k = (case map_of p k of None \<Rightarrow> 0 | Some v \<Rightarrow> (case as_float v of None \<Rightarrow> 0 | Some r \<Rightarrow> r))"

text \<open>\<^verbatim>\<open>int(f)\<close>: truncation, and the least integer when the value does not fit (as on amd64).\<close>

definition float_to_int :: "rat \<Rightarrow> int" where
  "float_to_int r = (let i = (if r < 0 then \<lceil>r\<rceil> else \<lfloor>r\<rfloor>) in if is_i64 i then i else - (2 ^ 63))"

text \<open>\<^verbatim>\<open>json.Marshal\<close> of a decoded value.\<close>

fun json_text :: "(rat \<Rightarrow> string) \<Rightarrow> (instant \<Rightarrow> string) \<Rightarrow> json \<Rightarrow> string" where
  "json_text num tm JNull = ''null''"
| "json_text num tm (JBool b) = (if b then ''true'' else ''false'')"
| "json_text num tm (JInt i) = num (of_int i)"
| "json_text num tm (JNum r) = num r"
| "json_text num tm (JStr s) = json_quote s"
| "json_text num tm (JTime t) = json_quote (tm t)"
| "json_text num tm (JArr xs) = json_array (map (json_text num tm) xs)"
| "json_text num tm (JObj kvs) = json_object (map (\<lambda>(k, v). json_member k (json_text num tm v)) kvs)"

abbreviation marshal :: "'n cap_env \<Rightarrow> json \<Rightarrow> string" where
  "marshal E \<equiv> json_text (ce_num E) (ce_time E)"

definition missing :: "string \<Rightarrow> string \<times> string" where
  "missing k = ([], ''payload.'' @ k @ '' is required'')"

section \<open>Base64\<close>

definition b64_char :: "nat \<Rightarrow> char" where
  "b64_char n = (if n < 26 then char_of (65 + n) else if n < 52 then char_of (71 + n) else if n < 62 then char_of (n - 4)
     else if n = 62 then CHR ''+'' else CHR ''/'')"

definition b64_val :: "char \<Rightarrow> nat option" where
  "b64_val c = (let n = of_char c in
     if 65 \<le> n \<and> n \<le> 90 then Some (n - 65) else if 97 \<le> n \<and> n \<le> 122 then Some (n - 71)
     else if 48 \<le> n \<and> n \<le> 57 then Some (n + 4) else if c = CHR ''+'' then Some 62 else if c = CHR ''/'' then Some 63 else None)"

fun base64_encode :: "string \<Rightarrow> string" where
  "base64_encode (a # b # c # rest) =
     (let n = 65536 * of_char a + 256 * of_char b + of_char c
      in [b64_char (n div 262144), b64_char (n div 4096 mod 64), b64_char (n div 64 mod 64), b64_char (n mod 64)] @ base64_encode rest)"
| "base64_encode [a, b] =
     (let n = 65536 * of_char a + 256 * of_char b in [b64_char (n div 262144), b64_char (n div 4096 mod 64), b64_char (n div 64 mod 64), CHR ''=''])"
| "base64_encode [a] = (let n = 65536 * of_char a in [b64_char (n div 262144), b64_char (n div 4096 mod 64), CHR ''='', CHR ''=''])"
| "base64_encode [] = []"

text \<open>Decoding ignores line ends; the bits left over before the padding are not looked at.\<close>

fun b64_groups :: "string \<Rightarrow> string option" where
  "b64_groups [] = Some []"
| "b64_groups (a # b # c # d # rest) =
     (case (b64_val a, b64_val b) of
        (Some x, Some y) \<Rightarrow>
          (if d = CHR ''='' then
             (if rest \<noteq> [] then None
              else if c = CHR ''='' then Some [char_of (x * 4 + y div 16)]
              else (case b64_val c of None \<Rightarrow> None | Some z \<Rightarrow> Some [char_of (x * 4 + y div 16), char_of (y * 16 + z div 4)]))
           else (case (b64_val c, b64_val d, b64_groups rest) of
               (Some z, Some w, Some bs) \<Rightarrow> Some ([char_of (x * 4 + y div 16), char_of (y * 16 + z div 4), char_of (z * 64 + w)] @ bs)
             | _ \<Rightarrow> None))
      | _ \<Rightarrow> None)"
| "b64_groups _ = None"

definition base64_decode :: "string \<Rightarrow> string option" where
  "base64_decode s = b64_groups (filter (\<lambda>c. c \<noteq> CHR 0x0A \<and> c \<noteq> CHR 0x0D) s)"

section \<open>Simple capabilities\<close>

definition cap_hash :: "args \<Rightarrow> string \<times> string" where
  "cap_hash p = (let data = str_arg p ''data'' in if data = [] then missing ''data'' else (''sha256:'' @ hex (sha256 data), []))"

definition cap_math :: "'n cap_env \<Rightarrow> args \<Rightarrow> string \<times> string" where
  "cap_math E p = (let expr = str_arg p ''expr'' in
     if expr = [] then missing ''expr''
     else case evalMath (ce_ops E) (trim_space expr) of
            Some (Inr v) \<Rightarrow> (ce_fmt E v, [])
          | Some (Inl e) \<Rightarrow> ([], e)
          | None \<Rightarrow> ([], []))"

definition cap_sleep :: "'n cap_env \<Rightarrow> args \<Rightarrow> string \<times> string" where
  "cap_sleep E p = (let s = num_arg p ''seconds''; s1 = (if s \<le> 0 then 1 else s); s2 = (if 30 < s1 then 30 else s1)
     in (''slept '' @ ce_num0 E s2 @ '' seconds'', []))"

definition cap_base64_encode :: "args \<Rightarrow> string \<times> string" where
  "cap_base64_encode p = (let data = str_arg p ''data'' in if data = [] then missing ''data'' else (base64_encode data, []))"

definition cap_base64_decode :: "'n cap_env \<Rightarrow> args \<Rightarrow> string \<times> string" where
  "cap_base64_decode E p = (let data = str_arg p ''data'' in
     if data = [] then missing ''data''
     else case base64_decode data of None \<Rightarrow> ([], ''invalid base64: '' @ ce_b64err E data) | Some b \<Rightarrow> (b, []))"

text \<open>\<^verbatim>\<open>generate\<close>: \<open>buf\<close> is 16 random bytes.\<close>

definition mask_byte :: "nat \<Rightarrow> nat \<Rightarrow> char \<Rightarrow> char" where
  "mask_byte keep bits c = char_of ((of_char c :: nat) mod keep + bits)"

definition uuid :: "string \<Rightarrow> string" where
  "uuid buf0 =
     (let buf = buf0[6 := mask_byte 16 64 (buf0 ! 6), 8 := mask_byte 64 128 (buf0 ! 8)]; part = (\<lambda>a b. hex (take (b - a) (drop a buf)))
      in part 0 4 @ ''-'' @ part 4 6 @ ''-'' @ part 6 8 @ ''-'' @ part 8 10 @ ''-'' @ part 10 16)"

definition charset :: string where
  "charset = ''abcdefghijklmnopqrstuvwxyzABCDEFGHIJKLMNOPQRSTUVWXYZ0123456789!@#$%''"

definition generated :: "string \<Rightarrow> string \<Rightarrow> string option" where
  "generated ty buf =
     (if ty = ''uuid'' then Some (uuid buf)
      else if ty = ''token'' then Some (hex buf)
      else if ty = ''password'' then Some (map (\<lambda>c. charset ! (of_char c mod length charset)) buf)
      else if ty = ''bytes'' then Some (base64_encode buf)
      else None)"

definition cap_generate :: "'n cap_env \<Rightarrow> args \<Rightarrow> string \<times> string" where
  "cap_generate E p =
     (let ty0 = str_arg p ''type''; ty = (if ty0 = [] then ''uuid'' else ty0);
          c0 = float_to_int (num_arg p ''count''); c1 = (if c0 \<le> 0 then 1 else c0); count = nat (if 100 < c1 then 100 else c1)
      in case sequence_opt (map (\<lambda>i. generated ty (ce_rand E i)) [0..<count]) of
           None \<Rightarrow> ([], ''unknown type '' @ ce_quote E ty @ '' (uuid|token|password|bytes)'')
         | Some rs \<Rightarrow> if count = 1 then (hd rs, []) else (marshal E (JArr (map JStr rs)), []))"

section \<open>Looking into a document\<close>

fun go_type :: "json \<Rightarrow> string" where
  "go_type JNull = ''<nil>''"
| "go_type (JBool _) = ''bool''"
| "go_type (JStr _) = ''string''"
| "go_type (JTime _) = ''string''"
| "go_type (JArr _) = ''[]interface {}''"
| "go_type (JObj _) = ''map[string]interface {}''"
| "go_type _ = ''float64''"

fun json_walk :: "(string \<Rightarrow> string) \<Rightarrow> string list \<Rightarrow> json \<Rightarrow> string + json" where
  "json_walk quote [] cur = Inr cur"
| "json_walk quote (part0 # parts) cur =
     (let part = trim_space part0 in
      if part = [] then json_walk quote parts cur
      else case cur of
             JObj kvs \<Rightarrow> (case map_of kvs part of None \<Rightarrow> Inl (''key '' @ quote part @ '' not found'') | Some v \<Rightarrow> json_walk quote parts v)
           | _ \<Rightarrow> Inl (''cannot index into '' @ go_type cur @ '' with key '' @ quote part))"

definition cap_json_query :: "'n cap_env \<Rightarrow> args \<Rightarrow> string \<times> string" where
  "cap_json_query E p =
     (let raw = str_arg p ''data''; query = str_arg p ''query'' in
      if raw = [] then missing ''data''
      else case ce_parse E raw of
             Inl e \<Rightarrow> ([], ''invalid JSON: '' @ e)
           | Inr doc \<Rightarrow>
               if query = [] then (ce_indent E doc, [])
               else case json_walk (ce_quote E) (split_on (CHR ''.'') query) doc of
                      Inl e \<Rightarrow> ([], e) | Inr v \<Rightarrow> (marshal E v, []))"

section \<open>Files\<close>

text \<open>\<^verbatim>\<open>filepath.Clean\<close> of a rooted path, by its components: \<open>out\<close> holds the components kept, last first.\<close>

fun clean_parts :: "string list \<Rightarrow> string list \<Rightarrow> string list" where
  "clean_parts [] out = rev out"
| "clean_parts (c # cs) out =
     (if c = [] \<or> c = ''.'' then clean_parts cs out
      else if c = ''..'' then clean_parts cs (drop 1 out)
      else clean_parts cs (c # out))"

definition clean_rooted :: "string \<Rightarrow> string" where
  "clean_rooted path = ''/'' @ join ''/'' (clean_parts (split_on (CHR ''/'') path) [])"

text \<open>\<^verbatim>\<open>filepath.Abs\<close>; without a working directory a relative path has none.\<close>

definition filepath_Abs :: "string option \<Rightarrow> string \<Rightarrow> string option" where
  "filepath_Abs cwd path =
     (if prefix ''/'' path then Some (clean_rooted path)
      else (case cwd of None \<Rightarrow> None | Some d \<Rightarrow> Some (clean_rooted (d @ ''/'' @ path))))"

definition stat_roots :: "string list" where
  "stat_roots = [''/tmp/'', ''/home/'', ''/var/log/'']"

definition cap_file_stat :: "'n cap_env \<Rightarrow> args \<Rightarrow> string \<times> string" where
  "cap_file_stat E p =
     (let path = str_arg p ''path'' in
      if path = [] then missing ''path''
      else case filepath_Abs (ce_cwd E) path of
             None \<Rightarrow> ([], ''invalid path'')
           | Some abspath \<Rightarrow>
               if \<not> list_ex (\<lambda>r. prefix r abspath) stat_roots
               then ([], ''path not in allowed directories (/tmp, /home, /var/log)'')
               else case ce_stat E abspath of
                      Inl e \<Rightarrow> ([], ''stat error: '' @ e)
                    | Inr i \<Rightarrow> (marshal E (JObj [(''is_dir'', JBool (fi_is_dir i)), (''mode'', JStr (fi_mode i)),
                          (''modified'', JStr (fi_modified i)), (''name'', JStr (fi_name i)), (''path'', JStr abspath),
                          (''size'', JInt (fi_size i))]), []))"

section \<open>The table and the chain of capabilities\<close>

fun json_depth :: "json \<Rightarrow> nat" where
  "json_depth (JArr xs) = Suc (foldr max (map json_depth xs) 0)"
| "json_depth (JObj kvs) = Suc (foldr max (map (\<lambda>(_, v). json_depth v) kvs) 0)"
| "json_depth _ = 0"

definition with_prev :: "string \<Rightarrow> args \<Rightarrow> args" where
  "with_prev prev p = (if prev = [] then p else insort_key fst (''prev_result'', JStr prev) (filter (\<lambda>e. fst e \<noteq> ''prev_result'') p))"

definition step_payload :: "string \<Rightarrow> args \<Rightarrow> args" where
  "step_payload prev step = with_prev prev (case map_of step ''payload'' of Some (JObj kvs) \<Rightarrow> kvs | _ \<Rightarrow> [])"

lemma foldr_max: "foldr max xs (a :: nat) = Max (insert a (set xs))"
  by (induction xs) (simp_all add: insert_commute)

lemma depth_elem: "x \<in> set xs \<Longrightarrow> json_depth x < json_depth (JArr xs)"
  by (simp add: foldr_max le_imp_less_Suc)

lemma depth_field: "(k, v) \<in> set kvs \<Longrightarrow> json_depth v < json_depth (JObj kvs)"
  by (force simp: foldr_max intro!: le_imp_less_Suc Max_ge)

lemma depth_with_prev: "json_depth (JObj (with_prev prev p)) \<le> json_depth (JObj p)"
proof -
  have "set (with_prev prev p) \<subseteq> insert (''prev_result'', JStr prev) (set p)" by (auto simp: with_prev_def set_insort_key)
  then have "set (map (\<lambda>(_, v). json_depth v) (with_prev prev p)) \<subseteq> insert 0 (set (map (\<lambda>(_, v). json_depth v) p))" by force
  then have "Max (insert 0 (set (map (\<lambda>(_, v). json_depth v) (with_prev prev p)))) \<le> Max (insert 0 (set (map (\<lambda>(_, v). json_depth v) p)))"
    by (intro Max_mono) auto
  then show ?thesis by (simp add: foldr_max)
qed

lemma depth_step_payload: "json_depth (JObj (step_payload prev step)) \<le> json_depth (JObj step)"
proof -
  have entries: "json_depth (JObj p) \<le> json_depth (JObj step)" if "map_of step ''payload'' = Some (JObj p)" for p
    using depth_field [OF map_of_SomeD [OF that]] by simp
  have none: "json_depth (JObj []) \<le> json_depth (JObj step)" by simp
  show ?thesis
  proof (cases "map_of step ''payload''")
    case None
    with depth_with_prev [of prev "[]"] none show ?thesis by (simp add: step_payload_def)
  next
    case (Some v)
    show ?thesis
    proof (cases "\<exists>p. v = JObj p")
      case True
      then obtain p where v: "v = JObj p" by blast
      with Some have "step_payload prev step = with_prev prev p" by (simp add: step_payload_def)
      moreover have "json_depth (JObj p) \<le> json_depth (JObj step)" using entries Some v by simp
      ultimately show ?thesis using depth_with_prev [of prev p] by (simp only:)
    next
      case False
      with Some have "step_payload prev step = with_prev prev []" by (cases v) (simp_all add: step_payload_def)
      then show ?thesis using depth_with_prev [of prev "[]"] none by (simp only:)
    qed
  qed
qed

lemma depth_tail: "json_depth (JArr xs) \<le> json_depth (JArr (x # xs))"
  by simp

text \<open>The capabilities that are not made of others.\<close>

definition builtin :: "'n cap_env \<Rightarrow> string \<Rightarrow> (args \<Rightarrow> string \<times> string) option" where
  "builtin E name =
     (if name = ''echo'' then Some (\<lambda>p. (marshal E (JObj p), []))
      else if name = ''hash'' then Some cap_hash
      else if name = ''reverse'' then Some (\<lambda>p. cap_reverse (str_arg p ''text''))
      else if name = ''count-words'' then Some (\<lambda>p. cap_count_words (ce_sep E) (str_arg p ''text''))
      else if name = ''math'' then Some (cap_math E)
      else if name = ''summarize'' then Some (\<lambda>p. cap_summarize (str_arg p ''text'') (float_to_int (num_arg p ''sentences'')))
      else if name = ''sleep'' then Some (cap_sleep E)
      else if name = ''base64-encode'' then Some cap_base64_encode
      else if name = ''base64-decode'' then Some (cap_base64_decode E)
      else if name = ''generate'' then Some (cap_generate E)
      else if name = ''json-query'' then Some (cap_json_query E)
      else if name = ''file-stat'' then Some (cap_file_stat E)
      else ce_other E name)"

definition trace_entry :: "nat \<Rightarrow> string \<Rightarrow> string \<Rightarrow> json" where
  "trace_entry i cap r = JObj [(''cap'', JStr cap), (''result'', JStr r), (''step'', JInt (int i))]"

definition chain_reply :: "'n cap_env \<Rightarrow> nat \<Rightarrow> string \<Rightarrow> json list \<Rightarrow> string" where
  "chain_reply E n final trace = marshal E (JObj [(''final_result'', JStr final), (''steps'', JInt (int n)), (''trace'', JArr trace)])"

text \<open>A name that is not in the table has no result.\<close>

function (sequential) run_cap :: "'n cap_env \<Rightarrow> string \<Rightarrow> args \<Rightarrow> (string \<times> string) option"
  and run_steps :: "'n cap_env \<Rightarrow> nat \<Rightarrow> string \<Rightarrow> json list \<Rightarrow> string + string \<times> json list" where
  "run_cap E name p =
     (if name = ''pipeline'' then
        Some (case map_of p ''steps'' of
            Some (JArr steps) \<Rightarrow>
              if steps = [] then ([], ''payload.steps (array of {cap, payload}) is required'')
              else (case run_steps E 0 [] steps of Inl e \<Rightarrow> ([], e) | Inr (final, trace) \<Rightarrow> (chain_reply E (length steps) final trace, []))
          | _ \<Rightarrow> ([], ''payload.steps (array of {cap, payload}) is required''))
      else map_option (\<lambda>h. h p) (builtin E name))"
| "run_steps E i prev [] = Inr (prev, [])"
| "run_steps E i prev (JObj step # rest) =
     (let cap = str_arg step ''cap'' in
      if cap = [] then Inl (''step '' @ show_nat i @ '' missing cap'')
      else case run_cap E cap (step_payload prev step) of
             None \<Rightarrow> Inl (''step '' @ show_nat i @ '': unknown capability '' @ ce_quote E cap)
           | Some (r, e) \<Rightarrow>
               if e \<noteq> [] then Inl (''step '' @ show_nat i @ '' ('' @ cap @ '') failed: '' @ e)
               else (case run_steps E (Suc i) r rest of
                       Inl err \<Rightarrow> Inl err
                     | Inr (final, trace) \<Rightarrow> Inr (final, trace_entry i cap r # trace)))"
| "run_steps E i prev (x # rest) = Inl (''step '' @ show_nat i @ '' is not an object'')"
  by pat_completeness auto
termination
proof (relation "measures [case_sum (\<lambda>(E, n, p). json_depth (JObj p)) (\<lambda>(E, i, r, steps). json_depth (JArr steps)),
    case_sum (\<lambda>_. 0) (\<lambda>(E, i, r, steps). length steps)]")
  fix E :: "'n cap_env" and name p v steps
  assume "map_of p ''steps'' = Some v" "v = JArr steps"
  then have "json_depth (JArr steps) < json_depth (JObj p)" using depth_field map_of_SomeD by fastforce
  then show "(Inr (E, 0, [], steps), Inl (E, name, p))
    \<in> measures [case_sum (\<lambda>(E, n, p). json_depth (JObj p)) (\<lambda>(E, i, r, steps). json_depth (JArr steps)),
        case_sum (\<lambda>_. 0) (\<lambda>(E, i, r, steps). length steps)]" by simp
next
  fix E :: "'n cap_env" and i prev step rest cap
  have "json_depth (JObj step) < json_depth (JArr (JObj step # rest))" by (rule depth_elem) simp
  with depth_step_payload [of prev step] have "json_depth (JObj (step_payload prev step)) < json_depth (JArr (JObj step # rest))" by (rule le_less_trans)
  then show "(Inl (E, cap, step_payload prev step), Inr (E, i, prev, JObj step # rest))
    \<in> measures [case_sum (\<lambda>(E, n, p). json_depth (JObj p)) (\<lambda>(E, i, r, steps). json_depth (JArr steps)),
        case_sum (\<lambda>_. 0) (\<lambda>(E, i, r, steps). length steps)]" by simp
next
  fix E :: "'n cap_env" and i prev step rest r
  have "json_depth (JArr rest) \<le> json_depth (JArr (JObj step # rest))" by (rule depth_tail)
  then show "(Inr (E, Suc i, r, rest), Inr (E, i, prev, JObj step # rest))
    \<in> measures [case_sum (\<lambda>(E, n, p). json_depth (JObj p)) (\<lambda>(E, i, r, steps). json_depth (JArr steps)),
        case_sum (\<lambda>_. 0) (\<lambda>(E, i, r, steps). length steps)]" by (auto simp: le_less)
qed simp_all

declare run_cap.simps [simp del]

section \<open>Properties\<close>

lemma b64_val_char: "n < 64 \<Longrightarrow> b64_val (b64_char n) = Some n"
proof -
  assume "n < 64"
  then consider "n < 26" | "26 \<le> n" "n < 52" | "52 \<le> n" "n < 62" | "n = 62" | "n = 63" by linarith
  then show ?thesis
  proof cases
    case 1
    then have "(of_char (b64_char n) :: nat) = 65 + n" by (simp add: b64_char_def)
    with 1 show ?thesis by (simp add: b64_val_def Let_def)
  next
    case 2
    then have "(of_char (b64_char n) :: nat) = 71 + n" by (simp add: b64_char_def)
    with 2 show ?thesis by (simp add: b64_val_def Let_def)
  next
    case 3
    then have "(of_char (b64_char n) :: nat) = n - 4" by (simp add: b64_char_def)
    moreover have "48 \<le> n - 4" "n - 4 \<le> 57" "n - 4 + 4 = n" using 3 by linarith+
    ultimately show ?thesis by (simp add: b64_val_def Let_def)
  qed (simp_all add: b64_val_def b64_char_def Let_def)
qed

lemma b64_char_plain: "n < 64 \<Longrightarrow> b64_char n \<noteq> CHR ''='' \<and> b64_char n \<noteq> CHR 0x0A \<and> b64_char n \<noteq> CHR 0x0D"
  using b64_val_char [of n] by (auto simp: b64_val_def Let_def)

lemma sextets:
  fixes n :: nat
  shows "n div 262144 * 4 + n div 4096 mod 64 div 16 = n div 65536"
    "(n div 4096 mod 64 * 16 + n div 64 mod 64 div 4) mod 256 = n div 256 mod 256"
    "(n div 64 mod 64 * 64 + n mod 64) mod 256 = n mod 256"
proof -
  have a: "m div 64 * 4 + m mod 64 div 16 = m div 16" for m :: nat
  proof -
    have "m mod 64 div 16 = m div 16 mod 4" using mod_mult2_eq [of m 16 4] by simp
    moreover have "m div 64 = m div 16 div 4" by (simp flip: div_mult2_eq)
    ultimately show ?thesis by simp
  qed
  have b: "(m div 64 mod 64 * 16 + m mod 64 div 4) mod 256 = m div 4 mod 256" for m :: nat
  proof -
    have "m mod 64 div 4 = m div 4 mod 16" using mod_mult2_eq [of m 4 16] by simp
    moreover have "m div 64 = m div 4 div 16" by (simp flip: div_mult2_eq)
    moreover have "m div 4 div 16 mod 64 * 16 + m div 4 mod 16 = m div 4 mod 1024" using mod_mult2_eq [of "m div 4" 16 64] by simp
    ultimately have "m div 64 mod 64 * 16 + m mod 64 div 4 = m div 4 mod 1024" by simp
    then show ?thesis by (simp add: mod_mod_cancel)
  qed
  show "n div 262144 * 4 + n div 4096 mod 64 div 16 = n div 65536" using a [of "n div 4096"] by (simp flip: div_mult2_eq)
  show "(n div 4096 mod 64 * 16 + n div 64 mod 64 div 4) mod 256 = n div 256 mod 256" using b [of "n div 64"] by (simp flip: div_mult2_eq)
  have "n div 64 mod 64 * 64 + n mod 64 = n mod 4096" using mod_mult2_eq [of n 64 64] by simp
  then show "(n div 64 mod 64 * 64 + n mod 64) mod 256 = n mod 256" by (simp add: mod_mod_cancel)
qed

lemma char_of_eqI: "k mod 256 = of_char c \<Longrightarrow> char_of (k :: nat) = c"
  by (metis char_of_mod_256 char_of_char)

lemma triple_bytes:
  fixes n :: nat
  assumes "n = 65536 * a + 256 * b + c" "a < 256" "b < 256" "c < 256"
  shows "n div 262144 < 64" "n div 65536 = a" "n div 256 mod 256 = b" "n mod 256 = c"
proof -
  show "n div 262144 < 64" using assms by (simp add: less_mult_imp_div_less)
  show "n div 65536 = a" by (rule div_nat_eqI) (use assms in auto)
  have d: "n div 256 = 256 * a + b" by (rule div_nat_eqI) (use assms in auto)
  then show "n div 256 mod 256 = b" using assms by simp
  have "n = n div 256 * 256 + c" using assms(1) d by simp
  then show "n mod 256 = c" using assms(4) by (metis mod_less mod_mult_self3)
qed

lemma b64_groups_encode: "b64_groups (base64_encode s) = Some s"
proof (induction s rule: base64_encode.induct)
  case (1 a b c rest)
  let ?n = "65536 * of_char a + 256 * of_char b + of_char c :: nat"
  note t = triple_bytes [OF refl, of "of_char a" "of_char b" "of_char c", simplified]
  have "char_of (?n div 262144 * 4 + ?n div 4096 mod 64 div 16) = a" "char_of (?n div 4096 mod 64 * 16 + ?n div 64 mod 64 div 4) = b"
    "char_of (?n div 64 mod 64 * 64 + ?n mod 64) = c"
    by (rule char_of_eqI; simp only: sextets t; simp)+
  with 1 t(1) show ?case by (simp add: Let_def b64_val_char b64_char_plain)
next
  case (2 a b)
  let ?n = "65536 * of_char a + 256 * of_char b :: nat"
  note t = triple_bytes [of ?n "of_char a" "of_char b" 0, simplified]
  have "char_of (?n div 262144 * 4 + ?n div 4096 mod 64 div 16) = a" "char_of (?n div 4096 mod 64 * 16 + ?n div 64 mod 64 div 4) = b"
    by (rule char_of_eqI; simp only: sextets t; simp)+
  with t(1) show ?case by (simp add: Let_def b64_val_char b64_char_plain)
next
  case (3 a)
  let ?n = "65536 * of_char a :: nat"
  note t = triple_bytes [of ?n "of_char a" 0 0, simplified]
  have "char_of (?n div 262144 * 4 + ?n div 4096 mod 64 div 16) = a" by (rule char_of_eqI; simp only: sextets t; simp)
  with t(1) show ?case by (simp add: Let_def b64_val_char b64_char_plain)
qed simp

lemma base64_encode_no_newline: "CHR 0x0A \<notin> set (base64_encode s) \<and> CHR 0x0D \<notin> set (base64_encode s)"
proof (induction s rule: base64_encode.induct)
  case (1 a b c rest)
  let ?n = "65536 * of_char a + 256 * of_char b + of_char c :: nat"
  note t = triple_bytes [OF refl, of "of_char a" "of_char b" "of_char c", simplified]
  from 1 b64_char_plain [of "?n div 262144"] b64_char_plain [of "?n div 4096 mod 64"] b64_char_plain [of "?n div 64 mod 64"]
    b64_char_plain [of "?n mod 64"] t(1) show ?case by (auto simp: Let_def)
next
  case (2 a b)
  let ?n = "65536 * of_char a + 256 * of_char b :: nat"
  note t = triple_bytes [of ?n "of_char a" "of_char b" 0, simplified]
  from b64_char_plain [of "?n div 262144"] b64_char_plain [of "?n div 4096 mod 64"] b64_char_plain [of "?n div 64 mod 64"] t(1)
  show ?case by (auto simp: Let_def)
next
  case (3 a)
  let ?n = "65536 * of_char a :: nat"
  note t = triple_bytes [of ?n "of_char a" 0 0, simplified]
  from b64_char_plain [of "?n div 262144"] b64_char_plain [of "?n div 4096 mod 64"] t(1) show ?case by (auto simp: Let_def)
qed simp

lemma base64_round_trip: "base64_decode (base64_encode s) = Some s"
proof -
  have "filter (\<lambda>c. c \<noteq> CHR 0x0A \<and> c \<noteq> CHR 0x0D) (base64_encode s) = base64_encode s"
    using base64_encode_no_newline [of s] by (auto simp: filter_id_conv)
  then show ?thesis by (simp add: base64_decode_def b64_groups_encode)
qed

text \<open>A path that names, component by component, something below one of the directories that may be looked at.\<close>

definition plain_part :: "string \<Rightarrow> bool" where
  "plain_part c \<longleftrightarrow> c \<noteq> [] \<and> c \<noteq> ''.'' \<and> c \<noteq> ''..'' \<and> CHR ''/'' \<notin> set c"

definition confined :: "string \<Rightarrow> bool" where
  "confined path \<longleftrightarrow> (\<exists>ps. path = ''/'' @ join ''/'' ps \<and> (\<forall>c \<in> set ps. plain_part c)) \<and>
     (\<exists>r \<in> set stat_roots. prefix r path)"

lemma split_on_pieces: "w \<in> set (split_on d s) \<Longrightarrow> d \<notin> set w"
proof (induction s arbitrary: w)
  case (Cons c cs)
  then show ?case by (cases "split_on d cs") (auto split: if_splits)
qed simp

lemma clean_parts_clean:
  assumes "\<forall>c \<in> set cs. CHR ''/'' \<notin> set c" "\<forall>c \<in> set out. plain_part c"
  shows "\<forall>c \<in> set (clean_parts cs out). plain_part c"
  using assms
proof (induction cs out rule: clean_parts.induct)
  case (2 c cs out)
  have "\<forall>c \<in> set (drop 1 out). plain_part c"
    using 2(5) set_drop_subset [of 1 out] by auto
  note up = this
  have cs: "\<forall>c \<in> set cs. CHR ''/'' \<notin> set c" and c: "CHR ''/'' \<notin> set c" using 2(4) by simp_all
  consider (skip) "c = [] \<or> c = ''.''" | (parent) "\<not> (c = [] \<or> c = ''.'')" "c = ''..''" | (keep) "\<not> (c = [] \<or> c = ''.'')" "c \<noteq> ''..''" by blast
  then show ?case
  proof cases
    case skip
    from 2(1) [OF skip cs 2(5)] skip show ?thesis by (subst clean_parts.simps) (rule if_P [THEN ssubst])
  next
    case parent
    from 2(2) [OF parent cs up] parent show ?thesis by (simp only: clean_parts.simps if_False if_True simp_thms(6))
  next
    case keep
    from keep c have "plain_part c" unfolding plain_part_def by blast
    then have "\<forall>d \<in> set (c # out). plain_part d" using 2(5) by simp
    from 2(3) [OF keep cs this] keep show ?thesis by (simp only: clean_parts.simps if_False)
  qed
qed simp

lemma clean_rooted_clean:
  "\<exists>ps. clean_rooted path = ''/'' @ join ''/'' ps \<and> (\<forall>c \<in> set ps. plain_part c)"
proof -
  have "\<forall>c \<in> set (split_on (CHR ''/'') path). CHR ''/'' \<notin> set c" using split_on_pieces by blast
  from clean_parts_clean [OF this, of "[]"] show ?thesis unfolding clean_rooted_def by auto
qed

lemma Abs_confined:
  assumes "filepath_Abs cwd path = Some p" "r \<in> set stat_roots" "prefix r p"
  shows "confined p"
proof -
  from assms(1) obtain q where "p = clean_rooted q" by (auto simp: filepath_Abs_def split: if_splits option.splits)
  with clean_rooted_clean [of q] assms(2,3) show ?thesis unfolding confined_def by blast
qed


text \<open>The results of a chain of steps: each is run with the result of the step before it in its payload.\<close>

inductive steps_chain :: "'n cap_env \<Rightarrow> string \<Rightarrow> args list \<Rightarrow> string list \<Rightarrow> bool" for E :: "'n cap_env" where
  "steps_chain E prev [] []"
| "str_arg s ''cap'' \<noteq> [] \<Longrightarrow> run_cap E (str_arg s ''cap'') (step_payload prev s) = Some (r, []) \<Longrightarrow> steps_chain E r ss rs \<Longrightarrow>
     steps_chain E prev (s # ss) (r # rs)"

text \<open>What is reported of a step that cannot be run.\<close>

definition step_error :: "'n cap_env \<Rightarrow> string \<Rightarrow> json \<Rightarrow> string \<Rightarrow> bool" where
  "step_error E prev step msg \<longleftrightarrow>
     (case step of
        JObj s \<Rightarrow>
          (let cap = str_arg s ''cap''
           in if cap = [] then msg = '' missing cap''
              else (case run_cap E cap (step_payload prev s) of
                      None \<Rightarrow> msg = '': unknown capability '' @ ce_quote E cap
                    | Some (r, e) \<Rightarrow> e \<noteq> [] \<and> msg = '' ('' @ cap @ '') failed: '' @ e))
      | _ \<Rightarrow> msg = '' is not an object'')"

fun trace_of :: "nat \<Rightarrow> args list \<Rightarrow> string list \<Rightarrow> json list" where
  "trace_of i (s # ss) (r # rs) = trace_entry i (str_arg s ''cap'') r # trace_of (Suc i) ss rs"
| "trace_of i _ _ = []"

lemma run_steps_cases:
  "(\<exists>ss rs. steps = map JObj ss \<and> steps_chain E prev ss rs \<and> run_steps E i prev steps = Inr (last (prev # rs), trace_of i ss rs)) \<or>
   (\<exists>k ss rs msg. k < length steps \<and> take k steps = map JObj ss \<and> steps_chain E prev ss rs \<and> step_error E (last (prev # rs)) (steps ! k) msg \<and>
      run_steps E i prev steps = Inl (''step '' @ show_nat (i + k) @ msg))"
proof (induction steps arbitrary: i prev)
  case Nil
  have "steps_chain E prev [] []" by (rule steps_chain.intros)
  moreover have "run_steps E i prev [] = Inr (last [prev], trace_of i [] [])" by simp
  ultimately show ?case by (intro disjI1 exI [of _ "[]"]) simp
next
  case (Cons x steps)
  show ?case
  proof (cases "\<exists>s r. x = JObj s \<and> str_arg s ''cap'' \<noteq> [] \<and> run_cap E (str_arg s ''cap'') (step_payload prev s) = Some (r, [])")
    case True
    then obtain s r where x: "x = JObj s" and c: "str_arg s ''cap'' \<noteq> []"
      and r: "run_cap E (str_arg s ''cap'') (step_payload prev s) = Some (r, [])" by blast
    then have eq: "run_steps E i prev (x # steps) = (case run_steps E (Suc i) r steps of Inl err \<Rightarrow> Inl err
        | Inr (final, trace) \<Rightarrow> Inr (final, trace_entry i (str_arg s ''cap'') r # trace))" by (simp add: Let_def)
    from Cons.IH [of r "Suc i"] show ?thesis
    proof (elim disjE exE conjE)
      fix ss rs assume "steps = map JObj ss" "steps_chain E r ss rs" "run_steps E (Suc i) r steps = Inr (last (r # rs), trace_of (Suc i) ss rs)"
      with x c r eq show ?thesis by (intro disjI1 exI [of _ "s # ss"] exI [of _ "r # rs"]) (simp add: steps_chain.intros)
    next
      fix k ss rs msg
      assume k: "k < length steps" "take k steps = map JObj ss" "steps_chain E r ss rs" "step_error E (last (r # rs)) (steps ! k) msg"
        "run_steps E (Suc i) r steps = Inl (''step '' @ show_nat (Suc i + k) @ msg)"
      with x c r eq show ?thesis
        by (intro disjI2 exI [of _ "Suc k"] exI [of _ "s # ss"] exI [of _ "r # rs"] exI [of _ msg]) (simp add: steps_chain.intros)
    qed
  next
    case False
    then obtain msg where "step_error E prev x msg" "run_steps E i prev (x # steps) = Inl (''step '' @ show_nat i @ msg)"
    proof -
      from False have "\<exists>msg. step_error E prev x msg \<and> run_steps E i prev (x # steps) = Inl (''step '' @ show_nat i @ msg)"
      by (cases x) (auto simp: step_error_def  Let_def split: option.splits)
      with that show thesis by blast
    qed
    then show ?thesis by (intro disjI2 exI [of _ 0] exI [of _ "[]"] exI [of _ msg]) (simp add: steps_chain.intros)
  qed
qed

text \<open>C22. The capability that chains others runs its steps in order, each with the result of the step before it, and
  returns the last result and all of them; when a step cannot be run, it returns the error of the first such step,
  with its position. It always ends, also when chains are nested.\<close>

theorem pipeline_chains_steps:
  assumes "map_of p ''steps'' = Some (JArr steps)" "steps \<noteq> []"
  shows "(\<exists>ss rs. steps = map JObj ss \<and> steps_chain E [] ss rs \<and>
      run_cap E ''pipeline'' p = Some (chain_reply E (length steps) (last rs) (trace_of 0 ss rs), [])) \<or>
    (\<exists>k ss rs msg. k < length steps \<and> take k steps = map JObj ss \<and> steps_chain E [] ss rs \<and> step_error E (last ([] # rs)) (steps ! k) msg \<and>
      run_cap E ''pipeline'' p = Some ([], ''step '' @ show_nat k @ msg))"
  using run_steps_cases [of steps E "[]" 0]
proof (elim disjE exE conjE)
  fix ss rs
  assume s: "steps = map JObj ss" "steps_chain E [] ss rs" "run_steps E 0 [] steps = Inr (last ([] # rs), trace_of 0 ss rs)"
  have "rs \<noteq> []" using s(1,2) assms(2) by (auto elim: steps_chain.cases)
  with s assms show ?thesis by (intro disjI1 exI [of _ ss] exI [of _ rs]) (simp add: run_cap.simps)
next
  fix k ss rs msg
  assume "k < length steps" "take k steps = map JObj ss" "steps_chain E [] ss rs" "step_error E (last ([] # rs)) (steps ! k) msg"
    "run_steps E 0 [] steps = Inl (''step '' @ show_nat (0 + k) @ msg)"
  with assms show ?thesis
    by (intro disjI2 exI [of _ k] exI [of _ ss] exI [of _ rs] exI [of _ msg]) (simp add: run_cap.simps)
qed

section \<open>Examples\<close>

definition ex_cap_env :: "int cap_env" where
  "ex_cap_env = \<lparr>ce_quote = json_quote, ce_num = (\<lambda>r. show_int \<lfloor>r\<rfloor>), ce_num0 = (\<lambda>r. show_int \<lfloor>r\<rfloor>), ce_time = show_int, ce_parse = (\<lambda>s. Inr (JStr s)),
     ce_indent = (\<lambda>_. []), ce_ops = int_ops, ce_fmt = show_int, ce_sep = (\<lambda>r. r = '' ''), ce_cwd = Some ''/root'',
     ce_stat = (\<lambda>p. Inr \<lparr>fi_name = p, fi_size = 7, fi_mode = [], fi_modified = [], fi_is_dir = False\<rparr>), ce_b64err = id,
     ce_rand = (\<lambda>_. replicate 16 (CHR ''a'')), ce_other = Map.empty\<rparr>"


theorem pipeline_chains_steps_witness:
  "run_cap ex_cap_env ''pipeline'' [(''steps'', JArr [JObj [(''cap'', JStr ''sleep'')], JNull])] = Some ([], ''step 1 is not an object'')"
proof -
  let ?steps = "[JObj [(''cap'', JStr ''sleep'')], JNull]" and ?s = "[(''cap'', JStr ''sleep'')]"
  have ok: "run_cap ex_cap_env ''sleep'' (step_payload prev ?s) \<noteq> None" "snd (the (run_cap ex_cap_env ''sleep'' (step_payload prev ?s))) = []" for prev
    by (simp_all add: run_cap.simps builtin_def cap_sleep_def Let_def)
  have "map_of [(''steps'', JArr ?steps)] ''steps'' = Some (JArr ?steps)" "?steps \<noteq> []" by simp_all
  from pipeline_chains_steps [OF this, of ex_cap_env] show ?thesis
  proof (elim disjE exE conjE)
    fix k ss rs msg
    assume k: "k < length ?steps" "step_error ex_cap_env (last ([] # rs)) (?steps ! k) msg"
      "run_cap ex_cap_env ''pipeline'' [(''steps'', JArr ?steps)] = Some ([], ''step '' @ show_nat k @ msg)"
    have "k \<noteq> 0" using k(2) ok [of "last ([] # rs)"] by (intro notI) (auto simp: step_error_def str_arg_def split: option.splits)
    moreover have "show_nat (Suc 0) = ''1''" by code_simp
    ultimately show ?thesis using k by (auto simp: less_Suc_eq step_error_def)
  qed (auto simp: Cons_eq_map_conv)
qed

end
