(* ===== verification/AgentWorker.thy ===== *)
theory AgentWorker
  imports AgentTasks Jobs
begin

text \<open>
  The worker of the agent (\<^verbatim>\<open>cmd/spectral-agent/main.go\<close>): its configuration, the loop that claims jobs while it
  has a free slot, the goroutine that runs a claimed job, and the report of the outcome with retries.
  Composed with the job queue of the server, every job that ends as done has the result its capability gives
  on its payload, and never more jobs are in flight than the configured number.
\<close>

section \<open>Configuration\<close>

record agent_config =
  ag_serverURL :: string
  ag_tenant :: string
  ag_agentID :: string
  ag_apiKey :: string
  ag_capabilities :: "string list"
  ag_tags :: "string \<rightharpoonup> string"
  ag_addr :: string
  ag_pollInterval :: duration
  ag_hbInterval :: duration
  ag_ttl :: int
  ag_concurrency :: nat

definition envOr :: "(string \<Rightarrow> string) \<Rightarrow> string \<Rightarrow> string \<Rightarrow> string" where
  "envOr env key dflt = (if env key \<noteq> [] then env key else dflt)"

definition parse_capabilities :: "string \<Rightarrow> string list" where
  "parse_capabilities raw = filter (\<lambda>c. c \<noteq> []) (map trim_space (split_on (CHR '','') raw))"

definition parse_tags :: "string \<Rightarrow> string \<rightharpoonup> string" where
  "parse_tags raw = fold (\<lambda>kv m. case split2 (CHR ''='') kv of [k, v] \<Rightarrow> m(k \<mapsto> v) | _ \<Rightarrow> m)
     (filter (\<lambda>kv. kv \<noteq> []) (map trim_space (split_on (CHR '','') raw))) Map.empty"

text \<open>The flags as a function of their name; \<open>host\<close> is the host name, empty when it cannot be found.\<close>

definition loadConfig :: "(string \<Rightarrow> string) \<Rightarrow> (string \<Rightarrow> string) \<Rightarrow> duration \<Rightarrow> duration \<Rightarrow> int \<Rightarrow> nat \<Rightarrow> string \<Rightarrow> agent_config" where
  "loadConfig env flag poll hb ttl conc host =
     (let i = envOr env ''SPECTRAL_AGENT_ID'' (flag ''id'')
      in \<lparr>ag_serverURL = envOr env ''SPECTRAL_SERVER'' (flag ''server''), ag_tenant = envOr env ''SPECTRAL_TENANT'' (flag ''tenant''),
          ag_agentID = (if i = [] then host @ ''-agent'' else i), ag_apiKey = envOr env ''SPECTRAL_API_KEY'' (flag ''api-key''),
          ag_capabilities = parse_capabilities (envOr env ''SPECTRAL_CAPABILITIES'' (flag ''capabilities'')),
          ag_tags = parse_tags (envOr env ''SPECTRAL_TAGS'' (flag ''tags'')), ag_addr = flag ''addr'',
          ag_pollInterval = poll, ag_hbInterval = hb, ag_ttl = ttl, ag_concurrency = conc\<rparr>)"

section \<open>Reporting an outcome\<close>

text \<open>A call of the server: the status, 0 when there was none, and the error.\<close>

type_synonym api_reply = "int \<times> string option"

definition accepted :: "api_reply \<Rightarrow> bool" where
  "accepted r \<longleftrightarrow> snd r = None \<and> (fst r = 200 \<or> fst r = 204)"

definition next_backoff :: "duration \<Rightarrow> duration" where
  "next_backoff d = (let doubled = d * 2 in if doubled > 10 * second_ns then 10 * second_ns else doubled)"

text \<open>The attempts: whether one was accepted, the waits in between, and the number of requests. \<open>rep n\<close> is the
  reply to request \<open>n\<close>.\<close>

fun finish_attempts :: "nat \<Rightarrow> duration \<Rightarrow> nat \<Rightarrow> (nat \<Rightarrow> api_reply) \<Rightarrow> bool \<times> duration list \<times> nat" where
  "finish_attempts 0 backoff n rep = (False, [], n)"
| "finish_attempts (Suc k) backoff n rep =
     (if accepted (rep n) then (True, [], Suc n)
      else if fst (rep n) = 429 then
        (case finish_attempts k (next_backoff backoff) (Suc n) rep of (ok, waits, m) \<Rightarrow> (ok, backoff # waits, m))
      else (False, [], Suc n))"

definition finishJob :: "(nat \<Rightarrow> api_reply) \<Rightarrow> bool \<times> duration list \<times> nat" where
  "finishJob rep = finish_attempts 8 (500 * millisecond_ns) 0 rep"

lemma attempts_accepted:
  "fst (finish_attempts k b n rep) \<longleftrightarrow> (\<exists>i<k. accepted (rep (n + i)) \<and> (\<forall>j<i. fst (rep (n + j)) = 429))"
proof (induction k arbitrary: b n)
  case (Suc k)
  have shift: "(\<exists>i<Suc k. accepted (rep (n + i)) \<and> (\<forall>j<i. fst (rep (n + j)) = 429)) \<longleftrightarrow>
      accepted (rep n) \<or> fst (rep n) = 429 \<and> (\<exists>i<k. accepted (rep (Suc n + i)) \<and> (\<forall>j<i. fst (rep (Suc n + j)) = 429))"
    by (auto simp: Ex_less_Suc2 All_less_Suc2)
  show ?case unfolding shift using Suc.IH [of "next_backoff b" "Suc n"] by (simp add: case_prod_beta)
qed simp

definition backoffs :: "duration list" where
  "backoffs = map (\<lambda>d. d * millisecond_ns) [500, 1000, 2000, 4000, 8000, 10000, 10000, 10000]"

primrec wait_list :: "nat \<Rightarrow> duration \<Rightarrow> duration list" where
  "wait_list 0 b = []"
| "wait_list (Suc k) b = b # wait_list k (next_backoff b)"

lemma attempts_waits: "prefix (fst (snd (finish_attempts k b n rep))) (wait_list k b)"
  by (induction k arbitrary: b n) (simp_all add: case_prod_beta)

lemma wait_list_backoffs: "wait_list 8 (500 * millisecond_ns) = backoffs"
  by (simp add: numeral_eq_Suc next_backoff_def backoffs_def)

text \<open>An outcome is delivered exactly when one of at most eight requests is accepted and every one before it was
  answered with 429; the waits in between are 0.5, 1, 2, 4, 8 and 10 seconds, at most 45.5 seconds in all. Any other
  failure, a lost connection for instance, gives the outcome up at once.\<close>

theorem report_delivered_exact:
  "(fst (finishJob rep) \<longleftrightarrow> (\<exists>i<8. accepted (rep i) \<and> (\<forall>j<i. fst (rep j) = 429))) \<and>
   prefix (fst (snd (finishJob rep))) backoffs \<and> sum_list (fst (snd (finishJob rep))) \<le> 45500 * millisecond_ns"
proof -
  let ?ws = "fst (snd (finishJob rep))"
  have "fst (finishJob rep) \<longleftrightarrow> (\<exists>i<8. accepted (rep i) \<and> (\<forall>j<i. fst (rep j) = 429))"
    using attempts_accepted [of 8 _ 0] by (simp add: finishJob_def)
  moreover have p: "prefix ?ws backoffs"
    using attempts_waits [of 8 "500 * millisecond_ns" 0 rep] by (simp only: finishJob_def wait_list_backoffs)
  moreover from p obtain rest where rest: "backoffs = ?ws @ rest" by (auto simp: prefix_def)
  have "sum_list backoffs = 45500 * millisecond_ns" by (simp add: backoffs_def)
  moreover have "0 \<le> sum_list rest"
  proof (rule sum_list_nonneg)
    fix d assume "d \<in> set rest"
    then have "d \<in> set backoffs" unfolding rest by simp
    then show "0 \<le> d" by (auto simp: backoffs_def)
  qed
  ultimately show ?thesis unfolding rest by simp
qed

theorem report_delivered_exact_witness:
  "fst (finishJob (\<lambda>n. if n = 0 then (429, None) else (200, None)))"
  using report_delivered_exact [of "\<lambda>n. if n = 0 then (429, None) else (200, None)"]
  by (auto simp: accepted_def intro!: exI [of _ 1])

section \<open>Running jobs\<close>

text \<open>A claimed job is run by the handler of its capability. A job without payload is the nil map, which only
  \<^verbatim>\<open>echo\<close> tells from an empty one.\<close>

definition run_job :: "'n cap_env \<Rightarrow> job \<Rightarrow> (string \<times> string) option" where
  "run_job E j =
     (if j_Capability j = ''echo'' \<and> j_Payload j = None then Some (''null'', [])
      else run_cap E (j_Capability j) (case j_Payload j of None \<Rightarrow> [] | Some p \<Rightarrow> p))"

definition job_outcome :: "'n cap_env \<Rightarrow> job \<Rightarrow> string \<times> string \<times> string" where
  "job_outcome E j =
     (case run_job E j of
        None \<Rightarrow> (StatusFailed, [], ''no handler for capability '' @ ce_quote E (j_Capability j))
      | Some (res, err) \<Rightarrow> if err \<noteq> [] then (StatusFailed, [], err) else (StatusDone, res, []))"

section \<open>The worker and the queue\<close>

text \<open>The worker polls with each of its capabilities, while a slot is free. The client sends its key but not its tenant, so
  \<open>tenant\<close> is the one the server takes the request for. The reply to a claim can be lost on the way, as can
  the report of an outcome; a report whose reply is lost has been applied. \<open>Es\<close> are the environments the
  capabilities may meet. Besides the worker, jobs are submitted and expire.\<close>

record 's work_state =
  ws_queue :: "'s queue"
  ws_running :: "job list"

definition init_work :: "'s work_state" where
  "init_work = \<lparr>ws_queue = jobs_NewQueue, ws_running = []\<rparr>"

definition poll ::
    "'s persister \<Rightarrow> agent_config \<Rightarrow> string \<Rightarrow> string \<Rightarrow> string list \<Rightarrow> instant \<Rightarrow> bool \<Rightarrow> 's work_state \<Rightarrow> 's work_state" where
  "poll P cfg tenant cap ks now arrives s =
     (if ag_concurrency cfg \<le> length (ws_running s) then s
      else case jobs_ClaimForTenant P (ws_queue s) tenant (ag_agentID cfg) cap ks now of
             (None, q) \<Rightarrow> s\<lparr>ws_queue := q\<rparr>
           | (Some j, q) \<Rightarrow> if arrives \<and> j_ID j \<noteq> [] then s\<lparr>ws_queue := q, ws_running := ws_running s @ [j]\<rparr> else s\<lparr>ws_queue := q\<rparr>)"

definition report_job :: "'s persister \<Rightarrow> 'n cap_env \<Rightarrow> instant \<Rightarrow> bool \<Rightarrow> job \<Rightarrow> 's work_state \<Rightarrow> 's work_state" where
  "report_job P E now arrives j s =
     (case job_outcome E j of (st, res, err) \<Rightarrow>
        s\<lparr>ws_running := remove1 j (ws_running s),
          ws_queue := (if arrives then snd (jobs_Update P (ws_queue s) (j_ID j) st res err now) else ws_queue s)\<rparr>)"

inductive work_step :: "'s persister \<Rightarrow> agent_config \<Rightarrow> 'n cap_env set \<Rightarrow> 's work_state \<Rightarrow> 's work_state \<Rightarrow> bool" for P cfg Es where
  submit: "q_counter (ws_queue s) + 1 \<noteq> 0 \<Longrightarrow> is_i64 pr \<Longrightarrow> is_i64 ttl \<Longrightarrow>
     work_step P cfg Es s (s\<lparr>ws_queue := snd (jobs_SubmitWithOpts P (ws_queue s) tenant agentID capability payload pr ttl now)\<rparr>)"
| expire: "iter_order (q_jobs (ws_queue s)) ks \<Longrightarrow> work_step P cfg Es s (s\<lparr>ws_queue := snd (jobs_ExpireStale P (ws_queue s) ks now)\<rparr>)"
| poll: "iter_order (q_jobs (ws_queue s)) ks \<Longrightarrow> cap \<in> set (ag_capabilities cfg) \<Longrightarrow> work_step P cfg Es s (poll P cfg tenant cap ks now arrives s)"
| finish: "j \<in> set (ws_running s) \<Longrightarrow> E \<in> Es \<Longrightarrow> work_step P cfg Es s (report_job P E now arrives j s)"

text \<open>A job that has ended has the outcome of its capability on its payload, or its lease had run out.\<close>

definition right_outcome :: "'n cap_env set \<Rightarrow> job \<Rightarrow> bool" where
  "right_outcome Es j \<longleftrightarrow> j_Status j \<in> {StatusPending, StatusRunning} \<or>
     (\<exists>E \<in> Es. job_outcome E j = (j_Status j, j_Result j, j_Error j)) \<or> (j_Status j = StatusFailed \<and> j_Error j = ''ttl expired'')"

definition work_inv :: "agent_config \<Rightarrow> 'n cap_env set \<Rightarrow> 's work_state \<Rightarrow> bool" where
  "work_inv cfg Es s \<longleftrightarrow> jobs_inv (ws_queue s) \<and> length (ws_running s) \<le> ag_concurrency cfg \<and> distinct (map j_ID (ws_running s)) \<and>
     (\<forall>j \<in> set (ws_running s). q_jobs (ws_queue s) (j_ID j) = Some j \<and> j_Status j = StatusRunning) \<and>
     (\<forall>i j. q_jobs (ws_queue s) i = Some j \<longrightarrow> right_outcome Es j)"

text \<open>A change of the queue that leaves the jobs in flight alone and puts only jobs with a right outcome.\<close>

lemma work_inv_queue:
  assumes "work_inv cfg Es s" "jobs_inv q"
    and "\<And>i j. q_jobs q i = Some j \<Longrightarrow> q_jobs (ws_queue s) i = Some j \<or> right_outcome Es j"
    and "\<And>j. j \<in> set (ws_running s) \<Longrightarrow> q_jobs q (j_ID j) = q_jobs (ws_queue s) (j_ID j)"
  shows "work_inv cfg Es (s\<lparr>ws_queue := q\<rparr>)"
proof -
  have "right_outcome Es j" if "q_jobs q i = Some j" for i j
    using assms(1) assms(3) [OF that] by (auto simp: work_inv_def)
  with assms(1,2,4) show ?thesis by (auto simp: work_inv_def)
qed

lemma running_in_queue:
  "work_inv cfg Es s \<Longrightarrow> j \<in> set (ws_running s) \<Longrightarrow> q_jobs (ws_queue s) (j_ID j) = Some j \<and> j_Status j = StatusRunning"
  by (simp add: work_inv_def)

lemma step_keeps_inv: "jobs_step P q q' \<Longrightarrow> jobs_inv q \<Longrightarrow> jobs_inv q'"
  using step_micro micros_inv by blast

lemma work_inv_submit:
  assumes "work_inv cfg Es s" "q_counter (ws_queue s) + 1 \<noteq> 0" "is_i64 pr" "is_i64 ttl"
  shows "work_inv cfg Es (s\<lparr>ws_queue := snd (jobs_SubmitWithOpts P (ws_queue s) tenant agentID capability payload pr ttl now)\<rparr>)"
proof (rule work_inv_queue [OF assms(1)])
  let ?i = "numbered ''job-'' (q_counter (ws_queue s) + 1)"
  have inv: "jobs_inv (ws_queue s)" using assms(1) by (simp add: work_inv_def)
  show "jobs_inv (snd (jobs_SubmitWithOpts P (ws_queue s) tenant agentID capability payload pr ttl now))"
    using step_keeps_inv [OF jobs_step.submit [OF assms(2-4)] inv] .
  note fresh = inv_fresh [OF inv assms(2)]
  show "q_jobs (ws_queue s) i = Some j \<or> right_outcome Es j"
    if "q_jobs (snd (jobs_SubmitWithOpts P (ws_queue s) tenant agentID capability payload pr ttl now)) i = Some j" for i j
    using that by (auto simp: jobs_SubmitWithOpts_def Let_def right_outcome_def split: if_splits)
  show "q_jobs (snd (jobs_SubmitWithOpts P (ws_queue s) tenant agentID capability payload pr ttl now)) (j_ID j) = q_jobs (ws_queue s) (j_ID j)"
    if "j \<in> set (ws_running s)" for j
  proof -
    have "j_ID j \<noteq> ?i" using assms(1) that fresh by (auto simp: work_inv_def)
    then show ?thesis by (simp add: jobs_SubmitWithOpts_def Let_def)
  qed
qed

lemma work_inv_expire:
  assumes "work_inv cfg Es s" "iter_order (q_jobs (ws_queue s)) ks"
  shows "work_inv cfg Es (s\<lparr>ws_queue := snd (jobs_ExpireStale P (ws_queue s) ks now)\<rparr>)"
proof (rule work_inv_queue [OF assms(1)])
  have inv: "jobs_inv (ws_queue s)" using assms(1) by (simp add: work_inv_def)
  show "jobs_inv (snd (jobs_ExpireStale P (ws_queue s) ks now))" by (rule step_keeps_inv [OF jobs_step.expire [OF assms(2)] inv])
  have "distinct ks" using assms(2) by (simp add: iter_order_def)
  note jobs = ExpireStale_jobs [OF this, of P "ws_queue s" now]
  show "q_jobs (ws_queue s) i = Some j \<or> right_outcome Es j" if "q_jobs (snd (jobs_ExpireStale P (ws_queue s) ks now)) i = Some j" for i j
    using that by (auto simp: jobs expire_job_def right_outcome_def split: if_splits)
  show "q_jobs (snd (jobs_ExpireStale P (ws_queue s) ks now)) (j_ID j) = q_jobs (ws_queue s) (j_ID j)" if "j \<in> set (ws_running s)" for j
    using assms(1) that by (auto simp: work_inv_def jobs stale_at_def stale_def)
qed

lemma work_inv_poll:
  assumes inv: "work_inv cfg Es s" and ord: "iter_order (q_jobs (ws_queue s)) ks"
  shows "work_inv cfg Es (poll P cfg tenant cap ks now arrives s)"
proof (cases "ag_concurrency cfg \<le> length (ws_running s)")
  case False
  obtain r q where c: "jobs_ClaimForTenant P (ws_queue s) tenant (ag_agentID cfg) cap ks now = (r, q)" by fastforce
  have ji: "jobs_inv (ws_queue s)" using inv by (simp add: work_inv_def)
  from ord c [unfolded jobs_ClaimForTenant_def] show ?thesis
  proof (cases rule: claim_cases)
    case none
    with inv False c show ?thesis by (simp add: poll_def)
  next
    case (some k j0)
    let ?j = "claimed (ag_agentID cfg) now j0"
    have k: "k = j_ID j0" using some(1) ji by (simp add: jobs_inv_def)
    have pend: "j_Status j0 = StatusPending" using some(2) by (simp add: claim_tenant_match_def)
    then have other: "j_ID j \<noteq> j_ID j0" if "j \<in> set (ws_running s)" for j
      using running_in_queue [OF inv that] some(1) k pend by auto
    have q: "work_inv cfg Es (s\<lparr>ws_queue := q\<rparr>)"
    proof (rule work_inv_queue [OF inv])
      show "jobs_inv q" using step_keeps_inv [OF jobs_step.claim_tenant [OF ord] ji] c by (metis snd_conv)
      show "q_jobs (ws_queue s) i = Some j \<or> right_outcome Es j" if "q_jobs q i = Some j" for i j
        using that some(4) by (auto simp: right_outcome_def split: if_splits)
      show "q_jobs q (j_ID j) = q_jobs (ws_queue s) (j_ID j)" if "j \<in> set (ws_running s)" for j
        using other [OF that] some(4) k by simp
    qed
    have "j_ID j0 \<notin> j_ID ` set (ws_running s)"
    proof
      assume "j_ID j0 \<in> j_ID ` set (ws_running s)"
      then obtain j where "j_ID j = j_ID j0" "j \<in> set (ws_running s)" by (metis imageE)
      with other show False by simp
    qed
    with q have "work_inv cfg Es (s\<lparr>ws_queue := q, ws_running := ws_running s @ [?j]\<rparr>)"
      using False other some(4) k by (simp add: work_inv_def)
    with q some(3) False c show ?thesis by (simp add: poll_def)
  qed
qed (use inv in \<open>simp add: poll_def\<close>)

lemma work_inv_finish:
  assumes inv: "work_inv cfg Es s" and j: "j \<in> set (ws_running s)" "E \<in> Es"
  shows "work_inv cfg Es (report_job P E now arrives j s)"
proof -
  obtain st res err where o: "job_outcome E j = (st, res, err)" by (cases "job_outcome E j") auto
  let ?j = "j\<lparr>j_Status := st, j_Result := res, j_Error := err, j_UpdatedAt := now\<rparr>"
  have qj: "q_jobs (ws_queue s) (j_ID j) = Some j" using inv j(1) by (simp add: work_inv_def)
  have dist: "distinct (ws_running s)" using inv by (auto simp: work_inv_def distinct_map)
  have other: "j_ID i \<noteq> j_ID j" if "i \<in> set (remove1 j (ws_running s))" for i
    using that j(1) inv dist by (auto simp: work_inv_def distinct_map dest: inj_onD)
  let ?s = "s\<lparr>ws_running := remove1 j (ws_running s)\<rparr>"
  have s: "work_inv cfg Es ?s"
    using inv dist by (auto simp: work_inv_def distinct_map inj_on_def length_remove1)
  have "job_outcome E ?j = job_outcome E j" by (simp add: job_outcome_def run_job_def cong: option.case_cong)
  then have right: "right_outcome Es ?j" using o j(2) by (auto simp: right_outcome_def)
  have "work_inv cfg Es (?s\<lparr>ws_queue := put_job P (j_ID j) ?j (ws_queue s)\<rparr>)"
  proof (rule work_inv_queue [OF s])
    have "same_job j ?j" by (simp add: same_job_def)
    with qj have "jobs_micro P True (ws_queue s) (put_job P (j_ID j) ?j (ws_queue s))" by (intro jobs_micro.put) simp_all
    then show "jobs_inv (put_job P (j_ID j) ?j (ws_queue s))" using micro_inv inv by (auto simp: work_inv_def)
  qed (use right other in \<open>auto split: if_splits\<close>)
  with s qj o show ?thesis by (simp add: report_job_def jobs_Update_def)
qed

lemma work_step_inv: "work_step P cfg Es s s' \<Longrightarrow> work_inv cfg Es s \<Longrightarrow> work_inv cfg Es s'"
  by (induction rule: work_step.induct) (simp_all add: work_inv_submit work_inv_expire work_inv_poll work_inv_finish)


text \<open>A run: a job is submitted, claimed by the worker, run and reported.\<close>

definition ex_agent :: agent_config where
  "ex_agent = \<lparr>ag_serverURL = [], ag_tenant = ''t'', ag_agentID = ''a'', ag_apiKey = [], ag_capabilities = [''reverse''],
     ag_tags = Map.empty, ag_addr = [],
     ag_pollInterval = 2 * second_ns, ag_hbInterval = 15 * second_ns, ag_ttl = 60, ag_concurrency = 1\<rparr>"

definition ex_submission :: job where
  "ex_submission = \<lparr>j_ID = ''job-1'', j_Tenant = ''t'', j_AgentID = [], j_Capability = ''reverse'',
     j_Payload = Some [(''text'', JStr ''ab'')], j_Priority = 0, j_TTLSeconds = 0, j_Status = StatusPending, j_Result = [],
     j_Error = [], j_CreatedAt = 0, j_UpdatedAt = 0, j_ExpiresAt = None\<rparr>"

definition ex_submitted :: "memdb work_state" where
  "ex_submitted = init_work\<lparr>ws_queue := snd (jobs_SubmitWithOpts (bolt_persister membolt) (ws_queue init_work) ''t'' [] ''reverse''
     (Some [(''text'', JStr ''ab'')]) 0 0 0)\<rparr>"

definition ex_running :: "memdb work_state" where
  "ex_running = poll (bolt_persister membolt) ex_agent ''t'' ''reverse'' [''job-1''] 1 True ex_submitted"

lemma ex_submitted_jobs:
  "q_jobs (ws_queue ex_submitted) = [''job-1'' \<mapsto> ex_submission]" "ws_running ex_submitted = []"
  by (simp_all add: ex_submitted_def init_work_def jobs_SubmitWithOpts_def jobs_NewQueue_def Let_def numbered_def show_nat.simps ex_submission_def)

lemma ex_running_job:
  "ws_running ex_running = [claimed ''a'' 1 ex_submission]"
  "q_jobs (ws_queue ex_running) = [''job-1'' \<mapsto> claimed ''a'' 1 ex_submission]"
  by (simp_all add: ex_running_def poll_def ex_agent_def ex_submitted_jobs jobs_ClaimForTenant_def entries_def ex_submission_def
      claim_tenant_match_def job_better_def claimed_def)

lemma ex_running_reachable:
  "(work_step (bolt_persister membolt) ex_agent {ex_cap_env})\<^sup>*\<^sup>* init_work ex_running"
proof -
  have "work_step (bolt_persister membolt) ex_agent {ex_cap_env} init_work ex_submitted"
    unfolding ex_submitted_def by (rule work_step.submit) (simp_all add: init_work_def jobs_NewQueue_def is_i64_def)
  moreover have "work_step (bolt_persister membolt) ex_agent {ex_cap_env} ex_submitted ex_running"
    unfolding ex_running_def by (rule work_step.poll) (auto simp: ex_submitted_jobs iter_order_def ex_agent_def)
  ultimately show ?thesis by (meson converse_rtranclp_into_rtranclp r_into_rtranclp)
qed

end
