(* ===== verification/AgentLife.thy ===== *)
theory AgentLife
  imports AgentWorker AgentInference ResourceApi AccountApi
begin

text \<open>
  The agent and the server over the wire (\<^verbatim>\<open>cmd/spectral-agent/main.go\<close> with the handlers of
  \<^verbatim>\<open>cmd/spectral-cloud/main.go\<close>): the queries the agent writes and the server reads, the claim of a job, and the
  registration with its heartbeats. Authentication is outside: \<open>ctx\<close> is the tenant it finds; a request it refuses counts
  as lost.
\<close>

section \<open>Queries\<close>

text \<open>\<^verbatim>\<open>url.QueryUnescape\<close> and \<^verbatim>\<open>url.ParseQuery\<close>: a pair that is empty, has a semicolon or does not decode is dropped.\<close>

definition unhex :: "char \<Rightarrow> nat option" where
  "unhex c = (let n = of_char c in
     if 48 \<le> n \<and> n \<le> 57 then Some (n - 48) else if 65 \<le> n \<and> n \<le> 70 then Some (n - 55)
     else if 97 \<le> n \<and> n \<le> 102 then Some (n - 87) else None)"

fun query_unescape :: "string \<Rightarrow> string option" where
  "query_unescape [] = Some []"
| "query_unescape (c # cs) =
     (if c = CHR ''%'' then
        (case cs of
           a # b # rest \<Rightarrow>
             (case (unhex a, unhex b) of
                (Some x, Some y) \<Rightarrow> map_option (\<lambda>r. char_of (16 * x + y) # r) (query_unescape rest)
              | _ \<Rightarrow> None)
         | _ \<Rightarrow> None)
      else map_option (\<lambda>r. (if c = CHR ''+'' then CHR '' '' else c) # r) (query_unescape cs))"

definition query_pair :: "string \<Rightarrow> (string \<times> string) option" where
  "query_pair kv =
     (if kv = [] \<or> CHR '';'' \<in> set kv then None
      else let parts = split2 (CHR ''='') kv in
           case (query_unescape (hd parts), query_unescape (concat (tl parts))) of (Some k, Some v) \<Rightarrow> Some (k, v) | _ \<Rightarrow> None)"

definition parse_query :: "string \<Rightarrow> query" where
  "parse_query raw = List.map_filter query_pair (split_on (CHR ''&'') raw)"

text \<open>What is sent of a query: the client cuts the URL at the fragment.\<close>

definition sent_query :: "string \<Rightarrow> string" where
  "sent_query raw = takeWhile (\<lambda>c. c \<noteq> CHR ''#'') raw"

definition claim_query :: "agent_config \<Rightarrow> string \<Rightarrow> string" where
  "claim_query cfg cap = ''capability='' @ query_escape cap @ ''&agent_id='' @ query_escape (ag_agentID cfg)"

definition heartbeat_query :: "agent_config \<Rightarrow> string" where
  "heartbeat_query cfg = ''id='' @ ag_agentID cfg @ ''&ttl_seconds='' @ show_int (ag_ttl cfg)"

section \<open>Calls\<close>

datatype delivery = Delivered | ReplyLost | RequestLost

fun status_of :: "result \<Rightarrow> nat" where
  "status_of (Answer c x) = c"
| "status_of (Refused c msg) = c"
| "status_of Crashed = 0"

text \<open>A call: the status the client sees, 0 for none, and the server afterwards.\<close>

fun send :: "delivery \<Rightarrow> ('db hub \<Rightarrow> 'db reply) \<Rightarrow> 'db hub \<Rightarrow> nat \<times> 'db hub" where
  "send Delivered f h = (status_of (rp_result (f h)), rp_hub (f h))"
| "send ReplyLost f h = (0, rp_hub (f h))"
| "send RequestLost f h = (0, h)"

text \<open>The decoded body of a registration; an absent member and a null leave nil.\<close>

definition registration :: "agent_config \<Rightarrow> register_request" where
  "registration cfg =
     \<lparr>r_ID = ag_agentID cfg, r_TenantID = ag_tenant cfg, r_Addr = ag_addr cfg, r_Status = ''healthy'',
      r_Tags = (if ag_tags cfg = Map.empty then None else Some (ag_tags cfg)),
      r_Capabilities = (if ag_capabilities cfg = [] then None else Some (ag_capabilities cfg)), r_TTLSeconds = ag_ttl cfg\<rparr>"

definition agent_register ::
    "api_env \<Rightarrow> 'db bolt \<Rightarrow> int \<Rightarrow> tape \<Rightarrow> string option \<Rightarrow> delivery \<Rightarrow> agent_config \<Rightarrow> 'db hub \<Rightarrow> bool \<times> 'db hub" where
  "agent_register E B defaultTTL tp ctx d cfg h =
     (case send d (handle_agents_register E B defaultTTL tp ctx ''POST'' (Some (registration cfg))) h of (code, h') \<Rightarrow> (code = 201, h'))"

text \<open>One tick of the heartbeat loop; the registration reads the later clock.\<close>

definition heartbeat ::
    "api_env \<Rightarrow> 'db bolt \<Rightarrow> int \<Rightarrow> tape \<Rightarrow> tape \<Rightarrow> string option \<Rightarrow> delivery \<Rightarrow> delivery \<Rightarrow> agent_config \<Rightarrow> 'db hub \<Rightarrow> 'db hub" where
  "heartbeat E B defaultTTL tp tp' ctx d d' cfg h =
     (case send d (handle_agents_heartbeat E B defaultTTL tp ctx ''POST'' (parse_query (sent_query (heartbeat_query cfg)))) h of
        (code, h1) \<Rightarrow> if code \<noteq> 204 \<and> code \<noteq> 200 then snd (agent_register E B defaultTTL tp' ctx d' cfg h1) else h1)"

section \<open>Lemmas\<close>

lemma nibble: "(of_char c :: nat) div 16 < 16"
  using nat_of_char_less_256 [of c] by linarith

lemma unhex_upper_hex: "d < 16 \<Longrightarrow> unhex (upper_hex d) = Some d"
proof -
  assume "d < 16"
  then have "(of_char (upper_hex d) :: nat) = (if d < 10 then 48 + d else 55 + d)" by (simp add: upper_hex_def)
  with \<open>d < 16\<close> show ?thesis by (simp add: unhex_def Let_def)
qed

lemma unreserved_plain:
  assumes "unreserved c" shows "c \<notin> {CHR ''%'', CHR ''+'', CHR ''&'', CHR ''='', CHR ''#'', CHR '';''}" "\<not> is_space c"
proof -
  have "list_all (\<lambda>c. \<not> unreserved c) [CHR ''%'', CHR ''+'', CHR ''&'', CHR ''='', CHR ''#'', CHR '';'', CHR '' '', CHR 0x09, CHR 0x0A, CHR 0x0B, CHR 0x0C, CHR 0x0D]"
    by code_simp
  with assms show "c \<notin> {CHR ''%'', CHR ''+'', CHR ''&'', CHR ''='', CHR ''#'', CHR '';''}" "\<not> is_space c"
    by (force simp: is_space_def)+
qed

lemma query_unescape_escape [simp]: "query_unescape (query_escape s) = Some s"
proof (induction s)
  case (Cons c s)
  have "unhex (upper_hex (of_char c div 16)) = Some (of_char c div 16)" "unhex (upper_hex (of_char c mod 16)) = Some (of_char c mod 16)"
    by (simp_all add: unhex_upper_hex nibble)
  moreover have "char_of (16 * (of_char c div 16) + of_char c mod 16 :: nat) = c" by simp
  moreover have "query_escape (c # s) = query_escape [c] @ query_escape s" by (simp add: query_escape_def)
  ultimately show ?case using Cons unreserved_plain [of c] by (auto simp: query_escape_def)
qed (simp add: query_escape_def)

lemma upper_hex_char: "d < 16 \<Longrightarrow> upper_hex d \<notin> {CHR ''&'', CHR ''='', CHR ''#'', CHR '';''}"
proof -
  have "\<forall>d \<in> set [0..<16]. upper_hex d \<notin> {CHR ''&'', CHR ''='', CHR ''#'', CHR '';''}" by code_simp
  then show "d < 16 \<Longrightarrow> upper_hex d \<notin> {CHR ''&'', CHR ''='', CHR ''#'', CHR '';''}" by simp
qed

definition wire_safe :: "char \<Rightarrow> bool" where
  "wire_safe c \<longleftrightarrow> c \<notin> {CHR ''&'', CHR ''='', CHR ''#'', CHR '';''}"

lemma wire_safe_chars: "unreserved c \<Longrightarrow> wire_safe c" "d < 16 \<Longrightarrow> wire_safe (upper_hex d)" "wire_safe (CHR ''%'')" "wire_safe (CHR ''+'')"
  using unreserved_plain(1) [of c] upper_hex_char [of d] by (simp_all add: wire_safe_def)

lemma query_escape_safe: "list_all wire_safe (query_escape s)"
proof (induction s)
  case (Cons c s)
  have "list_all wire_safe (query_escape [c])" using wire_safe_chars nibble by (simp add: query_escape_def)
  moreover have "query_escape (c # s) = query_escape [c] @ query_escape s" by (simp add: query_escape_def)
  ultimately show ?case using Cons by simp
qed (simp add: query_escape_def)

lemma unescape_plain: "list_all unreserved s \<Longrightarrow> query_unescape s = Some s"
  using unreserved_plain(1) by (induction s) fastforce+

lemma wire_safe_unreserved: "list_all unreserved s \<Longrightarrow> list_all wire_safe s"
  using wire_safe_chars(1) by (induction s) auto

lemma wire_safe_sep: "list_all wire_safe s \<Longrightarrow> CHR ''&'' \<notin> set s \<and> CHR ''='' \<notin> set s \<and> CHR ''#'' \<notin> set s \<and> CHR '';'' \<notin> set s"
  by (induction s) (auto simp: wire_safe_def)

lemma sent_query_same: "CHR ''#'' \<notin> set s \<Longrightarrow> sent_query s = s"
  unfolding sent_query_def by (induction s) auto

text \<open>Reading a query of two pairs whose four parts are free of the separators.\<close>

lemma read_pair:
  assumes "list_all wire_safe k" "list_all wire_safe v" "query_unescape k = Some k'" "query_unescape v = Some v'"
  shows "query_pair (k @ ''='' @ v) = Some (k', v')"
proof -
  have "CHR ''='' \<notin> set k" "CHR '';'' \<notin> set (k @ ''='' @ v)" using assms(1,2) by (auto simp: list_all_iff wire_safe_def)
  then show ?thesis using split2_append [of "CHR ''=''" k v] assms(3,4) by (simp add: query_pair_def)
qed

lemma read_two:
  assumes "list_all wire_safe k" "list_all wire_safe v" "query_unescape k = Some k'" "query_unescape v = Some v'"
    and "list_all wire_safe l" "list_all wire_safe w" "query_unescape l = Some l'" "query_unescape w = Some w'"
  shows "parse_query (sent_query (k @ ''='' @ v @ ''&'' @ l @ ''='' @ w)) = [(k', v'), (l', w')]"
proof -
  have "CHR ''&'' \<notin> set (k @ ''='' @ v)" "CHR ''&'' \<notin> set (l @ ''='' @ w)" "CHR ''#'' \<notin> set (k @ ''='' @ v @ ''&'' @ l @ ''='' @ w)"
    using wire_safe_sep [OF assms(1)] wire_safe_sep [OF assms(2)] wire_safe_sep [OF assms(5)] wire_safe_sep [OF assms(6)] by simp_all
  then have "sent_query (k @ ''='' @ v @ ''&'' @ l @ ''='' @ w) = k @ ''='' @ v @ ''&'' @ l @ ''='' @ w"
    and "split_on (CHR ''&'') (k @ ''='' @ v @ ''&'' @ l @ ''='' @ w) = [k @ ''='' @ v, l @ ''='' @ w]"
    using split_on_append [of "CHR ''&''" "k @ ''='' @ v" "l @ ''='' @ w"] by (simp_all add: sent_query_same split_on_no_sep)
  with read_pair [OF assms(1-4)] read_pair [OF assms(5-8)] show ?thesis by (simp add: parse_query_def List.map_filter_simps)
qed

lemma wire_keys:
  "list_all wire_safe ''capability''" "query_unescape ''capability'' = Some ''capability''"
  "list_all wire_safe ''agent_id''" "query_unescape ''agent_id'' = Some ''agent_id''"
  "list_all wire_safe ''id''" "query_unescape ''id'' = Some ''id''"
  "list_all wire_safe ''ttl_seconds''" "query_unescape ''ttl_seconds'' = Some ''ttl_seconds''"
  by code_simp+

lemma claim_query_read:
  "parse_query (sent_query (claim_query cfg cap)) = [(''capability'', cap), (''agent_id'', ag_agentID cfg)]"
  using read_two [OF wire_keys(1) query_escape_safe wire_keys(2) query_unescape_escape wire_keys(3) query_escape_safe wire_keys(4) query_unescape_escape]
  by (simp add: claim_query_def)

lemma unreserved_digits: "list_all unreserved (show_nat n)"
  using show_nat_digits [of n] by (auto simp: list_all_iff is_digit_def unreserved_def less_eq_char_def)

lemma heartbeat_query_read:
  assumes "query_unescape (ag_agentID cfg) = Some i" "list_all wire_safe (ag_agentID cfg)" "0 \<le> ag_ttl cfg"
  shows "parse_query (sent_query (heartbeat_query cfg)) = [(''id'', i), (''ttl_seconds'', show_nat (nat (ag_ttl cfg)))]"
  using read_two [OF wire_keys(5) assms(2) wire_keys(6) assms(1) wire_keys(7) wire_safe_unreserved [OF unreserved_digits] wire_keys(8)
      unescape_plain [OF unreserved_digits]] assms(3)
  by (simp add: heartbeat_query_def show_int_def)

lemma with_tenant_loaded:
  "tm_tenants (hs_tm h) (request_tenant E ctx) = Some st \<Longrightarrow> with_tenant E B tp ctx h k = k (request_tenant E ctx) h"
  by (simp add: with_tenant_def getState_def getTenant_cached Let_def)

lemma trim_space_idem: "trim_space (trim_space s) = trim_space s"
  using trim_space_cases [of s] trim_space_trimmed by auto

section \<open>Properties\<close>

text \<open>Whatever characters the names of a capability and of the agent have, the claim of the agent reaches the queue
  with exactly these names: the escaped query is read back as it was meant, and the answer is the job the queue
  hands out.\<close>

theorem claim_reaches_queue:
  assumes "cap \<in> set (parse_capabilities raw)" "trim_space (ag_agentID cfg) = ag_agentID cfg"
    and "on_jobs (\<lambda>jq. jobs_ClaimForTenant (bolt_persister B) jq tenant (ag_agentID cfg) cap (tp_jobs tp) (tp_now tp 0)) h = (r, h')"
  shows "rp_hub (claim_job E B tp tenant (parse_query (sent_query (claim_query cfg cap))) h) = h' \<and>
    rp_result (claim_job E B tp tenant (parse_query (sent_query (claim_query cfg cap))) h) =
      (case r of None \<Rightarrow> Refused 204 ''no pending job available'' | Some j \<Rightarrow> Answer 200 (JobC j))"
proof -
  have cap: "cap \<noteq> []" "trim_space cap = cap" using assms(1) trim_space_idem by (auto simp: parse_capabilities_def)
  have q: "query_get (parse_query (sent_query (claim_query cfg cap))) ''capability'' = cap"
    "query_get (parse_query (sent_query (claim_query cfg cap))) ''agent_id'' = ag_agentID cfg"
    by (simp_all add: claim_query_read query_get_def)
  show ?thesis using assms(2,3) cap q by (cases r) (simp_all add: claim_job_def Let_def refuse_def answer_def)
qed

lemma heartbeat_handled:
  assumes t: "tm_tenants (hs_tm h) (request_tenant E ctx) = Some st"
    and q: "parse_query (sent_query (heartbeat_query cfg)) = [(''id'', i), (''ttl_seconds'', show_nat (nat (ag_ttl cfg)))]"
    and i: "trim_space i = i" "i \<noteq> []" and ttl: "0 < ag_ttl cfg" "is_i64 (ag_ttl cfg)"
  shows "handle_agents_heartbeat E B dflt tp ctx ''POST'' (parse_query (sent_query (heartbeat_query cfg))) h =
    (case agents_Heartbeat (hs_agents h) (request_tenant E ctx) i (ag_ttl cfg) (tp_now tp 0) of
       (Some e, r) \<Rightarrow> refuse 404 ''agent not found'' (h\<lparr>hs_agents := r\<rparr>)
     | (None, r) \<Rightarrow> answer E 204 Empty [] (h\<lparr>hs_agents := r\<rparr>))"
proof -
  let ?n = "show_nat (nat (ag_ttl cfg))"
  have "\<not> is_space c" if "c \<in> set ?n" for c using unreserved_digits unreserved_plain(2) that by (simp add: list_all_iff)
  then have "trimmed ?n" using show_nat_nonempty [of "nat (ag_ttl cfg)"] by (simp add: trimmed_def)
  moreover have "atoi ?n = Some (ag_ttl cfg)" using ttl by (simp add: atoi_show_nat)
  ultimately have "parseIntQueryMulti (parse_query (sent_query (heartbeat_query cfg))) [''ttl_seconds''] = Present (ag_ttl cfg)"
    by (simp add: q parseIntQuery_def query_get_def trim_space_trimmed show_nat_nonempty)
  moreover have "query_get (parse_query (sent_query (heartbeat_query cfg))) ''id'' = i" by (simp add: q query_get_def)
  ultimately show ?thesis using i ttl
    by (simp add: handle_agents_heartbeat_def with_tenant_loaded [OF t] on_agents_def Let_def split: prod.split option.split)
qed

lemma plain_trim: "list_all unreserved s \<Longrightarrow> trim_space s = s"
proof (cases "s = []")
  case False
  assume "list_all unreserved s"
  then have "\<not> is_space c" if "c \<in> set s" for c using unreserved_plain(2) that by (simp add: list_all_iff)
  with False have "trimmed s" by (simp add: trimmed_def)
  then show ?thesis by (rule trim_space_trimmed)
qed simp

lemma register_handled:
  assumes t: "tm_tenants (hs_tm h) (request_tenant E ctx) = Some st" "request_tenant E ctx \<noteq> []"
    and i: "ag_agentID cfg \<noteq> []" and ttl: "0 < ag_ttl cfg" "tp_now tp 1 \<le> tp_now tp 0 + seconds (ag_ttl cfg)"
  shows "\<exists>a. hs_agents (snd (agent_register E B dflt tp ctx Delivered cfg h)) (agentKey (request_tenant E ctx) (ag_agentID cfg)) = Some a \<and>
    a_ExpiresAt a = Some (tp_now tp 0 + seconds (ag_ttl cfg)) \<and> a_Capabilities a = ag_capabilities cfg \<and> a_Status a = StatusHealthy"
proof -
  let ?req = "(registration cfg)\<lparr>r_TenantID := request_tenant E ctx, r_TTLSeconds := ag_ttl cfg\<rparr>"
  obtain r where r: "agents_Register (hs_agents h) ?req (tp_now tp 0) = (None, r)" using t(2) i by (simp add: agents_Register_def registration_def Let_def)
  have key: "\<exists>a. r (agentKey (request_tenant E ctx) (ag_agentID cfg)) = Some a \<and> a_ExpiresAt a = Some (tp_now tp 0 + seconds (ag_ttl cfg)) \<and>
      a_Capabilities a = ag_capabilities cfg \<and> a_Status a = StatusHealthy"
    using r t(2) i ttl(1) by (auto simp: agents_Register_def registration_def Let_def)
  then obtain a where a: "r (agentKey (request_tenant E ctx) (ag_agentID cfg)) = Some a" "a_ExpiresAt a = Some (tp_now tp 0 + seconds (ag_ttl cfg))" by blast
  have "agents_Get r (request_tenant E ctx) (ag_agentID cfg) (tp_now tp 1) = (Some a, r)"
    using a ttl(2) by (simp add: agents_Get_def agents_live_def agent_dead_def)
  moreover have "r_TTLSeconds (registration cfg) = ag_ttl cfg" "r_ID (registration cfg) = ag_agentID cfg" by (simp_all add: registration_def)
  ultimately have "rp_hub (handle_agents_register E B dflt tp ctx ''POST'' (Some (registration cfg)) h) = h\<lparr>hs_agents := r\<rparr>"
    using r ttl(1) by (simp add: handle_agents_register_def with_tenant_loaded [OF t(1)] on_agents_def answer_def Let_def)
  with key show ?thesis by (simp add: agent_register_def)
qed

text \<open>C27. A tick of the heartbeat loop that reaches the server keeps the agent in the registry: afterwards a lookup finds it exactly
  until one time to live after the heartbeat, or after the registration that replaces it; an agent the server had
  forgotten is back with its capabilities and healthy. The name has only characters that need no escaping.\<close>

theorem tick_keeps_agent_live:
  assumes "tm_tenants (hs_tm h) t = Some st" "t = request_tenant E ctx" "t \<noteq> []"
    and "list_all unreserved (ag_agentID cfg)" "ag_agentID cfg \<noteq> []" "0 < ag_ttl cfg" "is_i64 (ag_ttl cfg)"
    and "tp_now tp' 1 \<le> tp_now tp' 0 + seconds (ag_ttl cfg)"
    and h': "h' = heartbeat E B dflt tp tp' ctx Delivered Delivered cfg h"
  shows "(\<exists>now \<in> {tp_now tp 0, tp_now tp' 0}. \<forall>later.
      fst (agents_Get (hs_agents h') t (ag_agentID cfg) later) \<noteq> None \<longleftrightarrow> later \<le> now + seconds (ag_ttl cfg)) \<and>
    (fst (agents_Get (hs_agents h) t (ag_agentID cfg) (tp_now tp 0)) = None \<longrightarrow>
      (\<exists>a. hs_agents h' (agentKey t (ag_agentID cfg)) = Some a \<and> a_Capabilities a = ag_capabilities cfg \<and> a_Status a = StatusHealthy))"
proof -
  let ?i = "ag_agentID cfg" and ?q = "parse_query (sent_query (heartbeat_query cfg))"
  obtain err r where H: "agents_Heartbeat (hs_agents h) t ?i (ag_ttl cfg) (tp_now tp 0) = (err, r)" by fastforce
  have "?q = [(''id'', ?i), (''ttl_seconds'', show_nat (nat (ag_ttl cfg)))]"
    using assms(4,6) by (intro heartbeat_query_read) (simp_all add: unescape_plain wire_safe_unreserved)
  from heartbeat_handled [OF assms(1) [unfolded assms(2)] this plain_trim [OF assms(4)] assms(5-7)] H
  have hb: "handle_agents_heartbeat E B dflt tp ctx ''POST'' ?q h =
      (case err of Some e \<Rightarrow> refuse 404 ''agent not found'' (h\<lparr>hs_agents := r\<rparr>) | None \<Rightarrow> answer E 204 Empty [] (h\<lparr>hs_agents := r\<rparr>))"
    by (simp add: assms(2))
  show ?thesis
  proof (cases err)
    case None
    then have "h' = h\<lparr>hs_agents := r\<rparr>" using hb by (simp add: h' heartbeat_def answer_def)
    then show ?thesis using heartbeat_lease [OF H] None assms(6) by auto
  next
    case (Some e)
    then have "h' = snd (agent_register E B dflt tp' ctx Delivered cfg (h\<lparr>hs_agents := r\<rparr>))"
      using hb by (simp add: h' heartbeat_def refuse_def)
    with register_handled [of "h\<lparr>hs_agents := r\<rparr>" E ctx st cfg tp' B dflt] assms(1,2,3,5,6,8)
    obtain a where a: "hs_agents h' (agentKey t ?i) = Some a" "a_ExpiresAt a = Some (tp_now tp' 0 + seconds (ag_ttl cfg))"
      "a_Capabilities a = ag_capabilities cfg" "a_Status a = StatusHealthy" by auto
    then have "\<forall>later. fst (agents_Get (hs_agents h') t ?i later) \<noteq> None \<longleftrightarrow> later \<le> tp_now tp' 0 + seconds (ag_ttl cfg)"
      by (auto simp: agents_Get_def agents_live_def agent_dead_def)
    with a show ?thesis by auto
  qed
qed

text \<open>The name of the agent is not escaped in a heartbeat: the heartbeat of an agent whose name has a plus sign is one for the name
  with a blank instead. While such an agent is there, it is kept alive in place of the sender, whose own lease runs out.\<close>

theorem unescaped_heartbeat_misses:
  assumes "tm_tenants (hs_tm h) t = Some st" "t = request_tenant E ctx"
    and "ag_agentID cfg = x @ ''+'' @ y" "list_all unreserved x" "list_all unreserved y" "x \<noteq> []" "y \<noteq> []"
    and "0 < ag_ttl cfg" "is_i64 (ag_ttl cfg)" "fst (agents_Get (hs_agents h) t (x @ '' '' @ y) (tp_now tp 0)) \<noteq> None"
  shows "hs_agents (heartbeat E B dflt tp tp' ctx Delivered d cfg h) (agentKey t (ag_agentID cfg)) = hs_agents h (agentKey t (ag_agentID cfg)) \<and>
    fst (agents_Get (hs_agents (heartbeat E B dflt tp tp' ctx Delivered d cfg h)) t (x @ '' '' @ y) (tp_now tp 0 + seconds (ag_ttl cfg))) \<noteq> None"
proof -
  let ?i = "x @ '' '' @ y" and ?q = "parse_query (sent_query (heartbeat_query cfg))"
  obtain err r where H: "agents_Heartbeat (hs_agents h) t ?i (ag_ttl cfg) (tp_now tp 0) = (err, r)" by fastforce
  have "query_unescape (z @ ''+'' @ y) = Some (z @ '' '' @ y)" if "list_all unreserved z" for z
    using that unreserved_plain(1) unescape_plain [OF assms(5)] by (induction z) fastforce+
  then have "?q = [(''id'', ?i), (''ttl_seconds'', show_nat (nat (ag_ttl cfg)))]"
    using assms(3-5,8) wire_safe_chars(4) by (intro heartbeat_query_read) (simp_all add: wire_safe_unreserved)
  moreover have "trim_space ?i = ?i"
  proof (rule trim_space_trimmed)
    show "trimmed ?i" using assms(4-7) unreserved_plain(2) by (auto simp: trimmed_def hd_append list_all_iff)
  qed
  ultimately have hb: "handle_agents_heartbeat E B dflt tp ctx ''POST'' ?q h =
      (case err of Some e \<Rightarrow> refuse 404 ''agent not found'' (h\<lparr>hs_agents := r\<rparr>) | None \<Rightarrow> answer E 204 Empty [] (h\<lparr>hs_agents := r\<rparr>))"
    using heartbeat_handled [OF assms(1) [unfolded assms(2)] _ _ _ assms(8,9), of ?i B dflt tp] H by (simp add: assms(2))
  have lease: "err = None" "fst (agents_Get r t ?i (tp_now tp 0 + seconds (ag_ttl cfg))) \<noteq> None"
    using heartbeat_lease [OF H] assms(8,10) by auto
  then have "heartbeat E B dflt tp tp' ctx Delivered d cfg h = h\<lparr>hs_agents := r\<rparr>" using hb by (simp add: heartbeat_def answer_def)
  moreover have "r (agentKey t (ag_agentID cfg)) = hs_agents h (agentKey t (ag_agentID cfg))"
  proof -
    have "agentKey t ?i \<noteq> agentKey t (ag_agentID cfg)" by (simp add: agentKey_def assms(3))
    then show ?thesis using H live_other [of "agentKey t (ag_agentID cfg)" "agentKey t ?i" "hs_agents h" "tp_now tp 0"]
      by (auto simp: agents_Heartbeat_def Let_def split: prod.splits option.splits)
  qed
  ultimately show ?thesis using lease by simp
qed

section \<open>Examples\<close>

definition life_tape :: tape where
  "life_tape = \<lparr>tp_clock = demo_clock, tp_now = (\<lambda>_. 5), tp_agents = [], tp_jobs = [''job-1''], tp_recs = []\<rparr>"

definition life_hub :: "memdb hub" where
  "life_hub = \<lparr>hs_tm = \<lparr>tm_store = mem0, tm_tenants = [''acme'' \<mapsto> \<lparr>st_chain = [], st_router = []\<rparr>]\<rparr>, hs_agents = Map.empty,
     hs_jobs = jobs_NewQueue, hs_pipes = pipelines_New, hs_groups = groups_New, hs_scheds = sched_New, hs_rules = notify_New,
     hs_kv = Map.empty, hs_circuit = circuit_New 3 0, hs_meter = billing_New 0\<rparr>"

definition life_cfg :: "string \<Rightarrow> agent_config" where
  "life_cfg i = AgentWorker.ex_agent\<lparr>ag_agentID := i\<rparr>"

lemma life_simps [simp]:
  "tm_tenants (hs_tm life_hub) ''acme'' = Some \<lparr>st_chain = [], st_router = []\<rparr>" "request_tenant demo_env (Some ''acme'') = ''acme''"
  "ag_agentID (life_cfg i) = i" "ag_ttl (life_cfg i) = 60" "tp_now life_tape n = 5" "hs_agents life_hub = Map.empty"
  "ag_capabilities (life_cfg i) = [''reverse'']"
  by (simp_all add: life_hub_def request_tenant_def trim_space_def is_space_def life_cfg_def AgentWorker.ex_agent_def life_tape_def)

theorem claim_reaches_queue_witness:
  "rp_result (claim_job demo_env membolt life_tape ''acme'' (parse_query (sent_query (claim_query (life_cfg ''a&b'') ''gpu''))) life_hub) =
     Refused 204 ''no pending job available''"
proof -
  have c: "''gpu'' \<in> set (parse_capabilities ''gpu, x'')"
    by (simp add: parse_capabilities_def trim_space_def is_space_def)
  obtain r h' where r: "on_jobs (\<lambda>jq. jobs_ClaimForTenant (bolt_persister membolt) jq ''acme'' (ag_agentID (life_cfg ''a&b'')) ''gpu'' (tp_jobs life_tape) (tp_now life_tape 0)) life_hub = (r, h')"
    by fastforce
  then have "r = None"
    by (simp add: on_jobs_def jobs_ClaimForTenant_def life_hub_def jobs_NewQueue_def entries_def life_tape_def split: prod.splits)
  with claim_reaches_queue [OF c _ r, of demo_env] show ?thesis by (simp add: trim_space_def is_space_def)
qed

theorem tick_keeps_agent_live_witness:
  "\<exists>a. hs_agents (heartbeat demo_env membolt 30 life_tape life_tape (Some ''acme'') Delivered Delivered (life_cfg ''a'') life_hub)
     (agentKey ''acme'' ''a'') = Some a \<and> a_Capabilities a = [''reverse'']"
proof -
  have "list_all unreserved (ag_agentID (life_cfg ''a''))" by (simp add: unreserved_def)
  from tick_keeps_agent_live [OF life_simps(1) _ _ this, of demo_env "Some ''acme''" life_tape _ membolt 30 life_tape, OF _ _ _ _ _ _ refl]
  show ?thesis by (auto simp: is_i64_def seconds_def i64_def agents_Get_def agents_live_def)
qed

theorem unescaped_heartbeat_misses_witness:
  "\<exists>h. hs_agents (heartbeat demo_env membolt 30 life_tape life_tape (Some ''acme'') Delivered Delivered (life_cfg ''a+b'') h) (agentKey ''acme'' ''a+b'') = None"
proof -
  let ?a = "\<lparr>a_ID = ''a b'', a_TenantID = ''acme'', a_Addr = [], a_Status = StatusHealthy, a_Tags = Map.empty, a_Capabilities = [],
    a_RegisteredAt = 1, a_LastSeen = 1, a_ExpiresAt = None\<rparr>"
  let ?h = "life_hub\<lparr>hs_agents := [agentKey ''acme'' ''a b'' \<mapsto> ?a]\<rparr>"
  have "tm_tenants (hs_tm ?h) ''acme'' = Some \<lparr>st_chain = [], st_router = []\<rparr>" by simp
  from unescaped_heartbeat_misses [OF this, of demo_env "Some ''acme''" "life_cfg ''a+b''" "''a''" "''b''" life_tape membolt 30 life_tape Delivered]
  have "hs_agents (heartbeat demo_env membolt 30 life_tape life_tape (Some ''acme'') Delivered Delivered (life_cfg ''a+b'') ?h) (agentKey ''acme'' ''a+b'') =
      hs_agents ?h (agentKey ''acme'' ''a+b'')"
    by (simp add: unreserved_def is_i64_def agents_Get_def agents_live_def agent_dead_def)
  also have "\<dots> = None" by (simp add: agentKey_def)
  finally show ?thesis by blast
qed
end
