(* ===== verification/Spec2Isabelle.thy ===== *)
theory Spec2Isabelle
  imports Jobs Agents Circuit AgentGroup Pipeline KvStore Events Crypto Blockchain Routing RouteResolve NetAddr Billing Auth Mesh Notify Scheduler MathEval RateLimit AuditLog Middleware Health RouteTables AccountApi Workflows FetchGuard AgentInference AgentLife
begin

text \<open>
  Spectral Cloud is a multi-tenant control plane written in Go: an HTTP and gRPC server
  (\<^verbatim>\<open>cmd/spectral-cloud\<close>) over a bbolt database, with agents that register, send heartbeats and
  claim jobs, a signed log of transactions per tenant, a routing table per tenant that a mesh
  of nodes keeps up to date, and the services around them: groups of agents, pipelines,
  schedules, notification rules, metering, circuit breakers, health checks, an audit log.
  This development models these parts in HOL, one theory per component, and proves what makes
  each of them and their composition correct. Paths below are relative to \<^verbatim>\<open>src/\<close>.

  \<^bold>\<open>How a request travels.\<close> A request first passes the middlewares (\<open>Middleware\<close>:
  request identifier, recovery, cross-origin headers, rate limits, audit, metering, tenant of the
  request) and the access checks (\<open>Auth\<close>), then reaches a handler. The handler reads and changes the
  in-memory managers, which write each change to the store; on restart the managers are loaded from
  the store again. Changes are published to the event broker, which feeds the notification rules.

  \<^bold>\<open>The foundation.\<close>
  \<^item> \<open>GoPrelude\<close>: instants and durations as integers with 64-bit wrap-around (\<open>i64\<close>, \<open>is_i64\<close>), the
    parts of the Go library used by several components (trimming, case folding, decimal numbers,
    sorting, identifiers), and the lemmas on lists and maps the components share. Locale
    \<open>id_scheme\<close> (identifiers made from a counter can be read back) and locale
    \<open>strict_pref\<close> (a loop that keeps the better of two elements returns the best one).
  \<^item> \<open>JsonDoc\<close>, \<open>JsonText\<close>: JSON values, decoding of fields as \<^verbatim>\<open>encoding/json\<close> does
    it (last occurrence wins, wrong kinds fail; names are matched exactly), and the bytes of the
    encodings that are signed.
  \<^item> \<open>Store\<close> (\<^verbatim>\<open>pkg/store/store.go\<close>): tenant buckets and the key-value operations. bbolt
    is the parameter \<open>B\<close>, a record of its calls, with its documented laws as \<open>bolt_ok B\<close>; \<open>MemBolt\<close> is a
    concrete database that satisfies them. Locale \<open>persister_laws\<close> is what a manager may rely on when
    it saves and lists records, and is interpreted on the store; locale \<open>record_codec\<close> is what
    the JSON form of a record must satisfy. \<open>RecordManager\<close> proves once, for every manager that
    keeps numbered records in step with the store, that memory equals what a restart loads.
  \<^item> \<open>TenantStore\<close>: the chain and the routes of a tenant in the store, with the fall-back of the default
    tenant to the legacy bucket, and the JSON form of blocks and routes (locale \<open>stored_list\<close>).
  \<^item> \<open>AuditLog\<close> (\<^verbatim>\<open>pkg/store/audit.go\<close>): the log and its listings.

  \<^bold>\<open>The components.\<close> Each theory has the state as a record, one definition per method
  and the invariant with its preservation.
  \<^item> \<open>Jobs\<close> (\<^verbatim>\<open>pkg/jobs\<close>): submission, claiming by priority, updates, expiry, persistence. No job
    is claimed twice, a claim returns the best job, a restart gives the queue back.
  \<^item> \<open>Agents\<close> (\<^verbatim>\<open>pkg/agent\<close>), \<open>Circuit\<close> (\<^verbatim>\<open>pkg/circuit\<close>), \<open>AgentGroup\<close>
    (\<^verbatim>\<open>pkg/agentgroup\<close>), \<open>Health\<close> (\<^verbatim>\<open>pkg/healthcheck\<close>): the registry with lazy expiry
    and selection, the breakers as a function of the history of outcomes, the weighted round robin and
    its fairness, rounds of health checks.
  \<^item> \<open>Pipeline\<close> (\<^verbatim>\<open>pkg/pipeline\<close>), \<open>Scheduler\<close> (\<^verbatim>\<open>pkg/scheduler\<close>), \<open>Notify\<close>
    (\<^verbatim>\<open>pkg/notify\<close>): stages and runs, tickers and what a tick submits, rules and deliveries.
  \<^item> \<open>KvStore\<close> (\<^verbatim>\<open>pkg/kv\<close>), \<open>Events\<close> (\<^verbatim>\<open>pkg/events\<close>): entries with expiry, the ring of
    recent events and the bounded channels of subscribers.
  \<^item> \<open>Crypto\<close>, \<open>Blockchain\<close> (\<^verbatim>\<open>pkg/blockchain\<close>, \<^verbatim>\<open>pkg/webhook\<close>): SHA-256 and HMAC on
    bytes, blocks, signatures and the checks of a chain.
  \<^item> \<open>Routing\<close> (\<^verbatim>\<open>pkg/routing\<close>), \<open>RouteResolve\<close> (\<^verbatim>\<open>cmd/spectral-cloud/main.go\<close>):
    the routing table, scores with the rounding of binary64, selection, and resolution by scope.
  \<^item> \<open>Mesh\<close> (\<^verbatim>\<open>pkg/mesh\<close>): packets, signatures, gossip, peers and the gRPC calls.
  \<^item> \<open>Billing\<close> (\<^verbatim>\<open>pkg/billing\<close>): usage per day, profiles, API keys in the store.
  \<^item> \<open>NetAddr\<close>, \<open>Auth\<close> (\<^verbatim>\<open>pkg/auth\<close>, \<^verbatim>\<open>cmd/spectral-cloud\<close>): addresses and networks,
    tenant keys, path rules, the two authentication middlewares.
  \<^item> \<open>RateLimit\<close>, \<open>Middleware\<close> (\<^verbatim>\<open>cmd/spectral-cloud\<close>): limiters by client and by tenant (locale
    \<open>keyed_limiters\<close>: a client is served as if it had a limiter of its own), the order of the
    middlewares and what each of them sees.
  \<^item> \<open>MathEval\<close> (\<^verbatim>\<open>cmd/spectral-agent/main.go\<close>): the recursive-descent evaluator, equal to the
    value of the expression tree.
  \<^item> \<open>FetchGuard\<close>, \<open>TextTasks\<close>, \<open>AgentTasks\<close>, \<open>AgentInference\<close> (\<^verbatim>\<open>cmd/spectral-agent/main.go\<close>): the guard of
    outbound fetches, the text and data capabilities with the chain of capabilities (a recursion over nested payloads,
    with its termination), and the language-model capabilities, whose services are a function of the request.
  \<^item> \<open>AgentWorker\<close>, \<open>AgentLife\<close>: the agent against the server: claiming, running and reporting jobs over
    the queue of \<open>Jobs\<close>, and registration and heartbeats over the handlers of \<open>ResourceApi\<close>, with lost messages.

  \<^bold>\<open>The composition.\<close>
  \<^item> \<open>TenantManager\<close> (\<^verbatim>\<open>cmd/spectral-cloud/tenant.go\<close>): the tenants in memory and their loading.
  \<^item> \<open>QueryParse\<close>, \<open>TenantApi\<close> (\<^verbatim>\<open>cmd/spectral-cloud/main.go\<close>): the handlers of the chain, the
    routes and the tenants, as functions from memory and store to answer, memory, store
    and published events.
  \<^item> \<open>Durability\<close>, \<open>RouteTables\<close>: over any sequence of requests, failures of the store and restarts,
    acknowledged blocks are kept, routing tables stay well typed and are reloaded as saved.
  \<^item> \<open>AccountApi\<close> (\<^verbatim>\<open>cmd/spectral-cloud/main.go\<close>): sign-up, the profile of a tenant, its API keys, usage
    and plans, over the meter, the key table of \<open>Auth\<close> and the store.
  \<^item> \<open>Hub\<close>, \<open>ResourceApi\<close>, \<open>WorkflowApi\<close> (\<^verbatim>\<open>cmd/spectral-cloud/main.go\<close>): one record \<open>hub\<close> with all managers
    over one database, and the handlers of agents, jobs, entries, rules and breakers, of groups,
    pipelines and schedules. A handler gets its clock readings and iteration orders as a \<open>tape\<close>.
  \<^item> \<open>Isolation\<close>: whatever requests other tenants send, in any order, the agents, jobs, entries, rules,
    groups, pipelines, runs, schedules and stored keys of a tenant stay as they are (locale
    \<open>tenant_records\<close>, interpreted on the six managers that number their records).
  \<^item> \<open>Workflows\<close>: pipelines, registry and job queue together: a started run has its job, and a stage
    without a live agent is skipped when the request is repeated.

  \<^bold>\<open>Conventions.\<close> An operation takes the clock readings, random bytes and iteration orders of
  maps it uses as arguments, so a theorem holds for every clock and every order. A mutex makes
  an operation one step; where the code releases it in between (\<^verbatim>\<open>TouchKey\<close>, the ticks
  of a schedule, two overlapping saves) the halves are separate definitions and the theorems are
  about their interleavings. Errors are values: a \<open>string option\<close>, the left of a sum, or the
  status and message of a response. A nil pointer or an index that would panic is an outcome
  of its own. How \<^verbatim>\<open>strconv\<close> writes and reads a float64 is a parameter (\<open>ff\<close>, \<open>fj\<close>, \<open>fr\<close>) with
  \<open>float_codec\<close> as its law; the arithmetic of \<open>MathEval\<close> is a parameter without any law.

  \<^bold>\<open>Bounds and fuel.\<close> Only \<open>MathEval\<close> uses fuel, the length of the input plus one, and more fuel
  is shown to change nothing. Counters, metrics and durations are machine integers: they are
  kept as integers with \<open>i64\<close> or \<open>mod\<close> written out where the code adds or multiplies, and
  theorems that need a counter not to wrap say so in a hypothesis.

  \<^bold>\<open>Not modelled.\<close> Socket, HTTP client, ticker and goroutine plumbing (the models are
  the functions they call); \<^verbatim>\<open>pkg/ai\<close> and the \<^verbatim>\<open>/ai\<close> handlers, which forward to external
  language-model services; \<^verbatim>\<open>pkg/proto\<close>, generated code; \<^verbatim>\<open>cmd/spectralctl\<close>,
  \<^verbatim>\<open>cmd/spectral-desktop\<close>, clients that print or post
  what the server answers; the capabilities of the agent that only hand their payload to the standard
  library or the system; backups, encryption and compaction of the database file; the handlers
  that only render state as JSON; reading of the environment at start-up; Prometheus metrics and the
  embedded user interface.
\<close>

end
